(* ===== verification/Prelude.thy ===== *)
theory Prelude
  imports Main "HOL-Library.State_Monad" "HOL-Library.Word"
begin

unbundle bit_operations_syntax

section \<open>Shared vocabulary of the development\<close>

text \<open>
  What every component theory uses: the state monad in which the handlers of the firmware are
  written, the record every component state extends (its one field is the world behind the
  Zephyr and modem APIs, on which external calls act), the theorem collections, and generic
  facts on runs of a machine, on lists and on arrays updated by index.
\<close>

named_theorems run_simps \<open>running one monadic operation\<close>
named_theorems spec_simps \<open>unfolding the small predicates properties are stated with\<close>

subsection \<open>Effects\<close>

text \<open>
  A component keeps its static variables in a record that extends \<open>env\<close>. The field
  \<open>world\<close> is the state behind the code that is not part of the repository: drivers, kernel
  objects, storage, the modem. An external function is an argument of the model of type
  \<open>'w \<Rightarrow> 'a \<times> 'w\<close>, and \<open>call\<close> calls it.
\<close>

record 'w env =
  world :: 'w

type_synonym ('s, 'a) prog = "('s, 'a) state"

abbreviation return :: "'a \<Rightarrow> ('s, 'a) prog" where
  "return \<equiv> State_Monad.return"

definition call :: "('w \<Rightarrow> 'a \<times> 'w) \<Rightarrow> (('w, 'z) env_scheme, 'a) prog" where
  "call f = State (\<lambda>s. case f (world s) of (a, w) \<Rightarrow> (a, s\<lparr>world := w\<rparr>))"

text \<open>An external call whose result the code ignores or that returns nothing.\<close>

definition act :: "('w \<Rightarrow> 'w) \<Rightarrow> (('w, 'z) env_scheme, unit) prog" where
  "act f = State (\<lambda>s. ((), s\<lparr>world := f (world s)\<rparr>))"

text \<open>A look at the world that changes nothing.\<close>

definition ask :: "('w \<Rightarrow> 'a) \<Rightarrow> (('w, 'z) env_scheme, 'a) prog" where
  "ask f = State (\<lambda>s. (f (world s), s))"

definition gets :: "('s \<Rightarrow> 'a) \<Rightarrow> ('s, 'a) prog" where
  "gets f = State (\<lambda>s. (f s, s))"

definition modify :: "('s \<Rightarrow> 's) \<Rightarrow> ('s, unit) prog" where
  "modify f = State (\<lambda>s. ((), f s))"

definition doif :: "bool \<Rightarrow> ('s, unit) prog \<Rightarrow> ('s, unit) prog" where
  "doif b p = (if b then p else return ())"

lemma run_call [run_simps, simp]:
  "run_state (call f) s = (fst (f (world s)), s\<lparr>world := snd (f (world s))\<rparr>)"
  by (simp add: call_def split: prod.splits)

lemma run_act [run_simps, simp]: "run_state (act f) s = ((), s\<lparr>world := f (world s)\<rparr>)"
  by (simp add: act_def)

lemma run_ask [run_simps, simp]: "run_state (ask f) s = (f (world s), s)"
  by (simp add: ask_def)

lemma run_gets [run_simps, simp]: "run_state (gets f) s = (f s, s)"
  by (simp add: gets_def)

lemma run_modify [run_simps, simp]: "run_state (modify f) s = ((), f s)"
  by (simp add: modify_def)

lemma run_doif [run_simps, simp]:
  "run_state (doif b p) s = (if b then run_state p s else ((), s))"
  by (simp add: doif_def)

lemma run_if [run_simps]:
  "run_state (if b then p else q) s = (if b then run_state p s else run_state q s)"
  by simp

lemma run_bind [run_simps]:
  "run_state (State_Monad.bind p f) s = run_state (f (fst (run_state p s))) (snd (run_state p s))"
  by (simp add: case_prod_unfold)

text \<open>The state after an operation, and its result.\<close>

definition exec_state :: "('s, 'a) prog \<Rightarrow> 's \<Rightarrow> 's" where
  "exec_state p s = snd (run_state p s)"

definition result :: "('s, 'a) prog \<Rightarrow> 's \<Rightarrow> 'a" where
  "result p s = fst (run_state p s)"

lemmas run_defs = exec_state_def result_def

text \<open>
  The same two views, computed step by step: \<open>exec_simps\<close> runs a program without opening the
  operations it is made of.
\<close>

named_theorems exec_simps \<open>state after and result of the monadic operations\<close>

lemma exec_bind [exec_simps]:
  "exec_state (State_Monad.bind p f) s = exec_state (f (result p s)) (exec_state p s)"
  by (simp add: run_defs case_prod_unfold)

lemma result_bind [exec_simps]:
  "result (State_Monad.bind p f) s = result (f (result p s)) (exec_state p s)"
  by (simp add: run_defs case_prod_unfold)

lemma exec_return [exec_simps]: "exec_state (return x) s = s"
  by (simp add: exec_state_def)

lemma result_return [exec_simps]: "result (return x) s = x"
  by (simp add: result_def)

lemma exec_basic [exec_simps]:
  "exec_state (gets f) s = s" "result (gets f) s = f s"
  "exec_state (modify g) s = g s" "result (modify g) s = ()"
  by (simp_all add: run_defs)

lemma exec_world [exec_simps]:
  "exec_state (call h) s = s\<lparr>world := snd (h (world s))\<rparr>" "result (call h) s = fst (h (world s))"
  "exec_state (act a) s = s\<lparr>world := a (world s)\<rparr>" "result (act a) s = ()"
  "exec_state (ask q) s = s" "result (ask q) s = q (world s)"
  by (simp_all add: run_defs)

lemma exec_doif [exec_simps]:
  "exec_state (doif b p) s = (if b then exec_state p s else s)" "result (doif b p) s = ()"
  by (simp_all add: run_defs)

lemma exec_if [exec_simps]:
  "exec_state (if b then p else q) s = (if b then exec_state p s else exec_state q s)"
  "result (if b then p else q) s = (if b then result p s else result q s)"
  by simp_all

lemma exec_case_prod [exec_simps]:
  "exec_state (case x of (a, b) \<Rightarrow> p a b) s = exec_state (p (fst x) (snd x)) s"
  "result (case x of (a, b) \<Rightarrow> p a b) s = result (p (fst x) (snd x)) s"
  by (simp_all add: case_prod_unfold)

subsection \<open>What an operation leaves alone\<close>

text \<open>
  \<open>keeps f p\<close>: whatever the operation does, the part \<open>f\<close> of the state is the same afterwards.
  The rules follow the structure of the operation, so that a frame property of a handler is one
  call of \<open>intro\<close>.
\<close>

named_theorems keeps_intros \<open>frame rules of the monadic operations\<close>

definition keeps :: "('s \<Rightarrow> 'b) \<Rightarrow> ('s, 'a) prog \<Rightarrow> bool" where
  "keeps f p \<longleftrightarrow> (\<forall>s. f (exec_state p s) = f s)"

lemma keepsD: "keeps f p \<Longrightarrow> f (exec_state p s) = f s"
  by (simp add: keeps_def)

lemma keeps_return [keeps_intros]: "keeps f (return x)"
  by (simp add: keeps_def exec_state_def)

lemma keeps_bind [keeps_intros]:
  "keeps f p \<Longrightarrow> (\<And>x. keeps f (q x)) \<Longrightarrow> keeps f (State_Monad.bind p q)"
  by (simp add: keeps_def exec_state_def case_prod_unfold)

lemma keeps_if [keeps_intros]: "keeps f p \<Longrightarrow> keeps f q \<Longrightarrow> keeps f (if b then p else q)"
  by simp

lemma keeps_doif [keeps_intros]: "keeps f p \<Longrightarrow> keeps f (doif b p)"
  by (simp add: keeps_def exec_state_def)

lemma keeps_ask [keeps_intros]: "keeps f (ask g)" and keeps_gets [keeps_intros]: "keeps h (gets g)"
  by (simp_all add: keeps_def exec_state_def)

lemma keeps_call [keeps_intros]:
  "(\<And>s w. f (s\<lparr>world := w\<rparr>) = f s) \<Longrightarrow> keeps f (call g)"
  by (simp add: keeps_def exec_state_def)

lemma keeps_act [keeps_intros]:
  "(\<And>s w. f (s\<lparr>world := w\<rparr>) = f s) \<Longrightarrow> keeps f (act g)"
  by (simp add: keeps_def exec_state_def)

lemma keeps_modify [keeps_intros]: "(\<And>s. f (g s) = f s) \<Longrightarrow> keeps f (modify g)"
  by (simp add: keeps_def exec_state_def)

lemma keeps_option [keeps_intros]:
  "keeps f p \<Longrightarrow> (\<And>x. keeps f (q x)) \<Longrightarrow> keeps f (case y of None \<Rightarrow> p | Some x \<Rightarrow> q x)"
  by (simp split: option.split)

lemma keeps_sum [keeps_intros]:
  "(\<And>x. keeps f (p x)) \<Longrightarrow> (\<And>x. keeps f (q x)) \<Longrightarrow> keeps f (case y of Inl x \<Rightarrow> p x | Inr x \<Rightarrow> q x)"
  by (simp split: sum.split)

lemma keeps_prod [keeps_intros]:
  "(\<And>x z. keeps f (p x z)) \<Longrightarrow> keeps f (case y of (x, z) \<Rightarrow> p x z)"
  by (simp split: prod.split)

lemma keeps_Let [keeps_intros]: "keeps f (p x) \<Longrightarrow> keeps f (Let x p)"
  by (simp add: Let_def)

subsection \<open>Triples\<close>

text \<open>
  \<open>valid P p Q\<close>: from a state with \<open>P\<close> the operation ends in a state, and with a result, with \<open>Q\<close>.
  \<open>valid_same\<close> is the rule for a step that keeps the precondition.
\<close>

definition valid :: "('s \<Rightarrow> bool) \<Rightarrow> ('s, 'a) prog \<Rightarrow> ('a \<Rightarrow> 's \<Rightarrow> bool) \<Rightarrow> bool" where
  "valid P p Q \<longleftrightarrow> (\<forall>s. P s \<longrightarrow> Q (result p s) (exec_state p s))"

lemma validD: "valid P p Q \<Longrightarrow> P s \<Longrightarrow> Q (result p s) (exec_state p s)"
  by (simp add: valid_def)

lemma validI: "(\<And>s. P s \<Longrightarrow> Q (result p s) (exec_state p s)) \<Longrightarrow> valid P p Q"
  by (simp add: valid_def)

lemma valid_bind: "valid P p R \<Longrightarrow> (\<And>x. valid (R x) (q x) Q) \<Longrightarrow> valid P (State_Monad.bind p q) Q"
  by (simp add: valid_def exec_bind result_bind)

lemma valid_same: "valid P p (\<lambda>_. P) \<Longrightarrow> (\<And>x. valid P (q x) Q) \<Longrightarrow> valid P (State_Monad.bind p q) Q"
  by (rule valid_bind)

lemma valid_return: "(\<And>s. P s \<Longrightarrow> Q x s) \<Longrightarrow> valid P (return x) Q"
  by (simp add: valid_def exec_simps)

lemma valid_if: "(b \<Longrightarrow> valid P p Q) \<Longrightarrow> (\<not> b \<Longrightarrow> valid P q Q) \<Longrightarrow> valid P (if b then p else q) Q"
  by simp

lemma valid_doif: "(b \<Longrightarrow> valid P p Q) \<Longrightarrow> (\<And>s. \<not> b \<Longrightarrow> P s \<Longrightarrow> Q () s) \<Longrightarrow> valid P (doif b p) Q"
  by (simp add: valid_def exec_simps)

lemma valid_sum:
  "(\<And>x. y = Inl x \<Longrightarrow> valid P (p x) Q) \<Longrightarrow> (\<And>x. y = Inr x \<Longrightarrow> valid P (q x) Q) \<Longrightarrow>
    valid P (case y of Inl x \<Rightarrow> p x | Inr x \<Rightarrow> q x) Q"
  by (simp split: sum.split)

lemma valid_option:
  "(y = None \<Longrightarrow> valid P p Q) \<Longrightarrow> (\<And>x. y = Some x \<Longrightarrow> valid P (q x) Q) \<Longrightarrow>
    valid P (case y of None \<Rightarrow> p | Some x \<Rightarrow> q x) Q"
  by (simp split: option.split)

lemma valid_gets: "(\<And>s. P s \<Longrightarrow> Q (f s) s) \<Longrightarrow> valid P (gets f) Q"
  by (simp add: valid_def exec_simps)

lemma valid_modify: "(\<And>s. P s \<Longrightarrow> Q () (f s)) \<Longrightarrow> valid P (modify f) Q"
  by (simp add: valid_def exec_simps)

lemma valid_call:
  "(\<And>s a w. P s \<Longrightarrow> g (world s) = (a, w) \<Longrightarrow> Q a (s\<lparr>world := w\<rparr>)) \<Longrightarrow> valid P (call g) Q"
  by (simp add: valid_def exec_simps prod_eq_iff)

lemma valid_act: "(\<And>s. P s \<Longrightarrow> Q () (s\<lparr>world := f (world s)\<rparr>)) \<Longrightarrow> valid P (act f) Q"
  by (simp add: valid_def exec_simps)

lemma valid_keeps:
  assumes "\<And>s t. f s = f t \<Longrightarrow> P s = P t" "keeps f p"
  shows "valid P p (\<lambda>_. P)"
proof (rule validI)
  fix s assume "P s"
  then show "P (exec_state p s)"
    using assms(1) [OF keepsD [OF assms(2)], of s] by simp
qed

lemma valid_imp: "valid P p Q \<Longrightarrow> (\<And>s. P' s \<Longrightarrow> P s) \<Longrightarrow> (\<And>x s. Q x s \<Longrightarrow> Q' x s) \<Longrightarrow> valid P' p Q'"
  by (simp add: valid_def)

subsection \<open>Machines and their invariants\<close>

text \<open>
  Interface of a component driven by a sequence of inputs (timer ticks, received bytes,
  shell commands): one step per input, and an invariant every step keeps. The client's fact is
  that every run keeps it.
\<close>

locale machine =
  fixes step :: "'s \<Rightarrow> 'e \<Rightarrow> 's"
    and inv :: "'s \<Rightarrow> bool"
  assumes step_inv: "inv s \<Longrightarrow> inv (step s e)"
begin

lemma run_inv: "inv s \<Longrightarrow> inv (foldl step s es)"
  by (induction es arbitrary: s) (auto intro: step_inv)

lemma run_inv_prefix: "inv s \<Longrightarrow> inv (foldl step s (take n es))"
  by (rule run_inv)

end

text \<open>
  A machine with a specification: the view \<open>abs\<close> of the state makes each step a step of \<open>spec\<close>,
  so that runs are runs of the specification.
\<close>

locale simulation = machine step inv
  for step :: "'s \<Rightarrow> 'e \<Rightarrow> 's" and inv :: "'s \<Rightarrow> bool" +
  fixes abs :: "'s \<Rightarrow> 'a"
    and spec :: "'a \<Rightarrow> 'e \<Rightarrow> 'a"
  assumes step_sim: "inv s \<Longrightarrow> abs (step s e) = spec (abs s) e"
begin

lemma run_sim: "inv s \<Longrightarrow> abs (foldl step s es) = foldl spec (abs s) es"
  by (induction es arbitrary: s) (simp_all add: step_inv step_sim)

end

subsection \<open>Arrays\<close>

text \<open>An array read with its bounds: \<open>None\<close> is a read past the end.\<close>

definition array_get :: "'a list \<Rightarrow> nat \<Rightarrow> 'a option" where
  "array_get xs i = (if i < length xs then Some (xs ! i) else None)"

lemma array_get_Some [simp]: "i < length xs \<Longrightarrow> array_get xs i = Some (xs ! i)"
  by (simp add: array_get_def)

lemma array_get_None_iff [simp]: "array_get xs i = None \<longleftrightarrow> length xs \<le> i"
  by (auto simp: array_get_def)

text \<open>Overwriting a stretch of an array from index \<open>i\<close> on.\<close>

definition blit :: "'a list \<Rightarrow> nat \<Rightarrow> 'a list \<Rightarrow> 'a list" where
  "blit buf i xs = take i buf @ xs @ drop (i + length xs) buf"

lemma length_blit [simp]: "i + length xs \<le> length buf \<Longrightarrow> length (blit buf i xs) = length buf"
  by (simp add: blit_def)

lemma take_blit: "i \<le> length buf \<Longrightarrow> take (i + length xs) (blit buf i xs) = take i buf @ xs"
  by (simp add: blit_def)

lemma take_list_update_beyond: "n \<le> i \<Longrightarrow> take n (xs[i := x]) = take n xs"
  by (simp add: take_update_cancel)

lemma take_Suc_list_update: "n < length xs \<Longrightarrow> take (Suc n) (xs[n := x]) = take n xs @ [x]"
  by (simp add: take_Suc_conv_app_nth)

lemma foldl_invariant:
  assumes "\<And>s e. P s \<Longrightarrow> P (f s e)" and "P s"
  shows "P (foldl f s es)"
  using assms(2) by (induction es arbitrary: s) (auto intro: assms(1))

end
