(* ===== verification/C_Lib.thy ===== *)
theory C_Lib
  imports Prelude "HOL-Library.Char_ord"
begin

section \<open>The C library and the conventions the sources rely on\<close>

text \<open>
  The parts of the C standard library the sources call (\<open>strtol\<close>, decimal output, C strings
  in fixed arrays, \<open>strtok_r\<close>), the error numbers they return, the memory layout of the
  integers they store, and the shape of what they print. \<open>long\<close> and \<open>int\<close> have 32 bits on
  the Cortex-M targets of the firmware.
\<close>

subsection \<open>Error numbers\<close>

definition EPERM :: int where "EPERM = 1"
definition EIO :: int where "EIO = 5"
definition ENOEXEC :: int where "ENOEXEC = 8"
definition ENOMEM :: int where "ENOMEM = 12"
definition EBUSY :: int where "EBUSY = 16"
definition ENODEV :: int where "ENODEV = 19"
definition EINVAL :: int where "EINVAL = 22"
definition ENODATA :: int where "ENODATA = 61"
definition EALREADY :: int where "EALREADY = 114"
definition ENOTSUP :: int where "ENOTSUP = 134"

lemmas errno_defs = EPERM_def EIO_def ENOEXEC_def ENOMEM_def EBUSY_def ENODEV_def EINVAL_def
  ENODATA_def EALREADY_def ENOTSUP_def

subsection \<open>Printed output\<close>

text \<open>
  A print of the shell is its level, its format string and its arguments; the formatting itself
  is the shell library's. \<open>PWild\<close> is the argument read past the end of a table.
\<close>

datatype parg = PInt int | PStr string | PWild

datatype out = Print string "parg list" | Warn string "parg list" | Error string "parg list"

definition table_arg :: "string list \<Rightarrow> nat \<Rightarrow> parg" where
  "table_arg t i = (case array_get t i of Some d \<Rightarrow> PStr d | None \<Rightarrow> PWild)"

lemma table_arg_in_range [simp]: "i < length t \<Longrightarrow> table_arg t i = PStr (t ! i)"
  by (simp add: table_arg_def)

lemma table_arg_wild: "table_arg t i = PWild \<longleftrightarrow> length t \<le> i"
  by (simp add: table_arg_def array_get_def)

subsection \<open>strtol\<close>

definition LONG_MAX :: int where "LONG_MAX = 2147483647"
definition LONG_MIN :: int where "LONG_MIN = -2147483648"

definition isspace :: "char \<Rightarrow> bool" where
  "isspace c \<longleftrightarrow> c \<in> {CHR '' '', CHR 0x09, CHR 0x0A, CHR 0x0B, CHR 0x0C, CHR 0x0D}"

definition char_code :: "char \<Rightarrow> nat" where
  "char_code c = of_char c"

text \<open>The value of a digit or letter; 36 when the character is neither.\<close>

definition digit_value :: "char \<Rightarrow> nat" where
  "digit_value c = (let n = char_code c in
     if 48 \<le> n \<and> n \<le> 57 then n - 48
     else if 97 \<le> n \<and> n \<le> 122 then n - 87
     else if 65 \<le> n \<and> n \<le> 90 then n - 55
     else 36)"

definition is_digit :: "nat \<Rightarrow> char \<Rightarrow> bool" where
  "is_digit base c \<longleftrightarrow> digit_value c < base"

definition digits_value :: "nat \<Rightarrow> string \<Rightarrow> nat" where
  "digits_value base ds = foldl (\<lambda>n c. n * base + digit_value c) 0 ds"

text \<open>The base in use and the rest of the input, once a \<open>0x\<close> or \<open>0\<close> prefix is read.\<close>

definition strtol_base :: "nat \<Rightarrow> string \<Rightarrow> nat \<times> string" where
  "strtol_base base s =
     (let hex = (case s of z # x # d # _ \<Rightarrow>
                   z = CHR ''0'' \<and> (x = CHR ''x'' \<or> x = CHR ''X'') \<and> is_digit 16 d
                 | _ \<Rightarrow> False)
      in if (base = 0 \<or> base = 16) \<and> hex then (16, drop 2 s)
         else if base = 0 then (if take 1 s = ''0'' then (8, s) else (10, s))
         else (base, s))"

definition saturate :: "int \<Rightarrow> int" where
  "saturate v = (if v > LONG_MAX then LONG_MAX else if v < LONG_MIN then LONG_MIN else v)"

text \<open>
  \<open>strtol s base\<close>: \<open>None\<close> when no conversion is made (the end pointer is the start of the
  input, the value 0), else the value, the input from the end pointer on, and whether the value
  was out of range (\<open>errno\<close> set to \<open>ERANGE\<close>, the value saturated).
\<close>

definition strtol :: "nat \<Rightarrow> string \<Rightarrow> (int \<times> string \<times> bool) option" where
  "strtol base s =
     (let s1 = dropWhile isspace s;
          neg = (take 1 s1 = ''-'');
          s2 = (if take 1 s1 = ''-'' \<or> take 1 s1 = ''+'' then drop 1 s1 else s1);
          (b, s3) = strtol_base base s2;
          ds = takeWhile (is_digit b) s3;
          v = (if neg then - int (digits_value b ds) else int (digits_value b ds))
      in if ds = [] then None
         else Some (saturate v, dropWhile (is_digit b) s3, saturate v \<noteq> v))"

lemma saturate_id [simp]: "LONG_MIN \<le> v \<Longrightarrow> v \<le> LONG_MAX \<Longrightarrow> saturate v = v"
  by (simp add: saturate_def)

lemma saturate_bounds: "LONG_MIN \<le> saturate v \<and> saturate v \<le> LONG_MAX"
  by (simp add: saturate_def LONG_MIN_def LONG_MAX_def)

subsection \<open>Decimal output\<close>

fun show_nat :: "nat \<Rightarrow> string" where
  "show_nat n = (if n < 10 then [char_of (48 + n)]
                 else show_nat (n div 10) @ [char_of (48 + n mod 10)])"

declare show_nat.simps [simp del]

definition show_int :: "int \<Rightarrow> string" where
  "show_int i = (if i < 0 then CHR ''-'' # show_nat (nat (- i)) else show_nat (nat i))"

lemma digit_value_char_of [simp]: "d < 10 \<Longrightarrow> digit_value (char_of (48 + d)) = d"
  by (simp add: digit_value_def char_code_def Let_def)

lemma digits_value_snoc [simp]:
  "digits_value b (ds @ [c]) = digits_value b ds * b + digit_value c"
  by (simp add: digits_value_def)

lemma digits_value_show_nat [simp]: "digits_value 10 (show_nat n) = n"
proof (induction n rule: show_nat.induct)
  case (1 n)
  show ?case
  proof (cases "n < 10")
    case True
    then show ?thesis
      by (subst show_nat.simps) (simp add: digits_value_def)
  next
    case False
    then show ?thesis
      using 1 by (subst show_nat.simps) simp
  qed
qed

lemma show_nat_not_Nil [simp]: "show_nat n \<noteq> []"
  by (subst show_nat.simps) simp

lemma show_nat_digits: "c \<in> set (show_nat n) \<Longrightarrow> is_digit 10 c"
proof (induction n rule: show_nat.induct)
  case (1 n)
  then show ?case
    by (subst (asm) (2) show_nat.simps) (auto simp: is_digit_def split: if_splits)
qed

lemma length_show_nat_le: "n < 10 ^ k \<Longrightarrow> 0 < k \<Longrightarrow> length (show_nat n) \<le> k"
proof (induction n arbitrary: k rule: show_nat.induct)
  case (1 n)
  show ?case
  proof (cases "n < 10")
    case True
    with 1 show ?thesis by (subst show_nat.simps) simp
  next
    case False
    then obtain j where k: "k = Suc j" "0 < j"
      using 1 by (cases k; cases "k - 1") auto
    then have "length (show_nat (n div 10)) \<le> j"
      using 1 False by simp
    then show ?thesis
      using False k by (subst show_nat.simps) simp
  qed
qed

text \<open>Reading back what was printed: the number printed is the number parsed.\<close>

lemma digit_not_special:
  assumes "is_digit 10 c"
  shows "\<not> isspace c" "c \<noteq> CHR ''-''" "c \<noteq> CHR ''+''"
  using assms by (auto simp: is_digit_def isspace_def digit_value_def char_code_def Let_def)

lemma strtol_digits:
  assumes "ds \<noteq> []" and ds: "\<forall>c\<in>set ds. is_digit 10 c"
    and rest: "rest = [] \<or> \<not> is_digit 10 (hd rest)"
  shows "strtol 10 (ds @ rest) =
    Some (saturate (int (digits_value 10 ds)), rest,
          saturate (int (digits_value 10 ds)) \<noteq> int (digits_value 10 ds))"
    and "strtol 10 (CHR ''-'' # ds @ rest) =
    Some (saturate (- int (digits_value 10 ds)), rest,
          saturate (- int (digits_value 10 ds)) \<noteq> - int (digits_value 10 ds))"
proof -
  obtain d ds' where d: "ds = d # ds'" and dd: "is_digit 10 d"
    using assms(1) ds by (cases ds) auto
  have tw: "takeWhile (is_digit 10) (ds @ rest) = ds"
    using ds rest by (cases rest) (auto simp: takeWhile_append)
  have dw: "dropWhile (is_digit 10) (ds @ rest) = rest"
    using ds rest by (cases rest) (auto simp: dropWhile_append)
  note sp = digit_not_special [OF dd]
  have minus: "\<not> isspace (CHR ''-'')" by (simp add: isspace_def)
  show "strtol 10 (ds @ rest) =
    Some (saturate (int (digits_value 10 ds)), rest,
          saturate (int (digits_value 10 ds)) \<noteq> int (digits_value 10 ds))"
    using tw dw sp by (simp add: strtol_def strtol_base_def Let_def d)
  show "strtol 10 (CHR ''-'' # ds @ rest) =
    Some (saturate (- int (digits_value 10 ds)), rest,
          saturate (- int (digits_value 10 ds)) \<noteq> - int (digits_value 10 ds))"
    using tw dw sp minus by (simp add: strtol_def strtol_base_def Let_def d)
qed

lemma strtol_show_int:
  "strtol 10 (show_int v) = Some (saturate v, [], saturate v \<noteq> v)"
proof (cases "v < 0")
  case True
  then show ?thesis
    using strtol_digits(2) [of "show_nat (nat (- v))" "[]"] show_nat_digits
    by (simp add: show_int_def)
next
  case False
  then show ?thesis
    using strtol_digits(1) [of "show_nat (nat v)" "[]"] show_nat_digits
    by (simp add: show_int_def)
qed

lemma strtol_bounds:
  "strtol b s = Some (v, rest, ov) \<Longrightarrow> LONG_MIN \<le> v \<and> v \<le> LONG_MAX"
proof -
  assume "strtol b s = Some (v, rest, ov)"
  then have "\<exists>u. v = saturate u"
    by (auto simp: strtol_def Let_def split: prod.splits if_splits)
  then show ?thesis using saturate_bounds by auto
qed

definition atoi :: "string \<Rightarrow> int" where
  "atoi t = (case strtol 10 t of None \<Rightarrow> 0 | Some (v, _, _) \<Rightarrow> v)"

subsection \<open>C strings in fixed arrays\<close>

definition NUL :: char where
  "NUL = CHR 0x00"

text \<open>The string an array holds: its characters up to the first NUL.\<close>

definition cstr :: "string \<Rightarrow> string" where
  "cstr buf = takeWhile (\<lambda>c. c \<noteq> NUL) buf"

definition terminated :: "string \<Rightarrow> bool" where
  "terminated buf \<longleftrightarrow> NUL \<in> set buf"

text \<open>\<open>strcpy\<close>: the string and its NUL go to the start of the array.\<close>

definition strcpy :: "string \<Rightarrow> string \<Rightarrow> string" where
  "strcpy buf s = blit buf 0 (s @ [NUL])"

lemma cstr_append_NUL [simp]: "NUL \<notin> set s \<Longrightarrow> cstr (s @ NUL # rest) = s"
  by (simp add: cstr_def takeWhile_append)

lemma cstr_NUL [simp]: "cstr (NUL # v) = []"
  by (simp add: cstr_def)

lemma NUL_notin_cstr [simp]: "NUL \<notin> set (cstr buf)"
  by (auto simp: cstr_def dest: set_takeWhileD)

lemma length_cstr_less: "terminated buf \<Longrightarrow> length (cstr buf) < length buf"
  unfolding terminated_def cstr_def
  by (induction buf) auto

lemma length_strcpy [simp]: "length s < length buf \<Longrightarrow> length (strcpy buf s) = length buf"
  by (simp add: strcpy_def)

lemma cstr_strcpy [simp]: "NUL \<notin> set s \<Longrightarrow> cstr (strcpy buf s) = s"
  by (simp add: strcpy_def blit_def)

lemma terminated_strcpy [simp]: "terminated (strcpy buf s)"
  by (simp add: strcpy_def blit_def terminated_def)

text \<open>
  \<open>strtok_r\<close> from position \<open>pos\<close> of an array, with one delimiter: the token's position and length,
  the array with the delimiter after the token overwritten, and the position to go on from.
  \<open>None\<close> when only delimiters are left before the NUL.
\<close>

definition strtok_r :: "char \<Rightarrow> string \<Rightarrow> nat \<Rightarrow> (nat \<times> nat \<times> string \<times> nat) option" where
  "strtok_r d buf pos =
     (let start = pos + length (takeWhile (\<lambda>c. c = d) (drop pos buf));
          len = length (takeWhile (\<lambda>c. c \<noteq> d \<and> c \<noteq> NUL) (drop start buf));
          fin = start + len
      in if len = 0 then None
         else if fin < length buf \<and> buf ! fin = d then Some (start, len, buf[fin := NUL], Suc fin)
         else Some (start, len, buf, fin))"

definition substr :: "string \<Rightarrow> nat \<Rightarrow> nat \<Rightarrow> string" where
  "substr buf start len = take len (drop start buf)"

text \<open>\<open>strncpy\<close> of \<open>n\<close> characters: the string up to its NUL, padded with NULs.\<close>

definition strncpy :: "string \<Rightarrow> string \<Rightarrow> nat \<Rightarrow> string" where
  "strncpy buf s n = (let t = take n (cstr s) in blit buf 0 (t @ replicate (n - length t) NUL))"

lemma strtok_r_bounds:
  assumes "strtok_r d buf pos = Some (start, len, buf', save)"
  shows "pos \<le> start" "0 < len" "start + len \<le> length buf" "start + len \<le> save" "save \<le> length buf"
    "length buf' = length buf" "pos < save"
proof -
  define st where "st = pos + length (takeWhile (\<lambda>c. c = d) (drop pos buf))"
  define n where "n = length (takeWhile (\<lambda>c. c \<noteq> d \<and> c \<noteq> NUL) (drop st buf))"
  have n: "n \<le> length buf - st"
    using length_takeWhile_le [of _ "drop st buf"] by (simp add: n_def)
  have eqs: "start = st" "len = n" "0 < n"
    using assms unfolding strtok_r_def Let_def st_def [symmetric] n_def [symmetric]
    by (auto split: if_splits)
  then have "start + len \<le> length buf" using n by simp
  then show "pos \<le> start" "0 < len" "start + len \<le> length buf" "start + len \<le> save"
    "save \<le> length buf" "length buf' = length buf" "pos < save"
    using assms eqs unfolding strtok_r_def Let_def st_def [symmetric] n_def [symmetric]
    by (auto simp: st_def split: if_splits)
qed

text \<open>The bytes of a string, and the writes of \<open>snprintf\<close>: what fits, and a NUL.\<close>

definition str_bytes :: "string \<Rightarrow> 8 word list" where
  "str_bytes s = map (\<lambda>c. of_nat (of_char c)) s"

lemma length_str_bytes [simp]: "length (str_bytes s) = length s"
  by (simp add: str_bytes_def)

definition snprintf_bytes :: "nat \<Rightarrow> string \<Rightarrow> 8 word list" where
  "snprintf_bytes n s = (if n = 0 then [] else str_bytes (take (n - 1) s) @ [0])"

lemma length_snprintf_bytes: "length (snprintf_bytes n s) \<le> n"
  by (cases n) (simp_all add: snprintf_bytes_def)

subsection \<open>Integers in memory\<close>

text \<open>The targets are little-endian; \<open>settings_save_one\<close> stores the bytes of a variable.\<close>

definition le32 :: "32 word \<Rightarrow> 8 word list" where
  "le32 v = [ucast v, ucast (drop_bit 8 v), ucast (drop_bit 16 v), ucast (drop_bit 24 v)]"

definition of_le32 :: "8 word list \<Rightarrow> 32 word" where
  "of_le32 bs = foldr (\<lambda>b v. (ucast b :: 32 word) OR push_bit 8 v) bs 0"

lemma length_le32 [simp]: "length (le32 v) = 4"
  by (simp add: le32_def)

lemma of_le32_le32 [simp]: "of_le32 (le32 v) = v"
proof (rule bit_word_eqI)
  fix n assume "n < LENGTH(32)"
  then have n: "n < 32" by simp
  consider "n < 8" | "8 \<le> n" "n < 16" | "16 \<le> n" "n < 24" | "24 \<le> n"
    by linarith
  then show "bit (of_le32 (le32 v)) n \<longleftrightarrow> bit v n"
    using n by cases (auto simp: of_le32_def le32_def bit_simps)
qed

text \<open>A C \<open>int\<close> variable holds 32 bits in two's complement.\<close>

definition int_bytes :: "int \<Rightarrow> 8 word list" where
  "int_bytes i = le32 (word_of_int i)"

definition int_of_bytes :: "8 word list \<Rightarrow> int" where
  "int_of_bytes bs = sint (of_le32 bs)"

lemma length_int_bytes [simp]: "length (int_bytes i) = 4"
  by (simp add: int_bytes_def)

lemma int_of_bytes_int_bytes [simp]:
  "- (2 ^ 31) \<le> i \<Longrightarrow> i < 2 ^ 31 \<Longrightarrow> int_of_bytes (int_bytes i) = i"
  by (simp add: int_of_bytes_def int_bytes_def signed_take_bit_int_eq_self sint_sbintrunc')

end
