(* ===== verification/Ifmcu_Env.thy ===== *)
theory Ifmcu_Env
  imports C_Lib
begin

section \<open>The Interface MCU firmware: its state and the code it calls\<close>

text \<open>
  The static variables of \<open>applications/ifmcu_firmware/src\<close> as one record, and the Zephyr
  functions the firmware calls as the fields of one record of functions, the parameter
  \<open>Z\<close> of every definition. Nothing is assumed of these functions here; a property that
  relies on one names what it relies on.
\<close>

subsection \<open>Names of devices and objects\<close>

datatype led_dev = Led_Gpio | Led_Pwm

datatype ifmcu_work =
    Charging_Dwork
  | Nrf91_Reset_Work
  | Ifmcu_Reset_Work
  | Ifmcu_Bootloader_Work

datatype charger_prop =
    CHARGER_PROP_ONLINE
  | CHARGER_PROP_STATUS
  | CHARGER_PROP_CONSTANT_CHARGE_CURRENT_UA
  | CHARGER_PROP_CONSTANT_CHARGE_VOLTAGE_UV

datatype gpio_spec = Viosel_Gpio | Simdet_Gpio | Reset_Pin

datatype gpio_flags =
    GPIO_OUTPUT_ACTIVE
  | GPIO_OUTPUT_INACTIVE
  | GPIO_OUTPUT_LOW
  | GPIO_INPUT
  | GPIO_DISCONNECTED

datatype reboot_type = SYS_REBOOT_COLD | SYS_REBOOT_WARM

text \<open>\<open>sys_poweroff\<close> and \<open>sys_reboot\<close> do not return: the state records which was called.\<close>

datatype run_mode = Running | System_Off | Rebooting reboot_type

subsection \<open>The functions of Zephyr the firmware calls\<close>

record 'w zephyr =
  led_off :: "led_dev \<Rightarrow> nat \<Rightarrow> 'w \<Rightarrow> int \<times> 'w"
  led_set_brightness :: "led_dev \<Rightarrow> nat \<Rightarrow> 8 word \<Rightarrow> 'w \<Rightarrow> int \<times> 'w"
  k_timer_start :: "nat \<Rightarrow> nat \<Rightarrow> 'w \<Rightarrow> 'w"
  k_sleep :: "nat \<Rightarrow> 'w \<Rightarrow> 'w"
  k_work_busy_get :: "ifmcu_work \<Rightarrow> 'w \<Rightarrow> bool"
  k_work_schedule :: "ifmcu_work \<Rightarrow> nat \<Rightarrow> 'w \<Rightarrow> 'w"
  k_work_reschedule :: "ifmcu_work \<Rightarrow> nat \<Rightarrow> 'w \<Rightarrow> 'w"
  charger_is_ready :: "'w \<Rightarrow> bool"
  charger_charge_enable :: "bool \<Rightarrow> 'w \<Rightarrow> int \<times> 'w"
  charger_get_prop :: "charger_prop \<Rightarrow> 'w \<Rightarrow> (int \<times> 32 word) \<times> 'w"
  charger_set_prop :: "charger_prop \<Rightarrow> 32 word \<Rightarrow> 'w \<Rightarrow> int \<times> 'w"
  i2c_reg_read_byte :: "8 word \<Rightarrow> 'w \<Rightarrow> (int \<times> 8 word) \<times> 'w"
  i2c_reg_update_byte :: "8 word \<Rightarrow> 8 word \<Rightarrow> 8 word \<Rightarrow> 'w \<Rightarrow> int \<times> 'w"
  gpio_is_ready :: "gpio_spec \<Rightarrow> 'w \<Rightarrow> bool"
  gpio_pin_configure :: "gpio_spec \<Rightarrow> gpio_flags \<Rightarrow> 'w \<Rightarrow> int \<times> 'w"
  gpio_pin_get :: "gpio_spec \<Rightarrow> 'w \<Rightarrow> int \<times> 'w"
  settings_subsys_init :: "'w \<Rightarrow> int \<times> 'w"
  settings_register :: "string \<Rightarrow> 'w \<Rightarrow> int \<times> 'w"
  settings_stored :: "'w \<Rightarrow> (string \<times> 8 word list) list"
  settings_save_one :: "string \<Rightarrow> 8 word list \<Rightarrow> 'w \<Rightarrow> int \<times> 'w"
  sensor_is_ready :: "'w \<Rightarrow> bool"
  sensor_sample_fetch :: "'w \<Rightarrow> int \<times> 'w"
  sensor_channel_get :: "'w \<Rightarrow> (int \<times> int \<times> int) \<times> 'w"
  dk_buttons_init :: "'w \<Rightarrow> int \<times> 'w"

subsection \<open>The static state of the firmware\<close>

text \<open>\<open>led_state.h\<close>: the states of an indicator, in the order of the C enumeration.\<close>

datatype led_state =
    LED_STATE_OFF
  | LED_STATE_ON
  | LED_STATE_BLINK
  | LED_STATE_BLINK_PERMANENT
  | LED_STATE_BREATH

record led_chan =
  led_activity :: bool
  led_mode :: led_state
  led_level :: "8 word"

record leds =
  pgood_led :: led_chan
  charger_led :: led_chan
  uart_led :: led_chan
  dap_led :: led_chan
  charger_led_dir :: "8 word"

definition led_chan_init :: led_chan where
  "led_chan_init = \<lparr>led_activity = False, led_mode = LED_STATE_OFF, led_level = 0\<rparr>"

definition leds_init :: leds where
  "leds_init = \<lparr>pgood_led = led_chan_init, charger_led = led_chan_init,
     uart_led = led_chan_init, dap_led = led_chan_init, charger_led_dir = 1\<rparr>"

text \<open>
  \<open>scb_scr\<close> is the System Control Register of the core, \<open>gpregret\<close> the retained register
  that tells the bootloader to stay; both are memory mapped and written by the firmware itself.
\<close>

record 'w ifmcu = "'w env" +
  leds :: leds
  viosel :: int
  scb_scr :: "32 word"
  gpregret :: "32 word"
  run_mode :: run_mode

type_synonym ('w, 'z, 'a) ifmcu_prog = "(('w, 'z) ifmcu_scheme, 'a) prog"

definition ifmcu_init :: "'w \<Rightarrow> 32 word \<Rightarrow> 'w ifmcu" where
  "ifmcu_init w scr = \<lparr>world = w, leds = leds_init, viosel = -1, scb_scr = scr, gpregret = 0,
     run_mode = Running\<rparr>"

subsection \<open>Requesting a work item\<close>

text \<open>
  Wherever the firmware asks for a reset it first looks whether the work item is already pending:
  \<open>if (!k_work_busy_get(&w.work)) k_work_reschedule(&w, K_NO_WAIT)\<close>.
\<close>

definition request_work :: "'w zephyr \<Rightarrow> ifmcu_work \<Rightarrow> ('w, 'z, unit) ifmcu_prog" where
  "request_work Z k = do {
     busy \<leftarrow> ask (k_work_busy_get Z k);
     doif (\<not> busy) (act (k_work_reschedule Z k 0))
   }"

definition work_requested :: "'w zephyr \<Rightarrow> ifmcu_work \<Rightarrow> 'w \<Rightarrow> 'w" where
  "work_requested Z k w = (if k_work_busy_get Z k w then w else k_work_reschedule Z k 0 w)"

lemma run_request_work [run_simps, simp]:
  "run_state (request_work Z k) s = ((), s\<lparr>world := work_requested Z k (world s)\<rparr>)"
  by (simp add: request_work_def work_requested_def)

end
