(* ===== verification/Ifmcu_Leds.thy ===== *)
theory Ifmcu_Leds
  imports Ifmcu_Env
begin

section \<open>LED indicators (\<open>led_state.c\<close>)\<close>

text \<open>
  Four indicators, each a small state machine advanced by a 50 ms timer. The setters arm a
  channel; the timer callback advances every armed channel and writes its brightness. The
  contract the four share is the locale \<open>led_channel\<close>.
\<close>

definition LED_MAX_BRIGHTNESS :: "8 word" where
  "LED_MAX_BRIGHTNESS = 80"

definition LED_BREATH_STEP :: "8 word" where
  "LED_BREATH_STEP = 2"

definition LED_STATE_TICK :: nat where
  "LED_STATE_TICK = 50"

definition LED_ID_PGOOD_STATE :: nat where "LED_ID_PGOOD_STATE = 0"
definition LED_ID_UART_STATE :: nat where "LED_ID_UART_STATE = 1"
definition LED_ID_DAP_STATE :: nat where "LED_ID_DAP_STATE = 2"
definition LED_ID_CHARGER_STATE :: nat where "LED_ID_CHARGER_STATE = 0"

subsection \<open>Setters\<close>

definition arm :: "led_state \<Rightarrow> led_chan \<Rightarrow> led_chan" where
  "arm st c = c\<lparr>led_activity := True, led_mode := st\<rparr>"

definition disarm :: "led_chan \<Rightarrow> led_chan" where
  "disarm c = c\<lparr>led_activity := False\<rparr>"

definition upd_leds :: "(leds \<Rightarrow> leds) \<Rightarrow> ('w, 'z, unit) ifmcu_prog" where
  "upd_leds f = modify (\<lambda>s. s\<lparr>leds := f (leds s)\<rparr>)"

definition set_pgood_led_state :: "led_state \<Rightarrow> ('w, 'z, unit) ifmcu_prog" where
  "set_pgood_led_state st = upd_leds (\<lambda>l. l\<lparr>pgood_led := arm st (pgood_led l)\<rparr>)"

definition set_charger_led_state :: "led_state \<Rightarrow> ('w, 'z, unit) ifmcu_prog" where
  "set_charger_led_state st = upd_leds (\<lambda>l. l\<lparr>charger_led := arm st (charger_led l)\<rparr>)"

definition set_dap_led_state :: "led_state \<Rightarrow> ('w, 'z, unit) ifmcu_prog" where
  "set_dap_led_state st = upd_leds (\<lambda>l. l\<lparr>dap_led := arm st (dap_led l)\<rparr>)"

definition set_uart_led_state :: "led_state \<Rightarrow> ('w, 'z, unit) ifmcu_prog" where
  "set_uart_led_state st = upd_leds (\<lambda>l. l\<lparr>uart_led := arm st (uart_led l)\<rparr>)"

definition leds_disarm :: "leds \<Rightarrow> leds" where
  "leds_disarm l = l\<lparr>pgood_led := disarm (pgood_led l), charger_led := disarm (charger_led l),
     uart_led := disarm (uart_led l), dap_led := disarm (dap_led l)\<rparr>"

definition set_all_leds_off :: "'w zephyr \<Rightarrow> ('w, 'z, unit) ifmcu_prog" where
  "set_all_leds_off Z = do {
     upd_leds leds_disarm;
     _ \<leftarrow> call (led_off Z Led_Gpio LED_ID_PGOOD_STATE);
     _ \<leftarrow> call (led_off Z Led_Pwm LED_ID_CHARGER_STATE);
     _ \<leftarrow> call (led_off Z Led_Gpio LED_ID_UART_STATE);
     _ \<leftarrow> call (led_off Z Led_Gpio LED_ID_DAP_STATE);
     return ()
   }"

subsection \<open>The timer callback\<close>

text \<open>One block of the callback per channel: what it does to the channel when it is armed.\<close>

definition pgood_led_tick :: "led_chan \<Rightarrow> led_chan" where
  "pgood_led_tick c =
     (if led_mode c = LED_STATE_ON then c\<lparr>led_level := LED_MAX_BRIGHTNESS\<rparr>
      else if led_mode c = LED_STATE_BLINK \<or> led_mode c = LED_STATE_BLINK_PERMANENT then
        (let lvl = (if led_level c > 0 then 0 else LED_MAX_BRIGHTNESS)
         in if lvl = 0 \<and> led_mode c = LED_STATE_BLINK
            then c\<lparr>led_level := lvl, led_activity := False, led_mode := LED_STATE_OFF\<rparr>
            else c\<lparr>led_level := lvl\<rparr>)
      else c\<lparr>led_level := 0, led_activity := False\<rparr>)"

definition charger_led_tick :: "led_chan \<times> 8 word \<Rightarrow> led_chan \<times> 8 word" where
  "charger_led_tick cd = (case cd of (c, dir) \<Rightarrow>
     if led_mode c = LED_STATE_ON then (c\<lparr>led_level := LED_MAX_BRIGHTNESS\<rparr>, dir)
     else if led_mode c = LED_STATE_BLINK \<or> led_mode c = LED_STATE_BLINK_PERMANENT then
       (let lvl = (if led_level c > 0 then 0 else LED_MAX_BRIGHTNESS)
        in if lvl = 0 \<and> led_mode c = LED_STATE_BLINK
           then (c\<lparr>led_level := lvl, led_activity := False, led_mode := LED_STATE_OFF\<rparr>, dir)
           else (c\<lparr>led_level := lvl\<rparr>, dir))
     else if led_mode c = LED_STATE_BREATH then
       (if dir \<noteq> 0 then
          (let lvl = led_level c + LED_BREATH_STEP
           in if lvl > LED_MAX_BRIGHTNESS
              then (c\<lparr>led_level := lvl - LED_BREATH_STEP\<rparr>, 0)
              else (c\<lparr>led_level := lvl\<rparr>, dir))
        else if led_level c > LED_BREATH_STEP
          then (c\<lparr>led_level := led_level c - LED_BREATH_STEP\<rparr>, dir)
          else (c\<lparr>led_level := 0\<rparr>, 1))
     else (c\<lparr>led_level := 0, led_activity := False\<rparr>, dir))"

definition uart_led_tick :: "led_chan \<Rightarrow> led_chan" where
  "uart_led_tick c =
     (if led_mode c = LED_STATE_ON then c\<lparr>led_level := LED_MAX_BRIGHTNESS\<rparr>
      else if led_mode c = LED_STATE_BLINK \<or> led_mode c = LED_STATE_BLINK_PERMANENT then
        (let lvl = (if led_level c > 0 then 0 else LED_MAX_BRIGHTNESS)
         in if lvl = 0 \<and> led_mode c = LED_STATE_BLINK
            then c\<lparr>led_level := lvl, led_activity := False, led_mode := LED_STATE_OFF\<rparr>
            else c\<lparr>led_level := lvl\<rparr>)
      else c\<lparr>led_level := 0, led_activity := False\<rparr>)"

text \<open>The block of the DAP indicator has no branch for \<open>LED_STATE_ON\<close>.\<close>

definition dap_led_tick :: "led_chan \<Rightarrow> led_chan" where
  "dap_led_tick c =
     (if led_mode c = LED_STATE_BLINK \<or> led_mode c = LED_STATE_BLINK_PERMANENT then
        (let lvl = (if led_level c > 0 then 0 else LED_MAX_BRIGHTNESS)
         in if lvl = 0 \<and> led_mode c = LED_STATE_BLINK
            then c\<lparr>led_level := lvl, led_activity := False, led_mode := LED_STATE_OFF\<rparr>
            else c\<lparr>led_level := lvl\<rparr>)
      else c\<lparr>led_level := 0, led_activity := False\<rparr>)"

definition pgood_led_block :: "'w zephyr \<Rightarrow> ('w, 'z, unit) ifmcu_prog" where
  "pgood_led_block Z = do {
     l \<leftarrow> gets leds;
     doif (led_activity (pgood_led l)) (do {
       upd_leds (\<lambda>l. l\<lparr>pgood_led := pgood_led_tick (pgood_led l)\<rparr>);
       l \<leftarrow> gets leds;
       _ \<leftarrow> call (led_set_brightness Z Led_Gpio LED_ID_PGOOD_STATE (led_level (pgood_led l)));
       return ()
     })
   }"

definition charger_led_block :: "'w zephyr \<Rightarrow> ('w, 'z, unit) ifmcu_prog" where
  "charger_led_block Z = do {
     l \<leftarrow> gets leds;
     doif (led_activity (charger_led l)) (do {
       upd_leds (\<lambda>l. case charger_led_tick (charger_led l, charger_led_dir l) of
                   (c, d) \<Rightarrow> l\<lparr>charger_led := c, charger_led_dir := d\<rparr>);
       l \<leftarrow> gets leds;
       _ \<leftarrow> call (led_set_brightness Z Led_Pwm LED_ID_CHARGER_STATE (led_level (charger_led l)));
       return ()
     })
   }"

definition uart_led_block :: "'w zephyr \<Rightarrow> ('w, 'z, unit) ifmcu_prog" where
  "uart_led_block Z = do {
     l \<leftarrow> gets leds;
     doif (led_activity (uart_led l)) (do {
       upd_leds (\<lambda>l. l\<lparr>uart_led := uart_led_tick (uart_led l)\<rparr>);
       l \<leftarrow> gets leds;
       _ \<leftarrow> call (led_set_brightness Z Led_Gpio LED_ID_UART_STATE (led_level (uart_led l)));
       return ()
     })
   }"

definition dap_led_block :: "'w zephyr \<Rightarrow> ('w, 'z, unit) ifmcu_prog" where
  "dap_led_block Z = do {
     l \<leftarrow> gets leds;
     doif (led_activity (dap_led l)) (do {
       upd_leds (\<lambda>l. l\<lparr>dap_led := dap_led_tick (dap_led l)\<rparr>);
       l \<leftarrow> gets leds;
       _ \<leftarrow> call (led_set_brightness Z Led_Gpio LED_ID_DAP_STATE (led_level (dap_led l)));
       return ()
     })
   }"

definition led_state_timer_expiry_fn :: "'w zephyr \<Rightarrow> ('w, 'z, unit) ifmcu_prog" where
  "led_state_timer_expiry_fn Z = do {
     pgood_led_block Z;
     charger_led_block Z;
     uart_led_block Z;
     dap_led_block Z
   }"

definition led_state_init :: "'w zephyr \<Rightarrow> ('w, 'z, int) ifmcu_prog" where
  "led_state_init Z = do {
     act (k_timer_start Z LED_STATE_TICK LED_STATE_TICK);
     return 0
   }"

lemma run_upd_leds [run_simps, simp]:
  "run_state (upd_leds f) s = ((), s\<lparr>leds := f (leds s)\<rparr>)"
  by (simp add: upd_leds_def)

lemmas led_consts = LED_MAX_BRIGHTNESS_def LED_BREATH_STEP_def LED_STATE_TICK_def
  LED_ID_PGOOD_STATE_def LED_ID_UART_STATE_def LED_ID_DAP_STATE_def LED_ID_CHARGER_STATE_def

lemmas led_setter_defs = set_pgood_led_state_def set_charger_led_state_def
  set_dap_led_state_def set_uart_led_state_def

lemmas led_block_defs = pgood_led_block_def charger_led_block_def uart_led_block_def
  dap_led_block_def

lemmas led_tick_defs = pgood_led_tick_def charger_led_tick_def uart_led_tick_def dap_led_tick_def


subsection \<open>The contract of a channel\<close>

text \<open>
  What the callback does to one channel: nothing when it is not armed. \<open>'c\<close> is the
  channel with the variables private to its block.
\<close>

definition armed_tick :: "('c \<Rightarrow> 'c) \<Rightarrow> ('c \<Rightarrow> led_chan) \<Rightarrow> 'c \<Rightarrow> 'c" where
  "armed_tick tick chan c = (if led_activity (chan c) then tick c else c)"

locale led_channel =
  fixes tick :: "'c \<Rightarrow> 'c"
    and chan :: "'c \<Rightarrow> led_chan"
    and lit :: "led_state set"
  assumes tick_level: "led_level (chan c) \<le> LED_MAX_BRIGHTNESS \<Longrightarrow>
      led_level (chan (tick c)) \<le> LED_MAX_BRIGHTNESS"
    and tick_blink_dark: "led_mode (chan c) = LED_STATE_BLINK \<Longrightarrow> led_level (chan c) = 0 \<Longrightarrow>
      chan (tick c) = (chan c)\<lparr>led_level := LED_MAX_BRIGHTNESS\<rparr>"
    and tick_blink_bright: "led_mode (chan c) = LED_STATE_BLINK \<Longrightarrow> led_level (chan c) \<noteq> 0 \<Longrightarrow>
      chan (tick c) = (chan c)\<lparr>led_level := 0, led_activity := False, led_mode := LED_STATE_OFF\<rparr>"
    and tick_permanent: "led_mode (chan c) = LED_STATE_BLINK_PERMANENT \<Longrightarrow>
      chan (tick c) = (chan c)\<lparr>led_level :=
        (if led_level (chan c) = 0 then LED_MAX_BRIGHTNESS else 0)\<rparr>"
    and tick_unlit: "led_mode (chan c) \<notin> lit \<Longrightarrow>
      chan (tick c) = (chan c)\<lparr>led_level := 0, led_activity := False\<rparr>"
    and tick_mode: "led_mode (chan c) \<noteq> LED_STATE_BLINK \<Longrightarrow>
      led_mode (chan (tick c)) = led_mode (chan c)"
begin

abbreviation step :: "'c \<Rightarrow> 'c" where
  "step \<equiv> armed_tick tick chan"

lemma step_idle [simp]: "\<not> led_activity (chan c) \<Longrightarrow> (step ^^ n) c = c"
  by (induction n) (simp_all add: armed_tick_def)

lemma level_run:
  "led_level (chan c) \<le> LED_MAX_BRIGHTNESS \<Longrightarrow>
   led_level (chan ((step ^^ n) c)) \<le> LED_MAX_BRIGHTNESS"
  by (induction n) (simp_all add: armed_tick_def tick_level)

text \<open>A blink is one flash: whatever the level was, two ticks later the channel is dark and idle.\<close>

lemma blink_two_ticks:
  assumes "led_mode (chan c) = LED_STATE_BLINK" and "led_activity (chan c)"
  shows "chan ((step ^^ 2) c) =
    \<lparr>led_activity = False, led_mode = LED_STATE_OFF, led_level = 0\<rparr>"
proof (cases "led_level (chan c) = 0")
  case True
  let ?c = "tick c"
  have c: "chan ?c = (chan c)\<lparr>led_level := LED_MAX_BRIGHTNESS\<rparr>"
    using assms True by (simp add: tick_blink_dark)
  then have "chan (tick ?c) =
      (chan ?c)\<lparr>led_level := 0, led_activity := False, led_mode := LED_STATE_OFF\<rparr>"
    using assms by (intro tick_blink_bright) (simp_all add: led_consts)
  then show ?thesis
    using assms c by (simp add: armed_tick_def numeral_2_eq_2)
next
  case False
  then have "chan (tick c) =
      (chan c)\<lparr>led_level := 0, led_activity := False, led_mode := LED_STATE_OFF\<rparr>"
    using assms by (simp add: tick_blink_bright)
  then show ?thesis
    using assms by (simp add: armed_tick_def numeral_2_eq_2)
qed

lemma unlit_one_tick:
  assumes "led_mode (chan c) \<notin> lit" and "led_activity (chan c)" and "0 < n"
  shows "chan ((step ^^ n) c) = (chan c)\<lparr>led_level := 0, led_activity := False\<rparr>"
proof -
  obtain m where n: "n = Suc m" using assms(3) by (cases n) auto
  have "chan (step c) = (chan c)\<lparr>led_level := 0, led_activity := False\<rparr>"
    using assms by (simp add: armed_tick_def tick_unlit)
  then show ?thesis
    by (simp add: n funpow_swap1 flip: funpow.simps(2))
       (simp only: funpow_Suc_right o_apply, simp)
qed

text \<open>A permanent blink alternates for ever.\<close>

lemma permanent_two_ticks:
  assumes "led_mode (chan c) = LED_STATE_BLINK_PERMANENT" and "led_activity (chan c)"
    and "led_level (chan c) \<in> {0, LED_MAX_BRIGHTNESS}"
  shows "chan ((step ^^ (2 * n)) c) = chan c"
proof (induction n)
  case (Suc n)
  have "chan (tick (tick x)) = chan x \<and> chan (tick x) \<noteq> chan x \<and> led_activity (chan (tick x))"
    if "chan x = chan c" for x
  proof -
    have t: "chan (tick x) = (chan x)\<lparr>led_level :=
        (if led_level (chan x) = 0 then LED_MAX_BRIGHTNESS else 0)\<rparr>"
      using that assms by (simp add: tick_permanent)
    then have "chan (tick (tick x)) = (chan (tick x))\<lparr>led_level :=
        (if led_level (chan (tick x)) = 0 then LED_MAX_BRIGHTNESS else 0)\<rparr>"
      using that assms by (simp add: tick_permanent)
    then show ?thesis
      using t that assms by (cases "chan c") (auto simp: led_consts)
  qed
  with Suc show ?case
    using assms by (simp add: armed_tick_def)
qed simp

end

interpretation pgood_chan: led_channel pgood_led_tick "\<lambda>c. c"
    "{LED_STATE_ON, LED_STATE_BLINK, LED_STATE_BLINK_PERMANENT}"
  by unfold_locales (auto simp: pgood_led_tick_def Let_def led_consts word_gt_0)

interpretation uart_chan: led_channel uart_led_tick "\<lambda>c. c"
    "{LED_STATE_ON, LED_STATE_BLINK, LED_STATE_BLINK_PERMANENT}"
  by unfold_locales (auto simp: uart_led_tick_def Let_def led_consts word_gt_0)

interpretation dap_chan: led_channel dap_led_tick "\<lambda>c. c"
    "{LED_STATE_BLINK, LED_STATE_BLINK_PERMANENT}"
  by unfold_locales (auto simp: dap_led_tick_def Let_def led_consts word_gt_0)

lemma breath_down_bound: "(l :: 8 word) \<le> 80 \<Longrightarrow> 2 < l \<Longrightarrow> l - 2 \<le> 80"
  by unat_arith

interpretation charger_chan: led_channel charger_led_tick fst
    "{LED_STATE_ON, LED_STATE_BLINK, LED_STATE_BLINK_PERMANENT, LED_STATE_BREATH}"
  by unfold_locales
     (auto simp: charger_led_tick_def Let_def led_consts word_gt_0 breath_down_bound
           split: prod.splits)


subsection \<open>The callback as four independent channels\<close>

definition charger_pair :: "leds \<Rightarrow> led_chan \<times> 8 word" where
  "charger_pair l = (charger_led l, charger_led_dir l)"

text \<open>The abstract effect of one expiry on the four channels.\<close>

definition leds_tick :: "leds \<Rightarrow> leds" where
  "leds_tick l =
     \<lparr>pgood_led = armed_tick pgood_led_tick (\<lambda>c. c) (pgood_led l),
      charger_led = fst (armed_tick charger_led_tick fst (charger_pair l)),
      uart_led = armed_tick uart_led_tick (\<lambda>c. c) (uart_led l),
      dap_led = armed_tick dap_led_tick (\<lambda>c. c) (dap_led l),
      charger_led_dir = snd (armed_tick charger_led_tick fst (charger_pair l))\<rparr>"

lemma leds_tick_sel [simp]:
  "pgood_led (leds_tick l) = armed_tick pgood_led_tick (\<lambda>c. c) (pgood_led l)"
  "uart_led (leds_tick l) = armed_tick uart_led_tick (\<lambda>c. c) (uart_led l)"
  "dap_led (leds_tick l) = armed_tick dap_led_tick (\<lambda>c. c) (dap_led l)"
  "charger_pair (leds_tick l) = armed_tick charger_led_tick fst (charger_pair l)"
  by (simp_all add: leds_tick_def charger_pair_def)

lemma leds_tick_pow [simp]:
  "pgood_led ((leds_tick ^^ n) l) = (armed_tick pgood_led_tick (\<lambda>c. c) ^^ n) (pgood_led l)"
  "uart_led ((leds_tick ^^ n) l) = (armed_tick uart_led_tick (\<lambda>c. c) ^^ n) (uart_led l)"
  "dap_led ((leds_tick ^^ n) l) = (armed_tick dap_led_tick (\<lambda>c. c) ^^ n) (dap_led l)"
  "charger_pair ((leds_tick ^^ n) l) = (armed_tick charger_led_tick fst ^^ n) (charger_pair l)"
  by (induction n) simp_all

lemma charger_led_pair: "charger_led l = fst (charger_pair l)"
  by (simp add: charger_pair_def)

lemma timer_leds [simp]:
  "leds (exec_state (led_state_timer_expiry_fn Z) s) = leds_tick (leds s)"
  by (simp add: led_state_timer_expiry_fn_def led_block_defs exec_state_def leds_tick_def armed_tick_def
      charger_pair_def case_prod_unfold)

lemma timer_frame [simp]:
  "viosel (exec_state (led_state_timer_expiry_fn Z) s) = viosel s"
  "scb_scr (exec_state (led_state_timer_expiry_fn Z) s) = scb_scr s"
  "gpregret (exec_state (led_state_timer_expiry_fn Z) s) = gpregret s"
  "run_mode (exec_state (led_state_timer_expiry_fn Z) s) = run_mode s"
  by (simp_all add: led_state_timer_expiry_fn_def led_block_defs exec_state_def case_prod_unfold)

definition timer_ticks :: "'w zephyr \<Rightarrow> nat \<Rightarrow> ('w, 'z) ifmcu_scheme \<Rightarrow> ('w, 'z) ifmcu_scheme" where
  "timer_ticks Z n = exec_state (led_state_timer_expiry_fn Z) ^^ n"

lemma leds_timer_ticks [simp]: "leds (timer_ticks Z n s) = (leds_tick ^^ n) (leds s)"
  by (induction n) (simp_all add: timer_ticks_def)

definition leds_dark :: "leds \<Rightarrow> bool" where
  "leds_dark l \<longleftrightarrow> \<not> led_activity (pgood_led l) \<and> \<not> led_activity (charger_led l) \<and>
     \<not> led_activity (uart_led l) \<and> \<not> led_activity (dap_led l)"

text \<open>With no channel armed the callback writes nothing at all.\<close>

lemma timer_dark:
  "leds_dark (leds s) \<Longrightarrow> exec_state (led_state_timer_expiry_fn Z) s = s"
  by (simp add: led_state_timer_expiry_fn_def led_block_defs exec_state_def leds_dark_def case_prod_unfold)

lemma leds_dark_disarm [simp]: "leds_dark (leds_disarm l)"
  by (simp add: leds_dark_def leds_disarm_def disarm_def)

text \<open>
  Setting an indicator to blink makes one flash: after the request and two timer periods
  the channel is idle, its mode is off and its brightness is 0, whatever it was doing before;
  this holds for each of the four indicators.
\<close>

theorem led_blink_is_one_flash:
  "pgood_led (leds (timer_ticks Z 2 (exec_state (set_pgood_led_state LED_STATE_BLINK) s)))
     = \<lparr>led_activity = False, led_mode = LED_STATE_OFF, led_level = 0\<rparr>
   \<and> charger_led (leds (timer_ticks Z 2 (exec_state (set_charger_led_state LED_STATE_BLINK) s)))
     = \<lparr>led_activity = False, led_mode = LED_STATE_OFF, led_level = 0\<rparr>
   \<and> uart_led (leds (timer_ticks Z 2 (exec_state (set_uart_led_state LED_STATE_BLINK) s)))
     = \<lparr>led_activity = False, led_mode = LED_STATE_OFF, led_level = 0\<rparr>
   \<and> dap_led (leds (timer_ticks Z 2 (exec_state (set_dap_led_state LED_STATE_BLINK) s)))
     = \<lparr>led_activity = False, led_mode = LED_STATE_OFF, led_level = 0\<rparr>"
  unfolding leds_timer_ticks leds_tick_pow charger_led_pair
  by (intro conjI pgood_chan.blink_two_ticks charger_chan.blink_two_ticks
      uart_chan.blink_two_ticks dap_chan.blink_two_ticks)
     (simp_all add: led_setter_defs exec_state_def arm_def charger_pair_def)

subsection \<open>Runs of the indicator component\<close>

text \<open>What can happen to the indicators: a timer expiry, a request, everything off.\<close>

datatype led_event =
    Led_Timer
  | Led_Pgood led_state
  | Led_Charger led_state
  | Led_Uart led_state
  | Led_Dap led_state
  | Led_All_Off

fun led_event_prog :: "'w zephyr \<Rightarrow> led_event \<Rightarrow> ('w, 'z, unit) ifmcu_prog" where
  "led_event_prog Z Led_Timer = led_state_timer_expiry_fn Z"
| "led_event_prog Z (Led_Pgood st) = set_pgood_led_state st"
| "led_event_prog Z (Led_Charger st) = set_charger_led_state st"
| "led_event_prog Z (Led_Uart st) = set_uart_led_state st"
| "led_event_prog Z (Led_Dap st) = set_dap_led_state st"
| "led_event_prog Z Led_All_Off = set_all_leds_off Z"

definition led_step :: "'w zephyr \<Rightarrow> ('w, 'z) ifmcu_scheme \<Rightarrow> led_event \<Rightarrow> ('w, 'z) ifmcu_scheme" where
  "led_step Z s e = exec_state (led_event_prog Z e) s"

definition leds_bounded :: "leds \<Rightarrow> bool" where
  "leds_bounded l \<longleftrightarrow> led_level (pgood_led l) \<le> LED_MAX_BRIGHTNESS
     \<and> led_level (charger_led l) \<le> LED_MAX_BRIGHTNESS
     \<and> led_level (uart_led l) \<le> LED_MAX_BRIGHTNESS
     \<and> led_level (dap_led l) \<le> LED_MAX_BRIGHTNESS"

lemma leds_bounded_tick: "leds_bounded l \<Longrightarrow> leds_bounded (leds_tick l)"
  using pgood_chan.level_run [of "pgood_led l" 1] uart_chan.level_run [of "uart_led l" 1]
    dap_chan.level_run [of "dap_led l" 1] charger_chan.level_run [of "charger_pair l" 1]
  by (simp add: leds_bounded_def charger_led_pair)

interpretation led_machine: machine "led_step Z" "\<lambda>s. leds_bounded (leds s)" for Z
proof
  fix s :: "('a, 'b) ifmcu_scheme" and e
  assume "leds_bounded (leds s)"
  then show "leds_bounded (leds (led_step Z s e))"
  proof (cases e)
    case Led_Timer
    with \<open>leds_bounded (leds s)\<close> show ?thesis
      by (simp add: led_step_def leds_bounded_tick)
  qed (auto simp: led_step_def exec_state_def led_setter_defs set_all_leds_off_def arm_def
      leds_disarm_def disarm_def leds_bounded_def case_prod_unfold)
qed

subsection \<open>Brightness\<close>

text \<open>A driver that caps what it is given at the maximum.\<close>

definition cap_brightness :: "'w zephyr \<Rightarrow> 'w zephyr" where
  "cap_brightness Z = Z\<lparr>led_set_brightness :=
     (\<lambda>d i b. led_set_brightness Z d i (min b LED_MAX_BRIGHTNESS))\<rparr>"

lemma block_frame:
  "charger_led (leds (snd (run_state (pgood_led_block Z) s))) = charger_led (leds s)"
  "uart_led (leds (snd (run_state (pgood_led_block Z) s))) = uart_led (leds s)"
  "dap_led (leds (snd (run_state (pgood_led_block Z) s))) = dap_led (leds s)"
  "uart_led (leds (snd (run_state (charger_led_block Z) s))) = uart_led (leds s)"
  "dap_led (leds (snd (run_state (charger_led_block Z) s))) = dap_led (leds s)"
  "dap_led (leds (snd (run_state (uart_led_block Z) s))) = dap_led (leds s)"
  by (simp_all add: led_block_defs case_prod_unfold)

lemma cap_brightness_timer:
  fixes Z :: "'w zephyr" and s :: "('w, 'z) ifmcu_scheme"
  assumes "leds_bounded (leds s)"
  shows "run_state (led_state_timer_expiry_fn (cap_brightness Z)) s
    = run_state (led_state_timer_expiry_fn Z) s"
proof -
  have cap [simp]: "b \<le> LED_MAX_BRIGHTNESS \<Longrightarrow>
      led_set_brightness (cap_brightness Z) d i b = led_set_brightness Z d i b" for d i b
    by (simp add: cap_brightness_def min_def)
  have "led_level (fst (charger_led_tick (charger_led (leds s), d))) \<le> LED_MAX_BRIGHTNESS" for d
    using assms charger_chan.tick_level [of "(charger_led (leds s), d)"]
    by (simp add: leds_bounded_def)
  then have "run_state (charger_led_block (cap_brightness Z)) s' = run_state (charger_led_block Z) s'"
    if "charger_led (leds s') = charger_led (leds s)" for s' :: "('w, 'z) ifmcu_scheme"
    using that by (simp add: charger_led_block_def case_prod_unfold)
  moreover have "run_state (pgood_led_block (cap_brightness Z)) s = run_state (pgood_led_block Z) s"
    using assms by (simp add: pgood_led_block_def leds_bounded_def pgood_chan.tick_level)
  moreover have "run_state (uart_led_block (cap_brightness Z)) s' = run_state (uart_led_block Z) s'"
    if "uart_led (leds s') = uart_led (leds s)" for s' :: "('w, 'z) ifmcu_scheme"
    using that assms by (simp add: uart_led_block_def leds_bounded_def uart_chan.tick_level)
  moreover have "run_state (dap_led_block (cap_brightness Z)) s' = run_state (dap_led_block Z) s'"
    if "dap_led (leds s') = dap_led (leds s)" for s' :: "('w, 'z) ifmcu_scheme"
    using that assms by (simp add: dap_led_block_def leds_bounded_def dap_chan.tick_level)
  ultimately show ?thesis
    by (simp add: led_state_timer_expiry_fn_def case_prod_unfold block_frame)
qed

lemma cap_brightness_step:
  "leds_bounded (leds s) \<Longrightarrow> led_step (cap_brightness Z) s e = led_step Z s e"
  by (cases e) (simp_all add: led_step_def exec_state_def cap_brightness_timer
      set_all_leds_off_def, simp add: cap_brightness_def)

lemma leds_bounded_init [simp]: "leds_bounded (leds (ifmcu_init w scr))"
  by (simp add: leds_bounded_def ifmcu_init_def leds_init_def led_chan_init_def)

text \<open>
  In every run of the indicators from power-up (any sequence of timer expiries, requests and
  switch-offs) each brightness stays within the maximum of 80, and so does every brightness
  written to the hardware: the run is the same when the driver caps what it is given at 80.
\<close>

theorem led_brightness_bounded:
  "leds_bounded (leds (foldl (led_step Z) (ifmcu_init w scr) es)) \<and>
   foldl (led_step (cap_brightness Z)) (ifmcu_init w scr) es = foldl (led_step Z) (ifmcu_init w scr) es"
proof
  show "leds_bounded (leds (foldl (led_step Z) (ifmcu_init w scr) es))"
    by (rule led_machine.run_inv) simp
  have "leds_bounded (leds s) \<Longrightarrow>
      foldl (led_step (cap_brightness Z)) s es = foldl (led_step Z) s es" for s :: "'a ifmcu"
    by (induction es arbitrary: s) (simp_all add: cap_brightness_step led_machine.step_inv)
  then show "foldl (led_step (cap_brightness Z)) (ifmcu_init w scr) es
      = foldl (led_step Z) (ifmcu_init w scr) es"
    by simp
qed

subsection \<open>Breathing\<close>

abbreviation charger_step :: "led_chan \<times> 8 word \<Rightarrow> led_chan \<times> 8 word" where
  "charger_step \<equiv> armed_tick charger_led_tick fst"

text \<open>The level of the breathing indicator as a function of time: a triangle of 81 ticks.\<close>

definition breath_wave :: "nat \<Rightarrow> nat" where
  "breath_wave n = (let p = n mod 81 in if p \<le> 40 then 2 * p else 162 - 2 * p)"

definition breathing :: "nat \<Rightarrow> 8 word \<Rightarrow> led_chan \<times> 8 word" where
  "breathing l d =
     (\<lparr>led_activity = True, led_mode = LED_STATE_BREATH, led_level = word_of_nat l\<rparr>, d)"

lemma breath_up: "p \<le> 40 \<Longrightarrow> (charger_step ^^ p) (breathing 0 1) = breathing (2 * p) 1"
proof (induction p)
  case (Suc p)
  have "(2 + word_of_nat (2 * p) :: 8 word) = word_of_nat (2 * Suc p)"
    by simp
  moreover have "\<not> (80 :: 8 word) < word_of_nat (2 * Suc p)"
    using Suc.prems by (simp add: word_less_nat_alt unat_of_nat del: of_nat_Suc)
  ultimately show ?case
    using Suc
    by (simp add: breathing_def armed_tick_def charger_led_tick_def led_consts Let_def add.commute)
qed simp

lemma breath_turn: "charger_step (breathing 80 1) = breathing 80 0"
  by (simp add: breathing_def armed_tick_def charger_led_tick_def led_consts)

lemma breath_down: "k \<le> 39 \<Longrightarrow> (charger_step ^^ k) (breathing 80 0) = breathing (80 - 2 * k) 0"
proof (induction k)
  case (Suc k)
  have "(2 :: 8 word) < word_of_nat m" if "2 < m" "m < 256" for m
    using that by (simp add: word_less_nat_alt unat_of_nat)
  from this [of "80 - 2 * k"] have "(2 :: 8 word) < word_of_nat (80 - 2 * k)"
    using Suc.prems by linarith
  moreover have "(word_of_nat (80 - 2 * k) - 2 :: 8 word) = word_of_nat (80 - 2 * Suc k)"
    using Suc.prems by (simp add: of_nat_diff)
  ultimately show ?case
    using Suc by (simp add: breathing_def armed_tick_def charger_led_tick_def led_consts)
qed simp

lemma breath_end: "charger_step (breathing 2 0) = breathing 0 1"
  by (simp add: breathing_def armed_tick_def charger_led_tick_def led_consts)

lemma breath_phase:
  assumes "p < 81"
  shows "led_level (fst ((charger_step ^^ p) (breathing 0 1))) = word_of_nat (breath_wave p)"
    and "(charger_step ^^ 81) (breathing 0 1) = breathing 0 1"
proof -
  have top: "(charger_step ^^ 41) (breathing 0 1) = breathing 80 0"
  proof -
    have "(charger_step ^^ (1 + 40)) (breathing 0 1) = breathing 80 0"
      unfolding funpow_add by (simp add: breath_up breath_turn)
    then show ?thesis by simp
  qed
  have down: "(charger_step ^^ (k + 41)) (breathing 0 1) = breathing (80 - 2 * k) 0"
    if "k \<le> 39" for k
    using that by (simp add: funpow_add top breath_down)
  show "led_level (fst ((charger_step ^^ p) (breathing 0 1))) = word_of_nat (breath_wave p)"
  proof (cases "p \<le> 40")
    case True
    then show ?thesis
      unfolding breath_up [OF True] by (simp add: breath_wave_def breathing_def)
  next
    case False
    then have "(charger_step ^^ p) (breathing 0 1) = breathing (80 - 2 * (p - 41)) 0"
      using down [of "p - 41"] assms by simp
    moreover have "80 - 2 * (p - 41) = breath_wave p"
      using False assms by (simp add: breath_wave_def)
    ultimately show ?thesis by (simp add: breathing_def)
  qed
  have "(charger_step ^^ 80) (breathing 0 1) = breathing 2 0"
    using down [of 39] by simp
  then have "charger_step ((charger_step ^^ 80) (breathing 0 1)) = breathing 0 1"
    by (simp add: breath_end)
  then show "(charger_step ^^ 81) (breathing 0 1) = breathing 0 1"
    using funpow_add [of 1 80 charger_step] by simp
qed

text \<open>
  While charging, the indicator breathes: after n timer periods its brightness is the
  triangle wave 0, 2, ..., 80, 80, 78, ..., 2, 0 of period 81, for every n.
\<close>

theorem charger_breath_wave:
  "led_level (charger_led (leds (timer_ticks Z n
      (exec_state (set_charger_led_state LED_STATE_BREATH) (ifmcu_init w scr)))))
    = word_of_nat (breath_wave n)"
proof -
  let ?l = "leds (exec_state (set_charger_led_state LED_STATE_BREATH) (ifmcu_init w scr))"
  have "charger_pair ?l = breathing 0 1"
    by (simp add: led_setter_defs exec_state_def ifmcu_init_def leds_init_def led_chan_init_def
        charger_pair_def arm_def breathing_def)
  then have "charger_pair ((leds_tick ^^ n) ?l) = (charger_step ^^ (n mod 81)) (breathing 0 1)"
    using breath_phase(2) [of 0] by (simp add: funpow_mod_eq)
  then show ?thesis
    using breath_phase(1) [of "n mod 81"]
    by (simp add: charger_led_pair breath_wave_def)
qed

end
