(* ===== verification/Ifmcu_Power.thy ===== *)
theory Ifmcu_Power
  imports Ifmcu_Leds
begin

section \<open>Power down (\<open>ifmcu_power.c\<close>)\<close>

text \<open>
  The one way the Interface MCU switches itself off: indicators off, the SEVONPEND bit of the
  System Control Register cleared, then \<open>sys_poweroff\<close>, which does not return.
\<close>

definition SCB_SCR_SEVONPEND_Msk :: "32 word" where
  "SCB_SCR_SEVONPEND_Msk = push_bit 4 1"

definition ifmcu_system_off :: "'w zephyr \<Rightarrow> ('w, 'z, unit) ifmcu_prog" where
  "ifmcu_system_off Z = do {
     set_all_leds_off Z;
     modify (\<lambda>s. s\<lparr>scb_scr := scb_scr s AND NOT SCB_SCR_SEVONPEND_Msk\<rparr>);
     modify (\<lambda>s. s\<lparr>run_mode := System_Off\<rparr>)
   }"

lemma bit_sevonpend [simp]: "bit SCB_SCR_SEVONPEND_Msk i \<longleftrightarrow> i = 4"
  unfolding SCB_SCR_SEVONPEND_Msk_def bit_push_bit_iff bit_1_iff by auto

lemma sevonpend_cleared [simp]:
  "(scr AND NOT SCB_SCR_SEVONPEND_Msk) AND SCB_SCR_SEVONPEND_Msk = 0"
  by (rule bit_word_eqI) (simp add: bit_simps)

text \<open>What power down leaves behind, as one predicate over the state.\<close>

definition powered_down :: "('w, 'z) ifmcu_scheme \<Rightarrow> bool" where
  "powered_down s \<longleftrightarrow> run_mode s = System_Off \<and> leds_dark (leds s) \<and>
     scb_scr s AND SCB_SCR_SEVONPEND_Msk = 0"

lemma system_off_sel [simp]:
  "leds (exec_state (ifmcu_system_off Z) s) = leds_disarm (leds s)"
  "run_mode (exec_state (ifmcu_system_off Z) s) = System_Off"
  "scb_scr (exec_state (ifmcu_system_off Z) s) = scb_scr s AND NOT SCB_SCR_SEVONPEND_Msk"
  "viosel (exec_state (ifmcu_system_off Z) s) = viosel s"
  "gpregret (exec_state (ifmcu_system_off Z) s) = gpregret s"
  by (simp_all add: ifmcu_system_off_def set_all_leds_off_def exec_state_def case_prod_unfold)

lemma system_off_powered_down [simp]: "powered_down (exec_state (ifmcu_system_off Z) s)"
  by (simp add: powered_down_def)

text \<open>
  Powering down is safe to enter from any state: the request leaves SEVONPEND clear and every
  other bit of the register as it was (so the wait-for-event of the power-off cannot be woken at
  once), marks the chip off, and no later expiry of the indicator timer touches an LED again.
\<close>

theorem system_off_safe:
  "powered_down (exec_state (ifmcu_system_off Z) s) \<and>
   timer_ticks Z n (exec_state (ifmcu_system_off Z) s) = exec_state (ifmcu_system_off Z) s \<and>
   (\<forall>i. bit (scb_scr (exec_state (ifmcu_system_off Z) s)) i = (bit (scb_scr s) i \<and> i \<noteq> 4))"
proof (intro conjI)
  let ?t = "exec_state (ifmcu_system_off Z) s"
  have "exec_state (led_state_timer_expiry_fn Z) ?t = ?t"
    by (rule timer_dark) simp
  then show "timer_ticks Z n ?t = ?t"
    unfolding timer_ticks_def by (induction n) simp_all
  show "\<forall>i. bit (scb_scr ?t) i = (bit (scb_scr s) i \<and> i \<noteq> 4)"
  proof
    fix i :: nat
    show "bit (scb_scr ?t) i = (bit (scb_scr s) i \<and> i \<noteq> 4)"
      by (cases "i < 32") (auto simp: bit_simps dest: bit_imp_le_length)
  qed
qed simp

end
