(* ===== verification/Ifmcu_Bench.thy ===== *)
theory Ifmcu_Bench
  imports Ifmcu_Env
begin

section \<open>A concrete environment of the Interface MCU\<close>

text \<open>
  A small instance of the parameter \<open>Z\<close>, on which the witnesses evaluate: a charger with a
  register file and properties held in memory, a settings store kept as a list, pins and work
  items recorded in a log. It shows that what the properties ask of the drivers can be had.
\<close>

datatype bench_event =
    Ev_Led led_dev nat "8 word"
  | Ev_Timer nat nat
  | Ev_Sleep nat
  | Ev_Work ifmcu_work nat
  | Ev_Enable bool
  | Ev_Gpio gpio_spec gpio_flags
  | Ev_Usb "8 word" "8 word list"
  | Ev_Free

record bench =
  bench_regs :: "8 word \<Rightarrow> 8 word"
  bench_props :: "charger_prop \<Rightarrow> 32 word"
  bench_ready :: bool
  bench_store :: "(string \<times> 8 word list) list"
  bench_log :: "bench_event list"

definition bench_ev :: "bench_event \<Rightarrow> bench \<Rightarrow> bench" where
  "bench_ev e w = w\<lparr>bench_log := bench_log w @ [e]\<rparr>"

definition bench_save :: "string \<Rightarrow> 8 word list \<Rightarrow> bench \<Rightarrow> bench" where
  "bench_save k v w = w\<lparr>bench_store := (k, v) # filter (\<lambda>kv. fst kv \<noteq> k) (bench_store w)\<rparr>"

definition bench_zephyr :: "bench zephyr" where
  "bench_zephyr = \<lparr>
     led_off = (\<lambda>d i w. (0, bench_ev (Ev_Led d i 0) w)),
     led_set_brightness = (\<lambda>d i b w. (0, bench_ev (Ev_Led d i b) w)),
     k_timer_start = (\<lambda>d p w. bench_ev (Ev_Timer d p) w),
     k_sleep = (\<lambda>t w. bench_ev (Ev_Sleep t) w),
     k_work_busy_get = (\<lambda>k w. Ev_Work k 0 \<in> set (bench_log w)),
     k_work_schedule = (\<lambda>k t w. bench_ev (Ev_Work k t) w),
     k_work_reschedule = (\<lambda>k t w. bench_ev (Ev_Work k t) w),
     charger_is_ready = bench_ready,
     charger_charge_enable = (\<lambda>e w. (0, bench_ev (Ev_Enable e)
        (w\<lparr>bench_regs := (bench_regs w)(4 := (if e then 0 else 128))\<rparr>))),
     charger_get_prop = (\<lambda>p w. ((0, bench_props w p), w)),
     charger_set_prop = (\<lambda>p v w. (0, w\<lparr>bench_props := (bench_props w)(p := v)\<rparr>)),
     i2c_reg_read_byte = (\<lambda>r w. ((0, bench_regs w r), w)),
     i2c_reg_update_byte = (\<lambda>r m v w. (0, w\<lparr>bench_regs :=
        (bench_regs w)(r := (bench_regs w r AND NOT m) OR (v AND m))\<rparr>)),
     gpio_is_ready = (\<lambda>g w. True),
     gpio_pin_configure = (\<lambda>g f w. (0, bench_ev (Ev_Gpio g f) w)),
     gpio_pin_get = (\<lambda>g w. (1, w)),
     settings_subsys_init = (\<lambda>w. (0, w)),
     settings_register = (\<lambda>k w. (0, w)),
     settings_stored = bench_store,
     settings_save_one = (\<lambda>k v w. (0, bench_save k v w)),
     sensor_is_ready = (\<lambda>w. True),
     sensor_sample_fetch = (\<lambda>w. (0, w)),
     sensor_channel_get = (\<lambda>w. ((0, 25, 500000), w)),
     dk_buttons_init = (\<lambda>w. (0, w))\<rparr>"

text \<open>The bench after power-up: charger ready, supply on, charging.\<close>

definition bench0 :: bench where
  "bench0 = \<lparr>bench_regs = (\<lambda>_. 0), bench_props = (\<lambda>_. 1), bench_ready = True,
     bench_store = [], bench_log = []\<rparr>"

definition bench_state :: "bench ifmcu" where
  "bench_state = ifmcu_init bench0 0x10"

lemmas bench_defs = bench_zephyr_def bench0_def bench_state_def bench_ev_def bench_save_def
  ifmcu_init_def

end
