(* ===== verification/Ifmcu_Charger.thy ===== *)
theory Ifmcu_Charger
  imports Ifmcu_Power Ifmcu_Bench
begin

section \<open>Battery charger (\<open>bq25180.c\<close>)\<close>

text \<open>
  Access to the BQ25180: some settings go through the charger driver of Zephyr, others are bit
  fields the firmware writes over I2C itself. A getter returns \<open>Inl\<close> the error or \<open>Inr\<close> the
  value left in its out parameter. The work item at the end polls the charger every second and
  powers the chip down when the supply is gone.
\<close>

definition BQ25180_ICHG_CTRL :: "8 word" where "BQ25180_ICHG_CTRL = 0x04"
definition BQ25180_TMR_ILIM :: "8 word" where "BQ25180_TMR_ILIM = 0x08"
definition BQ25180_SYS_REG :: "8 word" where "BQ25180_SYS_REG = 0x0A"

text \<open>\<open>BIT\<close>, \<open>GENMASK\<close>, \<open>FIELD_PREP\<close> and \<open>FIELD_GET\<close> compute in \<open>unsigned long\<close>.\<close>

definition BIT :: "nat \<Rightarrow> 32 word" where
  "BIT n = push_bit n 1"

definition GENMASK :: "nat \<Rightarrow> nat \<Rightarrow> 32 word" where
  "GENMASK h l = mask (Suc h) AND NOT (mask l)"

definition LSB_GET :: "32 word \<Rightarrow> 32 word" where
  "LSB_GET m = m AND - m"

definition FIELD_PREP :: "32 word \<Rightarrow> 32 word \<Rightarrow> 32 word" where
  "FIELD_PREP m v = (v * LSB_GET m) AND m"

definition FIELD_GET :: "32 word \<Rightarrow> 32 word \<Rightarrow> 32 word" where
  "FIELD_GET m v = (v AND m) div LSB_GET m"

definition BQ25180_ICHG_CHG_DIS :: "32 word" where "BQ25180_ICHG_CHG_DIS = BIT 7"
definition BQ25180_SYS_REG_CTRL_MSK :: "32 word" where "BQ25180_SYS_REG_CTRL_MSK = GENMASK 7 5"
definition BQ25180_ILIM_MSK :: "32 word" where "BQ25180_ILIM_MSK = GENMASK 2 0"

definition CHARGING_CHECK_INTERVAL :: nat where
  "CHARGING_CHECK_INTERVAL = 1000"

text \<open>Enumerators of the charger driver.\<close>

definition CHARGER_ONLINE_OFFLINE :: "32 word" where "CHARGER_ONLINE_OFFLINE = 0"
definition CHARGER_STATUS_CHARGING :: "32 word" where "CHARGER_STATUS_CHARGING = 1"
definition CHARGER_STATUS_FULL :: "32 word" where "CHARGER_STATUS_FULL = 4"

subsection \<open>Getters and setters\<close>

definition bq25180_chgdis_set :: "'w zephyr \<Rightarrow> 8 word \<Rightarrow> ('w, 'z, int) ifmcu_prog" where
  "bq25180_chgdis_set Z chgdis = do {
     ready \<leftarrow> ask (charger_is_ready Z);
     if \<not> ready then return (- ENODEV)
     else do {
       ret \<leftarrow> call (charger_charge_enable Z (chgdis = 0));
       if ret < 0 then return ret else return 0
     }
   }"

definition bq25180_chgdis_get :: "'w zephyr \<Rightarrow> ('w, 'z, int + 8 word) ifmcu_prog" where
  "bq25180_chgdis_get Z = do {
     ready \<leftarrow> ask (charger_is_ready Z);
     if \<not> ready then return (Inl (- ENODEV))
     else do {
       (ret, ichg_ctrl) \<leftarrow> call (i2c_reg_read_byte Z BQ25180_ICHG_CTRL);
       if ret < 0 then return (Inl ret)
       else return (Inr (if ucast ichg_ctrl AND BQ25180_ICHG_CHG_DIS \<noteq> 0 then 1 else 0))
     }
   }"

definition bq25180_sysreg_set :: "'w zephyr \<Rightarrow> 8 word \<Rightarrow> ('w, 'z, int) ifmcu_prog" where
  "bq25180_sysreg_set Z mode = do {
     ready \<leftarrow> ask (charger_is_ready Z);
     if \<not> ready then return (- ENODEV)
     else do {
       let mode = ucast (FIELD_PREP BQ25180_SYS_REG_CTRL_MSK (ucast mode));
       ret \<leftarrow> call (i2c_reg_update_byte Z BQ25180_SYS_REG (ucast BQ25180_SYS_REG_CTRL_MSK) mode);
       if ret < 0 then return ret else return 0
     }
   }"

definition bq25180_sysreg_get :: "'w zephyr \<Rightarrow> ('w, 'z, int + 8 word) ifmcu_prog" where
  "bq25180_sysreg_get Z = do {
     ready \<leftarrow> ask (charger_is_ready Z);
     if \<not> ready then return (Inl (- ENODEV))
     else do {
       (ret, sysreg_ctrl) \<leftarrow> call (i2c_reg_read_byte Z BQ25180_SYS_REG);
       if ret < 0 then return (Inl ret)
       else return (Inr (ucast (FIELD_GET BQ25180_SYS_REG_CTRL_MSK (ucast sysreg_ctrl))))
     }
   }"

definition bq25180_ichg_set :: "'w zephyr \<Rightarrow> 32 word \<Rightarrow> ('w, 'z, int) ifmcu_prog" where
  "bq25180_ichg_set Z current_ma = do {
     ready \<leftarrow> ask (charger_is_ready Z);
     if \<not> ready then return (- ENODEV)
     else call (charger_set_prop Z CHARGER_PROP_CONSTANT_CHARGE_CURRENT_UA (current_ma * 1000))
   }"

definition bq25180_ichg_get :: "'w zephyr \<Rightarrow> ('w, 'z, int + 32 word) ifmcu_prog" where
  "bq25180_ichg_get Z = do {
     ready \<leftarrow> ask (charger_is_ready Z);
     if \<not> ready then return (Inl (- ENODEV))
     else do {
       (ret, val) \<leftarrow> call (charger_get_prop Z CHARGER_PROP_CONSTANT_CHARGE_CURRENT_UA);
       if ret < 0 then return (Inl ret) else return (Inr (val div 1000))
     }
   }"

definition bq25180_vbatreg_set :: "'w zephyr \<Rightarrow> 32 word \<Rightarrow> ('w, 'z, int) ifmcu_prog" where
  "bq25180_vbatreg_set Z voltage_mv = do {
     ready \<leftarrow> ask (charger_is_ready Z);
     if \<not> ready then return (- ENODEV)
     else call (charger_set_prop Z CHARGER_PROP_CONSTANT_CHARGE_VOLTAGE_UV (voltage_mv * 1000))
   }"

definition bq25180_vbatreg_get :: "'w zephyr \<Rightarrow> ('w, 'z, int + 32 word) ifmcu_prog" where
  "bq25180_vbatreg_get Z = do {
     ready \<leftarrow> ask (charger_is_ready Z);
     if \<not> ready then return (Inl (- ENODEV))
     else do {
       (ret, val) \<leftarrow> call (charger_get_prop Z CHARGER_PROP_CONSTANT_CHARGE_VOLTAGE_UV);
       if ret < 0 then return (Inl ret) else return (Inr (val div 1000))
     }
   }"

definition bq25180_ilim_set :: "'w zephyr \<Rightarrow> 8 word \<Rightarrow> ('w, 'z, int) ifmcu_prog" where
  "bq25180_ilim_set Z level = do {
     ready \<leftarrow> ask (charger_is_ready Z);
     if \<not> ready then return (- ENODEV)
     else do {
       let level = ucast (FIELD_PREP BQ25180_ILIM_MSK (ucast level));
       ret \<leftarrow> call (i2c_reg_update_byte Z BQ25180_TMR_ILIM (ucast BQ25180_ILIM_MSK) level);
       if ret < 0 then return ret else return 0
     }
   }"

definition bq25180_ilim_get :: "'w zephyr \<Rightarrow> ('w, 'z, int + 8 word) ifmcu_prog" where
  "bq25180_ilim_get Z = do {
     ready \<leftarrow> ask (charger_is_ready Z);
     if \<not> ready then return (Inl (- ENODEV))
     else do {
       (ret, ilim) \<leftarrow> call (i2c_reg_read_byte Z BQ25180_TMR_ILIM);
       if ret < 0 then return (Inl ret)
       else return (Inr (ucast (FIELD_GET BQ25180_ILIM_MSK (ucast ilim))))
     }
   }"

definition bq25180_status :: "'w zephyr \<Rightarrow> ('w, 'z, int + 8 word) ifmcu_prog" where
  "bq25180_status Z = do {
     (ret, val) \<leftarrow> call (charger_get_prop Z CHARGER_PROP_STATUS);
     if ret < 0 then return (Inl ret) else return (Inr (ucast val))
   }"

subsection \<open>The polling work item\<close>

text \<open>
  The label \<open>out\<close> of the handler schedules the next poll. \<open>ifmcu_system_off\<close> does not
  return, so its branch ends there.
\<close>

definition charging_dwork_handler :: "'w zephyr \<Rightarrow> ('w, 'z, unit) ifmcu_prog" where
  "charging_dwork_handler Z = do {
     let out = act (k_work_schedule Z Charging_Dwork CHARGING_CHECK_INTERVAL);
     (ret, online) \<leftarrow> call (charger_get_prop Z CHARGER_PROP_ONLINE);
     if ret < 0 then out
     else do {
       (ret, status) \<leftarrow> call (charger_get_prop Z CHARGER_PROP_STATUS);
       if ret < 0 then out
       else if online = CHARGER_ONLINE_OFFLINE then ifmcu_system_off Z
       else do {
         set_pgood_led_state LED_STATE_ON;
         if status = CHARGER_STATUS_CHARGING then do {
           set_charger_led_state LED_STATE_BREATH;
           out
         } else if status = CHARGER_STATUS_FULL then do {
           set_charger_led_state LED_STATE_OFF;
           out
         } else out
       }
     }
   }"

definition bq25180_init :: "'w zephyr \<Rightarrow> ('w, 'z, int) ifmcu_prog" where
  "bq25180_init Z = do {
     ready \<leftarrow> ask (charger_is_ready Z);
     if \<not> ready then return (- ENODEV)
     else do {
       charging_dwork_handler Z;
       return 0
     }
   }"

lemmas charger_setter_defs = bq25180_chgdis_set_def bq25180_sysreg_set_def bq25180_ichg_set_def
  bq25180_vbatreg_set_def bq25180_ilim_set_def

lemmas charger_getter_defs = bq25180_chgdis_get_def bq25180_sysreg_get_def bq25180_ichg_get_def
  bq25180_vbatreg_get_def bq25180_ilim_get_def

subsection \<open>Bit fields of a register\<close>

text \<open>
  Interface of a bit field: how a value is laid out in the register (\<open>prep\<close>), how it is read
  back (\<open>field\<close>), and the mask that selects it. The client's facts are about the masked update
  the I2C helper performs.
\<close>

definition masked_update :: "8 word \<Rightarrow> 8 word \<Rightarrow> 8 word \<Rightarrow> 8 word" where
  "masked_update msk v old = (old AND NOT msk) OR (v AND msk)"

locale reg_field =
  fixes prep :: "8 word \<Rightarrow> 8 word"
    and field :: "8 word \<Rightarrow> 8 word"
    and msk :: "8 word"
    and size_of :: "8 word"
  assumes prep_in_mask: "prep v AND msk = prep v"
    and field_depends: "field r = field (r AND msk)"
    and field_prep: "field (prep v) = v mod size_of"
    and field_less: "field r < size_of"
begin

lemma masked_disjoint: "((a AND NOT m) OR (b AND m)) AND m = b AND (m :: 8 word)"
  "((a AND NOT m) OR (b AND m)) AND NOT m = a AND NOT (m :: 8 word)"
  by (rule bit_word_eqI, auto simp: bit_simps)+

lemma read_after_update: "field (masked_update msk (prep v) old) = v mod size_of"
proof -
  have "field (masked_update msk (prep v) old) = field (prep v AND msk)"
    by (subst field_depends) (simp add: masked_update_def masked_disjoint)
  then show ?thesis by (simp add: prep_in_mask field_prep)
qed

lemma update_keeps_rest: "masked_update msk (prep v) old AND NOT msk = old AND NOT msk"
  by (simp add: masked_update_def masked_disjoint)

end

definition sysreg_prep :: "8 word \<Rightarrow> 8 word" where
  "sysreg_prep v = ucast (FIELD_PREP BQ25180_SYS_REG_CTRL_MSK (ucast v))"

definition sysreg_field :: "8 word \<Rightarrow> 8 word" where
  "sysreg_field r = ucast (FIELD_GET BQ25180_SYS_REG_CTRL_MSK (ucast r))"

definition ilim_prep :: "8 word \<Rightarrow> 8 word" where
  "ilim_prep v = ucast (FIELD_PREP BQ25180_ILIM_MSK (ucast v))"

definition ilim_field :: "8 word \<Rightarrow> 8 word" where
  "ilim_field r = ucast (FIELD_GET BQ25180_ILIM_MSK (ucast r))"

lemma sysreg_mask: "BQ25180_SYS_REG_CTRL_MSK = 0xE0"
  by (simp add: BQ25180_SYS_REG_CTRL_MSK_def GENMASK_def mask_eq_exp_minus_1)
lemma sysreg_mask8: "(ucast BQ25180_SYS_REG_CTRL_MSK :: 8 word) = 0xE0"
  by (simp add: sysreg_mask)
lemma lsb: "LSB_GET 0xE0 = 32" "LSB_GET 7 = 1"
  by (simp_all add: LSB_GET_def)
lemma ilim_mask: "BQ25180_ILIM_MSK = 7"
  by (simp add: BQ25180_ILIM_MSK_def GENMASK_def mask_eq_exp_minus_1)
lemma mod8: "(v :: 8 word) mod 8 = take_bit 3 v"
  by (simp add: take_bit_eq_mod)

lemma shift5: "(v :: 32 word) * 32 = push_bit 5 v" "(v :: 32 word) div 32 = drop_bit 5 v"
  by (simp_all add: push_bit_eq_mult drop_bit_eq_div)

lemma bit_0xE0: "bit (0xE0 :: 'a :: len word) n \<longleftrightarrow> n < LENGTH('a) \<and> n \<in> {5, 6, 7}"
proof -
  have "(0xE0 :: 'a word) = push_bit 5 (mask 3)"
    by (simp add: mask_eq_exp_minus_1 push_bit_eq_mult)
  then show ?thesis
    by (auto simp only: bit_push_bit_iff bit_mask_iff) (auto simp: )
qed

lemma bit_7: "bit (7 :: 'a :: len word) n \<longleftrightarrow> n < LENGTH('a) \<and> n < 3"
proof -
  have "(7 :: 'a word) = mask 3"
    by (simp add: mask_eq_exp_minus_1)
  then show ?thesis
    by (auto simp only: bit_mask_iff) auto
qed

lemma bit_7_int: "bit (7 :: int) n \<longleftrightarrow> n < 3" "bit (7 :: nat) n \<longleftrightarrow> n < 3"
  using bit_mask_iff [of 3 n, where 'a = int] bit_mask_iff [of 3 n, where 'a = nat]
  by (simp_all add: mask_eq_exp_minus_1)

lemma bit_0xE0_int: "bit (0xE0 :: int) n \<longleftrightarrow> n \<in> {5, 6, 7}" "bit (0xE0 :: nat) n \<longleftrightarrow> n \<in> {5, 6, 7}"
proof -
  have "(0xE0 :: int) = push_bit 5 (mask 3)" "(0xE0 :: nat) = push_bit 5 (mask 3)"
    by (simp_all add: mask_eq_exp_minus_1 push_bit_eq_mult)
  then show "bit (0xE0 :: int) n \<longleftrightarrow> n \<in> {5, 6, 7}" "bit (0xE0 :: nat) n \<longleftrightarrow> n \<in> {5, 6, 7}"
    by (auto simp only: bit_push_bit_iff bit_mask_iff) auto
qed

lemmas field_defs = sysreg_prep_def sysreg_field_def ilim_prep_def ilim_field_def
  FIELD_PREP_def FIELD_GET_def sysreg_mask ilim_mask lsb shift5

lemma less8_bits: "(\<And>n. n \<ge> 3 \<Longrightarrow> \<not> bit (v :: 8 word) n) \<Longrightarrow> v < 8"
proof -
  assume "\<And>n. n \<ge> 3 \<Longrightarrow> \<not> bit v n"
  then have "take_bit 3 v = v"
    by (intro bit_word_eqI) (auto simp: bit_simps, meson not_less)
  then show "v < 8" using word_mod_less_divisor [of 8 v] by (simp add: mod8)
qed

interpretation sysreg: reg_field sysreg_prep sysreg_field "0xE0" 8
proof
  fix v r :: "8 word"
  show "sysreg_prep v AND 0xE0 = sysreg_prep v"
    by (rule bit_word_eqI) (auto simp: field_defs bit_simps bit_0xE0 bit_0xE0_int bit_7 bit_7_int)
  show "sysreg_field r = sysreg_field (r AND 0xE0)"
    by (rule bit_word_eqI) (auto simp: field_defs bit_simps bit_0xE0 bit_0xE0_int bit_7 bit_7_int)
  show "sysreg_field (sysreg_prep v) = v mod 8"
    unfolding mod8 by (rule bit_word_eqI) (auto simp: field_defs bit_simps bit_0xE0 bit_0xE0_int bit_7 bit_7_int)
  show "sysreg_field r < 8"
    by (rule less8_bits) (auto simp: field_defs bit_simps bit_0xE0 bit_0xE0_int bit_7 bit_7_int)
qed

interpretation ilim: reg_field ilim_prep ilim_field 7 8
proof
  fix v r :: "8 word"
  show "ilim_prep v AND 7 = ilim_prep v"
    by (rule bit_word_eqI) (auto simp: field_defs bit_simps bit_7 bit_7_int)
  show "ilim_field r = ilim_field (r AND 7)"
    by (rule bit_word_eqI) (auto simp: field_defs bit_simps bit_7 bit_7_int)
  show "ilim_field (ilim_prep v) = v mod 8"
    unfolding mod8 by (rule bit_word_eqI) (auto simp: field_defs bit_simps bit_7 bit_7_int)
  show "ilim_field r < 8"
    by (rule less8_bits) (auto simp: field_defs bit_simps bit_7 bit_7_int)
qed

subsection \<open>What the accessors guarantee\<close>

text \<open>
  The I2C helpers as Zephyr documents them, over a view \<open>rf\<close> of the device's registers: a read
  that does not fail returns the register and changes none, a masked update that does not fail
  replaces the masked bits of its register and nothing else.
\<close>

definition i2c_registers :: "'w zephyr \<Rightarrow> ('w \<Rightarrow> 8 word \<Rightarrow> 8 word) \<Rightarrow> bool" where
  "i2c_registers Z rf \<longleftrightarrow>
     (\<forall>r w. 0 \<le> fst (fst (i2c_reg_read_byte Z r w)) \<longrightarrow>
        snd (fst (i2c_reg_read_byte Z r w)) = rf w r \<and>
        rf (snd (i2c_reg_read_byte Z r w)) = rf w) \<and>
     (\<forall>r m v w. 0 \<le> fst (i2c_reg_update_byte Z r m v w) \<longrightarrow>
        rf (snd (i2c_reg_update_byte Z r m v w)) = (rf w)(r := masked_update m v (rf w r)))"

lemma i2c_readD:
  "i2c_registers Z rf \<Longrightarrow> 0 \<le> fst (fst (i2c_reg_read_byte Z r w)) \<Longrightarrow>
   snd (fst (i2c_reg_read_byte Z r w)) = rf w r"
  by (simp add: i2c_registers_def)

lemma i2c_updateD:
  "i2c_registers Z rf \<Longrightarrow> 0 \<le> fst (i2c_reg_update_byte Z r m v w) \<Longrightarrow>
   rf (snd (i2c_reg_update_byte Z r m v w)) = (rf w)(r := masked_update m v (rf w r))"
  by (simp add: i2c_registers_def)

lemma mask8 [simp]: "(ucast BQ25180_SYS_REG_CTRL_MSK :: 8 word) = 0xE0"
  "(ucast BQ25180_ILIM_MSK :: 8 word) = 7"
  by (simp_all add: sysreg_mask ilim_mask)

lemmas fold_fields = sysreg_prep_def [symmetric] sysreg_field_def [symmetric]
  ilim_prep_def [symmetric] ilim_field_def [symmetric]

lemma run_sysreg_set:
  "run_state (bq25180_sysreg_set Z v) s =
    (if charger_is_ready Z (world s) then
       (min 0 (fst (i2c_reg_update_byte Z BQ25180_SYS_REG 0xE0 (sysreg_prep v) (world s))),
        s\<lparr>world := snd (i2c_reg_update_byte Z BQ25180_SYS_REG 0xE0 (sysreg_prep v) (world s))\<rparr>)
     else (- ENODEV, s))"
  by (simp add: bq25180_sysreg_set_def fold_fields case_prod_unfold)

lemma run_ilim_set:
  "run_state (bq25180_ilim_set Z v) s =
    (if charger_is_ready Z (world s) then
       (min 0 (fst (i2c_reg_update_byte Z BQ25180_TMR_ILIM 7 (ilim_prep v) (world s))),
        s\<lparr>world := snd (i2c_reg_update_byte Z BQ25180_TMR_ILIM 7 (ilim_prep v) (world s))\<rparr>)
     else (- ENODEV, s))"
  by (simp add: bq25180_ilim_set_def fold_fields case_prod_unfold)

lemma sysreg_get_Inr:
  "i2c_registers Z rf \<Longrightarrow> result (bq25180_sysreg_get Z) s = Inr v \<Longrightarrow>
   v = sysreg_field (rf (world s) BQ25180_SYS_REG)"
  by (auto simp: bq25180_sysreg_get_def result_def fold_fields case_prod_unfold i2c_readD
      split: if_splits)

lemma ilim_get_Inr:
  "i2c_registers Z rf \<Longrightarrow> result (bq25180_ilim_get Z) s = Inr v \<Longrightarrow>
   v = ilim_field (rf (world s) BQ25180_TMR_ILIM)"
  by (auto simp: bq25180_ilim_get_def result_def fold_fields case_prod_unfold i2c_readD
      split: if_splits)

text \<open>
  A successful write of the SYS voltage mode or of the input current limit stores the three
  low bits of the value: what is read back is the value modulo 8, the other bits of the register
  and all other registers are unchanged. The I2C helpers are assumed to do what they document.
\<close>

theorem charger_field_roundtrip:
  assumes "i2c_registers Z rf"
  shows "(result (bq25180_sysreg_set Z v) s = 0 \<longrightarrow>
      (let s' = exec_state (bq25180_sysreg_set Z v) s in
         (\<forall>u. result (bq25180_sysreg_get Z) s' = Inr u \<longrightarrow> u = v mod 8) \<and>
         rf (world s') BQ25180_SYS_REG AND NOT 0xE0 = rf (world s) BQ25180_SYS_REG AND NOT 0xE0 \<and>
         (\<forall>r. r \<noteq> BQ25180_SYS_REG \<longrightarrow> rf (world s') r = rf (world s) r))) \<and>
    (result (bq25180_ilim_set Z v) s = 0 \<longrightarrow>
      (let s' = exec_state (bq25180_ilim_set Z v) s in
         (\<forall>u. result (bq25180_ilim_get Z) s' = Inr u \<longrightarrow> u = v mod 8) \<and>
         rf (world s') BQ25180_TMR_ILIM AND NOT 7 = rf (world s) BQ25180_TMR_ILIM AND NOT 7 \<and>
         (\<forall>r. r \<noteq> BQ25180_TMR_ILIM \<longrightarrow> rf (world s') r = rf (world s) r)))"
proof (intro conjI impI)
  assume "result (bq25180_sysreg_set Z v) s = 0"
  then have upd: "rf (world (exec_state (bq25180_sysreg_set Z v) s))
      = (rf (world s))(BQ25180_SYS_REG := masked_update 0xE0 (sysreg_prep v) (rf (world s) BQ25180_SYS_REG))"
    using assms by (auto simp: run_defs run_sysreg_set i2c_updateD ENODEV_def split: if_splits)
  show "let s' = exec_state (bq25180_sysreg_set Z v) s in
         (\<forall>u. result (bq25180_sysreg_get Z) s' = Inr u \<longrightarrow> u = v mod 8) \<and>
         rf (world s') BQ25180_SYS_REG AND NOT 0xE0 = rf (world s) BQ25180_SYS_REG AND NOT 0xE0 \<and>
         (\<forall>r. r \<noteq> BQ25180_SYS_REG \<longrightarrow> rf (world s') r = rf (world s) r)"
    by (auto simp: Let_def upd sysreg.update_keeps_rest [simplified] sysreg.read_after_update
        dest: sysreg_get_Inr [OF assms])
next
  assume "result (bq25180_ilim_set Z v) s = 0"
  then have upd: "rf (world (exec_state (bq25180_ilim_set Z v) s))
      = (rf (world s))(BQ25180_TMR_ILIM := masked_update 7 (ilim_prep v) (rf (world s) BQ25180_TMR_ILIM))"
    using assms by (auto simp: run_defs run_ilim_set i2c_updateD ENODEV_def split: if_splits)
  show "let s' = exec_state (bq25180_ilim_set Z v) s in
         (\<forall>u. result (bq25180_ilim_get Z) s' = Inr u \<longrightarrow> u = v mod 8) \<and>
         rf (world s') BQ25180_TMR_ILIM AND NOT 7 = rf (world s) BQ25180_TMR_ILIM AND NOT 7 \<and>
         (\<forall>r. r \<noteq> BQ25180_TMR_ILIM \<longrightarrow> rf (world s') r = rf (world s) r)"
    by (auto simp: Let_def upd ilim.update_keeps_rest [simplified] ilim.read_after_update
        dest: ilim_get_Inr [OF assms])
qed

lemma bench_i2c: "i2c_registers bench_zephyr bench_regs"
  by (simp add: i2c_registers_def bench_defs masked_update_def)

theorem charger_field_roundtrip_witness:
  "result (bq25180_sysreg_get bench_zephyr) (exec_state (bq25180_sysreg_set bench_zephyr 9) bench_state) = Inr 1
   \<and> (let s' = exec_state (bq25180_sysreg_set bench_zephyr 9) bench_state in
        \<forall>u. result (bq25180_sysreg_get bench_zephyr) s' = Inr u \<longrightarrow> u = 1)"
proof
  have ok: "result (bq25180_sysreg_set bench_zephyr 9) bench_state = 0"
    by (simp add: result_def run_sysreg_set bench_defs)
  note inst = charger_field_roundtrip [OF bench_i2c, of 9 bench_state, THEN conjunct1, rule_format, OF ok]
  then show "let s' = exec_state (bq25180_sysreg_set bench_zephyr 9) bench_state in
        \<forall>u. result (bq25180_sysreg_get bench_zephyr) s' = Inr u \<longrightarrow> u = 1"
    by (simp add: Let_def)
  then show "result (bq25180_sysreg_get bench_zephyr)
      (exec_state (bq25180_sysreg_set bench_zephyr 9) bench_state) = Inr 1"
    by (simp add: Let_def run_defs run_sysreg_set bq25180_sysreg_get_def bench_defs case_prod_unfold)
qed

text \<open>
  While the charger driver is not ready, every accessor and the initialisation return
  \<open>-ENODEV\<close> and neither the device nor any static variable changes.
\<close>

theorem charger_not_ready:
  assumes "\<not> charger_is_ready Z (world s)"
  shows "run_state (bq25180_chgdis_set Z b) s = (- ENODEV, s) \<and>
    run_state (bq25180_sysreg_set Z b) s = (- ENODEV, s) \<and>
    run_state (bq25180_ilim_set Z b) s = (- ENODEV, s) \<and>
    run_state (bq25180_ichg_set Z v) s = (- ENODEV, s) \<and>
    run_state (bq25180_vbatreg_set Z v) s = (- ENODEV, s) \<and>
    run_state (bq25180_chgdis_get Z) s = (Inl (- ENODEV), s) \<and>
    run_state (bq25180_sysreg_get Z) s = (Inl (- ENODEV), s) \<and>
    run_state (bq25180_ilim_get Z) s = (Inl (- ENODEV), s) \<and>
    run_state (bq25180_ichg_get Z) s = (Inl (- ENODEV), s) \<and>
    run_state (bq25180_vbatreg_get Z) s = (Inl (- ENODEV), s) \<and>
    run_state (bq25180_init Z) s = (- ENODEV, s)"
  using assms by (simp add: charger_setter_defs charger_getter_defs bq25180_init_def)

subsection \<open>The poll\<close>

definition charger_indication :: "32 word \<Rightarrow> leds \<Rightarrow> leds" where
  "charger_indication st l = l\<lparr>pgood_led := arm LED_STATE_ON (pgood_led l),
     charger_led := (if st = CHARGER_STATUS_CHARGING then arm LED_STATE_BREATH (charger_led l)
       else if st = CHARGER_STATUS_FULL then arm LED_STATE_OFF (charger_led l)
       else charger_led l)\<rparr>"

text \<open>
  The charger poll on every branch: when either property cannot be read, the indicators stay
  and the next poll is scheduled; when the supply is gone, the chip powers down and nothing is
  scheduled; otherwise power-good is lit, the charge indicator follows the status (breathing when
  charging, off when full, untouched otherwise) and the next poll is scheduled, exactly once.
\<close>

theorem charging_poll:
  "case charger_get_prop Z CHARGER_PROP_ONLINE (world s) of ((rc1, online), w1) \<Rightarrow>
   case charger_get_prop Z CHARGER_PROP_STATUS w1 of ((rc2, status), w2) \<Rightarrow>
     exec_state (charging_dwork_handler Z) s =
      (if rc1 < 0 then s\<lparr>world := k_work_schedule Z Charging_Dwork CHARGING_CHECK_INTERVAL w1\<rparr>
       else if rc2 < 0 then
         s\<lparr>world := k_work_schedule Z Charging_Dwork CHARGING_CHECK_INTERVAL w2\<rparr>
       else if online = CHARGER_ONLINE_OFFLINE then exec_state (ifmcu_system_off Z) (s\<lparr>world := w2\<rparr>)
       else s\<lparr>world := k_work_schedule Z Charging_Dwork CHARGING_CHECK_INTERVAL w2,
              leds := charger_indication status (leds s)\<rparr>)"
proof -
  obtain rc1 online w1 rc2 status w2 where
    r: "charger_get_prop Z CHARGER_PROP_ONLINE (world s) = ((rc1, online), w1)"
      "charger_get_prop Z CHARGER_PROP_STATUS w1 = ((rc2, status), w2)"
    by (metis prod.collapse)
  consider "rc1 < 0" | "\<not> rc1 < 0" "rc2 < 0" | "\<not> rc1 < 0" "\<not> rc2 < 0" "online = CHARGER_ONLINE_OFFLINE"
    | "\<not> rc1 < 0" "\<not> rc2 < 0" "online \<noteq> CHARGER_ONLINE_OFFLINE"
    by blast
  then show ?thesis
    by cases (simp_all add: r charging_dwork_handler_def Let_def exec_state_def led_setter_defs
        charger_indication_def)
qed

theorem charger_not_ready_witness:
  "run_state (bq25180_sysreg_set bench_zephyr 3)
      (ifmcu_init (bench0\<lparr>bench_ready := False\<rparr>) 0)
    = (- ENODEV, ifmcu_init (bench0\<lparr>bench_ready := False\<rparr>) 0)"
  using charger_not_ready [of bench_zephyr "ifmcu_init (bench0\<lparr>bench_ready := False\<rparr>) 0"]
  by (simp add: bench_zephyr_def ifmcu_init_def)

end
