(* ===== verification/Ifmcu_Settings.thy ===== *)
theory Ifmcu_Settings
  imports Ifmcu_Charger
begin

section \<open>Pins, work items and stored settings (\<open>ifmcu_shell.c\<close>)\<close>

text \<open>
  The part of \<open>ifmcu_shell.c\<close> below the shell: the VIO selection pin, the reset work items, the
  button, the handler Zephyr's settings subsystem calls for each stored record, and
  \<open>cfgsync\<close>, which stores the current settings.
\<close>

text \<open>The keys of the stored records.\<close>

definition SETTINGS_KEY :: string where "SETTINGS_KEY = ''cfg''"
definition VIOSEL_STORAGE_NAME :: string where "VIOSEL_STORAGE_NAME = ''viosel''"
definition CHARGER_CHGDIS_STORAGE_NAME :: string where "CHARGER_CHGDIS_STORAGE_NAME = ''chgdis''"
definition CHARGER_SYSREG_STORAGE_NAME :: string where "CHARGER_SYSREG_STORAGE_NAME = ''sysreg''"
definition CHARGER_ICHG_STORAGE_NAME :: string where "CHARGER_ICHG_STORAGE_NAME = ''ichg''"
definition CHARGER_VBATREG_STORAGE_NAME :: string where "CHARGER_VBATREG_STORAGE_NAME = ''vbatreg''"
definition CHARGER_ILIM_STORAGE_NAME :: string where "CHARGER_ILIM_STORAGE_NAME = ''ilim''"

lemmas storage_names = VIOSEL_STORAGE_NAME_def
  CHARGER_CHGDIS_STORAGE_NAME_def CHARGER_SYSREG_STORAGE_NAME_def
  CHARGER_ICHG_STORAGE_NAME_def CHARGER_VBATREG_STORAGE_NAME_def CHARGER_ILIM_STORAGE_NAME_def

definition cfg_key :: "string \<Rightarrow> string" where
  "cfg_key name = SETTINGS_KEY @ ''/'' @ name"

subsection \<open>Work items and pins\<close>

definition viosel_set :: "'w zephyr \<Rightarrow> int \<Rightarrow> ('w, 'z, int) ifmcu_prog" where
  "viosel_set Z val = do {
     ready \<leftarrow> ask (gpio_is_ready Z Viosel_Gpio);
     if \<not> ready then return (- ENODEV)
     else do {
       ret \<leftarrow> call (gpio_pin_configure Z Viosel_Gpio
         (if val \<noteq> 0 then GPIO_OUTPUT_ACTIVE else GPIO_OUTPUT_INACTIVE));
       if ret < 0 then return ret
       else do {
         modify (\<lambda>s. s\<lparr>viosel := val\<rparr>);
         return 0
       }
     }
   }"

definition viosel_get :: "('w, 'z, int) ifmcu_prog" where
  "viosel_get = gets viosel"

definition NRF91_RESET_DURATION :: nat where
  "NRF91_RESET_DURATION = 100"

definition nrf91_reset_work_handler :: "'w zephyr \<Rightarrow> ('w, 'z, unit) ifmcu_prog" where
  "nrf91_reset_work_handler Z = do {
     ready \<leftarrow> ask (gpio_is_ready Z Reset_Pin);
     if \<not> ready then return ()
     else do {
       _ \<leftarrow> call (gpio_pin_configure Z Reset_Pin GPIO_OUTPUT_LOW);
       act (k_sleep Z NRF91_RESET_DURATION);
       _ \<leftarrow> call (gpio_pin_configure Z Reset_Pin GPIO_DISCONNECTED);
       return ()
     }
   }"

definition ifmcu_bootloader_work_handler :: "('w, 'z, unit) ifmcu_prog" where
  "ifmcu_bootloader_work_handler = do {
     modify (\<lambda>s. s\<lparr>gpregret := 0x57\<rparr>);
     modify (\<lambda>s. s\<lparr>run_mode := Rebooting SYS_REBOOT_COLD\<rparr>)
   }"

definition ifmcu_reset_work_handler :: "('w, 'z, unit) ifmcu_prog" where
  "ifmcu_reset_work_handler = modify (\<lambda>s. s\<lparr>run_mode := Rebooting SYS_REBOOT_WARM\<rparr>)"

definition DK_BTN1_MSK :: "32 word" where
  "DK_BTN1_MSK = 1"

definition button_handler :: "'w zephyr \<Rightarrow> 32 word \<Rightarrow> 32 word \<Rightarrow> ('w, 'z, unit) ifmcu_prog" where
  "button_handler Z button_states has_changed =
     doif (has_changed AND button_states AND DK_BTN1_MSK \<noteq> 0) (request_work Z Nrf91_Reset_Work)"

definition button_handling_init :: "'w zephyr \<Rightarrow> ('w, 'z, int) ifmcu_prog" where
  "button_handling_init Z = do {
     err \<leftarrow> call (dk_buttons_init Z);
     return 0
   }"

subsection \<open>Reading a stored record\<close>

text \<open>
  The callback of the settings subsystem that copies up to \<open>n\<close> bytes of the record: the number
  copied (or an error) and the bytes.
\<close>

type_synonym 'w settings_read_cb = "nat \<Rightarrow> 'w \<Rightarrow> (int \<times> 8 word list) \<times> 'w"

text \<open>
  The six branches of \<open>settings_set\<close> have one shape: a record of the wrong size is ignored; the
  value is read; if it is in range and not the current one, it is applied. Failures of the device
  are logged and not returned.
\<close>

definition load_setting :: "nat \<Rightarrow> (8 word list \<Rightarrow> 'v) \<Rightarrow> ('v \<Rightarrow> bool) \<Rightarrow>
    ('w, 'z, int + 'v) ifmcu_prog \<Rightarrow> ('v \<Rightarrow> ('w, 'z, int) ifmcu_prog) \<Rightarrow>
    nat \<Rightarrow> 'w settings_read_cb \<Rightarrow> ('w, 'z, int) ifmcu_prog" where
  "load_setting sz dec in_range getter setter len_rd read_cb =
     (if len_rd = sz then do {
        (rc, bytes) \<leftarrow> call (read_cb sz);
        if rc = int sz then do {
          cur \<leftarrow> getter;
          case cur of
            Inl ret \<Rightarrow> return 0
          | Inr v \<Rightarrow>
              if in_range (dec bytes) \<and> dec bytes \<noteq> v then do {
                ret \<leftarrow> setter (dec bytes);
                return 0
              } else return 0
        }
        else if rc < 0 then return rc
        else return 0
      } else return 0)"

definition settings_set :: "'w zephyr \<Rightarrow> string \<Rightarrow> nat \<Rightarrow> 'w settings_read_cb \<Rightarrow>
    ('w, 'z, int) ifmcu_prog" where
  "settings_set Z key len_rd read_cb =
     (if key = VIOSEL_STORAGE_NAME then
        load_setting 4 int_of_bytes (\<lambda>v. v = -1 \<or> v = 0 \<or> v = 1)
          (do { v \<leftarrow> viosel_get; return (Inr v) }) (viosel_set Z) len_rd read_cb
      else if key = CHARGER_CHGDIS_STORAGE_NAME then
        load_setting 1 hd (\<lambda>v. v = 0 \<or> v = 1)
          (bq25180_chgdis_get Z) (bq25180_chgdis_set Z) len_rd read_cb
      else if key = CHARGER_SYSREG_STORAGE_NAME then
        load_setting 1 hd (\<lambda>v. v < 8)
          (bq25180_sysreg_get Z) (bq25180_sysreg_set Z) len_rd read_cb
      else if key = CHARGER_ICHG_STORAGE_NAME then
        load_setting 4 of_le32 (\<lambda>v. v \<le> 1000)
          (bq25180_ichg_get Z) (bq25180_ichg_set Z) len_rd read_cb
      else if key = CHARGER_VBATREG_STORAGE_NAME then
        load_setting 4 of_le32 (\<lambda>v. 3500 \<le> v \<and> v \<le> 4650)
          (bq25180_vbatreg_get Z) (bq25180_vbatreg_set Z) len_rd read_cb
      else if key = CHARGER_ILIM_STORAGE_NAME then
        load_setting 1 hd (\<lambda>v. v < 8)
          (bq25180_ilim_get Z) (bq25180_ilim_set Z) len_rd read_cb
      else return 0)"

text \<open>
  \<open>settings_load\<close>, which calls the registered handler for the stored records, is a parameter.
\<close>

type_synonym ('w, 'z) settings_handler =
  "string \<Rightarrow> nat \<Rightarrow> 'w settings_read_cb \<Rightarrow> ('w, 'z, int) ifmcu_prog"

definition settings_init :: "'w zephyr \<Rightarrow>
    (('w, 'z) settings_handler \<Rightarrow> ('w, 'z, int) ifmcu_prog) \<Rightarrow> ('w, 'z, unit) ifmcu_prog" where
  "settings_init Z settings_load = do {
     err \<leftarrow> call (settings_subsys_init Z);
     if err \<noteq> 0 then return ()
     else do {
       err \<leftarrow> call (settings_register Z SETTINGS_KEY);
       if err \<noteq> 0 then return ()
       else do {
         err \<leftarrow> settings_load (settings_set Z);
         return ()
       }
     }
   }"

definition ifmcu_shell_init :: "'w zephyr \<Rightarrow>
    (('w, 'z) settings_handler \<Rightarrow> ('w, 'z, int) ifmcu_prog) \<Rightarrow> ('w, 'z, int) ifmcu_prog" where
  "ifmcu_shell_init Z settings_load = do {
     _ \<leftarrow> led_state_init Z;
     settings_init Z settings_load;
     _ \<leftarrow> bq25180_init Z;
     return 0
   }"

subsection \<open>Storing the settings\<close>

record 'w ifmcu_shell = "'w ifmcu" +
  shell_out :: "out list"

definition emit :: "out \<Rightarrow> ('w ifmcu_shell, unit) prog" where
  "emit x = modify (\<lambda>s. s\<lparr>shell_out := shell_out s @ [x]\<rparr>)"

definition store_setting :: "'w zephyr \<Rightarrow> string \<Rightarrow> string \<Rightarrow> ('v \<Rightarrow> 8 word list) \<Rightarrow>
    ('w ifmcu_shell, int + 'v) prog \<Rightarrow> ('w ifmcu_shell, unit) prog" where
  "store_setting Z get_msg key enc getter = do {
     cur \<leftarrow> getter;
     case cur of
       Inl ret \<Rightarrow> emit (Error get_msg [PInt ret])
     | Inr v \<Rightarrow> do {
         ret \<leftarrow> call (settings_save_one Z key (enc v));
         doif (ret \<noteq> 0) (emit (Error ''Problem storing %s: (err = %d)'' [PStr key, PInt ret]))
       }
   }"

definition cmd_cfgsync :: "'w zephyr \<Rightarrow> string list \<Rightarrow> ('w ifmcu_shell, int) prog" where
  "cmd_cfgsync Z argv = do {
     store_setting Z [] (cfg_key VIOSEL_STORAGE_NAME) int_bytes (do { v \<leftarrow> viosel_get; return (Inr v) });
     store_setting Z ''Fail to get CHGDIS: (err = %d)'' (cfg_key CHARGER_CHGDIS_STORAGE_NAME) (\<lambda>v. [v]) (bq25180_chgdis_get Z);
     store_setting Z ''Fail to get SYSREG: (err = %d)'' (cfg_key CHARGER_SYSREG_STORAGE_NAME) (\<lambda>v. [v]) (bq25180_sysreg_get Z);
     store_setting Z ''Fail to get ICHG: (err = %d)'' (cfg_key CHARGER_ICHG_STORAGE_NAME) le32 (bq25180_ichg_get Z);
     store_setting Z ''Fail to get VBATREG: (err = %d)'' (cfg_key CHARGER_VBATREG_STORAGE_NAME) le32 (bq25180_vbatreg_get Z);
     store_setting Z ''Fail to get ILIM: (err = %d)'' (cfg_key CHARGER_ILIM_STORAGE_NAME) (\<lambda>v. [v]) (bq25180_ilim_get Z);
     return 0
   }"

subsection \<open>The configuration as the outside sees it\<close>

text \<open>
  The six values \<open>cfgsync\<close> stores. Five live in the charger (\<open>cfg\<close> is the view of them), the sixth is the static variable \<open>viosel\<close>.
\<close>

record charger_cfg =
  cc_chgdis :: "8 word"
  cc_sysreg :: "8 word"
  cc_ichg_ma :: "32 word"
  cc_vbatreg_mv :: "32 word"
  cc_ilim :: "8 word"

record board_cfg = charger_cfg +
  bc_viosel :: int

definition board_cfg :: "('w \<Rightarrow> charger_cfg) \<Rightarrow> ('w, 'z) ifmcu_scheme \<Rightarrow> board_cfg" where
  "board_cfg cfg s = charger_cfg.extend (cfg (world s)) \<lparr>bc_viosel = viosel s\<rparr>"

lemma board_cfg_sel [simp]:
  "cc_chgdis (board_cfg cfg s) = cc_chgdis (cfg (world s))"
  "cc_sysreg (board_cfg cfg s) = cc_sysreg (cfg (world s))"
  "cc_ichg_ma (board_cfg cfg s) = cc_ichg_ma (cfg (world s))"
  "cc_vbatreg_mv (board_cfg cfg s) = cc_vbatreg_mv (cfg (world s))"
  "cc_ilim (board_cfg cfg s) = cc_ilim (cfg (world s))"
  "bc_viosel (board_cfg cfg s) = viosel s"
  by (simp_all add: board_cfg_def charger_cfg.defs)

text \<open>
  A board whose peripherals work: what Zephyr documents of the calls the firmware makes, in terms
  of the view \<open>cfg\<close> of the charger, the sets \<open>S\<close> of currents (mA)
  and voltages (mV) its driver can set exactly, and the
  view \<open>sf\<close> of the stored records.
\<close>

definition working_board :: "'w zephyr \<Rightarrow> ('w \<Rightarrow> charger_cfg) \<Rightarrow> (charger_prop \<Rightarrow> 32 word set) \<Rightarrow>
    ('w \<Rightarrow> string \<Rightarrow> 8 word list option) \<Rightarrow> bool" where
  "working_board Z cfg S sf \<longleftrightarrow>
     (\<forall>w. charger_is_ready Z w \<and> gpio_is_ready Z Viosel_Gpio w) \<and>
     (\<forall>w. \<exists>b. i2c_reg_read_byte Z BQ25180_ICHG_CTRL w = ((0, b), w) \<and>
        (if ucast b AND BQ25180_ICHG_CHG_DIS \<noteq> 0 then 1 else 0) = cc_chgdis (cfg w)) \<and>
     (\<forall>w. \<exists>b. i2c_reg_read_byte Z BQ25180_SYS_REG w = ((0, b), w) \<and> sysreg_field b = cc_sysreg (cfg w)) \<and>
     (\<forall>w. \<exists>b. i2c_reg_read_byte Z BQ25180_TMR_ILIM w = ((0, b), w) \<and> ilim_field b = cc_ilim (cfg w)) \<and>
     (\<forall>w. \<exists>u. charger_get_prop Z CHARGER_PROP_CONSTANT_CHARGE_CURRENT_UA w = ((0, u), w) \<and>
        u div 1000 = cc_ichg_ma (cfg w)) \<and>
     (\<forall>w. \<exists>u. charger_get_prop Z CHARGER_PROP_CONSTANT_CHARGE_VOLTAGE_UV w = ((0, u), w) \<and>
        u div 1000 = cc_vbatreg_mv (cfg w)) \<and>
     (\<forall>e w. cfg (snd (charger_charge_enable Z e w)) = (cfg w)\<lparr>cc_chgdis := if e then 0 else 1\<rparr>) \<and>
     (\<forall>v w. cfg (snd (i2c_reg_update_byte Z BQ25180_SYS_REG 0xE0 v w))
        = (cfg w)\<lparr>cc_sysreg := sysreg_field v\<rparr>) \<and>
     (\<forall>v w. cfg (snd (i2c_reg_update_byte Z BQ25180_TMR_ILIM 7 v w))
        = (cfg w)\<lparr>cc_ilim := ilim_field v\<rparr>) \<and>
     (\<forall>v\<in>S CHARGER_PROP_CONSTANT_CHARGE_CURRENT_UA. \<forall>w.
        cfg (snd (charger_set_prop Z CHARGER_PROP_CONSTANT_CHARGE_CURRENT_UA (v * 1000) w))
          = (cfg w)\<lparr>cc_ichg_ma := v\<rparr>) \<and>
     (\<forall>v\<in>S CHARGER_PROP_CONSTANT_CHARGE_VOLTAGE_UV. \<forall>w.
        cfg (snd (charger_set_prop Z CHARGER_PROP_CONSTANT_CHARGE_VOLTAGE_UV (v * 1000) w))
          = (cfg w)\<lparr>cc_vbatreg_mv := v\<rparr>) \<and>
     (\<forall>f w. 0 \<le> fst (gpio_pin_configure Z Viosel_Gpio f w) \<and>
        cfg (snd (gpio_pin_configure Z Viosel_Gpio f w)) = cfg w) \<and>
     (\<forall>k v w. fst (settings_save_one Z k v w) = 0 \<and> cfg (snd (settings_save_one Z k v w)) = cfg w \<and>
        sf (snd (settings_save_one Z k v w)) = (sf w)(k \<mapsto> v)) \<and>
     (\<forall>w. fst (settings_subsys_init Z w) = 0 \<and> cfg (snd (settings_subsys_init Z w)) = cfg w \<and>
        sf (snd (settings_subsys_init Z w)) = sf w) \<and>
     (\<forall>k w. fst (settings_register Z k w) = 0 \<and> cfg (snd (settings_register Z k w)) = cfg w \<and>
        sf (snd (settings_register Z k w)) = sf w)"

lemma working_board_ready:
  assumes "working_board Z cfg S sf"
  shows "charger_is_ready Z w" "gpio_is_ready Z Viosel_Gpio w"
  using assms by (simp_all add: working_board_def)

lemma working_board_read:
  assumes "working_board Z cfg S sf"
  shows "\<exists>b. i2c_reg_read_byte Z BQ25180_ICHG_CTRL w = ((0, b), w) \<and>
      (if ucast b AND BQ25180_ICHG_CHG_DIS \<noteq> 0 then 1 else 0) = cc_chgdis (cfg w)"
    and "\<exists>b. i2c_reg_read_byte Z BQ25180_SYS_REG w = ((0, b), w) \<and> sysreg_field b = cc_sysreg (cfg w)"
    and "\<exists>b. i2c_reg_read_byte Z BQ25180_TMR_ILIM w = ((0, b), w) \<and> ilim_field b = cc_ilim (cfg w)"
    and "\<exists>u. charger_get_prop Z CHARGER_PROP_CONSTANT_CHARGE_CURRENT_UA w = ((0, u), w) \<and>
        u div 1000 = cc_ichg_ma (cfg w)"
    and "\<exists>u. charger_get_prop Z CHARGER_PROP_CONSTANT_CHARGE_VOLTAGE_UV w = ((0, u), w) \<and>
        u div 1000 = cc_vbatreg_mv (cfg w)"
  using assms by (simp_all add: working_board_def)

lemma working_board_write:
  assumes "working_board Z cfg S sf"
  shows "cfg (snd (charger_charge_enable Z e w)) = (cfg w)\<lparr>cc_chgdis := if e then 0 else 1\<rparr>"
    and "cfg (snd (i2c_reg_update_byte Z BQ25180_SYS_REG 0xE0 v w)) = (cfg w)\<lparr>cc_sysreg := sysreg_field v\<rparr>"
    and "cfg (snd (i2c_reg_update_byte Z BQ25180_TMR_ILIM 7 v w)) = (cfg w)\<lparr>cc_ilim := ilim_field v\<rparr>"
    and "m \<in> S CHARGER_PROP_CONSTANT_CHARGE_CURRENT_UA \<Longrightarrow>
      cfg (snd (charger_set_prop Z CHARGER_PROP_CONSTANT_CHARGE_CURRENT_UA (m * 1000) w))
        = (cfg w)\<lparr>cc_ichg_ma := m\<rparr>"
    and "m \<in> S CHARGER_PROP_CONSTANT_CHARGE_VOLTAGE_UV \<Longrightarrow>
      cfg (snd (charger_set_prop Z CHARGER_PROP_CONSTANT_CHARGE_VOLTAGE_UV (m * 1000) w))
        = (cfg w)\<lparr>cc_vbatreg_mv := m\<rparr>"
    and "\<not> fst (gpio_pin_configure Z Viosel_Gpio f w) < 0"
    and "cfg (snd (gpio_pin_configure Z Viosel_Gpio f w)) = cfg w"
  using assms by (simp_all add: working_board_def not_less)

lemma working_board_settings:
  assumes "working_board Z cfg S sf"
  shows "fst (settings_save_one Z k v w) = 0" "cfg (snd (settings_save_one Z k v w)) = cfg w"
    and "sf (snd (settings_save_one Z k v w)) = (sf w)(k \<mapsto> v)"
    and "fst (settings_subsys_init Z w) = 0" "cfg (snd (settings_subsys_init Z w)) = cfg w"
    and "sf (snd (settings_subsys_init Z w)) = sf w"
    and "fst (settings_register Z k w) = 0" "cfg (snd (settings_register Z k w)) = cfg w"
    and "sf (snd (settings_register Z k w)) = sf w"
  using assms by (simp_all add: working_board_def)

subsection \<open>One stored setting\<close>

text \<open>
  Interface of a setting that is stored: its getter and setter over the board, its codec, the
  field of the configuration it is, and the values that can be restored. \<open>works\<close> is the contract
  with the outside.
\<close>

locale stored_setting =
  fixes works :: bool
    and cfg :: "'w \<Rightarrow> charger_cfg"
    and getter :: "('w, 'z, int + 'v) ifmcu_prog"
    and setter :: "'v \<Rightarrow> ('w, 'z, int) ifmcu_prog"
    and enc :: "'v \<Rightarrow> 8 word list"
    and dec :: "8 word list \<Rightarrow> 'v"
    and sz :: nat
    and in_range :: "'v \<Rightarrow> bool"
    and field :: "board_cfg \<Rightarrow> 'v"
    and put :: "'v \<Rightarrow> board_cfg \<Rightarrow> board_cfg"
    and settable :: "'v \<Rightarrow> bool"
  assumes dec_enc: "settable v \<Longrightarrow> dec (enc v) = v"
    and size_enc: "length (enc v) = sz"
    and settable_in_range: "settable v \<Longrightarrow> in_range v"
    and put_field: "put (field b) b = b"
    and get_law: "works \<Longrightarrow> run_state getter s = (Inr (field (board_cfg cfg s)), s)"
    and set_law: "works \<Longrightarrow> settable v \<Longrightarrow>
      board_cfg cfg (exec_state (setter v) s) = put v (board_cfg cfg s)"
begin

text \<open>A record of a settable value puts the setting to that value, whatever it was.\<close>

lemma load_record:
  assumes "works" "settable v"
    and "read_cb sz (world s) = ((int sz, enc v), world s)"
  shows "board_cfg cfg (exec_state (load_setting sz dec in_range getter setter (length (enc v)) read_cb) s)
    = put v (board_cfg cfg s)"
proof -
  have s: "s\<lparr>world := world s\<rparr> = s" by simp
  note [simp] = assms(3) dec_enc [OF assms(2)] size_enc get_law [OF assms(1)]
    settable_in_range [OF assms(2)]
  show ?thesis
  proof (cases "v = field (board_cfg cfg s)")
    case True
    then show ?thesis
      using put_field [of "board_cfg cfg s"] True [symmetric] by (simp add: load_setting_def exec_state_def s)
  next
    case False
    then show ?thesis
      using set_law [OF assms(1,2), of s]
      by (simp add: load_setting_def exec_state_def s case_prod_unfold)
  qed
qed

end

lemma mod8_id: "(v :: 8 word) < 8 \<Longrightarrow> v mod 8 = v"
  by (simp add: word_less_nat_alt word_unat_eq_iff unat_mod_distrib)

definition VIO_VALUES :: "int set" where
  "VIO_VALUES = {-1, 0, 1}"

interpretation viosel: stored_setting "working_board Z cfg S sf" cfg
    "do { v \<leftarrow> viosel_get; return (Inr v) }" "viosel_set Z" int_bytes int_of_bytes 4
    "\<lambda>v. v = -1 \<or> v = 0 \<or> v = 1" bc_viosel "\<lambda>v b. b\<lparr>bc_viosel := v\<rparr>" "\<lambda>v. v \<in> VIO_VALUES"
  for Z and cfg :: "'w \<Rightarrow> charger_cfg" and S sf
proof
  fix v and s :: "('w, 'z) ifmcu_scheme"
  assume w: "working_board Z cfg S sf" and "v \<in> VIO_VALUES"
  show "board_cfg cfg (exec_state (viosel_set Z v) s) = board_cfg cfg s\<lparr>bc_viosel := v\<rparr>"
    by (simp add: viosel_set_def exec_state_def board_cfg_def charger_cfg.defs
        working_board_ready [OF w] working_board_write [OF w])
qed (auto simp: VIO_VALUES_def viosel_get_def)

interpretation chgdis: stored_setting "working_board Z cfg S sf" cfg
    "bq25180_chgdis_get Z" "bq25180_chgdis_set Z" "\<lambda>v. [v]" hd 1
    "\<lambda>v. v = 0 \<or> v = 1" cc_chgdis "\<lambda>v b. b\<lparr>cc_chgdis := v\<rparr>" "\<lambda>v. v = 0 \<or> v = 1"
  for Z and cfg :: "'w \<Rightarrow> charger_cfg" and S sf
proof
  fix v :: "8 word" and s :: "('w, 'z) ifmcu_scheme"
  assume w: "working_board Z cfg S sf"
  note r = working_board_ready [OF w, of "world s"]
  obtain b where "i2c_reg_read_byte Z BQ25180_ICHG_CTRL (world s) = ((0, b), world s)"
      "(if ucast b AND BQ25180_ICHG_CHG_DIS \<noteq> 0 then 1 else 0) = cc_chgdis (cfg (world s))"
    using working_board_read [OF w] by blast
  with r show "run_state (bq25180_chgdis_get Z) s = (Inr (cc_chgdis (board_cfg cfg s)), s)"
    by (simp add: bq25180_chgdis_get_def)
  assume "v = 0 \<or> v = 1"
  then show "board_cfg cfg (exec_state (bq25180_chgdis_set Z v) s) = board_cfg cfg s\<lparr>cc_chgdis := v\<rparr>"
    using r working_board_write [OF w] by (auto simp: bq25180_chgdis_set_def exec_state_def case_prod_unfold board_cfg_def charger_cfg.defs)
qed auto

interpretation sysreg_setting: stored_setting "working_board Z cfg S sf" cfg
    "bq25180_sysreg_get Z" "bq25180_sysreg_set Z" "\<lambda>v. [v]" hd 1
    "\<lambda>v. v < 8" cc_sysreg "\<lambda>v b. b\<lparr>cc_sysreg := v\<rparr>" "\<lambda>v. v < 8"
  for Z and cfg :: "'w \<Rightarrow> charger_cfg" and S sf
proof
  fix v :: "8 word" and s :: "('w, 'z) ifmcu_scheme"
  assume w: "working_board Z cfg S sf"
  note r = working_board_ready [OF w, of "world s"]
  obtain b where "i2c_reg_read_byte Z BQ25180_SYS_REG (world s) = ((0, b), world s)"
      "sysreg_field b = cc_sysreg (cfg (world s))"
    using working_board_read [OF w] by blast
  with r show "run_state (bq25180_sysreg_get Z) s = (Inr (cc_sysreg (board_cfg cfg s)), s)"
    by (simp add: bq25180_sysreg_get_def fold_fields)
  assume "v < 8"
  then have "v mod 8 = v"
    by (rule mod8_id)
  then show "board_cfg cfg (exec_state (bq25180_sysreg_set Z v) s) = board_cfg cfg s\<lparr>cc_sysreg := v\<rparr>"
    using r working_board_write [OF w] by (simp add: run_sysreg_set exec_state_def board_cfg_def charger_cfg.defs sysreg.field_prep)
qed auto

interpretation ilim_setting: stored_setting "working_board Z cfg S sf" cfg
    "bq25180_ilim_get Z" "bq25180_ilim_set Z" "\<lambda>v. [v]" hd 1
    "\<lambda>v. v < 8" cc_ilim "\<lambda>v b. b\<lparr>cc_ilim := v\<rparr>" "\<lambda>v. v < 8"
  for Z and cfg :: "'w \<Rightarrow> charger_cfg" and S sf
proof
  fix v :: "8 word" and s :: "('w, 'z) ifmcu_scheme"
  assume w: "working_board Z cfg S sf"
  note r = working_board_ready [OF w, of "world s"]
  obtain b where "i2c_reg_read_byte Z BQ25180_TMR_ILIM (world s) = ((0, b), world s)"
      "ilim_field b = cc_ilim (cfg (world s))"
    using working_board_read [OF w] by blast
  with r show "run_state (bq25180_ilim_get Z) s = (Inr (cc_ilim (board_cfg cfg s)), s)"
    by (simp add: bq25180_ilim_get_def fold_fields)
  assume "v < 8"
  then have "v mod 8 = v"
    by (rule mod8_id)
  then show "board_cfg cfg (exec_state (bq25180_ilim_set Z v) s) = board_cfg cfg s\<lparr>cc_ilim := v\<rparr>"
    using r working_board_write [OF w] by (simp add: run_ilim_set exec_state_def board_cfg_def charger_cfg.defs ilim.field_prep)
qed auto

interpretation ichg: stored_setting "working_board Z cfg S sf" cfg
    "bq25180_ichg_get Z" "bq25180_ichg_set Z" le32 of_le32 4
    "\<lambda>v. v \<le> 1000" cc_ichg_ma "\<lambda>v b. b\<lparr>cc_ichg_ma := v\<rparr>"
    "\<lambda>v. v \<le> 1000 \<and> v \<in> S CHARGER_PROP_CONSTANT_CHARGE_CURRENT_UA"
  for Z and cfg :: "'w \<Rightarrow> charger_cfg" and S sf
proof
  fix v :: "32 word" and s :: "('w, 'z) ifmcu_scheme"
  assume w: "working_board Z cfg S sf"
  note r = working_board_ready [OF w, of "world s"]
  obtain u where "charger_get_prop Z CHARGER_PROP_CONSTANT_CHARGE_CURRENT_UA (world s) = ((0, u), world s)"
      "u div 1000 = cc_ichg_ma (cfg (world s))"
    using working_board_read [OF w] by blast
  with r show "run_state (bq25180_ichg_get Z) s = (Inr (cc_ichg_ma (board_cfg cfg s)), s)"
    by (simp add: bq25180_ichg_get_def)
  assume "v \<le> 1000 \<and> v \<in> S CHARGER_PROP_CONSTANT_CHARGE_CURRENT_UA"
  then show "board_cfg cfg (exec_state (bq25180_ichg_set Z v) s) = board_cfg cfg s\<lparr>cc_ichg_ma := v\<rparr>"
    using r working_board_write [OF w] by (simp add: bq25180_ichg_set_def exec_state_def board_cfg_def charger_cfg.defs)
qed auto

interpretation vbatreg: stored_setting "working_board Z cfg S sf" cfg
    "bq25180_vbatreg_get Z" "bq25180_vbatreg_set Z" le32 of_le32 4
    "\<lambda>v. 3500 \<le> v \<and> v \<le> 4650" cc_vbatreg_mv "\<lambda>v b. b\<lparr>cc_vbatreg_mv := v\<rparr>"
    "\<lambda>v. 3500 \<le> v \<and> v \<le> 4650 \<and> v \<in> S CHARGER_PROP_CONSTANT_CHARGE_VOLTAGE_UV"
  for Z and cfg :: "'w \<Rightarrow> charger_cfg" and S sf
proof
  fix v :: "32 word" and s :: "('w, 'z) ifmcu_scheme"
  assume w: "working_board Z cfg S sf"
  note r = working_board_ready [OF w, of "world s"]
  obtain u where "charger_get_prop Z CHARGER_PROP_CONSTANT_CHARGE_VOLTAGE_UV (world s) = ((0, u), world s)"
      "u div 1000 = cc_vbatreg_mv (cfg (world s))"
    using working_board_read [OF w] by blast
  with r show "run_state (bq25180_vbatreg_get Z) s = (Inr (cc_vbatreg_mv (board_cfg cfg s)), s)"
    by (simp add: bq25180_vbatreg_get_def)
  assume "3500 \<le> v \<and> v \<le> 4650 \<and> v \<in> S CHARGER_PROP_CONSTANT_CHARGE_VOLTAGE_UV"
  then show "board_cfg cfg (exec_state (bq25180_vbatreg_set Z v) s) = board_cfg cfg s\<lparr>cc_vbatreg_mv := v\<rparr>"
    using r working_board_write [OF w] by (simp add: bq25180_vbatreg_set_def exec_state_def board_cfg_def charger_cfg.defs)
qed auto

subsection \<open>Snapshot and restore\<close>

lemma storage_names_distinct [simp]:
  "VIOSEL_STORAGE_NAME \<noteq> CHARGER_CHGDIS_STORAGE_NAME" "CHARGER_CHGDIS_STORAGE_NAME \<noteq> VIOSEL_STORAGE_NAME"
  "VIOSEL_STORAGE_NAME \<noteq> CHARGER_SYSREG_STORAGE_NAME" "CHARGER_SYSREG_STORAGE_NAME \<noteq> VIOSEL_STORAGE_NAME"
  "VIOSEL_STORAGE_NAME \<noteq> CHARGER_ICHG_STORAGE_NAME" "CHARGER_ICHG_STORAGE_NAME \<noteq> VIOSEL_STORAGE_NAME"
  "VIOSEL_STORAGE_NAME \<noteq> CHARGER_VBATREG_STORAGE_NAME" "CHARGER_VBATREG_STORAGE_NAME \<noteq> VIOSEL_STORAGE_NAME"
  "VIOSEL_STORAGE_NAME \<noteq> CHARGER_ILIM_STORAGE_NAME" "CHARGER_ILIM_STORAGE_NAME \<noteq> VIOSEL_STORAGE_NAME"
  "CHARGER_CHGDIS_STORAGE_NAME \<noteq> CHARGER_SYSREG_STORAGE_NAME" "CHARGER_SYSREG_STORAGE_NAME \<noteq> CHARGER_CHGDIS_STORAGE_NAME"
  "CHARGER_CHGDIS_STORAGE_NAME \<noteq> CHARGER_ICHG_STORAGE_NAME" "CHARGER_ICHG_STORAGE_NAME \<noteq> CHARGER_CHGDIS_STORAGE_NAME"
  "CHARGER_CHGDIS_STORAGE_NAME \<noteq> CHARGER_VBATREG_STORAGE_NAME" "CHARGER_VBATREG_STORAGE_NAME \<noteq> CHARGER_CHGDIS_STORAGE_NAME"
  "CHARGER_CHGDIS_STORAGE_NAME \<noteq> CHARGER_ILIM_STORAGE_NAME" "CHARGER_ILIM_STORAGE_NAME \<noteq> CHARGER_CHGDIS_STORAGE_NAME"
  "CHARGER_SYSREG_STORAGE_NAME \<noteq> CHARGER_ICHG_STORAGE_NAME" "CHARGER_ICHG_STORAGE_NAME \<noteq> CHARGER_SYSREG_STORAGE_NAME"
  "CHARGER_SYSREG_STORAGE_NAME \<noteq> CHARGER_VBATREG_STORAGE_NAME" "CHARGER_VBATREG_STORAGE_NAME \<noteq> CHARGER_SYSREG_STORAGE_NAME"
  "CHARGER_SYSREG_STORAGE_NAME \<noteq> CHARGER_ILIM_STORAGE_NAME" "CHARGER_ILIM_STORAGE_NAME \<noteq> CHARGER_SYSREG_STORAGE_NAME"
  "CHARGER_ICHG_STORAGE_NAME \<noteq> CHARGER_VBATREG_STORAGE_NAME" "CHARGER_VBATREG_STORAGE_NAME \<noteq> CHARGER_ICHG_STORAGE_NAME"
  "CHARGER_ICHG_STORAGE_NAME \<noteq> CHARGER_ILIM_STORAGE_NAME" "CHARGER_ILIM_STORAGE_NAME \<noteq> CHARGER_ICHG_STORAGE_NAME"
  "CHARGER_VBATREG_STORAGE_NAME \<noteq> CHARGER_ILIM_STORAGE_NAME" "CHARGER_ILIM_STORAGE_NAME \<noteq> CHARGER_VBATREG_STORAGE_NAME"
  by (simp_all add: storage_names)

lemma cfg_key_eq [simp]: "cfg_key j = cfg_key k \<longleftrightarrow> j = k"
  by (simp add: cfg_key_def)

text \<open>What \<open>cfgsync\<close> stores under each key, and the configurations that can be restored.\<close>

definition cfg_bytes :: "board_cfg \<Rightarrow> string \<Rightarrow> 8 word list option" where
  "cfg_bytes b = [VIOSEL_STORAGE_NAME \<mapsto> int_bytes (bc_viosel b), CHARGER_CHGDIS_STORAGE_NAME \<mapsto> [cc_chgdis b],
     CHARGER_SYSREG_STORAGE_NAME \<mapsto> [cc_sysreg b], CHARGER_ICHG_STORAGE_NAME \<mapsto> le32 (cc_ichg_ma b),
     CHARGER_VBATREG_STORAGE_NAME \<mapsto> le32 (cc_vbatreg_mv b), CHARGER_ILIM_STORAGE_NAME \<mapsto> [cc_ilim b]]"

definition restorable :: "(charger_prop \<Rightarrow> 32 word set) \<Rightarrow> board_cfg \<Rightarrow> bool" where
  "restorable S b \<longleftrightarrow> bc_viosel b \<in> VIO_VALUES \<and> (cc_chgdis b = 0 \<or> cc_chgdis b = 1) \<and>
     cc_sysreg b < 8 \<and> cc_ilim b < 8 \<and>
     (cc_ichg_ma b \<le> 1000 \<and> cc_ichg_ma b \<in> S CHARGER_PROP_CONSTANT_CHARGE_CURRENT_UA) \<and>
     (3500 \<le> cc_vbatreg_mv b \<and> cc_vbatreg_mv b \<le> 4650 \<and>
      cc_vbatreg_mv b \<in> S CHARGER_PROP_CONSTANT_CHARGE_VOLTAGE_UV)"

text \<open>Taking over one setting of another configuration.\<close>

definition put_key :: "board_cfg \<Rightarrow> string \<Rightarrow> board_cfg \<Rightarrow> board_cfg" where
  "put_key c k b =
     (if k = VIOSEL_STORAGE_NAME then b\<lparr>bc_viosel := bc_viosel c\<rparr>
      else if k = CHARGER_CHGDIS_STORAGE_NAME then b\<lparr>cc_chgdis := cc_chgdis c\<rparr>
      else if k = CHARGER_SYSREG_STORAGE_NAME then b\<lparr>cc_sysreg := cc_sysreg c\<rparr>
      else if k = CHARGER_ICHG_STORAGE_NAME then b\<lparr>cc_ichg_ma := cc_ichg_ma c\<rparr>
      else if k = CHARGER_VBATREG_STORAGE_NAME then b\<lparr>cc_vbatreg_mv := cc_vbatreg_mv c\<rparr>
      else if k = CHARGER_ILIM_STORAGE_NAME then b\<lparr>cc_ilim := cc_ilim c\<rparr>
      else b)"

text \<open>The read callback over a record, as \<open>settings_load\<close> hands it to the handler.\<close>

definition record_cb :: "8 word list \<Rightarrow> 'w settings_read_cb" where
  "record_cb v = (\<lambda>n w. ((int (min n (length v)), take n v), w))"

lemma record_cb_all: "length v = n \<Longrightarrow> record_cb v n w = ((int n, v), w)"
  by (simp add: record_cb_def)

lemma settings_set_record:
  assumes wb: "working_board Z cfg S sf" and ok: "restorable S c" and v: "cfg_bytes c k = Some v"
  shows "board_cfg cfg (exec_state (settings_set Z k (length v) (record_cb v)) s) = put_key c k (board_cfg cfg s)"
proof -
  note rec = record_cb_all [of _ _ "world s"]
  have k: "k \<in> {VIOSEL_STORAGE_NAME, CHARGER_CHGDIS_STORAGE_NAME, CHARGER_SYSREG_STORAGE_NAME, CHARGER_ICHG_STORAGE_NAME, CHARGER_VBATREG_STORAGE_NAME, CHARGER_ILIM_STORAGE_NAME}"
    using v by (auto simp: cfg_bytes_def split: if_splits)
  then consider "k = VIOSEL_STORAGE_NAME" | "k = CHARGER_CHGDIS_STORAGE_NAME" | "k = CHARGER_SYSREG_STORAGE_NAME" | "k = CHARGER_ICHG_STORAGE_NAME"
    | "k = CHARGER_VBATREG_STORAGE_NAME" | "k = CHARGER_ILIM_STORAGE_NAME" by auto
  then show ?thesis
  proof cases
    case 1
    with v have [simp]: "v = int_bytes (bc_viosel c)" by (simp add: cfg_bytes_def)
    show ?thesis
      using viosel.load_record [OF wb, of "bc_viosel c" "record_cb v" s] ok 1
      by (simp add: settings_set_def put_key_def restorable_def rec)
  next
    case 2
    with v have [simp]: "v = [cc_chgdis c]" by (simp add: cfg_bytes_def)
    show ?thesis
      using chgdis.load_record [OF wb, of "cc_chgdis c" "record_cb v" s] ok 2
      by (simp add: settings_set_def put_key_def restorable_def rec)
  next
    case 3
    with v have [simp]: "v = [cc_sysreg c]" by (simp add: cfg_bytes_def)
    show ?thesis
      using sysreg_setting.load_record [OF wb, of "cc_sysreg c" "record_cb v" s] ok 3
      by (simp add: settings_set_def put_key_def restorable_def rec)
  next
    case 4
    with v have [simp]: "v = le32 (cc_ichg_ma c)" by (simp add: cfg_bytes_def)
    show ?thesis
      using ichg.load_record [OF wb, of "cc_ichg_ma c" "record_cb v" s] ok 4
      by (simp add: settings_set_def put_key_def restorable_def rec)
  next
    case 5
    with v have [simp]: "v = le32 (cc_vbatreg_mv c)" by (simp add: cfg_bytes_def)
    show ?thesis
      using vbatreg.load_record [OF wb, of "cc_vbatreg_mv c" "record_cb v" s] ok 5
      by (simp add: settings_set_def put_key_def restorable_def rec)
  next
    case 6
    with v have [simp]: "v = [cc_ilim c]" by (simp add: cfg_bytes_def)
    show ?thesis
      using ilim_setting.load_record [OF wb, of "cc_ilim c" "record_cb v" s] ok 6
      by (simp add: settings_set_def put_key_def restorable_def rec)
  qed
qed

text \<open>A record under any other key is ignored.\<close>

lemma cfg_bytes_None: "cfg_bytes c k = None \<longleftrightarrow> k \<notin> {VIOSEL_STORAGE_NAME, CHARGER_CHGDIS_STORAGE_NAME,
    CHARGER_SYSREG_STORAGE_NAME, CHARGER_ICHG_STORAGE_NAME, CHARGER_VBATREG_STORAGE_NAME,
    CHARGER_ILIM_STORAGE_NAME}"
  by (auto simp: cfg_bytes_def)

lemma settings_set_other:
  "cfg_bytes c k = None \<Longrightarrow> run_state (settings_set Z k n cb) s = (0, s)"
  by (simp add: cfg_bytes_None settings_set_def)

text \<open>
  \<open>settings_load\<close> calls the handler once for every stored record below the handler's name, in
  some order.
\<close>

primrec replay :: "('w, 'z) settings_handler \<Rightarrow> (string \<times> 8 word list) list \<Rightarrow>
    ('w, 'z, int) ifmcu_prog" where
  "replay h [] = return 0"
| "replay h (kv # kvs) = do {
     _ \<leftarrow> h (fst kv) (length (snd kv)) (record_cb (snd kv));
     replay h kvs
   }"

definition loads_records :: "(('w, 'z) settings_handler \<Rightarrow> ('w, 'z, int) ifmcu_prog) \<Rightarrow>
    ('w \<Rightarrow> string \<Rightarrow> 8 word list option) \<Rightarrow> bool" where
  "loads_records load sf \<longleftrightarrow> (\<forall>h s. \<exists>kvs.
     (\<forall>k v. (k, v) \<in> set kvs \<longleftrightarrow> sf (world s) (cfg_key k) = Some v) \<and>
     exec_state (load h) s = exec_state (replay h kvs) s)"

lemmas step_simps [simp] = exec_bind exec_return

lemma put_key_None: "cfg_bytes c k = None \<Longrightarrow> put_key c k b = b"
  by (simp add: cfg_bytes_None put_key_def)

lemma replay_snapshot:
  assumes "working_board Z cfg S sf" "restorable S c"
    and "\<And>k v u. (k, v) \<in> set kvs \<Longrightarrow> cfg_bytes c k = Some u \<Longrightarrow> v = u"
  shows "board_cfg cfg (exec_state (replay (settings_set Z) kvs) s)
    = fold (put_key c) (map fst kvs) (board_cfg cfg s)"
  using assms(3)
proof (induction kvs arbitrary: s)
  case (Cons kv kvs)
  obtain k v where kv: "kv = (k, v)" by fastforce
  have "board_cfg cfg (exec_state (settings_set Z k (length v) (record_cb v)) s) = put_key c k (board_cfg cfg s)"
  proof (cases "cfg_bytes c k")
    case None
    then show ?thesis by (simp add: exec_state_def settings_set_other put_key_None)
  next
    case (Some u)
    then have "u = v" using Cons.prems kv by force
    with Some show ?thesis using settings_set_record assms(1,2) by blast
  qed
  moreover have "(j, w) \<in> set kvs \<Longrightarrow> cfg_bytes c j = Some u \<Longrightarrow> w = u" for j w u
    using Cons.prems [of j w u] by simp
  note Cons.IH [OF this, of _ "exec_state (settings_set Z k (length v) (record_cb v)) s"]
  ultimately show ?case by (simp add: kv)
qed simp

lemma fold_put_key_field:
  "VIOSEL_STORAGE_NAME \<in> set ks \<Longrightarrow> bc_viosel (fold (put_key c) ks b) = bc_viosel c"
  "CHARGER_CHGDIS_STORAGE_NAME \<in> set ks \<Longrightarrow> cc_chgdis (fold (put_key c) ks b) = cc_chgdis c"
  "CHARGER_SYSREG_STORAGE_NAME \<in> set ks \<Longrightarrow> cc_sysreg (fold (put_key c) ks b) = cc_sysreg c"
  "CHARGER_ICHG_STORAGE_NAME \<in> set ks \<Longrightarrow> cc_ichg_ma (fold (put_key c) ks b) = cc_ichg_ma c"
  "CHARGER_VBATREG_STORAGE_NAME \<in> set ks \<Longrightarrow> cc_vbatreg_mv (fold (put_key c) ks b) = cc_vbatreg_mv c"
  "CHARGER_ILIM_STORAGE_NAME \<in> set ks \<Longrightarrow> cc_ilim (fold (put_key c) ks b) = cc_ilim c"
  by (induction ks rule: rev_induct) (auto simp: put_key_def)

lemma store_setting_step:
  assumes "working_board Z cfg S sf" "run_state getter t = (Inr (f (board_cfg cfg t)), t)"
    "board_cfg cfg t = b \<and> sf (world t) = M"
  shows "board_cfg cfg (exec_state (store_setting Z m k enc getter) t) = b \<and>
    sf (world (exec_state (store_setting Z m k enc getter) t)) = M(k \<mapsto> enc (f b))"
  using assms(2,3) working_board_settings [OF assms(1)]
  by (simp add: store_setting_def exec_state_def case_prod_unfold board_cfg_def)

lemma cfgsync_snapshot:
  assumes wb: "working_board Z cfg S sf"
  shows "board_cfg cfg (exec_state (cmd_cfgsync Z argv) s) = board_cfg cfg s \<and>
    (\<forall>k v. cfg_bytes (board_cfg cfg s) k = Some v \<longrightarrow>
       sf (world (exec_state (cmd_cfgsync Z argv) s)) (cfg_key k) = Some v)"
proof -
  let ?b = "board_cfg cfg s" and ?M = "sf (world s)"
  note step = store_setting_step [OF wb]
  have "board_cfg cfg s = ?b \<and> sf (world s) = ?M" by simp
  note step [where f = bc_viosel, OF viosel.get_law [OF wb] this, of "[]" "cfg_key VIOSEL_STORAGE_NAME" int_bytes]
  note step [where f = cc_chgdis, OF chgdis.get_law [OF wb] this, of "''Fail to get CHGDIS: (err = %d)''"
    "cfg_key CHARGER_CHGDIS_STORAGE_NAME" "\<lambda>v. [v]"]
  note step [where f = cc_sysreg, OF sysreg_setting.get_law [OF wb] this, of "''Fail to get SYSREG: (err = %d)''"
    "cfg_key CHARGER_SYSREG_STORAGE_NAME" "\<lambda>v. [v]"]
  note step [where f = cc_ichg_ma, OF ichg.get_law [OF wb] this, of "''Fail to get ICHG: (err = %d)''"
    "cfg_key CHARGER_ICHG_STORAGE_NAME" le32]
  note step [where f = cc_vbatreg_mv, OF vbatreg.get_law [OF wb] this, of "''Fail to get VBATREG: (err = %d)''"
    "cfg_key CHARGER_VBATREG_STORAGE_NAME" le32]
  note step [where f = cc_ilim, OF ilim_setting.get_law [OF wb] this, of "''Fail to get ILIM: (err = %d)''"
    "cfg_key CHARGER_ILIM_STORAGE_NAME" "\<lambda>v. [v]"]
  then show ?thesis
    unfolding cmd_cfgsync_def exec_bind exec_return by (simp add: cfg_bytes_def)
qed

lemma cfg_bytes_names:
  "cfg_bytes b VIOSEL_STORAGE_NAME = Some (int_bytes (bc_viosel b))"
  "cfg_bytes b CHARGER_CHGDIS_STORAGE_NAME = Some [cc_chgdis b]"
  "cfg_bytes b CHARGER_SYSREG_STORAGE_NAME = Some [cc_sysreg b]"
  "cfg_bytes b CHARGER_ICHG_STORAGE_NAME = Some (le32 (cc_ichg_ma b))"
  "cfg_bytes b CHARGER_VBATREG_STORAGE_NAME = Some (le32 (cc_vbatreg_mv b))"
  "cfg_bytes b CHARGER_ILIM_STORAGE_NAME = Some [cc_ilim b]"
  by (simp_all add: cfg_bytes_def)

text \<open>
  C3: \<open>cfgsync\<close> and the restore at the next start are inverse: on a board whose peripherals
  work, whatever configuration \<open>cfgsync\<close> stored is the configuration after \<open>settings_init\<close>,
  from any configuration the board came up in, in whatever order the records are loaded.
\<close>

theorem cfgsync_restore:
  fixes s' :: "('w, 'z) ifmcu_scheme"
  assumes "working_board Z cfg S sf" "loads_records load sf" "restorable S (board_cfg cfg s)"
    and "sf (world s') = sf (world (exec_state (cmd_cfgsync Z argv) s))"
  shows "board_cfg cfg (exec_state (settings_init Z load) s') = board_cfg cfg s"
proof -
  let ?b = "board_cfg cfg s"
  define s1 where "s1 = s'\<lparr>world := snd (settings_register Z SETTINGS_KEY
    (snd (settings_subsys_init Z (world s'))))\<rparr>"
  note set = working_board_settings [OF assms(1)]
  have sf1: "sf (world s1) = sf (world s')"
    by (simp add: s1_def set)
  have init: "exec_state (settings_init Z load) s' = exec_state (load (settings_set Z)) s1"
    by (simp add: settings_init_def exec_state_def s1_def set case_prod_unfold)
  obtain kvs where kvs: "\<And>k v. (k, v) \<in> set kvs \<longleftrightarrow> sf (world s1) (cfg_key k) = Some v"
      "exec_state (load (settings_set Z)) s1 = exec_state (replay (settings_set Z) kvs) s1"
    using assms(2) unfolding loads_records_def by metis
  have stored: "cfg_bytes ?b k = Some v \<Longrightarrow> (k, v) \<in> set kvs" for k v
    using cfgsync_snapshot [OF assms(1), of argv s] kvs(1) by (simp add: sf1 assms(4))
  have "v = u" if "(k, v) \<in> set kvs" "cfg_bytes ?b k = Some u" for k v u
    using that kvs(1) stored by (metis option.inject)
  from replay_snapshot [OF assms(1,3) this]
  have res: "board_cfg cfg (exec_state (settings_init Z load) s')
      = fold (put_key ?b) (map fst kvs) (board_cfg cfg s1)"
    by (simp add: init kvs(2))
  have "k \<in> set (map fst kvs)" if "cfg_bytes ?b k = Some v" for k v
    using stored [OF that] by force
  note mem = this [OF cfg_bytes_names(1)] this [OF cfg_bytes_names(2)] this [OF cfg_bytes_names(3)]
    this [OF cfg_bytes_names(4)] this [OF cfg_bytes_names(5)] this [OF cfg_bytes_names(6)]
  show ?thesis
    unfolding res
    by (rule board_cfg.equality)
      (simp_all only: fold_put_key_field(1) [OF mem(1)] fold_put_key_field(2) [OF mem(2)]
        fold_put_key_field(3) [OF mem(3)] fold_put_key_field(4) [OF mem(4)]
        fold_put_key_field(5) [OF mem(5)] fold_put_key_field(6) [OF mem(6)], simp)
qed

text \<open>The bench as a working board: its charger is always ready and sets any value exactly.\<close>

definition ready_zephyr :: "bench zephyr" where
  "ready_zephyr = bench_zephyr\<lparr>charger_is_ready := \<lambda>_. True\<rparr>"

definition bench_cfg :: "bench \<Rightarrow> charger_cfg" where
  "bench_cfg w = \<lparr>cc_chgdis = (if ucast (bench_regs w BQ25180_ICHG_CTRL) AND BQ25180_ICHG_CHG_DIS \<noteq> 0 then 1 else 0),
     cc_sysreg = sysreg_field (bench_regs w BQ25180_SYS_REG),
     cc_ichg_ma = bench_props w CHARGER_PROP_CONSTANT_CHARGE_CURRENT_UA div 1000,
     cc_vbatreg_mv = bench_props w CHARGER_PROP_CONSTANT_CHARGE_VOLTAGE_UV div 1000,
     cc_ilim = ilim_field (bench_regs w BQ25180_TMR_ILIM)\<rparr>"

definition bench_load :: "((bench, 'z) settings_handler \<Rightarrow> (bench, 'z, int) ifmcu_prog)" where
  "bench_load h = do {
     store \<leftarrow> gets (\<lambda>s. bench_store (world s));
     replay h (map (\<lambda>k. (drop 4 k, the (map_of store k)))
       (filter (\<lambda>k. take 4 k = ''cfg/'') (map fst store)))
   }"

lemma milli_word: "(m :: 32 word) \<le> 4650 \<Longrightarrow> m * 1000 div 1000 = m"
proof -
  assume "m \<le> 4650"
  then have "unat m \<le> 4650" by (simp add: word_le_nat_alt)
  then have "unat (m * 1000) = unat m * 1000" by (simp add: unat_mult_lem [THEN iffD1])
  then show ?thesis by (simp add: word_unat_eq_iff unat_div)
qed

lemma chgdis_bit: "ucast (0 :: 8 word) AND BQ25180_ICHG_CHG_DIS = 0"
  "(128 :: 32 word) AND BQ25180_ICHG_CHG_DIS \<noteq> 0"
  by (simp_all add: BQ25180_ICHG_CHG_DIS_def BIT_def push_bit_eq_mult)

lemma bench_save_map_of: "map_of (bench_store (bench_save k v w)) = (map_of (bench_store w))(k \<mapsto> v)"
proof
  fix j
  have "map_of (filter (\<lambda>kv. fst kv \<noteq> k) xs) j = (if j = k then None else map_of xs j)"
    for xs :: "(string \<times> 8 word list) list"
    by (induction xs) auto
  then show "map_of (bench_store (bench_save k v w)) j = ((map_of (bench_store w))(k \<mapsto> v)) j"
    by (simp add: bench_save_def)
qed

lemma bench_working: "working_board ready_zephyr bench_cfg (\<lambda>_. {0..4650}) (\<lambda>w. map_of (bench_store w))"
proof -
  have "sysreg_field (masked_update 224 v r) = sysreg_field v"
       "ilim_field (masked_update 7 v r) = ilim_field v" for v r
    using sysreg.field_depends [of "masked_update 224 v r"] sysreg.field_depends [of v]
      ilim.field_depends [of "masked_update 7 v r"] ilim.field_depends [of v]
      sysreg.masked_disjoint(1) [of r 224 v] sysreg.masked_disjoint(1) [of r 7 v]
    by (simp_all add: masked_update_def)
  then show ?thesis
    by (simp add: working_board_def ready_zephyr_def bench_zephyr_def bench_cfg_def bench_ev_def
        bench_save_map_of chgdis_bit milli_word BQ25180_ICHG_CTRL_def BQ25180_SYS_REG_def
        BQ25180_TMR_ILIM_def masked_update_def)
      (simp add: bench_save_def)
qed

lemma cfg_key_prefix: "take 4 k = ''cfg/'' \<and> drop 4 k = j \<longleftrightarrow> k = cfg_key j"
proof
  assume "take 4 k = ''cfg/'' \<and> drop 4 k = j"
  then show "k = cfg_key j"
    using append_take_drop_id [of 4 k] by (simp add: cfg_key_def SETTINGS_KEY_def)
qed (simp add: cfg_key_def SETTINGS_KEY_def)

lemma bench_loads: "loads_records bench_load (\<lambda>w. map_of (bench_store w))"
  unfolding loads_records_def
proof (intro allI)
  fix h :: "(bench, 'z) settings_handler" and s :: "(bench, 'z) ifmcu_scheme"
  let ?st = "bench_store (world s)"
  let ?kvs = "map (\<lambda>k. (drop 4 k, the (map_of ?st k))) (filter (\<lambda>k. take 4 k = ''cfg/'') (map fst ?st))"
  have "(k, v) \<in> set ?kvs \<longleftrightarrow> map_of ?st (cfg_key k) = Some v" for k v
  proof -
    have "(k, v) \<in> set ?kvs \<longleftrightarrow> (\<exists>j\<in>fst ` set ?st. take 4 j = ''cfg/'' \<and> drop 4 j = k \<and> the (map_of ?st j) = v)"
      by auto
    also have "\<dots> \<longleftrightarrow> cfg_key k \<in> dom (map_of ?st) \<and> the (map_of ?st (cfg_key k)) = v"
      unfolding dom_map_of_conv_image_fst using cfg_key_prefix [of _ k] by metis
    also have "\<dots> \<longleftrightarrow> map_of ?st (cfg_key k) = Some v"
      by auto
    finally show ?thesis .
  qed
  moreover have "exec_state (bench_load h) s = exec_state (replay h ?kvs) s"
    by (simp add: bench_load_def exec_state_def)
  ultimately show "\<exists>kvs. (\<forall>k v. (k, v) \<in> set kvs \<longleftrightarrow> map_of ?st (cfg_key k) = Some v) \<and>
      exec_state (bench_load h) s = exec_state (replay h kvs) s"
    by blast
qed

definition bench_shell :: "bench ifmcu_shell" where
  "bench_shell = \<lparr>world = bench0\<lparr>bench_props := (\<lambda>_. 4200000)(CHARGER_PROP_CONSTANT_CHARGE_CURRENT_UA := 300000)\<rparr>,
     leds = leds_init, viosel = 1, scb_scr = 0, gpregret = 0, run_mode = Running, shell_out = []\<rparr>"

text \<open>A board with VIO at 1.8 V, 300 mA and 4200 mV, stored; then a fresh board with that storage.\<close>

definition bench_fresh :: "bench ifmcu" where
  "bench_fresh = ifmcu_init (bench0\<lparr>bench_store :=
     bench_store (world (exec_state (cmd_cfgsync ready_zephyr []) bench_shell))\<rparr>) 0"

lemma cfgsync_restore_witness:
  "board_cfg bench_cfg (exec_state (settings_init ready_zephyr bench_load) bench_fresh)
    = board_cfg bench_cfg bench_shell \<and> viosel bench_fresh = -1 \<and> viosel bench_shell = 1"
proof -
  have w: "viosel bench_shell = 1" "bench_cfg (world bench_shell) =
      \<lparr>cc_chgdis = 0, cc_sysreg = 0, cc_ichg_ma = 300, cc_vbatreg_mv = 4200, cc_ilim = 0\<rparr>"
    by (simp_all add: bench_shell_def bench_cfg_def bench0_def sysreg_field_def ilim_field_def FIELD_GET_def)
  have ok: "restorable (\<lambda>_. {0..4650}) (board_cfg bench_cfg bench_shell)"
    by (simp add: restorable_def w VIO_VALUES_def)
  have "map_of (bench_store (world bench_fresh))
      = map_of (bench_store (world (exec_state (cmd_cfgsync ready_zephyr []) bench_shell)))"
    by (simp add: bench_fresh_def ifmcu_init_def)
  from cfgsync_restore [OF bench_working bench_loads ok this] show ?thesis
    by (simp add: w bench_fresh_def ifmcu_init_def)
qed

subsection \<open>Corrupt records\<close>

text \<open>
  What the settings handler may ask of the devices: to read, to enable or disable charging, to set
  a charge current of at most 1000 mA, a charge voltage between 3500 and 4650 mV, one of the eight
  values of the two register fields, and to drive the VIO selection pin. \<open>P\<close> is any condition that
  every such request keeps, whether the device carries it out, rounds it or fails.
\<close>

definition kept_in_range :: "'w zephyr \<Rightarrow> ('w \<Rightarrow> bool) \<Rightarrow> bool" where
  "kept_in_range Z P \<longleftrightarrow> (\<forall>w. P w \<longrightarrow>
     (\<forall>r. P (snd (i2c_reg_read_byte Z r w))) \<and> (\<forall>p. P (snd (charger_get_prop Z p w))) \<and>
     (\<forall>e. P (snd (charger_charge_enable Z e w))) \<and>
     (\<forall>m \<le> 1000. P (snd (charger_set_prop Z CHARGER_PROP_CONSTANT_CHARGE_CURRENT_UA (m * 1000) w))) \<and>
     (\<forall>m \<in> {3500..4650}. P (snd (charger_set_prop Z CHARGER_PROP_CONSTANT_CHARGE_VOLTAGE_UV (m * 1000) w))) \<and>
     (\<forall>v < 8. P (snd (i2c_reg_update_byte Z BQ25180_SYS_REG 0xE0 (v * 32) w)) \<and>
        P (snd (i2c_reg_update_byte Z BQ25180_TMR_ILIM 7 v w))) \<and>
     (\<forall>f \<in> {GPIO_OUTPUT_ACTIVE, GPIO_OUTPUT_INACTIVE}. P (snd (gpio_pin_configure Z Viosel_Gpio f w))))"

lemma kept_in_rangeD:
  assumes "kept_in_range Z P" "P w"
  shows "P (snd (i2c_reg_read_byte Z r w))" "P (snd (charger_get_prop Z p w))"
    "P (snd (charger_charge_enable Z e w))"
    "m \<le> 1000 \<Longrightarrow> P (snd (charger_set_prop Z CHARGER_PROP_CONSTANT_CHARGE_CURRENT_UA (m * 1000) w))"
    "3500 \<le> m \<Longrightarrow> m \<le> 4650 \<Longrightarrow> P (snd (charger_set_prop Z CHARGER_PROP_CONSTANT_CHARGE_VOLTAGE_UV (m * 1000) w))"
    "v < 8 \<Longrightarrow> P (snd (i2c_reg_update_byte Z BQ25180_SYS_REG 0xE0 (v * 32) w))"
    "v < 8 \<Longrightarrow> P (snd (i2c_reg_update_byte Z BQ25180_TMR_ILIM 7 v w))"
    "P (snd (gpio_pin_configure Z Viosel_Gpio GPIO_OUTPUT_ACTIVE w))"
    "P (snd (gpio_pin_configure Z Viosel_Gpio GPIO_OUTPUT_INACTIVE w))"
  using assms(1) [unfolded kept_in_range_def, rule_format, OF assms(2)] by simp_all

text \<open>The condition and the pin, as one predicate of the state.\<close>

definition in_range_state :: "('w \<Rightarrow> bool) \<Rightarrow> ('w, 'z) ifmcu_scheme \<Rightarrow> bool" where
  "in_range_state P s \<longleftrightarrow> P (world s) \<and> viosel s \<in> VIO_VALUES"

lemma load_setting_keeps:
  assumes "\<And>s. I s \<Longrightarrow> I (exec_state getter s)" "\<And>s v. I s \<Longrightarrow> in_range v \<Longrightarrow> I (exec_state (setter v) s)"
    and "\<And>s m. I s \<Longrightarrow> I (s\<lparr>world := snd (cb m (world s))\<rparr>)" and "I s"
  shows "I (exec_state (load_setting sz dec in_range getter setter n cb) s)"
proof -
  have t: "I (s\<lparr>world := snd (cb sz (world s))\<rparr>)" by (rule assms(3) [OF assms(4)])
  note g = assms(1) [OF t]
  show ?thesis
    using assms(4) t g assms(2) [OF g]
    by (auto simp: load_setting_def exec_bind exec_return case_prod_unfold exec_state_def result_def run_defs split: sum.split)
qed

lemma field_requests:
  "v < 8 \<Longrightarrow> sysreg_prep v = v * 32" "v < 8 \<Longrightarrow> ilim_prep v = v"
proof -
  have "v \<in> {0, 1, 2, 3, 4, 5, 6, 7}" if "v < 8"
  proof -
    have "unat v < 8" using that by (simp add: word_less_nat_alt)
    then have "unat v \<in> {0, 1, 2, 3, 4, 5, 6, 7}" by auto
    then show ?thesis by (auto simp: word_unat_eq_iff)
  qed
  then show "v < 8 \<Longrightarrow> sysreg_prep v = v * 32" "v < 8 \<Longrightarrow> ilim_prep v = v"
    by (auto simp: field_defs)
qed

lemma settings_set_in_range:
  fixes s :: "('w, 'z) ifmcu_scheme"
  assumes Z: "kept_in_range Z P" and cb: "\<And>m w. P w \<Longrightarrow> P (snd (cb m w))" and inv: "in_range_state P s"
  shows "in_range_state P (exec_state (settings_set Z k n cb) s)"
proof -
  note k = kept_in_rangeD [OF Z]
  have cb': "in_range_state P (t\<lparr>world := snd (cb m (world t))\<rparr>)" if "in_range_state P t"
    for t :: "('w, 'z) ifmcu_scheme" and m
    using that cb by (simp add: in_range_state_def)
  note keep = load_setting_keeps [where I = "in_range_state P", OF _ _ cb' inv]
  show ?thesis
    unfolding settings_set_def
    by (auto intro!: keep simp: exec_return inv)
      (auto simp: in_range_state_def exec_state_def viosel_get_def viosel_set_def VIO_VALUES_def case_prod_unfold
        bq25180_chgdis_get_def bq25180_chgdis_set_def bq25180_sysreg_get_def run_sysreg_set bq25180_ichg_get_def
        bq25180_ichg_set_def bq25180_vbatreg_get_def bq25180_vbatreg_set_def bq25180_ilim_get_def run_ilim_set
        field_requests k)
qed

text \<open>
  C29: Corrupt storage is harmless: whatever records are handed to the settings handler, with any
  key, length and contents, even when reading them or a device fails, the only requests the devices
  get are those within the documented ranges (no more than 1000 mA, 3500 to 4650 mV, the eight
  values of a register field), so that whatever such requests keep is kept, and the VIO selection
  stays one of its three values. Nothing is assumed of how exactly the charger carries them out.
\<close>

theorem corrupt_records_harmless:
  assumes "kept_in_range Z P" "P (world s)" "viosel s \<in> VIO_VALUES"
    and "\<forall>(k, n, cb) \<in> set recs. \<forall>m w. P w \<longrightarrow> P (snd (cb m w))"
  defines "s' \<equiv> foldl (\<lambda>s (k, n, cb). exec_state (settings_set Z k n cb) s) s recs"
  shows "P (world s') \<and> viosel s' \<in> VIO_VALUES"
proof -
  have "in_range_state P s \<Longrightarrow> in_range_state P s'"
    unfolding s'_def using assms(4)
  proof (induction recs arbitrary: s)
    case (Cons r recs)
    obtain k n cb where r: "r = (k, n, cb)" by (cases r)
    have "in_range_state P (exec_state (settings_set Z k n cb) s)"
      using Cons.prems by (intro settings_set_in_range [OF assms(1)]) (auto simp: r)
    with Cons.IH [OF this] Cons.prems show ?case by (simp add: r)
  qed simp
  then show ?thesis using assms(2,3) by (simp add: in_range_state_def)
qed

text \<open>The bench's charger: its current and voltage stay in their ranges.\<close>

definition props_in_range :: "bench \<Rightarrow> bool" where
  "props_in_range w \<longleftrightarrow> bench_props w CHARGER_PROP_CONSTANT_CHARGE_CURRENT_UA \<le> 1000000 \<and>
     bench_props w CHARGER_PROP_CONSTANT_CHARGE_VOLTAGE_UV \<in> {3500000..4650000}"

lemma milli_range:
  "(m :: 32 word) \<le> 1000 \<Longrightarrow> m * 1000 \<le> 1000000"
  "3500 \<le> (m :: 32 word) \<Longrightarrow> m \<le> 4650 \<Longrightarrow> 3500000 \<le> m * 1000 \<and> m * 1000 \<le> 4650000"
proof -
  have u: "unat (m * 1000) = unat m * 1000" if "m \<le> 4650" for m :: "32 word"
    using that by (simp add: word_le_nat_alt unat_mult_lem [THEN iffD1])
  show "m * 1000 \<le> 1000000" if "m \<le> 1000"
    using that u [of m] order_trans [OF that, of 4650] by (simp add: word_le_nat_alt)
  show "3500000 \<le> m * 1000 \<and> m * 1000 \<le> 4650000" if "3500 \<le> m" "m \<le> 4650"
    using that u [of m] by (simp add: word_le_nat_alt)
qed

lemma bench_in_range: "kept_in_range bench_zephyr props_in_range"
  by (auto simp: kept_in_range_def props_in_range_def bench_zephyr_def bench_ev_def milli_range)

lemma corrupt_records_harmless_witness:
  "props_in_range (world (foldl (\<lambda>s (k, n, cb). exec_state (settings_set bench_zephyr k n cb) s)
     bench_shell [(''ichg'', 4, record_cb [255, 255, 255, 255]), (''sysreg'', 1, record_cb [9]),
       (''vbatreg'', 4, record_cb (le32 5000)), (''viosel'', 4, record_cb [7, 0, 0, 0])]))"
proof -
  have "props_in_range (world bench_shell)" "viosel bench_shell \<in> VIO_VALUES"
    by (simp_all add: props_in_range_def bench_shell_def VIO_VALUES_def)
  then show ?thesis
    by (intro corrupt_records_harmless [OF bench_in_range, THEN conjunct1]) (simp_all add: record_cb_def)
qed

end
