(* ===== verification/Ifmcu_Shell.thy ===== *)
theory Ifmcu_Shell
  imports Ifmcu_Settings
begin

section \<open>Shell commands of the Interface MCU (\<open>ifmcu_shell.c\<close>)\<close>

text \<open>
  The commands registered with Zephyr's shell. A command gets its words \<open>argv\<close> (the command's own
  name first), appends what it prints to \<open>shell_out\<close> and returns its error code. The build strings
  of \<open>version\<close> are parameters.
\<close>

subsection \<open>Charger commands\<close>

definition sysreg_descr :: "string list" where
  "sysreg_descr = [''VSYS = VBAT + 225 mV (3.8 V minimum)'', ''VSYS = 4.4V'', ''VSYS = 4.5V'',
     ''VSYS = 4.6V'', ''VSYS = 4.7V'', ''VSYS = 4.8V'', ''VSYS = 4.9V'', ''VSYS = VBUS'']"

definition ilim_descr :: "string list" where
  "ilim_descr = [''ILIM = 50mA'', ''ILIM = 100mA(max.)'', ''ILIM = 200mA'', ''ILIM = 300mA'',
     ''ILIM = 400mA'', ''ILIM = 500mA(max.)'', ''ILIM = 700mA'', ''ILIM = 1100mA'']"

definition status_descr :: "string list" where
  "status_descr = [''Unknown'', ''Charging'', ''Discharging'', ''Not Charging'', ''Charging Full'']"

text \<open>
  The charger commands share their control flow: without a value, get and print; with one, convert,
  check and set.
\<close>

definition get_or_set :: "('w ifmcu_shell, int + 'v) prog \<Rightarrow> string \<Rightarrow> ('v \<Rightarrow> out) \<Rightarrow>
    (int \<Rightarrow> bool) \<Rightarrow> string \<Rightarrow> (int \<Rightarrow> ('w ifmcu_shell, int) prog) \<Rightarrow> string \<Rightarrow>
    string list \<Rightarrow> ('w ifmcu_shell, int) prog" where
  "get_or_set getter get_msg shown bad range_msg setter set_msg argv =
     (if length argv = 1 then do {
        cur \<leftarrow> getter;
        case cur of
          Inl ret \<Rightarrow> do { emit (Error get_msg [PInt ret]); return ret }
        | Inr v \<Rightarrow> do { emit (shown v); return 0 }
      } else
        case strtol 10 (argv ! 1) of
          None \<Rightarrow> do { emit (Error range_msg []); return (- EINVAL) }
        | Some (val, _, _) \<Rightarrow>
            if bad val then do { emit (Error range_msg []); return (- EINVAL) }
            else do {
              ret \<leftarrow> setter val;
              if ret < 0 then do { emit (Error set_msg [PInt ret]); return ret }
              else return 0
            })"

definition cmd_charger_chgdis :: "'w zephyr \<Rightarrow> string list \<Rightarrow> ('w ifmcu_shell, int) prog" where
  "cmd_charger_chgdis Z = get_or_set
     (bq25180_chgdis_get Z) ''Cannot get CHG_DIS: (err = %d)''
     (\<lambda>chgdis. Print ''Battery Charging %s'' [PStr (if chgdis \<noteq> 0 then ''Disabled'' else ''Enabled'')])
     (\<lambda>val. val \<noteq> 0 \<and> val \<noteq> 1) ''<value> must be 0 or 1''
     (\<lambda>val. bq25180_chgdis_set Z (word_of_int val)) ''Cannot enable or disable charging: (err = %d)''"

definition cmd_charger_sysreg :: "'w zephyr \<Rightarrow> string list \<Rightarrow> ('w ifmcu_shell, int) prog" where
  "cmd_charger_sysreg Z = get_or_set
     (bq25180_sysreg_get Z) ''Cannot get SYS Voltage: (err = %d)''
     (\<lambda>mode. Print ''[%d]: %s'' [PInt (uint mode), table_arg sysreg_descr (unat mode)])
     (\<lambda>val. val < 0 \<and> val > 7) ''<mode> must be in the range 0 to 7''
     (\<lambda>val. bq25180_sysreg_set Z (word_of_int val)) ''Cannot set SYS Voltage: (err = %d)''"

definition cmd_charger_ichg :: "'w zephyr \<Rightarrow> string list \<Rightarrow> ('w ifmcu_shell, int) prog" where
  "cmd_charger_ichg Z = get_or_set
     (bq25180_ichg_get Z) ''Cannot get Fast Charge Current: (err = %d)''
     (\<lambda>current_ma. Print ''%d mA'' [PInt (sint current_ma)])
     (\<lambda>val. val < 0 \<and> val > 1000) ''<current_ma> must be in the range 0 to 1000''
     (\<lambda>val. bq25180_ichg_set Z (word_of_int val)) ''Cannot set Fast Charge Current: (err = %d)''"

definition cmd_charger_vbatreg :: "'w zephyr \<Rightarrow> string list \<Rightarrow> ('w ifmcu_shell, int) prog" where
  "cmd_charger_vbatreg Z = get_or_set
     (bq25180_vbatreg_get Z) ''Cannot get Battery Regulation Voltage (%d)''
     (\<lambda>voltage_mv. Print ''%d mV'' [PInt (sint voltage_mv)])
     (\<lambda>val. val < 3500 \<and> val > 4650) ''<voltage_mv> must be in the range 3500 to 4650''
     (\<lambda>val. bq25180_vbatreg_set Z (word_of_int val))
     ''Cannot set Battery Regulation Voltage: (err = %d)''"

definition cmd_charger_ilim :: "'w zephyr \<Rightarrow> string list \<Rightarrow> ('w ifmcu_shell, int) prog" where
  "cmd_charger_ilim Z = get_or_set
     (bq25180_ilim_get Z) ''Cannot get Input Current Limit: (err = %d)''
     (\<lambda>level. Print ''[%d]: %s'' [PInt (uint level), table_arg ilim_descr (unat level)])
     (\<lambda>val. val < 0 \<and> val > 7) ''<level> must be in the range 0 to 7''
     (\<lambda>val. bq25180_ilim_set Z (word_of_int val)) ''Cannot set Input Current Limit: (err = %d)''"

definition cmd_charger_status :: "'w zephyr \<Rightarrow> string list \<Rightarrow> ('w ifmcu_shell, int) prog" where
  "cmd_charger_status Z argv = do {
     cur \<leftarrow> bq25180_status Z;
     case cur of
       Inl ret \<Rightarrow> do { emit (Error ''Cannot get Charger Status: (err = %d)'' [PInt ret]); return ret }
     | Inr status \<Rightarrow> do {
         emit (Print ''[%d]: %s'' [PInt (uint status), table_arg status_descr (unat status)]);
         return 0
       }
   }"

subsection \<open>Other commands\<close>

definition cmd_bootloader :: "'w zephyr \<Rightarrow> string list \<Rightarrow> ('w ifmcu_shell, int) prog" where
  "cmd_bootloader Z argv = do {
     emit (Print ''Entering IFMCU UF2 Bootloader mode...'' []);
     request_work Z Ifmcu_Bootloader_Work;
     return 0
   }"

definition cmd_reset :: "'w zephyr \<Rightarrow> string list \<Rightarrow> ('w ifmcu_shell, int) prog" where
  "cmd_reset Z argv =
     (if length argv = 1 \<or> argv ! 1 = ''nrf9151'' then do {
        request_work Z Nrf91_Reset_Work;
        return 0
      } else if argv ! 1 = ''nrf52820'' then do {
        request_work Z Ifmcu_Reset_Work;
        return 0
      } else do {
        emit (Error ''Unknown target: %s'' [PStr (argv ! 1)]);
        return (- EIO)
      })"

definition cmd_shutdown :: "'w zephyr \<Rightarrow> string list \<Rightarrow> ('w ifmcu_shell, int) prog" where
  "cmd_shutdown Z argv = do {
     ifmcu_system_off Z;
     return 0
   }"

definition cmd_simdet :: "'w zephyr \<Rightarrow> string list \<Rightarrow> ('w ifmcu_shell, int) prog" where
  "cmd_simdet Z argv = do {
     ready \<leftarrow> ask (gpio_is_ready Z Simdet_Gpio);
     if \<not> ready then do {
       emit (Error ''SIMDET GPIO controller not ready.'' []);
       return (- ENODEV)
     } else do {
       ret \<leftarrow> call (gpio_pin_configure Z Simdet_Gpio GPIO_INPUT);
       if ret < 0 then do {
         emit (Error ''Could not configure SIMDET GPIO.'' []);
         return ret
       } else do {
         act (k_sleep Z 1);
         ret \<leftarrow> call (gpio_pin_get Z Simdet_Gpio);
         (if ret < 0 then emit (Error ''Could not read SIMDET GPIO.'' [])
          else emit (Print ''%s: %s'' [PStr (argv ! 0),
            PStr (if ret \<noteq> 0 then ''Inserted'' else ''Uninserted'')]));
         call (gpio_pin_configure Z Simdet_Gpio GPIO_DISCONNECTED)
       }
     }
   }"

definition c_div :: "int \<Rightarrow> int \<Rightarrow> int" where
  "c_div a b = (if a < 0 then - ((- a) div b) else a div b)"

definition cmd_temp :: "'w zephyr \<Rightarrow> string \<Rightarrow> string list \<Rightarrow> ('w ifmcu_shell, int) prog" where
  "cmd_temp Z temp_sensor_name argv = do {
     ready \<leftarrow> ask (sensor_is_ready Z);
     if \<not> ready then do {
       emit (Error ''sensor: device %s not ready.'' [PStr temp_sensor_name]);
       return (- ENODEV)
     } else do {
       ret \<leftarrow> call (sensor_sample_fetch Z);
       if ret \<noteq> 0 then do {
         emit (Error ''Failed to fetch sample (%d).'' [PInt ret]);
         return ret
       } else do {
         (ret, val1, val2) \<leftarrow> call (sensor_channel_get Z);
         if ret \<noteq> 0 then do {
           emit (Error ''Failed to get data (%d).'' [PInt ret]);
           return ret
         } else do {
           emit (Print (''%d.%d '' @ [CHR 0xC2, CHR 0xB0] @ ''C'') [PInt val1, PInt (c_div val2 100000)]);
           return 0
         }
       }
     }
   }"

definition cmd_version :: "string \<Rightarrow> string \<Rightarrow> string list \<Rightarrow> ('w ifmcu_shell, int) prog" where
  "cmd_version fw_info full_fw_info argv =
     (if length argv = 1 then do { emit (Print fw_info []); return 0 }
      else if argv ! 1 \<noteq> ''-a'' \<and> argv ! 1 \<noteq> ''--all'' then do {
        emit (Error ''Unsupported option: %s'' [PStr (argv ! 1)]);
        return (- EIO)
      } else do { emit (Print full_fw_info []); return 0 })"

definition cmd_viosel :: "'w zephyr \<Rightarrow> string list \<Rightarrow> ('w ifmcu_shell, int) prog" where
  "cmd_viosel Z argv =
     (if length argv = 1 then do {
        v \<leftarrow> gets viosel;
        (if v < 0 then emit (Print ''VIO = 3.3V def.'' [])
         else emit (Print ''VIO = %s'' [PStr (if v \<noteq> 0 then ''1.8V'' else ''3.3V'')]));
        return 0
      } else
        case strtol 10 (argv ! 1) of
          None \<Rightarrow> do { emit (Error ''<sel> must be 0 or 1'' []); return (- EINVAL) }
        | Some (val, _, _) \<Rightarrow>
            if val \<noteq> 0 \<and> val \<noteq> 1 then do {
              emit (Error ''<sel> must be 0 or 1'' []); return (- EINVAL) }
            else do {
              ret \<leftarrow> call (gpio_pin_configure Z Viosel_Gpio
                (if val \<noteq> 0 then GPIO_OUTPUT_ACTIVE else GPIO_OUTPUT_INACTIVE));
              if ret < 0 then do {
                emit (Error ''Cannot configure VIOSEL (%d)'' [PInt ret]); return ret }
              else do {
                modify (\<lambda>s. s\<lparr>viosel := val\<rparr>);
                return 0
              }
            })"

subsection \<open>What the commands print and accept\<close>

text \<open>A print whose argument was read past the end of a table.\<close>

definition wild :: "out \<Rightarrow> bool" where
  "wild x = (case x of Print _ as \<Rightarrow> PWild \<in> set as | Warn _ as \<Rightarrow> PWild \<in> set as
     | Error _ as \<Rightarrow> PWild \<in> set as)"

lemma wild_simps [simp]:
  "wild (Print f as) \<longleftrightarrow> PWild \<in> set as" "wild (Warn f as) \<longleftrightarrow> PWild \<in> set as"
  "wild (Error f as) \<longleftrightarrow> PWild \<in> set as"
  by (simp_all add: wild_def)

lemma run_emit [run_simps, simp]: "run_state (emit x) s = ((), s\<lparr>shell_out := shell_out s @ [x]\<rparr>)"
  by (simp add: emit_def)

lemma keeps_out_charger:
  "keeps shell_out (bq25180_sysreg_get Z)" "keeps shell_out (bq25180_ilim_get Z)"
  "keeps shell_out (bq25180_status Z)"
  "keeps shell_out (bq25180_sysreg_set Z b)" "keeps shell_out (bq25180_ilim_set Z b)"
  unfolding bq25180_sysreg_get_def bq25180_ilim_get_def bq25180_status_def
    bq25180_sysreg_set_def bq25180_ilim_set_def
  by (intro keeps_intros; simp)+

text \<open>A field of three bits indexes a table of eight.\<close>

lemma sysreg_get_range: "result (bq25180_sysreg_get Z) s = Inr v \<Longrightarrow> unat v < 8"
  and ilim_get_range: "result (bq25180_ilim_get Z) s = Inr v \<Longrightarrow> unat v < 8"
  using sysreg.field_less ilim.field_less
  by (auto simp: result_def bq25180_sysreg_get_def bq25180_ilim_get_def case_prod_unfold fold_fields
      word_less_nat_alt split: if_splits)

lemma get_or_set_not_wild:
  assumes "keeps shell_out getter" "\<And>x. keeps shell_out (setter x)"
    and "\<And>v. result getter s = Inr v \<Longrightarrow> \<not> wild (shown v)"
  shows "filter wild (shell_out (exec_state (get_or_set getter gm shown bad rm setter sm argv) s))
    = filter wild (shell_out s)"
  using assms(3) keepsD [OF assms(1), of s] keepsD [OF assms(2), of _ s]
  unfolding get_or_set_def exec_state_def result_def
  by (auto simp: case_prod_unfold split: option.split sum.split)

text \<open>
  The descriptions printed for the SYS voltage mode and the input current limit are always
  entries of their tables, whatever the charger answers; the description of the charge status is
  read past the end of its table exactly when the charger reports a status above 4.
\<close>

theorem shell_tables:
  "filter wild (shell_out (exec_state (cmd_charger_sysreg Z argv) s)) = filter wild (shell_out s) \<and>
   filter wild (shell_out (exec_state (cmd_charger_ilim Z argv) s)) = filter wild (shell_out s) \<and>
   (case fst (charger_get_prop Z CHARGER_PROP_STATUS (world s)) of (ret, val) \<Rightarrow>
      filter wild (shell_out (exec_state (cmd_charger_status Z argv) s)) = filter wild (shell_out s) @
        (if 0 \<le> ret \<and> 5 \<le> unat (ucast val :: 8 word)
         then [Print ''[%d]: %s'' [PInt (uint (ucast val :: 8 word)), PWild]] else []))"
proof (intro conjI)
  show "filter wild (shell_out (exec_state (cmd_charger_sysreg Z argv) s)) = filter wild (shell_out s)"
    unfolding cmd_charger_sysreg_def
    by (rule get_or_set_not_wild)
      (auto intro: keeps_out_charger dest!: sysreg_get_range simp: sysreg_descr_def)
  show "filter wild (shell_out (exec_state (cmd_charger_ilim Z argv) s)) = filter wild (shell_out s)"
    unfolding cmd_charger_ilim_def
    by (rule get_or_set_not_wild)
      (auto intro: keeps_out_charger dest!: ilim_get_range simp: ilim_descr_def)
  have [simp]: "length status_descr = 5"
    by (simp add: status_descr_def)
  show "case fst (charger_get_prop Z CHARGER_PROP_STATUS (world s)) of (ret, val) \<Rightarrow>
      filter wild (shell_out (exec_state (cmd_charger_status Z argv) s)) = filter wild (shell_out s) @
        (if 0 \<le> ret \<and> 5 \<le> unat (ucast val :: 8 word)
         then [Print ''[%d]: %s'' [PInt (uint (ucast val :: 8 word)), PWild]] else [])"
    by (auto simp: cmd_charger_status_def bq25180_status_def exec_state_def case_prod_unfold
        not_less not_le table_arg_wild [THEN iffD2])
qed

lemma run_get_or_set_value:
  assumes "strtol 10 w = Some (val, rest, ov)"
  shows "result (get_or_set getter gm shown bad rm setter sm [n, w]) s
      = (if bad val then - EINVAL else min 0 (result (setter val) s))"
  using assms by (simp add: get_or_set_def result_def case_prod_unfold)

text \<open>
  What the charger commands do with a number: \<open>chgdis\<close> accepts 0 and 1 and rejects the rest.
  The others document a range but reject no number: the value, saturated to a \<open>long\<close> and reduced
  to the width of the register or property, goes to the device, so that mode 9 or -1 is no error.
\<close>

theorem charger_range_checks:
  "result (cmd_charger_chgdis Z [n, show_int v]) s
     = (if v = 0 \<or> v = 1 then min 0 (result (bq25180_chgdis_set Z (word_of_int v)) s) else - EINVAL) \<and>
   result (cmd_charger_sysreg Z [n, show_int v]) s
     = min 0 (result (bq25180_sysreg_set Z (word_of_int (saturate v))) s) \<and>
   result (cmd_charger_ilim Z [n, show_int v]) s
     = min 0 (result (bq25180_ilim_set Z (word_of_int (saturate v))) s) \<and>
   result (cmd_charger_ichg Z [n, show_int v]) s
     = min 0 (result (bq25180_ichg_set Z (word_of_int (saturate v))) s) \<and>
   result (cmd_charger_vbatreg Z [n, show_int v]) s
     = min 0 (result (bq25180_vbatreg_set Z (word_of_int (saturate v))) s)"
proof -
  have "saturate v \<noteq> 0 \<and> saturate v \<noteq> 1 \<longleftrightarrow> v \<noteq> 0 \<and> v \<noteq> 1"
    by (simp add: saturate_def LONG_MAX_def LONG_MIN_def)
  moreover have "v = 0 \<or> v = 1 \<Longrightarrow> saturate v = v"
    by (auto simp: LONG_MAX_def LONG_MIN_def)
  ultimately show ?thesis
    by (auto simp: cmd_charger_chgdis_def cmd_charger_sysreg_def cmd_charger_ilim_def
        cmd_charger_ichg_def cmd_charger_vbatreg_def run_get_or_set_value [OF strtol_show_int])
qed

end
