(* ===== verification/Ifmcu_Uart.thy ===== *)
theory Ifmcu_Uart
  imports Ifmcu_Leds
begin

section \<open>USB-UART bridge (\<open>ifmcu_uart_bridge.c\<close>)\<close>

text \<open>
  Two serial devices, each with a ring buffer for what was received on it. The interrupt handler
  moves received bytes into the buffer of the device and sends the buffer of the peer; a device
  whose buffer is nearly full is paused (its receive interrupt disabled) until the peer has
  sent enough. The ring buffer and the UART driver are parameters \<open>R\<close> and \<open>U\<close>.
\<close>

subsection \<open>State and external functions\<close>

definition RING_BUF_SIZE :: nat where
  "RING_BUF_SIZE = 512"

definition RING_BUF_FULL_THRESHOLD :: nat where
  "RING_BUF_FULL_THRESHOLD = RING_BUF_SIZE div 3"

text \<open>
  A claim of the ring buffer hands out a stretch of memory; what the caller writes into it is
  given when the claim is finished.
\<close>

record 'rb ring_api =
  ring_buf_init :: "nat \<Rightarrow> 'rb"
  ring_buf_space_get :: "'rb \<Rightarrow> nat"
  ring_buf_put_claim :: "nat \<Rightarrow> 'rb \<Rightarrow> nat \<times> 'rb"
  ring_buf_put_finish :: "8 word list \<Rightarrow> 'rb \<Rightarrow> int \<times> 'rb"
  ring_buf_get_claim :: "nat \<Rightarrow> 'rb \<Rightarrow> 8 word list \<times> 'rb"
  ring_buf_get_finish :: "nat \<Rightarrow> 'rb \<Rightarrow> int \<times> 'rb"

record ('d, 'cfg, 'w) uart_api =
  uart_fifo_read :: "'d \<Rightarrow> nat \<Rightarrow> 'w \<Rightarrow> (int \<times> 8 word list) \<times> 'w"
  uart_fifo_fill :: "'d \<Rightarrow> 8 word list \<Rightarrow> 'w \<Rightarrow> int \<times> 'w"
  uart_irq_rx_enable :: "'d \<Rightarrow> 'w \<Rightarrow> 'w"
  uart_irq_rx_disable :: "'d \<Rightarrow> 'w \<Rightarrow> 'w"
  uart_irq_tx_enable :: "'d \<Rightarrow> 'w \<Rightarrow> 'w"
  uart_irq_tx_disable :: "'d \<Rightarrow> 'w \<Rightarrow> 'w"
  uart_irq_update :: "'d \<Rightarrow> 'w \<Rightarrow> bool \<times> 'w"
  uart_irq_is_pending :: "'d \<Rightarrow> 'w \<Rightarrow> bool \<times> 'w"
  uart_irq_rx_ready :: "'d \<Rightarrow> 'w \<Rightarrow> bool \<times> 'w"
  uart_irq_tx_ready :: "'d \<Rightarrow> 'w \<Rightarrow> bool \<times> 'w"
  uart_irq_callback_set :: "'d \<Rightarrow> bool \<Rightarrow> 'w \<Rightarrow> 'w"
  uart_config_get :: "'d \<Rightarrow> 'w \<Rightarrow> (int \<times> 'cfg) \<times> 'w"
  uart_configure :: "'d \<Rightarrow> 'cfg \<Rightarrow> 'w \<Rightarrow> int \<times> 'w"

text \<open>\<open>peer_dev[2]\<close> of the configuration, and the two \<open>uart_bridge_peer_data\<close>.\<close>

type_synonym 'd bridge_config = "'d \<times> 'd"

record 'rb bridge_peer =
  rb :: 'rb
  paused :: bool

record ('w, 'rb) bridge = "'w ifmcu" +
  peer0 :: "'rb bridge_peer"
  peer1 :: "'rb bridge_peer"

definition peer_dev :: "'d bridge_config \<Rightarrow> nat \<Rightarrow> 'd" where
  "peer_dev cfg i = (if i = 0 then fst cfg else snd cfg)"

definition peer :: "nat \<Rightarrow> ('w, 'rb) bridge \<Rightarrow> 'rb bridge_peer" where
  "peer i s = (if i = 0 then peer0 s else peer1 s)"

definition upd_peer :: "nat \<Rightarrow> ('rb bridge_peer \<Rightarrow> 'rb bridge_peer) \<Rightarrow>
    ('w, 'rb) bridge \<Rightarrow> ('w, 'rb) bridge" where
  "upd_peer i f s = (if i = 0 then s\<lparr>peer0 := f (peer0 s)\<rparr> else s\<lparr>peer1 := f (peer1 s)\<rparr>)"

text \<open>An operation on the ring buffer of peer \<open>i\<close>.\<close>

definition on_ring :: "nat \<Rightarrow> ('rb \<Rightarrow> 'a \<times> 'rb) \<Rightarrow> (('w, 'rb) bridge, 'a) prog" where
  "on_ring i f = State (\<lambda>s. case f (rb (peer i s)) of
     (a, r) \<Rightarrow> (a, upd_peer i (\<lambda>p. p\<lparr>rb := r\<rparr>) s))"

definition set_paused :: "nat \<Rightarrow> bool \<Rightarrow> (('w, 'rb) bridge, unit) prog" where
  "set_paused i b = modify (upd_peer i (\<lambda>p. p\<lparr>paused := b\<rparr>))"

subsection \<open>Handlers\<close>

definition uart_bridge_get_peer :: "'d \<Rightarrow> 'd bridge_config \<Rightarrow> 'd option" where
  "uart_bridge_get_peer dev cfg =
     (if dev = peer_dev cfg 0 then Some (peer_dev cfg 1)
      else if dev = peer_dev cfg 1 then Some (peer_dev cfg 0)
      else None)"

definition uart_bridge_settings_update ::
    "('d, 'cfg, 'w) uart_api \<Rightarrow> 'd \<Rightarrow> 'd bridge_config \<Rightarrow> (('w, 'z) env_scheme, unit) prog" where
  "uart_bridge_settings_update U dev cfg =
     (case uart_bridge_get_peer dev cfg of
        None \<Rightarrow> return ()
      | Some other \<Rightarrow> do {
          (ret, c) \<leftarrow> call (uart_config_get U dev);
          if ret \<noteq> 0 then return ()
          else do {
            ret \<leftarrow> call (uart_configure U other c);
            return ()
          }
        })"

definition uart_bridge_get_idx :: "'d \<Rightarrow> 'd bridge_config \<Rightarrow> bool \<Rightarrow> nat" where
  "uart_bridge_get_idx dev cfg own =
     (if dev = peer_dev cfg 0 then (if own then 0 else 1) else (if own then 1 else 0))"

definition uart_bridge_handle_rx :: "'rb ring_api \<Rightarrow> ('d, 'cfg, 'w) uart_api \<Rightarrow> 'd \<Rightarrow>
    'd bridge_config \<Rightarrow> (('w, 'rb) bridge, unit) prog" where
  "uart_bridge_handle_rx R U dev cfg = do {
     let other = peer_dev cfg (uart_bridge_get_idx dev cfg False);
     let own = uart_bridge_get_idx dev cfg True;
     space \<leftarrow> gets (\<lambda>s. ring_buf_space_get R (rb (peer own s)));
     if space < RING_BUF_FULL_THRESHOLD then do {
       act (uart_irq_rx_disable U dev);
       set_paused own True
     } else do {
       rb_len \<leftarrow> on_ring own (ring_buf_put_claim R RING_BUF_SIZE);
       if rb_len = 0 then return ()
       else do {
         (recv_len, recv_buf) \<leftarrow> call (uart_fifo_read U dev rb_len);
         if recv_len < 0 then do {
           _ \<leftarrow> on_ring own (ring_buf_put_finish R []);
           return ()
         } else do {
           ret \<leftarrow> on_ring own (ring_buf_put_finish R (take (nat recv_len) recv_buf));
           if ret < 0 then return ()
           else do {
             set_uart_led_state LED_STATE_BLINK;
             act (uart_irq_tx_enable U other)
           }
         }
       }
     }
   }"

definition uart_bridge_handle_tx :: "'rb ring_api \<Rightarrow> ('d, 'cfg, 'w) uart_api \<Rightarrow> 'd \<Rightarrow>
    'd bridge_config \<Rightarrow> (('w, 'rb) bridge, unit) prog" where
  "uart_bridge_handle_tx R U dev cfg = do {
     let i = uart_bridge_get_idx dev cfg False;
     let other = peer_dev cfg i;
     send_buf \<leftarrow> on_ring i (ring_buf_get_claim R RING_BUF_SIZE);
     if length send_buf = 0 then act (uart_irq_tx_disable U dev)
     else do {
       sent_len \<leftarrow> call (uart_fifo_fill U dev send_buf);
       if sent_len < 0 then do {
         _ \<leftarrow> on_ring i (ring_buf_get_finish R 0);
         return ()
       } else do {
         ret \<leftarrow> on_ring i (ring_buf_get_finish R (nat sent_len));
         if ret < 0 then return ()
         else do {
           set_uart_led_state LED_STATE_BLINK;
           p \<leftarrow> gets (peer i);
           if paused p \<and> ring_buf_space_get R (rb p) > RING_BUF_FULL_THRESHOLD then do {
             act (uart_irq_rx_enable U other);
             set_paused i False
           } else return ()
         }
       }
     }
   }"

text \<open>
  One round of the loop of \<open>interrupt_handler\<close>: the two tests, then the body; the result says
  whether the loop goes on. The loop ends only when the driver stops reporting work, so the
  handler may not return, which is \<open>None\<close>.
\<close>

definition interrupt_round :: "'rb ring_api \<Rightarrow> ('d, 'cfg, 'w) uart_api \<Rightarrow> 'd \<Rightarrow>
    'd bridge_config \<Rightarrow> (('w, 'rb) bridge, bool) prog" where
  "interrupt_round R U dev cfg = do {
     upd \<leftarrow> call (uart_irq_update U dev);
     if \<not> upd then return False
     else do {
       pend \<leftarrow> call (uart_irq_is_pending U dev);
       if \<not> pend then return False
       else do {
         rx \<leftarrow> call (uart_irq_rx_ready U dev);
         doif rx (uart_bridge_handle_rx R U dev cfg);
         tx \<leftarrow> call (uart_irq_tx_ready U dev);
         doif tx (uart_bridge_handle_tx R U dev cfg);
         return True
       }
     }
   }"

partial_function (option) interrupt_handler :: "'rb ring_api \<Rightarrow> ('d, 'cfg, 'w) uart_api \<Rightarrow> 'd \<Rightarrow>
    'd bridge_config \<Rightarrow> ('w, 'rb) bridge \<Rightarrow> ('w, 'rb) bridge option" where
  "interrupt_handler R U dev cfg s =
     (case run_state (interrupt_round R U dev cfg) s of
        (go_on, s') \<Rightarrow> if go_on then interrupt_handler R U dev cfg s' else Some s')"

datatype pm_device_action =
    PM_DEVICE_ACTION_SUSPEND
  | PM_DEVICE_ACTION_RESUME
  | PM_DEVICE_ACTION_TURN_OFF
  | PM_DEVICE_ACTION_TURN_ON

definition uart_bridge_pm_action :: "('d, 'cfg, 'w) uart_api \<Rightarrow> 'd bridge_config \<Rightarrow>
    pm_device_action \<Rightarrow> (('w, 'z) env_scheme, int) prog" where
  "uart_bridge_pm_action U cfg action =
     (case action of
        PM_DEVICE_ACTION_SUSPEND \<Rightarrow> do {
          act (uart_irq_rx_disable U (peer_dev cfg 0));
          act (uart_irq_rx_disable U (peer_dev cfg 1));
          act (uart_irq_callback_set U (peer_dev cfg 0) False);
          act (uart_irq_callback_set U (peer_dev cfg 1) False);
          return 0
        }
      | PM_DEVICE_ACTION_RESUME \<Rightarrow> do {
          act (uart_irq_callback_set U (peer_dev cfg 0) True);
          act (uart_irq_callback_set U (peer_dev cfg 1) True);
          act (uart_irq_rx_enable U (peer_dev cfg 0));
          act (uart_irq_rx_enable U (peer_dev cfg 1));
          return 0
        }
      | _ \<Rightarrow> return (- ENOTSUP))"

text \<open>
  \<open>uart_bridge_init\<close>: both ring buffers emptied, then the kernel's \<open>pm_device_driver_init\<close>,
  a parameter, which calls the action handler it is given.
\<close>

definition uart_bridge_init :: "'rb ring_api \<Rightarrow> ('d, 'cfg, 'w) uart_api \<Rightarrow> 'd bridge_config \<Rightarrow>
    ((pm_device_action \<Rightarrow> (('w, 'rb) bridge, int) prog) \<Rightarrow> (('w, 'rb) bridge, int) prog) \<Rightarrow>
    (('w, 'rb) bridge, int) prog" where
  "uart_bridge_init R U cfg pm_device_driver_init = do {
     modify (upd_peer 0 (\<lambda>p. p\<lparr>rb := ring_buf_init R RING_BUF_SIZE\<rparr>));
     modify (upd_peer 1 (\<lambda>p. p\<lparr>rb := ring_buf_init R RING_BUF_SIZE\<rparr>));
     pm_device_driver_init (uart_bridge_pm_action U cfg)
   }"

subsection \<open>Running the handlers\<close>

lemma run_on_ring [run_simps, simp]:
  "run_state (on_ring i f) s = (fst (f (rb (peer i s))),
     upd_peer i (\<lambda>p. p\<lparr>rb := snd (f (rb (peer i s)))\<rparr>) s)"
  by (simp add: on_ring_def case_prod_unfold)

lemma run_set_paused [run_simps, simp]:
  "run_state (set_paused i b) s = ((), upd_peer i (\<lambda>p. p\<lparr>paused := b\<rparr>) s)"
  by (simp add: set_paused_def)

lemma peer_upd_peer [simp]:
  "peer i (upd_peer j f s) = (if (i = 0) = (j = 0) then f (peer i s) else peer i s)"
  by (simp add: peer_def upd_peer_def)

lemma peer_other [simp]:
  "peer i (s\<lparr>world := w\<rparr>) = peer i s" "peer i (s\<lparr>leds := l\<rparr>) = peer i s"
  "world (upd_peer i f s) = world s"
  by (simp_all add: peer_def upd_peer_def)

text \<open>The index of the other side.\<close>

definition other :: "nat \<Rightarrow> nat" where
  "other i = (if i = 0 then 1 else 0)"

lemma other_simps [simp]:
  "i < 2 \<Longrightarrow> other (other i) = i" "other i < 2" "(other i = 0) = (i \<noteq> 0)" "(0 < other i) = (i = 0)"
  "((0::nat) < i) \<noteq> (i = 0)" "(i = 0) \<noteq> ((0::nat) < i)"
  by (auto simp: other_def)

lemma get_idx_own:
  "fst cfg \<noteq> snd cfg \<Longrightarrow> i < 2 \<Longrightarrow> uart_bridge_get_idx (peer_dev cfg i) cfg True = i"
  "fst cfg \<noteq> snd cfg \<Longrightarrow> i < 2 \<Longrightarrow> uart_bridge_get_idx (peer_dev cfg i) cfg False = other i"
  by (auto simp: uart_bridge_get_idx_def peer_dev_def other_def less_2_cases_iff)

subsection \<open>What the bridge relies on\<close>

text \<open>
  How the ring buffer and the driver look from outside: the bytes a buffer holds and whether it
  is in a proper state, the bytes each device has delivered to and taken from the firmware so
  far, and whether its transmit interrupt is on.
\<close>

record ('d, 'rb, 'w) bridge_view =
  ring_ok :: "'rb \<Rightarrow> bool"
  ring_bytes :: "'rb \<Rightarrow> 8 word list"
  rx_bytes :: "'w \<Rightarrow> 'd \<Rightarrow> 8 word list"
  tx_bytes :: "'w \<Rightarrow> 'd \<Rightarrow> 8 word list"
  tx_on :: "'w \<Rightarrow> 'd \<Rightarrow> bool"

definition ring_fifo :: "'rb ring_api \<Rightarrow> ('d, 'rb, 'w) bridge_view \<Rightarrow> bool" where
  "ring_fifo R V \<longleftrightarrow>
     (ring_ok V (ring_buf_init R RING_BUF_SIZE) \<and>
      ring_bytes V (ring_buf_init R RING_BUF_SIZE) = []) \<and>
     (\<forall>r. ring_ok V r \<longrightarrow> length (ring_bytes V r) \<le> RING_BUF_SIZE \<and>
        ring_buf_space_get R r = RING_BUF_SIZE - length (ring_bytes V r)) \<and>
     (\<forall>r k. ring_ok V r \<longrightarrow> (case ring_buf_put_claim R k r of (n, r') \<Rightarrow>
        n \<le> k \<and> (n = 0 \<longrightarrow> ring_ok V r' \<and> ring_bytes V r' = ring_bytes V r \<and>
           (0 < k \<longrightarrow> length (ring_bytes V r) = RING_BUF_SIZE)) \<and>
        (\<forall>bs. length bs \<le> n \<longrightarrow> (case ring_buf_put_finish R bs r' of (rc, r'') \<Rightarrow>
           0 \<le> rc \<and> ring_ok V r'' \<and> ring_bytes V r'' = ring_bytes V r @ bs)))) \<and>
     (\<forall>r k. ring_ok V r \<longrightarrow> (case ring_buf_get_claim R k r of (bs, r') \<Rightarrow>
        bs = take (length bs) (ring_bytes V r) \<and>
        (bs = [] \<longrightarrow> ring_ok V r' \<and> ring_bytes V r' = ring_bytes V r \<and>
           (0 < k \<longrightarrow> ring_bytes V r = [])) \<and>
        (\<forall>m. m \<le> length bs \<longrightarrow> (case ring_buf_get_finish R m r' of (rc, r'') \<Rightarrow>
           0 \<le> rc \<and> ring_ok V r'' \<and> ring_bytes V r'' = drop m (ring_bytes V r)))))"

lemma ring_put0:
  assumes "ring_fifo R V" "ring_ok V r" "ring_buf_put_claim R k r = (n, r')"
  shows "n \<le> k \<and> (n = 0 \<longrightarrow> ring_ok V r' \<and> ring_bytes V r' = ring_bytes V r \<and>
    (0 < k \<longrightarrow> length (ring_bytes V r) = RING_BUF_SIZE))"
proof -
  have "case ring_buf_put_claim R k r of (n, r') \<Rightarrow>
      n \<le> k \<and> (n = 0 \<longrightarrow> ring_ok V r' \<and> ring_bytes V r' = ring_bytes V r \<and>
        (0 < k \<longrightarrow> length (ring_bytes V r) = RING_BUF_SIZE))"
    using assms(1) [unfolded ring_fifo_def, THEN conjunct2, THEN conjunct2, THEN conjunct1,
        rule_format, OF assms(2), of k]
    by (simp add: case_prod_unfold)
  with assms(3) show ?thesis by simp
qed

lemma ring_put:
  assumes "ring_fifo R V" "ring_ok V r" "ring_buf_put_claim R k r = (n, r')" "length bs \<le> n"
  shows "0 \<le> fst (ring_buf_put_finish R bs r') \<and> ring_ok V (snd (ring_buf_put_finish R bs r')) \<and>
    ring_bytes V (snd (ring_buf_put_finish R bs r')) = ring_bytes V r @ bs"
proof -
  have "case ring_buf_put_claim R k r of (n, r') \<Rightarrow> \<forall>bs. length bs \<le> n \<longrightarrow>
      (case ring_buf_put_finish R bs r' of (rc, r'') \<Rightarrow>
        0 \<le> rc \<and> ring_ok V r'' \<and> ring_bytes V r'' = ring_bytes V r @ bs)"
    using assms(1) [unfolded ring_fifo_def, THEN conjunct2, THEN conjunct2, THEN conjunct1,
        rule_format, OF assms(2), of k]
    by (simp add: case_prod_unfold)
  with assms(3,4) show ?thesis by (simp add: case_prod_unfold)
qed

lemma ring_get:
  assumes "ring_fifo R V" "ring_ok V r" "ring_buf_get_claim R k r = (bs, r')"
  shows "bs = take (length bs) (ring_bytes V r) \<and>
    (bs = [] \<longrightarrow> ring_ok V r' \<and> ring_bytes V r' = ring_bytes V r \<and> (0 < k \<longrightarrow> ring_bytes V r = [])) \<and>
    (\<forall>m. m \<le> length bs \<longrightarrow> 0 \<le> fst (ring_buf_get_finish R m r') \<and>
       ring_ok V (snd (ring_buf_get_finish R m r')) \<and>
       ring_bytes V (snd (ring_buf_get_finish R m r')) = drop m (ring_bytes V r))"
proof -
  have "case ring_buf_get_claim R k r of (bs, r') \<Rightarrow>
      bs = take (length bs) (ring_bytes V r) \<and>
      (bs = [] \<longrightarrow> ring_ok V r' \<and> ring_bytes V r' = ring_bytes V r \<and> (0 < k \<longrightarrow> ring_bytes V r = [])) \<and>
      (\<forall>m. m \<le> length bs \<longrightarrow> (case ring_buf_get_finish R m r' of (rc, r'') \<Rightarrow>
        0 \<le> rc \<and> ring_ok V r'' \<and> ring_bytes V r'' = drop m (ring_bytes V r)))"
    using assms(1) [unfolded ring_fifo_def, THEN conjunct2, THEN conjunct2, THEN conjunct2,
        rule_format, OF assms(2), of k] .
  with assms(3) show ?thesis by (simp add: case_prod_unfold)
qed

definition same_io :: "('d, 'rb, 'w) bridge_view \<Rightarrow> 'w \<Rightarrow> 'w \<Rightarrow> bool" where
  "same_io V w w' \<longleftrightarrow> rx_bytes V w' = rx_bytes V w \<and> tx_bytes V w' = tx_bytes V w \<and>
     tx_on V w' = tx_on V w"

definition uart_driver :: "('d, 'cfg, 'w) uart_api \<Rightarrow> ('d, 'rb, 'w) bridge_view \<Rightarrow> bool" where
  "uart_driver U V \<longleftrightarrow>
     (\<forall>d n w. case uart_fifo_read U d n w of ((rc, bs), w') \<Rightarrow>
        (if rc < 0 then same_io V w w'
         else nat rc \<le> n \<and> nat rc \<le> length bs \<and> tx_bytes V w' = tx_bytes V w \<and> tx_on V w' = tx_on V w \<and>
           rx_bytes V w' = (rx_bytes V w)(d := rx_bytes V w d @ take (nat rc) bs))) \<and>
     (\<forall>d bs w. case uart_fifo_fill U d bs w of (rc, w') \<Rightarrow>
        (if rc < 0 then same_io V w w'
         else nat rc \<le> length bs \<and> rx_bytes V w' = rx_bytes V w \<and> tx_on V w' = tx_on V w \<and>
           tx_bytes V w' = (tx_bytes V w)(d := tx_bytes V w d @ take (nat rc) bs))) \<and>
     (\<forall>d w. rx_bytes V (uart_irq_tx_enable U d w) = rx_bytes V w \<and>
        tx_bytes V (uart_irq_tx_enable U d w) = tx_bytes V w \<and>
        tx_on V (uart_irq_tx_enable U d w) = (tx_on V w)(d := True)) \<and>
     (\<forall>d w. rx_bytes V (uart_irq_tx_disable U d w) = rx_bytes V w \<and>
        tx_bytes V (uart_irq_tx_disable U d w) = tx_bytes V w \<and>
        tx_on V (uart_irq_tx_disable U d w) = (tx_on V w)(d := False)) \<and>
     (\<forall>d w. same_io V w (uart_irq_rx_enable U d w) \<and> same_io V w (uart_irq_rx_disable U d w)) \<and>
     (\<forall>d b w. same_io V w (uart_irq_callback_set U d b w)) \<and>
     (\<forall>d w. same_io V w (snd (uart_irq_update U d w)) \<and>
        same_io V w (snd (uart_irq_is_pending U d w)) \<and>
        same_io V w (snd (uart_irq_rx_ready U d w)) \<and>
        same_io V w (snd (uart_irq_tx_ready U d w)))"

subsection \<open>The invariant of the bridge\<close>

text \<open>
  For the direction from device \<open>i\<close> to its peer: every byte received was sent on or is in the
  buffer, in order; a paused device has less than a third of its buffer free; and while the
  buffer holds anything, the transmit interrupt of the peer is on, so that it will be drained.
\<close>

definition direction_inv :: "('d, 'rb, 'w) bridge_view \<Rightarrow> 'd bridge_config \<Rightarrow> nat \<Rightarrow>
    'w \<Rightarrow> 'rb bridge_peer \<Rightarrow> bool" where
  "direction_inv V cfg i w p \<longleftrightarrow> ring_ok V (rb p) \<and>
     rx_bytes V w (peer_dev cfg i) = tx_bytes V w (peer_dev cfg (other i)) @ ring_bytes V (rb p) \<and>
     (paused p \<longrightarrow> RING_BUF_SIZE - length (ring_bytes V (rb p)) \<le> RING_BUF_FULL_THRESHOLD) \<and>
     (ring_bytes V (rb p) \<noteq> [] \<longrightarrow> tx_on V w (peer_dev cfg (other i)))"

definition bridge_inv :: "('d, 'rb, 'w) bridge_view \<Rightarrow> 'd bridge_config \<Rightarrow>
    ('w, 'rb) bridge \<Rightarrow> bool" where
  "bridge_inv V cfg s \<longleftrightarrow> (\<forall>i<2. direction_inv V cfg i (world s) (peer i s))"

lemma direction_inv_same_io:
  "same_io V w w' \<Longrightarrow> direction_inv V cfg i w' p = direction_inv V cfg i w p"
  by (simp add: same_io_def direction_inv_def)

lemma bridge_inv_cong:
  assumes "same_io V (world s) (world s')" and "\<And>i. peer i s' = peer i s"
  shows "bridge_inv V cfg s' = bridge_inv V cfg s"
  using assms by (simp add: bridge_inv_def direction_inv_same_io)

lemma peer_dev_neq: "fst cfg \<noteq> snd cfg \<Longrightarrow> i < 2 \<Longrightarrow> peer_dev cfg i \<noteq> peer_dev cfg (other i)"
  by (auto simp: peer_dev_def other_def less_2_cases_iff)

lemma bridge_split:
  "i < 2 \<Longrightarrow> bridge_inv V cfg s \<longleftrightarrow> direction_inv V cfg i (world s) (peer i s) \<and>
     direction_inv V cfg (other i) (world s) (peer (other i) s)"
  by (auto simp: bridge_inv_def less_2_cases_iff other_def)

lemma handle_rx_inv:
  assumes ring: "ring_fifo R V" and drv: "uart_driver U V" and cfg: "fst cfg \<noteq> snd cfg" "i < 2"
    and inv: "bridge_inv V cfg s"
  shows "bridge_inv V cfg (exec_state (uart_bridge_handle_rx R U (peer_dev cfg i) cfg) s)"
proof -
  let ?d = "peer_dev cfg i" and ?e = "peer_dev cfg (other i)" and ?p = "peer i s" and ?w = "world s"
  let ?s' = "exec_state (uart_bridge_handle_rx R U ?d cfg) s"
  have idx: "uart_bridge_get_idx ?d cfg True = i" "uart_bridge_get_idx ?d cfg False = other i"
    using cfg by (simp_all add: get_idx_own)
  have di: "direction_inv V cfg i ?w ?p" and dj: "direction_inv V cfg (other i) ?w (peer (other i) s)"
    using inv cfg(2) by (auto simp: bridge_inv_def)
  have ok: "ring_ok V (rb ?p)" and sp: "ring_buf_space_get R (rb ?p) = RING_BUF_SIZE - length (ring_bytes V (rb ?p))"
    using di ring by (auto simp: direction_inv_def ring_fifo_def)
  have ne: "?d \<noteq> ?e"
    by (rule peer_dev_neq [OF cfg])
  obtain n r1 where claim: "ring_buf_put_claim R RING_BUF_SIZE (rb ?p) = (n, r1)"
    by fastforce
  obtain rc bs w1 where read: "uart_fifo_read U ?d n ?w = ((rc, bs), w1)"
    by (metis prod.collapse)
  have fin: "0 \<le> fst (ring_buf_put_finish R xs r1)" "ring_ok V (snd (ring_buf_put_finish R xs r1))"
      "ring_bytes V (snd (ring_buf_put_finish R xs r1)) = ring_bytes V (rb ?p) @ xs"
    if "length xs \<le> n" for xs
    using ring_put [OF ring ok claim that] by auto
  show ?thesis
  proof (cases "ring_buf_space_get R (rb ?p) < RING_BUF_FULL_THRESHOLD")
    case True
    then have s': "?s' = upd_peer i (\<lambda>p. p\<lparr>paused := True\<rparr>)
        (s\<lparr>world := uart_irq_rx_disable U ?d ?w\<rparr>)"
      by (simp add: exec_state_def uart_bridge_handle_rx_def idx Let_def)
    have "same_io V ?w (uart_irq_rx_disable U ?d ?w)"
      using drv by (simp add: uart_driver_def)
    then show ?thesis
      using di dj True sp cfg(2) unfolding s' bridge_split [OF cfg(2)]
      by (simp add: direction_inv_same_io) (simp add: direction_inv_def)
  next
    case False
    note space = False
    show ?thesis
    proof (cases "n = 0")
      case True
      then have s': "?s' = upd_peer i (\<lambda>p. p\<lparr>rb := r1\<rparr>) s"
        using space by (simp add: exec_state_def uart_bridge_handle_rx_def idx Let_def claim)
      have "ring_ok V r1 \<and> ring_bytes V r1 = ring_bytes V (rb ?p)"
        using ring_put0 [OF ring ok claim] True by simp
      then show ?thesis
        using di dj unfolding s' bridge_split [OF cfg(2)]
        by simp (simp add: direction_inv_def)
    next
      case n: False
      show ?thesis
      proof (cases "rc < 0")
        case True
        then have s': "?s' = upd_peer i (\<lambda>p. p\<lparr>rb := snd (ring_buf_put_finish R [] r1)\<rparr>)
            (upd_peer i (\<lambda>p. p\<lparr>rb := r1\<rparr>) s\<lparr>world := w1\<rparr>)"
          using space n
          by (simp add: exec_state_def uart_bridge_handle_rx_def idx Let_def claim read)
        have "same_io V ?w w1"
          using drv read True by (auto simp: uart_driver_def split: prod.splits)
        then show ?thesis
          using di dj fin [of "[]"] unfolding s' bridge_split [OF cfg(2)]
          by (simp add: direction_inv_same_io) (simp add: direction_inv_def)
      next
        case False
        let ?xs = "take (nat rc) bs"
        have io: "nat rc \<le> n" "nat rc \<le> length bs" "tx_bytes V w1 = tx_bytes V ?w" "tx_on V w1 = tx_on V ?w"
            "rx_bytes V w1 = (rx_bytes V ?w)(?d := rx_bytes V ?w ?d @ ?xs)"
          using drv read False by (auto simp: uart_driver_def split: prod.splits)
        have "length ?xs \<le> n" using io by simp
        note fin = fin [OF this]
        have s': "?s' = (let t = upd_peer i (\<lambda>p. p\<lparr>rb := snd (ring_buf_put_finish R ?xs r1)\<rparr>)
            (upd_peer i (\<lambda>p. p\<lparr>rb := r1\<rparr>) s\<lparr>world := w1\<rparr>) in
            t\<lparr>leds := leds (exec_state (set_uart_led_state LED_STATE_BLINK) t),
              world := uart_irq_tx_enable U ?e w1\<rparr>)"
          using space n False fin(1)
          by (simp add: exec_state_def uart_bridge_handle_rx_def idx Let_def claim read
              set_uart_led_state_def)
        have en: "rx_bytes V (uart_irq_tx_enable U ?e w1) = rx_bytes V w1"
            "tx_bytes V (uart_irq_tx_enable U ?e w1) = tx_bytes V w1"
            "tx_on V (uart_irq_tx_enable U ?e w1) = (tx_on V w1)(?e := True)"
          using drv by (simp_all add: uart_driver_def)
        show ?thesis
          using di dj ne cfg(2) fin unfolding s' Let_def bridge_split [OF cfg(2)]
          by simp (auto simp: direction_inv_def en io)
      qed
    qed
  qed
qed


lemma handle_tx_inv:
  assumes ring: "ring_fifo R V" and drv: "uart_driver U V" and cfg: "fst cfg \<noteq> snd cfg" "i < 2"
    and inv: "bridge_inv V cfg s"
  shows "bridge_inv V cfg (exec_state (uart_bridge_handle_tx R U (peer_dev cfg i) cfg) s)"
proof -
  let ?j = "other i"
  let ?d = "peer_dev cfg i" and ?e = "peer_dev cfg ?j" and ?p = "peer ?j s" and ?w = "world s"
  let ?s' = "exec_state (uart_bridge_handle_tx R U ?d cfg) s"
  have idx: "uart_bridge_get_idx ?d cfg False = ?j"
    using cfg by (simp add: get_idx_own)
  have dj: "direction_inv V cfg i ?w (peer i s)" and di: "direction_inv V cfg ?j ?w ?p"
    using inv cfg(2) by (auto simp: bridge_inv_def)
  have ok: "ring_ok V (rb ?p)"
    using di by (simp add: direction_inv_def)
  have ne: "?d \<noteq> ?e"
    by (rule peer_dev_neq [OF cfg])
  obtain bs r1 where claim: "ring_buf_get_claim R RING_BUF_SIZE (rb ?p) = (bs, r1)"
    by fastforce
  obtain rc w1 where fill: "uart_fifo_fill U ?d bs ?w = (rc, w1)"
    by fastforce
  have bs: "bs = take (length bs) (ring_bytes V (rb ?p))"
    using ring_get [OF ring ok claim] by simp
  have fin: "0 \<le> fst (ring_buf_get_finish R m r1)" "ring_ok V (snd (ring_buf_get_finish R m r1))"
      "ring_bytes V (snd (ring_buf_get_finish R m r1)) = drop m (ring_bytes V (rb ?p))"
    if "m \<le> length bs" for m
    using ring_get [OF ring ok claim] that by auto
  show ?thesis
  proof (cases "bs = []")
    case True
    then have s': "?s' = upd_peer ?j (\<lambda>p. p\<lparr>rb := r1\<rparr>) s\<lparr>world := uart_irq_tx_disable U ?d ?w\<rparr>"
      by (simp add: exec_state_def uart_bridge_handle_tx_def idx Let_def claim)
    have r1: "ring_ok V r1" "ring_bytes V r1 = []" "ring_bytes V (rb ?p) = []"
      using ring_get [OF ring ok claim] True by (auto simp: RING_BUF_SIZE_def)
    have dis: "rx_bytes V (uart_irq_tx_disable U ?d ?w) = rx_bytes V ?w"
        "tx_bytes V (uart_irq_tx_disable U ?d ?w) = tx_bytes V ?w"
        "tx_on V (uart_irq_tx_disable U ?d ?w) = (tx_on V ?w)(?d := False)"
      using drv by (simp_all add: uart_driver_def)
    show ?thesis
      using di dj ne cfg(2) r1 unfolding s' bridge_split [OF cfg(2)]
      by simp (simp add: direction_inv_def dis)
  next
    case bs_ne: False
    show ?thesis
    proof (cases "rc < 0")
      case True
      then have s': "?s' = upd_peer ?j (\<lambda>p. p\<lparr>rb := snd (ring_buf_get_finish R 0 r1)\<rparr>)
          (upd_peer ?j (\<lambda>p. p\<lparr>rb := r1\<rparr>) s\<lparr>world := w1\<rparr>)"
        using bs_ne by (simp add: exec_state_def uart_bridge_handle_tx_def idx Let_def claim fill)
      have "same_io V ?w w1"
        using drv fill True by (auto simp: uart_driver_def split: prod.splits)
      then show ?thesis
        using di dj fin [of 0] unfolding s' bridge_split [OF cfg(2)]
        by (simp add: direction_inv_same_io) (simp add: direction_inv_def)
    next
      case False
      have io: "nat rc \<le> length bs" "rx_bytes V w1 = rx_bytes V ?w" "tx_on V w1 = tx_on V ?w"
          "tx_bytes V w1 = (tx_bytes V ?w)(?d := tx_bytes V ?w ?d @ take (nat rc) bs)"
        using drv fill False by (auto simp: uart_driver_def split: prod.splits)
      note fin = fin [OF io(1)]
      let ?r2 = "snd (ring_buf_get_finish R (nat rc) r1)"
      let ?t = "upd_peer ?j (\<lambda>p. p\<lparr>rb := ?r2\<rparr>) (upd_peer ?j (\<lambda>p. p\<lparr>rb := r1\<rparr>) s\<lparr>world := w1\<rparr>)"
      let ?u = "?t\<lparr>leds := leds (exec_state (set_uart_led_state LED_STATE_BLINK) ?t)\<rparr>"
      have tk: "take (nat rc) bs = take (nat rc) (ring_bytes V (rb ?p))"
        using bs io(1) by (metis min.absorb1 take_take)
      have split: "ring_bytes V (rb ?p) = take (nat rc) bs @ ring_bytes V ?r2"
        by (simp add: fin tk)
      have sp: "ring_buf_space_get R ?r2 = RING_BUF_SIZE - length (ring_bytes V ?r2)"
        using ring fin by (auto simp: ring_fifo_def)
      have en: "same_io V w1 (uart_irq_rx_enable U ?e w1)"
        using drv by (simp add: uart_driver_def)
      have s': "?s' = (if paused ?p \<and> ring_buf_space_get R ?r2 > RING_BUF_FULL_THRESHOLD
          then upd_peer ?j (\<lambda>p. p\<lparr>paused := False\<rparr>) (?u\<lparr>world := uart_irq_rx_enable U ?e w1\<rparr>)
          else ?u)"
        using bs_ne False fin(1)
        by (simp add: exec_state_def uart_bridge_handle_tx_def idx Let_def claim fill
            set_uart_led_state_def)
      have u: "direction_inv V cfg i w1 (peer i s)"
          "direction_inv V cfg ?j w1 (\<lparr>rb = ?r2, paused = False\<rparr>)"
          "\<not> ring_buf_space_get R ?r2 > RING_BUF_FULL_THRESHOLD \<Longrightarrow>
             direction_inv V cfg ?j w1 (\<lparr>rb = ?r2, paused = paused ?p\<rparr>)"
        using di dj ne cfg(2) fin(2) split sp by (simp_all add: direction_inv_def io)
      have p: "?p\<lparr>rb := x, paused := b\<rparr> = \<lparr>rb = x, paused = b\<rparr>"
          "?p\<lparr>rb := x\<rparr> = \<lparr>rb = x, paused = paused ?p\<rparr>" for x b
        by (cases ?p, simp)+
      show ?thesis
        using u direction_inv_same_io [OF en] unfolding s' bridge_split [OF cfg(2)]
        by (cases "paused ?p") (simp_all add: p)
    qed
  qed
qed

lemma pm_action_inv:
  assumes "uart_driver U V" and "bridge_inv V cfg s"
  shows "bridge_inv V cfg (exec_state (uart_bridge_pm_action U cfg a) s)"
proof -
  have io: "same_io V w (uart_irq_rx_enable U d w)" "same_io V w (uart_irq_rx_disable U d w)"
      "same_io V w (uart_irq_callback_set U d b w)" for w d b
    using assms(1) by (simp_all add: uart_driver_def)
  have tr: "same_io V w1 w2 \<Longrightarrow> same_io V w2 w3 \<Longrightarrow> same_io V w1 w3" for w1 w2 w3
    by (simp add: same_io_def)
  have "same_io V (world s) (world (exec_state (uart_bridge_pm_action U cfg a) s))"
    by (cases a) (simp_all add: uart_bridge_pm_action_def exec_state_def, auto intro!: io intro: tr
        simp: same_io_def [of V w w for w])
  moreover have "peer i (exec_state (uart_bridge_pm_action U cfg a) s) = peer i s" for i
    by (cases a) (simp_all add: uart_bridge_pm_action_def exec_state_def)
  ultimately show ?thesis
    using assms(2) by (simp add: bridge_inv_cong)
qed

lemma look_inv:
  assumes "bridge_inv V cfg t" "\<And>w. same_io V w (snd (f w))"
  shows "bridge_inv V cfg (t\<lparr>world := snd (f (world t))\<rparr>)"
  using assms by (subst bridge_inv_cong) auto

lemma interrupt_round_inv:
  assumes "ring_fifo R V" "uart_driver U V" "fst cfg \<noteq> snd cfg" "i < 2" "bridge_inv V cfg s"
  shows "bridge_inv V cfg (exec_state (interrupt_round R U (peer_dev cfg i) cfg) s)"
proof -
  let ?d = "peer_dev cfg i"
  have io: "same_io V w (snd (uart_irq_update U ?d w))" "same_io V w (snd (uart_irq_is_pending U ?d w))"
      "same_io V w (snd (uart_irq_rx_ready U ?d w))" "same_io V w (snd (uart_irq_tx_ready U ?d w))" for w
    using assms(2) by (simp_all add: uart_driver_def)
  note rx = handle_rx_inv [OF assms(1-4), unfolded exec_state_def]
    and tx = handle_tx_inv [OF assms(1-4), unfolded exec_state_def]
  have l1: "bridge_inv V cfg t \<Longrightarrow> bridge_inv V cfg (t\<lparr>world := snd (uart_irq_update U ?d (world t))\<rparr>)"
    and l2: "bridge_inv V cfg t \<Longrightarrow> bridge_inv V cfg (t\<lparr>world := snd (uart_irq_is_pending U ?d (world t))\<rparr>)"
    and l3: "bridge_inv V cfg t \<Longrightarrow> bridge_inv V cfg (t\<lparr>world := snd (uart_irq_rx_ready U ?d (world t))\<rparr>)"
    and l4: "bridge_inv V cfg t \<Longrightarrow> bridge_inv V cfg (t\<lparr>world := snd (uart_irq_tx_ready U ?d (world t))\<rparr>)" for t
    by (erule look_inv, rule io)+
  note e = l1 [of s] l2 [of "s\<lparr>world := snd (uart_irq_update U ?d (world s))\<rparr>"]
    l3 [of "s\<lparr>world := snd (uart_irq_is_pending U ?d (snd (uart_irq_update U ?d (world s))))\<rparr>"]
    l4 [of "s\<lparr>world := snd (uart_irq_rx_ready U ?d (snd (uart_irq_is_pending U ?d
      (snd (uart_irq_update U ?d (world s))))))\<rparr>"]
  show ?thesis
    unfolding exec_state_def interrupt_round_def
    using assms(5) e
    by (auto simp: case_prod_unfold Let_def intro!: rx tx l4)
qed

lemma interrupt_handler_inv:
  assumes "ring_fifo R V" "uart_driver U V" "fst cfg \<noteq> snd cfg" "i < 2" "bridge_inv V cfg s"
    and ret: "interrupt_handler R U (peer_dev cfg i) cfg s = Some s'"
  shows "bridge_inv V cfg s'"
proof -
  have "R = R \<longrightarrow> U = U \<longrightarrow> cfg = cfg \<longrightarrow> peer_dev cfg i = peer_dev cfg i \<longrightarrow>
      bridge_inv V cfg s \<longrightarrow> bridge_inv V cfg s'"
  proof (rule interrupt_handler.raw_induct [where
      P = "\<lambda>R' U' dev cfg' s s'. R' = R \<longrightarrow> U' = U \<longrightarrow> cfg' = cfg \<longrightarrow> dev = peer_dev cfg i \<longrightarrow>
        bridge_inv V cfg s \<longrightarrow> bridge_inv V cfg s'", OF _ ret], intro impI)
    fix h R' U' dev' cfg' t t'
    assume IH: "\<And>R' U' dev cfg' s s'. h R' U' dev cfg' s = Some s' \<Longrightarrow> R' = R \<longrightarrow> U' = U \<longrightarrow>
        cfg' = cfg \<longrightarrow> dev = peer_dev cfg i \<longrightarrow> bridge_inv V cfg s \<longrightarrow> bridge_inv V cfg s'"
      and eq: "(case run_state (interrupt_round R' U' dev' cfg') t of
          (go_on, s') \<Rightarrow> if go_on then h R' U' dev' cfg' s' else Some s') = Some t'"
      and eqs: "R' = R" "U' = U" "cfg' = cfg" "dev' = peer_dev cfg i" and inv: "bridge_inv V cfg t"
    have "bridge_inv V cfg (snd (run_state (interrupt_round R' U' dev' cfg') t))"
      using interrupt_round_inv [OF assms(1-4) inv] eqs by (simp add: exec_state_def)
    then show "bridge_inv V cfg t'"
      using eq eqs IH by (auto simp: case_prod_unfold split: if_splits)
  qed
  then show ?thesis using assms(5) by blast
qed

subsection \<open>The handler returns\<close>

text \<open>
  \<open>uart_interrupts\<close>: what the driver's documentation promises of its interrupt status, for a finite
  input. \<open>rx_on w d\<close> says whether the receive interrupt of device \<open>d\<close> is enabled, and \<open>pend w d\<close>
  counts the bytes it still receives before the handler returns. Looking at the status delivers
  nothing; an interrupt is pending only for an enabled receiver with a byte or for a transmitter
  that is ready; a ready transmitter stays ready until it is filled or disabled; a ready receiver
  has a byte to read; and a transmitter is ready only while its interrupt is enabled and its FIFO
  has room for a byte. Nothing is said of a transmitter that is not ready: its FIFO may be full,
  and may get room again at any time.
\<close>

definition uart_interrupts :: "('d, 'cfg, 'w) uart_api \<Rightarrow> ('d, 'rb, 'w) bridge_view \<Rightarrow>
    ('w \<Rightarrow> 'd \<Rightarrow> bool) \<Rightarrow> ('w \<Rightarrow> 'd \<Rightarrow> nat) \<Rightarrow> bool" where
  "uart_interrupts U V rx_on pend \<longleftrightarrow>
     (\<forall>d w. \<forall>w' \<in> {snd (uart_irq_update U d w), snd (uart_irq_is_pending U d w),
          snd (uart_irq_rx_ready U d w), snd (uart_irq_tx_ready U d w), uart_irq_tx_disable U d w}.
        pend w' d \<le> pend w d \<and> rx_on w' d = rx_on w d) \<and>
     (\<forall>d w. fst (uart_irq_is_pending U d w) \<longrightarrow> (let w1 = snd (uart_irq_is_pending U d w) in
        rx_on w1 d \<and> fst (uart_irq_rx_ready U d w1) \<or> fst (uart_irq_tx_ready U d w1))) \<and>
     (\<forall>d w. fst (uart_irq_tx_ready U d w) \<longrightarrow>
        fst (uart_irq_tx_ready U d (snd (uart_irq_rx_ready U d w))) \<and>
        fst (uart_irq_tx_ready U d (uart_irq_rx_disable U d w))) \<and>
     (\<forall>d n w. fst (uart_irq_rx_ready U d w) \<longrightarrow> 0 < n \<longrightarrow>
        (let w1 = snd (uart_irq_rx_ready U d w); w2 = snd (uart_fifo_read U d n w1) in
         pend w2 d < pend w1 d \<and> rx_on w2 d = rx_on w1 d)) \<and>
     (\<forall>d w. pend (uart_irq_rx_disable U d w) d \<le> pend w d \<and> \<not> rx_on (uart_irq_rx_disable U d w) d) \<and>
     (\<forall>d bs w. fst (uart_irq_tx_ready U d w) \<longrightarrow> tx_on V w d \<and> (bs \<noteq> [] \<longrightarrow>
        (let w1 = snd (uart_irq_tx_ready U d w); (rc, w2) = uart_fifo_fill U d bs w1 in
         0 < rc \<and> pend w2 d \<le> pend w1 d \<and> rx_on w2 d = rx_on w1 d))) \<and>
     (\<forall>d e w. d \<noteq> e \<longrightarrow> (\<forall>w' \<in> {uart_irq_tx_enable U e w, uart_irq_rx_enable U e w}.
        pend w' d \<le> pend w d \<and> rx_on w' d = rx_on w d))"

lemma interrupts_look:
  assumes "uart_interrupts U V rx_on pend"
    and "w' \<in> {snd (uart_irq_update U d w), snd (uart_irq_is_pending U d w),
          snd (uart_irq_rx_ready U d w), snd (uart_irq_tx_ready U d w), uart_irq_tx_disable U d w}"
  shows "pend w' d \<le> pend w d" "rx_on w' d = rx_on w d"
  using assms(1) [unfolded uart_interrupts_def, THEN conjunct1, rule_format, OF assms(2)] by simp_all

lemma interrupts_enable:
  assumes "uart_interrupts U V rx_on pend" "d \<noteq> e"
    and "w' \<in> {uart_irq_tx_enable U e w, uart_irq_rx_enable U e w}"
  shows "pend w' d \<le> pend w d" "rx_on w' d = rx_on w d"
  using assms(1) [unfolded uart_interrupts_def, THEN conjunct2, THEN conjunct2, THEN conjunct2, THEN conjunct2, THEN conjunct2, THEN conjunct2, rule_format,
      OF assms(2,3)] by simp_all

lemma interrupts_pending:
  assumes "uart_interrupts U V rx_on pend" "uart_irq_is_pending U d w = (True, w1)"
  shows "rx_on w1 d \<and> fst (uart_irq_rx_ready U d w1) \<or> fst (uart_irq_tx_ready U d w1)"
  using assms(1) [unfolded uart_interrupts_def, THEN conjunct2, THEN conjunct1, rule_format, of d w]
    assms(2) by (simp add: Let_def)

lemma interrupts_stay_ready:
  assumes "uart_interrupts U V rx_on pend" "fst (uart_irq_tx_ready U d w)"
  shows "fst (uart_irq_tx_ready U d (snd (uart_irq_rx_ready U d w)))"
    "fst (uart_irq_tx_ready U d (uart_irq_rx_disable U d w))"
  using assms(1) [unfolded uart_interrupts_def, THEN conjunct2, THEN conjunct2, THEN conjunct1, rule_format,
      OF assms(2)] by simp_all

lemma interrupts_read:
  assumes "uart_interrupts U V rx_on pend" "uart_irq_rx_ready U d w = (True, w1)" "0 < n"
    "uart_fifo_read U d n w1 = (r, w2)"
  shows "pend w2 d < pend w1 d" "rx_on w2 d = rx_on w1 d"
  using assms(1) [unfolded uart_interrupts_def, THEN conjunct2, THEN conjunct2, THEN conjunct2,
      THEN conjunct1, rule_format, of d w n] assms(2-4)
  by (simp_all add: Let_def)

lemma interrupts_rx_disable:
  assumes "uart_interrupts U V rx_on pend"
  shows "pend (uart_irq_rx_disable U d w) d \<le> pend w d" "\<not> rx_on (uart_irq_rx_disable U d w) d"
  using assms [unfolded uart_interrupts_def, THEN conjunct2, THEN conjunct2, THEN conjunct2, THEN conjunct2, THEN conjunct1, rule_format, of d w] by simp_all

lemma interrupts_tx_ready:
  assumes "uart_interrupts U V rx_on pend" "uart_irq_tx_ready U d w = (True, w1)"
  shows "tx_on V w d"
    "bs \<noteq> [] \<Longrightarrow> uart_fifo_fill U d bs w1 = (rc, w2) \<Longrightarrow>
       0 < rc \<and> pend w2 d \<le> pend w1 d \<and> rx_on w2 d = rx_on w1 d"
  using assms(1) [unfolded uart_interrupts_def, THEN conjunct2, THEN conjunct2, THEN conjunct2,
      THEN conjunct2, THEN conjunct2, THEN conjunct1, rule_format, of d w bs] assms(2)
  by (simp_all add: Let_def case_prod_unfold)

text \<open>What is left to do for device \<open>i\<close>.\<close>

definition bridge_work :: "('d, 'rb, 'w) bridge_view \<Rightarrow> ('w \<Rightarrow> 'd \<Rightarrow> bool) \<Rightarrow> ('w \<Rightarrow> 'd \<Rightarrow> nat) \<Rightarrow>
    'd bridge_config \<Rightarrow> nat \<Rightarrow> ('w, 'rb) bridge \<Rightarrow> nat" where
  "bridge_work V rx_on pend cfg i s = pend (world s) (peer_dev cfg i) +
     length (ring_bytes V (rb (peer (other i) s))) +
     (if tx_on V (world s) (peer_dev cfg i) then 1 else 0) +
     (if rx_on (world s) (peer_dev cfg i) then 1 else 0)"

lemma driver_read_tx_on:
  assumes "uart_driver U V" "uart_fifo_read U d n w = ((rc, bs), w')"
  shows "tx_on V w' = tx_on V w"
proof (cases "rc < 0")
  case True
  then have "same_io V w w'"
    using assms by (auto simp: uart_driver_def split: prod.splits)
  then show ?thesis by (simp add: same_io_def)
next
  case False
  then show ?thesis
    using assms by (auto simp: uart_driver_def split: prod.splits)
qed

text \<open>
  Serving a ready receiver is progress, or its interrupt was off already and a ready transmitter
  is still ready.
\<close>

lemma handle_rx_work:
  assumes ring: "ring_fifo R V" and drv: "uart_driver U V" "uart_interrupts U V rx_on pend"
    and cfg: "fst cfg \<noteq> snd cfg" "i < 2" and inv: "bridge_inv V cfg s"
    and rdy: "uart_irq_rx_ready U (peer_dev cfg i) w = (True, world s)"
  defines "s' \<equiv> exec_state (uart_bridge_handle_rx R U (peer_dev cfg i) cfg) s"
  shows "bridge_work V rx_on pend cfg i s' < bridge_work V rx_on pend cfg i s \<or>
    bridge_work V rx_on pend cfg i s' \<le> bridge_work V rx_on pend cfg i s \<and>
    \<not> rx_on (world s) (peer_dev cfg i) \<and>
    (fst (uart_irq_tx_ready U (peer_dev cfg i) (world s)) \<longrightarrow>
     fst (uart_irq_tx_ready U (peer_dev cfg i) (world s')))"
proof -
  let ?d = "peer_dev cfg i" and ?e = "peer_dev cfg (other i)" and ?p = "peer i s" and ?w = "world s"
  have idx: "uart_bridge_get_idx ?d cfg True = i" "uart_bridge_get_idx ?d cfg False = other i"
    using cfg by (simp_all add: get_idx_own)
  have ok: "ring_ok V (rb ?p)"
    and sp: "ring_buf_space_get R (rb ?p) = RING_BUF_SIZE - length (ring_bytes V (rb ?p))"
    using inv cfg(2) ring by (auto simp: bridge_inv_def direction_inv_def ring_fifo_def)
  have ne: "?d \<noteq> ?e"
    by (rule peer_dev_neq [OF cfg])
  obtain n r1 where claim: "ring_buf_put_claim R RING_BUF_SIZE (rb ?p) = (n, r1)"
    by fastforce
  obtain rc bs w1 where read: "uart_fifo_read U ?d n ?w = ((rc, bs), w1)"
    by (metis prod.collapse)
  show ?thesis
  proof (cases "ring_buf_space_get R (rb ?p) < RING_BUF_FULL_THRESHOLD")
    case True
    have "tx_on V (uart_irq_rx_disable U ?d ?w) = tx_on V ?w"
      using drv by (simp add: uart_driver_def same_io_def)
    then show ?thesis
      using True interrupts_rx_disable [OF drv(2), of ?d ?w] interrupts_stay_ready(2) [OF drv(2), of ?d ?w]
      by (simp add: s'_def exec_state_def uart_bridge_handle_rx_def idx Let_def bridge_work_def)
  next
    case space: False
    have n: "0 < n"
      using ring_put0 [OF ring ok claim] space sp
      by (auto simp: RING_BUF_SIZE_def RING_BUF_FULL_THRESHOLD_def)
    note w1 = interrupts_read [OF drv(2) rdy n read] driver_read_tx_on [OF drv(1) read]
    have "tx_on V (uart_irq_tx_enable U ?e w1) ?d = tx_on V w1 ?d"
      using drv(1) ne by (simp add: uart_driver_def)
    then show ?thesis
      using space n w1 interrupts_enable [OF drv(2) ne, of "uart_irq_tx_enable U ?e w1" w1]
      by (simp add: s'_def exec_state_def uart_bridge_handle_rx_def idx Let_def claim read
          bridge_work_def set_uart_led_state_def)
  qed
qed

lemma handle_tx_work:
  assumes ring: "ring_fifo R V" and drv: "uart_driver U V" "uart_interrupts U V rx_on pend"
    and cfg: "fst cfg \<noteq> snd cfg" "i < 2" and inv: "bridge_inv V cfg s"
    and rdy: "uart_irq_tx_ready U (peer_dev cfg i) w = (True, world s)"
  shows "bridge_work V rx_on pend cfg i (exec_state (uart_bridge_handle_tx R U (peer_dev cfg i) cfg) s)
    < bridge_work V rx_on pend cfg i s"
proof -
  let ?j = "other i"
  let ?d = "peer_dev cfg i" and ?e = "peer_dev cfg ?j" and ?p = "peer ?j s" and ?w = "world s"
  have idx: "uart_bridge_get_idx ?d cfg False = ?j"
    using cfg by (simp add: get_idx_own)
  have ok: "ring_ok V (rb ?p)"
    using inv cfg(2) by (auto simp: bridge_inv_def direction_inv_def)
  have ne: "?d \<noteq> ?e"
    by (rule peer_dev_neq [OF cfg])
  have "same_io V w ?w"
    using drv(1) rdy unfolding uart_driver_def by (metis snd_conv)
  then have todo: "tx_on V ?w ?d"
    using interrupts_tx_ready(1) [OF drv(2) rdy] by (simp add: same_io_def)
  obtain bs r1 where claim: "ring_buf_get_claim R RING_BUF_SIZE (rb ?p) = (bs, r1)"
    by fastforce
  obtain rc w1 where fill: "uart_fifo_fill U ?d bs ?w = (rc, w1)"
    by fastforce
  show ?thesis
  proof (cases "bs = []")
    case True
    have r1: "ring_bytes V r1 = ring_bytes V (rb ?p)"
      using ring_get [OF ring ok claim] True by simp
    have "\<not> tx_on V (uart_irq_tx_disable U ?d ?w) ?d"
      using drv by (simp add: uart_driver_def)
    then show ?thesis
      using True todo r1 interrupts_look [OF drv(2), of "uart_irq_tx_disable U ?d ?w" ?d ?w]
      by (simp add: exec_state_def uart_bridge_handle_tx_def idx Let_def claim bridge_work_def)
  next
    case bs: False
    note rc = interrupts_tx_ready(2) [OF drv(2) rdy bs fill]
    have io: "nat rc \<le> length bs" "tx_on V w1 = tx_on V ?w"
      using drv(1) rc fill by (auto simp: uart_driver_def split: prod.splits)
    let ?f = "ring_buf_get_finish R (nat rc) r1"
    have fin: "0 \<le> fst ?f" "ring_bytes V (snd ?f) = drop (nat rc) (ring_bytes V (rb ?p))"
        "ring_bytes V (rb ?p) \<noteq> []"
      using ring_get [OF ring ok claim] io bs by auto
    then have len: "length (ring_bytes V (snd ?f)) < length (ring_bytes V (rb ?p))"
      using rc by simp
    have en: "tx_on V (uart_irq_rx_enable U ?e w1) = tx_on V w1"
      using drv ne by (simp add: uart_driver_def same_io_def)
    show ?thesis
      using bs rc fin(1) len io en interrupts_enable [OF drv(2) ne, of "uart_irq_rx_enable U ?e w1" w1]
      by (simp add: exec_state_def uart_bridge_handle_tx_def idx Let_def claim fill
          set_uart_led_state_def bridge_work_def)
  qed
qed

lemma work_look:
  assumes "uart_interrupts U V rx_on pend" "same_io V (world s) w"
    and "w \<in> {snd (uart_irq_update U (peer_dev cfg i) (world s)),
        snd (uart_irq_is_pending U (peer_dev cfg i) (world s)),
        snd (uart_irq_rx_ready U (peer_dev cfg i) (world s)),
        snd (uart_irq_tx_ready U (peer_dev cfg i) (world s)),
        uart_irq_tx_disable U (peer_dev cfg i) (world s)}"
  shows "bridge_work V rx_on pend cfg i (s\<lparr>world := w\<rparr>) \<le> bridge_work V rx_on pend cfg i s"
  using interrupts_look [OF assms(1,3)] assms(2) by (simp add: bridge_work_def same_io_def)

lemma interrupt_round_work:
  assumes ring: "ring_fifo R V" and drv: "uart_driver U V" "uart_interrupts U V rx_on pend"
    and cfg: "fst cfg \<noteq> snd cfg" "i < 2" and inv: "bridge_inv V cfg s"
    and more: "result (interrupt_round R U (peer_dev cfg i) cfg) s"
  shows "bridge_work V rx_on pend cfg i (exec_state (interrupt_round R U (peer_dev cfg i) cfg) s)
    < bridge_work V rx_on pend cfg i s"
proof -
  let ?d = "peer_dev cfg i"
  let ?work = "bridge_work V rx_on pend cfg i"
  define s1 where "s1 = s\<lparr>world := snd (uart_irq_update U ?d (world s))\<rparr>"
  define s2 where "s2 = s1\<lparr>world := snd (uart_irq_is_pending U ?d (world s1))\<rparr>"
  define s3 where "s3 = s2\<lparr>world := snd (uart_irq_rx_ready U ?d (world s2))\<rparr>"
  define rx where "rx = fst (uart_irq_rx_ready U ?d (world s2))"
  define s4 where "s4 = (if rx then exec_state (uart_bridge_handle_rx R U ?d cfg) s3 else s3)"
  define tx where "tx = fst (uart_irq_tx_ready U ?d (world s4))"
  define s5 where "s5 = s4\<lparr>world := snd (uart_irq_tx_ready U ?d (world s4))\<rparr>"
  have io: "same_io V w (snd (uart_irq_update U ?d w))" "same_io V w (snd (uart_irq_is_pending U ?d w))"
      "same_io V w (snd (uart_irq_rx_ready U ?d w))" "same_io V w (snd (uart_irq_tx_ready U ?d w))" for w
    using drv by (simp_all add: uart_driver_def)
  have look: "bridge_inv V cfg (t\<lparr>world := w\<rparr>) = bridge_inv V cfg t" if "same_io V (world t) w"
    for t w
    by (rule bridge_inv_cong) (simp_all add: that)
  have inv1: "bridge_inv V cfg s1"
    using inv unfolding s1_def by (simp add: look io)
  have inv2: "bridge_inv V cfg s2"
    using inv1 unfolding s2_def by (simp only: look io)
  have inv3: "bridge_inv V cfg s3"
    using inv2 unfolding s3_def by (simp only: look io)
  have inv4: "bridge_inv V cfg s4"
    using inv3 handle_rx_inv [OF ring drv(1) cfg] by (simp add: s4_def)
  have inv5: "bridge_inv V cfg s5"
    using inv4 unfolding s5_def by (simp add: look io)
  have w1: "?work s1 \<le> ?work s" and w2: "?work s2 \<le> ?work s1" and w3: "?work s3 \<le> ?work s2"
    and w5: "?work s5 \<le> ?work s4"
    unfolding s1_def s2_def s3_def s5_def by (rule work_look [OF drv(2)], rule io, simp)+
  have rdy: "uart_irq_rx_ready U ?d (world s2) = (rx, world s3)"
      "uart_irq_tx_ready U ?d (world s4) = (tx, world s5)"
    by (simp_all add: rx_def s3_def tx_def s5_def)
  have pending: "uart_irq_is_pending U ?d (world s1) = (True, world s2)"
    and s': "exec_state (interrupt_round R U ?d cfg) s = (if tx
      then exec_state (uart_bridge_handle_tx R U ?d cfg) s5 else s5)"
    using more unfolding interrupt_round_def s5_def tx_def s4_def rx_def s3_def s2_def s1_def
    by (auto simp: run_defs case_prod_unfold prod_eq_iff split: if_splits)
  have on3: "rx_on (world s3) ?d = rx_on (world s2) ?d"
    using interrupts_look(2) [OF drv(2), of "world s3" ?d "world s2"] by (simp add: s3_def)
  have stay: "fst (uart_irq_tx_ready U ?d (world s2)) \<longrightarrow> fst (uart_irq_tx_ready U ?d (world s3))"
    using interrupts_stay_ready(1) [OF drv(2), of ?d "world s2"] by (simp add: s3_def)
  have w4: "?work s4 < ?work s3 \<or> ?work s4 \<le> ?work s3 \<and> \<not> (rx_on (world s2) ?d \<and> rx) \<and>
      (fst (uart_irq_tx_ready U ?d (world s2)) \<longrightarrow> tx)"
  proof (cases rx)
    case True
    then have s4: "s4 = exec_state (uart_bridge_handle_rx R U ?d cfg) s3"
        and "uart_irq_rx_ready U ?d (world s2) = (True, world s3)"
      using rdy(1) by (simp_all add: s4_def)
    from handle_rx_work [OF ring drv cfg inv3 this(2)] show ?thesis
      using on3 stay unfolding s4 [symmetric] tx_def by blast
  next
    case False
    then show ?thesis
      using stay by (simp add: s4_def tx_def)
  qed
  have w6: "?work (exec_state (uart_bridge_handle_tx R U ?d cfg) s5) < ?work s5" if tx
    using handle_tx_work [OF ring drv cfg inv5, of "world s4"] rdy(2) that by simp
  show ?thesis
    using interrupts_pending [OF drv(2) pending] w1 w2 w3 w4 w5 w6 unfolding s' rx_def [symmetric]
    by (cases tx) auto
qed

lemma interrupt_handler_total:
  assumes "ring_fifo R V" "uart_driver U V" "uart_interrupts U V rx_on pend" "fst cfg \<noteq> snd cfg" "i < 2"
  shows "bridge_inv V cfg s \<Longrightarrow> \<exists>s'. interrupt_handler R U (peer_dev cfg i) cfg s = Some s'"
proof (induction "bridge_work V rx_on pend cfg i s" arbitrary: s rule: less_induct)
  case less
  let ?round = "interrupt_round R U (peer_dev cfg i) cfg"
  show ?case
  proof (cases "result ?round s")
    case True
    have "\<exists>s'. interrupt_handler R U (peer_dev cfg i) cfg (exec_state ?round s) = Some s'"
      using less.hyps [OF interrupt_round_work [OF assms less.prems True]]
        interrupt_round_inv [OF assms(1,2,4,5) less.prems] by blast
    with True show ?thesis
      by (subst interrupt_handler.simps) (simp add: run_defs case_prod_unfold)
  next
    case False
    then show ?thesis
      by (subst interrupt_handler.simps) (simp add: run_defs case_prod_unfold)
  qed
qed

subsection \<open>Reachable states\<close>

text \<open>
  From start-up (buffers initialised, nothing transferred yet) the bridge moves by interrupts of
  its two devices, in any order, and by power management actions.
\<close>

inductive bridge_reachable :: "'rb ring_api \<Rightarrow> ('d, 'cfg, 'w) uart_api \<Rightarrow>
    ('d, 'rb, 'w) bridge_view \<Rightarrow> 'd bridge_config \<Rightarrow> ('w, 'rb) bridge \<Rightarrow> bool"
  for R U V cfg where
  start: "\<not> paused (peer0 s) \<Longrightarrow> \<not> paused (peer1 s) \<Longrightarrow>
    rx_bytes V (world s) = (\<lambda>_. []) \<Longrightarrow> tx_bytes V (world s) = (\<lambda>_. []) \<Longrightarrow>
    bridge_reachable R U V cfg (exec_state (uart_bridge_init R U cfg (\<lambda>_. return 0)) s)"
| irq: "bridge_reachable R U V cfg s \<Longrightarrow> i < 2 \<Longrightarrow>
    interrupt_handler R U (peer_dev cfg i) cfg s = Some s' \<Longrightarrow> bridge_reachable R U V cfg s'"
| pm: "bridge_reachable R U V cfg s \<Longrightarrow>
    bridge_reachable R U V cfg (exec_state (uart_bridge_pm_action U cfg a) s)"

lemma bridge_reachable_inv:
  assumes "ring_fifo R V" "uart_driver U V" "fst cfg \<noteq> snd cfg"
  shows "bridge_reachable R U V cfg s \<Longrightarrow> bridge_inv V cfg s"
proof (induction rule: bridge_reachable.induct)
  case (start s)
  then show ?case
    using assms(1)
    by (simp add: exec_state_def uart_bridge_init_def bridge_inv_def direction_inv_def
        ring_fifo_def less_2_cases_iff other_def) (auto simp: peer_def)
next
  case (irq s i s')
  then show ?case using interrupt_handler_inv [OF assms] by blast
next
  case (pm s a)
  then show ?case using pm_action_inv assms(2) by blast
qed

lemma bridge_no_loss_bound:
  assumes "ring_fifo R V" "uart_driver U V" "fst cfg \<noteq> snd cfg"
    and "bridge_reachable R U V cfg s" and "i < 2"
  shows "length (ring_bytes V (rb (peer i s))) \<le> RING_BUF_SIZE"
  using bridge_reachable_inv [OF assms(1-4)] assms(1,5)
  by (auto simp: bridge_inv_def direction_inv_def ring_fifo_def)

text \<open>
  C1: The bridge is a pair of loss-free FIFO channels: in every reachable state, what a device has
  delivered is what was sent to its peer followed by what is in the buffer, in order and without
  loss or duplication, and at most 512 bytes are in transit.
\<close>

theorem bridge_no_loss:
  assumes "ring_fifo R V" "uart_driver U V" "fst cfg \<noteq> snd cfg"
    and "bridge_reachable R U V cfg s" and "i < 2"
  shows "rx_bytes V (world s) (peer_dev cfg i)
      = tx_bytes V (world s) (peer_dev cfg (1 - i)) @ ring_bytes V (rb (peer i s)) \<and>
    length (ring_bytes V (rb (peer i s))) \<le> RING_BUF_SIZE"
  using bridge_reachable_inv [OF assms(1-4)] assms(1,5)
  by (auto simp: bridge_inv_def direction_inv_def ring_fifo_def other_def less_2_cases_iff)



subsection \<open>A concrete bridge\<close>

text \<open>
  An instance of the two parameters: a buffer kept as a list, and two devices (named by a boolean)
  with a queue of bytes still to arrive, their logs, the state of the two interrupts, and a transmit
  FIFO of 16 bytes, which is full when \<open>wire_room\<close> is 0 and from which the line has taken up to
  four bytes whenever the status is read.
\<close>

definition list_ring :: "8 word list ring_api" where
  "list_ring = \<lparr>
     ring_buf_init = (\<lambda>_. []),
     ring_buf_space_get = (\<lambda>r. RING_BUF_SIZE - length r),
     ring_buf_put_claim = (\<lambda>k r. (min k (RING_BUF_SIZE - length r), r)),
     ring_buf_put_finish = (\<lambda>bs r. (0, r @ bs)),
     ring_buf_get_claim = (\<lambda>k r. (take k r, r)),
     ring_buf_get_finish = (\<lambda>m r. (0, drop m r))\<rparr>"

record wire =
  wire_in :: "bool \<Rightarrow> 8 word list"
  wire_rx :: "bool \<Rightarrow> 8 word list"
  wire_tx :: "bool \<Rightarrow> 8 word list"
  wire_tx_on :: "bool \<Rightarrow> bool"
  wire_rx_on :: "bool \<Rightarrow> bool"
  wire_room :: "bool \<Rightarrow> nat"

definition wire_pend :: "wire \<Rightarrow> bool \<Rightarrow> nat" where
  "wire_pend w d = length (wire_in w d)"

definition wire_tx_ready :: "wire \<Rightarrow> bool \<Rightarrow> bool" where
  "wire_tx_ready w d \<longleftrightarrow> wire_tx_on w d \<and> 0 < wire_room w d"

definition wire_rx_irq :: "wire \<Rightarrow> bool \<Rightarrow> bool" where
  "wire_rx_irq w d \<longleftrightarrow> wire_rx_on w d \<and> wire_in w d \<noteq> []"

definition wire_uart :: "(bool, nat, wire) uart_api" where
  "wire_uart = \<lparr>
     uart_fifo_read = (\<lambda>d n w. let bs = take n (wire_in w d) in
       ((int (length bs), bs), w\<lparr>wire_in := (wire_in w)(d := drop n (wire_in w d)),
                                 wire_rx := (wire_rx w)(d := wire_rx w d @ bs)\<rparr>)),
     uart_fifo_fill = (\<lambda>d bs w. let m = min (wire_room w d) (length bs) in
       (int m, w\<lparr>wire_tx := (wire_tx w)(d := wire_tx w d @ take m bs),
                  wire_room := (wire_room w)(d := wire_room w d - m)\<rparr>)),
     uart_irq_rx_enable = (\<lambda>d w. w\<lparr>wire_rx_on := (wire_rx_on w)(d := True)\<rparr>),
     uart_irq_rx_disable = (\<lambda>d w. w\<lparr>wire_rx_on := (wire_rx_on w)(d := False)\<rparr>),
     uart_irq_tx_enable = (\<lambda>d w. w\<lparr>wire_tx_on := (wire_tx_on w)(d := True)\<rparr>),
     uart_irq_tx_disable = (\<lambda>d w. w\<lparr>wire_tx_on := (wire_tx_on w)(d := False)\<rparr>),
     uart_irq_update = (\<lambda>d w.
       (True, w\<lparr>wire_room := (wire_room w)(d := min 16 (wire_room w d + 4))\<rparr>)),
     uart_irq_is_pending = (\<lambda>d w. (wire_rx_irq w d \<or> wire_tx_ready w d, w)),
     uart_irq_rx_ready = (\<lambda>d w. (wire_in w d \<noteq> [], w)),
     uart_irq_tx_ready = (\<lambda>d w. (wire_tx_ready w d, w)),
     uart_irq_callback_set = (\<lambda>d b w. w),
     uart_config_get = (\<lambda>d w. ((0, 115200), w)),
     uart_configure = (\<lambda>d c w. (0, w))\<rparr>"

definition wire_view :: "(bool, 8 word list, wire) bridge_view" where
  "wire_view = \<lparr>ring_ok = (\<lambda>r. length r \<le> RING_BUF_SIZE), ring_bytes = (\<lambda>r. r),
     rx_bytes = wire_rx, tx_bytes = wire_tx, tx_on = wire_tx_on\<rparr>"

lemma list_ring_fifo: "ring_fifo list_ring wire_view"
  by (auto simp: ring_fifo_def list_ring_def wire_view_def min_def)

lemma wire_uart_driver: "uart_driver wire_uart wire_view"
  by (auto simp: uart_driver_def wire_uart_def wire_view_def same_io_def Let_def min_def)

lemma wire_uart_interrupts: "uart_interrupts wire_uart wire_view wire_rx_on wire_pend"
  unfolding uart_interrupts_def
  by (intro conjI) (auto simp: wire_uart_def wire_view_def wire_pend_def wire_tx_ready_def
      wire_rx_irq_def Let_def)

definition wire0 :: "8 word list \<Rightarrow> (wire, 8 word list) bridge" where
  "wire0 bs = \<lparr>world = \<lparr>wire_in = (\<lambda>_. [])(True := bs), wire_rx = (\<lambda>_. []), wire_tx = (\<lambda>_. []),
       wire_tx_on = (\<lambda>_. False), wire_rx_on = (\<lambda>_. True), wire_room = (\<lambda>_. 16)\<rparr>,
     leds = leds_init, viosel = -1, scb_scr = 0, gpregret = 0, run_mode = Running,
     peer0 = \<lparr>rb = [], paused = False\<rparr>, peer1 = \<lparr>rb = [], paused = False\<rparr>\<rparr>"


definition wire_cfg :: "bool bridge_config" where
  "wire_cfg = (True, False)"

text \<open>
  600 bytes arrive at the first device. Its interrupt handler takes 512 of them in one round, finds
  the buffer full in the second and pauses, and returns.
\<close>

definition wire_paused :: "(wire, 8 word list) bridge" where
  "wire_paused = (wire0 [])\<lparr>world := \<lparr>wire_in = (\<lambda>_. [])(True := replicate 88 7),
       wire_rx = (\<lambda>_. [])(True := replicate 512 7), wire_tx = (\<lambda>_. []),
       wire_tx_on = (\<lambda>_. False)(False := True), wire_rx_on = (\<lambda>_. True)(True := False),
       wire_room = (\<lambda>_. 16)\<rparr>,
     leds := leds (exec_state (set_uart_led_state LED_STATE_BLINK) (wire0 [])),
     peer0 := \<lparr>rb = replicate 512 7, paused = True\<rparr>\<rparr>"

lemmas wire_defs = wire_uart_def list_ring_def wire0_def peer_def upd_peer_def peer_dev_def
  uart_bridge_get_idx_def set_uart_led_state_def RING_BUF_SIZE_def RING_BUF_FULL_THRESHOLD_def
  wire_tx_ready_def wire_rx_irq_def

definition wire_full :: "(wire, 8 word list) bridge" where
  "wire_full = wire_paused\<lparr>world := (world wire_paused)\<lparr>wire_rx_on := (\<lambda>_. True)\<rparr>,
     peer0 := \<lparr>rb = replicate 512 7, paused = False\<rparr>\<rparr>"

lemma wire_round1:
  "run_state (interrupt_round list_ring wire_uart True wire_cfg) (wire0 (replicate 600 7))
    = (True, wire_full)"
  by (simp add: interrupt_round_def uart_bridge_handle_rx_def wire_defs wire_cfg_def
      wire_paused_def wire_full_def exec_state_def Let_def fun_upd_def cong: if_cong)

lemma wire_round2:
  "run_state (interrupt_round list_ring wire_uart True wire_cfg) wire_full = (True, wire_paused)"
  by (simp add: interrupt_round_def uart_bridge_handle_rx_def wire_defs wire_cfg_def
      wire_paused_def wire_full_def exec_state_def Let_def fun_upd_def cong: if_cong)

lemma wire_round3:
  "run_state (interrupt_round list_ring wire_uart True wire_cfg) wire_paused = (False, wire_paused)"
  by (simp add: interrupt_round_def wire_defs wire_cfg_def wire_paused_def Let_def fun_upd_idem)

lemma wire_pauses:
  "interrupt_handler list_ring wire_uart (peer_dev wire_cfg 0) wire_cfg (wire0 (replicate 600 7))
    = Some wire_paused"
proof -
  have "peer_dev wire_cfg 0 = True" by (simp add: peer_dev_def wire_cfg_def)
  then show ?thesis
    by (simp add: interrupt_handler.simps [of _ _ _ _ "wire0 (replicate 600 7)"] wire_round1
        interrupt_handler.simps [of _ _ _ _ wire_full] wire_round2
        interrupt_handler.simps [of _ _ _ _ wire_paused] wire_round3)
qed

lemma wire_cfg_distinct: "fst wire_cfg \<noteq> snd wire_cfg"
  by (simp add: wire_cfg_def)

lemma wire_reachable: "bridge_reachable list_ring wire_uart wire_view wire_cfg wire_paused"
proof -
  let ?s = "wire0 (replicate 600 7)"
  have "exec_state (uart_bridge_init list_ring wire_uart wire_cfg (\<lambda>_. return 0)) ?s = ?s"
    by (simp add: exec_state_def uart_bridge_init_def wire_defs)
  moreover have "bridge_reachable list_ring wire_uart wire_view wire_cfg
      (exec_state (uart_bridge_init list_ring wire_uart wire_cfg (\<lambda>_. return 0)) ?s)"
    by (rule bridge_reachable.start) (simp_all add: wire0_def wire_view_def)
  ultimately have "bridge_reachable list_ring wire_uart wire_view wire_cfg ?s" by simp
  then show ?thesis
    using bridge_reachable.irq wire_pauses by (metis zero_less_numeral)
qed

lemma bridge_no_loss_witness:
  "wire_rx (world wire_paused) True = wire_tx (world wire_paused) False @ rb (peer0 wire_paused)"
  using bridge_no_loss [OF list_ring_fifo wire_uart_driver wire_cfg_distinct wire_reachable, of 0]
  by (simp add: wire_view_def peer_dev_def wire_cfg_def peer_def)



end
