(* ===== verification/Ifmcu_Dap.thy ===== *)
theory Ifmcu_Dap
  imports Ifmcu_Leds Ifmcu_Bench
begin

section \<open>CMSIS-DAP over USB (\<open>ifmcu_dap.c\<close>)\<close>

text \<open>
  The USB class function of the debug probe. One transfer buffer goes back and forth: armed on the
  bulk OUT endpoint, handed in with a request, executed, refilled with the response and armed on
  the bulk IN endpoint. The USB stack, its network buffers and the DAP engine are the parameter
  \<open>B\<close>; \<open>'b\<close> is a network buffer and \<open>'c\<close> a DAP link context.
\<close>

subsection \<open>State and external functions\<close>

record ('b, 'c, 'w) dap_api =
  net_buf_data :: "'b \<Rightarrow> 8 word list"
  net_buf_reset :: "'b \<Rightarrow> 'b"
  net_buf_tailroom :: "'b \<Rightarrow> nat"
  net_buf_add_mem :: "8 word list \<Rightarrow> 'b \<Rightarrow> 'b"
  buf_info_ep :: "'b \<Rightarrow> 8 word"
  buf_info_clear_set_ep :: "8 word \<Rightarrow> 'b \<Rightarrow> 'b"
  usbd_bus_speed_hs :: "'w \<Rightarrow> bool"
  usbd_ep_enqueue :: "'b \<Rightarrow> 'w \<Rightarrow> int \<times> 'w"
  usbd_ep_buf_free :: "'b \<Rightarrow> 'w \<Rightarrow> 'w"
  net_buf_alloc_with_data :: "nat \<Rightarrow> 'w \<Rightarrow> 'b option \<times> 'w"
  usbd_add_descriptor :: "'w \<Rightarrow> int \<times> 'w"
  usbd_str_desc_get_idx :: "'w \<Rightarrow> 8 word"
  dap_link_execute_cmd :: "'c option \<Rightarrow> 8 word list \<Rightarrow> 8 word list \<Rightarrow> 'w \<Rightarrow> (nat \<times> 8 word list) \<times> 'w"
  dap_link_set_pkt_size :: "'c option \<Rightarrow> nat \<Rightarrow> 'w \<Rightarrow> 'w"
  timer2_cc0 :: "'w \<Rightarrow> 32 word"
  app_version :: string

text \<open>
  Class private data. \<open>null_buf_reset\<close> records that \<open>net_buf_reset\<close> was called on a null
  pointer, after which C promises nothing.
\<close>

record ('w, 'c) dap = "'w ifmcu" +
  response_buf :: "8 word list"
  dap_enabled :: bool
  dap_link_ctx :: "'c option"
  iInterface :: "8 word"
  null_buf_reset :: bool

definition ID_DAP_VENDOR0 :: "8 word" where "ID_DAP_VENDOR0 = 0x80"
definition ID_DAP_VENDOR_NRF91_RESET :: "8 word" where "ID_DAP_VENDOR_NRF91_RESET = 0x80 + 19"
definition ID_DAP_VENDOR_IFMCU_RESET :: "8 word" where "ID_DAP_VENDOR_IFMCU_RESET = 0x80 + 20"
definition ID_DAP_VENDOR_IFMCU_BOOTLOADER :: "8 word" where
  "ID_DAP_VENDOR_IFMCU_BOOTLOADER = 0x80 + 21"
definition ID_DAP_VENDOR_IFMCU_VERSION :: "8 word" where "ID_DAP_VENDOR_IFMCU_VERSION = 0x80 + 22"
definition DAP_COMMAND_SUCCESS :: "8 word" where "DAP_COMMAND_SUCCESS = 0"
definition DAP_COMMAND_FAILED :: "8 word" where "DAP_COMMAND_FAILED = 0xFF"

lemmas dap_ids = ID_DAP_VENDOR0_def ID_DAP_VENDOR_NRF91_RESET_def ID_DAP_VENDOR_IFMCU_RESET_def
  ID_DAP_VENDOR_IFMCU_BOOTLOADER_def ID_DAP_VENDOR_IFMCU_VERSION_def DAP_COMMAND_SUCCESS_def
  DAP_COMMAND_FAILED_def

subsection \<open>Descriptors and endpoints\<close>

record usb_if_descriptor =
  if_bLength :: nat
  if_bDescriptorType :: "8 word"
  bInterfaceNumber :: "8 word"
  bAlternateSetting :: "8 word"
  bNumEndpoints :: nat
  bInterfaceClass :: "8 word"
  bInterfaceSubClass :: "8 word"
  bInterfaceProtocol :: "8 word"
  if_iInterface :: "8 word"

record usb_ep_descriptor =
  ep_bLength :: nat
  ep_bDescriptorType :: "8 word"
  bEndpointAddress :: "8 word"
  bmAttributes :: "8 word"
  wMaxPacketSize :: nat
  bInterval :: "8 word"

definition USB_DESC_INTERFACE :: "8 word" where "USB_DESC_INTERFACE = 4"
definition USB_DESC_ENDPOINT :: "8 word" where "USB_DESC_ENDPOINT = 5"
definition USB_BCC_VENDOR :: "8 word" where "USB_BCC_VENDOR = 0xFF"
definition USB_EP_TYPE_BULK :: "8 word" where "USB_EP_TYPE_BULK = 2"

record dap_func_desc =
  if0 :: usb_if_descriptor
  if0_out_ep :: usb_ep_descriptor
  if0_in_ep :: usb_ep_descriptor
  if0_hs_out_ep :: usb_ep_descriptor
  if0_hs_in_ep :: usb_ep_descriptor

definition dap_func_desc_0 :: dap_func_desc where
  "dap_func_desc_0 = \<lparr>
     if0 = \<lparr>if_bLength = 9, if_bDescriptorType = USB_DESC_INTERFACE, bInterfaceNumber = 0,
       bAlternateSetting = 0, bNumEndpoints = 2, bInterfaceClass = USB_BCC_VENDOR,
       bInterfaceSubClass = 0, bInterfaceProtocol = 0, if_iInterface = 0\<rparr>,
     if0_out_ep = \<lparr>ep_bLength = 7, ep_bDescriptorType = USB_DESC_ENDPOINT, bEndpointAddress = 0x01,
       bmAttributes = USB_EP_TYPE_BULK, wMaxPacketSize = 64, bInterval = 0\<rparr>,
     if0_in_ep = \<lparr>ep_bLength = 7, ep_bDescriptorType = USB_DESC_ENDPOINT, bEndpointAddress = 0x81,
       bmAttributes = USB_EP_TYPE_BULK, wMaxPacketSize = 64, bInterval = 0\<rparr>,
     if0_hs_out_ep = \<lparr>ep_bLength = 7, ep_bDescriptorType = USB_DESC_ENDPOINT, bEndpointAddress = 0x01,
       bmAttributes = USB_EP_TYPE_BULK, wMaxPacketSize = 512, bInterval = 0\<rparr>,
     if0_hs_in_ep = \<lparr>ep_bLength = 7, ep_bDescriptorType = USB_DESC_ENDPOINT, bEndpointAddress = 0x81,
       bmAttributes = USB_EP_TYPE_BULK, wMaxPacketSize = 512, bInterval = 0\<rparr>\<rparr>"

text \<open>The descriptor lists handed to the USB stack, one per bus speed, up to the end marker.\<close>

datatype usb_desc = If_Desc usb_if_descriptor | Ep_Desc usb_ep_descriptor | Nil_Desc

definition dap_func_get_desc :: "bool \<Rightarrow> usb_desc list" where
  "dap_func_get_desc hs =
     (if hs then [If_Desc (if0 dap_func_desc_0), Ep_Desc (if0_hs_out_ep dap_func_desc_0),
        Ep_Desc (if0_hs_in_ep dap_func_desc_0), Nil_Desc]
      else [If_Desc (if0 dap_func_desc_0), Ep_Desc (if0_out_ep dap_func_desc_0),
        Ep_Desc (if0_in_ep dap_func_desc_0), Nil_Desc])"

definition dap_func_get_bulk_out :: "('b, 'c, 'w) dap_api \<Rightarrow> 'w \<Rightarrow> 8 word" where
  "dap_func_get_bulk_out B w =
     (if usbd_bus_speed_hs B w then bEndpointAddress (if0_hs_out_ep dap_func_desc_0)
      else bEndpointAddress (if0_out_ep dap_func_desc_0))"

definition dap_func_get_bulk_in :: "('b, 'c, 'w) dap_api \<Rightarrow> 'w \<Rightarrow> 8 word" where
  "dap_func_get_bulk_in B w =
     (if usbd_bus_speed_hs B w then bEndpointAddress (if0_hs_in_ep dap_func_desc_0)
      else bEndpointAddress (if0_in_ep dap_func_desc_0))"

subsection \<open>Vendor commands\<close>

text \<open>The version string of the reply to \<open>ID_DAP_VENDOR_IFMCU_VERSION\<close>.\<close>

definition version_string :: "('b, 'c, 'w) dap_api \<Rightarrow> 32 word \<Rightarrow> string" where
  "version_string B cc = ''Boot: '' @ show_nat (unat (drop_bit 16 cc AND 0xFF)) @ ''.'' @
     show_nat (unat (drop_bit 8 cc AND 0xFF)) @ ''.'' @ show_nat (unat (cc AND 0xFF)) @
     '', App: '' @ app_version B"

definition VERSION_STRING_LEN :: nat where
  "VERSION_STRING_LEN = 62"

text \<open>The two short replies at the labels \<open>error\<close> and \<open>success\<close>.\<close>

definition short_reply :: "8 word \<Rightarrow> 8 word \<Rightarrow> (('w, 'c) dap, nat) prog" where
  "short_reply c st = do {
     modify (\<lambda>s. s\<lparr>response_buf := blit (response_buf s) 0 [c, st]\<rparr>);
     return 2
   }"

text \<open>\<open>req\<close> is the request in the buffer, never empty: \<open>in[0]\<close> is its first byte.\<close>

definition dap_execute_vendor_cmd :: "'w zephyr \<Rightarrow> ('b, 'c, 'w) dap_api \<Rightarrow> 8 word list \<Rightarrow>
    (('w, 'c) dap, nat) prog" where
  "dap_execute_vendor_cmd Z B req = do {
     let c = hd req;
     let error = short_reply c DAP_COMMAND_FAILED;
     let success = short_reply c DAP_COMMAND_SUCCESS;
     set_dap_led_state LED_STATE_BLINK;
     if c < ID_DAP_VENDOR0 then do {
       ctx \<leftarrow> gets dap_link_ctx;
       out \<leftarrow> gets response_buf;
       (n, out) \<leftarrow> call (dap_link_execute_cmd B ctx req out);
       modify (\<lambda>s. s\<lparr>response_buf := out\<rparr>);
       return n
     }
     else if c = ID_DAP_VENDOR_IFMCU_BOOTLOADER then do {
       request_work Z Ifmcu_Bootloader_Work; success }
     else if c = ID_DAP_VENDOR_IFMCU_RESET then do {
       request_work Z Ifmcu_Reset_Work; success }
     else if c = ID_DAP_VENDOR_NRF91_RESET then do {
       request_work Z Nrf91_Reset_Work; success }
     else if c = ID_DAP_VENDOR_IFMCU_VERSION then do {
       cc \<leftarrow> ask (timer2_cc0 B);
       let str = version_string B cc;
       let len = length str;
       modify (\<lambda>s. s\<lparr>response_buf :=
         blit (response_buf s) 2 (snprintf_bytes VERSION_STRING_LEN str)\<rparr>);
       if len \<ge> VERSION_STRING_LEN then error
       else do {
         modify (\<lambda>s. s\<lparr>response_buf := blit (response_buf s) 0 [c, of_nat len]\<rparr>);
         return (len + 2)
       }
     }
     else error
   }"

subsection \<open>Class callbacks\<close>

text \<open>Arming an endpoint with a buffer; the buffer is freed when the stack refuses it.\<close>

definition enqueue_or_free :: "('b, 'c, 'w) dap_api \<Rightarrow> 'b \<Rightarrow> (('w, 'c) dap, unit) prog" where
  "enqueue_or_free B buf = do {
     err \<leftarrow> call (usbd_ep_enqueue B buf);
     doif (err \<noteq> 0) (act (usbd_ep_buf_free B buf))
   }"

definition dap_func_request_handler :: "'w zephyr \<Rightarrow> ('b, 'c, 'w) dap_api \<Rightarrow> 'b \<Rightarrow> int \<Rightarrow>
    (('w, 'c) dap, int) prog" where
  "dap_func_request_handler Z B buf err = do {
     enabled \<leftarrow> gets dap_enabled;
     if enabled \<and> err = 0 then do {
       let ep = buf_info_ep B buf;
       ep_in \<leftarrow> ask (dap_func_get_bulk_in B);
       ep_out \<leftarrow> ask (dap_func_get_bulk_out B);
       (if ep = ep_in then
         enqueue_or_free B (net_buf_reset B (buf_info_clear_set_ep B ep_out buf))
       else do {
         let buf = buf_info_clear_set_ep B ep_in buf;
         len \<leftarrow> dap_execute_vendor_cmd Z B (net_buf_data B buf);
         let buf = net_buf_reset B buf;
         out \<leftarrow> gets response_buf;
         enqueue_or_free B (net_buf_add_mem B (take (min len (net_buf_tailroom B buf)) out) buf)
       });
       return 0
     } else do {
       act (usbd_ep_buf_free B buf);
       return 0
     }
   }"

definition dap_func_buf_alloc :: "('b, 'c, 'w) dap_api \<Rightarrow> 8 word \<Rightarrow>
    (('w, 'c) dap, 'b option) prog" where
  "dap_func_buf_alloc B ep = do {
     hs \<leftarrow> ask (usbd_bus_speed_hs B);
     let size = (if hs then 512 else 64);
     buf \<leftarrow> call (net_buf_alloc_with_data B size);
     case buf of
       None \<Rightarrow> do {
         modify (\<lambda>s. s\<lparr>null_buf_reset := True\<rparr>);
         return None
       }
     | Some b \<Rightarrow> return (Some (buf_info_clear_set_ep B ep (net_buf_reset B b)))
   }"

definition dap_func_enable :: "('b, 'c, 'w) dap_api \<Rightarrow> (('w, 'c) dap, unit) prog" where
  "dap_func_enable B = do {
     was \<leftarrow> gets dap_enabled;
     modify (\<lambda>s. s\<lparr>dap_enabled := True\<rparr>);
     if \<not> was then do {
       hs \<leftarrow> ask (usbd_bus_speed_hs B);
       ctx \<leftarrow> gets dap_link_ctx;
       (if hs then act (dap_link_set_pkt_size B ctx 512) else act (dap_link_set_pkt_size B ctx 64));
       ep \<leftarrow> ask (dap_func_get_bulk_out B);
       buf \<leftarrow> dap_func_buf_alloc B ep;
       case buf of None \<Rightarrow> return () | Some b \<Rightarrow> enqueue_or_free B b
     } else return ()
   }"

definition dap_func_disable :: "(('w, 'c) dap, unit) prog" where
  "dap_func_disable = modify (\<lambda>s. s\<lparr>dap_enabled := False\<rparr>)"

definition dap_func_init :: "('b, 'c, 'w) dap_api \<Rightarrow> (('w, 'c) dap, int) prog" where
  "dap_func_init B = do {
     ctx \<leftarrow> gets dap_link_ctx;
     if ctx = None then return (- EIO)
     else do {
       err \<leftarrow> call (usbd_add_descriptor B);
       (if err \<noteq> 0 then return ()
        else do {
          idx \<leftarrow> ask (usbd_str_desc_get_idx B);
          modify (\<lambda>s. s\<lparr>iInterface := idx\<rparr>)
        });
       return 0
     }
   }"

definition dap_link_backend_usb_init :: "'c option \<Rightarrow> (('w, 'c) dap, int) prog" where
  "dap_link_backend_usb_init ctx = do {
     enabled \<leftarrow> gets dap_enabled;
     if enabled then return (- EALREADY)
     else do {
       modify (\<lambda>s. s\<lparr>dap_link_ctx := ctx\<rparr>);
       return 0
     }
   }"

subsection \<open>Replies to vendor commands\<close>

lemma led_setter_dap [simp]:
  "world (exec_state (set_dap_led_state m) s) = world s"
  "response_buf (exec_state (set_dap_led_state m) s) = response_buf s"
  by (simp_all add: led_setter_defs exec_state_def)

lemma blit_byte_pair:
  "2 \<le> length buf \<Longrightarrow> blit buf 0 [a, b] ! 0 = a" "2 \<le> length buf \<Longrightarrow> blit buf 0 [a, b] ! Suc 0 = b"
  by (simp_all add: blit_def)

lemma drop_blit: "i + length xs \<le> n \<Longrightarrow> n \<le> length buf \<Longrightarrow> drop n (blit buf i xs) = drop n buf"
  by (simp add: blit_def min_def) (simp flip: length_0_conv)

lemma take_pair_blit [simp]: "take 2 (blit buf 0 [a, b]) = [a, b]"
  by (simp add: blit_def)

text \<open>The four outcomes of a vendor command.\<close>

definition vendor_status :: "('b, 'c, 'w) dap_api \<Rightarrow> 'w \<Rightarrow> 8 word \<Rightarrow> 8 word list" where
  "vendor_status B w c =
     (if c \<in> {ID_DAP_VENDOR_IFMCU_BOOTLOADER, ID_DAP_VENDOR_IFMCU_RESET, ID_DAP_VENDOR_NRF91_RESET}
      then [c, DAP_COMMAND_SUCCESS]
      else if c = ID_DAP_VENDOR_IFMCU_VERSION \<and> length (version_string B (timer2_cc0 B w)) < 62
      then [c, of_nat (length (version_string B (timer2_cc0 B w)))] @
        str_bytes (version_string B (timer2_cc0 B w))
      else [c, DAP_COMMAND_FAILED])"

definition vendor_effect :: "'w zephyr \<Rightarrow> 8 word \<Rightarrow> 'w \<Rightarrow> 'w" where
  "vendor_effect Z c w =
     (if c = ID_DAP_VENDOR_IFMCU_BOOTLOADER then work_requested Z Ifmcu_Bootloader_Work w
      else if c = ID_DAP_VENDOR_IFMCU_RESET then work_requested Z Ifmcu_Reset_Work w
      else if c = ID_DAP_VENDOR_NRF91_RESET then work_requested Z Nrf91_Reset_Work w
      else w)"

lemma run_short_reply [run_simps, simp]:
  "run_state (short_reply c st) s = (2, s\<lparr>response_buf := blit (response_buf s) 0 [c, st]\<rparr>)"
  by (simp add: short_reply_def)

lemma version_written:
  assumes "length buf = 512"
  shows "length (blit buf 2 (snprintf_bytes VERSION_STRING_LEN str)) = 512"
    and "drop 64 (blit buf 2 (snprintf_bytes VERSION_STRING_LEN str)) = drop 64 buf"
    and "VERSION_STRING_LEN \<le> n \<longleftrightarrow> \<not> n < 62"
  using assms length_snprintf_bytes [of VERSION_STRING_LEN str]
  by (simp_all add: drop_blit VERSION_STRING_LEN_def not_less)

lemma version_reply:
  assumes "length buf = 512" "length str < 62"
  shows "take (length str + 2) (blit (blit buf 2 (snprintf_bytes VERSION_STRING_LEN str)) 0 [c, d])
      = [c, d] @ str_bytes str"
    and "drop 64 (blit (blit buf 2 (snprintf_bytes VERSION_STRING_LEN str)) 0 [c, d]) = drop 64 buf"
proof -
  let ?x = "snprintf_bytes VERSION_STRING_LEN str"
  have x: "?x = str_bytes str @ [0]" "length ?x \<le> 62"
    using assms(2) by (simp_all add: snprintf_bytes_def VERSION_STRING_LEN_def)
  show "take (length str + 2) (blit (blit buf 2 ?x) 0 [c, d]) = [c, d] @ str_bytes str"
    using assms by (simp add: x blit_def)
  show "drop 64 (blit (blit buf 2 ?x) 0 [c, d]) = drop 64 buf"
    using assms x(2) by (simp add: drop_blit)
qed

lemma set_dap_led_run:
  "run_state (set_dap_led_state m) s = ((), exec_state (set_dap_led_state m) s)"
  by (simp add: exec_state_def prod_eq_iff)

lemma dap_id_order: "\<not> ID_DAP_VENDOR_IFMCU_BOOTLOADER < ID_DAP_VENDOR0"
  "\<not> ID_DAP_VENDOR_IFMCU_RESET < ID_DAP_VENDOR0" "\<not> ID_DAP_VENDOR_NRF91_RESET < ID_DAP_VENDOR0"
  "ID_DAP_VENDOR_IFMCU_BOOTLOADER \<noteq> ID_DAP_VENDOR_IFMCU_RESET"
  "ID_DAP_VENDOR_IFMCU_BOOTLOADER \<noteq> ID_DAP_VENDOR_NRF91_RESET"
  "ID_DAP_VENDOR_IFMCU_RESET \<noteq> ID_DAP_VENDOR_NRF91_RESET"
  by (simp_all add: dap_ids)

lemma vendor_short_run:
  assumes "ID_DAP_VENDOR0 \<le> hd req" "hd req \<noteq> ID_DAP_VENDOR_IFMCU_VERSION"
  shows "run_state (dap_execute_vendor_cmd Z B req) s =
    (2, (exec_state (set_dap_led_state LED_STATE_BLINK) s)
      \<lparr>world := vendor_effect Z (hd req) (world s),
       response_buf := blit (response_buf s) 0 (vendor_status B (world s) (hd req))\<rparr>)"
proof -
  have big: "(hd req < ID_DAP_VENDOR0) = False" using assms(1) by simp
  have unit: "t\<lparr>world := world s\<rparr> = t" if "world t = world s" for t :: "('a, 'c) dap"
    using that by (cases t) simp
  note led = led_setter_dap [of LED_STATE_BLINK s]
  let ?t = "exec_state (set_dap_led_state LED_STATE_BLINK) s"
  have run: "run_state (dap_execute_vendor_cmd Z B req) s =
      (if hd req = ID_DAP_VENDOR_IFMCU_BOOTLOADER then run_state
         (do { request_work Z Ifmcu_Bootloader_Work; short_reply (hd req) DAP_COMMAND_SUCCESS }) ?t
       else if hd req = ID_DAP_VENDOR_IFMCU_RESET then run_state
         (do { request_work Z Ifmcu_Reset_Work; short_reply (hd req) DAP_COMMAND_SUCCESS }) ?t
       else if hd req = ID_DAP_VENDOR_NRF91_RESET then run_state
         (do { request_work Z Nrf91_Reset_Work; short_reply (hd req) DAP_COMMAND_SUCCESS }) ?t
       else run_state (short_reply (hd req) DAP_COMMAND_FAILED) ?t)"
    using assms(2) by (simp only: dap_execute_vendor_cmd_def Let_def big if_False run_bind
        set_dap_led_run fst_conv snd_conv split: if_splits) auto
  show ?thesis
    unfolding run using assms(2) led
    by (auto simp: vendor_effect_def vendor_status_def dap_id_order unit)
qed

lemma vendor_cmd_run:
  fixes Z :: "'w zephyr" and B :: "('b, 'c, 'w) dap_api" and s :: "('w, 'c) dap"
  assumes "ID_DAP_VENDOR0 \<le> hd req" "length (response_buf s) = 512"
  defines "s' \<equiv> exec_state (dap_execute_vendor_cmd Z B req) s"
    and "n \<equiv> result (dap_execute_vendor_cmd Z B req) s"
  shows "take n (response_buf s') = vendor_status B (world s) (hd req)" (is ?take)
    and "n = length (vendor_status B (world s) (hd req))" (is ?len)
    and "world s' = vendor_effect Z (hd req) (world s)" (is ?world)
    and "drop 64 (response_buf s') = drop 64 (response_buf s)" (is ?drop)
    and "length (response_buf s') = 512" (is ?length)
proof -
  let ?str = "version_string B (timer2_cc0 B (world s))"
  consider (short) "hd req \<noteq> ID_DAP_VENDOR_IFMCU_VERSION"
    | (version) "hd req = ID_DAP_VENDOR_IFMCU_VERSION" "length ?str < 62"
    | (long) "hd req = ID_DAP_VENDOR_IFMCU_VERSION" "\<not> length ?str < 62"
    by auto
  then have "?take \<and> ?len \<and> ?world \<and> ?drop \<and> ?length"
  proof cases
    case short
    let ?st = "vendor_status B (world s) (hd req)"
    have s': "response_buf s' = blit (response_buf s) 0 ?st"
        "world s' = vendor_effect Z (hd req) (world s)" "n = 2"
      by (simp_all add: s'_def n_def result_def vendor_short_run [OF assms(1) short]
          exec_state_def [of "dap_execute_vendor_cmd Z B req"])
    have "\<exists>d. ?st = [hd req, d]"
      using short by (simp add: vendor_status_def)
    then obtain d where st: "?st = [hd req, d]" ..
    show ?thesis
      unfolding s' st using assms(2) by (simp add: drop_blit)
  next
    case version
    let ?buf = "blit (blit (response_buf s) 2 (snprintf_bytes VERSION_STRING_LEN ?str)) 0
      [hd req, of_nat (length ?str)]"
    have "run_state (dap_execute_vendor_cmd Z B req) s =
        (length ?str + 2, (exec_state (set_dap_led_state LED_STATE_BLINK) s)\<lparr>response_buf := ?buf\<rparr>)"
      using version by (simp add: dap_execute_vendor_cmd_def Let_def set_dap_led_run
          version_written [OF assms(2)] dap_ids)
    then have s': "response_buf s' = ?buf" "world s' = world s" "n = length ?str + 2"
      by (simp_all add: s'_def n_def result_def
          exec_state_def [of "dap_execute_vendor_cmd Z B req"])
    have st: "vendor_status B (world s) (hd req) = [hd req, of_nat (length ?str)] @ str_bytes ?str"
        "vendor_effect Z (hd req) (world s) = world s"
      using version by (simp_all add: vendor_status_def vendor_effect_def dap_ids)
    show ?thesis
      unfolding s' st version_reply [OF assms(2) version(2)]
      by (simp add: version_written [OF assms(2)])
  next
    case long
    let ?buf = "blit (blit (response_buf s) 2 (snprintf_bytes VERSION_STRING_LEN ?str)) 0
      [hd req, DAP_COMMAND_FAILED]"
    have "run_state (dap_execute_vendor_cmd Z B req) s =
        (2, (exec_state (set_dap_led_state LED_STATE_BLINK) s)\<lparr>response_buf := ?buf\<rparr>)"
      using long by (simp add: dap_execute_vendor_cmd_def Let_def set_dap_led_run
          version_written [OF assms(2)] dap_ids)
    then have s': "response_buf s' = ?buf" "world s' = world s" "n = 2"
      by (simp_all add: s'_def n_def result_def
          exec_state_def [of "dap_execute_vendor_cmd Z B req"])
    have st: "vendor_status B (world s) (hd req) = [hd req, DAP_COMMAND_FAILED]"
        "vendor_effect Z (hd req) (world s) = world s"
      using long by (simp_all add: vendor_status_def vendor_effect_def dap_ids)
    show ?thesis
      unfolding s' st by (simp add: version_written [OF assms(2)] drop_blit)
  qed
  then show ?take ?len ?world ?drop ?length by blast+
qed

text \<open>
  C27: Every vendor command is answered inside its 64-byte packet: the response begins with the
  command, then the status or, for the version, its length and text; nothing of the response
  buffer beyond the packet is touched; and only the three reset commands have an effect, which is
  to ask for their work item.
\<close>

theorem vendor_command_reply:
  assumes "ID_DAP_VENDOR0 \<le> hd req" "length (response_buf s) = 512"
  shows "take (result (dap_execute_vendor_cmd Z B req) s)
        (response_buf (exec_state (dap_execute_vendor_cmd Z B req) s))
      = vendor_status B (world s) (hd req) \<and>
    result (dap_execute_vendor_cmd Z B req) s = length (vendor_status B (world s) (hd req)) \<and>
    result (dap_execute_vendor_cmd Z B req) s \<in> {2..63} \<and>
    drop 64 (response_buf (exec_state (dap_execute_vendor_cmd Z B req) s)) = drop 64 (response_buf s) \<and>
    world (exec_state (dap_execute_vendor_cmd Z B req) s) = vendor_effect Z (hd req) (world s)"
proof -
  have "length (vendor_status B (world s) (hd req)) \<in> {2..63}"
    by (simp add: vendor_status_def)
  then show ?thesis
    using vendor_cmd_run [OF assms, of Z B] by metis
qed

text \<open>Packet size at the current bus speed, and the allocation that enabling makes.\<close>

definition packet_size :: "('b, 'c, 'w) dap_api \<Rightarrow> 'w \<Rightarrow> nat" where
  "packet_size B w = (if usbd_bus_speed_hs B w then 512 else 64)"

definition enable_alloc :: "('b, 'c, 'w) dap_api \<Rightarrow> ('w, 'c) dap \<Rightarrow> 'b option \<times> 'w" where
  "enable_alloc B s =
     (let w = dap_link_set_pkt_size B (dap_link_ctx s) (packet_size B (world s)) (world s)
      in net_buf_alloc_with_data B (packet_size B w) w)"

lemma run_enable:
  "run_state (dap_func_enable B) s =
    (if dap_enabled s then ((), s)
     else let (buf, w) = enable_alloc B s;
              ep = dap_func_get_bulk_out B
                (dap_link_set_pkt_size B (dap_link_ctx s) (packet_size B (world s)) (world s))
       in case buf of
         None \<Rightarrow> ((), s\<lparr>dap_enabled := True, world := w, null_buf_reset := True\<rparr>)
       | Some b \<Rightarrow> run_state (enqueue_or_free B (buf_info_clear_set_ep B ep (net_buf_reset B b)))
           (s\<lparr>dap_enabled := True, world := w\<rparr>))"
  by (simp add: dap_func_enable_def dap_func_buf_alloc_def enable_alloc_def packet_size_def Let_def
      case_prod_unfold split: option.split)

subsection \<open>Who owns the transfer buffer\<close>

text \<open>
  \<open>handed w\<close> counts how often a buffer was handed over: to the stack by an accepted enqueue, or
  back to the pool. Nothing else the class calls hands a buffer over.
\<close>

definition buffer_ledger :: "'w zephyr \<Rightarrow> ('b, 'c, 'w) dap_api \<Rightarrow> ('w \<Rightarrow> nat) \<Rightarrow> bool" where
  "buffer_ledger Z B handed \<longleftrightarrow>
     (\<forall>b w. handed (snd (usbd_ep_enqueue B b w))
        = handed w + (if fst (usbd_ep_enqueue B b w) = 0 then 1 else 0)) \<and>
     (\<forall>b w. handed (usbd_ep_buf_free B b w) = Suc (handed w)) \<and>
     (\<forall>n w. handed (snd (net_buf_alloc_with_data B n w)) = handed w) \<and>
     (\<forall>c n w. handed (dap_link_set_pkt_size B c n w) = handed w) \<and>
     (\<forall>c i r w. handed (snd (dap_link_execute_cmd B c i r w)) = handed w) \<and>
     (\<forall>k n w. handed (k_work_reschedule Z k n w) = handed w)"

lemma handed_enqueue_or_free:
  "buffer_ledger Z B handed \<Longrightarrow>
    handed (world (exec_state (enqueue_or_free B b) s)) = Suc (handed (world s))"
  by (simp add: buffer_ledger_def enqueue_or_free_def exec_state_def)

lemma handed_execute:
  assumes "buffer_ledger Z B handed"
  shows "handed (world (exec_state (dap_execute_vendor_cmd Z B req) s)) = handed (world s)"
proof -
  have w: "handed (work_requested Z k v) = handed v" for k v
    using assms by (simp add: buffer_ledger_def work_requested_def)
  have l: "world (snd (run_state (set_dap_led_state m) s)) = world s" for m
    using led_setter_dap(1) [of m s] by (simp add: exec_state_def)
  show ?thesis
    using assms unfolding dap_execute_vendor_cmd_def exec_state_def Let_def
    by (simp add: case_prod_unfold w l buffer_ledger_def)
qed

text \<open>
  C20: The transfer buffer is never lost and never used twice: each callback of a transfer hands
  it over exactly once, on every path (disabled, failed transfer, refused enqueue), and enabling
  the function hands over a buffer exactly when it was disabled and the pool gave one.
\<close>

theorem dap_buffer_conserved:
  assumes "buffer_ledger Z B handed"
  shows "handed (world (exec_state (dap_func_request_handler Z B buf err) s)) = Suc (handed (world s)) \<and>
    handed (world (exec_state (dap_func_enable B) s)) = handed (world s) +
      (if \<not> dap_enabled s \<and> fst (enable_alloc B s) \<noteq> None then 1 else 0)"
proof
  note h = handed_enqueue_or_free [OF assms, unfolded exec_state_def]
    handed_execute [OF assms, unfolded exec_state_def]
  have free: "handed (usbd_ep_buf_free B b w) = Suc (handed w)"
      "handed (dap_link_set_pkt_size B c n w) = handed w"
      "handed (snd (net_buf_alloc_with_data B n w)) = handed w" for b w c n
    using assms by (simp_all add: buffer_ledger_def)
  show "handed (world (exec_state (dap_func_request_handler Z B buf err) s)) = Suc (handed (world s))"
    unfolding exec_state_def dap_func_request_handler_def Let_def
    by (simp add: case_prod_unfold h free)
  show "handed (world (exec_state (dap_func_enable B) s)) = handed (world s) +
      (if \<not> dap_enabled s \<and> fst (enable_alloc B s) \<noteq> None then 1 else 0)"
    unfolding exec_state_def run_enable
    by (simp add: case_prod_unfold Let_def h free enable_alloc_def split: option.split)
qed

lemma enqueue_or_free_frame:
  "dap_enabled (snd (run_state (enqueue_or_free B b) s)) = dap_enabled s"
  "null_buf_reset (snd (run_state (enqueue_or_free B b) s)) = null_buf_reset s"
  by (simp_all add: enqueue_or_free_def)

text \<open>The endpoints a descriptor list names.\<close>

definition endpoints :: "usb_desc list \<Rightarrow> usb_ep_descriptor list" where
  "endpoints ds = concat (map (\<lambda>d. case d of Ep_Desc ep \<Rightarrow> [ep] | _ \<Rightarrow> []) ds)"

text \<open>
  The life cycle of the function: enabling it twice is enabling it once, and while it is
  enabled the DAP link cannot be replaced; \<open>net_buf_reset\<close> is called on a null pointer exactly
  when the first enable finds the pool empty; once disabled, a transfer that comes back is freed,
  neither executed nor armed again; and the packet size given to the DAP link is the maximum
  packet size of the two endpoints in the descriptors of the current speed, which are the
  endpoints the function uses.
\<close>

theorem dap_lifecycle:
  "exec_state (dap_func_enable B) (exec_state (dap_func_enable B) s) = exec_state (dap_func_enable B) s \<and>
   run_state (dap_link_backend_usb_init c) (exec_state (dap_func_enable B) s)
     = (- EALREADY, exec_state (dap_func_enable B) s) \<and>
   null_buf_reset (exec_state (dap_func_enable B) s)
     = (null_buf_reset s \<or> \<not> dap_enabled s \<and> fst (enable_alloc B s) = None) \<and>
   exec_state (dap_func_request_handler Z B buf err) (exec_state dap_func_disable s)
     = (exec_state dap_func_disable s)\<lparr>world := usbd_ep_buf_free B buf (world s)\<rparr> \<and>
   map (\<lambda>ep. (bEndpointAddress ep, wMaxPacketSize ep)) (endpoints (dap_func_get_desc (usbd_bus_speed_hs B (world s))))
     = [(dap_func_get_bulk_out B (world s), packet_size B (world s)),
        (dap_func_get_bulk_in B (world s), packet_size B (world s))]"
proof (intro conjI)
  have en: "dap_enabled (exec_state (dap_func_enable B) s)"
    unfolding exec_state_def run_enable
    by (simp add: case_prod_unfold Let_def enqueue_or_free_frame split: option.split)
  then show "exec_state (dap_func_enable B) (exec_state (dap_func_enable B) s)
      = exec_state (dap_func_enable B) s"
    by (subst exec_state_def) (simp add: run_enable)
  from en show "run_state (dap_link_backend_usb_init c) (exec_state (dap_func_enable B) s)
      = (- EALREADY, exec_state (dap_func_enable B) s)"
    by (simp add: dap_link_backend_usb_init_def)
  show "null_buf_reset (exec_state (dap_func_enable B) s)
      = (null_buf_reset s \<or> \<not> dap_enabled s \<and> fst (enable_alloc B s) = None)"
    unfolding exec_state_def run_enable
    by (simp add: case_prod_unfold Let_def enqueue_or_free_frame split: option.split)
qed (simp_all add: exec_state_def dap_func_request_handler_def dap_func_disable_def
    dap_func_get_desc_def packet_size_def dap_func_get_bulk_out_def dap_func_get_bulk_in_def
    dap_func_desc_0_def endpoints_def)

subsection \<open>A concrete USB stack\<close>

text \<open>
  A buffer is its endpoint and contents; the stack accepts every buffer and logs what it is
  given, the pool is never empty.
\<close>

definition usb_api :: "(8 word \<times> 8 word list, unit, bench) dap_api" where
  "usb_api = \<lparr>
     net_buf_data = snd, net_buf_reset = (\<lambda>b. (fst b, [])),
     net_buf_tailroom = (\<lambda>b. 512 - length (snd b)),
     net_buf_add_mem = (\<lambda>bs b. (fst b, snd b @ bs)), buf_info_ep = fst,
     buf_info_clear_set_ep = (\<lambda>e b. (e, snd b)), usbd_bus_speed_hs = (\<lambda>_. False),
     usbd_ep_enqueue = (\<lambda>b w. (0, bench_ev (Ev_Usb (fst b) (snd b)) w)),
     usbd_ep_buf_free = (\<lambda>_. bench_ev Ev_Free),
     net_buf_alloc_with_data = (\<lambda>n w. (Some (0, []), w)),
     usbd_add_descriptor = (\<lambda>w. (0, w)), usbd_str_desc_get_idx = (\<lambda>w. 4),
     dap_link_execute_cmd = (\<lambda>c i out w. ((2, out), w)),
     dap_link_set_pkt_size = (\<lambda>c n w. w), timer2_cc0 = (\<lambda>w. 0x010203), app_version = ''1.0-gabc''\<rparr>"

definition usb_handed :: "bench \<Rightarrow> nat" where
  "usb_handed w = length (filter (\<lambda>e. case e of Ev_Usb _ _ \<Rightarrow> True | Ev_Free \<Rightarrow> True | _ \<Rightarrow> False) (bench_log w))"

definition usb_state :: "(bench, unit) dap" where
  "usb_state = \<lparr>world = bench0, leds = leds_init, viosel = -1, scb_scr = 0, gpregret = 0,
     run_mode = Running, response_buf = replicate 512 0, dap_enabled = True, dap_link_ctx = None,
     iInterface = 0, null_buf_reset = False\<rparr>"

lemma usb_ledger: "buffer_ledger bench_zephyr usb_api usb_handed"
  by (simp add: buffer_ledger_def usb_api_def usb_handed_def bench_ev_def bench_zephyr_def)

lemma vendor_command_reply_witness:
  "take (result (dap_execute_vendor_cmd bench_zephyr usb_api [0x94, 7]) usb_state)
      (response_buf (exec_state (dap_execute_vendor_cmd bench_zephyr usb_api [0x94, 7]) usb_state))
    = [0x94, 0]"
proof -
  have st: "vendor_status usb_api (world usb_state) (hd [0x94, 7]) = [0x94, 0]"
    by (simp add: vendor_status_def dap_ids)
  have "ID_DAP_VENDOR0 \<le> hd [0x94, 7]" "length (response_buf usb_state) = 512"
    by (simp_all add: usb_state_def dap_ids)
  from vendor_command_reply [OF this, of bench_zephyr usb_api] show ?thesis
    unfolding st by (rule conjunct1)
qed

lemma dap_buffer_conserved_witness:
  "usb_handed (world (exec_state (dap_func_request_handler bench_zephyr usb_api (1, [0x94]) 0) usb_state)) = 1"
  using dap_buffer_conserved [OF usb_ledger, of "(1, [0x94])" 0 usb_state]
  by (simp add: usb_state_def usb_handed_def bench0_def)

end
