(* ===== verification/Ifmcu_Main.thy ===== *)
theory Ifmcu_Main
  imports Ifmcu_Shell Ifmcu_Uart Ifmcu_Dap
begin

section \<open>The application of the Interface MCU (\<open>main.c\<close>)\<close>

text \<open>
  \<open>main\<close> brings up the debug link and the USB device; the USB message callback follows the cable.
  The entry points of the other components it calls are parameters here where their state is a
  different record: the bring-up of the USB backend is \<open>dap_link_backend_usb_init\<close> of
  \<open>Ifmcu_Dap\<close>, the line settings go to \<open>uart_bridge_settings_update\<close> of \<open>Ifmcu_Uart\<close>.
\<close>

datatype usbd_msg_type =
    USBD_MSG_VBUS_READY
  | USBD_MSG_VBUS_REMOVED
  | USBD_MSG_RESUME
  | USBD_MSG_SUSPEND
  | USBD_MSG_RESET
  | USBD_MSG_UDC_ERROR
  | USBD_MSG_STACK_ERROR
  | USBD_MSG_CONFIGURATION
  | USBD_MSG_CDC_ACM_LINE_CODING
  | USBD_MSG_CDC_ACM_CONTROL_LINE_STATE
  | USBD_MSG_OTHER

record 'w usbd_api =
  usbd_enable :: "'w \<Rightarrow> int \<times> 'w"
  usbd_disable :: "'w \<Rightarrow> int \<times> 'w"
  usbd_init :: "'w \<Rightarrow> int \<times> 'w"
  usbd_add_bos :: "'w \<Rightarrow> int \<times> 'w"
  sample_usbd_setup_device :: "'w \<Rightarrow> bool \<times> 'w"
  dap_link_init :: "'w \<Rightarrow> int \<times> 'w"
  vbus_detected :: "'w \<Rightarrow> bool"

definition ifmcu_usbd_msg_cb :: "'w zephyr \<Rightarrow> 'w usbd_api \<Rightarrow> ('d, 'cfg, 'w) uart_api \<Rightarrow>
    'd bridge_config \<Rightarrow> usbd_msg_type \<Rightarrow> 'd \<Rightarrow> ('w, 'z, unit) ifmcu_prog" where
  "ifmcu_usbd_msg_cb Z D U cfg msg dev =
     (case msg of
        USBD_MSG_VBUS_READY \<Rightarrow> do {
          _ \<leftarrow> call (usbd_enable D);
          return ()
        }
      | USBD_MSG_VBUS_REMOVED \<Rightarrow> do {
          _ \<leftarrow> call (usbd_disable D);
          ifmcu_system_off Z
        }
      | USBD_MSG_CDC_ACM_LINE_CODING \<Rightarrow> uart_bridge_settings_update U dev cfg
      | USBD_MSG_CDC_ACM_CONTROL_LINE_STATE \<Rightarrow> uart_bridge_settings_update U dev cfg
      | _ \<Rightarrow> return ())"

text \<open>
  \<open>main\<close> over the state of the USB function; \<open>ifmcu_system_off\<close> does not return, so nothing after
  it runs.
\<close>

definition ifmcu_main :: "'w zephyr \<Rightarrow> 'w usbd_api \<Rightarrow> 'c \<Rightarrow> (('w, 'c) dap, int) prog" where
  "ifmcu_main Z D ifmcu_dap_ctx = do {
     ret \<leftarrow> call (dap_link_init D);
     if ret \<noteq> 0 then return ret
     else do {
       ret \<leftarrow> dap_link_backend_usb_init (Some ifmcu_dap_ctx);
       if ret \<noteq> 0 then return ret
       else do {
         ok \<leftarrow> call (sample_usbd_setup_device D);
         if \<not> ok then return (- ENODEV)
         else do {
           ret \<leftarrow> call (usbd_add_bos D);
           if ret \<noteq> 0 then return ret
           else do {
             ret \<leftarrow> call (usbd_init D);
             if ret \<noteq> 0 then return ret
             else do {
               vbus \<leftarrow> ask (vbus_detected D);
               if \<not> vbus then do {
                 ifmcu_system_off Z;
                 return 0
               } else do {
                 ret \<leftarrow> call (usbd_enable D);
                 if ret \<noteq> 0 then return ret else return 0
               }
             }
           }
         }
       }
     }
   }"

subsection \<open>The whole application as one machine\<close>

text \<open>
  Everything that can happen to the firmware between two resets, as events: shell commands with
  any words, records handed to the settings handler, expiries and work items, the button, USB
  messages. Once the chip is off or rebooting nothing runs any more.
\<close>

datatype shell_command =
    Bootloader | Cfgsync | Charger_Chgdis | Charger_Sysreg | Charger_Ichg | Charger_Vbatreg
  | Charger_Ilim | Charger_Status | Reset | Shutdown | Simdet | Temp | Version | Viosel

datatype ('w, 'd) ifmcu_event =
    Shell shell_command "string list"
  | Record string nat "'w settings_read_cb"
  | Led_Timer
  | Work ifmcu_work
  | Button "32 word" "32 word"
  | Usb usbd_msg_type 'd

definition run_command :: "'w zephyr \<Rightarrow> shell_command \<Rightarrow> string list \<Rightarrow> ('w ifmcu_shell, int) prog" where
  "run_command Z c argv = (case c of
     Bootloader \<Rightarrow> cmd_bootloader Z argv
   | Cfgsync \<Rightarrow> cmd_cfgsync Z argv
   | Charger_Chgdis \<Rightarrow> cmd_charger_chgdis Z argv
   | Charger_Sysreg \<Rightarrow> cmd_charger_sysreg Z argv
   | Charger_Ichg \<Rightarrow> cmd_charger_ichg Z argv
   | Charger_Vbatreg \<Rightarrow> cmd_charger_vbatreg Z argv
   | Charger_Ilim \<Rightarrow> cmd_charger_ilim Z argv
   | Charger_Status \<Rightarrow> cmd_charger_status Z argv
   | Reset \<Rightarrow> cmd_reset Z argv
   | Shutdown \<Rightarrow> cmd_shutdown Z argv
   | Simdet \<Rightarrow> cmd_simdet Z argv
   | Temp \<Rightarrow> cmd_temp Z ''die_temp'' argv
   | Version \<Rightarrow> cmd_version [] [] argv
   | Viosel \<Rightarrow> cmd_viosel Z argv)"

definition run_work :: "'w zephyr \<Rightarrow> ifmcu_work \<Rightarrow> ('w, 'z, unit) ifmcu_prog" where
  "run_work Z k = (case k of
     Charging_Dwork \<Rightarrow> charging_dwork_handler Z
   | Nrf91_Reset_Work \<Rightarrow> nrf91_reset_work_handler Z
   | Ifmcu_Reset_Work \<Rightarrow> ifmcu_reset_work_handler
   | Ifmcu_Bootloader_Work \<Rightarrow> ifmcu_bootloader_work_handler)"

definition ifmcu_step :: "'w zephyr \<Rightarrow> 'w usbd_api \<Rightarrow> ('d, 'cfg, 'w) uart_api \<Rightarrow> 'd bridge_config \<Rightarrow>
    'w ifmcu_shell \<Rightarrow> ('w, 'd) ifmcu_event \<Rightarrow> 'w ifmcu_shell" where
  "ifmcu_step Z D U cfg s e =
     (if run_mode s \<noteq> Running then s
      else case e of
        Shell c argv \<Rightarrow> exec_state (run_command Z c argv) s
      | Record k n cb \<Rightarrow> exec_state (settings_set Z k n cb) s
      | Led_Timer \<Rightarrow> exec_state (led_state_timer_expiry_fn Z) s
      | Work k \<Rightarrow> exec_state (run_work Z k) s
      | Button st ch \<Rightarrow> exec_state (button_handler Z st ch) s
      | Usb m d \<Rightarrow> exec_state (ifmcu_usbd_msg_cb Z D U cfg m d) s)"

definition core :: "('w, 'z) ifmcu_scheme \<Rightarrow> int \<times> 32 word \<times> run_mode" where
  "core s = (viosel s, gpregret s, run_mode s)"

lemma core_update [simp]:
  "core (s\<lparr>world := w\<rparr>) = core s" "core (s\<lparr>leds := l\<rparr>) = core s" "core (t\<lparr>shell_out := out\<rparr>) = core t"
  by (simp_all add: core_def)

lemma keeps_emit [keeps_intros]: "(\<And>s out. f (s\<lparr>shell_out := out\<rparr>) = f s) \<Longrightarrow> keeps f (emit x)"
  unfolding emit_def by (rule keeps_modify)

lemma keeps_request_work [keeps_intros]:
  "(\<And>s w. f (s\<lparr>world := w\<rparr>) = f s) \<Longrightarrow> keeps f (request_work Z k)"
  unfolding request_work_def by (intro keeps_intros)

lemma keeps_core_leds [keeps_intros]:
  "keeps core (set_pgood_led_state m)" "keeps core (set_charger_led_state m)"
  "keeps core (led_state_timer_expiry_fn Z)"
  by (simp_all add: keeps_def core_def led_setter_defs) (simp_all add: exec_state_def)

lemma keeps_core_charger [keeps_intros]:
  "keeps core (bq25180_chgdis_get Z)" "keeps core (bq25180_sysreg_get Z)" "keeps core (bq25180_ichg_get Z)"
  "keeps core (bq25180_vbatreg_get Z)" "keeps core (bq25180_ilim_get Z)" "keeps core (bq25180_status Z)"
  "keeps core (bq25180_chgdis_set Z b)" "keeps core (bq25180_sysreg_set Z b)" "keeps core (bq25180_ichg_set Z v)"
  "keeps core (bq25180_vbatreg_set Z v)" "keeps core (bq25180_ilim_set Z b)"
  unfolding charger_setter_defs charger_getter_defs bq25180_status_def
  by (intro keeps_intros core_update)+

lemma keeps_core_commands [keeps_intros]:
  "keeps core (cmd_bootloader Z argv)" "keeps core (cmd_cfgsync Z argv)"
  "keeps core (cmd_charger_chgdis Z argv)" "keeps core (cmd_charger_sysreg Z argv)"
  "keeps core (cmd_charger_ichg Z argv)" "keeps core (cmd_charger_vbatreg Z argv)"
  "keeps core (cmd_charger_ilim Z argv)" "keeps core (cmd_charger_status Z argv)"
  "keeps core (cmd_reset Z argv)" "keeps core (cmd_simdet Z argv)" "keeps core (cmd_temp Z nm argv)"
  "keeps core (cmd_version i f argv)"
  unfolding cmd_bootloader_def cmd_cfgsync_def cmd_charger_chgdis_def cmd_charger_sysreg_def
    cmd_charger_ichg_def cmd_charger_vbatreg_def cmd_charger_ilim_def cmd_charger_status_def
    cmd_reset_def cmd_simdet_def cmd_temp_def cmd_version_def get_or_set_def store_setting_def viosel_get_def
  by (intro keeps_intros core_update)+

lemma keeps_core_handlers [keeps_intros]:
  "keeps core (nrf91_reset_work_handler Z)" "keeps core (button_handler Z st ch)"
  "keeps core (uart_bridge_settings_update U d cfg)"
  unfolding nrf91_reset_work_handler_def button_handler_def uart_bridge_settings_update_def
  by (intro keeps_intros core_update)+

text \<open>What holds of the application in every state.\<close>

definition app_inv :: "('w, 'z) ifmcu_scheme \<Rightarrow> bool" where
  "app_inv s \<longleftrightarrow> viosel s \<in> VIO_VALUES \<and>
     gpregret s = (if run_mode s = Rebooting SYS_REBOOT_COLD then 0x57 else 0) \<and>
     (run_mode s = System_Off \<longrightarrow> powered_down s)"

lemma app_inv_keeps:
  assumes "keeps core p" "app_inv s" "run_mode s = Running"
  shows "app_inv (exec_state p s)"
  using keepsD [OF assms(1), of s] assms(2,3) by (auto simp: core_def app_inv_def)

lemma app_inv_off: "app_inv s \<Longrightarrow> run_mode s = Running \<Longrightarrow> app_inv (exec_state (ifmcu_system_off Z) s)"
  by (simp add: app_inv_def)

lemma app_inv_load:
  assumes "app_inv s" "run_mode s = Running"
  shows "app_inv (exec_state (settings_set Z k n cb) s)"
proof (cases "k = VIOSEL_STORAGE_NAME")
  case False
  then have "keeps core (settings_set Z k n cb :: (('a, 'b) ifmcu_scheme, int) prog)"
    unfolding settings_set_def load_setting_def if_not_P [OF False]
    by (intro keeps_intros core_update)
  then show ?thesis
    by (rule app_inv_keeps) fact+
next
  case True
  have "core (exec_state (settings_set Z k n cb) s) = core s \<or>
      (\<exists>x\<in>VIO_VALUES. core (exec_state (settings_set Z k n cb) s) = (x, gpregret s, run_mode s))"
    unfolding settings_set_def True load_setting_def viosel_get_def viosel_set_def exec_state_def
    by (auto simp: core_def VIO_VALUES_def case_prod_unfold)
  then show ?thesis
    using assms by (auto simp: core_def app_inv_def)
qed

lemma app_inv_cmd_viosel:
  assumes "app_inv s" "run_mode s = Running"
  shows "app_inv (exec_state (cmd_viosel Z argv) s)"
proof -
  have "core (exec_state (cmd_viosel Z argv) s) = core s \<or>
      (\<exists>x\<in>VIO_VALUES. core (exec_state (cmd_viosel Z argv) s) = (x, gpregret s, run_mode s))"
    unfolding cmd_viosel_def exec_state_def emit_def
    by (auto simp: core_def VIO_VALUES_def case_prod_unfold split: option.split)
  then show ?thesis
    using assms by (auto simp: core_def app_inv_def)
qed

lemma app_inv_poll:
  "app_inv s \<Longrightarrow> run_mode s = Running \<Longrightarrow> app_inv (exec_state (charging_dwork_handler Z) s)"
proof -
  assume s: "app_inv s" "run_mode s = Running"
  obtain rc1 online w1 rc2 status w2 where
    r: "charger_get_prop Z CHARGER_PROP_ONLINE (world s) = ((rc1, online), w1)"
      "charger_get_prop Z CHARGER_PROP_STATUS w1 = ((rc2, status), w2)"
    by (metis prod.collapse)
  have w: "app_inv (s\<lparr>world := w\<rparr>)" for w
    using s by (simp add: app_inv_def)
  have "exec_state (charging_dwork_handler Z) s = exec_state (ifmcu_system_off Z) (s\<lparr>world := w2\<rparr>) \<or>
      core (exec_state (charging_dwork_handler Z) s) = core s"
    by (simp add: charging_dwork_handler_def exec_state_def r Let_def led_setter_defs core_def)
  then show ?thesis
    using w s app_inv_off [OF w [of w2]] by (auto simp: core_def app_inv_def)
qed

lemma app_inv_usb:
  fixes s :: "('w, 'z) ifmcu_scheme"
  assumes "app_inv s" "run_mode s = Running"
  shows "app_inv (exec_state (ifmcu_usbd_msg_cb Z D U cfg m d) s)"
proof (cases "m = USBD_MSG_VBUS_REMOVED")
  case True
  have "app_inv (s\<lparr>world := w\<rparr>)" for w
    using assms by (simp add: app_inv_def)
  note off = app_inv_off [OF this]
  have "exec_state (ifmcu_usbd_msg_cb Z D U cfg m d) s
      = exec_state (ifmcu_system_off Z) (s\<lparr>world := snd (usbd_disable D (world s))\<rparr>)"
    using True by (simp add: ifmcu_usbd_msg_cb_def exec_state_def)
  then show ?thesis
    using off assms(2) by simp
next
  case False
  then have "keeps core (ifmcu_usbd_msg_cb Z D U cfg m d :: (('w, 'z) ifmcu_scheme, unit) prog)"
    unfolding ifmcu_usbd_msg_cb_def
    by (cases m) (auto intro!: keeps_intros)
  then show ?thesis
    by (rule app_inv_keeps) fact+
qed

lemma app_inv_work:
  assumes "app_inv s" "run_mode s = Running"
  shows "app_inv (exec_state (run_work Z k) s)"
  using assms app_inv_poll [OF assms] app_inv_keeps [OF keeps_core_handlers(1) assms]
  by (cases k) (simp_all add: run_work_def, simp_all add: app_inv_def exec_state_def
      ifmcu_reset_work_handler_def ifmcu_bootloader_work_handler_def)

lemma app_inv_command:
  assumes "app_inv s" "run_mode s = Running"
  shows "app_inv (exec_state (run_command Z c argv) s)"
proof (cases "c = Shutdown \<or> c = Viosel")
  case True
  then show ?thesis
    using app_inv_off [OF assms] app_inv_cmd_viosel [OF assms]
    by (auto simp: run_command_def cmd_shutdown_def exec_state_def case_prod_unfold)
next
  case False
  then have "keeps core (run_command Z c argv)"
    unfolding run_command_def by (cases c) (auto intro!: keeps_intros)
  then show ?thesis
    by (rule app_inv_keeps) fact+
qed

interpretation app_machine: machine "ifmcu_step Z D U cfg" app_inv
  for Z :: "'w zephyr" and D and U :: "('d, 'cfg, 'w) uart_api" and cfg
proof
  fix s :: "'w ifmcu_shell" and e :: "('w, 'd) ifmcu_event"
  assume inv: "app_inv s"
  show "app_inv (ifmcu_step Z D U cfg s e)"
  proof (cases "run_mode s = Running")
    case True
    note keep = app_inv_keeps [OF keeps_core_leds(3) inv True]
      app_inv_keeps [OF keeps_core_handlers(2) inv True]
    show ?thesis
      by (simp add: ifmcu_step_def True keep app_inv_command [OF inv True] app_inv_load [OF inv True]
          app_inv_work [OF inv True] app_inv_usb [OF inv True] split: ifmcu_event.split)
  next
    case False
    with inv show ?thesis by (simp add: ifmcu_step_def)
  qed
qed

lemma halted_stays:
  "run_mode s \<noteq> Running \<Longrightarrow> foldl (ifmcu_step Z D U cfg) s es = s"
  by (induction es) (simp_all add: ifmcu_step_def)

definition ifmcu_shell_state :: "'w \<Rightarrow> 32 word \<Rightarrow> 'w ifmcu_shell" where
  "ifmcu_shell_state w scr = ifmcu.extend (ifmcu_init w scr) \<lparr>shell_out = []\<rparr>"

text \<open>
  C10: Whatever happens to the running application, in any order (commands with any words, any
  stored records, work items, the button, USB messages): VIO stays one of unset, 3.3 V and 1.8 V;
  the retained register asks for the bootloader exactly when the chip reboots cold; an off chip has
  its LEDs disarmed and SEVONPEND clear; and once off or rebooting, nothing changes any more.
\<close>

theorem ifmcu_app_safe:
  "app_inv (foldl (ifmcu_step Z D U cfg) (ifmcu_shell_state w scr) es) \<and>
   foldl (ifmcu_step Z D U cfg) (ifmcu_shell_state w scr) (es @ es')
     = (let s = foldl (ifmcu_step Z D U cfg) (ifmcu_shell_state w scr) es
        in if run_mode s = Running then foldl (ifmcu_step Z D U cfg) s es' else s)"
proof
  have "app_inv (ifmcu_shell_state w scr)"
    by (simp add: app_inv_def ifmcu_shell_state_def ifmcu_init_def ifmcu.defs VIO_VALUES_def)
  then show "app_inv (foldl (ifmcu_step Z D U cfg) (ifmcu_shell_state w scr) es)"
    by (rule app_machine.run_inv)
qed (simp add: Let_def halted_stays)

end
