(* ===== verification/Mosh_Print.thy ===== *)
theory Mosh_Print
  imports C_Lib
begin

section \<open>Printing of the modem shell (\<open>mosh_print.c\<close>, \<open>print_shell.c\<close>)\<close>

text \<open>
  Every component of the modem shell prints through \<open>mosh_print\<close>, \<open>mosh_warn\<close> and \<open>mosh_error\<close>:
  nothing while AT command mode owns the terminal, else one line, preceded by a time stamp and
  copied to the cloud when that was asked for. The state record is the base of the records of all
  modem shell components: \<open>console\<close> is what the shell and \<open>printk\<close> were given, \<open>cloud_out\<close> what was
  streamed to the cloud, \<open>aborted\<close> whether an assertion failed, which stops the system. The clock and the formatter of Zephyr are the parameter \<open>P\<close>.
\<close>

record 'w mosh = "'w env" +
  at_cmd_mode_dont_print :: bool
  mosh_print_timestamp_use :: bool
  mosh_print_cloud_echo :: bool
  console :: "out list"
  cloud_out :: "string list"
  aborted :: bool

type_synonym ('w, 'z, 'a) mosh_prog = "(('w, 'z) mosh_scheme, 'a) prog"

datatype mosh_print_level = MOSH_PRINT_LEVEL_PRINT | MOSH_PRINT_LEVEL_WARN | MOSH_PRINT_LEVEL_ERROR

record tm =
  tm_sec :: "32 word"
  tm_min :: "32 word"
  tm_hour :: "32 word"
  tm_mday :: "32 word"
  tm_mon :: "32 word"
  tm_year :: "32 word"

text \<open>
  \<open>clock_utc\<close> is the real-time clock as \<open>gmtime_r\<close> breaks it down, with the nanoseconds.
  \<open>vsnprintfcb\<close> takes the size of the buffer, the format and the arguments, and gives what it
  returns and the string it leaves in the buffer.
\<close>

record 'w print_api =
  clock_utc :: "'w \<Rightarrow> tm \<times> int"
  vsnprintfcb :: "nat \<Rightarrow> string \<Rightarrow> parg list \<Rightarrow> int \<times> string"

definition MOSH_PRINT_BUFFER_SIZE :: nat where
  "MOSH_PRINT_BUFFER_SIZE = 1024"

definition TIMESTAMP_LEN :: nat where
  "TIMESTAMP_LEN = 30"

subsection \<open>Time stamps\<close>

definition pad :: "nat \<Rightarrow> string \<Rightarrow> string" where
  "pad n d = replicate (n - length d) (CHR ''0'') @ d"

text \<open>The conversion \<open>%0nd\<close>.\<close>

definition show_padded :: "nat \<Rightarrow> int \<Rightarrow> string" where
  "show_padded n i = (if i < 0 then CHR ''-'' # pad (n - 1) (show_nat (nat (- i))) else pad n (show_nat (nat i)))"

definition timestamp_text :: "tm \<Rightarrow> int \<Rightarrow> string" where
  "timestamp_text t nsec = ''['' @ show_padded 4 (sint (1900 + tm_year t)) @ ''-'' @
     show_padded 2 (sint (tm_mon t + 1)) @ ''-'' @ show_padded 2 (sint (tm_mday t)) @ '' '' @
     show_padded 2 (sint (tm_hour t)) @ '':'' @ show_padded 2 (sint (tm_min t)) @ '':'' @
     show_padded 2 (sint (tm_sec t)) @ ''.'' @ show_padded 3 (nsec div 1000000) @ ''] ''"

definition create_timestamp_string :: "('w, 'y) print_api_scheme \<Rightarrow> nat \<Rightarrow> ('w, 'z, string) mosh_prog" where
  "create_timestamp_string P timestamp_buf_len = do {
     (t, nsec) \<leftarrow> ask (clock_utc P);
     return (take (timestamp_buf_len - 1) (timestamp_text t nsec))
   }"

subsection \<open>Lines\<close>

definition to_console :: "out \<Rightarrow> ('w, 'z, unit) mosh_prog" where
  "to_console x = modify (\<lambda>s. s\<lparr>console := console s @ [x]\<rparr>)"

definition at_level :: "mosh_print_level \<Rightarrow> string \<Rightarrow> parg list \<Rightarrow> out" where
  "at_level l f args = (case l of
     MOSH_PRINT_LEVEL_PRINT \<Rightarrow> Print f args
   | MOSH_PRINT_LEVEL_WARN \<Rightarrow> Warn f args
   | MOSH_PRINT_LEVEL_ERROR \<Rightarrow> Error f args)"

definition mosh_fprintf_valist :: "('w, 'y) print_api_scheme \<Rightarrow> mosh_print_level \<Rightarrow> string \<Rightarrow> parg list \<Rightarrow>
    ('w, 'z, unit) mosh_prog" where
  "mosh_fprintf_valist P print_level fmt args = do {
     dont \<leftarrow> gets at_cmd_mode_dont_print;
     if dont then return ()
     else do {
       use \<leftarrow> gets mosh_print_timestamp_use;
       stamp \<leftarrow> (if use then create_timestamp_string P TIMESTAMP_LEN else return '''');
       let stamp = take (MOSH_PRINT_BUFFER_SIZE - 1) stamp;
       let (n, txt) = vsnprintfcb P (MOSH_PRINT_BUFFER_SIZE - length stamp) fmt args;
       let chars = int (length stamp) + n;
       (if chars \<ge> int MOSH_PRINT_BUFFER_SIZE
        then to_console (Error ''Cutting too long string while printing...'' [])
        else doif (chars < 0) (to_console (Error ''Error while printing...'' [])));
       to_console (at_level print_level ''%s'' [PStr (stamp @ txt)]);
       echo \<leftarrow> gets mosh_print_cloud_echo;
       doif echo (modify (\<lambda>s. s\<lparr>cloud_out := cloud_out s @ [stamp @ txt]\<rparr>))
     }
   }"

definition mosh_fprintf :: "('w, 'y) print_api_scheme \<Rightarrow> mosh_print_level \<Rightarrow> string \<Rightarrow> parg list \<Rightarrow>
    ('w, 'z, unit) mosh_prog" where
  "mosh_fprintf P print_level fmt args = mosh_fprintf_valist P print_level fmt args"

definition mosh_print :: "('w, 'y) print_api_scheme \<Rightarrow> string \<Rightarrow> parg list \<Rightarrow> ('w, 'z, unit) mosh_prog" where
  "mosh_print P fmt args = mosh_fprintf P MOSH_PRINT_LEVEL_PRINT fmt args"

definition mosh_warn :: "('w, 'y) print_api_scheme \<Rightarrow> string \<Rightarrow> parg list \<Rightarrow> ('w, 'z, unit) mosh_prog" where
  "mosh_warn P fmt args = mosh_fprintf P MOSH_PRINT_LEVEL_WARN fmt args"

definition mosh_error :: "('w, 'y) print_api_scheme \<Rightarrow> string \<Rightarrow> parg list \<Rightarrow> ('w, 'z, unit) mosh_prog" where
  "mosh_error P fmt args = mosh_fprintf P MOSH_PRINT_LEVEL_ERROR fmt args"

definition mosh_print_no_format :: "string \<Rightarrow> ('w, 'z, unit) mosh_prog" where
  "mosh_print_no_format usage = to_console (Print ''%s'' [PStr usage])"

text \<open>\<open>shell_help\<close> prints the help of the command.\<close>

definition shell_help :: "('w, 'z, unit) mosh_prog" where
  "shell_help = to_console (Print ''help'' [])"

definition mosh_print_help_shell :: "('w, 'y) print_api_scheme \<Rightarrow> string list \<Rightarrow> ('w, 'z, int) mosh_prog" where
  "mosh_print_help_shell P argv =
     (if length argv > 1 \<and> argv ! 1 \<noteq> ''-h'' \<and> argv ! 1 \<noteq> ''--help'' then do {
        mosh_error P ''%s: subcommand not found'' [PStr (argv ! 1)];
        shell_help;
        return (- EINVAL)
      } else do {
        shell_help;
        return 1
      })"

text \<open>A failed assertion: the system stops; what would have been returned is not used.\<close>

definition abort :: "'a \<Rightarrow> ('w, 'z, 'a) mosh_prog" where
  "abort x = do { modify (\<lambda>s. s\<lparr>aborted := True\<rparr>); return x }"

subsection \<open>The \<open>print\<close> command\<close>

definition cmd_timestamps_enable :: "('w, 'y) print_api_scheme \<Rightarrow> ('w, 'z, int) mosh_prog" where
  "cmd_timestamps_enable P = do {
     modify (\<lambda>s. s\<lparr>mosh_print_timestamp_use := True\<rparr>);
     mosh_print P ''Timestamps enabled'' [];
     return 0
   }"

definition cmd_timestamps_disable :: "('w, 'y) print_api_scheme \<Rightarrow> ('w, 'z, int) mosh_prog" where
  "cmd_timestamps_disable P = do {
     modify (\<lambda>s. s\<lparr>mosh_print_timestamp_use := False\<rparr>);
     mosh_print P ''Timestamps disabled'' [];
     return 0
   }"

definition cmd_cloud_echo_enable :: "('w, 'y) print_api_scheme \<Rightarrow> ('w, 'z, int) mosh_prog" where
  "cmd_cloud_echo_enable P = do {
     modify (\<lambda>s. s\<lparr>mosh_print_cloud_echo := True\<rparr>);
     mosh_print P ''Echoing shell prints to cloud enabled'' [];
     return 0
   }"

definition cmd_cloud_echo_disable :: "('w, 'y) print_api_scheme \<Rightarrow> ('w, 'z, int) mosh_prog" where
  "cmd_cloud_echo_disable P = do {
     modify (\<lambda>s. s\<lparr>mosh_print_cloud_echo := False\<rparr>);
     mosh_print P ''Echoing shell prints to cloud disabled'' [];
     return 0
   }"

subsection \<open>What printing leaves alone\<close>

lemma keeps_to_console [keeps_intros]:
  "(\<And>s c. f (s\<lparr>console := c\<rparr>) = f s) \<Longrightarrow> keeps f (to_console x)"
  by (simp add: to_console_def keeps_modify)

lemma keeps_fprintf [keeps_intros]:
  assumes "\<And>s c. f (s\<lparr>console := c\<rparr>) = f s" "\<And>s c. f (s\<lparr>cloud_out := c\<rparr>) = f s"
  shows "keeps f (mosh_fprintf P l fmt args)"
  unfolding mosh_fprintf_def mosh_fprintf_valist_def create_timestamp_string_def
  by (intro keeps_intros) (simp_all add: assms)

lemma keeps_mosh_print [keeps_intros]:
  assumes "\<And>s c. f (s\<lparr>console := c\<rparr>) = f s" "\<And>s c. f (s\<lparr>cloud_out := c\<rparr>) = f s"
  shows "keeps f (mosh_print P fmt args)" "keeps f (mosh_warn P fmt args)" "keeps f (mosh_error P fmt args)"
    "keeps f (mosh_print_no_format u)" "keeps f shell_help"
  using assms unfolding mosh_print_def mosh_warn_def mosh_error_def mosh_print_no_format_def shell_help_def
  by (intro keeps_fprintf keeps_to_console; simp)+

text \<open>
  The state apart from what was printed: every print keeps it, so an operation that prints is, for
  the rest of the state, the operation without its prints.
\<close>

definition silent :: "('w, 'z) mosh_scheme \<Rightarrow> ('w, 'z) mosh_scheme" where
  "silent s = s\<lparr>console := [], cloud_out := []\<rparr>"

lemma silent_simps [simp]:
  "silent (s\<lparr>console := c\<rparr>) = silent s" "silent (s\<lparr>cloud_out := d\<rparr>) = silent s"
  "silent (silent s) = silent s"
  "world (silent s) = world s" "at_cmd_mode_dont_print (silent s) = at_cmd_mode_dont_print s"
  "mosh_print_timestamp_use (silent s) = mosh_print_timestamp_use s"
  "mosh_print_cloud_echo (silent s) = mosh_print_cloud_echo s" "aborted (silent s) = aborted s"
  by (simp_all add: silent_def)

lemma silent_print [simp]:
  "silent (exec_state (mosh_print P fmt args) s) = silent s"
  "silent (exec_state (mosh_warn P fmt args) s) = silent s"
  "silent (exec_state (mosh_error P fmt args) s) = silent s"
  "silent (exec_state (mosh_print_no_format u) s) = silent s"
  "silent (exec_state shell_help s) = silent s"
  by (rule keepsD, rule keeps_mosh_print, simp_all)+

lemma silent_eq: "silent t = silent s \<Longrightarrow> \<exists>c d. t = s\<lparr>console := c, cloud_out := d\<rparr>"
proof -
  assume a: "silent t = silent s"
  have "t = (silent t)\<lparr>console := console t, cloud_out := cloud_out t\<rparr>"
    by (simp add: silent_def)
  also have "\<dots> = s\<lparr>console := console t, cloud_out := cloud_out t\<rparr>"
    by (simp add: a) (simp add: silent_def)
  finally show ?thesis by blast
qed

lemma print_run:
  "\<exists>c d. exec_state (mosh_print P fmt args) s = s\<lparr>console := c, cloud_out := d\<rparr>"
  "\<exists>c d. exec_state (mosh_warn P fmt args) s = s\<lparr>console := c, cloud_out := d\<rparr>"
  "\<exists>c d. exec_state (mosh_error P fmt args) s = s\<lparr>console := c, cloud_out := d\<rparr>"
  by (rule silent_eq, simp)+

lemma result_print [exec_simps]:
  "result (mosh_print P fmt args) s = ()" "result (mosh_warn P fmt args) s = ()"
  "result (mosh_error P fmt args) s = ()" "result (mosh_print_no_format u) s = ()"
  "result shell_help s = ()" "result (to_console x) s = ()"
  by simp_all

subsection \<open>What a line is\<close>

text \<open>
  The documented behaviour of \<open>vsnprintfcb\<close>: it returns the length of the formatted text and leaves
  the text in the buffer, cut to leave room for the NUL.
\<close>

definition formats :: "('w, 'y) print_api_scheme \<Rightarrow> (string \<Rightarrow> parg list \<Rightarrow> string) \<Rightarrow> bool" where
  "formats P fm \<longleftrightarrow> (\<forall>n f args. vsnprintfcb P n f args = (int (length (fm f args)), take (n - 1) (fm f args)))"

definition stamp_of :: "('w, 'y) print_api_scheme \<Rightarrow> ('w, 'z) mosh_scheme \<Rightarrow> string" where
  "stamp_of P s = (if mosh_print_timestamp_use s
     then take (TIMESTAMP_LEN - 1) (timestamp_text (fst (clock_utc P (world s))) (snd (clock_utc P (world s)))) else '''')"

lemma length_stamp: "length (stamp_of P s) \<le> 29"
  by (simp add: stamp_of_def TIMESTAMP_LEN_def)

lemma fprintf_run:
  assumes "formats P fm" "\<not> at_cmd_mode_dont_print s"
  shows "exec_state (mosh_fprintf P l f args) s =
    (let txt = stamp_of P s @ fm f args; shown = take (MOSH_PRINT_BUFFER_SIZE - 1) txt
     in s\<lparr>console := console s @ (if length txt < MOSH_PRINT_BUFFER_SIZE then []
           else [Error ''Cutting too long string while printing...'' []]) @ [at_level l ''%s'' [PStr shown]],
          cloud_out := cloud_out s @ (if mosh_print_cloud_echo s then [shown] else [])\<rparr>)"
proof -
  let ?t = "stamp_of P s"
  have t: "take (MOSH_PRINT_BUFFER_SIZE - 1) ?t = ?t"
    using length_stamp [of P s] by (simp add: MOSH_PRINT_BUFFER_SIZE_def)
  have stamp: "run_state (if mosh_print_timestamp_use s then create_timestamp_string P TIMESTAMP_LEN else return '''') s = (?t, s)"
    by (simp add: create_timestamp_string_def stamp_of_def case_prod_unfold)
  have cut: "?t @ take (MOSH_PRINT_BUFFER_SIZE - (length ?t + 1)) (fm f args) =
      take (MOSH_PRINT_BUFFER_SIZE - 1) (?t @ fm f args)"
    using t by simp
  have n: "(int MOSH_PRINT_BUFFER_SIZE \<le> int (length ?t) + int (length (fm f args))) =
      (\<not> length (?t @ fm f args) < MOSH_PRINT_BUFFER_SIZE)" "\<not> int (length ?t) + int (length (fm f args)) < 0"
    by auto
  have v: "vsnprintfcb P (MOSH_PRINT_BUFFER_SIZE - length ?t) f args =
      (int (length (fm f args)), take (MOSH_PRINT_BUFFER_SIZE - length ?t - 1) (fm f args))"
    using assms(1) by (simp add: formats_def)
  show ?thesis
    using assms(2)
    unfolding mosh_fprintf_def mosh_fprintf_valist_def exec_state_def run_bind run_gets fst_conv snd_conv
    by (simp add: stamp t v n cut to_console_def Let_def del: take_append One_nat_def length_take)
qed

lemma fprintf_silenced: "at_cmd_mode_dont_print s \<Longrightarrow> exec_state (mosh_fprintf P l f args) s = s"
  by (simp add: mosh_fprintf_def mosh_fprintf_valist_def exec_simps)

text \<open>
  Every print of the modem shell is one line or nothing: nothing at all while AT command mode
  owns the terminal; otherwise the time stamp (when enabled) and the formatted text, cut at 1023
  bytes with an error line before it exactly when something was lost; and the cloud is streamed
  the same bytes the shell shows, exactly when that is enabled.
\<close>

theorem mosh_print_line:
  assumes "formats P fm"
  shows "exec_state (mosh_fprintf P l f args) s =
    (if at_cmd_mode_dont_print s then s
     else let txt = stamp_of P s @ fm f args; shown = take (MOSH_PRINT_BUFFER_SIZE - 1) txt
     in s\<lparr>console := console s @ (if length txt < MOSH_PRINT_BUFFER_SIZE then []
           else [Error ''Cutting too long string while printing...'' []]) @ [at_level l ''%s'' [PStr shown]],
          cloud_out := cloud_out s @ (if mosh_print_cloud_echo s then [shown] else [])\<rparr>)"
proof (cases "at_cmd_mode_dont_print s")
  case True
  then show ?thesis unfolding if_P [OF True] by (rule fprintf_silenced)
next
  case False
  then show ?thesis unfolding if_not_P [OF False] by (rule fprintf_run [OF assms])
qed

definition plain_print :: "unit print_api" where
  "plain_print = \<lparr>clock_utc = (\<lambda>_. (\<lparr>tm_sec = 9, tm_min = 5, tm_hour = 8, tm_mday = 1, tm_mon = 1,
       tm_year = 126\<rparr>, 42000000)),
     vsnprintfcb = (\<lambda>n f _. (int (length f), take (n - 1) f))\<rparr>"

theorem mosh_print_line_witness:
  "console (exec_state (cmd_timestamps_enable plain_print)
      \<lparr>world = (), at_cmd_mode_dont_print = False, mosh_print_timestamp_use = False,
        mosh_print_cloud_echo = False, console = [], cloud_out = [], aborted = False\<rparr>)
    = [Print ''%s'' [PStr ''[2026-02-01 08:05:09.042] Timestamps enabled'']]"
proof -
  have "formats plain_print (\<lambda>f _. f)"
    by (simp add: formats_def plain_print_def)
  note line = mosh_print_line [OF this]
  have stamp: "stamp_of plain_print s = (if mosh_print_timestamp_use s then ''[2026-02-01 08:05:09.042] '' else '''')"
    for s :: "(unit, 'z) mosh_scheme"
    by (simp add: stamp_of_def plain_print_def timestamp_text_def show_padded_def pad_def TIMESTAMP_LEN_def
        show_nat.simps char_of_def bit_0)
  show ?thesis
    by (simp add: cmd_timestamps_enable_def mosh_print_def exec_simps line stamp at_level_def
        MOSH_PRINT_BUFFER_SIZE_def)
qed

end
