(* ===== verification/Mosh_Sett.thy ===== *)
theory Mosh_Sett
  imports Mosh_Print
begin

section \<open>Stored settings of the modem shell\<close>

text \<open>
  Several components keep variables in RAM and a copy in the settings storage: setters save one
  record, and at start the registered handler gets every stored record of its subtree. This theory
  has what they share: the settings API of Zephyr as a parameter, reading a record into a
  variable, the law of a reliable storage, and the locale in which the round trip through the
  storage is proved once.
\<close>

subsection \<open>The settings API\<close>

text \<open>A null pointer as the value deletes the record, which is \<open>None\<close>.\<close>

record 'w settings_api = "'w print_api" +
  settings_subsys_init :: "'w \<Rightarrow> int \<times> 'w"
  settings_register :: "string \<Rightarrow> 'w \<Rightarrow> int \<times> 'w"
  settings_save_one :: "string \<Rightarrow> 8 word list option \<Rightarrow> 'w \<Rightarrow> int \<times> 'w"

text \<open>The callback that reads up to \<open>n\<close> bytes of the record: what it returns and the bytes.\<close>

type_synonym 'w read_cb = "nat \<Rightarrow> 'w \<Rightarrow> (int \<times> 8 word list) \<times> 'w"

definition save_one :: "('w, 'y) settings_api_scheme \<Rightarrow> string \<Rightarrow> 8 word list \<Rightarrow> (('w, 'z) env_scheme, int) prog" where
  "save_one S key bytes = call (settings_save_one S key (Some bytes))"

text \<open>
  Reading a record into a variable of \<open>n\<close> bytes: \<open>put\<close> writes the bytes read over the start of the
  variable.
\<close>

definition read_var :: "('w, 'y) print_api_scheme \<Rightarrow> 'w read_cb \<Rightarrow> nat \<Rightarrow>
    (8 word list \<Rightarrow> ('w, 'z) mosh_scheme \<Rightarrow> ('w, 'z) mosh_scheme) \<Rightarrow> string \<Rightarrow> ('w, 'z, int) mosh_prog" where
  "read_var P read_cb n put msg = do {
     (err, bytes) \<leftarrow> call (read_cb n);
     modify (put (take n bytes));
     if err < 0 then do { mosh_error P msg [PInt err]; return err }
     else return 0
   }"

subsection \<open>Variables and their bytes\<close>

definition bool_bytes :: "bool \<Rightarrow> 8 word list" where
  "bool_bytes b = [if b then 1 else 0]"

definition put_bool :: "8 word list \<Rightarrow> bool \<Rightarrow> bool" where
  "put_bool bytes old = (case bytes of [] \<Rightarrow> old | b # _ \<Rightarrow> b \<noteq> 0)"

definition put_byte :: "8 word list \<Rightarrow> 8 word \<Rightarrow> 8 word" where
  "put_byte bytes old = (case bytes of [] \<Rightarrow> old | b # _ \<Rightarrow> b)"

definition put_int :: "8 word list \<Rightarrow> int \<Rightarrow> int" where
  "put_int bytes old = int_of_bytes (blit (int_bytes old) 0 (take 4 bytes))"

definition bytes_str :: "8 word list \<Rightarrow> string" where
  "bytes_str bs = map (\<lambda>b. char_of (unat b)) bs"

definition put_str :: "8 word list \<Rightarrow> string \<Rightarrow> string" where
  "put_str bytes old = blit old 0 (bytes_str bytes)"

text \<open>A C string with its NUL, as \<open>settings_save_one\<close> gets it.\<close>

definition cstr_bytes :: "string \<Rightarrow> 8 word list" where
  "cstr_bytes t = str_bytes (t @ [NUL])"

lemma length_cstr_bytes [simp]: "length (cstr_bytes t) = Suc (length t)"
  by (simp add: cstr_bytes_def)

lemma length_bool_bytes [simp]: "length (bool_bytes b) = Suc 0"
  by (simp add: bool_bytes_def)

lemma put_bool_bytes [simp]: "put_bool (bool_bytes b) old = b"
  by (simp add: put_bool_def bool_bytes_def)

lemma put_byte_single [simp]: "put_byte [b] old = b"
  by (simp add: put_byte_def)

lemma put_int_bytes [simp]: "- (2 ^ 31) \<le> i \<Longrightarrow> i < 2 ^ 31 \<Longrightarrow> put_int (int_bytes i) old = i"
  by (simp add: put_int_def blit_def)

lemma bytes_str_inverse [simp]: "bytes_str (str_bytes t) = t"
proof -
  have "of_char c < (256 :: nat)" for c
    using of_char_of [of "of_char c :: nat"] nat_of_char_less_256 by simp
  then have "char_of (unat (of_nat (of_char c) :: 8 word)) = c" for c
    by (simp add: unat_of_nat take_bit_eq_mod)
  then show ?thesis
    by (simp add: bytes_str_def str_bytes_def o_def)
qed

lemma length_bytes_str [simp]: "length (bytes_str b) = length b"
  by (simp add: bytes_str_def)

lemma put_cstr_bytes [simp]: "put_str (cstr_bytes t) old = strcpy old t"
  by (simp add: put_str_def cstr_bytes_def strcpy_def)

lemma cstr_bytes_inject [simp]: "cstr_bytes t = cstr_bytes u \<longleftrightarrow> t = u"
  unfolding cstr_bytes_def by (metis bytes_str_inverse append_same_eq)

lemma int_bytes_inject:
  "- (2 ^ 31) \<le> i \<Longrightarrow> i < 2 ^ 31 \<Longrightarrow> - (2 ^ 31) \<le> j \<Longrightarrow> j < 2 ^ 31 \<Longrightarrow> int_bytes i = int_bytes j \<Longrightarrow> i = j"
  using put_int_bytes [of i 0] put_int_bytes [of j 0] by metis

lemma length_put_str [simp]: "length b \<le> length old \<Longrightarrow> length (put_str b old) = length old"
  by (simp add: put_str_def)

subsection \<open>A reliable storage\<close>

text \<open>
  What \<open>settings_save_one\<close> documents: it returns 0 once the record is stored (or, for a null value,
  deleted) and other records are as they were. \<open>sto\<close> looks at the storage.
\<close>

type_synonym storage = "string \<Rightarrow> 8 word list option"

definition reliable :: "('w, 'y) settings_api_scheme \<Rightarrow> ('w \<Rightarrow> storage) \<Rightarrow> bool" where
  "reliable S sto \<longleftrightarrow> (\<forall>k v w. fst (settings_save_one S k v w) = 0 \<and>
     sto (snd (settings_save_one S k v w)) = (sto w)(k := v))"

text \<open>The subtree of a component: the names after its key and the slash.\<close>

definition subtree :: "string \<Rightarrow> storage \<Rightarrow> storage" where
  "subtree root st k = st (root @ ''/'' @ k)"

lemma subtree_upd [simp]: "subtree root (st(root @ CHR ''/'' # k := v)) = (subtree root st)(k := v)"
  by (auto simp: subtree_def fun_eq_iff)

lemma subtree_empty [simp]: "subtree root Map.empty = Map.empty"
  by (simp add: subtree_def fun_eq_iff)

text \<open>The record as the handler's callback reads it.\<close>

definition record_cb :: "8 word list \<Rightarrow> 'w read_cb" where
  "record_cb v = (\<lambda>n w. ((int (min n (length v)), take n v), w))"

text \<open>
  \<open>settings_load\<close> documents that it runs the handler on every stored record of its subtree; the
  results of the handler do not stop it.
\<close>

fun load_records :: "(string \<times> 8 word list) list \<Rightarrow> (string \<Rightarrow> 'w read_cb \<Rightarrow> ('s, int) prog) \<Rightarrow> ('s, int) prog" where
  "load_records [] h = return 0"
| "load_records ((k, b) # recs) h = do { _ \<leftarrow> h k (record_cb b); load_records recs h }"

lemma exec_load_records:
  "exec_state (load_records recs h) s = foldl (\<lambda>s r. exec_state (h (fst r) (record_cb (snd r))) s) s recs"
  "result (load_records recs h) s = 0"
  by (induction recs h arbitrary: s rule: load_records.induct) (simp_all add: exec_simps)

definition settings_ready :: "('w, 'y) settings_api_scheme \<Rightarrow> bool" where
  "settings_ready S \<longleftrightarrow> (\<forall>w. settings_subsys_init S w = (0, w)) \<and> (\<forall>k w. settings_register S k w = (0, w))"

lemma exec_save_one [exec_simps]:
  "exec_state (save_one S k b) s = s\<lparr>world := snd (settings_save_one S k (Some b) (world s))\<rparr>"
  "result (save_one S k b) s = fst (settings_save_one S k (Some b) (world s))"
  by (simp_all add: save_one_def exec_simps)

lemma keeps_read_var [keeps_intros]:
  assumes "\<And>b s. f (put b s) = f s" "\<And>s c. f (s\<lparr>console := c\<rparr>) = f s" "\<And>s c. f (s\<lparr>cloud_out := c\<rparr>) = f s"
    "\<And>s w. f (s\<lparr>world := w\<rparr>) = f s"
  shows "keeps f (read_var P read_cb n put msg)"
  unfolding read_var_def by (intro keeps_intros) (simp_all add: assms)

lemma keeps_save_one [keeps_intros]: "(\<And>s w. f (s\<lparr>world := w\<rparr>) = f s) \<Longrightarrow> keeps f (save_one S k b)"
  by (simp add: save_one_def keeps_call)

text \<open>Reading a stored record whole puts its bytes.\<close>

lemma exec_read_var:
  assumes "length b \<le> n"
  shows "exec_state (read_var P (record_cb b) n put msg) s = put b s"
  using assms by (simp add: read_var_def record_cb_def exec_state_def)

text \<open>A storage for the witnesses: the map itself.\<close>

definition map_settings :: "storage settings_api" where
  "map_settings = \<lparr>clock_utc = (\<lambda>_. clock_utc plain_print ()), vsnprintfcb = vsnprintfcb plain_print,
     settings_subsys_init = (\<lambda>w. (0, w)), settings_register = (\<lambda>_ w. (0, w)),
     settings_save_one = (\<lambda>k v w. (0, w(k := v)))\<rparr>"

lemma map_settings: "reliable map_settings id" "settings_ready map_settings"
  by (simp_all add: reliable_def settings_ready_def map_settings_def)

subsection \<open>The round trip\<close>

text \<open>
  \<open>view\<close> gives, for each name of the subtree, the bytes that would be saved for the variable now;
  \<open>load\<close> is the handler on one record; \<open>ok\<close> is what the component keeps of its variables. The law:
  loading bytes that are some state's view puts them in the view and nothing else.
\<close>

locale settings_component =
  fixes ok :: "'s \<Rightarrow> bool"
    and view :: "'s \<Rightarrow> storage"
    and load :: "'s \<Rightarrow> string \<times> 8 word list \<Rightarrow> 's"
  assumes load_view: "ok t \<Longrightarrow> ok s \<Longrightarrow> view t k = Some b \<Longrightarrow>
      ok (load s (k, b)) \<and> view (load s (k, b)) = (view s)(k \<mapsto> b)"
begin

lemma load_all:
  assumes "ok t" "ok s" "distinct (map fst recs)" "\<And>k b. (k, b) \<in> set recs \<Longrightarrow> view t k = Some b"
  shows "ok (foldl load s recs) \<and> view (foldl load s recs) = view s ++ map_of recs"
  using assms(2-)
proof (induction recs arbitrary: s)
  case (Cons r recs)
  obtain k b where r: "r = (k, b)" by (cases r)
  have "ok (load s r) \<and> view (load s r) = (view s)(k \<mapsto> b)"
    using load_view [of t s k b] assms(1) Cons.prems r by simp
  moreover have "map_of recs k = None"
    using Cons.prems(2) r by (simp add: map_of_eq_None_iff)
  ultimately show ?case
    using Cons.IH [of "load s r"] Cons.prems r by (auto simp: map_add_def fun_eq_iff split: option.split)
qed simp

text \<open>
  A running state agrees with the storage when its view is what the defaults \<open>d\<close> and the stored
  records give. Then a restart (the defaults, and every record loaded once, in any order) comes
  back to the same view.
\<close>

lemma restart:
  assumes "ok t" "ok d" "view t = view d ++ st" "map_of recs = st" "distinct (map fst recs)"
  shows "ok (foldl load d recs) \<and> view (foldl load d recs) = view t"
proof -
  have "view t k = Some b" if "(k, b) \<in> set recs" for k b
    using that assms(3-) map_of_is_SomeI [of recs k b] by (simp add: map_add_def)
  then show ?thesis
    using load_all [OF assms(1,2,5)] assms(3,4) by simp
qed

lemma agree_save: "view s = view d ++ st \<Longrightarrow> view s' = (view s)(k \<mapsto> b) \<Longrightarrow> view s' = view d ++ st(k \<mapsto> b)"
  by (simp add: map_add_upd)

end

end
