(* ===== verification/Mosh_At.thy ===== *)
theory Mosh_At
  imports Mosh_Sett
begin

section \<open>AT command mode of the modem shell (\<open>at_cmd_mode.c\<close>)\<close>

text \<open>
  The line editor that turns the bytes of a terminal into AT commands: characters are gathered in
  \<open>at_buf\<close> until the line terminator, outside quotes; the line is cut at \<open>|\<close> into at most ten
  pipelined commands; a work item sends them to the modem and prints the responses. CTRL-X CTRL-Q
  leaves the mode. The modem library, the work queue and the shell are the parameter \<open>T\<close>.
\<close>

subsection \<open>State\<close>

datatype line_termination = NULL_TERM | CR_TERM | LF_TERM | CR_LF_TERM

definition AT_CMD_MODE_AT_CMD_MAX_LEN :: nat where
  "AT_CMD_MODE_AT_CMD_MAX_LEN = 3584"

definition AT_CMD_MODE_PIPELINED_AT_CMD_MAX_LEN :: nat where
  "AT_CMD_MODE_PIPELINED_AT_CMD_MAX_LEN = 1023"

definition AT_MAX_CMD_PIPELINED :: nat where
  "AT_MAX_CMD_PIPELINED = 10"

definition CHAR_CAN :: char where "CHAR_CAN = CHR 0x18"
definition CHAR_DC1 :: char where "CHAR_DC1 = CHR 0x11"
definition CHAR_BS :: char where "CHAR_BS = CHR 0x08"
definition CHAR_DEL :: char where "CHAR_DEL = CHR 0x7F"
definition CHAR_CR :: char where "CHAR_CR = CHR 0x0D"
definition CHAR_LF :: char where "CHAR_LF = CHR 0x0A"
definition QUOTE :: char where "QUOTE = CHR 0x22"
definition PIPE :: char where "PIPE = CHR 0x7C"

lemmas at_chars = CHAR_CAN_def CHAR_DC1_def CHAR_BS_def CHAR_DEL_def CHAR_CR_def CHAR_LF_def
  QUOTE_def PIPE_def NUL_def

lemmas at_sizes = AT_CMD_MODE_AT_CMD_MAX_LEN_def AT_CMD_MODE_PIPELINED_AT_CMD_MAX_LEN_def
  AT_MAX_CMD_PIPELINED_def

text \<open>
  A pipelined command is its position in \<open>at_buf\<close> and its length. \<open>work_queued\<close> is whether the work
  item waits in the queue; \<open>console\<close> is what was printed.
\<close>

record 'w at_mode = "'w mosh" +
  at_cmd_mode_echo_on :: bool
  term_mode :: line_termination
  at_buf :: string
  at_buf_pipelined :: string
  pipe_cnt :: nat
  pipe_infos :: "(nat \<times> nat) list"
  at_cmd_mode_active :: bool
  inside_quotes :: bool
  writing :: bool
  at_cmd_len :: nat
  tail :: char
  sett_autostart_enabled :: bool
  work_queued :: bool

type_synonym ('w, 'a) at_prog = "('w at_mode, 'a) prog"

record 'w at_api = "'w settings_api" +
  nrf_modem_at_cmd :: "string \<Rightarrow> nat \<Rightarrow> 'w \<Rightarrow> (32 word \<times> string) \<times> 'w"
  at_monitor_set :: "bool \<Rightarrow> 'w \<Rightarrow> 'w"
  shell_set_bypass :: "bool \<Rightarrow> 'w \<Rightarrow> 'w"

definition at_mode_init :: "'w \<Rightarrow> 'w at_mode" where
  "at_mode_init w = \<lparr>world = w, at_cmd_mode_dont_print = False, mosh_print_timestamp_use = False,
     mosh_print_cloud_echo = False, console = [], cloud_out = [], aborted = False, at_cmd_mode_echo_on = True,
     term_mode = CR_LF_TERM, at_buf = replicate (Suc AT_CMD_MODE_AT_CMD_MAX_LEN) NUL,
     at_buf_pipelined = replicate (Suc AT_CMD_MODE_PIPELINED_AT_CMD_MAX_LEN) NUL, pipe_cnt = 0,
     pipe_infos = replicate AT_MAX_CMD_PIPELINED (0, 0), at_cmd_mode_active = False,
     inside_quotes = False, writing = False, at_cmd_len = 0, tail = NUL,
     sett_autostart_enabled = False, work_queued = False\<rparr>"

definition printk :: "string \<Rightarrow> parg list \<Rightarrow> ('w, unit) at_prog" where
  "printk f args = modify (\<lambda>s. s\<lparr>console := console s @ [Print f args]\<rparr>)"

definition print_error :: "string \<Rightarrow> parg list \<Rightarrow> ('w, unit) at_prog" where
  "print_error f args = modify (\<lambda>s. s\<lparr>console := console s @ [Error f args]\<rparr>)"

definition put_char :: "nat \<Rightarrow> char \<Rightarrow> ('w, unit) at_prog" where
  "put_char i c = modify (\<lambda>s. s\<lparr>at_buf := (at_buf s)[i := c]\<rparr>)"

definition upd :: "('w at_mode \<Rightarrow> 'w at_mode) \<Rightarrow> ('w, unit) at_prog" where
  "upd f = modify f"

subsection \<open>Notifications and the work item\<close>

primrec repeat :: "nat \<Rightarrow> ('s, unit) prog \<Rightarrow> ('s, unit) prog" where
  "repeat 0 p = return ()"
| "repeat (Suc n) p = do { p; repeat n p }"

definition at_cmd_mode_event_handler :: "string \<Rightarrow> ('w, unit) at_prog" where
  "at_cmd_mode_event_handler response = do {
     s \<leftarrow> gets id;
     if writing s \<and> at_cmd_mode_echo_on s then do {
       printk [CHAR_CR] [];
       repeat (at_cmd_len s) (printk '' '' []);
       printk (CHAR_CR # ''%s'') [PStr response];
       put_char (at_cmd_len s) NUL;
       buf \<leftarrow> gets at_buf;
       printk ''%s'' [PStr (cstr buf)]
     } else printk ''%s'' [PStr response]
   }"

text \<open>
  The command goes to the modem and the response, a C string, comes back into a buffer of size \<open>n\<close>
  with the \<open>int\<close> it returns; the result is the content of that buffer, which is printed.
\<close>

definition at_cmd_mode_send_at_cmd :: "'w at_api \<Rightarrow> string \<Rightarrow> nat \<Rightarrow> ('w, string) at_prog" where
  "at_cmd_mode_send_at_cmd T at_str n = do {
     (ret, rsp) \<leftarrow> call (nrf_modem_at_cmd T at_str n);
     let err = sint ret;
     let rsp = (if err < 0 then ''ERROR: AT command failed: '' @ show_int err @ [CHAR_LF]
                else take (n - 1) (cstr rsp));
     printk ''%s'' [PStr rsp];
     return rsp
   }"

definition at_cmd_mode_send_at_cmd_from_at_buf :: "'w at_api \<Rightarrow> ('w, unit) at_prog" where
  "at_cmd_mode_send_at_cmd_from_at_buf T = do {
     buf \<leftarrow> gets at_buf;
     rsp \<leftarrow> at_cmd_mode_send_at_cmd T (cstr buf) (length buf);
     upd (\<lambda>s. s\<lparr>at_buf := strcpy (at_buf s) rsp\<rparr>)
   }"

text \<open>The body of the loop over the pipelined commands, for entry \<open>i\<close>.\<close>

definition worker_pipe :: "'w at_api \<Rightarrow> nat \<Rightarrow> ('w, unit) at_prog" where
  "worker_pipe T i = do {
     (start, len) \<leftarrow> gets (\<lambda>s. pipe_infos s ! i);
     if len = 0 then return ()
     else do {
       upd (\<lambda>s. s\<lparr>at_buf_pipelined :=
         (strncpy (at_buf_pipelined s) (drop start (at_buf s)) len)[len := NUL]\<rparr>);
       buf \<leftarrow> gets at_buf_pipelined;
       rsp \<leftarrow> at_cmd_mode_send_at_cmd T (cstr buf) (length buf);
       upd (\<lambda>s. s\<lparr>at_buf_pipelined := strcpy (at_buf_pipelined s) rsp,
                  pipe_infos := (pipe_infos s)[i := (start, 0)]\<rparr>)
     }
   }"

primrec worker_pipes :: "'w at_api \<Rightarrow> nat list \<Rightarrow> ('w, unit) at_prog" where
  "worker_pipes T [] = return ()"
| "worker_pipes T (i # is) = do { worker_pipe T i; worker_pipes T is }"

definition at_cmd_mode_worker :: "'w at_api \<Rightarrow> ('w, unit) at_prog" where
  "at_cmd_mode_worker T = do {
     cnt \<leftarrow> gets pipe_cnt;
     (if cnt \<noteq> 0 then worker_pipes T [0..<AT_MAX_CMD_PIPELINED]
      else at_cmd_mode_send_at_cmd_from_at_buf T);
     upd (\<lambda>s. s\<lparr>pipe_cnt := 0\<rparr>)
   }"

subsection \<open>The line editor\<close>

definition keep_pipe :: "nat \<Rightarrow> nat \<Rightarrow> 'w at_mode \<Rightarrow> 'w at_mode" where
  "keep_pipe start len s =
     (if pipe_cnt s \<ge> AT_MAX_CMD_PIPELINED then
        s\<lparr>console := console s @ [Print (CHAR_LF # ''Max %d pipelined at commands supported, dropping: '' @ [QUOTE] @ ''%s'' @ [QUOTE])
          [PInt (int AT_MAX_CMD_PIPELINED), PStr (substr (at_buf s) start len)]]\<rparr>
      else if len > AT_CMD_MODE_PIPELINED_AT_CMD_MAX_LEN then
        s\<lparr>console := console s @ [Print (CHAR_LF # ''Pipelined AT cmd max len is %d, too long %d bytes AT cmd dropped'')
          [PInt (int AT_CMD_MODE_PIPELINED_AT_CMD_MAX_LEN), PInt (int len)]]\<rparr>
      else s\<lparr>pipe_infos := (pipe_infos s)[pipe_cnt s := (start, len)], pipe_cnt := Suc (pipe_cnt s)\<rparr>)"

text \<open>The loop over \<open>strtok_r\<close>, from position \<open>pos\<close> of \<open>at_buf\<close>.\<close>

lemma keep_pipe_at_buf [simp]: "at_buf (keep_pipe start len s) = at_buf s"
  by (simp add: keep_pipe_def)

function scan_pipes :: "nat \<Rightarrow> 'w at_mode \<Rightarrow> 'w at_mode" where
  "scan_pipes pos s =
     (case strtok_r PIPE (at_buf s) pos of
        None \<Rightarrow> s
      | Some (start, len, buf, save) \<Rightarrow> scan_pipes save (keep_pipe start len (s\<lparr>at_buf := buf\<rparr>)))"
  by auto
termination
proof (relation "measure (\<lambda>(pos, s). length (at_buf s) - pos)")
  fix pos and s :: "'a at_mode" and x start y len z buf save
  assume a: "strtok_r PIPE (at_buf s) pos = Some x" "(start, y) = x" "(len, z) = y" "(buf, save) = z"
  show "((save, keep_pipe start len (s\<lparr>at_buf := buf\<rparr>)), pos, s) \<in> measure (\<lambda>(pos, s). length (at_buf s) - pos)"
    using strtok_r_bounds [of PIPE "at_buf s" pos start len buf save] a by auto
qed simp

declare scan_pipes.simps [simp del]

text \<open>The label \<open>send\<close>.\<close>

definition send_line :: "('w, unit) at_prog" where
  "send_line = do {
     upd (\<lambda>s. s\<lparr>at_buf := (at_buf s)[at_cmd_len s := NUL], inside_quotes := False, at_cmd_len := 0\<rparr>);
     upd (\<lambda>s. s\<lparr>pipe_cnt := 0\<rparr>);
     upd (\<lambda>s. if PIPE \<in> set (cstr (at_buf s)) then scan_pipes 0 s else s);
     echo \<leftarrow> gets at_cmd_mode_echo_on;
     doif echo (printk [CHAR_LF] []);
     upd (\<lambda>s. s\<lparr>writing := False\<rparr>);
     upd (\<lambda>s. s\<lparr>work_queued := True\<rparr>)
   }"

definition terminates_line :: "'w at_mode \<Rightarrow> char \<Rightarrow> bool" where
  "terminates_line s c \<longleftrightarrow> \<not> inside_quotes s \<and>
     (c = NUL \<and> term_mode s = NULL_TERM \<or>
      c = CHAR_CR \<and> term_mode s = CR_TERM \<or>
      c = CHAR_LF \<and> (term_mode s = LF_TERM \<or>
        term_mode s = CR_LF_TERM \<and> at_cmd_len s > 0 \<and> at_buf s ! (at_cmd_len s - 1) = CHAR_CR))"

definition backspace :: "('w, unit) at_prog" where
  "backspace = do {
     upd (\<lambda>s. s\<lparr>at_buf := (at_buf s)[at_cmd_len s := NUL]\<rparr>);
     upd (\<lambda>s. s\<lparr>at_cmd_len := at_cmd_len s - 1\<rparr>);
     upd (\<lambda>s. if at_buf s ! at_cmd_len s = QUOTE then s\<lparr>inside_quotes := \<not> inside_quotes s\<rparr> else s);
     upd (\<lambda>s. s\<lparr>at_buf := (at_buf s)[at_cmd_len s := CHR '' '']\<rparr>);
     buf \<leftarrow> gets at_buf;
     printk (CHAR_CR # ''%s'') [PStr (cstr buf)];
     upd (\<lambda>s. s\<lparr>at_buf := (at_buf s)[at_cmd_len s := NUL]\<rparr>);
     buf \<leftarrow> gets at_buf;
     printk (CHAR_CR # ''%s'') [PStr (cstr buf)]
   }"

definition at_cmd_mode_cmd_rx_handler :: "char \<Rightarrow> ('w, unit) at_prog" where
  "at_cmd_mode_cmd_rx_handler c = do {
     upd (\<lambda>s. s\<lparr>writing := True\<rparr>);
     s \<leftarrow> gets id;
     if c = CHAR_BS \<or> c = CHAR_DEL then
       (if at_cmd_len s = 0 then return () else backspace)
     else if terminates_line s c then send_line
     else if at_cmd_len s + 1 > length (at_buf s) - 1 then
       printk (''Buffer overflow, dropping '' @ [CHR 0x27] @ ''%c'' @ [CHR 0x27, CHAR_LF]) [PStr [c]]
     else do {
       upd (\<lambda>s. s\<lparr>at_buf := (at_buf s)[at_cmd_len s := c], at_cmd_len := Suc (at_cmd_len s)\<rparr>);
       upd (\<lambda>s. if c = QUOTE then s\<lparr>inside_quotes := \<not> inside_quotes s\<rparr> else s);
       echo \<leftarrow> gets at_cmd_mode_echo_on;
       doif echo (printk ''%c'' [PStr [c]])
     }
   }"

subsection \<open>The terminal's callback and starting the mode\<close>

fun has_escape :: "char list \<Rightarrow> bool" where
  "has_escape (a # b # cs) \<longleftrightarrow> a = CHAR_CAN \<and> b = CHAR_DC1 \<or> has_escape (b # cs)"
| "has_escape _ \<longleftrightarrow> False"

primrec rx_all :: "char list \<Rightarrow> ('w, unit) at_prog" where
  "rx_all [] = return ()"
| "rx_all (c # cs) = do { at_cmd_mode_cmd_rx_handler c; rx_all cs }"

text \<open>The shell never calls it with no bytes; the code would read \<open>recv[-1]\<close>.\<close>

definition at_cmd_mode_bypass_cb :: "'w at_api \<Rightarrow> char list \<Rightarrow> ('w, unit) at_prog" where
  "at_cmd_mode_bypass_cb T recv = do {
     t \<leftarrow> gets tail;
     if t = CHAR_CAN \<and> hd recv = CHAR_DC1 \<or> has_escape recv then do {
       printk (''==========================================================='' @ [CHAR_LF]) [];
       printk (''MoSh AT command mode exited'' @ [CHAR_LF]) [];
       act (shell_set_bypass T False);
       upd (\<lambda>s. s\<lparr>at_cmd_mode_dont_print := False\<rparr>);
       act (at_monitor_set T False);
       upd (\<lambda>s. s\<lparr>at_cmd_mode_active := False, inside_quotes := False, tail := NUL, at_cmd_len := 0\<rparr>)
     } else do {
       upd (\<lambda>s. s\<lparr>tail := last recv\<rparr>);
       rx_all recv
     }
   }"

definition at_cmd_mode_line_termination_set :: "line_termination \<Rightarrow> ('w, unit) at_prog" where
  "at_cmd_mode_line_termination_set t = upd (\<lambda>s. s\<lparr>term_mode := t\<rparr>)"

definition at_cmd_mode_start :: "'w at_api \<Rightarrow> ('w, int) at_prog" where
  "at_cmd_mode_start T = do {
     active \<leftarrow> gets at_cmd_mode_active;
     if active then do {
       printk (''AT command mode already started'' @ [CHAR_LF]) [];
       return (- EBUSY)
     } else do {
       upd (\<lambda>s. s\<lparr>work_queued := False, pipe_cnt := 0\<rparr>);
       printk (''MoSh AT command mode started, press ctrl-x ctrl-q to escape'' @ [CHAR_LF]) [];
       printk (''MoSh specific AT commands:'' @ [CHAR_LF]) [];
       printk (''  Echo off/on: ATE0 and ATE1'' @ [CHAR_LF]) [];
       printk ''  ICMP Ping: '' [];
       printk (''AT+NPING=<addr>[,<payload_length>,<timeout_msecs>,<count>'' @
         ''[,<interval_msecs>[,<cid>]]]'' @ [CHAR_LF]) [];
       printk (''Other custom functionalities:'' @ [CHAR_LF]) [];
       printk (''  AT command pipelining, for example:'' @ [CHAR_LF] @
         ''    at+cgmr|at+cfun?|at+nping='' @ [QUOTE] @ ''example.com'' @ [QUOTE] @ [CHAR_LF]) [];
       printk (''==========================================================='' @ [CHAR_LF]) [];
       upd (\<lambda>s. s\<lparr>at_cmd_mode_dont_print := True, at_cmd_mode_active := True\<rparr>);
       act (at_monitor_set T True);
       act (shell_set_bypass T True);
       return 0
     }
   }"

subsection \<open>Running the handlers\<close>

lemma run_upd [run_simps, simp]: "run_state (upd f) s = ((), f s)"
  by (simp add: upd_def)

lemma run_printk [run_simps, simp]:
  "run_state (printk f as) s = ((), s\<lparr>console := console s @ [Print f as]\<rparr>)"
  by (simp add: printk_def)

lemma run_put_char [run_simps, simp]:
  "run_state (put_char i c) s = ((), s\<lparr>at_buf := (at_buf s)[i := c]\<rparr>)"
  by (simp add: put_char_def)

lemma keep_pipe_frame [simp]:
  "at_cmd_len (keep_pipe st n s) = at_cmd_len s" "inside_quotes (keep_pipe st n s) = inside_quotes s"
  "term_mode (keep_pipe st n s) = term_mode s" "work_queued (keep_pipe st n s) = work_queued s"
  "at_cmd_mode_active (keep_pipe st n s) = at_cmd_mode_active s" "tail (keep_pipe st n s) = tail s"
  "world (keep_pipe st n s) = world s" "at_buf_pipelined (keep_pipe st n s) = at_buf_pipelined s"
  "length (pipe_infos (keep_pipe st n s)) = length (pipe_infos s)"
  "at_cmd_mode_echo_on (keep_pipe st n s) = at_cmd_mode_echo_on s"
  by (simp_all add: keep_pipe_def)

lemma scan_pipes_frame [simp]:
  "at_cmd_len (scan_pipes pos s) = at_cmd_len s \<and> inside_quotes (scan_pipes pos s) = inside_quotes s \<and>
   term_mode (scan_pipes pos s) = term_mode s \<and> work_queued (scan_pipes pos s) = work_queued s \<and>
   at_cmd_mode_active (scan_pipes pos s) = at_cmd_mode_active s \<and> tail (scan_pipes pos s) = tail s \<and>
   world (scan_pipes pos s) = world s \<and> at_buf_pipelined (scan_pipes pos s) = at_buf_pipelined s \<and>
   length (pipe_infos (scan_pipes pos s)) = length (pipe_infos s) \<and>
   at_cmd_mode_echo_on (scan_pipes pos s) = at_cmd_mode_echo_on s \<and>
   length (at_buf (scan_pipes pos s)) = length (at_buf s)"
proof (induction pos s rule: scan_pipes.induct)
  case (1 pos s)
  show ?case
  proof (cases "strtok_r PIPE (at_buf s) pos")
    case None
    then show ?thesis by (subst (1 2 3 4 5 6 7 8 9 10 11) scan_pipes.simps) simp
  next
    case (Some t)
    obtain start len buf save where t: "t = (start, len, buf, save)" by (cases t)
    have "length buf = length (at_buf s)"
      using strtok_r_bounds(6) Some t by blast
    then show ?thesis
      using "1.IH" [OF Some t [symmetric] refl refl] Some t
      by (subst (1 2 3 4 5 6 7 8 9 10 11) scan_pipes.simps) simp
  qed
qed

text \<open>The pieces between the separators, as the specification of pipelining sees them.\<close>

function pieces :: "string \<Rightarrow> string list" where
  "pieces s =
     (let t = dropWhile (\<lambda>c. c = PIPE) s; p = takeWhile (\<lambda>c. c \<noteq> PIPE) t
      in if p = [] then [] else p # pieces (drop (length p) t))"
  by auto
termination
proof (relation "measure length")
  fix s t p :: string
  assume t: "t = dropWhile (\<lambda>c. c = PIPE) s" and p: "p = takeWhile (\<lambda>c. c \<noteq> PIPE) t" "p \<noteq> []"
  have "length t \<le> length s"
    unfolding t by (rule length_dropWhile_le)
  moreover have "t \<noteq> []"
    using p by (metis takeWhile.simps(1))
  moreover have "0 < length p"
    using p(2) by simp
  ultimately have "length t - length p < length t" "length t \<le> length s"
    by (simp_all add: diff_less)
  then show "(drop (length p) t, s) \<in> measure length"
    by simp
qed simp

declare pieces.simps [simp del]

lemma pieces_Nil [simp]: "pieces [] = []"
  by (subst pieces.simps) simp

lemma pieces_PIPE [simp]: "pieces (PIPE # s) = pieces s"
  by (subst (1 2) pieces.simps) (simp add: Let_def)

lemma PIPE_NUL [simp]: "PIPE \<noteq> NUL" "NUL \<noteq> PIPE"
  by (simp_all add: at_chars)

lemma cstr_split:
  assumes "NUL \<in> set xs"
  obtains v where "xs = cstr xs @ NUL # v"
proof -
  have "dropWhile (\<lambda>c. c \<noteq> NUL) xs \<noteq> []"
    using assms by (simp add: dropWhile_eq_Nil_conv)
  then obtain x v where xv: "dropWhile (\<lambda>c. c \<noteq> NUL) xs = x # v"
    by (cases "dropWhile (\<lambda>c. c \<noteq> NUL) xs") auto
  then have "x = NUL"
    using hd_dropWhile [of "\<lambda>c. c \<noteq> NUL" xs] by simp
  then have "xs = cstr xs @ NUL # v"
    using takeWhile_dropWhile_id [of "\<lambda>c. c \<noteq> NUL" xs] xv by (simp add: cstr_def)
  then show ?thesis ..
qed

lemma takeWhile_append_NUL:
  "P NUL = False \<Longrightarrow> takeWhile P (u @ NUL # v) = takeWhile P u"
  by (induction u) auto

text \<open>One call of \<open>strtok_r\<close> takes the first piece, and what is left has the other pieces.\<close>

lemma strtok_r_piece:
  assumes nul: "NUL \<in> set (drop pos buf)"
  shows "(case strtok_r PIPE buf pos of
      None \<Rightarrow> pieces (cstr (drop pos buf)) = []
    | Some (start, len, buf', save) \<Rightarrow>
        pieces (cstr (drop pos buf)) = substr buf start len # pieces (cstr (drop save buf')) \<and>
        NUL \<in> set (drop save buf') \<and> start + len < length buf \<and> NUL \<notin> set (substr buf start len) \<and>
        take (start + len) buf' = take (start + len) buf \<and> buf' ! (start + len) = NUL \<and>
        start = pos + length (takeWhile (\<lambda>c. c = PIPE) (cstr (drop pos buf))))"
proof -
  define u where "u = cstr (drop pos buf)"
  obtain v where uv: "drop pos buf = u @ NUL # v"
    using cstr_split [OF nul] u_def by metis
  have un: "NUL \<notin> set u" by (simp add: u_def)
  define a where "a = length (takeWhile (\<lambda>c. c = PIPE) u)"
  define t where "t = drop a u"
  have t: "t = dropWhile (\<lambda>c. c = PIPE) u"
    by (simp add: t_def a_def dropWhile_eq_drop)
  have tn: "NUL \<notin> set t" using un by (auto simp: t_def dest: in_set_dropD)
  have "a \<le> length u" by (simp add: a_def length_takeWhile_le)
  then have start: "drop (pos + a) buf = t @ NUL # v"
    using uv by (simp add: t_def drop_drop [symmetric] add.commute [of pos a] del: drop_drop)
  define k where "k = takeWhile (\<lambda>c. c \<noteq> PIPE) t"
  have tk: "takeWhile (\<lambda>c. c \<noteq> PIPE \<and> c \<noteq> NUL) (t @ NUL # v) = k"
    using tn by (simp add: takeWhile_append_NUL k_def) (intro takeWhile_cong, auto)
  have st: "pos + length (takeWhile (\<lambda>c. c = PIPE) (drop pos buf)) = pos + a"
    by (simp add: uv takeWhile_append_NUL a_def)
  have pu: "pieces u = (if k = [] then [] else k # pieces (drop (length k) t))"
    by (subst pieces.simps) (simp add: Let_def k_def t)
  have kt: "k = take (length k) t"
    unfolding k_def by (rule takeWhile_eq_take)
  have kl: "length k \<le> length t" by (simp add: k_def length_takeWhile_le)
  have sub: "substr buf (pos + a) (length k) = k"
    using kt kl by (simp add: substr_def start)
  have lenb: "length buf = pos + a + length t + 1 + length v"
    using arg_cong [OF start, of length] by (cases "pos + a \<le> length buf") auto
  have nth: "buf ! (pos + a + length k) = (t @ NUL # v) ! length k"
    using start lenb kl by (metis add_leD1 le_add1 nth_drop trans_le_add1)
  show ?thesis
  proof (cases "k = []")
    case True
    then show ?thesis
      using pu by (simp add: strtok_r_def st start tk u_def [symmetric] Let_def a_def [symmetric])
  next
    case False
    note k = False
    have kn: "NUL \<notin> set k" using tn kt by (metis in_set_takeD)
    show ?thesis
    proof (cases "drop (length k) t")
      case Nil
      then have "length k = length t" using kl by simp
      then have "buf ! (pos + a + length k) = NUL" "drop (pos + a + length k) buf = NUL # v"
        using nth start by (simp_all add: drop_drop [symmetric] add.commute del: drop_drop)
      then show ?thesis
        using k pu Nil sub lenb kl kn
        by (simp add: strtok_r_def st start tk u_def [symmetric] Let_def a_def [symmetric])
    next
      case (Cons x r)
      have "x = PIPE"
        using Cons hd_dropWhile [of "\<lambda>c. c \<noteq> PIPE" t]
        by (simp add: k_def dropWhile_eq_drop [symmetric])
      have lt: "length k < length t" using Cons by (metis drop_eq_Nil linorder_not_less list.distinct(1))
      have x: "(t @ NUL # v) ! length k = PIPE"
        using lt Cons \<open>x = PIPE\<close> by (simp add: nth_append) (metis Cons_nth_drop_Suc list.inject)
      have r: "drop (Suc (pos + a + length k)) (buf[pos + a + length k := NUL]) = r @ NUL # v"
      proof -
        have "drop (Suc (pos + a + length k)) buf = drop (Suc (length k)) (t @ NUL # v)"
          using start by (metis add_Suc_right add.commute drop_drop)
        also have "\<dots> = r @ NUL # v"
          using Cons lt by (simp add: Suc_leI) (metis Cons_nth_drop_Suc list.inject)
        finally show ?thesis by simp
      qed
      have "NUL \<notin> set r" using Cons tn by (metis in_set_dropD list.set_intros(2))
      then have "cstr (r @ NUL # v) = r" by simp
      then show ?thesis
        using k pu Cons sub lenb lt kn nth x r \<open>x = PIPE\<close>
        by (simp add: strtok_r_def st start tk u_def [symmetric] Let_def a_def [symmetric] take_update_cancel)
    qed
  qed
qed

text \<open>The pieces the code keeps: the short ones, up to the ten.\<close>

definition kept :: "nat \<Rightarrow> string list \<Rightarrow> string list" where
  "kept n ps = take n (filter (\<lambda>p. length p \<le> AT_CMD_MODE_PIPELINED_AT_CMD_MAX_LEN) ps)"

lemma kept_Nil [simp]: "kept n [] = []"
  by (simp add: kept_def)

lemma kept_Cons: "kept n (p # ps) =
    (if n = 0 then [] else if length p \<le> AT_CMD_MODE_PIPELINED_AT_CMD_MAX_LEN then p # kept (n - 1) ps
     else kept n ps)"
  by (cases n) (simp_all add: kept_def)

definition pipe_text :: "'w at_mode \<Rightarrow> nat \<Rightarrow> string" where
  "pipe_text s i = (case pipe_infos s ! i of (start, len) \<Rightarrow> substr (at_buf s) start len)"

lemma substr_cong_take:
  "take m b' = take m b \<Longrightarrow> start + len \<le> m \<Longrightarrow> substr b' start len = substr b start len"
  unfolding substr_def by (metis add.commute drop_take min.absorb1 take_drop take_take)

definition scan_post :: "nat \<Rightarrow> 'w at_mode \<Rightarrow> 'w at_mode \<Rightarrow> string list \<Rightarrow> bool" where
  "scan_post pos s s' ks \<longleftrightarrow> pipe_cnt s' = pipe_cnt s + length ks \<and>
    take pos (at_buf s') = take pos (at_buf s) \<and>
    (\<forall>i. i < pipe_cnt s \<or> pipe_cnt s + length ks \<le> i \<longrightarrow> pipe_infos s' ! i = pipe_infos s ! i) \<and>
    (\<forall>i<length ks. \<exists>start. pipe_infos s' ! (pipe_cnt s + i) = (start, length (ks ! i)) \<and>
       pos \<le> start \<and> start + length (ks ! i) < length (at_buf s) \<and> ks ! i \<noteq> [] \<and> NUL \<notin> set (ks ! i) \<and>
       length (ks ! i) \<le> AT_CMD_MODE_PIPELINED_AT_CMD_MAX_LEN \<and>
       substr (at_buf s') start (length (ks ! i)) = ks ! i)"

text \<open>
  The loop over \<open>strtok_r\<close> from position \<open>pos\<close>: it appends the kept pieces to the table, each with
  its place in the buffer, and changes neither the buffer before \<open>pos\<close> nor earlier entries.
\<close>

lemma scan_pipes_spec:
  assumes "NUL \<in> set (drop pos (at_buf s))" "pipe_cnt s \<le> AT_MAX_CMD_PIPELINED"
    and "length (pipe_infos s) = AT_MAX_CMD_PIPELINED"
  shows "scan_post pos s (scan_pipes pos s)
    (kept (AT_MAX_CMD_PIPELINED - pipe_cnt s) (pieces (cstr (drop pos (at_buf s)))))"
  using assms
proof (induction pos s rule: scan_pipes.induct)
  case (1 pos s)
  note piece = strtok_r_piece [OF "1.prems"(1)]
  show ?case
  proof (cases "strtok_r PIPE (at_buf s) pos")
    case None
    with piece show ?thesis by (simp add: scan_pipes.simps [of pos s] scan_post_def)
  next
    case (Some t)
    obtain start len buf save where t: "t = (start, len, buf, save)" by (cases t)
    let ?p = "substr (at_buf s) start len"
    let ?s1 = "keep_pipe start len (s\<lparr>at_buf := buf\<rparr>)"
    let ?ps = "pieces (cstr (drop save buf))"
    have p: "pieces (cstr (drop pos (at_buf s))) = ?p # ?ps" "NUL \<in> set (drop save buf)"
        "start + len < length (at_buf s)" "NUL \<notin> set ?p" "take (start + len) buf = take (start + len) (at_buf s)"
      using piece unfolding Some t option.case prod.case by blast+
    note b = strtok_r_bounds [OF Some [unfolded t]]
    have lp: "length ?p = len" using b by (simp add: substr_def)
    have subp: "substr buf start len = ?p"
      by (rule substr_cong_take [OF p(5)]) simp
    have scan: "scan_pipes pos s = scan_pipes save ?s1"
      by (simp add: scan_pipes.simps [of pos s] Some t)
    have cnt1: "pipe_cnt ?s1 \<le> AT_MAX_CMD_PIPELINED" "length (pipe_infos ?s1) = AT_MAX_CMD_PIPELINED"
      using "1.prems" by (simp_all add: keep_pipe_def)
    define ks where "ks = kept (AT_MAX_CMD_PIPELINED - pipe_cnt ?s1) ?ps"
    have "scan_post save ?s1 (scan_pipes save ?s1) ks"
      using "1.IH" [OF Some t [symmetric] refl refl _ cnt1] p(2) by (simp add: ks_def)
    then have IH: "pipe_cnt (scan_pipes save ?s1) = pipe_cnt ?s1 + length ks"
        "take save (at_buf (scan_pipes save ?s1)) = take save buf"
        "\<And>i. i < pipe_cnt ?s1 \<or> pipe_cnt ?s1 + length ks \<le> i \<Longrightarrow>
          pipe_infos (scan_pipes save ?s1) ! i = pipe_infos ?s1 ! i"
        "\<And>i. i < length ks \<Longrightarrow> \<exists>start. pipe_infos (scan_pipes save ?s1) ! (pipe_cnt ?s1 + i) =
             (start, length (ks ! i)) \<and> save \<le> start \<and> start + length (ks ! i) < length buf \<and>
           ks ! i \<noteq> [] \<and> NUL \<notin> set (ks ! i) \<and> length (ks ! i) \<le> AT_CMD_MODE_PIPELINED_AT_CMD_MAX_LEN \<and>
           substr (at_buf (scan_pipes save ?s1)) start (length (ks ! i)) = ks ! i"
      unfolding scan_post_def keep_pipe_at_buf by (simp, simp, blast, simp)
    have tk: "take pos (at_buf (scan_pipes save ?s1)) = take pos (at_buf s)"
      using IH(2) p(5) b(1,4) by (metis (no_types, lifting) le_add1 le_trans min.absorb1 take_take)
    have psub: "substr (at_buf (scan_pipes save ?s1)) start len = ?p"
      using substr_cong_take [OF IH(2), of start len] b(4) subp by simp
    consider (full) "pipe_cnt s = AT_MAX_CMD_PIPELINED"
      | (long) "pipe_cnt s < AT_MAX_CMD_PIPELINED" "len > AT_CMD_MODE_PIPELINED_AT_CMD_MAX_LEN"
      | (keep) "pipe_cnt s < AT_MAX_CMD_PIPELINED" "len \<le> AT_CMD_MODE_PIPELINED_AT_CMD_MAX_LEN"
      using "1.prems"(2) by linarith
    then show ?thesis
    proof cases
      case full
      then have e: "pipe_cnt ?s1 = pipe_cnt s" "pipe_infos ?s1 = pipe_infos s"
        by (simp_all add: keep_pipe_def)
      then have "ks = []" by (simp add: ks_def full kept_def)
      then show ?thesis
        using IH(1,3) tk full e unfolding scan p(1) scan_post_def by (simp add: kept_def)
    next
      case long
      then have e: "pipe_cnt ?s1 = pipe_cnt s" "pipe_infos ?s1 = pipe_infos s"
        by (simp_all add: keep_pipe_def)
      have k: "kept (AT_MAX_CMD_PIPELINED - pipe_cnt s) (?p # ?ps) = ks"
        using long by (simp add: kept_Cons lp ks_def e)
      have "pos \<le> save" using b by simp
      then show ?thesis
        using IH(1,3) IH(4) tk unfolding scan p(1) e k scan_post_def b(6) by (blast intro: le_trans)
    next
      case keep
      have e: "pipe_cnt ?s1 = Suc (pipe_cnt s)" "pipe_infos ?s1 = (pipe_infos s)[pipe_cnt s := (start, len)]"
        using keep by (simp_all add: keep_pipe_def)
      have k: "kept (AT_MAX_CMD_PIPELINED - pipe_cnt s) (?p # ?ps) = ?p # ks"
        using keep by (simp add: kept_Cons lp ks_def e)
      have first: "pipe_infos (scan_pipes save ?s1) ! pipe_cnt s = (start, len)"
        using IH(3) [of "pipe_cnt s"] keep "1.prems"(3) by (simp add: e)
      have "pos \<le> save" using b by simp
      have "\<exists>st. pipe_infos (scan_pipes save ?s1) ! (pipe_cnt s + i) = (st, length ((?p # ks) ! i)) \<and>
           pos \<le> st \<and> st + length ((?p # ks) ! i) < length (at_buf s) \<and> (?p # ks) ! i \<noteq> [] \<and>
           NUL \<notin> set ((?p # ks) ! i) \<and>
           length ((?p # ks) ! i) \<le> AT_CMD_MODE_PIPELINED_AT_CMD_MAX_LEN \<and>
           substr (at_buf (scan_pipes save ?s1)) st (length ((?p # ks) ! i)) = (?p # ks) ! i"
        if "i < length (?p # ks)" for i
      proof (cases i)
        case 0
        then show ?thesis
          using first psub b(1,2) p(3,4) keep(2) lp by auto
      next
        case (Suc j)
        then show ?thesis
          using IH(4) [of j] that \<open>pos \<le> save\<close> b(6) unfolding e by (auto intro: le_trans)
      qed
      moreover have "pipe_infos (scan_pipes save ?s1) ! i = pipe_infos s ! i"
        if "i < pipe_cnt s \<or> pipe_cnt s + length (?p # ks) \<le> i" for i
        using IH(3) [of i] that unfolding e by auto
      ultimately show ?thesis
        using IH(1) tk unfolding scan p(1) e k scan_post_def by simp
    qed
  qed
qed

subsection \<open>Safety of the buffers\<close>

definition at_safe :: "'w at_mode \<Rightarrow> bool" where
  "at_safe s \<longleftrightarrow> length (at_buf s) = Suc AT_CMD_MODE_AT_CMD_MAX_LEN \<and>
     at_buf s ! AT_CMD_MODE_AT_CMD_MAX_LEN = NUL \<and> at_cmd_len s \<le> AT_CMD_MODE_AT_CMD_MAX_LEN \<and>
     length (at_buf_pipelined s) = Suc AT_CMD_MODE_PIPELINED_AT_CMD_MAX_LEN \<and>
     length (pipe_infos s) = AT_MAX_CMD_PIPELINED \<and> pipe_cnt s \<le> AT_MAX_CMD_PIPELINED \<and>
     (\<forall>i<AT_MAX_CMD_PIPELINED. fst (pipe_infos s ! i) + snd (pipe_infos s ! i) \<le> AT_CMD_MODE_AT_CMD_MAX_LEN \<and>
        snd (pipe_infos s ! i) \<le> AT_CMD_MODE_PIPELINED_AT_CMD_MAX_LEN)"

lemma strtok_r_keeps_NUL:
  "strtok_r d buf pos = Some (st, len, buf', save) \<Longrightarrow> i < length buf \<Longrightarrow> buf ! i = NUL \<Longrightarrow> buf' ! i = NUL"
  by (auto simp: strtok_r_def Let_def nth_list_update split: if_splits)

lemma scan_pipes_keeps_NUL:
  "i < length (at_buf s) \<Longrightarrow> at_buf s ! i = NUL \<Longrightarrow> at_buf (scan_pipes pos s) ! i = NUL"
proof (induction pos s rule: scan_pipes.induct)
  case (1 pos s)
  show ?case
  proof (cases "strtok_r PIPE (at_buf s) pos")
    case None
    then show ?thesis using "1.prems" by (simp add: scan_pipes.simps [of pos s])
  next
    case (Some t)
    obtain start len buf save where t: "t = (start, len, buf, save)" by (cases t)
    have "i < length buf" "buf ! i = NUL"
      using strtok_r_bounds(6) [OF Some [unfolded t]] strtok_r_keeps_NUL [OF Some [unfolded t] "1.prems"]
        "1.prems"(1) by simp_all
    then show ?thesis
      using "1.IH" [OF Some t [symmetric] refl refl] Some t by (simp add: scan_pipes.simps [of pos s])
  qed
qed

lemma nth_strcpy_last:
  "length t \<le> n \<Longrightarrow> Suc n = length buf \<Longrightarrow> buf ! n = NUL \<Longrightarrow> strcpy buf t ! n = NUL"
  by (cases "length t = n") (auto simp: strcpy_def blit_def nth_append)

lemma length_strncpy: "n \<le> length buf \<Longrightarrow> length (strncpy buf t n) = length buf"
  by (simp add: strncpy_def Let_def)

lemma length_show_int32: "length (show_int (sint (w :: 32 word))) \<le> 11"
proof -
  have "sint w < 2 ^ 31" "- (2 ^ 31) \<le> sint w"
    using sint_lt [of w] sint_ge [of w] by simp_all
  then have "nat (sint w) < 10 ^ 10" "nat (- sint w) < 10 ^ 10"
    by simp_all
  then show ?thesis
    using length_show_nat_le [of "nat (sint w)" 10] length_show_nat_le [of "nat (- sint w)" 10]
    by (auto simp: show_int_def)
qed

lemma send_at_cmd_result:
  assumes "64 \<le> n"
  shows "length (result (at_cmd_mode_send_at_cmd T c n) s) < n"
proof -
  have "length (show_int (sint (fst (fst (nrf_modem_at_cmd T c n (world s)))))) \<le> 11"
    by (rule length_show_int32)
  moreover have "length (take (n - 1) xs) < n" for xs :: string
    using assms by auto
  ultimately show ?thesis
    using assms by (simp add: at_cmd_mode_send_at_cmd_def exec_simps case_prod_unfold Let_def)
qed

text \<open>Sending changes only the world and the console, and depends only on the world.\<close>

definition obs :: "'w at_mode \<Rightarrow> 'w \<times> out list" where
  "obs s = (world s, console s)"

lemma exec_send: "exec_state (at_cmd_mode_send_at_cmd T c n) s =
     s\<lparr>world := world (exec_state (at_cmd_mode_send_at_cmd T c n) s),
       console := console (exec_state (at_cmd_mode_send_at_cmd T c n) s)\<rparr>"
  by (simp add: at_cmd_mode_send_at_cmd_def exec_state_def case_prod_unfold Let_def)

lemma obs_send_cong:
  "obs s = obs t \<Longrightarrow> obs (exec_state (at_cmd_mode_send_at_cmd T c n) s)
    = obs (exec_state (at_cmd_mode_send_at_cmd T c n) t)"
  by (simp add: obs_def at_cmd_mode_send_at_cmd_def exec_state_def case_prod_unfold Let_def)

lemma exec_send_frame [simp]:
  "at_buf (exec_state (at_cmd_mode_send_at_cmd T c n) s) = at_buf s"
  "at_buf_pipelined (exec_state (at_cmd_mode_send_at_cmd T c n) s) = at_buf_pipelined s"
  "pipe_infos (exec_state (at_cmd_mode_send_at_cmd T c n) s) = pipe_infos s"
  "pipe_cnt (exec_state (at_cmd_mode_send_at_cmd T c n) s) = pipe_cnt s"
  "at_cmd_len (exec_state (at_cmd_mode_send_at_cmd T c n) s) = at_cmd_len s"
  by (subst exec_send; simp)+

lemma exec_upd [exec_simps]: "exec_state (upd f) s = f s" "result (upd f) s = ()"
  by (simp_all add: run_defs)

lemma worker_pipe_run:
  "exec_state (worker_pipe T i) s =
    (if snd (pipe_infos s ! i) = 0 then s
     else let c = (strncpy (at_buf_pipelined s) (drop (fst (pipe_infos s ! i)) (at_buf s)) (snd (pipe_infos s ! i)))
                [snd (pipe_infos s ! i) := NUL];
              t = s\<lparr>at_buf_pipelined := c\<rparr>;
              p = at_cmd_mode_send_at_cmd T (cstr c) (length c)
       in (exec_state p t)\<lparr>at_buf_pipelined := strcpy c (result p t),
            pipe_infos := (pipe_infos s)[i := (fst (pipe_infos s ! i), 0)]\<rparr>)"
  by (simp add: worker_pipe_def exec_simps exec_upd case_prod_unfold Let_def)

lemma worker_pipe_safe:
  assumes "at_safe s" "i < AT_MAX_CMD_PIPELINED"
  shows "at_safe (exec_state (worker_pipe T i) s)"
proof -
  let ?n = "snd (pipe_infos s ! i)"
  let ?c = "(strncpy (at_buf_pipelined s) (drop (fst (pipe_infos s ! i)) (at_buf s)) ?n)[?n := NUL]"
  have n: "?n \<le> length (at_buf_pipelined s)"
    using assms by (auto simp: at_safe_def)
  then have c: "length ?c = Suc AT_CMD_MODE_PIPELINED_AT_CMD_MAX_LEN"
    using assms by (simp add: length_strncpy at_safe_def)
  have "length (strcpy ?c (result (at_cmd_mode_send_at_cmd T (cstr ?c) (length ?c)) t)) = length ?c" for t
    by (rule length_strcpy, rule send_at_cmd_result, unfold c) (simp add: at_sizes)
  then show ?thesis
    using assms c by (auto simp: worker_pipe_run Let_def at_safe_def nth_list_update)
qed

lemma worker_pipes_safe:
  "at_safe s \<Longrightarrow> set is \<subseteq> {..<AT_MAX_CMD_PIPELINED} \<Longrightarrow> at_safe (exec_state (worker_pipes T is) s)"
proof (induction "is" arbitrary: s)
  case (Cons i "is")
  have "at_safe (exec_state (worker_pipe T i) s)"
    using Cons.prems by (intro worker_pipe_safe) auto
  then show ?case
    using Cons.IH [of "exec_state (worker_pipe T i) s"] Cons.prems(2)
    by (simp add: exec_simps)
qed (simp add: exec_simps)

lemma worker_safe: "at_safe s \<Longrightarrow> at_safe (exec_state (at_cmd_mode_worker T) s)"
proof -
  assume s: "at_safe s"
  show ?thesis
  proof (cases "pipe_cnt s = 0")
    case True
    let ?p = "at_cmd_mode_send_at_cmd T (cstr (at_buf s)) (length (at_buf s))"
    have r: "length (result ?p s) < length (at_buf s)"
      using s by (intro send_at_cmd_result) (simp add: at_safe_def at_sizes)
    then have "strcpy (at_buf s) (result ?p s) ! AT_CMD_MODE_AT_CMD_MAX_LEN = NUL"
      using s by (intro nth_strcpy_last) (simp_all add: at_safe_def)
    moreover have "exec_state (at_cmd_mode_worker T) s =
        (exec_state ?p s)\<lparr>at_buf := strcpy (at_buf s) (result ?p s), pipe_cnt := 0\<rparr>"
      using True by (simp add: at_cmd_mode_worker_def at_cmd_mode_send_at_cmd_from_at_buf_def exec_simps)
    ultimately show ?thesis
      using s r by (simp add: at_safe_def)
  next
    case False
    then have "exec_state (at_cmd_mode_worker T) s =
        (exec_state (worker_pipes T [0..<AT_MAX_CMD_PIPELINED]) s)\<lparr>pipe_cnt := 0\<rparr>"
      by (simp add: at_cmd_mode_worker_def exec_simps)
    moreover have "at_safe (exec_state (worker_pipes T [0..<AT_MAX_CMD_PIPELINED]) s)"
      by (rule worker_pipes_safe [OF s]) auto
    ultimately show ?thesis
      by (simp add: at_safe_def)
  qed
qed

subsection \<open>The editor and its specification\<close>

text \<open>
  What the user sees: a line of text, edited at its end. \<open>spec_rx\<close> is one character: the new line,
  and the line sent when the character ends it. Quotes protect terminators.
\<close>

definition line :: "'w at_mode \<Rightarrow> string" where
  "line s = take (at_cmd_len s) (at_buf s)"

definition in_quotes :: "string \<Rightarrow> bool" where
  "in_quotes l = odd (count_list l QUOTE)"

definition ends_line :: "line_termination \<Rightarrow> string \<Rightarrow> char \<Rightarrow> bool" where
  "ends_line m l c = (case m of
     NULL_TERM \<Rightarrow> c = NUL
   | CR_TERM \<Rightarrow> c = CHAR_CR
   | LF_TERM \<Rightarrow> c = CHAR_LF
   | CR_LF_TERM \<Rightarrow> c = CHAR_LF \<and> l \<noteq> [] \<and> last l = CHAR_CR)"

definition spec_rx :: "line_termination \<Rightarrow> string \<Rightarrow> char \<Rightarrow> string \<times> string option" where
  "spec_rx m l c =
     (if c = CHAR_BS \<or> c = CHAR_DEL then (butlast l, None)
      else if \<not> in_quotes l \<and> ends_line m l c then ([], Some l)
      else if length l = AT_CMD_MODE_AT_CMD_MAX_LEN then (l, None)
      else (l @ [c], None))"

definition ed_inv :: "'w at_mode \<Rightarrow> bool" where
  "ed_inv s \<longleftrightarrow> at_safe s \<and> inside_quotes s = in_quotes (line s)"

lemma in_quotes_Nil [simp]: "in_quotes [] = False"
  by (simp add: in_quotes_def)

lemma in_quotes_snoc: "in_quotes (l @ [c]) = (if c = QUOTE then \<not> in_quotes l else in_quotes l)"
  by (simp add: in_quotes_def)

lemma line_length: "at_safe s \<Longrightarrow> length (line s) = at_cmd_len s"
  by (simp add: line_def at_safe_def)

lemma line_last: "at_safe s \<Longrightarrow> 0 < at_cmd_len s \<Longrightarrow> last (line s) = at_buf s ! (at_cmd_len s - 1)"
  by (subst last_conv_nth) (auto simp: line_def at_safe_def)

lemma line_butlast: "at_safe s \<Longrightarrow> butlast (line s) = take (at_cmd_len s - 1) (at_buf s)"
  by (simp add: line_def at_safe_def butlast_take)

lemma line_snoc: "at_safe s \<Longrightarrow> 0 < at_cmd_len s \<Longrightarrow>
    line s = take (at_cmd_len s - 1) (at_buf s) @ [at_buf s ! (at_cmd_len s - 1)]"
  unfolding line_def at_safe_def
  by (cases "at_cmd_len s") (auto simp: take_Suc_conv_app_nth)

lemma terminates_line_spec:
  "ed_inv s \<Longrightarrow> terminates_line s c \<longleftrightarrow> \<not> in_quotes (line s) \<and> ends_line (term_mode s) (line s) c"
proof -
  assume s: "ed_inv s"
  then have "line s = [] \<longleftrightarrow> at_cmd_len s = 0"
    using line_length [of s] by (auto simp: ed_inv_def)
  then show ?thesis
    using s line_last [of s]
    by (cases "term_mode s") (auto simp: terminates_line_def ends_line_def ed_inv_def at_chars)
qed

lemma backspace_run:
  assumes "at_safe s" "0 < at_cmd_len s"
  shows "exec_state backspace s = s\<lparr>
    at_buf := ((at_buf s)[at_cmd_len s := NUL])[at_cmd_len s - 1 := NUL],
    at_cmd_len := at_cmd_len s - 1,
    inside_quotes := (if at_buf s ! (at_cmd_len s - 1) = QUOTE then \<not> inside_quotes s else inside_quotes s),
    console := console (exec_state backspace s)\<rparr>"
  using assms by (simp add: backspace_def exec_simps exec_state_def [of "printk f as" for f as])

lemma scan_all:
  assumes "at_safe s"
  shows "NUL \<in> set (drop 0 (at_buf s))"
  using assms nth_mem [of AT_CMD_MODE_AT_CMD_MAX_LEN "at_buf s"] by (auto simp: at_safe_def)

lemma scan_pipes_safe:
  assumes "at_safe s" "pipe_cnt s = 0"
  shows "at_safe (scan_pipes 0 s)"
proof -
  define ks where "ks = kept AT_MAX_CMD_PIPELINED (pieces (cstr (at_buf s)))"
  have post: "scan_post 0 s (scan_pipes 0 s) ks"
    using scan_pipes_spec [OF scan_all [OF assms(1)]] assms by (simp add: ks_def at_safe_def)
  have ks: "length ks \<le> AT_MAX_CMD_PIPELINED"
    by (simp add: ks_def kept_def)
  have "fst (pipe_infos (scan_pipes 0 s) ! i) + snd (pipe_infos (scan_pipes 0 s) ! i) \<le> AT_CMD_MODE_AT_CMD_MAX_LEN \<and>
      snd (pipe_infos (scan_pipes 0 s) ! i) \<le> AT_CMD_MODE_PIPELINED_AT_CMD_MAX_LEN"
    if "i < AT_MAX_CMD_PIPELINED" for i
  proof (cases "i < length ks")
    case True
    then obtain st where "pipe_infos (scan_pipes 0 s) ! i = (st, length (ks ! i))"
        "st + length (ks ! i) < length (at_buf s)" "length (ks ! i) \<le> AT_CMD_MODE_PIPELINED_AT_CMD_MAX_LEN"
      using post assms(2) unfolding scan_post_def by auto
    then show ?thesis using assms(1) by (simp add: at_safe_def)
  next
    case False
    then have "pipe_infos (scan_pipes 0 s) ! i = pipe_infos s ! i"
      using post assms(2) unfolding scan_post_def by simp
    then show ?thesis using assms(1) that by (simp add: at_safe_def)
  qed
  moreover have "pipe_cnt (scan_pipes 0 s) = length ks"
    using post assms(2) by (simp add: scan_post_def)
  moreover have "at_buf (scan_pipes 0 s) ! AT_CMD_MODE_AT_CMD_MAX_LEN = NUL"
    using assms(1) by (intro scan_pipes_keeps_NUL) (simp_all add: at_safe_def)
  ultimately show ?thesis
    using assms(1) ks by (simp add: at_safe_def)
qed

text \<open>The state in which \<open>send\<close> scans the line, and the one it leaves.\<close>

definition sent_state :: "'w at_mode \<Rightarrow> 'w at_mode" where
  "sent_state s = s\<lparr>at_buf := (at_buf s)[at_cmd_len s := NUL], inside_quotes := False, at_cmd_len := 0,
     pipe_cnt := 0\<rparr>"

lemma send_line_run:
  "exec_state send_line s =
    (let t = sent_state s; u = (if PIPE \<in> set (cstr (at_buf t)) then scan_pipes 0 t else t)
     in u\<lparr>console := console (exec_state send_line s), writing := False, work_queued := True\<rparr>)"
  by (simp add: send_line_def sent_state_def exec_simps Let_def exec_state_def [of "printk f as" for f as])

lemma sent_state_safe: "at_safe s \<Longrightarrow> at_safe (sent_state s)"
  by (auto simp: at_safe_def sent_state_def nth_list_update)

lemma cstr_sent_state: "at_safe s \<Longrightarrow> cstr (at_buf (sent_state s)) = cstr (line s)"
  by (simp add: sent_state_def line_def at_safe_def upd_conv_take_nth_drop cstr_def takeWhile_append_NUL)

lemma send_line_inv:
  assumes "at_safe s"
  shows "ed_inv (exec_state send_line s)" "line (exec_state send_line s) = []"
    "work_queued (exec_state send_line s)"
  using scan_pipes_safe [OF sent_state_safe [OF assms]] sent_state_safe [OF assms]
  unfolding ed_inv_def line_def
  by (subst send_line_run, simp add: Let_def at_safe_def sent_state_def)+

lemma rx_run:
  "exec_state (at_cmd_mode_cmd_rx_handler c) s =
    (let t = s\<lparr>writing := True\<rparr> in
     if c = CHAR_BS \<or> c = CHAR_DEL then (if at_cmd_len s = 0 then t else exec_state backspace t)
     else if terminates_line s c then exec_state send_line t
     else if length (at_buf s) - 1 < at_cmd_len s + 1 then t\<lparr>console := console (exec_state (at_cmd_mode_cmd_rx_handler c) s)\<rparr>
     else t\<lparr>at_buf := (at_buf s)[at_cmd_len s := c], at_cmd_len := Suc (at_cmd_len s),
       inside_quotes := (if c = QUOTE then \<not> inside_quotes s else inside_quotes s),
       console := console (exec_state (at_cmd_mode_cmd_rx_handler c) s)\<rparr>)"
proof -
  have t: "terminates_line (s\<lparr>writing := True\<rparr>) c = terminates_line s c"
    by (simp add: terminates_line_def)
  show ?thesis
    by (simp add: at_cmd_mode_cmd_rx_handler_def exec_simps Let_def t
        exec_state_def [of "printk f as" for f as])
qed

lemma rx_inv:
  fixes s :: "'w at_mode" and c :: char
  assumes "ed_inv s"
  defines "s' \<equiv> exec_state (at_cmd_mode_cmd_rx_handler c) s"
    and "r \<equiv> spec_rx (term_mode s) (line s) c"
  shows "ed_inv s' \<and> line s' = fst r \<and> work_queued s' = (work_queued s \<or> snd r \<noteq> None)"
proof -
  let ?t = "s\<lparr>writing := True\<rparr>"
  have safe: "at_safe s" and safe': "at_safe ?t" and q: "inside_quotes s = in_quotes (line s)"
    using assms(1) by (simp_all add: ed_inv_def at_safe_def)
  have l: "length (line s) = at_cmd_len s" "line ?t = line s"
    using line_length [OF safe] by (simp_all add: line_def)
  consider (empty) "c = CHAR_BS \<or> c = CHAR_DEL" "at_cmd_len s = 0"
    | (bs) "c = CHAR_BS \<or> c = CHAR_DEL" "0 < at_cmd_len s"
    | (send) "\<not> (c = CHAR_BS \<or> c = CHAR_DEL)" "terminates_line s c"
    | (full) "\<not> (c = CHAR_BS \<or> c = CHAR_DEL)" "\<not> terminates_line s c" "at_cmd_len s = AT_CMD_MODE_AT_CMD_MAX_LEN"
    | (typed) "\<not> (c = CHAR_BS \<or> c = CHAR_DEL)" "\<not> terminates_line s c" "at_cmd_len s < AT_CMD_MODE_AT_CMD_MAX_LEN"
    using safe by (auto simp: at_safe_def le_less)
  then show ?thesis
  proof cases
    case empty
    then have "s' = ?t" "r = ([], None)"
      using l by (simp_all add: s'_def r_def rx_run [of c s] Let_def spec_rx_def)
    then show ?thesis
      using empty assms(1) by (simp add: ed_inv_def at_safe_def line_def)
  next
    case bs
    define n where "n = at_cmd_len s - 1"
    have n: "at_cmd_len s = Suc n" "n < AT_CMD_MODE_AT_CMD_MAX_LEN"
      using bs safe unfolding n_def at_safe_def by linarith+
    have s': "s' = exec_state backspace ?t" and r: "r = (butlast (line s), None)"
      using bs by (simp_all add: s'_def r_def rx_run [of c s] Let_def spec_rx_def)
    have s'': "s' = ?t\<lparr>at_buf := ((at_buf s)[Suc n := NUL])[n := NUL], at_cmd_len := n,
        inside_quotes := (if at_buf s ! n = QUOTE then \<not> inside_quotes s else inside_quotes s),
        console := console s'\<rparr>"
      unfolding s' by (subst backspace_run [OF safe']) (simp_all add: n)
    have line': "line s' = take n (at_buf s)"
      by (subst s'') (simp add: line_def)
    have "line s = take n (at_buf s) @ [at_buf s ! n]"
      using line_snoc [OF safe] n by simp
    then have "in_quotes (line s) = (if at_buf s ! n = QUOTE then \<not> in_quotes (line s') else in_quotes (line s'))"
      using in_quotes_snoc [of "take n (at_buf s)" "at_buf s ! n"] by (simp add: line')
    then have "inside_quotes s' = in_quotes (line s')"
      using q by (subst s'') auto
    moreover have "at_safe s'"
      using safe n by (subst s'') (simp add: at_safe_def nth_list_update)
    ultimately show ?thesis
      using line_butlast [OF safe] n by (simp add: ed_inv_def r line') (subst s'', simp)
  next
    case send
    then have "s' = exec_state send_line ?t" "r = ([], Some (line s))"
      using terminates_line_spec [OF assms(1), of c]
      by (simp_all add: s'_def r_def rx_run [of c s] Let_def spec_rx_def)
    then show ?thesis
      using send_line_inv [OF safe'] by simp
  next
    case full
    then have s': "s' = ?t\<lparr>console := console s'\<rparr>" and r: "r = (line s, None)"
      using terminates_line_spec [OF assms(1), of c] l safe
      by (auto simp: s'_def r_def rx_run [of c s] Let_def spec_rx_def at_safe_def)
    show ?thesis
      using assms(1) by (subst (1 2 3) s') (simp add: r ed_inv_def at_safe_def line_def)
  next
    case typed
    let ?n = "at_cmd_len s"
    have s': "s' = ?t\<lparr>at_buf := (at_buf s)[?n := c], at_cmd_len := Suc ?n,
        inside_quotes := (if c = QUOTE then \<not> inside_quotes s else inside_quotes s), console := console s'\<rparr>"
      and r: "r = (line s @ [c], None)"
      using typed terminates_line_spec [OF assms(1), of c] l safe
      by (auto simp: s'_def r_def rx_run [of c s] Let_def spec_rx_def at_safe_def)
    have line': "line s' = line s @ [c]"
      using typed safe by (subst s') (simp add: line_def take_Suc_list_update at_safe_def)
    have "inside_quotes s' = in_quotes (line s')"
      using q unfolding line' by (subst s') (simp add: in_quotes_snoc)
    moreover have "at_safe s'"
      using safe typed(3) by (subst s') (simp add: at_safe_def)
    ultimately show ?thesis
      by (simp add: ed_inv_def r line') (subst s', simp)
  qed
qed

subsection \<open>What the modem gets\<close>

primrec send_all :: "'w at_api \<Rightarrow> nat \<Rightarrow> string list \<Rightarrow> ('w, unit) at_prog" where
  "send_all T n [] = return ()"
| "send_all T n (c # cs) = do { _ \<leftarrow> at_cmd_mode_send_at_cmd T c n; send_all T n cs }"

lemma obs_send_all_cong:
  "obs s = obs t \<Longrightarrow> obs (exec_state (send_all T n cs) s) = obs (exec_state (send_all T n cs) t)"
proof (induction cs arbitrary: s t)
  case (Cons c cs)
  show ?case
    using Cons.IH [OF obs_send_cong [OF Cons.prems, of T c n]] by (simp add: exec_simps)
qed (simp add: exec_simps)

lemma take_cstr: "NUL \<notin> set (take n xs) \<Longrightarrow> take n (cstr xs) = take n xs"
proof (induction xs arbitrary: n)
  case (Cons x xs)
  then show ?case by (cases n) (auto simp: cstr_def)
qed (simp add: cstr_def)

lemma cstr_strncpy:
  assumes "NUL \<notin> set (take n xs)" "n \<le> length xs" "n < length buf"
  shows "cstr ((strncpy buf xs n)[n := NUL]) = take n xs"
proof -
  have "strncpy buf xs n = take n xs @ drop n buf"
    using take_cstr [OF assms(1)] assms(2) by (simp add: strncpy_def blit_def Let_def)
  then have "(strncpy buf xs n)[n := NUL] = take n xs @ NUL # drop (Suc n) buf"
    using assms(2,3) by (simp add: list_update_append Cons_nth_drop_Suc [symmetric])
  then show ?thesis
    using assms(1) by simp
qed

definition good_pipe :: "'w at_mode \<Rightarrow> nat \<Rightarrow> bool" where
  "good_pipe s i \<longleftrightarrow> NUL \<notin> set (pipe_text s i) \<and> length (pipe_text s i) = snd (pipe_infos s ! i) \<and>
     snd (pipe_infos s ! i) \<le> AT_CMD_MODE_PIPELINED_AT_CMD_MAX_LEN"

lemma worker_pipe_obs:
  assumes "length (at_buf_pipelined s) = Suc AT_CMD_MODE_PIPELINED_AT_CMD_MAX_LEN"
    and "snd (pipe_infos s ! i) \<noteq> 0" "good_pipe s i"
  shows "obs (exec_state (worker_pipe T i) s) = obs (exec_state (at_cmd_mode_send_at_cmd T (pipe_text s i)
      (Suc AT_CMD_MODE_PIPELINED_AT_CMD_MAX_LEN)) s)"
proof -
  obtain st n where p: "pipe_infos s ! i = (st, n)" by fastforce
  let ?c = "(strncpy (at_buf_pipelined s) (drop st (at_buf s)) n)[n := NUL]"
  have tx: "pipe_text s i = take n (drop st (at_buf s))" "NUL \<notin> set (take n (drop st (at_buf s)))"
      "n \<le> length (drop st (at_buf s))" "n \<le> AT_CMD_MODE_PIPELINED_AT_CMD_MAX_LEN"
    using assms(3) by (auto simp: good_pipe_def pipe_text_def p substr_def)
  have c: "cstr ?c = pipe_text s i"
    using cstr_strncpy [OF tx(2,3), of "at_buf_pipelined s"] tx(1,4) assms(1) by simp
  have l: "length ?c = Suc AT_CMD_MODE_PIPELINED_AT_CMD_MAX_LEN"
    using tx(4) assms(1) by (simp add: length_strncpy)
  have "obs (exec_state (worker_pipe T i) s) =
      obs (exec_state (at_cmd_mode_send_at_cmd T (cstr ?c) (length ?c)) (s\<lparr>at_buf_pipelined := ?c\<rparr>))"
    using assms(2) by (simp add: worker_pipe_run p Let_def) (simp add: obs_def)
  also have "\<dots> = obs (exec_state (at_cmd_mode_send_at_cmd T (cstr ?c) (length ?c)) s)"
    by (rule obs_send_cong) (simp add: obs_def)
  finally show ?thesis
    by (simp only: c l)
qed

lemma worker_pipe_frame:
  "at_buf (exec_state (worker_pipe T i) s) = at_buf s"
  "pipe_infos (exec_state (worker_pipe T i) s) = (pipe_infos s)[i := (fst (pipe_infos s ! i), 0)]
   \<or> snd (pipe_infos s ! i) = 0 \<and> pipe_infos (exec_state (worker_pipe T i) s) = pipe_infos s"
  by (simp_all add: worker_pipe_run Let_def)

lemma worker_pipe_other:
  "j \<noteq> i \<Longrightarrow> pipe_infos (exec_state (worker_pipe T i) s) ! j = pipe_infos s ! j"
  using worker_pipe_frame(2) [of T i s] by auto

lemma worker_pipes_obs:
  assumes "at_safe s" "distinct is" "set is \<subseteq> {..<AT_MAX_CMD_PIPELINED}"
    and "\<And>i. i \<in> set is \<Longrightarrow> snd (pipe_infos s ! i) \<noteq> 0 \<Longrightarrow> good_pipe s i"
  shows "obs (exec_state (worker_pipes T is) s) =
      obs (exec_state (send_all T (Suc AT_CMD_MODE_PIPELINED_AT_CMD_MAX_LEN)
        (map (pipe_text s) (filter (\<lambda>i. snd (pipe_infos s ! i) \<noteq> 0) is))) s) \<and>
    (\<forall>i\<in>set is. snd (pipe_infos (exec_state (worker_pipes T is) s) ! i) = 0)"
  using assms
proof (induction "is" arbitrary: s)
  case (Cons i "is")
  define t where "t = exec_state (worker_pipe T i) s"
  have i: "i < AT_MAX_CMD_PIPELINED" using Cons.prems by auto
  have tsafe: "at_safe t"
    unfolding t_def by (rule worker_pipe_safe [OF Cons.prems(1) i])
  have other: "pipe_infos t ! j = pipe_infos s ! j" if "j \<in> set is" for j
    using that Cons.prems(2) unfolding t_def by (intro worker_pipe_other) auto
  have tx: "pipe_text t j = pipe_text s j" if "j \<in> set is" for j
    using other [OF that] worker_pipe_frame(1) [of T i s] by (simp add: pipe_text_def t_def)
  have zero: "snd (pipe_infos t ! i) = 0"
    using worker_pipe_frame(2) [of T i s] i Cons.prems(1) by (auto simp: t_def at_safe_def)
  have IH: "obs (exec_state (worker_pipes T is) t) =
      obs (exec_state (send_all T (Suc AT_CMD_MODE_PIPELINED_AT_CMD_MAX_LEN)
        (map (pipe_text t) (filter (\<lambda>i. snd (pipe_infos t ! i) \<noteq> 0) is))) t)"
      "\<forall>i\<in>set is. snd (pipe_infos (exec_state (worker_pipes T is) t) ! i) = 0"
    using Cons.IH [OF tsafe] Cons.prems other tx by (auto simp: good_pipe_def)
  have cmds: "map (pipe_text t) (filter (\<lambda>i. snd (pipe_infos t ! i) \<noteq> 0) is)
      = map (pipe_text s) (filter (\<lambda>i. snd (pipe_infos s ! i) \<noteq> 0) is)"
    using other tx by (auto intro!: map_cong filter_cong)
  have keep: "j \<notin> set js \<Longrightarrow> pipe_infos (exec_state (worker_pipes T js) u) ! j = pipe_infos u ! j" for j js u
    by (induction js arbitrary: u) (auto simp: exec_simps worker_pipe_other)
  have "snd (pipe_infos (exec_state (worker_pipes T is) t) ! i) = 0"
    using keep [of i "is" t] Cons.prems(2) zero by simp
  moreover have "obs (exec_state (worker_pipes T (i # is)) s) =
      obs (exec_state (send_all T (Suc AT_CMD_MODE_PIPELINED_AT_CMD_MAX_LEN)
        (map (pipe_text s) (filter (\<lambda>i. snd (pipe_infos s ! i) \<noteq> 0) (i # is)))) s)"
  proof (cases "snd (pipe_infos s ! i) = 0")
    case True
    then have "t = s" by (simp add: t_def worker_pipe_run)
    then show ?thesis using IH(1) True by (simp add: exec_simps t_def [symmetric])
  next
    case False
    have "obs t = obs (exec_state (at_cmd_mode_send_at_cmd T (pipe_text s i)
        (Suc AT_CMD_MODE_PIPELINED_AT_CMD_MAX_LEN)) s)"
      unfolding t_def using worker_pipe_obs [of s i T] Cons.prems(1,4) False
      by (simp add: at_safe_def)
    from obs_send_all_cong [OF this] show ?thesis
      using IH(1) [unfolded cmds] False by (simp add: exec_simps t_def [symmetric])
  qed
  ultimately show ?case
    using IH(2) by (simp add: exec_simps t_def [symmetric])
qed (simp add: exec_simps)

text \<open>
  The commands of a line: its pieces that are short enough, at most ten; or, when it has no
  separator or no piece is kept, the buffer as it is then, cut after the first piece.
\<close>

definition first_cut :: "string \<Rightarrow> string" where
  "first_cut c = (if PIPE \<in> set c then
      (case pieces c of [] \<Rightarrow> c | p # _ \<Rightarrow> takeWhile (\<lambda>x. x = PIPE) c @ p) else c)"

definition piped :: "string \<Rightarrow> bool" where
  "piped c \<longleftrightarrow> PIPE \<in> set c \<and> kept AT_MAX_CMD_PIPELINED (pieces c) \<noteq> []"

definition line_commands :: "string \<Rightarrow> string list" where
  "line_commands c = (if piped c then kept AT_MAX_CMD_PIPELINED (pieces c) else [first_cut c])"

definition response_size :: "string \<Rightarrow> nat" where
  "response_size c = (if piped c then Suc AT_CMD_MODE_PIPELINED_AT_CMD_MAX_LEN
     else Suc AT_CMD_MODE_AT_CMD_MAX_LEN)"

definition idle :: "'w at_mode \<Rightarrow> bool" where
  "idle s \<longleftrightarrow> (\<forall>i<AT_MAX_CMD_PIPELINED. snd (pipe_infos s ! i) = 0)"

lemma cstr_upto: "m < length b \<Longrightarrow> b ! m = NUL \<Longrightarrow> NUL \<notin> set (take m b) \<Longrightarrow> cstr b = take m b"
  using id_take_nth_drop [of m b] cstr_append_NUL [of "take m b" "drop (Suc m) b"] by simp

lemma scan_first_cut:
  assumes "at_safe t" "pipe_cnt t = 0" "PIPE \<in> set (cstr (at_buf t))"
  shows "cstr (at_buf (scan_pipes 0 t)) = first_cut (cstr (at_buf t))"
proof (cases "strtok_r PIPE (at_buf t) 0")
  case None
  then have "pieces (cstr (at_buf t)) = []"
    using strtok_r_piece [OF scan_all [OF assms(1)]] by simp
  then show ?thesis using None by (simp add: scan_pipes.simps [of 0 t] first_cut_def)
next
  case (Some x)
  obtain start len buf save where x: "x = (start, len, buf, save)" by (cases x)
  let ?p = "substr (at_buf t) start len"
  let ?t1 = "keep_pipe start len (t\<lparr>at_buf := buf\<rparr>)"
  have p: "pieces (cstr (at_buf t)) = ?p # pieces (cstr (drop save buf))" "NUL \<in> set (drop save buf)"
      "start + len < length (at_buf t)" "NUL \<notin> set ?p" "take (start + len) buf = take (start + len) (at_buf t)"
      "buf ! (start + len) = NUL" "start = length (takeWhile (\<lambda>c. c = PIPE) (cstr (at_buf t)))"
    using strtok_r_piece [OF scan_all [OF assms(1)]] unfolding Some x option.case prod.case by auto
  note b = strtok_r_bounds [OF Some [unfolded x]]
  define m where "m = start + len"
  have scan: "scan_pipes 0 t = scan_pipes save ?t1"
    by (simp add: scan_pipes.simps [of 0 t] Some x)
  have "pipe_cnt ?t1 \<le> AT_MAX_CMD_PIPELINED" "length (pipe_infos ?t1) = AT_MAX_CMD_PIPELINED"
    using assms(1,2) by (simp_all add: keep_pipe_def at_safe_def at_sizes)
  then have tk: "take save (at_buf (scan_pipes 0 t)) = take save buf"
    unfolding scan using scan_pipes_spec [of save ?t1] p(2) by (simp add: scan_post_def)
  have "take m (at_buf (scan_pipes 0 t)) = take m (at_buf t)"
    using tk p(5) b(4) unfolding m_def by (metis min.absorb1 take_take)
  moreover have "at_buf (scan_pipes 0 t) ! m = NUL"
    unfolding scan using p(3,6) b(6) by (intro scan_pipes_keeps_NUL) (simp_all add: m_def)
  moreover have tm: "take m (at_buf t) = takeWhile (\<lambda>c. c = PIPE) (cstr (at_buf t)) @ ?p"
  proof -
    have "take start (at_buf t) = takeWhile (\<lambda>c. c = PIPE) (cstr (at_buf t))"
      by (metis p(7) cstr_def takeWhile_eq_take takeWhile_takeWhile length_takeWhile_le min.absorb1 take_take)
    then show ?thesis by (simp add: m_def take_add substr_def)
  qed
  moreover have "NUL \<notin> set (take m (at_buf t))"
    using p(4) unfolding tm by (auto dest: set_takeWhileD)
  moreover have "m < length (at_buf (scan_pipes 0 t))"
    using p(3) by (simp add: m_def)
  ultimately have "cstr (at_buf (scan_pipes 0 t)) = takeWhile (\<lambda>c. c = PIPE) (cstr (at_buf t)) @ ?p"
    using cstr_upto by metis
  then show ?thesis
    using p(1) assms(3) by (simp add: first_cut_def)
qed

lemma worker_obs:
  assumes "at_safe t"
    and "pipe_cnt t \<noteq> 0 \<Longrightarrow> \<forall>i<AT_MAX_CMD_PIPELINED. snd (pipe_infos t ! i) \<noteq> 0 \<longrightarrow> good_pipe t i"
  shows "obs (exec_state (at_cmd_mode_worker T) t) =
      obs (exec_state (if pipe_cnt t = 0 then send_all T (length (at_buf t)) [cstr (at_buf t)]
        else send_all T (Suc AT_CMD_MODE_PIPELINED_AT_CMD_MAX_LEN)
          (map (pipe_text t) (filter (\<lambda>i. snd (pipe_infos t ! i) \<noteq> 0) [0..<AT_MAX_CMD_PIPELINED]))) t)"
    and "pipe_cnt t \<noteq> 0 \<or> idle t \<Longrightarrow> idle (exec_state (at_cmd_mode_worker T) t)"
proof -
  have up: "obs (upf s) = obs s" if "\<And>s. world (upf s) = world s" "\<And>s. console (upf s) = console s"
    for upf :: "'a at_mode \<Rightarrow> 'a at_mode" and s
    using that by (simp add: obs_def)
  have cnt: "obs (s\<lparr>pipe_cnt := n\<rparr>) = obs s" "obs (s\<lparr>at_buf := b\<rparr>) = obs s" for s :: "'a at_mode" and n b
    by (simp_all add: obs_def)
  have ids: "idle (s\<lparr>pipe_cnt := n\<rparr>) = idle s" "idle (s\<lparr>at_buf := b\<rparr>) = idle s" for s :: "'a at_mode" and n b
    by (simp_all add: idle_def)
  have idsend: "idle (exec_state (at_cmd_mode_send_at_cmd T c n) s) = idle s" for c n and s :: "'a at_mode"
    by (simp add: idle_def)
  have pipes: "pipe_cnt t \<noteq> 0 \<Longrightarrow> obs (exec_state (worker_pipes T [0..<AT_MAX_CMD_PIPELINED]) t) =
      obs (exec_state (send_all T (Suc AT_CMD_MODE_PIPELINED_AT_CMD_MAX_LEN)
        (map (pipe_text t) (filter (\<lambda>i. snd (pipe_infos t ! i) \<noteq> 0) [0..<AT_MAX_CMD_PIPELINED]))) t) \<and>
    (\<forall>i\<in>set [0..<AT_MAX_CMD_PIPELINED]. snd (pipe_infos (exec_state (worker_pipes T [0..<AT_MAX_CMD_PIPELINED]) t) ! i) = 0)"
    by (rule worker_pipes_obs [OF assms(1)]) (use assms(2) in auto)
  show "obs (exec_state (at_cmd_mode_worker T) t) =
      obs (exec_state (if pipe_cnt t = 0 then send_all T (length (at_buf t)) [cstr (at_buf t)]
        else send_all T (Suc AT_CMD_MODE_PIPELINED_AT_CMD_MAX_LEN)
          (map (pipe_text t) (filter (\<lambda>i. snd (pipe_infos t ! i) \<noteq> 0) [0..<AT_MAX_CMD_PIPELINED]))) t)"
    using pipes
    by (simp add: at_cmd_mode_worker_def at_cmd_mode_send_at_cmd_from_at_buf_def exec_simps cnt)
  show "pipe_cnt t \<noteq> 0 \<or> idle t \<Longrightarrow> idle (exec_state (at_cmd_mode_worker T) t)"
    using pipes
    by (auto simp: at_cmd_mode_worker_def at_cmd_mode_send_at_cmd_from_at_buf_def exec_simps ids idsend)
      (auto simp: idle_def)
qed

lemma scanned_line:
  assumes "at_safe s" "idle s"
  defines "u \<equiv> (if PIPE \<in> set (cstr (line s)) then scan_pipes 0 (sent_state s) else sent_state s)"
    and "ks \<equiv> kept AT_MAX_CMD_PIPELINED (pieces (cstr (line s)))"
  shows "pipe_cnt u = (if piped (cstr (line s)) then length ks else 0)"
    and "piped (cstr (line s)) \<Longrightarrow>
      map (pipe_text u) (filter (\<lambda>i. snd (pipe_infos u ! i) \<noteq> 0) [0..<AT_MAX_CMD_PIPELINED]) = ks"
    and "i < AT_MAX_CMD_PIPELINED \<Longrightarrow> snd (pipe_infos u ! i) \<noteq> 0 \<Longrightarrow> good_pipe u i"
    and "\<not> piped (cstr (line s)) \<Longrightarrow> cstr (at_buf u) = first_cut (cstr (line s)) \<and> idle u"
    and "at_safe u"
proof -
  let ?t = "sent_state s"
  have t: "at_safe ?t" "pipe_cnt ?t = 0" "cstr (at_buf ?t) = cstr (line s)" "idle ?t"
    using sent_state_safe [OF assms(1)] cstr_sent_state [OF assms(1)] assms(2)
    by (simp_all add: sent_state_def idle_def)
  have post: "scan_post 0 ?t (scan_pipes 0 ?t) ks"
    using scan_pipes_spec [OF scan_all [OF t(1)]] t(1,2,3) by (simp add: ks_def at_safe_def)
  have len: "length ks \<le> AT_MAX_CMD_PIPELINED"
    by (simp add: ks_def kept_def)
  have ent: "\<exists>st. pipe_infos (scan_pipes 0 ?t) ! i = (st, length (ks ! i)) \<and> ks ! i \<noteq> [] \<and>
      NUL \<notin> set (ks ! i) \<and> length (ks ! i) \<le> AT_CMD_MODE_PIPELINED_AT_CMD_MAX_LEN \<and>
      pipe_text (scan_pipes 0 ?t) i = ks ! i" if i: "i < length ks" for i
  proof -
    obtain st where "pipe_infos (scan_pipes 0 ?t) ! i = (st, length (ks ! i))" "ks ! i \<noteq> []"
        "NUL \<notin> set (ks ! i)" "length (ks ! i) \<le> AT_CMD_MODE_PIPELINED_AT_CMD_MAX_LEN"
        "substr (at_buf (scan_pipes 0 ?t)) st (length (ks ! i)) = ks ! i"
      using post [unfolded scan_post_def t(2) add_0, THEN conjunct2, THEN conjunct2, THEN conjunct2,
        rule_format, OF i] by blast
    then show ?thesis by (simp add: pipe_text_def)
  qed
  have rest: "snd (pipe_infos (scan_pipes 0 ?t) ! i) = 0" if "length ks \<le> i" "i < AT_MAX_CMD_PIPELINED" for i
    using post t(2,4) that unfolding scan_post_def by (simp add: idle_def)
  show cnt: "pipe_cnt u = (if piped (cstr (line s)) then length ks else 0)"
    using post t(2) by (simp add: scan_post_def u_def piped_def ks_def)
  show "at_safe u"
    using t scan_pipes_safe [OF t(1,2)] by (simp add: u_def)
  show "good_pipe u i" if "i < AT_MAX_CMD_PIPELINED" "snd (pipe_infos u ! i) \<noteq> 0"
  proof (cases "PIPE \<in> set (cstr (line s))")
    case True
    then have "i < length ks" using that rest [of i] by (auto simp: u_def not_less [symmetric])
    then show ?thesis using True ent [of i] by (auto simp: u_def good_pipe_def)
  next
    case False
    then show ?thesis using that t(4) by (simp add: u_def idle_def)
  qed
  show "map (pipe_text u) (filter (\<lambda>i. snd (pipe_infos u ! i) \<noteq> 0) [0..<AT_MAX_CMD_PIPELINED]) = ks"
    if "piped (cstr (line s))"
  proof -
    have u: "u = scan_pipes 0 ?t" using that by (simp add: u_def piped_def)
    have "[0..<AT_MAX_CMD_PIPELINED] = [0..<length ks] @ [length ks..<AT_MAX_CMD_PIPELINED]"
      using upt_add_eq_append [of 0 "length ks" "AT_MAX_CMD_PIPELINED - length ks"] len by simp
    then have "filter (\<lambda>i. snd (pipe_infos u ! i) \<noteq> 0) [0..<AT_MAX_CMD_PIPELINED] =
        filter (\<lambda>i. snd (pipe_infos u ! i) \<noteq> 0) [0..<length ks] @
        filter (\<lambda>i. snd (pipe_infos u ! i) \<noteq> 0) [length ks..<AT_MAX_CMD_PIPELINED]"
      by (simp only: filter_append)
    also have "filter (\<lambda>i. snd (pipe_infos u ! i) \<noteq> 0) [0..<length ks] = [0..<length ks]"
    proof (rule filter_True, rule ballI)
      fix i assume "i \<in> set [0..<length ks]"
      then show "snd (pipe_infos u ! i) \<noteq> 0" using ent [of i] by (auto simp: u)
    qed
    also have "filter (\<lambda>i. snd (pipe_infos u ! i) \<noteq> 0) [length ks..<AT_MAX_CMD_PIPELINED] = []"
      using rest by (intro filter_False) (auto simp: u)
    finally have f: "filter (\<lambda>i. snd (pipe_infos u ! i) \<noteq> 0) [0..<AT_MAX_CMD_PIPELINED] = [0..<length ks]"
      by simp
    show ?thesis
    proof (rule nth_equalityI)
      fix i assume "i < length (map (pipe_text u) (filter (\<lambda>i. snd (pipe_infos u ! i) \<noteq> 0) [0..<AT_MAX_CMD_PIPELINED]))"
      then have "i < length ks" unfolding f by simp
      then show "map (pipe_text u) (filter (\<lambda>i. snd (pipe_infos u ! i) \<noteq> 0) [0..<AT_MAX_CMD_PIPELINED]) ! i = ks ! i"
        using ent [of i] unfolding f by (auto simp: u)
    qed (unfold f, simp)
  qed
  show "cstr (at_buf u) = first_cut (cstr (line s)) \<and> idle u" if "\<not> piped (cstr (line s))"
  proof (cases "PIPE \<in> set (cstr (line s))")
    case True
    then have "ks = []" using that by (simp add: piped_def ks_def)
    then show ?thesis
      using True scan_first_cut [OF t(1,2)] t(3) rest by (simp add: u_def idle_def)
  next
    case False
    then show ?thesis using t by (simp add: u_def first_cut_def)
  qed
qed

lemma line_sent:
  fixes T :: "'w at_api"
  assumes "ed_inv s" "idle s" "snd (spec_rx (term_mode s) (line s) c) = Some l"
  defines "t \<equiv> exec_state (at_cmd_mode_cmd_rx_handler c) s"
  shows "world t = world s \<and>
     obs (exec_state (at_cmd_mode_worker T) t) =
     obs (exec_state (send_all T (response_size (cstr l)) (line_commands (cstr l))) t) \<and>
     idle (exec_state (at_cmd_mode_worker T) t)"
proof -
  let ?s = "s\<lparr>writing := True\<rparr>"
  have l: "l = line s" "\<not> (c = CHAR_BS \<or> c = CHAR_DEL)" "terminates_line s c"
    using assms(1,3) terminates_line_spec [OF assms(1), of c] by (auto simp: spec_rx_def split: if_splits)
  have s: "at_safe ?s" "idle ?s" "line ?s = line s"
    using assms(1,2) by (simp_all add: ed_inv_def at_safe_def idle_def line_def)
  define u where "u = (if PIPE \<in> set (cstr (line s)) then scan_pipes 0 (sent_state ?s) else sent_state ?s)"
  have t: "t = u\<lparr>console := console t, writing := False, work_queued := True\<rparr>"
  proof -
    have "t = exec_state send_line ?s"
      using l(2,3) unfolding t_def by (subst rx_run) (simp add: Let_def)
    then show ?thesis
      using cstr_sent_state [OF s(1)] s(3) send_line_run [of ?s] by (simp add: Let_def u_def)
  qed
  note u = scanned_line [OF s(1,2), unfolded s(3), folded u_def]
  have "world t = world u" by (subst t) simp
  then have w: "world t = world s" by (simp add: u_def sent_state_def)
  have e: "pipe_cnt t = pipe_cnt u" "at_buf t = at_buf u" "pipe_infos t = pipe_infos u"
      "at_safe t" "idle t = idle u" "good_pipe t = good_pipe u" "pipe_text t = pipe_text u"
    using u(5) by (subst t; simp add: at_safe_def idle_def fun_eq_iff good_pipe_def pipe_text_def)+
  have good: "\<forall>i<AT_MAX_CMD_PIPELINED. snd (pipe_infos t ! i) \<noteq> 0 \<longrightarrow> good_pipe t i"
    using u(3) by (simp add: e)
  have lb: "length (at_buf t) = Suc AT_CMD_MODE_AT_CMD_MAX_LEN"
    using e(4) by (simp add: at_safe_def)
  have nz: "piped (cstr (line s)) \<Longrightarrow> kept AT_MAX_CMD_PIPELINED (pieces (cstr (line s))) \<noteq> []"
    by (simp add: piped_def)
  have "obs (exec_state (at_cmd_mode_worker T) t) =
     obs (exec_state (send_all T (response_size (cstr l)) (line_commands (cstr l))) t)"
    using worker_obs(1) [OF e(4) good, of T] u(1,2,4) nz lb
    by (auto simp: e l(1) response_size_def line_commands_def split: if_splits)
  moreover have "idle (exec_state (at_cmd_mode_worker T) t)"
    using worker_obs(2) [OF e(4) good, of T] u(1,4) nz by (auto simp: e split: if_splits)
  ultimately show ?thesis
    using w by simp
qed

subsection \<open>Frames\<close>

lemma keeps_upd [keeps_intros]: "(\<And>s. f (g s) = f s) \<Longrightarrow> keeps f (upd g)"
  by (simp add: upd_def keeps_modify)

lemma keeps_printk [keeps_intros]:
  "(\<And>s c. f (s\<lparr>console := c\<rparr>) = f s) \<Longrightarrow> keeps f (printk fmt args)"
  by (simp add: printk_def keeps_modify)

definition modes :: "'w at_mode \<Rightarrow> line_termination \<times> bool \<times> char \<times> bool" where
  "modes s = (term_mode s, at_cmd_mode_active s, tail s, at_cmd_mode_echo_on s)"

lemma modes_frame [simp]:
  "modes (s\<lparr>console := x\<rparr>) = modes s" "modes (s\<lparr>at_buf := b\<rparr>) = modes s"
  "modes (s\<lparr>at_cmd_len := n\<rparr>) = modes s" "modes (s\<lparr>writing := w\<rparr>) = modes s"
  "modes (s\<lparr>inside_quotes := q\<rparr>) = modes s" "modes (s\<lparr>pipe_cnt := k\<rparr>) = modes s"
  "modes (s\<lparr>work_queued := w\<rparr>) = modes s"
  by (simp_all add: modes_def)

lemma modes_scan_pipes [simp]: "modes (scan_pipes pos s) = modes s"
  by (simp add: modes_def)

lemma keeps_modes_rx [keeps_intros]: "keeps modes (at_cmd_mode_cmd_rx_handler c)"
  unfolding at_cmd_mode_cmd_rx_handler_def backspace_def send_line_def
  by (intro keeps_intros) (simp_all split: if_splits)

lemma keeps_modes_rx_all [keeps_intros]: "keeps modes (rx_all cs)"
  by (induction cs) (auto intro!: keeps_intros)

subsection \<open>The editor refines its specification\<close>

text \<open>The editor as the user sees it: how lines end, the line, and whether a line was handed over.\<close>

definition editor :: "'w at_mode \<Rightarrow> line_termination \<times> string \<times> bool" where
  "editor s = (term_mode s, line s, work_queued s)"

definition spec_editor :: "line_termination \<times> string \<times> bool \<Rightarrow> char \<Rightarrow> line_termination \<times> string \<times> bool" where
  "spec_editor e c = (case e of (m, l, q) \<Rightarrow>
     (m, fst (spec_rx m l c), q \<or> snd (spec_rx m l c) \<noteq> None))"

abbreviation rx_step :: "'w at_mode \<Rightarrow> char \<Rightarrow> 'w at_mode" where
  "rx_step s c \<equiv> exec_state (at_cmd_mode_cmd_rx_handler c) s"

interpretation at_editor: simulation rx_step ed_inv editor spec_editor
proof
  fix s :: "'w at_mode" and c :: char
  assume "ed_inv s"
  note r = rx_inv [OF this, of c]
  show "ed_inv (rx_step s c)" using r by simp
  have "term_mode (rx_step s c) = term_mode s"
    using keepsD [OF keeps_modes_rx, of c s] by (simp add: modes_def)
  then show "editor (rx_step s c) = spec_editor (editor s) c"
    using r by (simp add: editor_def spec_editor_def)
qed

lemma exec_rx_all: "exec_state (rx_all cs) s = foldl rx_step s cs"
  by (induction cs arbitrary: s) (simp_all add: exec_simps)

lemma at_safe_init: "at_safe (at_mode_init w)" and idle_init: "idle (at_mode_init w)"
  by (simp_all add: at_safe_def idle_def at_mode_init_def at_sizes)

lemma ed_inv_init: "ed_inv (at_mode_init w)"
  using at_safe_init [of w] by (simp add: ed_inv_def line_def at_mode_init_def)

lemma editor_init: "editor (at_mode_init w) = (CR_LF_TERM, [], False)"
  by (simp add: editor_def line_def at_mode_init_def)

text \<open>
  C2: The line editor of AT command mode is an append-and-delete editor: for any bytes received,
  the buffer, the length and the quote flag of the code give exactly the line the specification
  computes (printable bytes appended up to 3584, backspace and delete removing the last one, a
  terminator outside quotes taking the line), work is queued exactly when a line was completed, and
  the state is left well formed.
\<close>

theorem at_editor_refines:
  assumes "ed_inv s"
  shows "ed_inv (exec_state (rx_all cs) s) \<and>
    editor (exec_state (rx_all cs) s) = foldl spec_editor (editor s) cs"
  using at_editor.run_inv [OF assms] at_editor.run_sim [OF assms] by (simp add: exec_rx_all)

theorem at_editor_refines_witness:
  "editor (exec_state (rx_all (''AX'' @ [CHAR_BS] @ ''T+'' @ [QUOTE, CHAR_CR, CHAR_LF] @ ''x'' @
       [QUOTE, CHAR_CR, CHAR_LF] @ ''AT'')) (at_mode_init ())) = (CR_LF_TERM, ''AT'', True)"
  unfolding at_editor_refines [OF ed_inv_init, THEN conjunct2] editor_init
  by (simp add: spec_editor_def spec_rx_def ends_line_def in_quotes_def at_chars at_sizes)


text \<open>A modem that keeps the commands it was sent.\<close>

definition log_api :: "string list at_api" where
  "log_api = \<lparr>clock_utc = (\<lambda>_. clock_utc plain_print ()), vsnprintfcb = (\<lambda>n f _. (int (length f), take (n - 1) f)),
     settings_subsys_init = (\<lambda>w. (0, w)), settings_register = (\<lambda>_ w. (0, w)),
     settings_save_one = (\<lambda>_ _ w. (0, w)),
     nrf_modem_at_cmd = (\<lambda>c n w. ((0, ''OK''), w @ [c])), at_monitor_set = (\<lambda>_ w. w),
     shell_set_bypass = (\<lambda>_ w. w)\<rparr>"

lemma log_api_send_all:
  "obs s = obs t \<Longrightarrow> world (exec_state (send_all log_api n cs) s) = world t @ cs"
proof (induction cs arbitrary: s t)
  case (Cons c cs)
  have "world (exec_state (at_cmd_mode_send_at_cmd log_api c n) s) = world t @ [c]"
    using Cons.prems by (simp add: at_cmd_mode_send_at_cmd_def log_api_def exec_state_def obs_def Let_def)
  then show ?case
    using Cons.IH [OF refl, of "exec_state (at_cmd_mode_send_at_cmd log_api c n) s"]
    by (simp add: exec_simps)
qed (simp add: exec_simps obs_def)

definition typed_state :: "string \<Rightarrow> string list at_mode" where
  "typed_state l = (at_mode_init [])\<lparr>at_buf := l @ replicate (Suc AT_CMD_MODE_AT_CMD_MAX_LEN - length l) NUL,
     at_cmd_len := length l, inside_quotes := in_quotes l\<rparr>"

lemma typed_state:
  assumes "length l \<le> AT_CMD_MODE_AT_CMD_MAX_LEN"
  shows "ed_inv (typed_state l)" "idle (typed_state l)" "line (typed_state l) = l"
    "term_mode (typed_state l) = CR_LF_TERM" "world (typed_state l) = []"
  using assms
  by (auto simp: typed_state_def ed_inv_def at_safe_def line_def idle_def at_mode_init_def nth_append at_sizes)


subsection \<open>Leaving the mode\<close>

text \<open>The shell delivers what the terminal sent in chunks, as long as the mode is on.\<close>

primrec deliver :: "'w at_api \<Rightarrow> char list list \<Rightarrow> 'w at_mode \<Rightarrow> 'w at_mode" where
  "deliver T [] s = s"
| "deliver T (ch # chs) s =
     (if at_cmd_mode_active s then deliver T chs (exec_state (at_cmd_mode_bypass_cb T ch) s) else s)"

lemma deliver_inactive: "\<not> at_cmd_mode_active s \<Longrightarrow> deliver T chs s = s"
  by (cases chs) simp_all

lemma has_escape_append:
  "xs \<noteq> [] \<Longrightarrow> has_escape (xs @ ys) \<longleftrightarrow> has_escape xs \<or> has_escape (last xs # ys)"
  by (induction xs rule: has_escape.induct) auto

lemma bypass_run:
  assumes "recv \<noteq> []"
  shows "at_cmd_mode_active (exec_state (at_cmd_mode_bypass_cb T recv) s) =
      (at_cmd_mode_active s \<and> \<not> has_escape (tail s # recv))"
    and "\<not> has_escape (tail s # recv) \<Longrightarrow> tail (exec_state (at_cmd_mode_bypass_cb T recv) s) = last recv"
proof -
  have e: "tail s = CHAR_CAN \<and> hd recv = CHAR_DC1 \<or> has_escape recv \<longleftrightarrow> has_escape (tail s # recv)"
    using assms by (cases recv) simp_all
  have m: "modes (exec_state (rx_all recv) t) = modes t" for t :: "'a at_mode"
    by (rule keepsD) (intro keeps_intros)
  have k: "at_cmd_mode_active (exec_state (rx_all recv) (s\<lparr>tail := last recv\<rparr>)) = at_cmd_mode_active s"
      "tail (exec_state (rx_all recv) (s\<lparr>tail := last recv\<rparr>)) = last recv"
    using m [of "s\<lparr>tail := last recv\<rparr>"] by (simp_all add: modes_def)
  show "at_cmd_mode_active (exec_state (at_cmd_mode_bypass_cb T recv) s) =
      (at_cmd_mode_active s \<and> \<not> has_escape (tail s # recv))"
    by (simp add: at_cmd_mode_bypass_cb_def exec_simps e k)
  show "\<not> has_escape (tail s # recv) \<Longrightarrow> tail (exec_state (at_cmd_mode_bypass_cb T recv) s) = last recv"
    by (simp add: at_cmd_mode_bypass_cb_def exec_simps e k)
qed

text \<open>
  AT command mode is left exactly by CTRL-X followed by CTRL-Q in the byte stream, however the
  stream is cut into chunks: the pair is found inside a chunk and across two of them, and no
  other input ends the mode.
\<close>

theorem at_escape:
  assumes "\<forall>ch\<in>set chs. ch \<noteq> []" "at_cmd_mode_active s"
  shows "at_cmd_mode_active (deliver T chs s) \<longleftrightarrow> \<not> has_escape (tail s # concat chs)"
  using assms
proof (induction chs arbitrary: s)
  case (Cons ch chs)
  let ?s = "exec_state (at_cmd_mode_bypass_cb T ch) s"
  have ch: "ch \<noteq> []" using Cons.prems by simp
  have split: "has_escape (tail s # concat (ch # chs)) \<longleftrightarrow>
      has_escape (tail s # ch) \<or> has_escape (last ch # concat chs)"
    using has_escape_append [of "tail s # ch" "concat chs"] ch by simp
  show ?case
  proof (cases "has_escape (tail s # ch)")
    case True
    then show ?thesis
      using bypass_run(1) [OF ch, of T s] Cons.prems(2) split by (simp add: deliver_inactive)
  next
    case False
    then show ?thesis
      using bypass_run [OF ch, where T = T and s = s] Cons.prems split Cons.IH [of ?s] by simp
  qed
qed simp

theorem at_escape_witness:
  "at_cmd_mode_active (deliver log_api [''AT'', [CHAR_CAN], [CHAR_DC1]]
     ((at_mode_init [])\<lparr>at_cmd_mode_active := True\<rparr>)) = False"
  by (subst at_escape) (simp_all add: at_mode_init_def at_chars)

subsection \<open>Every event\<close>

datatype at_event =
    Rx char "char list"
  | Worker
  | Notification string
  | Set_Termination line_termination
  | Set_Echo bool
  | Start

definition at_step :: "'w at_api \<Rightarrow> 'w at_mode \<Rightarrow> at_event \<Rightarrow> 'w at_mode" where
  "at_step T s e = (case e of
     Rx c cs \<Rightarrow> if at_cmd_mode_active s then exec_state (at_cmd_mode_bypass_cb T (c # cs)) s else s
   | Worker \<Rightarrow> if work_queued s then exec_state (at_cmd_mode_worker T) (s\<lparr>work_queued := False\<rparr>) else s
   | Notification r \<Rightarrow> if at_cmd_mode_active s then exec_state (at_cmd_mode_event_handler r) s else s
   | Set_Termination m \<Rightarrow> exec_state (at_cmd_mode_line_termination_set m) s
   | Set_Echo b \<Rightarrow> s\<lparr>at_cmd_mode_echo_on := b\<rparr>
   | Start \<Rightarrow> exec_state (at_cmd_mode_start T) s)"

lemma at_safe_simps [simp]:
  "at_safe (s\<lparr>world := w\<rparr>) = at_safe s" "at_safe (s\<lparr>console := x\<rparr>) = at_safe s"
  "at_safe (s\<lparr>work_queued := q\<rparr>) = at_safe s" "at_safe (s\<lparr>writing := q\<rparr>) = at_safe s"
  "at_safe (s\<lparr>inside_quotes := q\<rparr>) = at_safe s" "at_safe (s\<lparr>at_cmd_mode_active := q\<rparr>) = at_safe s"
  "at_safe (s\<lparr>at_cmd_mode_dont_print := q\<rparr>) = at_safe s" "at_safe (s\<lparr>at_cmd_mode_echo_on := q\<rparr>) = at_safe s"
  "at_safe (s\<lparr>tail := c\<rparr>) = at_safe s" "at_safe (s\<lparr>term_mode := m\<rparr>) = at_safe s"
  "at_safe s \<Longrightarrow> at_safe (s\<lparr>at_cmd_len := 0\<rparr>)" "at_safe s \<Longrightarrow> at_safe (s\<lparr>pipe_cnt := 0\<rparr>)"
  by (simp_all add: at_safe_def)

lemma at_safe_backspace:
  assumes "at_safe s" "0 < at_cmd_len s"
  shows "at_safe (exec_state backspace s)"
  by (subst backspace_run [OF assms]) (use assms in \<open>auto simp: at_safe_def nth_list_update\<close>)

lemma at_safe_rx:
  assumes "at_safe s"
  shows "at_safe (rx_step s c)"
proof -
  let ?t = "s\<lparr>writing := True\<rparr>"
  have t: "at_safe ?t" using assms by simp
  have send: "at_safe (exec_state send_line ?t)"
    using send_line_inv(1) [OF t] by (simp add: ed_inv_def)
  have bs: "at_cmd_len s \<noteq> 0 \<Longrightarrow> at_safe (exec_state backspace ?t)"
    using at_safe_backspace [OF t] by simp
  have typed: "at_cmd_len s + 1 \<le> length (at_buf s) - 1 \<Longrightarrow>
      at_safe (?t\<lparr>at_buf := (at_buf s)[at_cmd_len s := c], at_cmd_len := Suc (at_cmd_len s), inside_quotes := q, console := x\<rparr>)" for q x
    using assms by (simp add: at_safe_def nth_list_update)
  show ?thesis
    by (subst rx_run) (use t send bs typed in \<open>auto simp: Let_def\<close>)
qed

lemma at_safe_rx_all: "at_safe s \<Longrightarrow> at_safe (exec_state (rx_all cs) s)"
  by (induction cs arbitrary: s) (simp_all add: exec_simps at_safe_rx)

lemma at_safe_bypass: "at_safe s \<Longrightarrow> at_safe (exec_state (at_cmd_mode_bypass_cb T cs) s)"
  by (auto simp: at_cmd_mode_bypass_cb_def exec_simps keepsD [OF keeps_printk] printk_def intro!: at_safe_rx_all)

lemma at_safe_handler: "at_safe s \<Longrightarrow> at_safe (exec_state (at_cmd_mode_event_handler r) s)"
proof -
  assume s: "at_safe s"
  have p: "at_safe (exec_state (printk f as) t) = at_safe t" for f as and t :: "'a at_mode"
    by (simp add: printk_def exec_simps)
  have r: "at_safe (exec_state (repeat n (printk f as)) t) = at_safe t" for n f as and t :: "'a at_mode"
    by (induction n arbitrary: t) (simp_all add: exec_simps p)
  have c: "at_safe t \<Longrightarrow> at_safe (exec_state (put_char i NUL) t)" for i and t :: "'a at_mode"
    by (cases "i = AT_CMD_MODE_AT_CMD_MAX_LEN") (simp_all add: put_char_def exec_simps at_safe_def)
  show ?thesis
    using s by (auto simp: at_cmd_mode_event_handler_def exec_simps p r intro!: c)
qed

lemma at_safe_start: "at_safe s \<Longrightarrow> at_safe (exec_state (at_cmd_mode_start T) s)"
  by (simp add: at_cmd_mode_start_def exec_simps printk_def)

interpretation at_machine: machine "at_step T" at_safe for T :: "'w at_api"
proof
  fix s :: "'w at_mode" and e
  assume "at_safe s"
  then show "at_safe (at_step T s e)"
    by (cases e) (simp_all add: at_step_def at_safe_bypass worker_safe at_safe_handler at_safe_start
        at_cmd_mode_line_termination_set_def exec_simps)
qed

text \<open>
  C8: Memory safety of AT command mode in every interleaving. From boot, whatever arrives in
  whatever order (bytes, the work item, notifications, mode changes), the two buffers keep their
  sizes and the 3585th byte of \<open>at_buf\<close> stays NUL, so every string read ends inside it; the write
  position stays within it; and every entry of the pipeline table, at most ten, lies inside the
  buffer and fits, with its NUL, the buffer it is copied to.
\<close>

theorem at_memory_safe: "at_safe (foldl (at_step T) (at_mode_init w) es)"
  by (rule at_machine.run_inv [OF at_safe_init])

end
