(* ===== verification/Mosh_At_Cmds.thy ===== *)
theory Mosh_At_Cmds
  imports Mosh_At
begin

section \<open>AT commands of the shell, custom AT commands and their settings\<close>

text \<open>
  \<open>at_cmd_mode_sett.c\<close> (what is stored of AT command mode), \<open>at_cmd_mode_custom.c\<close> (the AT commands
  the modem library hands back to the application: ATE0, ATE1, AT+NPING) and \<open>at_shell.c\<close> (the \<open>at\<close>
  command). The AT parser and the reply to a custom command are the modem library's; the ping itself
  (\<open>icmp_ping_start\<close>) is a parameter here.
\<close>

subsection \<open>Interfaces\<close>

datatype at_parser_cmd_type =
    AT_PARSER_CMD_TYPE_UNKNOWN
  | AT_PARSER_CMD_TYPE_SET
  | AT_PARSER_CMD_TYPE_READ
  | AT_PARSER_CMD_TYPE_TEST

record icmp_ping_args =
  target_name :: string
  ping_len :: "32 word"
  ping_timeout :: "32 word"
  ping_cid :: "32 word"
  pdn_id_for_cid :: "32 word"
  ping_count :: "32 word"
  ping_interval :: "32 word"

record 'w at_env = "'w at_api" +
  at_cmd_custom_respond :: "string \<Rightarrow> 'w \<Rightarrow> int \<times> 'w"
  at_monitor_events :: "bool \<Rightarrow> 'w \<Rightarrow> 'w"
  at_parser_init :: "string \<Rightarrow> int"
  at_parser_cmd_type_get :: "string \<Rightarrow> int \<times> at_parser_cmd_type"
  at_parser_string_get :: "string \<Rightarrow> nat \<Rightarrow> nat \<Rightarrow> int \<times> string"
  at_parser_num_get :: "string \<Rightarrow> nat \<Rightarrow> int \<times> 32 word"
  at_parser_cmd_count_get :: "string \<Rightarrow> int \<times> nat"
  icmp_ping_start :: "icmp_ping_args \<Rightarrow> 'w \<Rightarrow> int \<times> 'w"

subsection \<open>Stored settings (\<open>at_cmd_mode_sett.c\<close>)\<close>

definition AT_CMD_MODE_SETT_KEY :: string where
  "AT_CMD_MODE_SETT_KEY = ''at_cmd_mode_settings''"

definition AT_CMD_MODE_SETT_AUTOSTART :: string where
  "AT_CMD_MODE_SETT_AUTOSTART = ''autostart_enabled''"

definition AT_CMD_MODE_SETT_ECHO_ON :: string where
  "AT_CMD_MODE_SETT_ECHO_ON = ''echo_on''"

definition at_cmd_mode_sett_handler :: "('w, 'y) settings_api_scheme \<Rightarrow> string \<Rightarrow> 'w read_cb \<Rightarrow> ('w, int) at_prog" where
  "at_cmd_mode_sett_handler S key read_cb =
     (if key = AT_CMD_MODE_SETT_AUTOSTART then
        read_var S read_cb 1 (\<lambda>b s. s\<lparr>sett_autostart_enabled := put_bool b (sett_autostart_enabled s)\<rparr>)
          ''Failed to read sett_autostart_enabled, error: %d''
      else if key = AT_CMD_MODE_SETT_ECHO_ON then
        read_var S read_cb 1 (\<lambda>b s. s\<lparr>at_cmd_mode_echo_on := put_bool b (at_cmd_mode_echo_on s)\<rparr>)
          ''Failed to read at_cmd_mode_echo_on, error: %d''
      else return 0)"

definition at_cmd_mode_sett_autostart_enabled :: "('w, 'y) settings_api_scheme \<Rightarrow> bool \<Rightarrow> ('w, int) at_prog" where
  "at_cmd_mode_sett_autostart_enabled S enabled = do {
     upd (\<lambda>s. s\<lparr>sett_autostart_enabled := enabled\<rparr>);
     mosh_print S ''at_cmd_mode autostarting %s'' [PStr (if enabled then ''enabled'' else ''disabled'')];
     err \<leftarrow> save_one S (AT_CMD_MODE_SETT_KEY @ ''/'' @ AT_CMD_MODE_SETT_AUTOSTART) (bool_bytes enabled);
     if err \<noteq> 0 then do {
       mosh_error S ''sett_autostart_enabled: err %d from settings_save_one()'' [PInt err];
       return err
     } else return 0
   }"

definition at_cmd_mode_sett_is_autostart_enabled :: "('w, bool) at_prog" where
  "at_cmd_mode_sett_is_autostart_enabled = gets sett_autostart_enabled"

definition at_cmd_mode_sett_echo_on :: "('w, 'y) settings_api_scheme \<Rightarrow> bool \<Rightarrow> bool \<Rightarrow> ('w, int) at_prog" where
  "at_cmd_mode_sett_echo_on S enabled print_status = do {
     upd (\<lambda>s. s\<lparr>at_cmd_mode_echo_on := enabled\<rparr>);
     doif print_status (mosh_print S ''at_cmd_mode echo_%s'' [PStr (if enabled then ''on'' else ''off'')]);
     err \<leftarrow> save_one S (AT_CMD_MODE_SETT_KEY @ ''/'' @ AT_CMD_MODE_SETT_ECHO_ON) (bool_bytes enabled);
     if err \<noteq> 0 then do {
       doif print_status (mosh_error S ''sett_echo_on: err %d from settings_save_one()'' [PInt err]);
       return err
     } else return 0
   }"

text \<open>\<open>settings_load\<close>, which runs the handler on the stored records, is a parameter.\<close>

definition at_cmd_mode_sett_init :: "('w, 'y) settings_api_scheme \<Rightarrow>
    ((string \<Rightarrow> 'w read_cb \<Rightarrow> ('w, int) at_prog) \<Rightarrow> ('w, int) at_prog) \<Rightarrow> ('w, int) at_prog" where
  "at_cmd_mode_sett_init S settings_load = do {
     upd (\<lambda>s. s\<lparr>sett_autostart_enabled := False\<rparr>);
     ret \<leftarrow> call (settings_subsys_init S);
     if ret \<noteq> 0 then do {
       mosh_error S ''Failed to initialize settings subsystem, error: %d'' [PInt ret];
       return ret
     } else do {
       ret \<leftarrow> call (settings_register S AT_CMD_MODE_SETT_KEY);
       if ret \<noteq> 0 then do {
         mosh_error S ''Cannot register settings handler %d'' [PInt ret];
         return ret
       } else do {
         ret \<leftarrow> settings_load (at_cmd_mode_sett_handler S);
         if ret \<noteq> 0 then do {
           mosh_error S ''Cannot load settings %d'' [PInt ret];
           return ret
         } else return ret
       }
     }
   }"

subsection \<open>Custom AT commands (\<open>at_cmd_mode_custom.c\<close>)\<close>

text \<open>A character of a C string; past its end is the NUL.\<close>

definition char_at :: "string \<Rightarrow> nat \<Rightarrow> char" where
  "char_at t i = (case array_get t i of Some c \<Rightarrow> c | None \<Rightarrow> NUL)"

definition reply :: "int \<Rightarrow> string" where
  "reply err = (if err \<noteq> 0 then ''ERROR'' @ [CHAR_CR, CHAR_LF] else ''OK'' @ [CHAR_CR, CHAR_LF])"

definition ate_callback :: "('w, 'y) at_env_scheme \<Rightarrow> string \<Rightarrow> ('w, int) at_prog" where
  "ate_callback T at_cmd = do {
     err \<leftarrow> (if char_at at_cmd 3 = NUL then return (- EINVAL)
       else if char_at at_cmd 4 = CHAR_CR \<or> char_at at_cmd 4 = CHAR_LF \<or> char_at at_cmd 4 = NUL then
         (if char_at at_cmd 3 = CHR ''0'' then do { upd (\<lambda>s. s\<lparr>at_cmd_mode_echo_on := False\<rparr>); return 0 }
          else if char_at at_cmd 3 = CHR ''1'' then do { upd (\<lambda>s. s\<lparr>at_cmd_mode_echo_on := True\<rparr>); return 0 }
          else return (- EINVAL))
       else return (- EINVAL));
     call (at_cmd_custom_respond T (reply err))
   }"

definition on_modem_lib_cfun :: "('w, 'y) settings_api_scheme \<Rightarrow> int \<Rightarrow> ('w, unit) at_prog" where
  "on_modem_lib_cfun S mode =
     doif (mode = 0) (do {
       echo \<leftarrow> gets at_cmd_mode_echo_on;
       _ \<leftarrow> at_cmd_mode_sett_echo_on S echo False;
       return ()
     })"

definition ICMP_MAX_ADDR :: nat where "ICMP_MAX_ADDR = 128"
definition ICMP_PARAM_LENGTH_DEFAULT :: "32 word" where "ICMP_PARAM_LENGTH_DEFAULT = 0"
definition ICMP_PARAM_COUNT_DEFAULT :: "32 word" where "ICMP_PARAM_COUNT_DEFAULT = 4"
definition ICMP_PARAM_TIMEOUT_DEFAULT :: "32 word" where "ICMP_PARAM_TIMEOUT_DEFAULT = 3000"
definition ICMP_PARAM_INTERVAL_DEFAULT :: "32 word" where "ICMP_PARAM_INTERVAL_DEFAULT = 1000"
definition MOSH_ARG_NOT_SET :: "32 word" where "MOSH_ARG_NOT_SET = -6"

definition icmp_ping_cmd_defaults :: icmp_ping_args where
  "icmp_ping_cmd_defaults = \<lparr>target_name = [], ping_len = ICMP_PARAM_LENGTH_DEFAULT,
     ping_timeout = ICMP_PARAM_TIMEOUT_DEFAULT, ping_cid = MOSH_ARG_NOT_SET,
     pdn_id_for_cid = MOSH_ARG_NOT_SET, ping_count = ICMP_PARAM_COUNT_DEFAULT,
     ping_interval = ICMP_PARAM_INTERVAL_DEFAULT\<rparr>"

text \<open>An optional numeric parameter of the command, or the error of the parser.\<close>

definition num_arg :: "('w, 'y) at_env_scheme \<Rightarrow> string \<Rightarrow> nat \<Rightarrow> nat \<Rightarrow>
    (32 word \<Rightarrow> icmp_ping_args \<Rightarrow> icmp_ping_args) \<Rightarrow> int + icmp_ping_args \<Rightarrow> int + icmp_ping_args" where
  "num_arg T at_cmd count i put args = (case args of
     Inl err \<Rightarrow> Inl err
   | Inr a \<Rightarrow>
       if count > i then (case at_parser_num_get T at_cmd i of (err, v) \<Rightarrow>
         if err \<noteq> 0 then Inl err else Inr (put v a))
       else Inr a)"

definition at_cmd_ping_args :: "('w, 'y) at_env_scheme \<Rightarrow> string \<Rightarrow> int + icmp_ping_args" where
  "at_cmd_ping_args T at_cmd =
     (case at_parser_string_get T at_cmd 1 ICMP_MAX_ADDR of (err, target) \<Rightarrow>
        if err < 0 \<or> target = [] then Inl (- EINVAL)
        else case at_parser_cmd_count_get T at_cmd of (err, count) \<Rightarrow>
          if err \<noteq> 0 then Inl err
          else num_arg T at_cmd count 6 (\<lambda>v a. a\<lparr>ping_cid := v\<rparr>)
              (num_arg T at_cmd count 5 (\<lambda>v a. a\<lparr>ping_interval := v\<rparr>)
                (num_arg T at_cmd count 4 (\<lambda>v a. a\<lparr>ping_count := v\<rparr>)
                  (num_arg T at_cmd count 3 (\<lambda>v a. a\<lparr>ping_timeout := v\<rparr>)
                    (num_arg T at_cmd count 2 (\<lambda>v a. a\<lparr>ping_len := v\<rparr>)
                      (Inr (icmp_ping_cmd_defaults\<lparr>target_name := target\<rparr>)))))))"

definition at_cmd_ping_handle :: "('w, 'y) at_env_scheme \<Rightarrow> string \<Rightarrow> at_parser_cmd_type \<Rightarrow> ('w, int) at_prog" where
  "at_cmd_ping_handle T at_cmd cmd_type =
     (if cmd_type \<noteq> AT_PARSER_CMD_TYPE_SET then return (- EINVAL)
      else do {
        dont_print_prev \<leftarrow> gets at_cmd_mode_dont_print;
        upd (\<lambda>s. s\<lparr>at_cmd_mode_dont_print := False\<rparr>);
        (case at_cmd_ping_args T at_cmd of
           Inl err \<Rightarrow> return err
         | Inr args \<Rightarrow> do {
             err \<leftarrow> call (icmp_ping_start T args);
             upd (\<lambda>s. s\<lparr>at_cmd_mode_dont_print := dont_print_prev\<rparr>);
             return err
           })
      })"

definition nping_callback :: "('w, 'y) at_env_scheme \<Rightarrow> string \<Rightarrow> ('w, int) at_prog" where
  "nping_callback T at_cmd = do {
     err \<leftarrow> (let err = at_parser_init T at_cmd in
       if err \<noteq> 0 then do {
         printk (''Could not init AT parser, error: %d'' @ [CHAR_LF]) [PInt err];
         return err
       } else case at_parser_cmd_type_get T at_cmd of (err, type) \<Rightarrow>
         if err \<noteq> 0 then do {
           printk (''Could not get AT command type, error: %d'' @ [CHAR_LF]) [PInt err];
           return err
         } else at_cmd_ping_handle T at_cmd type);
     call (at_cmd_custom_respond T (reply err))
   }"

subsection \<open>The \<open>at\<close> command (\<open>at_shell.c\<close>)\<close>

definition at_shell_cmd_mode_start :: "'w at_api \<Rightarrow> ('w, int) at_prog" where
  "at_shell_cmd_mode_start T = do { _ \<leftarrow> at_cmd_mode_start T; return 0 }"

definition at_shell_cmd_mode_enable_autostart :: "('w, 'y) settings_api_scheme \<Rightarrow> ('w, int) at_prog" where
  "at_shell_cmd_mode_enable_autostart S = do { _ \<leftarrow> at_cmd_mode_sett_autostart_enabled S True; return 0 }"

definition at_shell_cmd_mode_disable_autostart :: "('w, 'y) settings_api_scheme \<Rightarrow> ('w, int) at_prog" where
  "at_shell_cmd_mode_disable_autostart S = do { _ \<leftarrow> at_cmd_mode_sett_autostart_enabled S False; return 0 }"

definition at_shell_cmd_mode_enable_echo :: "('w, 'y) settings_api_scheme \<Rightarrow> ('w, int) at_prog" where
  "at_shell_cmd_mode_enable_echo S = do { _ \<leftarrow> at_cmd_mode_sett_echo_on S True True; return 0 }"

definition at_shell_cmd_mode_disable_echo :: "('w, 'y) settings_api_scheme \<Rightarrow> ('w, int) at_prog" where
  "at_shell_cmd_mode_disable_echo S = do { _ \<leftarrow> at_cmd_mode_sett_echo_on S False True; return 0 }"

definition at_shell_cmd_mode_term_cr_lf :: "('w, int) at_prog" where
  "at_shell_cmd_mode_term_cr_lf = do { at_cmd_mode_line_termination_set CR_LF_TERM; return 0 }"

definition at_shell_cmd_mode_term_lf :: "('w, int) at_prog" where
  "at_shell_cmd_mode_term_lf = do { at_cmd_mode_line_termination_set LF_TERM; return 0 }"

definition at_shell_cmd_mode_term_cr :: "('w, int) at_prog" where
  "at_shell_cmd_mode_term_cr = do { at_cmd_mode_line_termination_set CR_TERM; return 0 }"

definition at_cmd_handler :: "('w, 'y) print_api_scheme \<Rightarrow> string \<Rightarrow> ('w, unit) at_prog" where
  "at_cmd_handler P response = mosh_print P ''AT event handler: %s'' [PStr response]"

definition sub_at_cmd_events_enable :: "('w, 'y) at_env_scheme \<Rightarrow> ('w, int) at_prog" where
  "sub_at_cmd_events_enable T = do {
     act (at_monitor_events T True);
     mosh_print T ''AT command events enabled'' [];
     return 0
   }"

definition sub_at_cmd_events_disable :: "('w, 'y) at_env_scheme \<Rightarrow> ('w, int) at_prog" where
  "sub_at_cmd_events_disable T = do {
     act (at_monitor_events T False);
     mosh_print T ''AT command events disabled'' [];
     return 0
   }"

definition MOSH_AT_CMD_RESPONSE_MAX_LEN :: nat where
  "MOSH_AT_CMD_RESPONSE_MAX_LEN = 2701"

definition CREDENTIALS_CMD :: string where
  "CREDENTIALS_CMD = ''AT%CMNG=0''"

text \<open>The loop over \<open>strstr\<close>: every backslash followed by n becomes CR LF.\<close>

fun unescape_newlines :: "string \<Rightarrow> string" where
  "unescape_newlines (a # b # cs) =
     (if a = CHR 0x5C \<and> b = CHR ''n'' then CHAR_CR # CHAR_LF # unescape_newlines cs
      else a # unescape_newlines (b # cs))"
| "unescape_newlines cs = cs"

definition cmd_at :: "('w, 'y) at_api_scheme \<Rightarrow> string list \<Rightarrow> ('w, int) at_prog" where
  "cmd_at T argv =
     (if length argv < 2 \<or> argv ! 1 = ''-h'' \<or> argv ! 1 = ''--help'' then do { shell_help; return 0 }
      else do {
        let cmd = (if take (length CREDENTIALS_CMD) (argv ! 1) = CREDENTIALS_CMD
                   then unescape_newlines (argv ! 1) else argv ! 1);
        (ret, rsp) \<leftarrow> call (nrf_modem_at_cmd T cmd MOSH_AT_CMD_RESPONSE_MAX_LEN);
        let err = sint ret;
        (if err = 0 then mosh_print T ''%s'' [PStr rsp]
         else if err > 0 then mosh_error T ''%s'' [PStr rsp]
         else mosh_error T ''Failed to send AT command, err %d'' [PInt err]);
        return 0
      })"

subsection \<open>Properties\<close>

text \<open>
  AT+NPING and the printing gate: a command that is not a SET command leaves the gate alone; a
  SET command whose parameters are rejected by the parser leaves the gate open (the early returns
  skip the restore), with the parser's error and no ping; otherwise the ping is started once, with
  the parsed parameters, and the gate is what it was.
\<close>

theorem nping_gate:
  "run_state (at_cmd_ping_handle T c ty) s =
    (if ty \<noteq> AT_PARSER_CMD_TYPE_SET then (- EINVAL, s)
     else case at_cmd_ping_args T c of
       Inl err \<Rightarrow> (err, s\<lparr>at_cmd_mode_dont_print := False\<rparr>)
     | Inr args \<Rightarrow> (case icmp_ping_start T args (world s) of (err, w) \<Rightarrow> (err, s\<lparr>world := w\<rparr>)))"
  by (simp add: at_cmd_ping_handle_def split: sum.split prod.split)

text \<open>What ATE accepts after its three letters.\<close>

definition ate_value :: "string \<Rightarrow> bool option" where
  "ate_value rest = (case rest of
     [] \<Rightarrow> None
   | d # cs \<Rightarrow>
       if cs = [] \<or> hd cs = CHAR_CR \<or> hd cs = CHAR_LF \<or> hd cs = NUL then
         (if d = CHR ''0'' then Some False else if d = CHR ''1'' then Some True else None)
       else None)"

lemma ate_run:
  "run_state (ate_callback T (''ATE'' @ rest)) s =
    (case at_cmd_custom_respond T (case ate_value rest of Some _ \<Rightarrow> ''OK'' @ [CHAR_CR, CHAR_LF]
        | None \<Rightarrow> ''ERROR'' @ [CHAR_CR, CHAR_LF]) (world s) of
       (ret, w) \<Rightarrow> (ret, s\<lparr>at_cmd_mode_echo_on := (case ate_value rest of Some b \<Rightarrow> b | None \<Rightarrow> at_cmd_mode_echo_on s),
          world := w\<rparr>))"
proof (cases rest)
  case Nil
  then show ?thesis
    by (simp add: ate_callback_def char_at_def array_get_def ate_value_def reply_def EINVAL_def split: prod.split)
next
  case (Cons d cs)
  have c: "char_at (''ATE'' @ rest) 3 = d" "char_at (''ATE'' @ rest) 4 = (if cs = [] then NUL else hd cs)"
    by (simp_all add: char_at_def array_get_def Cons hd_conv_nth)
  show ?thesis
    unfolding ate_callback_def c
    by (simp add: ate_value_def Cons reply_def EINVAL_def NUL_def case_prod_unfold)
qed

text \<open>
  ATE on every input: ATE0 and ATE1, alone or with a line end, set the echo and are answered OK;
  everything else is answered ERROR and changes nothing.
\<close>

theorem ate_functional:
  "run_state (ate_callback T (''ATE'' @ rest)) s =
    (case at_cmd_custom_respond T (case ate_value rest of Some _ \<Rightarrow> ''OK'' @ [CHAR_CR, CHAR_LF]
        | None \<Rightarrow> ''ERROR'' @ [CHAR_CR, CHAR_LF]) (world s) of
       (ret, w) \<Rightarrow> (ret, s\<lparr>at_cmd_mode_echo_on := (case ate_value rest of Some b \<Rightarrow> b | None \<Rightarrow> at_cmd_mode_echo_on s),
          world := w\<rparr>))"
  by (rule ate_run)

subsection \<open>What survives a restart\<close>

definition at_sett_view :: "'w at_mode \<Rightarrow> storage" where
  "at_sett_view s = [AT_CMD_MODE_SETT_AUTOSTART \<mapsto> bool_bytes (sett_autostart_enabled s),
     AT_CMD_MODE_SETT_ECHO_ON \<mapsto> bool_bytes (at_cmd_mode_echo_on s)]"

lemma at_sett_keys [simp]: "AT_CMD_MODE_SETT_AUTOSTART \<noteq> AT_CMD_MODE_SETT_ECHO_ON"
    "AT_CMD_MODE_SETT_ECHO_ON \<noteq> AT_CMD_MODE_SETT_AUTOSTART"
  by (simp_all add: AT_CMD_MODE_SETT_AUTOSTART_def AT_CMD_MODE_SETT_ECHO_ON_def)

lemma keeps_at_sett_view [simp]:
  "at_sett_view (s\<lparr>console := c\<rparr>) = at_sett_view s" "at_sett_view (s\<lparr>cloud_out := d\<rparr>) = at_sett_view s"
  "at_sett_view (s\<lparr>world := w\<rparr>) = at_sett_view s"
  "at_sett_view (s\<lparr>sett_autostart_enabled := b\<rparr>) = (at_sett_view s)(AT_CMD_MODE_SETT_AUTOSTART \<mapsto> bool_bytes b)"
  "at_sett_view (s\<lparr>at_cmd_mode_echo_on := b\<rparr>) = (at_sett_view s)(AT_CMD_MODE_SETT_ECHO_ON \<mapsto> bool_bytes b)"
  by (auto simp: at_sett_view_def fun_eq_iff)

interpretation at_settings: settings_component "\<lambda>_. True" at_sett_view
    "\<lambda>s r. exec_state (at_cmd_mode_sett_handler S (fst r) (record_cb (snd r))) s"
  for S :: "('w, 'y) settings_api_scheme"
proof
  fix t s :: "'w at_mode" and k b
  assume "at_sett_view t k = Some b"
  then consider "k = AT_CMD_MODE_SETT_AUTOSTART" "b = bool_bytes (sett_autostart_enabled t)"
    | "k = AT_CMD_MODE_SETT_ECHO_ON" "b = bool_bytes (at_cmd_mode_echo_on t)"
    by (auto simp: at_sett_view_def split: if_splits)
  then show "True \<and> at_sett_view (exec_state (at_cmd_mode_sett_handler S (fst (k, b)) (record_cb (snd (k, b)))) s)
      = (at_sett_view s)(k \<mapsto> b)"
    by cases (simp_all add: at_cmd_mode_sett_handler_def exec_read_var)
qed

text \<open>The operations that set what is stored.\<close>

datatype at_sett_op =
    Set_Autostart bool
  | Set_Echo_Shell bool
  | Ate_And_Power_Off string

definition at_sett_prog :: "('w, 'y) at_env_scheme \<Rightarrow> at_sett_op \<Rightarrow> ('w, unit) at_prog" where
  "at_sett_prog T op = (case op of
     Set_Autostart b \<Rightarrow> do {
       _ \<leftarrow> (if b then at_shell_cmd_mode_enable_autostart T else at_shell_cmd_mode_disable_autostart T);
       return ()
     }
   | Set_Echo_Shell b \<Rightarrow> do {
       _ \<leftarrow> (if b then at_shell_cmd_mode_enable_echo T else at_shell_cmd_mode_disable_echo T);
       return ()
     }
   | Ate_And_Power_Off rest \<Rightarrow> do {
       _ \<leftarrow> ate_callback T (''ATE'' @ rest);
       on_modem_lib_cfun T 0
     })"

definition at_agrees :: "('w \<Rightarrow> storage) \<Rightarrow> 'w at_mode \<Rightarrow> 'w at_mode \<Rightarrow> bool" where
  "at_agrees sto d s \<longleftrightarrow> at_sett_view s = at_sett_view d ++ subtree AT_CMD_MODE_SETT_KEY (sto (world s))"

lemma print_frame:
  fixes s :: "'w at_mode"
  shows "world (exec_state (mosh_print P f a) s) = world s" "at_sett_view (exec_state (mosh_print P f a) s) = at_sett_view s"
    "at_cmd_mode_echo_on (exec_state (mosh_print P f a) s) = at_cmd_mode_echo_on s"
  by (rule keepsD, rule keeps_mosh_print, simp_all)+

lemma save_sett:
  assumes "reliable S sto" "\<And>s :: 'w at_mode. at_sett_view (put s) = (at_sett_view s)(k \<mapsto> b)"
    "\<And>s :: 'w at_mode. world (put s) = world s"
    "at_agrees sto d s"
    "at_sett_view s' = at_sett_view (put s)"
    "world s' = snd (settings_save_one S (AT_CMD_MODE_SETT_KEY @ ''/'' @ k) (Some b) (world s))"
  shows "at_agrees sto d s'"
  using assms by (simp add: at_agrees_def reliable_def)

lemma at_sett_op_agrees:
  assumes "reliable T sto" "\<And>r w. sto (snd (at_cmd_custom_respond T r w)) = sto w" "at_agrees sto d s"
  shows "at_agrees sto d (exec_state (at_sett_prog T op) s)"
proof -
  have auto: "at_agrees sto d (exec_state (at_cmd_mode_sett_autostart_enabled T b) s)" for b
    using assms(1,3)
    by (simp add: at_cmd_mode_sett_autostart_enabled_def exec_simps exec_upd print_frame at_agrees_def reliable_def)
  have echo: "at_agrees sto d (exec_state (at_cmd_mode_sett_echo_on T b p) u)"
    if "at_sett_view (u\<lparr>at_cmd_mode_echo_on := b\<rparr>) = at_sett_view (s\<lparr>at_cmd_mode_echo_on := b\<rparr>)"
      "sto (world u) = sto (world s)" for b p and u :: "'a at_mode"
    using assms(1,3) that
    by (simp add: at_cmd_mode_sett_echo_on_def exec_simps exec_upd print_frame at_agrees_def reliable_def)
  show ?thesis
  proof (cases op)
    case (Set_Autostart b)
    then show ?thesis
      using auto by (simp add: at_sett_prog_def at_shell_cmd_mode_enable_autostart_def
          at_shell_cmd_mode_disable_autostart_def exec_simps)
  next
    case (Set_Echo_Shell b)
    then show ?thesis
      using echo [where u = s] by (simp add: at_sett_prog_def at_shell_cmd_mode_enable_echo_def
          at_shell_cmd_mode_disable_echo_def exec_simps)
  next
    case (Ate_And_Power_Off rest)
    let ?u = "exec_state (ate_callback T (''ATE'' @ rest)) s"
    have "world ?u = snd (at_cmd_custom_respond T (case ate_value rest of Some _ \<Rightarrow> ''OK'' @ [CHAR_CR, CHAR_LF]
        | None \<Rightarrow> ''ERROR'' @ [CHAR_CR, CHAR_LF]) (world s))"
      "at_sett_view (?u\<lparr>at_cmd_mode_echo_on := b\<rparr>) = at_sett_view (s\<lparr>at_cmd_mode_echo_on := b\<rparr>)" for b
      by (simp_all only: exec_state_def ate_run) (simp_all add: case_prod_unfold)
    then show ?thesis
      using echo [where u = ?u] assms(2) Ate_And_Power_Off
      by (simp add: at_sett_prog_def on_modem_lib_cfun_def exec_simps)
  qed
qed

text \<open>
  C34: What is stored of AT command mode survives a restart: with a storage that keeps what it is
  given, after any sequence of the operations that store a setting (autostart on and off, echo on
  and off from the shell, ATE followed by switching the modem off), initialising again and loading
  the stored records, in any order, gives the same autostart and echo settings.
\<close>

theorem at_settings_survive_restart:
  fixes T :: "('w, 'y) at_env_scheme" and d s\<^sub>0 :: "'w at_mode"
  assumes "reliable T sto" "settings_ready T" "\<And>r w. sto (snd (at_cmd_custom_respond T r w)) = sto w"
    and "at_agrees sto (d\<lparr>sett_autostart_enabled := False\<rparr>) s\<^sub>0"
    and "map_of recs = subtree AT_CMD_MODE_SETT_KEY (sto (world (foldl (\<lambda>s op. exec_state (at_sett_prog T op) s) s\<^sub>0 ops)))"
    and "distinct (map fst recs)"
  shows "at_sett_view (exec_state (at_cmd_mode_sett_init T (load_records recs)) d)
    = at_sett_view (foldl (\<lambda>s op. exec_state (at_sett_prog T op) s) s\<^sub>0 ops)"
proof -
  let ?d = "d\<lparr>sett_autostart_enabled := False\<rparr>"
  let ?s = "foldl (\<lambda>s op. exec_state (at_sett_prog T op) s) s\<^sub>0 ops"
  have "at_agrees sto ?d ?s"
    by (rule foldl_invariant [where P = "at_agrees sto ?d"])
      (auto intro: at_sett_op_agrees [OF assms(1,3)] assms(4))
  then have "at_sett_view (foldl (\<lambda>s r. exec_state (at_cmd_mode_sett_handler T (fst r) (record_cb (snd r))) s) ?d recs)
      = at_sett_view ?s"
    using at_settings.restart [OF _ _ _ assms(5,6), of ?s ?d] by (simp add: at_agrees_def)
  moreover have "exec_state (at_cmd_mode_sett_init T (load_records recs)) d =
      foldl (\<lambda>s r. exec_state (at_cmd_mode_sett_handler T (fst r) (record_cb (snd r))) s) ?d recs"
    using assms(2) by (simp add: at_cmd_mode_sett_init_def settings_ready_def exec_simps exec_upd exec_load_records)
  ultimately show ?thesis by simp
qed

definition test_env :: "storage at_env" where
  "test_env = \<lparr>clock_utc = (\<lambda>_. clock_utc plain_print ()), vsnprintfcb = vsnprintfcb plain_print,
     settings_subsys_init = (\<lambda>w. (0, w)), settings_register = (\<lambda>_ w. (0, w)),
     settings_save_one = (\<lambda>k v w. (0, w(k := v))),
     nrf_modem_at_cmd = (\<lambda>_ _ w. ((0, ''OK''), w)), at_monitor_set = (\<lambda>_ w. w), shell_set_bypass = (\<lambda>_ w. w),
     at_cmd_custom_respond = (\<lambda>_ w. (0, w)), at_monitor_events = (\<lambda>_ w. w), at_parser_init = (\<lambda>_. 0),
     at_parser_cmd_type_get = (\<lambda>_. (0, AT_PARSER_CMD_TYPE_SET)), at_parser_string_get = (\<lambda>_ _ _. (0, ''a'')),
     at_parser_num_get = (\<lambda>_ _. (0, 1)), at_parser_cmd_count_get = (\<lambda>_. (0, 2)),
     icmp_ping_start = (\<lambda>_ w. (0, w))\<rparr>"

lemma test_env: "reliable test_env id" "settings_ready test_env" "snd (at_cmd_custom_respond test_env r w) = w"
  by (simp_all add: reliable_def settings_ready_def test_env_def)

lemma test_env_save: "settings_save_one test_env k v w = (0, w(k := v))"
  by (simp add: test_env_def)

lemma at_sett_view_init: "at_sett_view (at_mode_init w) =
    [AT_CMD_MODE_SETT_AUTOSTART \<mapsto> bool_bytes False, AT_CMD_MODE_SETT_ECHO_ON \<mapsto> bool_bytes True]"
    "world (at_mode_init w) = w"
  by (simp_all add: at_sett_view_def at_mode_init_def)

theorem at_settings_survive_restart_witness:
  "at_sett_view (exec_state (at_cmd_mode_sett_init test_env
      (load_records [(AT_CMD_MODE_SETT_ECHO_ON, [0]), (AT_CMD_MODE_SETT_AUTOSTART, [1])]))
      (at_mode_init Map.empty))
   = [AT_CMD_MODE_SETT_AUTOSTART \<mapsto> [1], AT_CMD_MODE_SETT_ECHO_ON \<mapsto> [0]]"
proof -
  let ?s\<^sub>0 = "at_mode_init Map.empty :: storage at_mode"
  let ?ops = "[Set_Autostart True, Ate_And_Power_Off ''0'']"
  let ?recs = "[(AT_CMD_MODE_SETT_ECHO_ON, [0 :: 8 word]), (AT_CMD_MODE_SETT_AUTOSTART, [1])]"
  let ?s = "foldl (\<lambda>s op. exec_state (at_sett_prog test_env op) s) ?s\<^sub>0 ?ops"
  have ate: "exec_state (ate_callback test_env (''ATE'' @ ''0'')) u = u\<lparr>at_cmd_mode_echo_on := False\<rparr>" for u
    by (simp only: exec_state_def ate_run) (simp add: test_env_def ate_value_def)
  have w: "world ?s = Map.empty(AT_CMD_MODE_SETT_KEY @ ''/'' @ AT_CMD_MODE_SETT_AUTOSTART \<mapsto> [1],
      AT_CMD_MODE_SETT_KEY @ ''/'' @ AT_CMD_MODE_SETT_ECHO_ON \<mapsto> [0])"
    "at_sett_view ?s = [AT_CMD_MODE_SETT_AUTOSTART \<mapsto> [1], AT_CMD_MODE_SETT_ECHO_ON \<mapsto> [0]]"
    by (simp_all add: at_sett_prog_def at_shell_cmd_mode_enable_autostart_def on_modem_lib_cfun_def
        at_cmd_mode_sett_autostart_enabled_def at_cmd_mode_sett_echo_on_def exec_simps exec_upd print_frame
        ate [simplified] bool_bytes_def test_env_save at_sett_view_init)
  have "at_agrees id (?s\<^sub>0\<lparr>sett_autostart_enabled := False\<rparr>) ?s\<^sub>0"
    by (simp add: at_agrees_def at_sett_view_init subtree_def map_add_def fun_eq_iff)
  moreover have "map_of ?recs = subtree AT_CMD_MODE_SETT_KEY (id (world ?s))"
    unfolding w(1) by (simp add: fun_eq_iff)
  moreover have "distinct (map fst ?recs)" by simp
  ultimately show ?thesis
    using at_settings_survive_restart [OF test_env(1,2), of ?s\<^sub>0 ?s\<^sub>0 ?recs ?ops] test_env(3) w(2) by simp
qed

end
