(* ===== verification/Mosh_Startup.thy ===== *)
theory Mosh_Startup
  imports Mosh_Sett
begin

section \<open>Start-up commands of the modem shell (\<open>startup_cmd\<close>)\<close>

text \<open>
  Up to three shell commands, kept in the settings storage, that run one after the other once per
  boot: when the default PDN comes up, or a configured time after start (\<open>startup_cmd_ctrl.c\<close>). The
  storage is \<open>startup_cmd_settings.c\<close>, the command that edits it \<open>startup_cmd_shell.c\<close>.
\<close>

subsection \<open>State\<close>

text \<open>
  \<open>work_delay\<close> is the delay in seconds with which the work item is scheduled; \<open>None\<close> when it is not.
\<close>

record 'w startup = "'w mosh" +
  starttime :: int
  cmd1_str :: string
  cmd2_str :: string
  cmd3_str :: string
  running :: bool
  running_mem_slot :: "8 word"
  work_delay :: "int option"

type_synonym ('w, 'z, 'a) startup_prog = "(('w, 'z) startup_scheme, 'a) prog"

datatype startup_opt =
    Opt_Read
  | Opt_Time string
  | Opt_Mem_1 string
  | Opt_Mem_2 string
  | Opt_Mem_3 string
  | Opt_Help
  | Opt_Unknown string

text \<open>
  \<open>sys_getopt_long\<close> gives the options of the words, in order, each with its argument (an unknown one
  with the word it is), and the index of the first word that is no option.
\<close>

record 'w startup_api = "'w settings_api" +
  shell_execute_cmd :: "string \<Rightarrow> 'w \<Rightarrow> 'w"
  sys_getopt_long :: "string list \<Rightarrow> startup_opt list \<times> nat"

definition STARTUP_CMD_MAX_LEN :: nat where "STARTUP_CMD_MAX_LEN = 128"
definition STARTUP_CMD_MAX_COUNT :: "8 word" where "STARTUP_CMD_MAX_COUNT = 3"
definition STARTUP_CMD_STARTTIME_NOT_SET :: int where "STARTUP_CMD_STARTTIME_NOT_SET = -1"

definition STARTUP_CMD_SETTINGS_KEY :: string where
  "STARTUP_CMD_SETTINGS_KEY = ''startup_cmd_settings''"

definition STARTUP_CMD_STARTTIME :: string where "STARTUP_CMD_STARTTIME = ''starttime''"
definition STARTUP_CMD_1_KEY :: string where "STARTUP_CMD_1_KEY = ''startup_cmd_1''"
definition STARTUP_CMD_2_KEY :: string where "STARTUP_CMD_2_KEY = ''startup_cmd_2''"
definition STARTUP_CMD_3_KEY :: string where "STARTUP_CMD_3_KEY = ''startup_cmd_3''"

lemmas startup_keys = STARTUP_CMD_STARTTIME_def STARTUP_CMD_1_KEY_def STARTUP_CMD_2_KEY_def STARTUP_CMD_3_KEY_def

subsection \<open>Settings (\<open>startup_cmd_settings.c\<close>)\<close>

definition startup_cmd_settings_handler :: "('w, 'y) settings_api_scheme \<Rightarrow> string \<Rightarrow> 'w read_cb \<Rightarrow>
    ('w, 'z, int) startup_prog" where
  "startup_cmd_settings_handler S key read_cb =
     (if key = STARTUP_CMD_STARTTIME then
        read_var S read_cb 4 (\<lambda>b s. s\<lparr>starttime := put_int b (starttime s)\<rparr>)
          ''Failed to read starttime, error: %d''
      else if key = STARTUP_CMD_1_KEY then
        read_var S read_cb (STARTUP_CMD_MAX_LEN + 1) (\<lambda>b s. s\<lparr>cmd1_str := put_str b (cmd1_str s)\<rparr>)
          ''Failed to read set_cmd #1, error: %d''
      else if key = STARTUP_CMD_2_KEY then
        read_var S read_cb (STARTUP_CMD_MAX_LEN + 1) (\<lambda>b s. s\<lparr>cmd2_str := put_str b (cmd2_str s)\<rparr>)
          ''Failed to read set_cmd #2, error: %d''
      else if key = STARTUP_CMD_3_KEY then
        read_var S read_cb (STARTUP_CMD_MAX_LEN + 1) (\<lambda>b s. s\<lparr>cmd3_str := put_str b (cmd3_str s)\<rparr>)
          ''Failed to read set_cmd #3, error: %d''
      else return 0)"

text \<open>Assertions of Zephyr are compiled out, so any slot but 1 and 2 gives the third command.\<close>

definition startup_cmd_settings_get :: "8 word \<Rightarrow> ('w, 'z) startup_scheme \<Rightarrow> string" where
  "startup_cmd_settings_get mem_slot s =
     cstr (if mem_slot = 1 then cmd1_str s else if mem_slot = 2 then cmd2_str s else cmd3_str s)"

text \<open>The key and the variable of a slot.\<close>

definition slot_key :: "int \<Rightarrow> string" where
  "slot_key n = (if n = 1 then STARTUP_CMD_1_KEY else if n = 2 then STARTUP_CMD_2_KEY else STARTUP_CMD_3_KEY)"

definition put_slot :: "int \<Rightarrow> string \<Rightarrow> ('w, 'z) startup_scheme \<Rightarrow> ('w, 'z) startup_scheme" where
  "put_slot n cmd s = (if n = 1 then s\<lparr>cmd1_str := strcpy (cmd1_str s) cmd\<rparr>
     else if n = 2 then s\<lparr>cmd2_str := strcpy (cmd2_str s) cmd\<rparr> else s\<lparr>cmd3_str := strcpy (cmd3_str s) cmd\<rparr>)"

definition startup_cmd_settings_save :: "('w, 'y) settings_api_scheme \<Rightarrow> string \<Rightarrow> int \<Rightarrow> ('w, 'z, int) startup_prog" where
  "startup_cmd_settings_save S cmd_str mem_slot =
     (if length cmd_str > STARTUP_CMD_MAX_LEN then do {
        mosh_error S ''%s: Too long cmd, max is %d'' [PStr ''startup_cmd_settings_save'', PInt (int STARTUP_CMD_MAX_LEN)];
        return (- EINVAL)
      }
      else if mem_slot \<noteq> 1 \<and> mem_slot \<noteq> 2 \<and> mem_slot \<noteq> 3 then do {
        mosh_error S ''%s: unsupported memory slot %d'' [PStr ''startup_cmd_settings_save'', PInt mem_slot];
        return (- EINVAL)
      }
      else do {
        let key = STARTUP_CMD_SETTINGS_KEY @ ''/'' @ slot_key mem_slot;
        err \<leftarrow> save_one S key (cstr_bytes cmd_str);
        if err \<noteq> 0 then do {
          mosh_error S ''%s: cannot save command %s to settings.err %d from settings_save_one()''
            [PStr ''startup_cmd_settings_save'', PStr cmd_str, PInt err];
          return err
        } else do {
          modify (put_slot mem_slot cmd_str);
          mosh_print S ''%s: key %s with value %s saved'' [PStr ''startup_cmd_settings_save'', PStr key, PStr cmd_str];
          return 0
        }
      })"

definition startup_cmd_settings_enabled :: "('w, 'z) startup_scheme \<Rightarrow> bool" where
  "startup_cmd_settings_enabled s \<longleftrightarrow> cstr (cmd1_str s) \<noteq> [] \<or> cstr (cmd2_str s) \<noteq> [] \<or> cstr (cmd3_str s) \<noteq> []"

definition startup_cmd_settings_starttime_set :: "('w, 'y) settings_api_scheme \<Rightarrow> int \<Rightarrow> ('w, 'z, int) startup_prog" where
  "startup_cmd_settings_starttime_set S t = do {
     let key = STARTUP_CMD_SETTINGS_KEY @ ''/'' @ STARTUP_CMD_STARTTIME;
     ret \<leftarrow> save_one S key (int_bytes t);
     if ret \<noteq> 0 then do {
       mosh_error S ''Cannot save start time %d to settings'' [PInt t];
       return ret
     } else do {
       modify (\<lambda>s. s\<lparr>starttime := t\<rparr>);
       mosh_print S ''%s: key %s with value %d saved'' [PStr ''startup_cmd_settings_starttime_set'', PStr key, PInt t];
       return 0
     }
   }"

definition startup_cmd_settings_starttime_get :: "('w, 'z, int) startup_prog" where
  "startup_cmd_settings_starttime_get = gets starttime"

definition startup_cmd_settings_conf_shell_print :: "('w, 'y) print_api_scheme \<Rightarrow> ('w, 'z, unit) startup_prog" where
  "startup_cmd_settings_conf_shell_print P = do {
     t \<leftarrow> startup_cmd_settings_starttime_get;
     mosh_print P ''startup_cmd config:'' [];
     (if t < 0 then mosh_print P ''  Start time: default'' []
      else mosh_print P ''  Start time: %d'' [PInt t]);
     c \<leftarrow> gets (startup_cmd_settings_get 1);
     mosh_print P ''  Command #1: %s'' [PStr c];
     c \<leftarrow> gets (startup_cmd_settings_get 2);
     mosh_print P ''  Command #2: %s'' [PStr c];
     c \<leftarrow> gets (startup_cmd_settings_get 3);
     mosh_print P ''  Command #3: %s'' [PStr c]
   }"

subsection \<open>Running the commands (\<open>startup_cmd_ctrl.c\<close>)\<close>

text \<open>Scheduling an item that is scheduled already changes nothing.\<close>

definition k_work_schedule :: "int \<Rightarrow> ('w, 'z, unit) startup_prog" where
  "k_work_schedule secs = modify (\<lambda>s. if work_delay s = None then s\<lparr>work_delay := Some secs\<rparr> else s)"

definition startup_cmd_worker :: "('w, 'y) startup_api_scheme \<Rightarrow> ('w, 'z, unit) startup_prog" where
  "startup_cmd_worker T = do {
     slot \<leftarrow> gets running_mem_slot;
     cmd \<leftarrow> gets (startup_cmd_settings_get slot);
     doif (cmd \<noteq> []) (do {
       mosh_print T (''Starting to execute sett_cmd %d '' @ [CHR 0x22] @ ''%s'' @ [CHR 0x22] @ ''...'')
         [PInt (uint slot), PStr cmd];
       act (shell_execute_cmd T cmd)
     });
     if slot < STARTUP_CMD_MAX_COUNT then do {
       modify (\<lambda>s. s\<lparr>running_mem_slot := running_mem_slot s + 1\<rparr>);
       k_work_schedule 0
     } else modify (\<lambda>s. s\<lparr>running_mem_slot := 0\<rparr>)
   }"

definition startup_cmd_can_be_started :: "('w, 'z) startup_scheme \<Rightarrow> bool" where
  "startup_cmd_can_be_started s \<longleftrightarrow> \<not> running s \<and> startup_cmd_settings_enabled s"

definition startup_cmd_ctrl_default_pdn_active :: "('w, 'z, unit) startup_prog" where
  "startup_cmd_ctrl_default_pdn_active = do {
     ok \<leftarrow> gets startup_cmd_can_be_started;
     doif ok (do {
       modify (\<lambda>s. s\<lparr>running_mem_slot := 1\<rparr>);
       k_work_schedule 2;
       modify (\<lambda>s. s\<lparr>running := True\<rparr>)
     })
   }"

definition startup_cmd_ctrl_settings_loaded :: "('w, 'z, unit) startup_prog" where
  "startup_cmd_ctrl_settings_loaded = do {
     t \<leftarrow> startup_cmd_settings_starttime_get;
     ok \<leftarrow> gets startup_cmd_can_be_started;
     doif (ok \<and> t \<ge> 0) (do {
       modify (\<lambda>s. s\<lparr>running_mem_slot := 1\<rparr>);
       k_work_schedule t;
       modify (\<lambda>s. s\<lparr>running := True\<rparr>)
     })
   }"

definition startup_cmd_settings_loaded :: "('w, 'z, int) startup_prog" where
  "startup_cmd_settings_loaded = do { startup_cmd_ctrl_settings_loaded; return 0 }"

definition startup_ram_init :: "('w, 'z) startup_scheme \<Rightarrow> ('w, 'z) startup_scheme" where
  "startup_ram_init s = s\<lparr>starttime := STARTUP_CMD_STARTTIME_NOT_SET,
     cmd1_str := replicate (STARTUP_CMD_MAX_LEN + 1) NUL, cmd2_str := replicate (STARTUP_CMD_MAX_LEN + 1) NUL,
     cmd3_str := replicate (STARTUP_CMD_MAX_LEN + 1) NUL\<rparr>"

text \<open>\<open>settings_load\<close>, with the handler and the commit callback, is a parameter.\<close>

definition startup_cmd_settings_init :: "('w, 'y) settings_api_scheme \<Rightarrow>
    ((string \<Rightarrow> 'w read_cb \<Rightarrow> ('w, 'z, int) startup_prog) \<Rightarrow> ('w, 'z, int) startup_prog \<Rightarrow> ('w, 'z, int) startup_prog) \<Rightarrow>
    ('w, 'z, int) startup_prog" where
  "startup_cmd_settings_init S settings_load = do {
     modify startup_ram_init;
     err \<leftarrow> call (settings_subsys_init S);
     if err \<noteq> 0 then do {
       mosh_error S ''Failed to initialize settings subsystem, error: %d'' [PInt err];
       return err
     } else do {
       err \<leftarrow> call (settings_register S STARTUP_CMD_SETTINGS_KEY);
       if err \<noteq> 0 then do {
         mosh_error S ''Cannot register settings handler %d'' [PInt err];
         return err
       } else do {
         err \<leftarrow> settings_load (startup_cmd_settings_handler S) startup_cmd_settings_loaded;
         if err \<noteq> 0 then do {
           mosh_error S ''Cannot load settings %d'' [PInt err];
           return err
         } else return 0
       }
     }
   }"

definition startup_cmd_ctrl_init :: "('w, 'y) settings_api_scheme \<Rightarrow>
    ((string \<Rightarrow> 'w read_cb \<Rightarrow> ('w, 'z, int) startup_prog) \<Rightarrow> ('w, 'z, int) startup_prog \<Rightarrow> ('w, 'z, int) startup_prog) \<Rightarrow>
    ('w, 'z, unit) startup_prog" where
  "startup_cmd_ctrl_init S settings_load = do {
     modify (\<lambda>s. s\<lparr>work_delay := None\<rparr>);
     _ \<leftarrow> startup_cmd_settings_init S settings_load;
     return ()
   }"

subsection \<open>The command (\<open>startup_cmd_shell.c\<close>)\<close>

text \<open>What the loop over the options collects; \<open>None\<close> is the jump to \<open>show_usage\<close>.\<close>

record startup_request =
  want_read :: bool
  want_time :: "int option"
  want_cmd :: "(string \<times> int) option"

fun startup_options :: "('w, 'y) print_api_scheme \<Rightarrow> startup_opt list \<Rightarrow> startup_request \<Rightarrow>
    ('w, 'z, startup_request option) startup_prog" where
  "startup_options P [] r = return (Some r)"
| "startup_options P (opt # opts) r = (case opt of
     Opt_Read \<Rightarrow> startup_options P opts (r\<lparr>want_read := True\<rparr>)
   | Opt_Time a \<Rightarrow> startup_options P opts (r\<lparr>want_time := Some (atoi a)\<rparr>)
   | Opt_Mem_1 a \<Rightarrow> startup_options P opts (r\<lparr>want_cmd := Some (a, 1)\<rparr>)
   | Opt_Mem_2 a \<Rightarrow> startup_options P opts (r\<lparr>want_cmd := Some (a, 2)\<rparr>)
   | Opt_Mem_3 a \<Rightarrow> startup_options P opts (r\<lparr>want_cmd := Some (a, 3)\<rparr>)
   | Opt_Help \<Rightarrow> return None
   | Opt_Unknown w \<Rightarrow> do {
       mosh_error P ''Unknown option (%s). See usage:'' [PStr w];
       return None
     })"

abbreviation LF :: string where "LF \<equiv> [CHR 0x0A]"

definition startup_cmd_usage_str :: string where
  "startup_cmd_usage_str =
     ''Usage: startup_cmd --read | --mem<1-3> <cmd_str> | -t <timeout_in_secs>'' @ LF @
     ''Options:'' @ LF @
     ''  -r, --read,      Read all stored MoSh startup commands from settings'' @ LF @
     ''      --mem[1-3],  Store a MoSh command to a given memory slot.'' @ LF @
     ''                   Clear the given memslot by giving an empty string:'' @ LF @
     ''                   startup_cmd --mem2 '' @ [CHR 0x22, CHR 0x22] @ LF @
     ''  -t, --time,      Starting time of executing of commands (in seconds after a bootup).'' @ LF @
     ''                   By default execution will be done when LTE is connected'' @ LF @
     ''                   for the first time after the bootup. Restore default value'' @ LF @
     ''                   by giving a negative value.'' @ LF @
     ''  -h, --help,      Shows this help information''"

definition startup_cmd_shell_print_usage :: "('w, 'z, unit) startup_prog" where
  "startup_cmd_shell_print_usage = mosh_print_no_format startup_cmd_usage_str"

definition startup_cmd_shell :: "('w, 'y) startup_api_scheme \<Rightarrow> string list \<Rightarrow> ('w, 'z, int) startup_prog" where
  "startup_cmd_shell T argv =
     (if length argv < 2 then do { startup_cmd_shell_print_usage; return 0 }
      else do {
        let (opts, optind) = sys_getopt_long T argv;
        req \<leftarrow> startup_options T opts \<lparr>want_read = False, want_time = None, want_cmd = None\<rparr>;
        case req of
          None \<Rightarrow> do { startup_cmd_shell_print_usage; return 0 }
        | Some r \<Rightarrow>
            if optind < length argv then do {
              mosh_error T (''Arguments without '' @ [CHR 0x27] @ ''-'' @ [CHR 0x27] @ '' not supported: %s'') [PStr (last argv)];
              startup_cmd_shell_print_usage;
              return 0
            }
            else if want_time r = None \<and> \<not> want_read r \<and> want_cmd r = None then do {
              mosh_warn T ''No command option given. Please, see the usage.'' [];
              startup_cmd_shell_print_usage;
              return 0
            }
            else do {
              (case want_time r of
                 None \<Rightarrow> return ()
               | Some t \<Rightarrow> do { _ \<leftarrow> startup_cmd_settings_starttime_set T t; return () });
              if want_read r then do { startup_cmd_settings_conf_shell_print T; return 0 }
              else case want_cmd r of
                None \<Rightarrow> return 0
              | Some (cmd, slot) \<Rightarrow> do {
                  ret \<leftarrow> startup_cmd_settings_save T cmd slot;
                  (if ret < 0 then mosh_error T (''Cannot set command %s to settings: '' @ [CHR 0x22] @ ''%s'' @ [CHR 0x22]) [PStr cmd, PWild]
                   else mosh_print T (''Command '' @ [CHR 0x22] @ ''%s'' @ [CHR 0x22] @ '' set successfully to memory slot %d.'')
                     [PStr (if cmd \<noteq> [] then cmd else ''<empty>''), PInt slot]);
                  return ret
                }
            }
      })"

subsection \<open>The variables and what is stored of them\<close>

definition startup_ok :: "'w startup \<Rightarrow> bool" where
  "startup_ok s \<longleftrightarrow> length (cmd1_str s) = STARTUP_CMD_MAX_LEN + 1 \<and> terminated (cmd1_str s) \<and>
     length (cmd2_str s) = STARTUP_CMD_MAX_LEN + 1 \<and> terminated (cmd2_str s) \<and>
     length (cmd3_str s) = STARTUP_CMD_MAX_LEN + 1 \<and> terminated (cmd3_str s) \<and>
     - (2 ^ 31) \<le> starttime s \<and> starttime s < 2 ^ 31"

definition startup_view :: "'w startup \<Rightarrow> storage" where
  "startup_view s = [STARTUP_CMD_STARTTIME \<mapsto> int_bytes (starttime s),
     STARTUP_CMD_1_KEY \<mapsto> cstr_bytes (cstr (cmd1_str s)), STARTUP_CMD_2_KEY \<mapsto> cstr_bytes (cstr (cmd2_str s)),
     STARTUP_CMD_3_KEY \<mapsto> cstr_bytes (cstr (cmd3_str s))]"

lemma startup_keys_distinct [simp]:
  "distinct [STARTUP_CMD_STARTTIME, STARTUP_CMD_1_KEY, STARTUP_CMD_2_KEY, STARTUP_CMD_3_KEY]"
  by (simp add: startup_keys)

lemma startup_keys_neq [simp]:
  "STARTUP_CMD_1_KEY \<noteq> STARTUP_CMD_STARTTIME" "STARTUP_CMD_2_KEY \<noteq> STARTUP_CMD_STARTTIME"
  "STARTUP_CMD_3_KEY \<noteq> STARTUP_CMD_STARTTIME" "STARTUP_CMD_2_KEY \<noteq> STARTUP_CMD_1_KEY"
  "STARTUP_CMD_3_KEY \<noteq> STARTUP_CMD_1_KEY" "STARTUP_CMD_3_KEY \<noteq> STARTUP_CMD_2_KEY"
  "STARTUP_CMD_STARTTIME \<noteq> STARTUP_CMD_1_KEY" "STARTUP_CMD_STARTTIME \<noteq> STARTUP_CMD_2_KEY"
  "STARTUP_CMD_STARTTIME \<noteq> STARTUP_CMD_3_KEY" "STARTUP_CMD_1_KEY \<noteq> STARTUP_CMD_2_KEY"
  "STARTUP_CMD_1_KEY \<noteq> STARTUP_CMD_3_KEY" "STARTUP_CMD_2_KEY \<noteq> STARTUP_CMD_3_KEY"
  by (simp_all add: startup_keys)

lemma startup_view_upd:
  "startup_view (s\<lparr>starttime := t\<rparr>) = (startup_view s)(STARTUP_CMD_STARTTIME \<mapsto> int_bytes t)"
  "startup_view (s\<lparr>cmd1_str := b\<rparr>) = (startup_view s)(STARTUP_CMD_1_KEY \<mapsto> cstr_bytes (cstr b))"
  "startup_view (s\<lparr>cmd2_str := b\<rparr>) = (startup_view s)(STARTUP_CMD_2_KEY \<mapsto> cstr_bytes (cstr b))"
  "startup_view (s\<lparr>cmd3_str := b\<rparr>) = (startup_view s)(STARTUP_CMD_3_KEY \<mapsto> cstr_bytes (cstr b))"
  by (auto simp: startup_view_def fun_eq_iff)

definition startup_vars :: "'w startup \<Rightarrow> int \<times> string \<times> string \<times> string" where
  "startup_vars s = (starttime s, cmd1_str s, cmd2_str s, cmd3_str s)"

lemma startup_vars_frame [simp]:
  "startup_vars (s\<lparr>console := c\<rparr>) = startup_vars s" "startup_vars (s\<lparr>cloud_out := d\<rparr>) = startup_vars s"
  "startup_vars (s\<lparr>world := w\<rparr>) = startup_vars s" "startup_vars (s\<lparr>running := r\<rparr>) = startup_vars s"
  "startup_vars (s\<lparr>running_mem_slot := m\<rparr>) = startup_vars s" "startup_vars (s\<lparr>work_delay := y\<rparr>) = startup_vars s"
  by (simp_all add: startup_vars_def)

lemma startup_vars_cong:
  "startup_vars s = startup_vars t \<Longrightarrow> startup_view s = startup_view t"
  "startup_vars s = startup_vars t \<Longrightarrow> startup_ok s = startup_ok t"
  by (simp_all add: startup_vars_def startup_view_def startup_ok_def)

lemma cstr_short: "length b = Suc n \<Longrightarrow> terminated b \<Longrightarrow> length (cstr b) \<le> n"
  using length_cstr_less [of b] by simp

interpretation startup_settings: settings_component startup_ok startup_view
    "\<lambda>s r. exec_state (startup_cmd_settings_handler S (fst r) (record_cb (snd r))) s"
  for S :: "('w, 'y) settings_api_scheme"
proof
  fix t s :: "'w startup" and k b
  assume t: "startup_ok t" and s: "startup_ok s" and b: "startup_view t k = Some b"
  have len: "length (cstr (cmd1_str t)) \<le> STARTUP_CMD_MAX_LEN" "length (cstr (cmd2_str t)) \<le> STARTUP_CMD_MAX_LEN"
      "length (cstr (cmd3_str t)) \<le> STARTUP_CMD_MAX_LEN"
    using t by (auto simp: startup_ok_def intro!: cstr_short)
  consider "k = STARTUP_CMD_STARTTIME" "b = int_bytes (starttime t)"
    | "k = STARTUP_CMD_1_KEY" "b = cstr_bytes (cstr (cmd1_str t))"
    | "k = STARTUP_CMD_2_KEY" "b = cstr_bytes (cstr (cmd2_str t))"
    | "k = STARTUP_CMD_3_KEY" "b = cstr_bytes (cstr (cmd3_str t))"
    using b by (auto simp: startup_view_def split: if_splits)
  then show "startup_ok (exec_state (startup_cmd_settings_handler S (fst (k, b)) (record_cb (snd (k, b)))) s) \<and>
      startup_view (exec_state (startup_cmd_settings_handler S (fst (k, b)) (record_cb (snd (k, b)))) s)
      = (startup_view s)(k \<mapsto> b)"
    using t s len
    by cases (simp_all add: startup_cmd_settings_handler_def exec_read_var startup_view_upd, simp_all add: startup_ok_def)
qed

lemma startup_print_frame:
  fixes s :: "'w startup"
  shows "world (exec_state (mosh_print P f a) s) = world s" "startup_vars (exec_state (mosh_print P f a) s) = startup_vars s"
    "world (exec_state (mosh_error P f a) s) = world s" "startup_vars (exec_state (mosh_error P f a) s) = startup_vars s"
  by (rule keepsD, rule keeps_mosh_print, simp_all)+

lemma startup_get_frame:
  "startup_cmd_settings_get n (exec_state (mosh_print P f a) s) = startup_cmd_settings_get n s"
  by (rule keepsD, rule keeps_mosh_print) (simp_all add: startup_cmd_settings_get_def)

definition slot_ok :: "string \<Rightarrow> int \<Rightarrow> bool" where
  "slot_ok cmd n \<longleftrightarrow> length cmd \<le> STARTUP_CMD_MAX_LEN \<and> n \<in> {1, 2, 3}"

lemma save_run:
  assumes "settings_save_one S (STARTUP_CMD_SETTINGS_KEY @ ''/'' @ slot_key n) (Some (cstr_bytes cmd)) (world s) = (err, w)"
  shows "result (startup_cmd_settings_save S cmd n) s = (if slot_ok cmd n then err else - EINVAL)"
    and "world (exec_state (startup_cmd_settings_save S cmd n) s) = (if slot_ok cmd n then w else world s)"
    and "startup_vars (exec_state (startup_cmd_settings_save S cmd n) s)
      = (if slot_ok cmd n \<and> err = 0 then startup_vars (put_slot n cmd s) else startup_vars s)"
proof -
  have f: "startup_vars (put_slot n cmd (s\<lparr>world := w\<rparr>)) = startup_vars (put_slot n cmd s)"
      "world (put_slot m cmd u) = world u" for m and u :: "'a startup"
    by (simp_all add: put_slot_def startup_vars_def)
  have rej: "\<not> slot_ok cmd n \<Longrightarrow> result (startup_cmd_settings_save S cmd n) s = - EINVAL \<and>
      world (exec_state (startup_cmd_settings_save S cmd n) s) = world s \<and>
      startup_vars (exec_state (startup_cmd_settings_save S cmd n) s) = startup_vars s"
    by (auto simp: startup_cmd_settings_save_def slot_ok_def exec_simps startup_print_frame)
  show "result (startup_cmd_settings_save S cmd n) s = (if slot_ok cmd n then err else - EINVAL)"
    "world (exec_state (startup_cmd_settings_save S cmd n) s) = (if slot_ok cmd n then w else world s)"
    "startup_vars (exec_state (startup_cmd_settings_save S cmd n) s)
      = (if slot_ok cmd n \<and> err = 0 then startup_vars (put_slot n cmd s) else startup_vars s)"
    using rej assms
    by (auto simp: startup_cmd_settings_save_def slot_ok_def Let_def exec_simps startup_print_frame f)
qed

lemma starttime_set_run:
  assumes "settings_save_one S (STARTUP_CMD_SETTINGS_KEY @ ''/'' @ STARTUP_CMD_STARTTIME) (Some (int_bytes t)) (world s) = (err, w)"
  shows "result (startup_cmd_settings_starttime_set S t) s = err"
    and "world (exec_state (startup_cmd_settings_starttime_set S t) s) = w"
    and "startup_vars (exec_state (startup_cmd_settings_starttime_set S t) s)
      = (if err = 0 then startup_vars (s\<lparr>starttime := t\<rparr>) else startup_vars s)"
  using assms
  by (simp_all add: startup_cmd_settings_starttime_set_def exec_simps startup_print_frame Let_def)
    (simp add: startup_vars_def)

text \<open>
  Storing a start-up command on every branch: a command over 128 bytes or a slot other than 1 to
  3 is refused with \<open>-EINVAL\<close> and nothing is stored; a failing storage gives its error and the
  variables stay; otherwise the record is stored and the slot holds exactly the command, the other
  variables unchanged.
\<close>

theorem startup_save_branches:
  "case settings_save_one S (STARTUP_CMD_SETTINGS_KEY @ ''/'' @ slot_key n) (Some (cstr_bytes cmd)) (world s) of (err, w) \<Rightarrow>
     result (startup_cmd_settings_save S cmd n) s = (if slot_ok cmd n then err else - EINVAL) \<and>
     world (exec_state (startup_cmd_settings_save S cmd n) s) = (if slot_ok cmd n then w else world s) \<and>
     startup_vars (exec_state (startup_cmd_settings_save S cmd n) s)
       = (if slot_ok cmd n \<and> err = 0 then startup_vars (put_slot n cmd s) else startup_vars s)"
  by (cases "settings_save_one S (STARTUP_CMD_SETTINGS_KEY @ ''/'' @ slot_key n) (Some (cstr_bytes cmd)) (world s)")
    (auto intro: save_run [THEN arg_cong] simp: save_run)

subsection \<open>The events\<close>

datatype startup_event =
    Pdn_Active
  | Loaded
  | Work
  | Save string int
  | Start_Time "32 word"

definition startup_step :: "('w, 'y) startup_api_scheme \<Rightarrow> 'w startup \<Rightarrow> startup_event \<Rightarrow> 'w startup" where
  "startup_step T s e = (case e of
     Pdn_Active \<Rightarrow> exec_state startup_cmd_ctrl_default_pdn_active s
   | Loaded \<Rightarrow> exec_state startup_cmd_settings_loaded s
   | Work \<Rightarrow> if work_delay s = None then s else exec_state (startup_cmd_worker T) (s\<lparr>work_delay := None\<rparr>)
   | Save cmd n \<Rightarrow> exec_state (startup_cmd_settings_save T (cstr cmd) n) s
   | Start_Time t \<Rightarrow> exec_state (startup_cmd_settings_starttime_set T (sint t)) s)"

definition startup_ctrl :: "'w startup \<Rightarrow> bool \<times> 8 word \<times> int option" where
  "startup_ctrl s = (running s, running_mem_slot s, work_delay s)"

lemma startup_ctrl_frame [simp]:
  "startup_ctrl (s\<lparr>console := c\<rparr>) = startup_ctrl s" "startup_ctrl (s\<lparr>cloud_out := d\<rparr>) = startup_ctrl s"
  "startup_ctrl (s\<lparr>world := w\<rparr>) = startup_ctrl s" "startup_ctrl (s\<lparr>starttime := t\<rparr>) = startup_ctrl s"
  "startup_ctrl (put_slot n cmd s) = startup_ctrl s"
  by (simp_all add: startup_ctrl_def put_slot_def)

lemma startup_ctrl_print [simp]:
  "startup_ctrl (exec_state (mosh_print P f a) s) = startup_ctrl s"
  "startup_ctrl (exec_state (mosh_error P f a) s) = startup_ctrl s"
  by (rule keepsD, rule keeps_mosh_print, simp_all)+

lemma keeps_startup_ctrl:
  "startup_ctrl (exec_state (startup_cmd_settings_save S cmd n) s) = startup_ctrl s"
  "startup_ctrl (exec_state (startup_cmd_settings_starttime_set S t) s) = startup_ctrl s"
  unfolding startup_cmd_settings_save_def startup_cmd_settings_starttime_set_def save_one_def
  by (rule keepsD; auto intro!: keeps_intros)+

text \<open>
  While the work item is scheduled, the commands are running and the slot is one of the three; the
  variables stay well formed.
\<close>

definition startup_inv :: "'w startup \<Rightarrow> bool" where
  "startup_inv s \<longleftrightarrow> startup_ok s \<and> (work_delay s = None \<or> running s \<and> running_mem_slot s \<in> {1, 2, 3})"

lemma startup_inv_cong:
  "startup_vars s = startup_vars t \<Longrightarrow> startup_ctrl s = startup_ctrl t \<Longrightarrow> startup_inv s = startup_inv t"
  by (simp add: startup_inv_def startup_vars_cong(2) [of s t] startup_ctrl_def)

definition ran :: "'w startup_api \<Rightarrow> string \<Rightarrow> 'w \<Rightarrow> 'w" where
  "ran T cmd w = (if cmd = [] then w else shell_execute_cmd T cmd w)"

lemma worker_run:
  fixes T :: "'w startup_api" and s :: "'w startup"
  shows "\<exists>c d. exec_state (startup_cmd_worker T) s =
     s\<lparr>console := c, cloud_out := d, world := ran T (startup_cmd_settings_get (running_mem_slot s) s) (world s),
       running_mem_slot := (if running_mem_slot s < 3 then running_mem_slot s + 1 else 0),
       work_delay := (if running_mem_slot s < 3 \<and> work_delay s = None then Some 0 else work_delay s)\<rparr>"
proof -
  let ?cmd = "startup_cmd_settings_get (running_mem_slot s) s"
  let ?msg = "mosh_print T (''Starting to execute sett_cmd %d '' @ [CHR 0x22] @ ''%s'' @ [CHR 0x22] @ ''...'')
         [PInt (uint (running_mem_slot s)), PStr ?cmd] :: ('w startup, unit) prog"
  have "\<exists>c d. exec_state (doif (?cmd \<noteq> []) (do { ?msg; act (shell_execute_cmd T ?cmd) })) s
      = s\<lparr>console := c, cloud_out := d, world := ran T ?cmd (world s)\<rparr>"
  proof (cases "?cmd = []")
    case True
    then show ?thesis
      by (intro exI [of _ "console s"] exI [of _ "cloud_out s"]) (simp add: exec_simps ran_def)
  next
    case False
    obtain c d where "exec_state ?msg s = s\<lparr>console := c, cloud_out := d\<rparr>"
      using print_run(1) by blast
    then have "exec_state (doif (?cmd \<noteq> []) (do { ?msg; act (shell_execute_cmd T ?cmd) })) s
        = s\<lparr>console := c, cloud_out := d, world := ran T ?cmd (world s)\<rparr>"
      using False by (simp add: exec_simps ran_def)
    then show ?thesis by blast
  qed
  then obtain c d where e: "exec_state (doif (?cmd \<noteq> []) (do { ?msg; act (shell_execute_cmd T ?cmd) })) s
      = s\<lparr>console := c, cloud_out := d, world := ran T ?cmd (world s)\<rparr>" by blast
  have "exec_state (startup_cmd_worker T) s =
     s\<lparr>console := c, cloud_out := d, world := ran T ?cmd (world s),
       running_mem_slot := (if running_mem_slot s < 3 then running_mem_slot s + 1 else 0),
       work_delay := (if running_mem_slot s < 3 \<and> work_delay s = None then Some 0 else work_delay s)\<rparr>"
    unfolding startup_cmd_worker_def exec_bind exec_basic e
    by (simp add: exec_simps k_work_schedule_def STARTUP_CMD_MAX_COUNT_def)
  then show ?thesis by blast
qed

lemma slot_cases: "n \<in> {1, 2, 3} \<Longrightarrow> n < (3 :: 8 word) \<Longrightarrow> n + 1 \<in> {1, 2, 3}"
  by auto

lemma startup_ok_put:
  assumes "startup_ok s" "slot_ok cmd n"
  shows "startup_ok (put_slot n cmd s)"
  using assms by (auto simp: startup_ok_def put_slot_def slot_ok_def)

interpretation startup_machine: machine "startup_step T" startup_inv for T :: "'w startup_api"
proof
  fix s :: "'w startup" and e
  assume s: "startup_inv s"
  show "startup_inv (startup_step T s e)"
  proof (cases e)
    case Work
    show ?thesis
    proof (cases "work_delay s")
      case None
      then show ?thesis using s Work by (simp add: startup_step_def)
    next
      case (Some y)
      let ?s = "s\<lparr>work_delay := None\<rparr>"
      obtain c d where e: "exec_state (startup_cmd_worker T) ?s =
         ?s\<lparr>console := c, cloud_out := d, world := ran T (startup_cmd_settings_get (running_mem_slot ?s) ?s) (world ?s),
           running_mem_slot := (if running_mem_slot ?s < 3 then running_mem_slot ?s + 1 else 0),
           work_delay := (if running_mem_slot ?s < 3 \<and> work_delay ?s = None then Some 0 else work_delay ?s)\<rparr>"
        using worker_run by blast
      have "running s" "running_mem_slot s \<in> {1, 2, 3}" using s Some by (simp_all add: startup_inv_def)
      then show ?thesis
        using s slot_cases [of "running_mem_slot s"] Work Some
        by (auto simp: startup_step_def e startup_inv_def startup_ok_def)
    qed
  next
    case (Save cmd n)
    obtain err w where r: "settings_save_one T (STARTUP_CMD_SETTINGS_KEY @ ''/'' @ slot_key n) (Some (cstr_bytes (cstr cmd))) (world s) = (err, w)"
      by fastforce
    have "startup_inv (put_slot n (cstr cmd) s)" if "slot_ok (cstr cmd) n"
      using s startup_ok_put [of s "cstr cmd" n] that
      by (simp add: startup_inv_def) (simp add: put_slot_def)
    then show ?thesis
      using s save_run(3) [OF r] Save
      by (auto simp: startup_step_def keeps_startup_ctrl intro: startup_inv_cong [THEN iffD2] split: if_splits)
  next
    case (Start_Time t)
    obtain err w where r: "settings_save_one T (STARTUP_CMD_SETTINGS_KEY @ ''/'' @ STARTUP_CMD_STARTTIME) (Some (int_bytes (sint t))) (world s) = (err, w)"
      by fastforce
    have "startup_inv (s\<lparr>starttime := sint t\<rparr>)"
      using s sint_lt [of t] sint_ge [of t] by (simp add: startup_inv_def startup_ok_def)
    then show ?thesis
      using s starttime_set_run(3) [OF r] Start_Time
      by (auto simp: startup_step_def keeps_startup_ctrl intro: startup_inv_cong [THEN iffD2] split: if_splits)
  qed (use s in \<open>auto simp: startup_step_def startup_cmd_ctrl_default_pdn_active_def startup_cmd_settings_loaded_def
      startup_cmd_ctrl_settings_loaded_def startup_cmd_settings_starttime_get_def exec_simps k_work_schedule_def
      startup_inv_def startup_ok_def\<close>)
qed

definition startup_boot :: "'w \<Rightarrow> 'w startup" where
  "startup_boot w = startup_ram_init \<lparr>world = w, at_cmd_mode_dont_print = False,
     mosh_print_timestamp_use = False, mosh_print_cloud_echo = False, console = [], cloud_out = [],
     aborted = False, starttime = 0, cmd1_str = [], cmd2_str = [], cmd3_str = [], running = False,
     running_mem_slot = 0, work_delay = None\<rparr>"

lemma startup_ok_ram_init: "startup_ok (startup_ram_init s)"
  by (simp add: startup_ok_def startup_ram_init_def STARTUP_CMD_STARTTIME_NOT_SET_def terminated_def)

lemma startup_inv_boot: "startup_inv (startup_boot w)"
  unfolding startup_inv_def startup_boot_def
  by (intro conjI startup_ok_ram_init) (simp add: startup_ram_init_def)

text \<open>
  The slot read by the worker is always one of the three (so the assertion of
  \<open>startup_cmd_settings_get\<close>, which is compiled out, would never fail) and the three buffers keep
  their 129 bytes with a NUL in them, in every sequence of events from boot: the PDN coming up, the
  settings being loaded, the work item, and the settings being changed while the commands run.
\<close>

theorem startup_slots_valid:
  fixes T :: "'w startup_api"
  shows "startup_inv (foldl (startup_step T) (startup_boot w) es)"
  by (rule startup_machine.run_inv [OF startup_inv_boot])

definition startup_commands :: "'w startup \<Rightarrow> string list" where
  "startup_commands s = filter (\<lambda>c. c \<noteq> []) [cstr (cmd1_str s), cstr (cmd2_str s), cstr (cmd3_str s)]"

lemma work_step:
  fixes T :: "'w startup_api"
  assumes "work_delay s \<noteq> None"
  shows "\<exists>c d. startup_step T s Work =
     s\<lparr>console := c, cloud_out := d, world := ran T (startup_cmd_settings_get (running_mem_slot s) s) (world s),
       running_mem_slot := (if running_mem_slot s < 3 then running_mem_slot s + 1 else 0),
       work_delay := (if running_mem_slot s < 3 then Some 0 else None)\<rparr>"
proof -
  let ?s = "s\<lparr>work_delay := None\<rparr>"
  obtain c d where e: "exec_state (startup_cmd_worker T) ?s =
     ?s\<lparr>console := c, cloud_out := d, world := ran T (startup_cmd_settings_get (running_mem_slot ?s) ?s) (world ?s),
       running_mem_slot := (if running_mem_slot ?s < 3 then running_mem_slot ?s + 1 else 0),
       work_delay := (if running_mem_slot ?s < 3 \<and> work_delay ?s = None then Some 0 else work_delay ?s)\<rparr>"
    using worker_run by blast
  show ?thesis
    by (rule exI [of _ c], rule exI [of _ d])
      (use assms e in \<open>auto simp: startup_step_def startup_cmd_settings_get_def\<close>)
qed

lemma three_works:
  fixes T :: "'w startup_api"
  assumes "running_mem_slot s = 1" "work_delay s \<noteq> None"
  shows "\<exists>c d. foldl (startup_step T) s [Work, Work, Work] =
     s\<lparr>console := c, cloud_out := d, world := fold (shell_execute_cmd T) (startup_commands s) (world s),
       running_mem_slot := 0, work_delay := None\<rparr>"
proof -
  define s1 where "s1 = startup_step T s Work"
  define s2 where "s2 = startup_step T s1 Work"
  obtain c1 d1 where 1: "s1 = s\<lparr>console := c1, cloud_out := d1,
      world := ran T (cstr (cmd1_str s)) (world s), running_mem_slot := 2, work_delay := Some 0\<rparr>"
    using work_step [OF assms(2), of T] assms(1) by (auto simp: startup_cmd_settings_get_def s1_def)
  obtain c2 d2 where "s2 = s1\<lparr>console := c2, cloud_out := d2,
      world := ran T (startup_cmd_settings_get (running_mem_slot s1) s1) (world s1),
      running_mem_slot := (if running_mem_slot s1 < 3 then running_mem_slot s1 + 1 else 0),
      work_delay := (if running_mem_slot s1 < 3 then Some 0 else None)\<rparr>"
    using work_step [of s1 T] unfolding s2_def by (auto simp: 1)
  then have 2: "s2 = s\<lparr>console := c2, cloud_out := d2,
      world := ran T (cstr (cmd2_str s)) (ran T (cstr (cmd1_str s)) (world s)), running_mem_slot := 3, work_delay := Some 0\<rparr>"
    by (simp add: 1 startup_cmd_settings_get_def)
  obtain c3 d3 where "startup_step T s2 Work = s2\<lparr>console := c3, cloud_out := d3,
      world := ran T (startup_cmd_settings_get (running_mem_slot s2) s2) (world s2),
      running_mem_slot := (if running_mem_slot s2 < 3 then running_mem_slot s2 + 1 else 0),
      work_delay := (if running_mem_slot s2 < 3 then Some 0 else None)\<rparr>"
    using work_step [of s2 T] by (auto simp: 2)
  then have "startup_step T s2 Work = s\<lparr>console := c3, cloud_out := d3,
      world := fold (shell_execute_cmd T) (startup_commands s) (world s), running_mem_slot := 0, work_delay := None\<rparr>"
    by (simp add: 2 startup_cmd_settings_get_def startup_commands_def ran_def)
  then show ?thesis
    by (auto simp: s1_def [symmetric] s2_def [symmetric])
qed

lemma running_done:
  assumes "running s" "work_delay s = None" "set es \<subseteq> {Pdn_Active, Loaded, Work}"
  shows "foldl (startup_step T) s es = s"
  using assms(3)
proof (induction es)
  case (Cons e es)
  have "startup_step T s e = s"
    using Cons.prems assms(1,2)
    by (auto simp: startup_step_def startup_cmd_ctrl_default_pdn_active_def startup_cmd_settings_loaded_def
        startup_cmd_ctrl_settings_loaded_def startup_cmd_settings_starttime_get_def startup_cmd_can_be_started_def exec_simps)
  then show ?case using Cons by simp
qed simp

text \<open>
  C28: The stored commands run once per boot, completely and in order: from a state in which nothing
  has run, the first activation of the default PDN (or the loading of the settings, when a start
  time is set) schedules the work item; three runs of it execute exactly the non-empty commands,
  first to third; then nothing is scheduled and no later event of this kind runs anything again.
\<close>

theorem startup_runs_once:
  fixes T :: "'w startup_api"
  assumes "startup_cmd_can_be_started s" "work_delay s = None"
    and "e = Pdn_Active \<or> e = Loaded \<and> 0 \<le> starttime s"
    and "set es \<subseteq> {Pdn_Active, Loaded, Work}"
  shows "world (foldl (startup_step T) s ([e, Work, Work, Work] @ es))
    = fold (shell_execute_cmd T) (startup_commands s) (world s)"
proof -
  let ?s = "startup_step T s e"
  have s: "?s = s\<lparr>running_mem_slot := 1, work_delay := Some (if e = Pdn_Active then 2 else starttime s), running := True\<rparr>"
    using assms(1-3)
    by (auto simp: startup_step_def startup_cmd_ctrl_default_pdn_active_def startup_cmd_settings_loaded_def
        startup_cmd_ctrl_settings_loaded_def startup_cmd_settings_starttime_get_def k_work_schedule_def exec_simps)
  obtain c d where "foldl (startup_step T) ?s [Work, Work, Work] =
     ?s\<lparr>console := c, cloud_out := d, world := fold (shell_execute_cmd T) (startup_commands ?s) (world ?s),
       running_mem_slot := 0, work_delay := None\<rparr>"
    using three_works [of ?s T] by (auto simp: s)
  then have t: "foldl (startup_step T) s [e, Work, Work, Work] =
     s\<lparr>console := c, cloud_out := d, world := fold (shell_execute_cmd T) (startup_commands s) (world s),
       running_mem_slot := 0, work_delay := None, running := True\<rparr>"
    by (simp add: s startup_commands_def)
  show ?thesis
    unfolding foldl_append t by (subst running_done) (use assms(4) in simp_all)
qed

definition log_startup :: "string list startup_api" where
  "log_startup = \<lparr>clock_utc = (\<lambda>_. clock_utc plain_print ()), vsnprintfcb = vsnprintfcb plain_print,
     settings_subsys_init = (\<lambda>w. (0, w)), settings_register = (\<lambda>_ w. (0, w)),
     settings_save_one = (\<lambda>_ _ w. (0, w)), shell_execute_cmd = (\<lambda>c w. w @ [c]),
     sys_getopt_long = (\<lambda>_. ([], 1))\<rparr>"

theorem startup_runs_once_witness:
  "world (foldl (startup_step log_startup)
      ((startup_boot [])\<lparr>cmd1_str := strcpy (replicate 129 NUL) ''link connect'',
        cmd3_str := strcpy (replicate 129 NUL) ''ping''\<rparr>)
      ([Pdn_Active, Work, Work, Work] @ [Pdn_Active, Loaded, Work])) = [''link connect'', ''ping'']"
  by (subst startup_runs_once)
    (simp_all add: startup_boot_def startup_ram_init_def startup_cmd_can_be_started_def
      startup_cmd_settings_enabled_def startup_commands_def log_startup_def NUL_def cstr_def [of "replicate _ _"] STARTUP_CMD_MAX_LEN_def)

subsection \<open>Restart\<close>

definition startup_agrees :: "('w \<Rightarrow> storage) \<Rightarrow> 'w startup \<Rightarrow> 'w startup \<Rightarrow> bool" where
  "startup_agrees sto d s \<longleftrightarrow> startup_inv s \<and>
     startup_view s = startup_view (startup_ram_init d) ++ subtree STARTUP_CMD_SETTINGS_KEY (sto (world s))"

text \<open>
  A stored command may do what it likes but edit the start-up records: \<open>spares\<close>. \<open>careful\<close> are the
  events that store no other command, \<open>careful_slots\<close> the states that hold none.
\<close>

definition spares :: "'w startup_api \<Rightarrow> ('w \<Rightarrow> storage) \<Rightarrow> string \<Rightarrow> bool" where
  "spares T sto c \<longleftrightarrow> (\<forall>w. subtree STARTUP_CMD_SETTINGS_KEY (sto (shell_execute_cmd T c w)) =
     subtree STARTUP_CMD_SETTINGS_KEY (sto w))"

definition careful :: "'w startup_api \<Rightarrow> ('w \<Rightarrow> storage) \<Rightarrow> startup_event \<Rightarrow> bool" where
  "careful T sto e = (case e of Save cmd n \<Rightarrow> spares T sto (cstr cmd) | _ \<Rightarrow> True)"

definition careful_slots :: "'w startup_api \<Rightarrow> ('w \<Rightarrow> storage) \<Rightarrow> 'w startup \<Rightarrow> bool" where
  "careful_slots T sto s = list_all (spares T sto) (startup_commands s)"

lemma careful_slots_cong:
  "startup_vars s = startup_vars t \<Longrightarrow> careful_slots T sto s = careful_slots T sto t"
  by (simp add: careful_slots_def startup_commands_def startup_vars_def)

lemma careful_slots_put:
  "careful_slots T sto s \<Longrightarrow> spares T sto cmd \<Longrightarrow> NUL \<notin> set cmd \<Longrightarrow> careful_slots T sto (put_slot n cmd s)"
  by (auto simp: careful_slots_def startup_commands_def put_slot_def split: if_splits)

lemma subtree_ran:
  "careful_slots T sto s \<Longrightarrow> subtree STARTUP_CMD_SETTINGS_KEY (sto (ran T (startup_cmd_settings_get n s) w)) =
    subtree STARTUP_CMD_SETTINGS_KEY (sto w)"
  by (auto simp: careful_slots_def startup_commands_def spares_def ran_def startup_cmd_settings_get_def split: if_splits)

lemma put_slot_view:
  assumes "startup_ok s" "slot_ok cmd n" "NUL \<notin> set cmd"
  shows "startup_view (put_slot n cmd s) = (startup_view s)(slot_key n \<mapsto> cstr_bytes cmd)"
  using assms by (auto simp: put_slot_def slot_key_def startup_view_upd)

lemma startup_step_agrees:
  fixes T :: "'w startup_api"
  assumes "reliable T sto" "careful T sto e" "startup_agrees sto d s \<and> careful_slots T sto s"
  shows "startup_agrees sto d (startup_step T s e) \<and> careful_slots T sto (startup_step T s e)"
proof -
  have inv: "startup_inv (startup_step T s e)"
    using assms(3) by (intro startup_machine.step_inv) (simp add: startup_agrees_def)
  have ok: "startup_ok s" and
    v: "startup_view s = startup_view (startup_ram_init d) ++ subtree STARTUP_CMD_SETTINGS_KEY (sto (world s))"
    using assms(3) by (simp_all add: startup_agrees_def startup_inv_def)
  have slots: "careful_slots T sto s" using assms(3) by simp
  have same: ?thesis
    if "startup_vars (startup_step T s e) = startup_vars s"
      "subtree STARTUP_CMD_SETTINGS_KEY (sto (world (startup_step T s e))) = subtree STARTUP_CMD_SETTINGS_KEY (sto (world s))"
    using inv v that slots startup_vars_cong(1) [OF that(1)] careful_slots_cong [OF that(1)] by (simp add: startup_agrees_def)
  show ?thesis
  proof (cases e)
    case Work
    show ?thesis
    proof (cases "work_delay s")
      case None
      then show ?thesis using assms(3) Work by (simp add: startup_step_def)
    next
      case (Some y)
      then obtain c d' where "startup_step T s Work =
         s\<lparr>console := c, cloud_out := d', world := ran T (startup_cmd_settings_get (running_mem_slot s) s) (world s),
           running_mem_slot := (if running_mem_slot s < 3 then running_mem_slot s + 1 else 0),
           work_delay := (if running_mem_slot s < 3 then Some 0 else None)\<rparr>"
        using work_step [of s T] by auto
      then show ?thesis
        using Work by (intro same) (simp_all add: subtree_ran [OF slots])
    qed
  next
    case (Save cmd n)
    obtain err w where r: "settings_save_one T (STARTUP_CMD_SETTINGS_KEY @ ''/'' @ slot_key n) (Some (cstr_bytes (cstr cmd))) (world s) = (err, w)"
      by fastforce
    have rel: "err = 0" "sto w = (sto (world s))(STARTUP_CMD_SETTINGS_KEY @ ''/'' @ slot_key n := Some (cstr_bytes (cstr cmd)))"
      using assms(1) r by (auto simp: reliable_def dest: spec [of _ "world s"]) (metis fst_conv snd_conv)+
    note run = save_run [OF r]
    show ?thesis
    proof (cases "slot_ok (cstr cmd) n")
      case True
      have "startup_view (startup_step T s e) = startup_view (put_slot n (cstr cmd) s)"
        using run(3) True rel(1) Save startup_vars_cong(1) by (simp add: startup_step_def)
      moreover have "careful_slots T sto (startup_step T s e)"
        using careful_slots_put [OF slots, of "cstr cmd" n] True rel(1) Save assms(2)
          careful_slots_cong [of "startup_step T s e" "put_slot n (cstr cmd) s"] run(3)
        by (simp add: startup_step_def careful_def)
      ultimately show ?thesis
        using inv v True run(2) rel(2) Save put_slot_view [OF ok True]
        by (simp add: startup_agrees_def startup_step_def map_add_upd)
    next
      case False
      then show ?thesis using run(2,3) Save by (intro same) (simp_all add: startup_step_def)
    qed
  next
    case (Start_Time t)
    obtain err w where r: "settings_save_one T (STARTUP_CMD_SETTINGS_KEY @ ''/'' @ STARTUP_CMD_STARTTIME) (Some (int_bytes (sint t))) (world s) = (err, w)"
      by fastforce
    have rel: "err = 0" "sto w = (sto (world s))(STARTUP_CMD_SETTINGS_KEY @ ''/'' @ STARTUP_CMD_STARTTIME := Some (int_bytes (sint t)))"
      using assms(1) r by (auto simp: reliable_def dest: spec [of _ "world s"]) (metis fst_conv snd_conv)+
    note run = starttime_set_run [OF r]
    have "startup_view (startup_step T s e) = startup_view (s\<lparr>starttime := sint t\<rparr>)"
      using run(3) rel(1) Start_Time startup_vars_cong(1) by (simp add: startup_step_def)
    moreover have "careful_slots T sto (startup_step T s e)"
      using slots careful_slots_cong [of "startup_step T s e" "s\<lparr>starttime := sint t\<rparr>"] run(3) rel(1) Start_Time
      by (simp add: startup_step_def careful_slots_def startup_commands_def)
    ultimately show ?thesis
      using inv v run(2) rel(2) Start_Time
      by (simp add: startup_agrees_def startup_step_def startup_view_upd map_add_upd)
  next
    case Pdn_Active
    show ?thesis
      by (rule same) (simp_all add: Pdn_Active startup_step_def startup_cmd_ctrl_default_pdn_active_def
          exec_simps k_work_schedule_def)
  next
    case Loaded
    show ?thesis
      by (rule same) (simp_all add: Loaded startup_step_def startup_cmd_settings_loaded_def
          startup_cmd_ctrl_settings_loaded_def startup_cmd_settings_starttime_get_def exec_simps k_work_schedule_def)
  qed
qed

lemma startup_run_agrees:
  fixes T :: "'w startup_api"
  assumes "reliable T sto" "list_all (careful T sto) es" "startup_agrees sto d s" "careful_slots T sto s"
  shows "startup_agrees sto d (foldl (startup_step T) s es)"
  using assms(2-)
proof (induction es arbitrary: s)
  case (Cons e es)
  have "startup_agrees sto d (startup_step T s e) \<and> careful_slots T sto (startup_step T s e)"
    by (rule startup_step_agrees [OF assms(1)]) (use Cons.prems in simp_all)
  then show ?case using Cons.IH Cons.prems(1) by simp
qed simp

lemma result_loaded: "result startup_cmd_settings_loaded s = 0"
  by (simp add: startup_cmd_settings_loaded_def exec_simps)

lemma keeps_ctrl_handler: "keeps startup_ctrl (startup_cmd_settings_handler S k cb)"
  unfolding startup_cmd_settings_handler_def
  by (intro keeps_intros) (simp_all add: startup_ctrl_def)

lemma startup_view_inject:
  assumes "startup_ok s" "startup_ok t" "startup_view s = startup_view t"
  shows "starttime s = starttime t \<and> cstr (cmd1_str s) = cstr (cmd1_str t) \<and>
    cstr (cmd2_str s) = cstr (cmd2_str t) \<and> cstr (cmd3_str s) = cstr (cmd3_str t)"
proof -
  have "startup_view s k = startup_view t k" for k
    using assms(3) by simp
  from this [of STARTUP_CMD_STARTTIME] this [of STARTUP_CMD_1_KEY] this [of STARTUP_CMD_2_KEY]
    this [of STARTUP_CMD_3_KEY] show ?thesis
    using assms(1,2) by (auto simp: startup_view_def startup_ok_def intro: int_bytes_inject)
qed

text \<open>\<open>settings_load\<close> with the commit callback: the records, then the commit.\<close>

definition load_and_commit :: "(string \<times> 8 word list) list \<Rightarrow> (string \<Rightarrow> 'w read_cb \<Rightarrow> ('s, int) prog) \<Rightarrow>
    ('s, int) prog \<Rightarrow> ('s, int) prog" where
  "load_and_commit recs h commit = do { _ \<leftarrow> load_records recs h; commit }"

text \<open>
  C33: The start-up commands survive a restart, when no stored command itself edits the start-up
  records: with a storage that keeps what it is given, whatever happened since the last boot
  (commands stored and run, which may save settings of their own under other keys, start times set,
  the PDN coming and going), initialising again and loading the stored start-up records in any order
  gives the same start time and the same three commands, and leaves the work item scheduled exactly
  when a start time is set and there is a command.
\<close>

theorem startup_survives_restart:
  fixes T :: "'w startup_api" and d s\<^sub>0 :: "'w startup"
  assumes "reliable T sto" "settings_ready T" "list_all (careful T sto) es"
    and "startup_agrees sto d s\<^sub>0" "careful_slots T sto s\<^sub>0" "running d = False"
    and "map_of recs = subtree STARTUP_CMD_SETTINGS_KEY (sto (world (foldl (startup_step T) s\<^sub>0 es)))"
    and "distinct (map fst recs)"
  shows "let s = foldl (startup_step T) s\<^sub>0 es; t = exec_state (startup_cmd_ctrl_init T (load_and_commit recs)) d
    in startup_view t = startup_view s \<and>
       (work_delay t \<noteq> None \<longleftrightarrow> 0 \<le> starttime s \<and> startup_cmd_settings_enabled s)"
proof -
  let ?s = "foldl (startup_step T) s\<^sub>0 es"
  let ?d = "startup_ram_init (d\<lparr>work_delay := None\<rparr>)"
  let ?load = "\<lambda>s r. exec_state (startup_cmd_settings_handler T (fst r) (record_cb (snd r))) s"
  let ?l = "foldl ?load ?d recs"
  let ?t = "exec_state (startup_cmd_ctrl_init T (load_and_commit recs)) d"
  have s: "startup_agrees sto d ?s"
    by (rule startup_run_agrees [OF assms(1,3-5)])
  have d: "startup_view ?d = startup_view (startup_ram_init d)" "startup_ok ?d"
    by (simp_all add: startup_view_def startup_ram_init_def startup_ok_ram_init) (simp add: startup_ok_def terminated_def STARTUP_CMD_STARTTIME_NOT_SET_def)
  have l: "startup_ok ?l" "startup_view ?l = startup_view ?s"
    using startup_settings.restart [OF _ d(2) _ assms(7,8), of ?s T] s d(1)
    by (simp_all add: startup_agrees_def startup_inv_def)
  have ctrl: "startup_ctrl (foldl ?load u recs) = startup_ctrl u" for u
    by (induction recs arbitrary: u) (simp_all add: keepsD [OF keeps_ctrl_handler])
  have none: "running ?l = False" "work_delay ?l = None"
    using ctrl [of ?d] assms(6) by (simp_all add: startup_ctrl_def startup_ram_init_def)
  have t: "?t = exec_state startup_cmd_settings_loaded ?l"
    using assms(2)
    by (simp add: startup_cmd_ctrl_init_def startup_cmd_settings_init_def settings_ready_def exec_simps
        load_and_commit_def exec_load_records result_loaded)
  have "startup_ok ?s" using s by (simp add: startup_agrees_def startup_inv_def)
  note eq = startup_view_inject [OF l(1) this l(2)]
  have "startup_view ?t = startup_view ?l"
    unfolding t by (rule startup_vars_cong(1))
      (simp add: startup_cmd_settings_loaded_def startup_cmd_ctrl_settings_loaded_def
        startup_cmd_settings_starttime_get_def exec_simps k_work_schedule_def)
  moreover have "work_delay ?t \<noteq> None \<longleftrightarrow> 0 \<le> starttime ?l \<and> startup_cmd_settings_enabled ?l"
    unfolding t using none
    by (auto simp: startup_cmd_settings_loaded_def startup_cmd_ctrl_settings_loaded_def
        startup_cmd_settings_starttime_get_def startup_cmd_can_be_started_def exec_simps k_work_schedule_def)
  ultimately show ?thesis
    using l(2) eq by (simp add: Let_def startup_cmd_settings_enabled_def)
qed

text \<open>A shell whose commands save a setting of another component.\<close>

definition store_startup :: "storage startup_api" where
  "store_startup = \<lparr>clock_utc = (\<lambda>_. clock_utc plain_print ()), vsnprintfcb = vsnprintfcb plain_print,
     settings_subsys_init = (\<lambda>w. (0, w)), settings_register = (\<lambda>_ w. (0, w)),
     settings_save_one = (\<lambda>k v w. (0, w(k := v))),
     shell_execute_cmd = (\<lambda>c w. w(''link/last'' := Some (cstr_bytes c))),
     sys_getopt_long = (\<lambda>_. ([], 1))\<rparr>"

lemma store_startup_laws:
  "reliable store_startup id" "settings_ready store_startup" "spares store_startup id c"
  "settings_save_one store_startup k v w = (0, w(k := v))"
  "shell_execute_cmd store_startup c w = w(''link/last'' := Some (cstr_bytes c))"
  by (simp_all add: reliable_def settings_ready_def spares_def store_startup_def subtree_def fun_eq_iff
      STARTUP_CMD_SETTINGS_KEY_def)

theorem startup_survives_restart_witness:
  "let es = [Start_Time 7, Save ''ping'' 2, Pdn_Active, Work, Work];
       s = foldl (startup_step store_startup) (startup_boot Map.empty) es in
   world s ''link/last'' = Some (cstr_bytes ''ping'') \<and>
   startup_view (exec_state (startup_cmd_ctrl_init store_startup (load_and_commit
      [(STARTUP_CMD_2_KEY, cstr_bytes ''ping''), (STARTUP_CMD_STARTTIME, int_bytes 7)])) (startup_boot Map.empty))
    = [STARTUP_CMD_STARTTIME \<mapsto> int_bytes 7, STARTUP_CMD_1_KEY \<mapsto> cstr_bytes [],
       STARTUP_CMD_2_KEY \<mapsto> cstr_bytes ''ping'', STARTUP_CMD_3_KEY \<mapsto> cstr_bytes []]"
proof -
  let ?b = "startup_boot Map.empty :: storage startup"
  let ?es = "[Start_Time 7, Save ''ping'' 2, Pdn_Active, Work, Work]"
  let ?recs = "[(STARTUP_CMD_2_KEY, cstr_bytes ''ping''), (STARTUP_CMD_STARTTIME, int_bytes 7)]"
  let ?s = "foldl (startup_step store_startup) ?b ?es"
  note save = store_startup_laws(4)
  have ping: "cstr ''ping'' = ''ping''" "slot_ok ''ping'' 2" "slot_key 2 = STARTUP_CMD_2_KEY" "NUL \<notin> set ''ping''"
    by (simp_all add: cstr_def NUL_def slot_ok_def STARTUP_CMD_MAX_LEN_def slot_key_def)
  have z: "cstr (replicate 129 NUL) = []" by (simp add: cstr_def)
  have b: "startup_view ?b = [STARTUP_CMD_STARTTIME \<mapsto> int_bytes (-1), STARTUP_CMD_1_KEY \<mapsto> cstr_bytes [],
       STARTUP_CMD_2_KEY \<mapsto> cstr_bytes [], STARTUP_CMD_3_KEY \<mapsto> cstr_bytes []]"
    "startup_ok ?b" "startup_ram_init ?b = ?b" "world ?b = Map.empty" "running ?b = False" "startup_commands ?b = []"
    "startup_vars ?b = (-1, replicate 129 NUL, replicate 129 NUL, replicate 129 NUL)" "startup_ctrl ?b = (False, 0, None)"
    using startup_inv_boot [of Map.empty]
    by (simp_all add: startup_inv_def) (simp_all add: startup_boot_def startup_ram_init_def startup_view_def startup_vars_def
        STARTUP_CMD_STARTTIME_NOT_SET_def startup_commands_def STARTUP_CMD_MAX_LEN_def startup_ctrl_def z)
  define u where "u = startup_step store_startup ?b (Start_Time 7)"
  have u: "world u = [STARTUP_CMD_SETTINGS_KEY @ ''/'' @ STARTUP_CMD_STARTTIME \<mapsto> int_bytes 7]"
      "startup_vars u = startup_vars (?b\<lparr>starttime := 7\<rparr>)" "startup_ctrl u = startup_ctrl ?b"
    using starttime_set_run(2,3) [OF save, where s = ?b and t = 7]
    by (simp_all add: u_def startup_step_def b(4) keeps_startup_ctrl)
  define v where "v = startup_step store_startup u (Save ''ping'' 2)"
  have v: "world v = (world u)(STARTUP_CMD_SETTINGS_KEY @ ''/'' @ STARTUP_CMD_2_KEY \<mapsto> cstr_bytes ''ping'')"
      "startup_vars v = startup_vars (put_slot 2 ''ping'' u)" "startup_ctrl v = startup_ctrl u"
    using save_run(2,3) [OF save, where s = u and n = 2 and cmd = "''ping''"] ping
    by (simp_all add: v_def startup_step_def keeps_startup_ctrl)
  have v': "starttime v = 7" "cstr (cmd1_str v) = []" "cstr (cmd2_str v) = ''ping''" "cstr (cmd3_str v) = []"
      "running v = False" "work_delay v = None"
    using v(2,3) u(2,3) b(7,8) ping(4) by (auto simp: startup_vars_def startup_ctrl_def put_slot_def z)
  define x where "x = startup_step store_startup v Pdn_Active"
  have x: "x = v\<lparr>running_mem_slot := 1, work_delay := Some 2, running := True\<rparr>"
    using v' by (simp add: x_def startup_step_def startup_cmd_ctrl_default_pdn_active_def startup_cmd_can_be_started_def
        startup_cmd_settings_enabled_def k_work_schedule_def exec_simps)
  define y where "y = startup_step store_startup x Work"
  obtain c\<^sub>1 d\<^sub>1 where y: "y = x\<lparr>console := c\<^sub>1, cloud_out := d\<^sub>1, running_mem_slot := 2, work_delay := Some 0\<rparr>"
    using work_step [of x store_startup] v' by (auto simp: y_def x startup_cmd_settings_get_def ran_def)
  have last: "?s = startup_step store_startup y Work" by (simp add: u_def v_def x_def y_def)
  obtain c\<^sub>2 d\<^sub>2 where s: "?s = y\<lparr>console := c\<^sub>2, cloud_out := d\<^sub>2,
      world := (world v)(''link/last'' := Some (cstr_bytes ''ping'')), running_mem_slot := 3, work_delay := Some 0\<rparr>"
    unfolding last using work_step [of y store_startup] v'
    by (auto simp: x y store_startup_laws(5) startup_cmd_settings_get_def ran_def)
  have view: "startup_view ?s = [STARTUP_CMD_STARTTIME \<mapsto> int_bytes 7, STARTUP_CMD_1_KEY \<mapsto> cstr_bytes [],
       STARTUP_CMD_2_KEY \<mapsto> cstr_bytes ''ping'', STARTUP_CMD_3_KEY \<mapsto> cstr_bytes []]"
    unfolding startup_view_def s using v' by (simp add: x y)
  have w: "world ?s = (world v)(''link/last'' := Some (cstr_bytes ''ping''))" unfolding s by simp
  have "startup_agrees id ?b ?b" "careful_slots store_startup id ?b"
    using startup_inv_boot [of Map.empty] b by (simp_all add: startup_agrees_def careful_slots_def)
  moreover have "list_all (careful store_startup id) ?es"
    by (simp add: careful_def store_startup_laws(3))
  moreover have "map_of ?recs = subtree STARTUP_CMD_SETTINGS_KEY (id (world ?s))"
    unfolding w v(1) u(1) by (simp add: fun_eq_iff) (simp add: subtree_def STARTUP_CMD_SETTINGS_KEY_def)
  moreover have "distinct (map fst ?recs)" by simp
  ultimately show ?thesis
    using startup_survives_restart [OF store_startup_laws(1,2), of ?es ?b ?b ?recs] b(5) view w by (simp add: Let_def)
qed

end
