(* ===== verification/Mosh_Link_Print.thy ===== *)
theory Mosh_Link_Print
  imports Mosh_Startup
begin

section \<open>Names and texts of the link component (\<open>link_shell_print.c\<close>)\<close>

text \<open>
  The interface to the LTE link control library, and the tables with which modes, events and
  statuses are printed. The library's enumerators are not part of the repository: their numbers are
  the parameter \<open>lc\<close>, by name. Floating point is not modelled: the text of a number of milliseconds
  as seconds with two decimals is the parameter \<open>seconds_text\<close>.
\<close>

record 'w link_api = "'w settings_api" +
  lc :: "string \<Rightarrow> int"
  seconds_text :: "64 word \<Rightarrow> string"
  nrf_modem_at_printf :: "string \<Rightarrow> parg list \<Rightarrow> 'w \<Rightarrow> int \<times> 'w"

subsection \<open>Tables\<close>

definition TBL_END :: "int \<times> string" where
  "TBL_END = (-1, '''')"

text \<open>
  A table ends with the key \<open>-1\<close>. The C code writes into a buffer of the caller and gives it back; here
  the text is the result.
\<close>

definition link_shell_map_to_string :: "('w, 'y) print_api_scheme \<Rightarrow> (int \<times> string) list \<Rightarrow> int \<Rightarrow>
    ('w, 'z, string) mosh_prog" where
  "link_shell_map_to_string P mapping_table mode =
     (case find (\<lambda>(k, _). k = mode) (takeWhile (\<lambda>(k, _). k \<noteq> -1) mapping_table) of
        None \<Rightarrow> do {
          mosh_error P ''%d (unknown value, not converted to string)'' [PInt mode];
          return (show_int mode)
        }
      | Some (_, value_str) \<Rightarrow> return value_str)"

definition link_shell_print_sleep_time_to_string :: "('w, 'y) link_api_scheme \<Rightarrow> 64 word \<Rightarrow> string" where
  "link_shell_print_sleep_time_to_string T sleep_time =
     (if sleep_time = -1 then ''infinite'' else seconds_text T sleep_time @ '' seconds'')"

definition sleep_type_table :: "('w, 'y) link_api_scheme \<Rightarrow> (int \<times> string) list" where
  "sleep_type_table T = [
     (lc T ''LTE_LC_MODEM_SLEEP_PSM'', ''PSM''),
     (lc T ''LTE_LC_MODEM_SLEEP_RF_INACTIVITY'', ''RF inactivity''),
     (lc T ''LTE_LC_MODEM_SLEEP_LIMITED_SERVICE'', ''limited service''),
     (lc T ''LTE_LC_MODEM_SLEEP_FLIGHT_MODE'', ''flight mode''),
     (lc T ''LTE_LC_MODEM_SLEEP_PROPRIETARY_PSM'', ''proprietary PSM''),
     TBL_END]"

definition link_shell_print_sleep_type_to_string :: "('w, 'y) link_api_scheme \<Rightarrow> int \<Rightarrow> ('w, 'z, string) mosh_prog" where
  "link_shell_print_sleep_type_to_string T sleep_type = link_shell_map_to_string T (sleep_type_table T) sleep_type"

definition LINK_FUNMODE_NONE :: int where "LINK_FUNMODE_NONE = 99"
definition LINK_SYSMODE_NONE :: int where "LINK_SYSMODE_NONE = 99"

definition funmode_table :: "('w, 'y) link_api_scheme \<Rightarrow> (int \<times> string) list" where
  "funmode_table T = [
     (lc T ''LTE_LC_FUNC_MODE_POWER_OFF'', ''power off''),
     (lc T ''LTE_LC_FUNC_MODE_NORMAL'', ''normal''),
     (lc T ''LTE_LC_FUNC_MODE_RX_ONLY'', ''RX only''),
     (lc T ''LTE_LC_FUNC_MODE_OFFLINE'', ''flightmode''),
     (lc T ''LTE_LC_FUNC_MODE_DEACTIVATE_LTE'', ''LTE off''),
     (lc T ''LTE_LC_FUNC_MODE_ACTIVATE_LTE'', ''LTE on''),
     (lc T ''LTE_LC_FUNC_MODE_DEACTIVATE_GNSS'', ''GNSS off''),
     (lc T ''LTE_LC_FUNC_MODE_ACTIVATE_GNSS'', ''GNSS on''),
     (lc T ''LTE_LC_FUNC_MODE_DEACTIVATE_UICC'', ''UICC off''),
     (lc T ''LTE_LC_FUNC_MODE_ACTIVATE_UICC'', ''UICC on''),
     (lc T ''LTE_LC_FUNC_MODE_OFFLINE_UICC_ON'', ''flightmode but UICC on''),
     (lc T ''LTE_LC_FUNC_MODE_OFFLINE_KEEP_REG'', ''flightmode but keep registration''),
     (lc T ''LTE_LC_FUNC_MODE_OFFLINE_KEEP_REG_UICC_ON'', ''flightmode but keep registration and UICC on''),
     (LINK_FUNMODE_NONE, ''unknown''),
     TBL_END]"

definition link_shell_funmode_to_string :: "('w, 'y) link_api_scheme \<Rightarrow> int \<Rightarrow> ('w, 'z, string) mosh_prog" where
  "link_shell_funmode_to_string T funmode = link_shell_map_to_string T (funmode_table T) funmode"

definition REDUCED_MOBILITY_DEFAULT :: int where "REDUCED_MOBILITY_DEFAULT = 0"
definition REDUCED_MOBILITY_NORDIC :: int where "REDUCED_MOBILITY_NORDIC = 1"
definition REDUCED_MOBILITY_DISABLED :: int where "REDUCED_MOBILITY_DISABLED = 2"

definition redmob_table :: "(int \<times> string) list" where
  "redmob_table = [
     (REDUCED_MOBILITY_DEFAULT, ''default''),
     (REDUCED_MOBILITY_NORDIC, ''nordic''),
     (REDUCED_MOBILITY_DISABLED, ''disabled''),
     TBL_END]"

definition link_shell_redmob_mode_to_string :: "('w, 'y) print_api_scheme \<Rightarrow> int \<Rightarrow> ('w, 'z, string) mosh_prog" where
  "link_shell_redmob_mode_to_string P funmode = link_shell_map_to_string P redmob_table funmode"

definition sysmode_table :: "('w, 'y) link_api_scheme \<Rightarrow> (int \<times> string) list" where
  "sysmode_table T = [
     (lc T ''LTE_LC_SYSTEM_MODE_LTEM'', ''LTE-M''),
     (lc T ''LTE_LC_SYSTEM_MODE_NBIOT'', ''NB-IoT''),
     (lc T ''LTE_LC_SYSTEM_MODE_GPS'', ''GNSS''),
     (lc T ''LTE_LC_SYSTEM_MODE_LTEM_GPS'', ''LTE-M - GNSS''),
     (lc T ''LTE_LC_SYSTEM_MODE_NBIOT_GPS'', ''NB-IoT - GNSS''),
     (lc T ''LTE_LC_SYSTEM_MODE_LTEM_NBIOT'', ''LTE-M - NB-IoT''),
     (lc T ''LTE_LC_SYSTEM_MODE_LTEM_NBIOT_GPS'', ''LTE-M - NB-IoT - GNSS''),
     (lc T ''LTE_LC_SYSTEM_MODE_NTN_NBIOT'', ''NTN NB-IoT''),
     (LINK_SYSMODE_NONE, ''None''),
     TBL_END]"

definition link_shell_sysmode_to_string :: "('w, 'y) link_api_scheme \<Rightarrow> int \<Rightarrow> ('w, 'z, string) mosh_prog" where
  "link_shell_sysmode_to_string T sysmode = link_shell_map_to_string T (sysmode_table T) sysmode"

definition sysmode_preferred_table :: "('w, 'y) link_api_scheme \<Rightarrow> (int \<times> string) list" where
  "sysmode_preferred_table T = [
     (lc T ''LTE_LC_SYSTEM_MODE_PREFER_AUTO'', ''No preference, automatically selected by the modem''),
     (lc T ''LTE_LC_SYSTEM_MODE_PREFER_LTEM'', ''LTE-M is preferred over PLMN selection''),
     (lc T ''LTE_LC_SYSTEM_MODE_PREFER_NBIOT'', ''NB-IoT is preferred over PLMN selection''),
     (lc T ''LTE_LC_SYSTEM_MODE_PREFER_LTEM_PLMN_PRIO'', ''LTE-M is preferred, but PLMN selection is more important''),
     (lc T ''LTE_LC_SYSTEM_MODE_PREFER_NBIOT_PLMN_PRIO'', ''NB-IoT is preferred, but PLMN selection is more important''),
     TBL_END]"

definition link_shell_sysmode_preferred_to_string :: "('w, 'y) link_api_scheme \<Rightarrow> int \<Rightarrow>
    ('w, 'z, string) mosh_prog" where
  "link_shell_sysmode_preferred_to_string T sysmode_preference =
     link_shell_map_to_string T (sysmode_preferred_table T) sysmode_preference"

definition actmode_table :: "('w, 'y) link_api_scheme \<Rightarrow> (int \<times> string) list" where
  "actmode_table T = [
     (lc T ''LTE_LC_LTE_MODE_NONE'', ''None''),
     (lc T ''LTE_LC_LTE_MODE_LTEM'', ''LTE-M''),
     (lc T ''LTE_LC_LTE_MODE_NBIOT'', ''NB-IoT''),
     (lc T ''LTE_LC_LTE_MODE_NTN_NBIOT'', ''NTN NB-IoT''),
     TBL_END]"

definition link_shell_sysmode_currently_active_to_string :: "('w, 'y) link_api_scheme \<Rightarrow> int \<Rightarrow>
    ('w, 'z, string) mosh_prog" where
  "link_shell_sysmode_currently_active_to_string T actmode = link_shell_map_to_string T (actmode_table T) actmode"

text \<open>The tables of \<open>link_shell_pdn.c\<close>.\<close>

definition pdn_event_table :: "('w, 'y) link_api_scheme \<Rightarrow> (int \<times> string) list" where
  "pdn_event_table T = [
     (lc T ''LTE_LC_EVT_PDN_ACTIVATED'', ''activated''),
     (lc T ''LTE_LC_EVT_PDN_DEACTIVATED'', ''deactivated''),
     (lc T ''LTE_LC_EVT_PDN_IPV6_UP'', ''IPv6 up''),
     (lc T ''LTE_LC_EVT_PDN_IPV6_DOWN'', ''IPv6 down''),
     (lc T ''LTE_LC_EVT_PDN_SUSPENDED'', ''suspended''),
     (lc T ''LTE_LC_EVT_PDN_RESUMED'', ''resumed''),
     (lc T ''LTE_LC_EVT_PDN_NETWORK_DETACH'', ''network detach''),
     (lc T ''LTE_LC_EVT_PDN_APN_RATE_CONTROL_ON'', ''APN rate control on''),
     (lc T ''LTE_LC_EVT_PDN_APN_RATE_CONTROL_OFF'', ''APN rate control off''),
     (lc T ''LTE_LC_EVT_PDN_CTX_DESTROYED'', ''context destroyed''),
     TBL_END]"

definition link_pdn_event_to_string :: "('w, 'y) link_api_scheme \<Rightarrow> int \<Rightarrow> ('w, 'z, string) mosh_prog" where
  "link_pdn_event_to_string T event = link_shell_map_to_string T (pdn_event_table T) event"

definition pdn_family_table :: "('w, 'y) link_api_scheme \<Rightarrow> (int \<times> string) list" where
  "pdn_family_table T = [
     (lc T ''LTE_LC_PDN_FAM_IPV4'', ''ipv4''),
     (lc T ''LTE_LC_PDN_FAM_IPV6'', ''ipv6''),
     (lc T ''LTE_LC_PDN_FAM_IPV4V6'', ''ipv4v6''),
     (lc T ''LTE_LC_PDN_FAM_NONIP'', ''non-ip''),
     TBL_END]"

definition link_pdn_lib_family_to_string :: "('w, 'y) link_api_scheme \<Rightarrow> int \<Rightarrow> ('w, 'z, string) mosh_prog" where
  "link_pdn_lib_family_to_string T pdn_family = link_shell_map_to_string T (pdn_family_table T) pdn_family"

text \<open>A null pointer is no family given.\<close>

definition link_family_str_to_pdn_lib_family :: "('w, 'y) link_api_scheme \<Rightarrow> string option \<Rightarrow>
    ('w, 'z, int + int) mosh_prog" where
  "link_family_str_to_pdn_lib_family T family = (case family of
     None \<Rightarrow> return (Inr (lc T ''LTE_LC_PDN_FAM_IPV4V6''))
   | Some f \<Rightarrow>
       if f = ''ipv4v6'' then return (Inr (lc T ''LTE_LC_PDN_FAM_IPV4V6''))
       else if f = ''ipv4'' then return (Inr (lc T ''LTE_LC_PDN_FAM_IPV4''))
       else if f = ''ipv6'' then return (Inr (lc T ''LTE_LC_PDN_FAM_IPV6''))
       else if f = ''packet'' \<or> f = ''non-ip'' then return (Inr (lc T ''LTE_LC_PDN_FAM_NONIP''))
       else do {
         mosh_error T ''%s: could not decode PDN address family (%s)''
           [PStr ''link_family_str_to_pdn_lib_family'', PStr f];
         return (Inl (- EINVAL))
       })"

definition link_shell_pdn_auth_prot_to_pdn_lib_method_map :: "('w, 'y) link_api_scheme \<Rightarrow> int \<Rightarrow> int + int" where
  "link_shell_pdn_auth_prot_to_pdn_lib_method_map T auth_proto =
     (if auth_proto = 0 then Inr (lc T ''LTE_LC_PDN_AUTH_NONE'')
      else if auth_proto = 1 then Inr (lc T ''LTE_LC_PDN_AUTH_PAP'')
      else if auth_proto = 2 then Inr (lc T ''LTE_LC_PDN_AUTH_CHAP'')
      else Inl (- EINVAL))"

subsection \<open>Events\<close>

record modem_sleep =
  sleep_type :: int
  sleep_time :: "64 word"

definition link_shell_print_modem_sleep_notif :: "('w, 'y) link_api_scheme \<Rightarrow> int \<Rightarrow> modem_sleep \<Rightarrow>
    ('w, 'z, unit) mosh_prog" where
  "link_shell_print_modem_sleep_notif T evt_type modem_sleep =
     (if evt_type = lc T ''LTE_LC_EVT_MODEM_SLEEP_EXIT_PRE_WARNING'' then do {
        let stime = link_shell_print_sleep_time_to_string T (sleep_time modem_sleep);
        stype \<leftarrow> link_shell_print_sleep_type_to_string T (sleep_type modem_sleep);
        mosh_print T ''Modem sleep exit pre-warning: Time: %s, Type: %s'' [PStr stime, PStr stype]
      }
      else if evt_type = lc T ''LTE_LC_EVT_MODEM_SLEEP_EXIT'' then do {
        stype \<leftarrow> link_shell_print_sleep_type_to_string T (sleep_type modem_sleep);
        mosh_print T ''Modem sleep exit: Type: %s'' [PStr stype]
      }
      else if evt_type = lc T ''LTE_LC_EVT_MODEM_SLEEP_ENTER'' then do {
        let stime = link_shell_print_sleep_time_to_string T (sleep_time modem_sleep);
        stype \<leftarrow> link_shell_print_sleep_type_to_string T (sleep_type modem_sleep);
        mosh_print T ''Modem sleep enter: Time: %s, Type: %s'' [PStr stime, PStr stype]
      }
      else mosh_print T ''Unknown type of modem sleep event %d'' [PInt evt_type])"

record modem_evt =
  modem_evt_type :: int
  ce_level :: int
  status_ltem :: int
  status_nbiot :: int
  status_ntn_nbiot :: int
  detected_country :: int

text \<open>A \<open>switch\<close> over enumerators: the first label that matches, or nothing.\<close>

definition switch :: "('w, 'y) link_api_scheme \<Rightarrow> int \<Rightarrow> (string \<times> ('s, unit) prog) list \<Rightarrow> ('s, unit) prog \<Rightarrow>
    ('s, unit) prog" where
  "switch T v branches dflt = (case find (\<lambda>(l, _). lc T l = v) branches of Some (_, p) \<Rightarrow> p | None \<Rightarrow> dflt)"

definition link_shell_print_modem_domain_event :: "('w, 'y) link_api_scheme \<Rightarrow> modem_evt \<Rightarrow> ('w, 'z, unit) mosh_prog" where
  "link_shell_print_modem_domain_event T e = switch T (modem_evt_type e) [
     (''LTE_LC_MODEM_EVT_LIGHT_SEARCH_DONE'', mosh_print T ''Modem domain event: Light search done'' []),
     (''LTE_LC_MODEM_EVT_SEARCH_DONE'', mosh_print T ''Modem domain event: Search done'' []),
     (''LTE_LC_MODEM_EVT_RESET_LOOP'', mosh_print T ''Modem domain event: Reset loop'' []),
     (''LTE_LC_MODEM_EVT_BATTERY_LOW'', mosh_print T ''Modem domain event: Battery low'' []),
     (''LTE_LC_MODEM_EVT_OVERHEATED'', mosh_print T ''Modem domain event: Overheated'' []),
     (''LTE_LC_MODEM_EVT_NO_IMEI'', mosh_print T ''Modem domain event: No IMEI'' []),
     (''LTE_LC_MODEM_EVT_CE_LEVEL'', mosh_print T ''Modem domain event: CE-level %d'' [PInt (ce_level e)]),
     (''LTE_LC_MODEM_EVT_RF_CAL_NOT_DONE'', mosh_print T ''Modem domain event: RF calibration not done'' []),
     (''LTE_LC_MODEM_EVT_INVALID_BAND_CONF'',
        mosh_print T ''Modem domain event: Invalid band configuration %d %d %d''
          [PInt (status_ltem e), PInt (status_nbiot e), PInt (status_ntn_nbiot e)]),
     (''LTE_LC_MODEM_EVT_DETECTED_COUNTRY'',
        mosh_print T ''Modem domain event: Detected country %u'' [PInt (detected_country e)])]
     (return ())"

definition link_shell_print_reg_status :: "('w, 'y) link_api_scheme \<Rightarrow> int \<Rightarrow> ('w, 'z, unit) mosh_prog" where
  "link_shell_print_reg_status T reg_status =
     (let home = mosh_print T ''Network registration status: %s''
            [PStr (if reg_status = lc T ''LTE_LC_NW_REG_REGISTERED_HOME''
              then ''Connected - home network'' else ''Connected - roaming'')];
          rx_home = mosh_print T ''Network registration status: %s''
            [PStr (if reg_status = lc T ''LTE_LC_NW_REG_RX_ONLY_REGISTERED_HOME''
              then ''Connected - home network (receive only)'' else ''Connected - roaming (receive only)'')]
      in switch T reg_status [
     (''LTE_LC_NW_REG_NOT_REGISTERED'', mosh_print T ''Network registration status: not registered'' []),
     (''LTE_LC_NW_REG_SEARCHING'', mosh_print T ''Network registration status: searching'' []),
     (''LTE_LC_NW_REG_REGISTRATION_DENIED'', mosh_print T ''Network registration status: denied'' []),
     (''LTE_LC_NW_REG_UNKNOWN'', mosh_print T ''Network registration status: unknown'' []),
     (''LTE_LC_NW_REG_RX_ONLY_NOT_REGISTERED'', mosh_print T ''Network registration status: not registered (receive only)'' []),
     (''LTE_LC_NW_REG_RX_ONLY_SEARCHING'', mosh_print T ''Network registration status: searching (receive only)'' []),
     (''LTE_LC_NW_REG_RX_ONLY_REGISTRATION_DENIED'', mosh_print T ''Network registration status: registration denied (receive only)'' []),
     (''LTE_LC_NW_REG_RX_ONLY_UNKNOWN'', mosh_print T ''Network registration status: unknown (receive only)'' []),
     (''LTE_LC_NW_REG_UICC_FAIL'', mosh_print T ''Network registration status: UICC fail'' []),
     (''LTE_LC_NW_REG_NO_SUITABLE_CELL'', mosh_print T ''Network registration status: no suitable cell'' []),
     (''LTE_LC_NW_REG_REGISTERED_HOME'', home),
     (''LTE_LC_NW_REG_REGISTERED_ROAMING'', home),
     (''LTE_LC_NW_REG_RX_ONLY_REGISTERED_HOME'', rx_home),
     (''LTE_LC_NW_REG_RX_ONLY_REGISTERED_ROAMING'', rx_home)]
     (return ()))"

subsection \<open>Frame\<close>

lemma keeps_map_to_string [keeps_intros]:
  assumes "\<And>s c. f (s\<lparr>console := c\<rparr>) = f s" "\<And>s c. f (s\<lparr>cloud_out := c\<rparr>) = f s"
  shows "keeps f (link_shell_map_to_string P tbl mode)"
  unfolding link_shell_map_to_string_def by (intro keeps_intros) (simp_all add: assms)

lemma keeps_switch [keeps_intros]:
  assumes "\<And>l p. (l, p) \<in> set bs \<Longrightarrow> keeps f p" "keeps f d"
  shows "keeps f (switch T v bs d)"
proof (cases "find (\<lambda>(l, _). lc T l = v) bs")
  case (Some r)
  then have "r \<in> set bs" by (auto simp: find_Some_iff in_set_conv_nth)
  then show ?thesis using assms(1) [of "fst r" "snd r"] Some by (simp add: switch_def case_prod_unfold)
qed (simp add: switch_def assms(2))

end
