(* ===== verification/Mosh_Link_Sett.thy ===== *)
theory Mosh_Link_Sett
  imports Mosh_Link_Print
begin

section \<open>Stored settings of the link component (\<open>link_settings.c\<close>)\<close>

text \<open>
  The default PDN context and its authentication, a DNS server, the system mode, three AT commands
  for the normal mode and automatic connection: variables in RAM with a copy in the storage. A
  variable of an enumeration type is one byte, as the ABI of the target has it.
\<close>

subsection \<open>State\<close>

definition MOSH_APN_STR_MAX_LEN :: nat where "MOSH_APN_STR_MAX_LEN = 64"
definition LINK_SETT_DEFCONTAUTH_MAX_UNAME_STR_LEN :: nat where "LINK_SETT_DEFCONTAUTH_MAX_UNAME_STR_LEN = 32"
definition LINK_SETT_DEFCONTAUTH_MAX_PWORD_STR_LEN :: nat where "LINK_SETT_DEFCONTAUTH_MAX_PWORD_STR_LEN = 32"
definition LINK_SETT_DNSADDR_MAX_IP_LEN :: nat where "LINK_SETT_DNSADDR_MAX_IP_LEN = 46"
definition CONFIG_MOSH_LINK_SETT_NORMAL_MODE_AT_CMD_STR_LEN :: nat where
  "CONFIG_MOSH_LINK_SETT_NORMAL_MODE_AT_CMD_STR_LEN = 127"

lemmas link_sett_lens = MOSH_APN_STR_MAX_LEN_def LINK_SETT_DEFCONTAUTH_MAX_UNAME_STR_LEN_def
  LINK_SETT_DEFCONTAUTH_MAX_PWORD_STR_LEN_def LINK_SETT_DNSADDR_MAX_IP_LEN_def
  CONFIG_MOSH_LINK_SETT_NORMAL_MODE_AT_CMD_STR_LEN_def

record link_sett_t =
  defcont_apn_str :: string
  defcont_enabled :: bool
  defcontauth_uname_str :: string
  defcontauth_pword_str :: string
  defcontauth_enabled :: bool
  dnsaddr_ip_str :: string
  dnsaddr_enabled :: bool
  sysmode :: "8 word"
  sysmode_lte_preference :: "8 word"
  pdn_family :: "8 word"
  defcontauth_prot :: "8 word"
  normal_mode_at_cmd_str_1 :: string
  normal_mode_at_cmd_str_2 :: string
  normal_mode_at_cmd_str_3 :: string
  normal_mode_autoconn_enabled :: bool
  normal_mode_autoconn_rel14_used :: bool

record 'w link = "'w startup" +
  link_settings :: link_sett_t

type_synonym ('w, 'z, 'a) link_prog = "(('w, 'z) link_scheme, 'a) prog"

definition LINK_SETT_KEY :: string where "LINK_SETT_KEY = ''mosh_link_settings''"
definition LINK_SETT_DEFCONT_ENABLED :: string where "LINK_SETT_DEFCONT_ENABLED = ''defcont_enabled''"
definition LINK_SETT_DEFCONT_APN_KEY :: string where "LINK_SETT_DEFCONT_APN_KEY = ''defcont_apn''"
definition LINK_SETT_DEFCONT_IP_FAMILY_KEY :: string where "LINK_SETT_DEFCONT_IP_FAMILY_KEY = ''defcont_ip_family''"
definition LINK_SETT_DEFCONT_DEFAULT_APN :: string where "LINK_SETT_DEFCONT_DEFAULT_APN = ''internet''"
definition LINK_SETT_DEFCONTAUTH_ENABLED :: string where "LINK_SETT_DEFCONTAUTH_ENABLED = ''defcontauth_enabled''"
definition LINK_SETT_DEFCONTAUTH_USERNAME_KEY :: string where "LINK_SETT_DEFCONTAUTH_USERNAME_KEY = ''defcontauth_username''"
definition LINK_SETT_DEFCONTAUTH_PASSWORD_KEY :: string where "LINK_SETT_DEFCONTAUTH_PASSWORD_KEY = ''defcontauth_password''"
definition LINK_SETT_DEFCONTAUTH_PROTOCOL_KEY :: string where "LINK_SETT_DEFCONTAUTH_PROTOCOL_KEY = ''defcontauth_prot''"
definition LINK_SETT_DEFCONTAUTH_DEFAULT_USERNAME :: string where "LINK_SETT_DEFCONTAUTH_DEFAULT_USERNAME = ''username''"
definition LINK_SETT_DEFCONTAUTH_DEFAULT_PASSWORD :: string where "LINK_SETT_DEFCONTAUTH_DEFAULT_PASSWORD = ''password''"
definition LINK_SETT_DNSADDR_ENABLED :: string where "LINK_SETT_DNSADDR_ENABLED = ''dnsaddr_enabled''"
definition LINK_SETT_DNSADDR_IP_KEY :: string where "LINK_SETT_DNSADDR_IP_KEY = ''dnsaddr_ip''"
definition LINK_SETT_SYSMODE_KEY :: string where "LINK_SETT_SYSMODE_KEY = ''sysmode''"
definition LINK_SETT_SYSMODE_LTE_PREFERENCE_KEY :: string where "LINK_SETT_SYSMODE_LTE_PREFERENCE_KEY = ''sysmode_lte_pref''"
definition LINK_SETT_NORMAL_MODE_AT_CMD_1_KEY :: string where "LINK_SETT_NORMAL_MODE_AT_CMD_1_KEY = ''funmmode_normal_at_cmd_1''"
definition LINK_SETT_NORMAL_MODE_AT_CMD_2_KEY :: string where "LINK_SETT_NORMAL_MODE_AT_CMD_2_KEY = ''funmmode_normal_at_cmd_2''"
definition LINK_SETT_NORMAL_MODE_AT_CMD_3_KEY :: string where "LINK_SETT_NORMAL_MODE_AT_CMD_3_KEY = ''funmmode_normal_at_cmd_3''"
definition LINK_SETT_NORMAL_MODE_AUTOCONN_ENABLED :: string where "LINK_SETT_NORMAL_MODE_AUTOCONN_ENABLED = ''normal_mode_autoconn_enabled''"
definition LINK_SETT_NORMAL_MODE_AUTOCONN_REL14_USED :: string where "LINK_SETT_NORMAL_MODE_AUTOCONN_REL14_USED = ''normal_mode_autoconn_rel14_used''"

lemmas link_keys = LINK_SETT_DEFCONT_ENABLED_def LINK_SETT_DEFCONT_APN_KEY_def LINK_SETT_DEFCONT_IP_FAMILY_KEY_def
  LINK_SETT_DEFCONTAUTH_ENABLED_def LINK_SETT_DEFCONTAUTH_USERNAME_KEY_def LINK_SETT_DEFCONTAUTH_PASSWORD_KEY_def
  LINK_SETT_DEFCONTAUTH_PROTOCOL_KEY_def LINK_SETT_DNSADDR_ENABLED_def LINK_SETT_DNSADDR_IP_KEY_def
  LINK_SETT_SYSMODE_KEY_def LINK_SETT_SYSMODE_LTE_PREFERENCE_KEY_def LINK_SETT_NORMAL_MODE_AT_CMD_1_KEY_def
  LINK_SETT_NORMAL_MODE_AT_CMD_2_KEY_def LINK_SETT_NORMAL_MODE_AT_CMD_3_KEY_def
  LINK_SETT_NORMAL_MODE_AUTOCONN_ENABLED_def LINK_SETT_NORMAL_MODE_AUTOCONN_REL14_USED_def

subsection \<open>The handler\<close>

definition sett :: "(link_sett_t \<Rightarrow> link_sett_t) \<Rightarrow> ('w, 'z) link_scheme \<Rightarrow> ('w, 'z) link_scheme" where
  "sett f s = s\<lparr>link_settings := f (link_settings s)\<rparr>"

definition link_sett_handler :: "('w, 'y) settings_api_scheme \<Rightarrow> string \<Rightarrow> 'w read_cb \<Rightarrow> ('w, 'z, int) link_prog" where
  "link_sett_handler S key read_cb =
     (if key = LINK_SETT_DEFCONT_ENABLED then
        read_var S read_cb 1 (\<lambda>b. sett (\<lambda>l. l\<lparr>defcont_enabled := put_bool b (defcont_enabled l)\<rparr>))
          ''Failed to read defcont enabled, error: %d''
      else if key = LINK_SETT_DEFCONT_APN_KEY then
        read_var S read_cb (MOSH_APN_STR_MAX_LEN + 1) (\<lambda>b. sett (\<lambda>l. l\<lparr>defcont_apn_str := put_str b (defcont_apn_str l)\<rparr>))
          ''Failed to read defcont APN, error: %d''
      else if key = LINK_SETT_DEFCONT_IP_FAMILY_KEY then
        read_var S read_cb 1 (\<lambda>b. sett (\<lambda>l. l\<lparr>pdn_family := put_byte b (pdn_family l)\<rparr>))
          ''Failed to read defcont PDN family, error: %d''
      else if key = LINK_SETT_DEFCONTAUTH_ENABLED then
        read_var S read_cb 1 (\<lambda>b. sett (\<lambda>l. l\<lparr>defcontauth_enabled := put_bool b (defcontauth_enabled l)\<rparr>))
          ''Failed to read defcontauth enabled, error: %d''
      else if key = LINK_SETT_DEFCONTAUTH_USERNAME_KEY then
        read_var S read_cb (LINK_SETT_DEFCONTAUTH_MAX_UNAME_STR_LEN + 1) (\<lambda>b. sett (\<lambda>l. l\<lparr>defcontauth_uname_str := put_str b (defcontauth_uname_str l)\<rparr>))
          ''Failed to read defcontauth username, error: %d''
      else if key = LINK_SETT_DEFCONTAUTH_PASSWORD_KEY then
        read_var S read_cb (LINK_SETT_DEFCONTAUTH_MAX_PWORD_STR_LEN + 1) (\<lambda>b. sett (\<lambda>l. l\<lparr>defcontauth_pword_str := put_str b (defcontauth_pword_str l)\<rparr>))
          ''Failed to read defcontauth password, error: %d''
      else if key = LINK_SETT_DEFCONTAUTH_PROTOCOL_KEY then
        read_var S read_cb 1 (\<lambda>b. sett (\<lambda>l. l\<lparr>defcontauth_prot := put_byte b (defcontauth_prot l)\<rparr>))
          ''Failed to read defcontauth password, error: %d''
      else if key = LINK_SETT_DNSADDR_ENABLED then
        read_var S read_cb 1 (\<lambda>b. sett (\<lambda>l. l\<lparr>dnsaddr_enabled := put_bool b (dnsaddr_enabled l)\<rparr>))
          ''Failed to read dnsaddr enabled, error: %d''
      else if key = LINK_SETT_DNSADDR_IP_KEY then
        read_var S read_cb (LINK_SETT_DNSADDR_MAX_IP_LEN + 1) (\<lambda>b. sett (\<lambda>l. l\<lparr>dnsaddr_ip_str := put_str b (dnsaddr_ip_str l)\<rparr>))
          ''Failed to read dnsaddr IP, error: %d''
      else if key = LINK_SETT_SYSMODE_KEY then
        read_var S read_cb 1 (\<lambda>b. sett (\<lambda>l. l\<lparr>sysmode := put_byte b (sysmode l)\<rparr>))
          ''Failed to read sysmode, error: %d''
      else if key = LINK_SETT_SYSMODE_LTE_PREFERENCE_KEY then
        read_var S read_cb 1 (\<lambda>b. sett (\<lambda>l. l\<lparr>sysmode_lte_preference := put_byte b (sysmode_lte_preference l)\<rparr>))
          ''Failed to read LTE preference, error: %d''
      else if key = LINK_SETT_NORMAL_MODE_AT_CMD_1_KEY then
        read_var S read_cb (CONFIG_MOSH_LINK_SETT_NORMAL_MODE_AT_CMD_STR_LEN + 1) (\<lambda>b. sett (\<lambda>l. l\<lparr>normal_mode_at_cmd_str_1 := put_str b (normal_mode_at_cmd_str_1 l)\<rparr>))
          ''Failed to read normal mode at cmd 1, error: %d''
      else if key = LINK_SETT_NORMAL_MODE_AT_CMD_2_KEY then
        read_var S read_cb (CONFIG_MOSH_LINK_SETT_NORMAL_MODE_AT_CMD_STR_LEN + 1) (\<lambda>b. sett (\<lambda>l. l\<lparr>normal_mode_at_cmd_str_2 := put_str b (normal_mode_at_cmd_str_2 l)\<rparr>))
          ''Failed to read normal mode at cmd 2, error: %d''
      else if key = LINK_SETT_NORMAL_MODE_AT_CMD_3_KEY then
        read_var S read_cb (CONFIG_MOSH_LINK_SETT_NORMAL_MODE_AT_CMD_STR_LEN + 1) (\<lambda>b. sett (\<lambda>l. l\<lparr>normal_mode_at_cmd_str_3 := put_str b (normal_mode_at_cmd_str_3 l)\<rparr>))
          ''Failed to read normal mode at cmd 3, error: %d''
      else if key = LINK_SETT_NORMAL_MODE_AUTOCONN_ENABLED then
        read_var S read_cb 1 (\<lambda>b. sett (\<lambda>l. l\<lparr>normal_mode_autoconn_enabled := put_bool b (normal_mode_autoconn_enabled l)\<rparr>))
          ''Failed to read normal mode autoconnect, error: %d''
      else if key = LINK_SETT_NORMAL_MODE_AUTOCONN_REL14_USED then
        read_var S read_cb 1 (\<lambda>b. sett (\<lambda>l. l\<lparr>normal_mode_autoconn_rel14_used := put_bool b (normal_mode_autoconn_rel14_used l)\<rparr>))
          ''Failed to read normal mode autoconnect rel14, error: %d''
      else return 0)"

subsection \<open>Default PDN context\<close>

text \<open>The text in double quotes.\<close>

definition quoted :: "string \<Rightarrow> string" where
  "quoted t = [CHR 0x22] @ t @ [CHR 0x22]"

definition on_off :: "bool \<Rightarrow> string" where
  "on_off b = (if b then ''enabled'' else ''disabled'')"

definition true_false :: "bool \<Rightarrow> string" where
  "true_false b = (if b then ''true'' else ''false'')"

definition link_sett_save_defcont_enabled :: "('w, 'y) settings_api_scheme \<Rightarrow> bool \<Rightarrow> ('w, 'z, int) link_prog" where
  "link_sett_save_defcont_enabled S enabled = do {
     let key = LINK_SETT_KEY @ ''/'' @ LINK_SETT_DEFCONT_ENABLED;
     modify (sett (\<lambda>l. l\<lparr>defcont_enabled := enabled\<rparr>));
     mosh_print S ''link defcont %s'' [PStr (on_off enabled)];
     err \<leftarrow> save_one S key (bool_bytes enabled);
     if err \<noteq> 0 then do {
       mosh_error S ''%s: err %d from settings_save_one()'' [PStr ''link_sett_save_defcont_enabled'', PInt err];
       return err
     } else return 0
   }"

definition link_sett_is_defcont_enabled :: "('w, 'z, bool) link_prog" where
  "link_sett_is_defcont_enabled = gets (\<lambda>s. defcont_enabled (link_settings s))"

definition link_sett_defcont_pdn_family_get :: "('w, 'z, 8 word) link_prog" where
  "link_sett_defcont_pdn_family_get = gets (\<lambda>s. pdn_family (link_settings s))"

definition link_sett_save_defcont_pdn_family :: "('w, 'y) link_api_scheme \<Rightarrow> 8 word \<Rightarrow> ('w, 'z, int) link_prog" where
  "link_sett_save_defcont_pdn_family T family = do {
     let key = LINK_SETT_KEY @ ''/'' @ LINK_SETT_DEFCONT_IP_FAMILY_KEY;
     err \<leftarrow> save_one T key [family];
     if err \<noteq> 0 then do {
       mosh_error T ''Saving of family failed with err %d'' [PInt err];
       return err
     } else do {
       modify (sett (\<lambda>l. l\<lparr>pdn_family := family\<rparr>));
       tmp_str \<leftarrow> link_pdn_lib_family_to_string T (uint family);
       mosh_print T (''Key '' @ quoted ''%s'' @ '' with value '' @ quoted ''%d'' @ '' / '' @ quoted ''%s'' @ '' saved'')
         [PStr key, PInt (uint family), PStr tmp_str];
       return 0
     }
   }"

definition link_sett_defcont_apn_get :: "('w, 'z, string) link_prog" where
  "link_sett_defcont_apn_get = gets (\<lambda>s. cstr (defcont_apn_str (link_settings s)))"

definition link_sett_save_defcont_apn :: "('w, 'y) settings_api_scheme \<Rightarrow> string \<Rightarrow> ('w, 'z, int) link_prog" where
  "link_sett_save_defcont_apn S defcont_apn = do {
     let key = LINK_SETT_KEY @ ''/'' @ LINK_SETT_DEFCONT_APN_KEY;
     if length defcont_apn > MOSH_APN_STR_MAX_LEN then abort 0
     else do {
       err \<leftarrow> save_one S key (cstr_bytes defcont_apn);
       if err \<noteq> 0 then do {
         mosh_error S ''%s: err %d from settings_save_one()'' [PStr ''link_sett_save_defcont_apn'', PInt err];
         return err
       } else do {
         mosh_print S ''%s: key %s with value %s saved''
           [PStr ''link_sett_save_defcont_apn'', PStr key, PStr defcont_apn];
         modify (sett (\<lambda>l. l\<lparr>defcont_apn_str := strcpy (defcont_apn_str l) defcont_apn\<rparr>));
         return 0
       }
     }
   }"

definition link_sett_defcont_conf_shell_print :: "('w, 'y) link_api_scheme \<Rightarrow> ('w, 'z, unit) link_prog" where
  "link_sett_defcont_conf_shell_print T = do {
     l \<leftarrow> gets link_settings;
     mosh_print T ''link defcont config:'' [];
     mosh_print T ''  Enabled: %s'' [PStr (true_false (defcont_enabled l))];
     mosh_print T ''  APN: %s'' [PStr (cstr (defcont_apn_str l))];
     tmp_str \<leftarrow> link_pdn_lib_family_to_string T (uint (pdn_family l));
     mosh_print T (''  PDN family: %d ('' @ quoted ''%s'' @ '')'') [PInt (uint (pdn_family l)), PStr tmp_str]
   }"

subsection \<open>Authentication of the default PDN context\<close>

definition link_sett_save_defcontauth_enabled :: "('w, 'y) settings_api_scheme \<Rightarrow> bool \<Rightarrow> ('w, 'z, int) link_prog" where
  "link_sett_save_defcontauth_enabled S enabled = do {
     let key = LINK_SETT_KEY @ ''/'' @ LINK_SETT_DEFCONTAUTH_ENABLED;
     modify (sett (\<lambda>l. l\<lparr>defcontauth_enabled := enabled\<rparr>));
     mosh_print S ''link defcontauth  %s'' [PStr (on_off enabled)];
     err \<leftarrow> save_one S key (bool_bytes enabled);
     if err \<noteq> 0 then do {
       mosh_error S ''%s: erro %d from settings_save_one()'' [PStr ''link_sett_save_defcontauth_enabled'', PInt err];
       return err
     } else return 0
   }"

definition link_sett_is_defcontauth_enabled :: "('w, 'z, bool) link_prog" where
  "link_sett_is_defcontauth_enabled = gets (\<lambda>s. defcontauth_enabled (link_settings s))"

definition link_sett_save_defcontauth_username :: "('w, 'y) settings_api_scheme \<Rightarrow> string \<Rightarrow> ('w, 'z, int) link_prog" where
  "link_sett_save_defcontauth_username S username_str = do {
     let key = LINK_SETT_KEY @ ''/'' @ LINK_SETT_DEFCONTAUTH_USERNAME_KEY;
     if length username_str > LINK_SETT_DEFCONTAUTH_MAX_UNAME_STR_LEN then do {
       mosh_error S ''%s: username length over the limit %d''
         [PStr ''link_sett_save_defcontauth_username'', PInt (int LINK_SETT_DEFCONTAUTH_MAX_UNAME_STR_LEN)];
       return (- EINVAL)
     } else do {
       err \<leftarrow> save_one S key (cstr_bytes username_str);
       if err \<noteq> 0 then do {
         mosh_error S ''Saving of authentication username failed with err %d'' [PInt err];
         return err
       } else do {
         mosh_print S (''Key '' @ quoted ''%s'' @ '' with value '' @ quoted ''%s'' @ '' saved'') [PStr key, PStr username_str];
         modify (sett (\<lambda>l. l\<lparr>defcontauth_uname_str := strcpy (defcontauth_uname_str l) username_str\<rparr>));
         return 0
       }
     }
   }"

definition link_sett_save_defcontauth_password :: "('w, 'y) settings_api_scheme \<Rightarrow> string \<Rightarrow> ('w, 'z, int) link_prog" where
  "link_sett_save_defcontauth_password S password_str = do {
     let key = LINK_SETT_KEY @ ''/'' @ LINK_SETT_DEFCONTAUTH_PASSWORD_KEY;
     if length password_str > LINK_SETT_DEFCONTAUTH_MAX_PWORD_STR_LEN then do {
       mosh_error S ''%s: username length over the limit %d''
         [PStr ''link_sett_save_defcontauth_password'', PInt (int LINK_SETT_DEFCONTAUTH_MAX_PWORD_STR_LEN)];
       return (- EINVAL)
     } else do {
       err \<leftarrow> save_one S key (cstr_bytes password_str);
       if err \<noteq> 0 then do {
         mosh_error S ''Saving of authentication password failed with err %d'' [PInt err];
         return err
       } else do {
         mosh_print S (''Key '' @ quoted ''%s'' @ '' with value '' @ quoted ''%s'' @ '' saved'') [PStr key, PStr password_str];
         modify (sett (\<lambda>l. l\<lparr>defcontauth_pword_str := strcpy (defcontauth_pword_str l) password_str\<rparr>));
         return 0
       }
     }
   }"

text \<open>The record gets the first byte of the number given, the variable the method it maps to.\<close>

definition link_sett_save_defcontauth_prot :: "('w, 'y) link_api_scheme \<Rightarrow> int \<Rightarrow> ('w, 'z, int) link_prog" where
  "link_sett_save_defcontauth_prot T auth_prot = do {
     let key = LINK_SETT_KEY @ ''/'' @ LINK_SETT_DEFCONTAUTH_PROTOCOL_KEY;
     case link_shell_pdn_auth_prot_to_pdn_lib_method_map T auth_prot of
       Inl _ \<Rightarrow> do {
         mosh_error T ''Unknown auth protocol %d'' [PInt auth_prot];
         return (- EINVAL)
       }
     | Inr method \<Rightarrow> do {
         err \<leftarrow> save_one T key [word_of_int auth_prot];
         if err \<noteq> 0 then do {
           mosh_error T ''Saving of authentication protocol failed with err %d'' [PInt err];
           return err
         } else do {
           modify (sett (\<lambda>l. l\<lparr>defcontauth_prot := word_of_int method\<rparr>));
           mosh_print T (''Key '' @ quoted ''%s'' @ '' with value '' @ quoted ''%d'' @ '' saved'') [PStr key, PInt method];
           return 0
         }
       }
   }"

definition link_sett_defcontauth_prot_get :: "('w, 'z, 8 word) link_prog" where
  "link_sett_defcontauth_prot_get = gets (\<lambda>s. defcontauth_prot (link_settings s))"

definition link_sett_defcontauth_username_get :: "('w, 'z, string) link_prog" where
  "link_sett_defcontauth_username_get = gets (\<lambda>s. cstr (defcontauth_uname_str (link_settings s)))"

definition link_sett_defcontauth_password_get :: "('w, 'z, string) link_prog" where
  "link_sett_defcontauth_password_get = gets (\<lambda>s. cstr (defcontauth_pword_str (link_settings s)))"

definition prot_type_str :: "string list" where
  "prot_type_str = [''None'', ''PAP'', ''CHAP'']"

text \<open>A table read past its end has no text.\<close>

definition link_sett_defcontauth_conf_shell_print :: "('w, 'y) print_api_scheme \<Rightarrow> ('w, 'z, unit) link_prog" where
  "link_sett_defcontauth_conf_shell_print P = do {
     l \<leftarrow> gets link_settings;
     mosh_print P ''link defcontauth config:'' [];
     mosh_print P ''  Enabled: %s'' [PStr (true_false (defcontauth_enabled l))];
     mosh_print P ''  Username: %s'' [PStr (cstr (defcontauth_uname_str l))];
     mosh_print P ''  Password: %s'' [PStr (cstr (defcontauth_pword_str l))];
     mosh_print P ''  Authentication protocol: %s''
       [table_arg prot_type_str (unat (defcontauth_prot l))]
   }"

subsection \<open>DNS server\<close>

definition link_sett_save_dnsaddr_enabled :: "('w, 'y) settings_api_scheme \<Rightarrow> bool \<Rightarrow> ('w, 'z, int) link_prog" where
  "link_sett_save_dnsaddr_enabled S enabled = do {
     let key = LINK_SETT_KEY @ ''/'' @ LINK_SETT_DNSADDR_ENABLED;
     modify (sett (\<lambda>l. l\<lparr>dnsaddr_enabled := enabled\<rparr>));
     mosh_print S ''link dnsaddr %s'' [PStr (on_off enabled)];
     err \<leftarrow> save_one S key (bool_bytes enabled);
     if err \<noteq> 0 then do {
       mosh_error S ''%s: err %d from settings_save_one()'' [PStr ''link_sett_save_dnsaddr_enabled'', PInt err];
       return err
     } else return 0
   }"

definition link_sett_is_dnsaddr_enabled :: "('w, 'z, bool) link_prog" where
  "link_sett_is_dnsaddr_enabled = gets (\<lambda>s. dnsaddr_enabled (link_settings s))"

definition link_sett_save_dnsaddr_ip :: "('w, 'y) settings_api_scheme \<Rightarrow> string \<Rightarrow> ('w, 'z, int) link_prog" where
  "link_sett_save_dnsaddr_ip S dnsaddr_ip = do {
     let key = LINK_SETT_KEY @ ''/'' @ LINK_SETT_DNSADDR_IP_KEY;
     if length dnsaddr_ip > LINK_SETT_DNSADDR_MAX_IP_LEN then abort 0
     else do {
       err \<leftarrow> save_one S key (cstr_bytes dnsaddr_ip);
       if err \<noteq> 0 then do {
         mosh_error S ''%s: err %d from settings_save_one()'' [PStr ''link_sett_save_dnsaddr_ip'', PInt err];
         return err
       } else do {
         mosh_print S ''%s: key %s with value %s saved''
           [PStr ''link_sett_save_dnsaddr_ip'', PStr key, PStr dnsaddr_ip];
         modify (sett (\<lambda>l. l\<lparr>dnsaddr_ip_str := strcpy (dnsaddr_ip_str l) dnsaddr_ip\<rparr>));
         return 0
       }
     }
   }"

definition link_sett_dnsaddr_ip_get :: "('w, 'z, string) link_prog" where
  "link_sett_dnsaddr_ip_get = gets (\<lambda>s. cstr (dnsaddr_ip_str (link_settings s)))"

definition link_sett_dnsaddr_conf_shell_print :: "('w, 'y) print_api_scheme \<Rightarrow> ('w, 'z, unit) link_prog" where
  "link_sett_dnsaddr_conf_shell_print P = do {
     l \<leftarrow> gets link_settings;
     mosh_print P ''link dnsaddr config:'' [];
     mosh_print P ''  Enabled: %s'' [PStr (true_false (dnsaddr_enabled l))];
     mosh_print P ''  IP address: %s'' [PStr (cstr (dnsaddr_ip_str l))]
   }"

subsection \<open>System mode\<close>

definition link_sett_sysmode_save :: "('w, 'y) settings_api_scheme \<Rightarrow> 8 word \<Rightarrow> 8 word \<Rightarrow> ('w, 'z, int) link_prog" where
  "link_sett_sysmode_save S mode lte_pref = do {
     let key = LINK_SETT_KEY @ ''/'' @ LINK_SETT_SYSMODE_KEY;
     let lte_pref_key = LINK_SETT_KEY @ ''/'' @ LINK_SETT_SYSMODE_LTE_PREFERENCE_KEY;
     err \<leftarrow> save_one S key [mode];
     if err \<noteq> 0 then do {
       mosh_error S ''link_sett_save_sysmode: erro %d from settings_save_one()'' [PInt err];
       return err
     } else do {
       modify (sett (\<lambda>l. l\<lparr>sysmode := mode\<rparr>));
       mosh_print S ''sysmode %d saved successfully to settings'' [PInt (uint mode)];
       err \<leftarrow> save_one S lte_pref_key [lte_pref];
       if err \<noteq> 0 then do {
         mosh_error S ''link_sett_save_sysmode for lte pref: erro %d from settings_save_one()'' [PInt err];
         return err
       } else do {
         modify (sett (\<lambda>l. l\<lparr>sysmode_lte_preference := lte_pref\<rparr>));
         mosh_print S ''LTE preference %d saved successfully to settings'' [PInt (uint lte_pref)];
         return 0
       }
     }
   }"

definition link_sett_sysmode_get :: "('w, 'z, int) link_prog" where
  "link_sett_sysmode_get = gets (\<lambda>s. uint (sysmode (link_settings s)))"

definition link_sett_sysmode_lte_preference_get :: "('w, 'z, int) link_prog" where
  "link_sett_sysmode_lte_preference_get = gets (\<lambda>s. uint (sysmode_lte_preference (link_settings s)))"

definition link_sett_sysmode_print :: "('w, 'y) link_api_scheme \<Rightarrow> ('w, 'z, unit) link_prog" where
  "link_sett_sysmode_print T = do {
     mosh_print T ''link sysmode config:'' [];
     m \<leftarrow> link_sett_sysmode_get;
     snum \<leftarrow> link_shell_sysmode_to_string T m;
     mosh_print T ''  mode: %s'' [PStr snum];
     p \<leftarrow> link_sett_sysmode_lte_preference_get;
     snum \<leftarrow> link_shell_sysmode_preferred_to_string T p;
     mosh_print T ''  LTE preference: %s'' [PStr snum]
   }"

text \<open>\<open>CONFIG_LTE_MODE_PREFERENCE_VALUE\<close> is the build's configuration of the modem library.\<close>

definition link_sett_sysmode_default_set :: "('w, 'y) link_api_scheme \<Rightarrow> ('w, 'z, int) link_prog" where
  "link_sett_sysmode_default_set T =
     link_sett_sysmode_save T (word_of_int LINK_SYSMODE_NONE) (word_of_int (lc T ''CONFIG_LTE_MODE_PREFERENCE_VALUE''))"

subsection \<open>AT commands for the normal mode\<close>

definition link_sett_normal_mode_at_cmd_str_get :: "('w, 'y) print_api_scheme \<Rightarrow> 8 word \<Rightarrow>
    ('w, 'z, string option) link_prog" where
  "link_sett_normal_mode_at_cmd_str_get P mem_slot = do {
     l \<leftarrow> gets link_settings;
     if mem_slot = 1 then return (Some (cstr (normal_mode_at_cmd_str_1 l)))
     else if mem_slot = 2 then return (Some (cstr (normal_mode_at_cmd_str_2 l)))
     else if mem_slot = 3 then return (Some (cstr (normal_mode_at_cmd_str_3 l)))
     else do {
       mosh_error P ''%s:unsupported memory slot %d'' [PStr ''link_sett_normal_mode_at_cmd_str_get'', PInt (uint mem_slot)];
       return None
     }
   }"

text \<open>The key of a slot, and writing its variable: the pointers the code picks by the slot.\<close>

definition at_cmd_key :: "8 word \<Rightarrow> string" where
  "at_cmd_key mem_slot = (if mem_slot = 1 then LINK_SETT_NORMAL_MODE_AT_CMD_1_KEY
     else if mem_slot = 2 then LINK_SETT_NORMAL_MODE_AT_CMD_2_KEY else LINK_SETT_NORMAL_MODE_AT_CMD_3_KEY)"

definition at_cmd_ram :: "8 word \<Rightarrow> (string \<Rightarrow> string) \<Rightarrow> link_sett_t \<Rightarrow> link_sett_t" where
  "at_cmd_ram mem_slot f l =
     (if mem_slot = 1 then l\<lparr>normal_mode_at_cmd_str_1 := f (normal_mode_at_cmd_str_1 l)\<rparr>
      else if mem_slot = 2 then l\<lparr>normal_mode_at_cmd_str_2 := f (normal_mode_at_cmd_str_2 l)\<rparr>
      else l\<lparr>normal_mode_at_cmd_str_3 := f (normal_mode_at_cmd_str_3 l)\<rparr>)"

definition link_sett_save_normal_mode_at_cmd_str :: "('w, 'y) settings_api_scheme \<Rightarrow> string \<Rightarrow> 8 word \<Rightarrow>
    ('w, 'z, int) link_prog" where
  "link_sett_save_normal_mode_at_cmd_str S at_str mem_slot =
     (if length at_str > CONFIG_MOSH_LINK_SETT_NORMAL_MODE_AT_CMD_STR_LEN then do {
        mosh_error S ''%s: at command string length (%d) over the limit %d''
          [PStr ''link_sett_save_normal_mode_at_cmd_str'', PInt (int (length at_str)),
           PInt (int CONFIG_MOSH_LINK_SETT_NORMAL_MODE_AT_CMD_STR_LEN)];
        return (- EINVAL)
      }
      else if mem_slot \<noteq> 1 \<and> mem_slot \<noteq> 2 \<and> mem_slot \<noteq> 3 then do {
        mosh_error S ''%s: unsupported memory slot %d''
          [PStr ''link_sett_save_normal_mode_at_cmd_str'', PInt (uint mem_slot)];
        return (- EINVAL)
      }
      else do {
        let key = LINK_SETT_KEY @ ''/'' @ at_cmd_key mem_slot;
        err \<leftarrow> save_one S key (cstr_bytes at_str);
        if err \<noteq> 0 then do {
          mosh_error S ''Saving of normal mode at cmd %d to settings failed with err %d'' [PInt (uint mem_slot), PInt err];
          return err
        } else do {
          mosh_print S (''Key '' @ quoted ''%s'' @ '' with value '' @ quoted ''%s'' @ '' saved'') [PStr key, PStr at_str];
          modify (sett (at_cmd_ram mem_slot (\<lambda>buf. strcpy buf at_str)));
          return 0
        }
      })"

text \<open>The value saved is the literal \<open>'\0'\<close>, which as a pointer is null: the record is deleted.\<close>

definition link_sett_clear_normal_mode_at_cmd_str :: "('w, 'y) settings_api_scheme \<Rightarrow> 8 word \<Rightarrow>
    ('w, 'z, int) link_prog" where
  "link_sett_clear_normal_mode_at_cmd_str S mem_slot =
     (if mem_slot \<noteq> 1 \<and> mem_slot \<noteq> 2 \<and> mem_slot \<noteq> 3 then do {
        mosh_error S ''link_sett_delete_normal_mode_at_cmd_str: unsupported memory slot %d'' [PInt (uint mem_slot)];
        return (- EINVAL)
      }
      else do {
        let key = LINK_SETT_KEY @ ''/'' @ at_cmd_key mem_slot;
        err \<leftarrow> call (settings_save_one S key None);
        if err \<noteq> 0 then do {
          mosh_error S ''Clearing of normal mode at cmd %d to settings failed with err %d'' [PInt (uint mem_slot), PInt err];
          return err
        } else do {
          mosh_print S (''Key '' @ quoted ''%s'' @ '' cleared'') [PStr key];
          modify (sett (at_cmd_ram mem_slot (\<lambda>buf. buf[0 := NUL])));
          return 0
        }
      })"

definition link_sett_normal_mode_at_cmds_shell_print :: "('w, 'y) print_api_scheme \<Rightarrow> ('w, 'z, unit) link_prog" where
  "link_sett_normal_mode_at_cmds_shell_print P = do {
     l \<leftarrow> gets link_settings;
     mosh_print P ''link normal mode at commands:'' [];
     mosh_print P (''  Memory slot 1: '' @ quoted ''%s'') [PStr (cstr (normal_mode_at_cmd_str_1 l))];
     mosh_print P (''  Memory slot 2: '' @ quoted ''%s'') [PStr (cstr (normal_mode_at_cmd_str_2 l))];
     mosh_print P (''  Memory slot 3: '' @ quoted ''%s'') [PStr (cstr (normal_mode_at_cmd_str_3 l))]
   }"

subsection \<open>Automatic connection\<close>

definition link_sett_save_normal_mode_autoconn_enabled :: "('w, 'y) settings_api_scheme \<Rightarrow> bool \<Rightarrow> bool \<Rightarrow>
    ('w, 'z, int) link_prog" where
  "link_sett_save_normal_mode_autoconn_enabled S enabled use_rel14 = do {
     let key_enabled = LINK_SETT_KEY @ ''/'' @ LINK_SETT_NORMAL_MODE_AUTOCONN_ENABLED;
     let key_rel14 = LINK_SETT_KEY @ ''/'' @ LINK_SETT_NORMAL_MODE_AUTOCONN_REL14_USED;
     modify (sett (\<lambda>l. l\<lparr>normal_mode_autoconn_enabled := enabled, normal_mode_autoconn_rel14_used := use_rel14\<rparr>));
     mosh_print S ''link nmodeauto %s %s''
       [PStr (on_off enabled), PStr (if use_rel14 then ''with REL14'' else ''without REL14'')];
     err \<leftarrow> save_one S key_enabled (bool_bytes enabled);
     if err \<noteq> 0 then do {
       mosh_error S ''normal_mode_autoconn_enabled: err %d from settings_save_one()'' [PInt err];
       return err
     } else do {
       err \<leftarrow> save_one S key_rel14 (bool_bytes use_rel14);
       if err \<noteq> 0 then do {
         mosh_error S ''normal_mode_autoconn_rel14_used: err %d from settings_save_one()'' [PInt err];
         return err
       } else return 0
     }
   }"

definition link_sett_is_normal_mode_autoconn_enabled :: "('w, 'z, bool) link_prog" where
  "link_sett_is_normal_mode_autoconn_enabled = gets (\<lambda>s. normal_mode_autoconn_enabled (link_settings s))"

definition link_sett_is_normal_mode_autoconn_rel14_used :: "('w, 'z, bool) link_prog" where
  "link_sett_is_normal_mode_autoconn_rel14_used = gets (\<lambda>s. normal_mode_autoconn_rel14_used (link_settings s))"

definition link_sett_normal_mode_autoconn_shell_print :: "('w, 'y) print_api_scheme \<Rightarrow> ('w, 'z, unit) link_prog" where
  "link_sett_normal_mode_autoconn_shell_print P = do {
     l \<leftarrow> gets link_settings;
     mosh_print P ''link nmodeauto settings:'' [];
     mosh_print P ''  Autoconnect enabled: %s'' [PStr (true_false (normal_mode_autoconn_enabled l))];
     mosh_print P ''  Release 14 features enabled: %s'' [PStr (true_false (normal_mode_autoconn_rel14_used l))]
   }"

subsection \<open>All settings\<close>

definition link_sett_ram_data_init :: "('w, 'y) link_api_scheme \<Rightarrow> link_sett_t" where
  "link_sett_ram_data_init T =
     (let zero = \<lparr>defcont_apn_str = replicate (MOSH_APN_STR_MAX_LEN + 1) NUL, defcont_enabled = False,
        defcontauth_uname_str = replicate (LINK_SETT_DEFCONTAUTH_MAX_UNAME_STR_LEN + 1) NUL,
        defcontauth_pword_str = replicate (LINK_SETT_DEFCONTAUTH_MAX_PWORD_STR_LEN + 1) NUL,
        defcontauth_enabled = False, dnsaddr_ip_str = replicate (LINK_SETT_DNSADDR_MAX_IP_LEN + 1) NUL,
        dnsaddr_enabled = False, sysmode = 0, sysmode_lte_preference = 0, pdn_family = 0, defcontauth_prot = 0,
        normal_mode_at_cmd_str_1 = replicate (CONFIG_MOSH_LINK_SETT_NORMAL_MODE_AT_CMD_STR_LEN + 1) NUL,
        normal_mode_at_cmd_str_2 = replicate (CONFIG_MOSH_LINK_SETT_NORMAL_MODE_AT_CMD_STR_LEN + 1) NUL,
        normal_mode_at_cmd_str_3 = replicate (CONFIG_MOSH_LINK_SETT_NORMAL_MODE_AT_CMD_STR_LEN + 1) NUL,
        normal_mode_autoconn_enabled = False, normal_mode_autoconn_rel14_used = False\<rparr>
      in zero\<lparr>normal_mode_autoconn_enabled := True, sysmode := word_of_int LINK_SYSMODE_NONE,
        pdn_family := word_of_int (lc T ''LTE_LC_PDN_FAM_IPV4V6''),
        defcont_apn_str := strcpy (defcont_apn_str zero) LINK_SETT_DEFCONT_DEFAULT_APN,
        defcontauth_uname_str := strcpy (defcontauth_uname_str zero) LINK_SETT_DEFCONTAUTH_DEFAULT_USERNAME,
        defcontauth_pword_str := strcpy (defcontauth_pword_str zero) LINK_SETT_DEFCONTAUTH_DEFAULT_PASSWORD\<rparr>)"

definition link_sett_all_print :: "('w, 'y) link_api_scheme \<Rightarrow> ('w, 'z, unit) link_prog" where
  "link_sett_all_print T = do {
     link_sett_sysmode_print T;
     link_sett_defcont_conf_shell_print T;
     link_sett_defcontauth_conf_shell_print T;
     link_sett_dnsaddr_conf_shell_print T;
     link_sett_normal_mode_at_cmds_shell_print T;
     link_sett_normal_mode_autoconn_shell_print T
   }"

definition link_sett_defaults_set :: "('w, 'y) link_api_scheme \<Rightarrow> ('w, 'z, unit) link_prog" where
  "link_sett_defaults_set T = do {
     modify (sett (\<lambda>_. link_sett_ram_data_init T));
     _ \<leftarrow> link_sett_save_defcont_enabled T False;
     _ \<leftarrow> link_sett_save_defcont_pdn_family T (word_of_int (lc T ''LTE_LC_PDN_FAM_IPV4V6''));
     _ \<leftarrow> link_sett_save_defcont_apn T LINK_SETT_DEFCONT_DEFAULT_APN;
     _ \<leftarrow> link_sett_save_defcontauth_enabled T False;
     _ \<leftarrow> link_sett_save_defcontauth_username T LINK_SETT_DEFCONTAUTH_DEFAULT_USERNAME;
     _ \<leftarrow> link_sett_save_defcontauth_password T LINK_SETT_DEFCONTAUTH_DEFAULT_PASSWORD;
     _ \<leftarrow> link_sett_save_defcontauth_prot T (lc T ''LTE_LC_PDN_AUTH_NONE'');
     _ \<leftarrow> link_sett_save_dnsaddr_enabled T False;
     _ \<leftarrow> link_sett_save_dnsaddr_ip T '''';
     _ \<leftarrow> link_sett_sysmode_default_set T;
     _ \<leftarrow> link_sett_clear_normal_mode_at_cmd_str T 1;
     _ \<leftarrow> link_sett_clear_normal_mode_at_cmd_str T 2;
     _ \<leftarrow> link_sett_clear_normal_mode_at_cmd_str T 3;
     _ \<leftarrow> link_sett_save_normal_mode_autoconn_enabled T True True;
     mosh_print T ''link settings reseted'' []
   }"

definition link_sett_modem_factory_reset :: "('w, 'y) link_api_scheme \<Rightarrow> int \<Rightarrow> ('w, 'z, unit) link_prog" where
  "link_sett_modem_factory_reset T type = do {
     err \<leftarrow> call (nrf_modem_at_printf T ''AT%%XFACTORYRESET=%d'' [PInt type]);
     if err \<noteq> 0 then mosh_error T ''Resetting modem factory settings failed, err %d'' [PInt err]
     else mosh_print T ''link settings: modem factory reset done'' []
   }"

text \<open>\<open>settings_load\<close>, which runs the handler on the stored records, is a parameter.\<close>

definition link_sett_init :: "('w, 'y) link_api_scheme \<Rightarrow>
    ((string \<Rightarrow> 'w read_cb \<Rightarrow> ('w, 'z, int) link_prog) \<Rightarrow> ('w, 'z, int) link_prog) \<Rightarrow> ('w, 'z, int) link_prog" where
  "link_sett_init T settings_load = do {
     modify (sett (\<lambda>_. link_sett_ram_data_init T));
     err \<leftarrow> call (settings_subsys_init T);
     if err \<noteq> 0 then do {
       mosh_error T ''Failed to initialize settings subsystem, error: %d'' [PInt err];
       return err
     } else do {
       err \<leftarrow> call (settings_register T LINK_SETT_KEY);
       if err \<noteq> 0 then do {
         mosh_error T ''Cannot register settings handler %d'' [PInt err];
         return err
       } else do {
         err \<leftarrow> settings_load (link_sett_handler T);
         if err \<noteq> 0 then do {
           mosh_error T ''Cannot load settings %d'' [PInt err];
           return err
         } else return 0
       }
     }
   }"

subsection \<open>The variables and what is stored of them\<close>

definition link_sizes :: "link_sett_t \<Rightarrow> bool" where
  "link_sizes l \<longleftrightarrow> length (defcont_apn_str l) = MOSH_APN_STR_MAX_LEN + 1 \<and>
     length (defcontauth_uname_str l) = LINK_SETT_DEFCONTAUTH_MAX_UNAME_STR_LEN + 1 \<and>
     length (defcontauth_pword_str l) = LINK_SETT_DEFCONTAUTH_MAX_PWORD_STR_LEN + 1 \<and>
     length (dnsaddr_ip_str l) = LINK_SETT_DNSADDR_MAX_IP_LEN + 1 \<and>
     length (normal_mode_at_cmd_str_1 l) = CONFIG_MOSH_LINK_SETT_NORMAL_MODE_AT_CMD_STR_LEN + 1 \<and>
     length (normal_mode_at_cmd_str_2 l) = CONFIG_MOSH_LINK_SETT_NORMAL_MODE_AT_CMD_STR_LEN + 1 \<and>
     length (normal_mode_at_cmd_str_3 l) = CONFIG_MOSH_LINK_SETT_NORMAL_MODE_AT_CMD_STR_LEN + 1"

definition link_ok :: "link_sett_t \<Rightarrow> bool" where
  "link_ok l \<longleftrightarrow> link_sizes l \<and> terminated (defcont_apn_str l) \<and> terminated (defcontauth_uname_str l) \<and>
     terminated (defcontauth_pword_str l) \<and> terminated (dnsaddr_ip_str l) \<and> terminated (normal_mode_at_cmd_str_1 l) \<and>
     terminated (normal_mode_at_cmd_str_2 l) \<and> terminated (normal_mode_at_cmd_str_3 l)"

definition link_key_list :: "string list" where
  "link_key_list = [LINK_SETT_DEFCONT_ENABLED, LINK_SETT_DEFCONT_APN_KEY, LINK_SETT_DEFCONT_IP_FAMILY_KEY,
     LINK_SETT_DEFCONTAUTH_ENABLED, LINK_SETT_DEFCONTAUTH_USERNAME_KEY, LINK_SETT_DEFCONTAUTH_PASSWORD_KEY,
     LINK_SETT_DEFCONTAUTH_PROTOCOL_KEY, LINK_SETT_DNSADDR_ENABLED, LINK_SETT_DNSADDR_IP_KEY,
     LINK_SETT_SYSMODE_KEY, LINK_SETT_SYSMODE_LTE_PREFERENCE_KEY, LINK_SETT_NORMAL_MODE_AT_CMD_1_KEY,
     LINK_SETT_NORMAL_MODE_AT_CMD_2_KEY, LINK_SETT_NORMAL_MODE_AT_CMD_3_KEY, LINK_SETT_NORMAL_MODE_AUTOCONN_ENABLED,
     LINK_SETT_NORMAL_MODE_AUTOCONN_REL14_USED]"

definition link_vals :: "link_sett_t \<Rightarrow> 8 word list list" where
  "link_vals l = [bool_bytes (defcont_enabled l),
     cstr_bytes (cstr (defcont_apn_str l)),
     [pdn_family l],
     bool_bytes (defcontauth_enabled l),
     cstr_bytes (cstr (defcontauth_uname_str l)),
     cstr_bytes (cstr (defcontauth_pword_str l)),
     [defcontauth_prot l],
     bool_bytes (dnsaddr_enabled l),
     cstr_bytes (cstr (dnsaddr_ip_str l)),
     [sysmode l],
     [sysmode_lte_preference l],
     cstr_bytes (cstr (normal_mode_at_cmd_str_1 l)),
     cstr_bytes (cstr (normal_mode_at_cmd_str_2 l)),
     cstr_bytes (cstr (normal_mode_at_cmd_str_3 l)),
     bool_bytes (normal_mode_autoconn_enabled l),
     bool_bytes (normal_mode_autoconn_rel14_used l)]"

definition link_view :: "link_sett_t \<Rightarrow> storage" where
  "link_view l = map_of (zip link_key_list (link_vals l))"

lemma link_keys_distinct: "distinct link_key_list"
  by (simp add: link_key_list_def link_keys)

lemma length_link_vals: "length (link_vals l) = 16" "length link_key_list = 16"
  by (simp_all add: link_vals_def link_key_list_def)

lemma dom_link_view: "dom (link_view l) = set link_key_list"
  by (simp add: link_view_def length_link_vals)

lemma map_of_zip_update:
  assumes "distinct ks" "length vs = length ks" "i < length ks"
  shows "map_of (zip ks (vs[i := v])) = (map_of (zip ks vs))(ks ! i \<mapsto> v)"
  using assms
proof (induction ks arbitrary: vs i)
  case (Cons k ks)
  then obtain u us where "vs = u # us" by (cases vs) auto
  then show ?case
    using Cons by (cases i) (auto simp: fun_eq_iff)
qed simp

lemma link_view_cong:
  assumes "link_vals l' = (link_vals l)[i := v]" "i < 16"
  shows "link_view l' = (link_view l)(link_key_list ! i \<mapsto> v)"
  unfolding link_view_def assms(1) using assms(2) link_keys_distinct
  by (simp add: map_of_zip_update length_link_vals)

lemma link_view_upd:
  "link_view (l\<lparr>defcont_enabled := b0\<rparr>) = (link_view l)(LINK_SETT_DEFCONT_ENABLED \<mapsto> bool_bytes b0)"
  "link_view (l\<lparr>defcont_apn_str := b1\<rparr>) = (link_view l)(LINK_SETT_DEFCONT_APN_KEY \<mapsto> cstr_bytes (cstr b1))"
  "link_view (l\<lparr>pdn_family := b2\<rparr>) = (link_view l)(LINK_SETT_DEFCONT_IP_FAMILY_KEY \<mapsto> [b2])"
  "link_view (l\<lparr>defcontauth_enabled := b3\<rparr>) = (link_view l)(LINK_SETT_DEFCONTAUTH_ENABLED \<mapsto> bool_bytes b3)"
  "link_view (l\<lparr>defcontauth_uname_str := b4\<rparr>) = (link_view l)(LINK_SETT_DEFCONTAUTH_USERNAME_KEY \<mapsto> cstr_bytes (cstr b4))"
  "link_view (l\<lparr>defcontauth_pword_str := b5\<rparr>) = (link_view l)(LINK_SETT_DEFCONTAUTH_PASSWORD_KEY \<mapsto> cstr_bytes (cstr b5))"
  "link_view (l\<lparr>defcontauth_prot := b6\<rparr>) = (link_view l)(LINK_SETT_DEFCONTAUTH_PROTOCOL_KEY \<mapsto> [b6])"
  "link_view (l\<lparr>dnsaddr_enabled := b7\<rparr>) = (link_view l)(LINK_SETT_DNSADDR_ENABLED \<mapsto> bool_bytes b7)"
  "link_view (l\<lparr>dnsaddr_ip_str := b8\<rparr>) = (link_view l)(LINK_SETT_DNSADDR_IP_KEY \<mapsto> cstr_bytes (cstr b8))"
  "link_view (l\<lparr>sysmode := b9\<rparr>) = (link_view l)(LINK_SETT_SYSMODE_KEY \<mapsto> [b9])"
  "link_view (l\<lparr>sysmode_lte_preference := b10\<rparr>) = (link_view l)(LINK_SETT_SYSMODE_LTE_PREFERENCE_KEY \<mapsto> [b10])"
  "link_view (l\<lparr>normal_mode_at_cmd_str_1 := b11\<rparr>) = (link_view l)(LINK_SETT_NORMAL_MODE_AT_CMD_1_KEY \<mapsto> cstr_bytes (cstr b11))"
  "link_view (l\<lparr>normal_mode_at_cmd_str_2 := b12\<rparr>) = (link_view l)(LINK_SETT_NORMAL_MODE_AT_CMD_2_KEY \<mapsto> cstr_bytes (cstr b12))"
  "link_view (l\<lparr>normal_mode_at_cmd_str_3 := b13\<rparr>) = (link_view l)(LINK_SETT_NORMAL_MODE_AT_CMD_3_KEY \<mapsto> cstr_bytes (cstr b13))"
  "link_view (l\<lparr>normal_mode_autoconn_enabled := b14\<rparr>) = (link_view l)(LINK_SETT_NORMAL_MODE_AUTOCONN_ENABLED \<mapsto> bool_bytes b14)"
  "link_view (l\<lparr>normal_mode_autoconn_rel14_used := b15\<rparr>) = (link_view l)(LINK_SETT_NORMAL_MODE_AUTOCONN_REL14_USED \<mapsto> bool_bytes b15)"
  subgoal by (subst link_view_cong [where i = 0 and l = l]) (simp_all add: link_vals_def link_key_list_def)
  subgoal by (subst link_view_cong [where i = 1 and l = l]) (simp_all add: link_vals_def link_key_list_def)
  subgoal by (subst link_view_cong [where i = 2 and l = l]) (simp_all add: link_vals_def link_key_list_def)
  subgoal by (subst link_view_cong [where i = 3 and l = l]) (simp_all add: link_vals_def link_key_list_def)
  subgoal by (subst link_view_cong [where i = 4 and l = l]) (simp_all add: link_vals_def link_key_list_def)
  subgoal by (subst link_view_cong [where i = 5 and l = l]) (simp_all add: link_vals_def link_key_list_def)
  subgoal by (subst link_view_cong [where i = 6 and l = l]) (simp_all add: link_vals_def link_key_list_def)
  subgoal by (subst link_view_cong [where i = 7 and l = l]) (simp_all add: link_vals_def link_key_list_def)
  subgoal by (subst link_view_cong [where i = 8 and l = l]) (simp_all add: link_vals_def link_key_list_def)
  subgoal by (subst link_view_cong [where i = 9 and l = l]) (simp_all add: link_vals_def link_key_list_def)
  subgoal by (subst link_view_cong [where i = 10 and l = l]) (simp_all add: link_vals_def link_key_list_def)
  subgoal by (subst link_view_cong [where i = 11 and l = l]) (simp_all add: link_vals_def link_key_list_def)
  subgoal by (subst link_view_cong [where i = 12 and l = l]) (simp_all add: link_vals_def link_key_list_def)
  subgoal by (subst link_view_cong [where i = 13 and l = l]) (simp_all add: link_vals_def link_key_list_def)
  subgoal by (subst link_view_cong [where i = 14 and l = l]) (simp_all add: link_vals_def link_key_list_def)
  subgoal by (subst link_view_cong [where i = 15 and l = l]) (simp_all add: link_vals_def link_key_list_def)
  done

lemma cstr_fits: "length b = Suc n \<Longrightarrow> terminated b \<Longrightarrow> length (cstr b) \<le> n"
  using length_cstr_less [of b] by simp

lemma link_settings_sett [simp]: "link_settings (sett f s) = f (link_settings s)" "world (sett f s) = world s"
  by (simp_all add: sett_def)

lemma link_sett_load:
  assumes t: "link_ok t" and s: "link_ok (link_settings s)" and b: "link_view t k = Some b"
  shows "link_ok (link_settings (exec_state (link_sett_handler S k (record_cb b)) s)) \<and>
    link_view (link_settings (exec_state (link_sett_handler S k (record_cb b)) s)) = (link_view (link_settings s))(k \<mapsto> b)"
proof -
  have len: "length (cstr (defcont_apn_str t)) \<le> MOSH_APN_STR_MAX_LEN"
      "length (cstr (defcontauth_uname_str t)) \<le> LINK_SETT_DEFCONTAUTH_MAX_UNAME_STR_LEN"
      "length (cstr (defcontauth_pword_str t)) \<le> LINK_SETT_DEFCONTAUTH_MAX_PWORD_STR_LEN"
      "length (cstr (dnsaddr_ip_str t)) \<le> LINK_SETT_DNSADDR_MAX_IP_LEN"
      "length (cstr (normal_mode_at_cmd_str_1 t)) \<le> CONFIG_MOSH_LINK_SETT_NORMAL_MODE_AT_CMD_STR_LEN"
      "length (cstr (normal_mode_at_cmd_str_2 t)) \<le> CONFIG_MOSH_LINK_SETT_NORMAL_MODE_AT_CMD_STR_LEN"
      "length (cstr (normal_mode_at_cmd_str_3 t)) \<le> CONFIG_MOSH_LINK_SETT_NORMAL_MODE_AT_CMD_STR_LEN"
    using t by (auto simp: link_ok_def link_sizes_def intro!: cstr_fits)
  consider "k = LINK_SETT_DEFCONT_ENABLED" "b = bool_bytes (defcont_enabled t)"
    | "k = LINK_SETT_DEFCONT_APN_KEY" "b = cstr_bytes (cstr (defcont_apn_str t))"
    | "k = LINK_SETT_DEFCONT_IP_FAMILY_KEY" "b = [pdn_family t]"
    | "k = LINK_SETT_DEFCONTAUTH_ENABLED" "b = bool_bytes (defcontauth_enabled t)"
    | "k = LINK_SETT_DEFCONTAUTH_USERNAME_KEY" "b = cstr_bytes (cstr (defcontauth_uname_str t))"
    | "k = LINK_SETT_DEFCONTAUTH_PASSWORD_KEY" "b = cstr_bytes (cstr (defcontauth_pword_str t))"
    | "k = LINK_SETT_DEFCONTAUTH_PROTOCOL_KEY" "b = [defcontauth_prot t]"
    | "k = LINK_SETT_DNSADDR_ENABLED" "b = bool_bytes (dnsaddr_enabled t)"
    | "k = LINK_SETT_DNSADDR_IP_KEY" "b = cstr_bytes (cstr (dnsaddr_ip_str t))"
    | "k = LINK_SETT_SYSMODE_KEY" "b = [sysmode t]"
    | "k = LINK_SETT_SYSMODE_LTE_PREFERENCE_KEY" "b = [sysmode_lte_preference t]"
    | "k = LINK_SETT_NORMAL_MODE_AT_CMD_1_KEY" "b = cstr_bytes (cstr (normal_mode_at_cmd_str_1 t))"
    | "k = LINK_SETT_NORMAL_MODE_AT_CMD_2_KEY" "b = cstr_bytes (cstr (normal_mode_at_cmd_str_2 t))"
    | "k = LINK_SETT_NORMAL_MODE_AT_CMD_3_KEY" "b = cstr_bytes (cstr (normal_mode_at_cmd_str_3 t))"
    | "k = LINK_SETT_NORMAL_MODE_AUTOCONN_ENABLED" "b = bool_bytes (normal_mode_autoconn_enabled t)"
    | "k = LINK_SETT_NORMAL_MODE_AUTOCONN_REL14_USED" "b = bool_bytes (normal_mode_autoconn_rel14_used t)"
    using b by (auto simp: link_view_def link_key_list_def link_vals_def split: if_splits)
  then show ?thesis
    using s len
    by cases (simp_all add: link_sett_handler_def link_keys exec_read_var link_view_upd, simp_all add: link_ok_def link_sizes_def)
qed

subsection \<open>What the operations do\<close>

datatype link_op =
    Set_Defcont bool
  | Set_Family "8 word"
  | Set_Apn string
  | Set_Auth bool
  | Set_Username string
  | Set_Password string
  | Set_Prot int
  | Set_Dns bool
  | Set_Dns_Ip string
  | Set_Sysmode "8 word" "8 word"
  | Set_At_Cmd string "8 word"
  | Clear_At_Cmd "8 word"
  | Set_Autoconn bool bool
  | Set_Defaults

definition ignore :: "('s, 'a) prog \<Rightarrow> ('s, unit) prog" where
  "ignore p = do { _ \<leftarrow> p; return () }"

definition link_prog :: "('w, 'y) link_api_scheme \<Rightarrow> link_op \<Rightarrow> ('w, 'z, unit) link_prog" where
  "link_prog T e = (case e of
     Set_Defcont b \<Rightarrow> ignore (link_sett_save_defcont_enabled T b)
   | Set_Family f \<Rightarrow> ignore (link_sett_save_defcont_pdn_family T f)
   | Set_Apn a \<Rightarrow> ignore (link_sett_save_defcont_apn T (cstr a))
   | Set_Auth b \<Rightarrow> ignore (link_sett_save_defcontauth_enabled T b)
   | Set_Username u \<Rightarrow> ignore (link_sett_save_defcontauth_username T (cstr u))
   | Set_Password p \<Rightarrow> ignore (link_sett_save_defcontauth_password T (cstr p))
   | Set_Prot p \<Rightarrow> ignore (link_sett_save_defcontauth_prot T p)
   | Set_Dns b \<Rightarrow> ignore (link_sett_save_dnsaddr_enabled T b)
   | Set_Dns_Ip a \<Rightarrow> ignore (link_sett_save_dnsaddr_ip T (cstr a))
   | Set_Sysmode m p \<Rightarrow> ignore (link_sett_sysmode_save T m p)
   | Set_At_Cmd c n \<Rightarrow> ignore (link_sett_save_normal_mode_at_cmd_str T (cstr c) n)
   | Clear_At_Cmd n \<Rightarrow> ignore (link_sett_clear_normal_mode_at_cmd_str T n)
   | Set_Autoconn b r \<Rightarrow> ignore (link_sett_save_normal_mode_autoconn_enabled T b r)
   | Set_Defaults \<Rightarrow> link_sett_defaults_set T)"

lemma exec_ignore [exec_simps]: "exec_state (ignore p) s = exec_state p s" "result (ignore p) s = ()"
  by (simp_all add: ignore_def exec_simps)

text \<open>Printing and the tables leave settings and storage alone.\<close>

lemma link_print_frame [simp]:
  fixes s :: "('w, 'z) link_scheme"
  shows "world (exec_state (mosh_print P f a) s) = world s"
    "link_settings (exec_state (mosh_print P f a) s) = link_settings s"
    "world (exec_state (mosh_error P f a) s) = world s"
    "link_settings (exec_state (mosh_error P f a) s) = link_settings s"
    "world (exec_state (link_shell_map_to_string P tbl m) s) = world s"
    "link_settings (exec_state (link_shell_map_to_string P tbl m) s) = link_settings s"
  by (rule keepsD, intro keeps_intros; simp)+

lemma link_abort_frame [simp]:
  fixes s :: "('w, 'z) link_scheme"
  shows "world (exec_state (abort x) s) = world s" "link_settings (exec_state (abort x) s) = link_settings s"
  by (simp_all add: abort_def exec_simps)

text \<open>The settings and their subtree of the storage.\<close>

definition link_pair :: "('w \<Rightarrow> storage) \<Rightarrow> ('w, 'z) link_scheme \<Rightarrow> link_sett_t \<times> storage" where
  "link_pair sto s = (link_settings s, subtree LINK_SETT_KEY (sto (world s)))"

definition upon :: "bool \<Rightarrow> ('a \<Rightarrow> 'a) \<Rightarrow> 'a \<Rightarrow> 'a" where
  "upon b f x = (if b then f x else x)"

definition set_both :: "(link_sett_t \<Rightarrow> link_sett_t) \<Rightarrow> string \<Rightarrow> 8 word list option \<Rightarrow> link_sett_t \<times> storage \<Rightarrow>
    link_sett_t \<times> storage" where
  "set_both f k v = (\<lambda>(l, st). (f l, st(k := v)))"

lemma reliableD:
  assumes "reliable T sto"
  shows "fst (settings_save_one T k v w) = 0" "sto (snd (settings_save_one T k v w)) = (sto w)(k := v)"
  using assms by (simp_all add: reliable_def)

lemmas link_op_defs = link_sett_save_defcont_enabled_def link_sett_save_defcont_pdn_family_def
  link_sett_save_defcont_apn_def link_sett_save_defcontauth_enabled_def link_sett_save_defcontauth_username_def
  link_sett_save_defcontauth_password_def link_sett_save_defcontauth_prot_def link_sett_save_dnsaddr_enabled_def
  link_sett_save_dnsaddr_ip_def link_sett_sysmode_save_def link_sett_save_normal_mode_at_cmd_str_def
  link_sett_clear_normal_mode_at_cmd_str_def link_sett_save_normal_mode_autoconn_enabled_def

lemma link_prog_effect:
  assumes "reliable T sto"
  shows
    "link_pair sto (exec_state (link_sett_save_defcont_enabled T b) s)
      = set_both (\<lambda>l. l\<lparr>defcont_enabled := b\<rparr>) LINK_SETT_DEFCONT_ENABLED (Some (bool_bytes b)) (link_pair sto s)"
    "link_pair sto (exec_state (link_sett_save_defcont_pdn_family T f) s)
      = set_both (\<lambda>l. l\<lparr>pdn_family := f\<rparr>) LINK_SETT_DEFCONT_IP_FAMILY_KEY (Some [f]) (link_pair sto s)"
    "link_pair sto (exec_state (link_sett_save_defcont_apn T a) s)
      = upon (length a \<le> MOSH_APN_STR_MAX_LEN) (set_both (\<lambda>l. l\<lparr>defcont_apn_str := strcpy (defcont_apn_str l) a\<rparr>)
          LINK_SETT_DEFCONT_APN_KEY (Some (cstr_bytes a))) (link_pair sto s)"
    "link_pair sto (exec_state (link_sett_save_defcontauth_enabled T b) s)
      = set_both (\<lambda>l. l\<lparr>defcontauth_enabled := b\<rparr>) LINK_SETT_DEFCONTAUTH_ENABLED (Some (bool_bytes b)) (link_pair sto s)"
    "link_pair sto (exec_state (link_sett_save_defcontauth_username T a) s)
      = upon (length a \<le> LINK_SETT_DEFCONTAUTH_MAX_UNAME_STR_LEN)
          (set_both (\<lambda>l. l\<lparr>defcontauth_uname_str := strcpy (defcontauth_uname_str l) a\<rparr>)
            LINK_SETT_DEFCONTAUTH_USERNAME_KEY (Some (cstr_bytes a))) (link_pair sto s)"
    "link_pair sto (exec_state (link_sett_save_defcontauth_password T a) s)
      = upon (length a \<le> LINK_SETT_DEFCONTAUTH_MAX_PWORD_STR_LEN)
          (set_both (\<lambda>l. l\<lparr>defcontauth_pword_str := strcpy (defcontauth_pword_str l) a\<rparr>)
            LINK_SETT_DEFCONTAUTH_PASSWORD_KEY (Some (cstr_bytes a))) (link_pair sto s)"
    "link_pair sto (exec_state (link_sett_save_dnsaddr_enabled T b) s)
      = set_both (\<lambda>l. l\<lparr>dnsaddr_enabled := b\<rparr>) LINK_SETT_DNSADDR_ENABLED (Some (bool_bytes b)) (link_pair sto s)"
    "link_pair sto (exec_state (link_sett_save_dnsaddr_ip T a) s)
      = upon (length a \<le> LINK_SETT_DNSADDR_MAX_IP_LEN) (set_both (\<lambda>l. l\<lparr>dnsaddr_ip_str := strcpy (dnsaddr_ip_str l) a\<rparr>)
          LINK_SETT_DNSADDR_IP_KEY (Some (cstr_bytes a))) (link_pair sto s)"
    "link_pair sto (exec_state (link_sett_sysmode_save T m p) s)
      = set_both (\<lambda>l. l\<lparr>sysmode_lte_preference := p\<rparr>) LINK_SETT_SYSMODE_LTE_PREFERENCE_KEY (Some [p])
          (set_both (\<lambda>l. l\<lparr>sysmode := m\<rparr>) LINK_SETT_SYSMODE_KEY (Some [m]) (link_pair sto s))"
    "link_pair sto (exec_state (link_sett_save_normal_mode_at_cmd_str T a n) s)
      = upon (length a \<le> CONFIG_MOSH_LINK_SETT_NORMAL_MODE_AT_CMD_STR_LEN \<and> n \<in> {1, 2, 3})
          (set_both (at_cmd_ram n (\<lambda>buf. strcpy buf a)) (at_cmd_key n) (Some (cstr_bytes a))) (link_pair sto s)"
    "link_pair sto (exec_state (link_sett_clear_normal_mode_at_cmd_str T n) s)
      = upon (n \<in> {1, 2, 3}) (set_both (at_cmd_ram n (\<lambda>buf. buf[0 := NUL])) (at_cmd_key n) None) (link_pair sto s)"
    "link_pair sto (exec_state (link_sett_save_normal_mode_autoconn_enabled T b r) s)
      = set_both (\<lambda>l. l\<lparr>normal_mode_autoconn_rel14_used := r\<rparr>) LINK_SETT_NORMAL_MODE_AUTOCONN_REL14_USED (Some (bool_bytes r))
          (set_both (\<lambda>l. l\<lparr>normal_mode_autoconn_enabled := b\<rparr>) LINK_SETT_NORMAL_MODE_AUTOCONN_ENABLED (Some (bool_bytes b))
            (link_pair sto s))"
  by (simp_all add: link_op_defs link_pdn_lib_family_to_string_def link_pair_def set_both_def upon_def Let_def
      exec_simps reliableD [OF assms])

subsection \<open>Restart\<close>

text \<open>
  The numbers \<open>lte_lc.h\<close> gives the authentication protocols, on which storing the number of the
  command instead of the method relies.
\<close>

definition auth_numbers :: "('w, 'y) link_api_scheme \<Rightarrow> bool" where
  "auth_numbers T \<longleftrightarrow> lc T ''LTE_LC_PDN_AUTH_NONE'' = 0 \<and> lc T ''LTE_LC_PDN_AUTH_PAP'' = 1 \<and>
     lc T ''LTE_LC_PDN_AUTH_CHAP'' = 2"

text \<open>On the names in \<open>A\<close>, the variables are what the defaults and the stored records give.\<close>

definition link_agrees :: "('w, 'y) link_api_scheme \<Rightarrow> string set \<Rightarrow> link_sett_t \<times> storage \<Rightarrow> bool" where
  "link_agrees T A p \<longleftrightarrow> link_ok (fst p) \<and>
     (\<forall>k \<in> A. link_view (fst p) k = (link_view (link_sett_ram_data_init T) ++ snd p) k)"

lemma link_agrees_UNIV:
  "link_agrees T UNIV p \<longleftrightarrow> link_ok (fst p) \<and> link_view (fst p) = link_view (link_sett_ram_data_init T) ++ snd p"
  by (auto simp: link_agrees_def fun_eq_iff)

lemma link_ok_ram_init [simp]: "link_ok (link_sett_ram_data_init T)"
  by (simp add: link_ok_def link_sizes_def link_sett_ram_data_init_def Let_def terminated_def link_sett_lens
      LINK_SETT_DEFCONT_DEFAULT_APN_def LINK_SETT_DEFCONTAUTH_DEFAULT_USERNAME_def
      LINK_SETT_DEFCONTAUTH_DEFAULT_PASSWORD_def strcpy_def blit_def)

lemma link_ok_upd [simp]:
  "link_ok (l\<lparr>defcont_enabled := b\<rparr>) = link_ok l" "link_ok (l\<lparr>pdn_family := f\<rparr>) = link_ok l"
  "link_ok (l\<lparr>defcontauth_enabled := b\<rparr>) = link_ok l" "link_ok (l\<lparr>dnsaddr_enabled := b\<rparr>) = link_ok l"
  "link_ok (l\<lparr>defcontauth_prot := f\<rparr>) = link_ok l" "link_ok (l\<lparr>sysmode := f\<rparr>) = link_ok l"
  "link_ok (l\<lparr>sysmode_lte_preference := f\<rparr>) = link_ok l"
  "link_ok (l\<lparr>normal_mode_autoconn_enabled := b\<rparr>) = link_ok l"
  "link_ok (l\<lparr>normal_mode_autoconn_rel14_used := b\<rparr>) = link_ok l"
  by (simp_all add: link_ok_def link_sizes_def)

lemma link_ok_strcpy [simp]:
  "link_ok l \<Longrightarrow> length a \<le> MOSH_APN_STR_MAX_LEN \<Longrightarrow> link_ok (l\<lparr>defcont_apn_str := strcpy (defcont_apn_str l) a\<rparr>)"
  "link_ok l \<Longrightarrow> length a \<le> LINK_SETT_DEFCONTAUTH_MAX_UNAME_STR_LEN \<Longrightarrow>
    link_ok (l\<lparr>defcontauth_uname_str := strcpy (defcontauth_uname_str l) a\<rparr>)"
  "link_ok l \<Longrightarrow> length a \<le> LINK_SETT_DEFCONTAUTH_MAX_PWORD_STR_LEN \<Longrightarrow>
    link_ok (l\<lparr>defcontauth_pword_str := strcpy (defcontauth_pword_str l) a\<rparr>)"
  "link_ok l \<Longrightarrow> length a \<le> LINK_SETT_DNSADDR_MAX_IP_LEN \<Longrightarrow> link_ok (l\<lparr>dnsaddr_ip_str := strcpy (dnsaddr_ip_str l) a\<rparr>)"
  "link_ok l \<Longrightarrow> length a \<le> CONFIG_MOSH_LINK_SETT_NORMAL_MODE_AT_CMD_STR_LEN \<Longrightarrow>
    link_ok (at_cmd_ram n (\<lambda>buf. strcpy buf a) l)"
  by (simp_all add: link_ok_def link_sizes_def at_cmd_ram_def)

lemma terminated_clear [simp]: "b \<noteq> [] \<Longrightarrow> terminated (b[0 := NUL])"
  by (cases b) (simp_all add: terminated_def)

lemma cstr_clear [simp]: "b \<noteq> [] \<Longrightarrow> cstr (b[0 := NUL]) = []"
  by (cases b) simp_all

lemma link_ok_clear [simp]: "link_ok l \<Longrightarrow> link_ok (at_cmd_ram n (\<lambda>buf. buf[0 := NUL]) l)"
  by (auto simp: link_ok_def link_sizes_def at_cmd_ram_def intro!: terminated_clear)

lemma link_view_at_cmd:
  "NUL \<notin> set a \<Longrightarrow> n \<in> {1, 2, 3} \<Longrightarrow>
    link_view (at_cmd_ram n (\<lambda>buf. strcpy buf a) l) = (link_view l)(at_cmd_key n \<mapsto> cstr_bytes a)"
  "link_ok l \<Longrightarrow> n \<in> {1, 2, 3} \<Longrightarrow>
    link_view (at_cmd_ram n (\<lambda>buf. buf[0 := NUL]) l) = (link_view l)(at_cmd_key n \<mapsto> cstr_bytes [])"
proof -
  show "NUL \<notin> set a \<Longrightarrow> n \<in> {1, 2, 3} \<Longrightarrow>
      link_view (at_cmd_ram n (\<lambda>buf. strcpy buf a) l) = (link_view l)(at_cmd_key n \<mapsto> cstr_bytes a)"
    by (auto simp: at_cmd_ram_def at_cmd_key_def link_view_upd)
  assume l: "link_ok l"
  then have "normal_mode_at_cmd_str_1 l \<noteq> []" "normal_mode_at_cmd_str_2 l \<noteq> []" "normal_mode_at_cmd_str_3 l \<noteq> []"
    by (auto simp: link_ok_def terminated_def)
  then show "n \<in> {1, 2, 3} \<Longrightarrow>
      link_view (at_cmd_ram n (\<lambda>buf. buf[0 := NUL]) l) = (link_view l)(at_cmd_key n \<mapsto> cstr_bytes [])"
    by (auto simp: at_cmd_ram_def at_cmd_key_def link_view_upd)
qed

lemma cstr_replicate_NUL [simp]: "cstr (replicate (Suc n) NUL) = []"
  by simp

lemma default_at_cmd: "link_view (link_sett_ram_data_init T) (at_cmd_key n) = Some (cstr_bytes [])"
proof -
  have "normal_mode_at_cmd_str_1 (link_sett_ram_data_init T) = replicate 128 NUL"
    "normal_mode_at_cmd_str_2 (link_sett_ram_data_init T) = replicate 128 NUL"
    "normal_mode_at_cmd_str_3 (link_sett_ram_data_init T) = replicate 128 NUL"
    by (simp_all add: link_sett_ram_data_init_def Let_def link_sett_lens)
  moreover have "cstr (replicate 128 NUL) = []"
    using cstr_replicate_NUL [of 127] by simp
  ultimately show ?thesis
    by (auto simp: at_cmd_key_def link_view_def link_key_list_def link_vals_def link_keys)
qed

text \<open>An update that writes one setting: as it would be stored, and nothing else.\<close>

definition sets :: "(link_sett_t \<Rightarrow> link_sett_t) \<Rightarrow> string \<Rightarrow> 8 word list \<Rightarrow> bool" where
  "sets f k b \<longleftrightarrow> (\<forall>l. link_ok l \<longrightarrow> link_ok (f l) \<and> link_view (f l) = (link_view l)(k \<mapsto> b))"

lemma sets_intros:
  "sets (\<lambda>l. l\<lparr>defcont_enabled := b\<rparr>) LINK_SETT_DEFCONT_ENABLED (bool_bytes b)"
  "sets (\<lambda>l. l\<lparr>pdn_family := f\<rparr>) LINK_SETT_DEFCONT_IP_FAMILY_KEY [f]"
  "sets (\<lambda>l. l\<lparr>defcontauth_enabled := b\<rparr>) LINK_SETT_DEFCONTAUTH_ENABLED (bool_bytes b)"
  "sets (\<lambda>l. l\<lparr>dnsaddr_enabled := b\<rparr>) LINK_SETT_DNSADDR_ENABLED (bool_bytes b)"
  "sets (\<lambda>l. l\<lparr>defcontauth_prot := f\<rparr>) LINK_SETT_DEFCONTAUTH_PROTOCOL_KEY [f]"
  "sets (\<lambda>l. l\<lparr>sysmode := f\<rparr>) LINK_SETT_SYSMODE_KEY [f]"
  "sets (\<lambda>l. l\<lparr>sysmode_lte_preference := f\<rparr>) LINK_SETT_SYSMODE_LTE_PREFERENCE_KEY [f]"
  "sets (\<lambda>l. l\<lparr>normal_mode_autoconn_enabled := b\<rparr>) LINK_SETT_NORMAL_MODE_AUTOCONN_ENABLED (bool_bytes b)"
  "sets (\<lambda>l. l\<lparr>normal_mode_autoconn_rel14_used := b\<rparr>) LINK_SETT_NORMAL_MODE_AUTOCONN_REL14_USED (bool_bytes b)"
  by (simp_all add: sets_def link_view_upd)

lemma sets_str_intros:
  assumes "NUL \<notin> set a"
  shows "length a \<le> MOSH_APN_STR_MAX_LEN \<Longrightarrow>
      sets (\<lambda>l. l\<lparr>defcont_apn_str := strcpy (defcont_apn_str l) a\<rparr>) LINK_SETT_DEFCONT_APN_KEY (cstr_bytes a)"
    "length a \<le> LINK_SETT_DEFCONTAUTH_MAX_UNAME_STR_LEN \<Longrightarrow>
      sets (\<lambda>l. l\<lparr>defcontauth_uname_str := strcpy (defcontauth_uname_str l) a\<rparr>) LINK_SETT_DEFCONTAUTH_USERNAME_KEY (cstr_bytes a)"
    "length a \<le> LINK_SETT_DEFCONTAUTH_MAX_PWORD_STR_LEN \<Longrightarrow>
      sets (\<lambda>l. l\<lparr>defcontauth_pword_str := strcpy (defcontauth_pword_str l) a\<rparr>) LINK_SETT_DEFCONTAUTH_PASSWORD_KEY (cstr_bytes a)"
    "length a \<le> LINK_SETT_DNSADDR_MAX_IP_LEN \<Longrightarrow>
      sets (\<lambda>l. l\<lparr>dnsaddr_ip_str := strcpy (dnsaddr_ip_str l) a\<rparr>) LINK_SETT_DNSADDR_IP_KEY (cstr_bytes a)"
    "length a \<le> CONFIG_MOSH_LINK_SETT_NORMAL_MODE_AT_CMD_STR_LEN \<Longrightarrow> n \<in> {1, 2, 3} \<Longrightarrow>
      sets (at_cmd_ram n (\<lambda>buf. strcpy buf a)) (at_cmd_key n) (cstr_bytes a)"
  using assms by (auto simp: sets_def link_view_upd link_view_at_cmd)

lemma sets_clear: "n \<in> {1, 2, 3} \<Longrightarrow> sets (at_cmd_ram n (\<lambda>buf. buf[0 := NUL])) (at_cmd_key n) (cstr_bytes [])"
  by (simp add: sets_def link_view_at_cmd)

lemma link_agrees_set:
  assumes "link_agrees T A p" "sets f k b"
  shows "link_agrees T (insert k A) (set_both f k (Some b) p)"
  using assms by (auto simp: link_agrees_def set_both_def case_prod_unfold map_add_def sets_def)

lemma link_agrees_clear:
  assumes "link_agrees T A p" "n \<in> {1, 2, 3}"
  shows "link_agrees T (insert (at_cmd_key n) A) (set_both (at_cmd_ram n (\<lambda>buf. buf[0 := NUL])) (at_cmd_key n) None p)"
  using assms sets_clear [OF assms(2)] default_at_cmd [of T n]
  by (auto simp: link_agrees_def set_both_def case_prod_unfold map_add_def sets_def)

lemma link_agrees_UNIV_set:
  "link_agrees T UNIV p \<Longrightarrow> sets f k b \<Longrightarrow> link_agrees T UNIV (set_both f k (Some b) p)"
  using link_agrees_set [of T UNIV p f k b] by simp

lemma link_agrees_UNIV_clear:
  "link_agrees T UNIV p \<Longrightarrow> n \<in> {1, 2, 3} \<Longrightarrow>
    link_agrees T UNIV (set_both (at_cmd_ram n (\<lambda>buf. buf[0 := NUL])) (at_cmd_key n) None p)"
  using link_agrees_clear [of T UNIV p n] by simp

lemma link_agrees_upon: "link_agrees T A p \<Longrightarrow> (b \<Longrightarrow> link_agrees T A (f p)) \<Longrightarrow> link_agrees T A (upon b f p)"
  by (simp add: upon_def)

lemma prot_effect:
  assumes "reliable T sto" "auth_numbers T"
  shows "link_pair sto (exec_state (link_sett_save_defcontauth_prot T p) s)
    = upon (p \<in> {0, 1, 2}) (set_both (\<lambda>l. l\<lparr>defcontauth_prot := word_of_int p\<rparr>) LINK_SETT_DEFCONTAUTH_PROTOCOL_KEY
        (Some [word_of_int p])) (link_pair sto s)"
  using assms(2)
  by (auto simp: link_op_defs link_shell_pdn_auth_prot_to_pdn_lib_method_map_def auth_numbers_def link_pair_def set_both_def
      upon_def Let_def exec_simps reliableD [OF assms(1)])

lemma link_pair_ram_init:
  "link_pair sto (exec_state (modify (sett (\<lambda>_. l))) s) = (l, snd (link_pair sto s))"
  by (simp add: link_pair_def exec_simps)

lemma link_agrees_start:
  assumes "link_agrees T UNIV p"
  shows "link_agrees T (- set link_key_list) (link_sett_ram_data_init T, snd p)"
proof -
  have "snd p k = None" if "k \<notin> set link_key_list" for k
  proof -
    have "link_view (fst p) k = None" "link_view (link_sett_ram_data_init T) k = None"
      using that dom_link_view [of "fst p"] dom_link_view [of "link_sett_ram_data_init T"] by auto
    then show ?thesis
      using assms by (auto simp: link_agrees_def map_add_def split: option.splits dest: spec [of _ k])
  qed
  then show ?thesis
    by (simp add: link_agrees_def map_add_def)
qed

lemma at_cmd_key_slots: "at_cmd_key 1 = LINK_SETT_NORMAL_MODE_AT_CMD_1_KEY"
  "at_cmd_key 2 = LINK_SETT_NORMAL_MODE_AT_CMD_2_KEY" "at_cmd_key 3 = LINK_SETT_NORMAL_MODE_AT_CMD_3_KEY"
  by (simp_all add: at_cmd_key_def)

lemma fst_set_both [simp]: "fst (set_both f k v p) = f (fst p)"
  by (simp add: set_both_def case_prod_unfold)

text \<open>Setting the defaults, seen from outside: every setting written once.\<close>

lemma link_defaults_effect:
  fixes s :: "('w, 'z) link_scheme" and T :: "('w, 'y) link_api_scheme"
  assumes "reliable T sto" "auth_numbers T"
  shows "link_pair sto (exec_state (link_sett_defaults_set T) s) =
    set_both (\<lambda>l. l\<lparr>normal_mode_autoconn_rel14_used := True\<rparr>) LINK_SETT_NORMAL_MODE_AUTOCONN_REL14_USED (Some (bool_bytes True))
    (set_both (\<lambda>l. l\<lparr>normal_mode_autoconn_enabled := True\<rparr>) LINK_SETT_NORMAL_MODE_AUTOCONN_ENABLED (Some (bool_bytes True))
    (set_both (at_cmd_ram 3 (\<lambda>buf. buf[0 := NUL])) (at_cmd_key 3) None
    (set_both (at_cmd_ram 2 (\<lambda>buf. buf[0 := NUL])) (at_cmd_key 2) None
    (set_both (at_cmd_ram 1 (\<lambda>buf. buf[0 := NUL])) (at_cmd_key 1) None
    (set_both (\<lambda>l. l\<lparr>sysmode_lte_preference := word_of_int (lc T ''CONFIG_LTE_MODE_PREFERENCE_VALUE'')\<rparr>)
      LINK_SETT_SYSMODE_LTE_PREFERENCE_KEY (Some [word_of_int (lc T ''CONFIG_LTE_MODE_PREFERENCE_VALUE'')])
    (set_both (\<lambda>l. l\<lparr>sysmode := word_of_int LINK_SYSMODE_NONE\<rparr>) LINK_SETT_SYSMODE_KEY (Some [word_of_int LINK_SYSMODE_NONE])
    (set_both (\<lambda>l. l\<lparr>dnsaddr_ip_str := strcpy (dnsaddr_ip_str l) ''''\<rparr>) LINK_SETT_DNSADDR_IP_KEY (Some (cstr_bytes ''''))
    (set_both (\<lambda>l. l\<lparr>dnsaddr_enabled := False\<rparr>) LINK_SETT_DNSADDR_ENABLED (Some (bool_bytes False))
    (set_both (\<lambda>l. l\<lparr>defcontauth_prot := 0\<rparr>) LINK_SETT_DEFCONTAUTH_PROTOCOL_KEY (Some [0])
    (set_both (\<lambda>l. l\<lparr>defcontauth_pword_str := strcpy (defcontauth_pword_str l) ''password''\<rparr>)
      LINK_SETT_DEFCONTAUTH_PASSWORD_KEY (Some (cstr_bytes ''password''))
    (set_both (\<lambda>l. l\<lparr>defcontauth_uname_str := strcpy (defcontauth_uname_str l) ''username''\<rparr>)
      LINK_SETT_DEFCONTAUTH_USERNAME_KEY (Some (cstr_bytes ''username''))
    (set_both (\<lambda>l. l\<lparr>defcontauth_enabled := False\<rparr>) LINK_SETT_DEFCONTAUTH_ENABLED (Some (bool_bytes False))
    (set_both (\<lambda>l. l\<lparr>defcont_apn_str := strcpy (defcont_apn_str l) ''internet''\<rparr>) LINK_SETT_DEFCONT_APN_KEY
      (Some (cstr_bytes ''internet''))
    (set_both (\<lambda>l. l\<lparr>pdn_family := word_of_int (lc T ''LTE_LC_PDN_FAM_IPV4V6'')\<rparr>) LINK_SETT_DEFCONT_IP_FAMILY_KEY
      (Some [word_of_int (lc T ''LTE_LC_PDN_FAM_IPV4V6'')])
    (set_both (\<lambda>l. l\<lparr>defcont_enabled := False\<rparr>) LINK_SETT_DEFCONT_ENABLED (Some (bool_bytes False))
      (link_sett_ram_data_init T, snd (link_pair sto s)))))))))))))))))"
proof -
  have print: "link_pair sto (exec_state (mosh_print T f a) u) = link_pair sto u" for f a and u :: "('w, 'z) link_scheme"
    by (simp add: link_pair_def)
  have auth: "lc T ''LTE_LC_PDN_AUTH_NONE'' = 0"
    using assms(2) by (simp add: auth_numbers_def)
  show ?thesis
    unfolding link_sett_defaults_set_def link_sett_sysmode_default_set_def exec_bind print
      link_prog_effect [OF assms(1)] prot_effect [OF assms] link_pair_ram_init auth
    by (simp add: upon_def link_sett_lens LINK_SETT_DEFCONT_DEFAULT_APN_def
        LINK_SETT_DEFCONTAUTH_DEFAULT_USERNAME_def LINK_SETT_DEFCONTAUTH_DEFAULT_PASSWORD_def)
qed

lemma link_defaults_agree:
  assumes "reliable T sto" "auth_numbers T" "link_agrees T UNIV (link_pair sto s)"
  shows "link_agrees T UNIV (link_pair sto (exec_state (link_sett_defaults_set T) s))"
proof -
  let ?A = "insert LINK_SETT_NORMAL_MODE_AUTOCONN_REL14_USED (insert LINK_SETT_NORMAL_MODE_AUTOCONN_ENABLED
      (insert (at_cmd_key 3) (insert (at_cmd_key 2) (insert (at_cmd_key 1)
      (insert LINK_SETT_SYSMODE_LTE_PREFERENCE_KEY (insert LINK_SETT_SYSMODE_KEY (insert LINK_SETT_DNSADDR_IP_KEY
      (insert LINK_SETT_DNSADDR_ENABLED (insert LINK_SETT_DEFCONTAUTH_PROTOCOL_KEY
      (insert LINK_SETT_DEFCONTAUTH_PASSWORD_KEY (insert LINK_SETT_DEFCONTAUTH_USERNAME_KEY
      (insert LINK_SETT_DEFCONTAUTH_ENABLED (insert LINK_SETT_DEFCONT_APN_KEY (insert LINK_SETT_DEFCONT_IP_FAMILY_KEY
      (insert LINK_SETT_DEFCONT_ENABLED (- set link_key_list))))))))))))))))"
  have "link_agrees T ?A (link_pair sto (exec_state (link_sett_defaults_set T) s))"
    unfolding link_defaults_effect [OF assms(1,2)]
    by (intro link_agrees_set link_agrees_clear sets_intros sets_str_intros link_agrees_start assms(3))
      (simp_all add: NUL_def link_sett_lens)
  moreover have "?A = UNIV"
    by (auto simp: link_key_list_def at_cmd_key_slots)
  ultimately show ?thesis by simp
qed

lemma link_step_agrees:
  assumes "reliable T sto" "auth_numbers T" "link_agrees T UNIV (link_pair sto s)"
  shows "link_agrees T UNIV (link_pair sto (exec_state (link_prog T e) s))"
  by (cases e; simp only: link_prog_def link_op.case exec_ignore link_prog_effect [OF assms(1)] prot_effect [OF assms(1,2)];
      intro link_agrees_upon link_agrees_UNIV_set link_agrees_UNIV_clear sets_intros sets_str_intros
        link_defaults_agree assms; simp)

interpretation link_settings: settings_component "\<lambda>s :: ('w, 'z) link_scheme. link_ok (link_settings s)"
    "\<lambda>s. link_view (link_settings s)" "\<lambda>s r. exec_state (link_sett_handler S (fst r) (record_cb (snd r))) s"
  for S :: "('w, 'y) settings_api_scheme"
  by unfold_locales (simp only: fst_conv snd_conv, rule link_sett_load)

text \<open>
  C9: The link settings survive a restart: with a storage that keeps what it is given, after any
  sequence of the operations that set, clear or reset settings, initialising again and loading the
  stored records in any order gives every one of the sixteen settings back as it was. The numbers of
  the authentication protocols are those of the modem library, on which the code relies.
\<close>

theorem link_settings_survive_restart:
  fixes d s\<^sub>0 :: "('w, 'z) link_scheme"
  assumes "reliable T sto" "settings_ready T" "auth_numbers T" "link_agrees T UNIV (link_pair sto s\<^sub>0)"
    and "map_of recs = subtree LINK_SETT_KEY (sto (world (foldl (\<lambda>s e. exec_state (link_prog T e) s) s\<^sub>0 es)))"
    and "distinct (map fst recs)"
  shows "link_view (link_settings (exec_state (link_sett_init T (load_records recs)) d))
    = link_view (link_settings (foldl (\<lambda>s e. exec_state (link_prog T e) s) s\<^sub>0 es))"
proof -
  let ?s = "foldl (\<lambda>s e. exec_state (link_prog T e) s) s\<^sub>0 es"
  let ?d = "sett (\<lambda>_. link_sett_ram_data_init T) d"
  have "link_agrees T UNIV (link_pair sto ?s)"
    by (rule foldl_invariant [where P = "\<lambda>s. link_agrees T UNIV (link_pair sto s)"])
      (auto intro: link_step_agrees [OF assms(1,3)] assms(4))
  then have s: "link_ok (link_settings ?s)" "link_view (link_settings ?s) =
      link_view (link_settings ?d) ++ subtree LINK_SETT_KEY (sto (world ?s))"
    by (simp_all add: link_agrees_UNIV link_pair_def)
  have "link_view (link_settings (foldl (\<lambda>s r. exec_state (link_sett_handler T (fst r) (record_cb (snd r))) s) ?d recs))
      = link_view (link_settings ?s)"
    using link_settings.restart [OF s(1) _ s(2) assms(5,6), where S = T] by simp
  moreover have same: "(sett f d)\<lparr>world := world d\<rparr> = sett f d" for f
    by (simp add: sett_def)
  ultimately show ?thesis
    using assms(2) by (simp add: link_sett_init_def settings_ready_def exec_simps exec_load_records same)
qed

definition test_link :: "storage link_api" where
  "test_link = \<lparr>clock_utc = (\<lambda>_. clock_utc plain_print ()), vsnprintfcb = vsnprintfcb plain_print,
     settings_subsys_init = (\<lambda>w. (0, w)), settings_register = (\<lambda>_ w. (0, w)),
     settings_save_one = (\<lambda>k v w. (0, w(k := v))),
     lc = (\<lambda>n. if n = ''LTE_LC_PDN_AUTH_PAP'' then 1 else if n = ''LTE_LC_PDN_AUTH_CHAP'' then 2 else 0),
     seconds_text = (\<lambda>_. ''1.00''), nrf_modem_at_printf = (\<lambda>_ _ w. (0, w))\<rparr>"

lemma test_link: "reliable test_link id" "settings_ready test_link" "auth_numbers test_link"
  by (simp_all add: test_link_def reliable_def settings_ready_def auth_numbers_def)

text \<open>The state after reset, with the storage \<open>w\<close>.\<close>

definition link_boot :: "'w \<Rightarrow> link_sett_t \<Rightarrow> 'w link" where
  "link_boot w l = startup.extend (startup_boot w) (link.fields l)"

lemma link_boot [simp]: "world (link_boot w l) = w" "link_settings (link_boot w l) = l"
  by (simp_all add: link_boot_def startup.defs link.defs startup_boot_def startup_ram_init_def)

theorem link_settings_survive_restart_witness:
  "let v = link_view (link_settings (exec_state (link_sett_init test_link (load_records
        [(LINK_SETT_DEFCONTAUTH_PROTOCOL_KEY, [2]), (LINK_SETT_DEFCONT_APN_KEY, cstr_bytes ''iot'')]))
        (link_boot Map.empty (link_sett_ram_data_init test_link))))
   in v LINK_SETT_DEFCONT_APN_KEY = Some (cstr_bytes ''iot'') \<and> v LINK_SETT_DEFCONTAUTH_PROTOCOL_KEY = Some [2]"
proof -
  let ?s\<^sub>0 = "link_boot Map.empty (link_sett_ram_data_init test_link)"
  let ?es = "[Set_Apn ''iot'', Set_Prot 2, Set_Prot 7]"
  let ?recs = "[(LINK_SETT_DEFCONTAUTH_PROTOCOL_KEY, [2 :: 8 word]), (LINK_SETT_DEFCONT_APN_KEY, cstr_bytes ''iot'')]"
  let ?s = "foldl (\<lambda>s e. exec_state (link_prog test_link e) s) ?s\<^sub>0 ?es"
  have iot: "cstr ''iot'' = ''iot''"
    by (simp add: cstr_def NUL_def)
  have s: "link_pair id ?s = set_both (\<lambda>l. l\<lparr>defcontauth_prot := 2\<rparr>) LINK_SETT_DEFCONTAUTH_PROTOCOL_KEY (Some [2])
      (set_both (\<lambda>l. l\<lparr>defcont_apn_str := strcpy (defcont_apn_str l) ''iot''\<rparr>) LINK_SETT_DEFCONT_APN_KEY
        (Some (cstr_bytes ''iot'')) (link_pair id ?s\<^sub>0))"
    by (simp add: link_prog_def exec_ignore link_prog_effect [OF test_link(1)] prot_effect [OF test_link(1,3)] upon_def
        iot link_sett_lens)
  have p: "link_pair id ?s\<^sub>0 = (link_sett_ram_data_init test_link, Map.empty)"
    by (simp add: link_pair_def)
  have v: "link_settings ?s = (link_sett_ram_data_init test_link)
      \<lparr>defcont_apn_str := strcpy (defcont_apn_str (link_sett_ram_data_init test_link)) ''iot'', defcontauth_prot := 2\<rparr>"
    and w: "subtree LINK_SETT_KEY (id (world ?s))
      = [LINK_SETT_DEFCONT_APN_KEY \<mapsto> cstr_bytes ''iot'', LINK_SETT_DEFCONTAUTH_PROTOCOL_KEY \<mapsto> [2]]"
    using s by (simp_all add: p set_both_def del: foldl.simps) (simp_all only: link_pair_def prod.inject id_apply)
  have k: "LINK_SETT_DEFCONTAUTH_PROTOCOL_KEY \<noteq> LINK_SETT_DEFCONT_APN_KEY"
    by (simp add: link_keys)
  have "link_agrees test_link UNIV (link_pair id ?s\<^sub>0)"
    by (simp add: p link_agrees_UNIV)
  moreover have "map_of ?recs = subtree LINK_SETT_KEY (id (world ?s))" "distinct (map fst ?recs)"
    unfolding w using k by (auto simp: fun_eq_iff)
  moreover have "link_view (link_settings ?s) LINK_SETT_DEFCONT_APN_KEY = Some (cstr_bytes ''iot'')"
    "link_view (link_settings ?s) LINK_SETT_DEFCONTAUTH_PROTOCOL_KEY = Some [2]"
    unfolding v using k by (simp_all add: link_view_upd NUL_def)
  ultimately show ?thesis
    using link_settings_survive_restart [OF test_link, of ?s\<^sub>0 ?recs ?es ?s\<^sub>0] by (simp only: Let_def simp_thms)
qed


subsection \<open>Storage that fails, records that are corrupt\<close>

text \<open>
  When the storage fails every write, the strings, numbers and AT commands keep their values in
  RAM, but the four switches (default context, authentication, DNS and automatic connection) are set
  in RAM before the write, so they hold the new value although nothing is stored; resetting to
  defaults resets the RAM although nothing is stored.
\<close>

theorem link_failing_storage:
  fixes T :: "('w, 'y) link_api_scheme" and s :: "('w, 'z) link_scheme"
  assumes "\<And>k v w. fst (settings_save_one T k v w) \<noteq> 0"
  shows "link_settings (exec_state (link_prog T e) s) = (let l = link_settings s in case e of
      Set_Defcont b \<Rightarrow> l\<lparr>defcont_enabled := b\<rparr>
    | Set_Auth b \<Rightarrow> l\<lparr>defcontauth_enabled := b\<rparr>
    | Set_Dns b \<Rightarrow> l\<lparr>dnsaddr_enabled := b\<rparr>
    | Set_Autoconn b r \<Rightarrow> l\<lparr>normal_mode_autoconn_enabled := b, normal_mode_autoconn_rel14_used := r\<rparr>
    | Set_Defaults \<Rightarrow> (link_sett_ram_data_init T)\<lparr>normal_mode_autoconn_rel14_used := True\<rparr>
    | _ \<Rightarrow> l)"
proof -
  have saves: "link_settings (exec_state (link_sett_save_defcont_enabled T b) s) = (link_settings s)\<lparr>defcont_enabled := b\<rparr>"
    "link_settings (exec_state (link_sett_save_defcont_pdn_family T f) s) = link_settings s"
    "link_settings (exec_state (link_sett_save_defcont_apn T a) s) = link_settings s"
    "link_settings (exec_state (link_sett_save_defcontauth_enabled T b) s) = (link_settings s)\<lparr>defcontauth_enabled := b\<rparr>"
    "link_settings (exec_state (link_sett_save_defcontauth_username T a) s) = link_settings s"
    "link_settings (exec_state (link_sett_save_defcontauth_password T a) s) = link_settings s"
    "link_settings (exec_state (link_sett_save_defcontauth_prot T p) s) = link_settings s"
    "link_settings (exec_state (link_sett_save_dnsaddr_enabled T b) s) = (link_settings s)\<lparr>dnsaddr_enabled := b\<rparr>"
    "link_settings (exec_state (link_sett_save_dnsaddr_ip T a) s) = link_settings s"
    "link_settings (exec_state (link_sett_sysmode_save T m f) s) = link_settings s"
    "link_settings (exec_state (link_sett_save_normal_mode_at_cmd_str T a n) s) = link_settings s"
    "link_settings (exec_state (link_sett_clear_normal_mode_at_cmd_str T n) s) = link_settings s"
    "link_settings (exec_state (link_sett_save_normal_mode_autoconn_enabled T b r) s)
      = (link_settings s)\<lparr>normal_mode_autoconn_enabled := b, normal_mode_autoconn_rel14_used := r\<rparr>"
    for b f a p m n r and s :: "('w, 'z) link_scheme"
    using assms by (simp_all add: link_op_defs Let_def exec_simps
        link_shell_pdn_auth_prot_to_pdn_lib_method_map_def)
  have init: "(link_sett_ram_data_init T)\<lparr>defcont_enabled := False\<rparr> = link_sett_ram_data_init T"
      "(link_sett_ram_data_init T)\<lparr>defcontauth_enabled := False\<rparr> = link_sett_ram_data_init T"
      "(link_sett_ram_data_init T)\<lparr>dnsaddr_enabled := False\<rparr> = link_sett_ram_data_init T"
      "(link_sett_ram_data_init T)\<lparr>normal_mode_autoconn_enabled := True\<rparr> = link_sett_ram_data_init T"
    by (simp_all add: link_sett_ram_data_init_def Let_def)
  show ?thesis
    by (cases e) (simp_all add: link_prog_def exec_ignore saves link_sett_defaults_set_def exec_bind
        link_sett_sysmode_default_set_def exec_simps init)
qed

theorem link_failing_storage_witness:
  "let T = test_link\<lparr>settings_save_one := (\<lambda>k v w. (- EIO, w))\<rparr>;
       s = link_boot Map.empty (link_sett_ram_data_init T)
   in link_settings (exec_state (link_prog T (Set_Defcont True)) s) = (link_settings s)\<lparr>defcont_enabled := True\<rparr>"
proof -
  let ?T = "test_link\<lparr>settings_save_one := (\<lambda>k v w. (- EIO, w))\<rparr>"
  have fails: "fst (settings_save_one ?T k v w) \<noteq> 0" for k v w
    by (simp add: EIO_def)
  show ?thesis
    using link_failing_storage [OF fails, of "Set_Defcont True" "link_boot Map.empty (link_sett_ram_data_init ?T)"]
    by (simp only: Let_def link_op.case)
qed

lemma link_sizes_upd [simp]:
  "link_sizes (l\<lparr>defcont_enabled := b\<rparr>) = link_sizes l" "link_sizes (l\<lparr>pdn_family := f\<rparr>) = link_sizes l"
  "link_sizes (l\<lparr>defcontauth_enabled := b\<rparr>) = link_sizes l" "link_sizes (l\<lparr>dnsaddr_enabled := b\<rparr>) = link_sizes l"
  "link_sizes (l\<lparr>defcontauth_prot := f\<rparr>) = link_sizes l" "link_sizes (l\<lparr>sysmode := f\<rparr>) = link_sizes l"
  "link_sizes (l\<lparr>sysmode_lte_preference := f\<rparr>) = link_sizes l"
  "link_sizes (l\<lparr>normal_mode_autoconn_enabled := b\<rparr>) = link_sizes l"
  "link_sizes (l\<lparr>normal_mode_autoconn_rel14_used := b\<rparr>) = link_sizes l"
  by (simp_all add: link_sizes_def)


text \<open>What can happen to the variables: an operation, or a stored record of any name and content.\<close>

datatype link_event =
    Op link_op
  | Stored string int "8 word list"

definition link_step :: "('w, 'y) link_api_scheme \<Rightarrow> ('w, 'z) link_scheme \<Rightarrow> link_event \<Rightarrow> ('w, 'z) link_scheme" where
  "link_step T s e = (case e of
     Op p \<Rightarrow> exec_state (link_prog T p) s
   | Stored key err bytes \<Rightarrow> exec_state (link_sett_handler T key (\<lambda>_ w. ((err, bytes), w))) s)"

text \<open>The argument of an operation whose length is only checked by an assertion.\<close>

definition too_long :: "link_event \<Rightarrow> bool" where
  "too_long e = (case e of
     Op (Set_Apn a) \<Rightarrow> length (cstr a) > MOSH_APN_STR_MAX_LEN
   | Op (Set_Dns_Ip a) \<Rightarrow> length (cstr a) > LINK_SETT_DNSADDR_MAX_IP_LEN
   | _ \<Rightarrow> False)"

lemma link_settings_read_var:
  "link_settings (exec_state (read_var P (\<lambda>_ w. ((err, bytes), w)) n (\<lambda>b. sett (g b)) msg) s) = g (take n bytes) (link_settings s)"
  by (simp add: read_var_def exec_simps sett_def)

lemma link_sizes_if:
  "link_sizes (link_settings (exec_state p s)) \<Longrightarrow> link_sizes (link_settings (exec_state q s)) \<Longrightarrow>
    link_sizes (link_settings (exec_state (if b then p else q) s))"
  by simp

lemma link_sizes_handler:
  assumes "link_sizes (link_settings s)"
  shows "link_sizes (link_settings (exec_state (link_sett_handler S key (\<lambda>_ w. ((err, bytes), w))) s))"
  unfolding link_sett_handler_def
  by (intro link_sizes_if) (use assms in \<open>simp_all add: link_settings_read_var exec_return link_sizes_def\<close>)

lemma link_sizes_strcpy [simp]:
  "link_sizes l \<Longrightarrow> length a \<le> MOSH_APN_STR_MAX_LEN \<Longrightarrow> link_sizes (l\<lparr>defcont_apn_str := strcpy (defcont_apn_str l) a\<rparr>)"
  "link_sizes l \<Longrightarrow> length a \<le> LINK_SETT_DEFCONTAUTH_MAX_UNAME_STR_LEN \<Longrightarrow>
    link_sizes (l\<lparr>defcontauth_uname_str := strcpy (defcontauth_uname_str l) a\<rparr>)"
  "link_sizes l \<Longrightarrow> length a \<le> LINK_SETT_DEFCONTAUTH_MAX_PWORD_STR_LEN \<Longrightarrow>
    link_sizes (l\<lparr>defcontauth_pword_str := strcpy (defcontauth_pword_str l) a\<rparr>)"
  "link_sizes l \<Longrightarrow> length a \<le> LINK_SETT_DNSADDR_MAX_IP_LEN \<Longrightarrow>
    link_sizes (l\<lparr>dnsaddr_ip_str := strcpy (dnsaddr_ip_str l) a\<rparr>)"
  "link_sizes l \<Longrightarrow> length a \<le> CONFIG_MOSH_LINK_SETT_NORMAL_MODE_AT_CMD_STR_LEN \<Longrightarrow>
    link_sizes (at_cmd_ram n (\<lambda>buf. strcpy buf a) l)"
  "link_sizes l \<Longrightarrow> link_sizes (at_cmd_ram n (\<lambda>buf. buf[0 := NUL]) l)"
  by (simp_all add: link_sizes_def at_cmd_ram_def)

lemma link_sizes_ram_init [simp]: "link_sizes (link_sett_ram_data_init T)"
  using link_ok_ram_init [of T] by (simp add: link_ok_def)

lemma link_sizes_ops:
  assumes "link_sizes (link_settings s)"
  shows "link_sizes (link_settings (exec_state (link_sett_save_defcont_enabled T b) s))"
    "link_sizes (link_settings (exec_state (link_sett_save_defcont_pdn_family T f) s))"
    "link_sizes (link_settings (exec_state (link_sett_save_defcont_apn T a) s))"
    "link_sizes (link_settings (exec_state (link_sett_save_defcontauth_enabled T b) s))"
    "link_sizes (link_settings (exec_state (link_sett_save_defcontauth_username T a) s))"
    "link_sizes (link_settings (exec_state (link_sett_save_defcontauth_password T a) s))"
    "link_sizes (link_settings (exec_state (link_sett_save_defcontauth_prot T p) s))"
    "link_sizes (link_settings (exec_state (link_sett_save_dnsaddr_enabled T b) s))"
    "link_sizes (link_settings (exec_state (link_sett_save_dnsaddr_ip T a) s))"
    "link_sizes (link_settings (exec_state (link_sett_sysmode_save T f g) s))"
    "link_sizes (link_settings (exec_state (link_sett_save_normal_mode_at_cmd_str T a n) s))"
    "link_sizes (link_settings (exec_state (link_sett_clear_normal_mode_at_cmd_str T n) s))"
    "link_sizes (link_settings (exec_state (link_sett_save_normal_mode_autoconn_enabled T b r) s))"
  using assms by (auto simp: link_op_defs Let_def exec_simps link_pdn_lib_family_to_string_def split: sum.split)

lemma link_sizes_step:
  assumes "link_sizes (link_settings s)"
  shows "link_sizes (link_settings (link_step T s e))"
proof -
  have d: "link_sizes (link_settings (exec_state (link_sett_defaults_set T) s))"
    unfolding link_sett_defaults_set_def link_sett_sysmode_default_set_def exec_bind link_print_frame
    by (intro link_sizes_ops) (simp add: exec_simps)
  have p: "link_sizes (link_settings (exec_state (link_prog T p) s))" for p
    by (cases p) (simp_all add: link_prog_def exec_ignore link_sizes_ops [OF assms] d)
  show ?thesis
    by (cases e) (simp_all add: link_step_def p link_sizes_handler [OF assms])
qed

lemma aborted_frame [simp]:
  fixes s :: "('w, 'z) link_scheme"
  shows "aborted (exec_state (mosh_print P f a) s) = aborted s" "aborted (exec_state (mosh_error P f a) s) = aborted s"
    "aborted (exec_state (link_shell_map_to_string P tbl m) s) = aborted s" "aborted (sett g s) = aborted s"
    "aborted (exec_state (abort x) s)"
  by (rule keepsD, intro keeps_intros; simp)+ (simp_all add: sett_def abort_def exec_simps)

lemma aborted_ops:
  fixes s :: "('w, 'z) link_scheme"
  shows "aborted (exec_state (link_sett_save_defcont_enabled T b) s) = aborted s"
    "aborted (exec_state (link_sett_save_defcont_pdn_family T f) s) = aborted s"
    "aborted (exec_state (link_sett_save_defcont_apn T a) s) \<longleftrightarrow> aborted s \<or> length a > MOSH_APN_STR_MAX_LEN"
    "aborted (exec_state (link_sett_save_defcontauth_enabled T b) s) = aborted s"
    "aborted (exec_state (link_sett_save_defcontauth_username T a) s) = aborted s"
    "aborted (exec_state (link_sett_save_defcontauth_password T a) s) = aborted s"
    "aborted (exec_state (link_sett_save_defcontauth_prot T p) s) = aborted s"
    "aborted (exec_state (link_sett_save_dnsaddr_enabled T b) s) = aborted s"
    "aborted (exec_state (link_sett_save_dnsaddr_ip T a) s) \<longleftrightarrow> aborted s \<or> length a > LINK_SETT_DNSADDR_MAX_IP_LEN"
    "aborted (exec_state (link_sett_sysmode_save T f g) s) = aborted s"
    "aborted (exec_state (link_sett_save_normal_mode_at_cmd_str T a n) s) = aborted s"
    "aborted (exec_state (link_sett_clear_normal_mode_at_cmd_str T n) s) = aborted s"
    "aborted (exec_state (link_sett_save_normal_mode_autoconn_enabled T b r) s) = aborted s"
  by (auto simp: link_op_defs Let_def exec_simps link_pdn_lib_family_to_string_def split: sum.split)

lemma aborted_handler: "aborted (exec_state (link_sett_handler S key cb) s) = aborted s"
  by (rule keepsD, unfold link_sett_handler_def, intro keeps_intros) (simp_all add: sett_def)

lemma aborted_step:
  fixes s :: "('w, 'z) link_scheme"
  shows "aborted (link_step T s e) \<longleftrightarrow> aborted s \<or> too_long e"
proof -
  have d: "aborted (exec_state (link_sett_defaults_set T) s) = aborted s"
    by (simp add: link_sett_defaults_set_def link_sett_sysmode_default_set_def exec_bind aborted_ops)
      (simp add: exec_simps link_sett_lens LINK_SETT_DEFCONT_DEFAULT_APN_def)
  have "aborted (exec_state (link_prog T p) s) \<longleftrightarrow> aborted s \<or> too_long (Op p)" for p
    by (cases p) (simp_all add: link_prog_def too_long_def exec_ignore aborted_ops d)
  then show ?thesis
    by (cases e) (simp_all add: link_step_def too_long_def aborted_handler)
qed

text \<open>
  C32: Whatever is set, cleared, reset or loaded, with any storage and stored records of any name,
  length and content, no settings buffer is written past its end, and an assertion fails exactly when
  an access point name over 64 or a DNS address over 46 characters was given.
\<close>

theorem link_memory_safe:
  "let s = foldl (link_step T) (link_boot w (link_sett_ram_data_init T)) es
   in link_sizes (link_settings s) \<and> (aborted s \<longleftrightarrow> list_ex too_long es)"
proof (induction es rule: rev_induct)
  case Nil
  then show ?case by (simp add: link_boot_def startup.defs link.defs startup_boot_def startup_ram_init_def)
next
  case (snoc e es)
  then show ?case by (simp add: Let_def link_sizes_step aborted_step)
qed

end
