(* ===== verification/Mosh_Pdn.thy ===== *)
theory Mosh_Pdn
  imports Mosh_Link_Sett
begin

section \<open>PDN connections (\<open>link_shell_pdn.c\<close>)\<close>

text \<open>
  The PDP contexts the user has connected: a list of their identifiers sorted by context, and the
  handler of PDN events, which tells the start-up commands and PPP that the default PDN came up or
  went down and passes every event on. The PDN interface of the modem library, the heap and the
  callback of PPP are parameters.
\<close>

subsection \<open>State\<close>

record link_shell_pdn_info =
  pdn_id :: int
  cid :: "8 word"

record pdn_evt =
  evt_type :: int
  pdn_type :: int
  pdn_cid :: "8 word"
  esm_err :: int

record 'w pdn = "'w link" +
  pdn_info_list :: "link_shell_pdn_info list"
  lte_lc_event_forward_callback :: "(pdn_evt \<Rightarrow> 'w \<Rightarrow> 'w) option"

type_synonym ('w, 'z, 'a) pdn_prog = "(('w, 'z) pdn_scheme, 'a) prog"

text \<open>
  \<open>lte_lc_pdn_ctx_create\<close> gives its result and the identifier, where it writes one;
  \<open>lte_lc_pdn_activate\<close> its result and the ESM cause. \<open>k_calloc\<close> tells whether there was memory.
\<close>

record 'w pdn_api = "'w link_api" +
  lte_lc_pdn_ctx_create :: "'w \<Rightarrow> (int \<times> 8 word option) \<times> 'w"
  lte_lc_pdn_ctx_configure :: "8 word \<Rightarrow> string \<Rightarrow> int \<Rightarrow> 'w \<Rightarrow> int \<times> 'w"
  lte_lc_pdn_ctx_auth_set :: "8 word \<Rightarrow> int \<Rightarrow> string \<Rightarrow> string \<Rightarrow> 'w \<Rightarrow> int \<times> 'w"
  lte_lc_pdn_ctx_destroy :: "8 word \<Rightarrow> 'w \<Rightarrow> int \<times> 'w"
  lte_lc_pdn_activate :: "8 word \<Rightarrow> 'w \<Rightarrow> (int \<times> int) \<times> 'w"
  lte_lc_pdn_deactivate :: "8 word \<Rightarrow> 'w \<Rightarrow> int \<times> 'w"
  lte_lc_pdn_id_get :: "8 word \<Rightarrow> 'w \<Rightarrow> int \<times> 'w"
  lte_lc_pdn_esm_strerror :: "int \<Rightarrow> string"
  lte_lc_register_handler :: "'w \<Rightarrow> 'w"
  k_calloc :: "'w \<Rightarrow> bool \<times> 'w"
  ppp_ctrl_default_pdn_active :: "bool \<Rightarrow> 'w \<Rightarrow> 'w"

subsection \<open>Events\<close>

definition link_pdn_event_handler :: "('w, 'y) pdn_api_scheme \<Rightarrow> pdn_evt \<Rightarrow> ('w, 'z, unit) pdn_prog" where
  "link_pdn_event_handler T evt = do {
     (if evt_type evt = lc T ''LTE_LC_EVT_PDN'' then
        (if pdn_type evt = lc T ''LTE_LC_EVT_PDN_ESM_ERROR'' then
           mosh_print T ''PDN event: PDP context %d, %s''
             [PInt (uint (pdn_cid evt)), PStr (lte_lc_pdn_esm_strerror T (esm_err evt))]
         else do {
           str_buf \<leftarrow> link_pdn_event_to_string T (pdn_type evt);
           mosh_print T ''PDN event: PDP context %d %s'' [PInt (uint (pdn_cid evt)), PStr str_buf];
           doif (pdn_cid evt = 0) (do {
             doif (pdn_type evt = lc T ''LTE_LC_EVT_PDN_ACTIVATED'') startup_cmd_ctrl_default_pdn_active;
             (if pdn_type evt = lc T ''LTE_LC_EVT_PDN_ACTIVATED'' then act (ppp_ctrl_default_pdn_active T True)
              else doif (pdn_type evt = lc T ''LTE_LC_EVT_PDN_DEACTIVATED'' \<or>
                  pdn_type evt = lc T ''LTE_LC_EVT_PDN_NETWORK_DETACH'')
                (act (ppp_ctrl_default_pdn_active T False)))
           })
         })
      else return ());
     cb \<leftarrow> gets lte_lc_event_forward_callback;
     (case cb of None \<Rightarrow> return () | Some f \<Rightarrow> act (f evt))
   }"

subsection \<open>The list\<close>

text \<open>Insertion before the first context with a greater identifier, else at the end.\<close>

fun pdn_insert :: "link_shell_pdn_info \<Rightarrow> link_shell_pdn_info list \<Rightarrow> link_shell_pdn_info list" where
  "pdn_insert x [] = [x]"
| "pdn_insert x (y # ys) = (if cid x < cid y then x # y # ys else y # pdn_insert x ys)"

text \<open>The result of the allocation is used without a check: with no memory the program faults.\<close>

definition link_shell_pdn_info_list_add :: "('w, 'y) pdn_api_scheme \<Rightarrow> int \<Rightarrow> 8 word \<Rightarrow>
    ('w, 'z, link_shell_pdn_info) pdn_prog" where
  "link_shell_pdn_info_list_add T new_id c = do {
     l \<leftarrow> gets pdn_info_list;
     case find (\<lambda>i. cid i = c) l of
       Some i \<Rightarrow> return i
     | None \<Rightarrow> do {
         ok \<leftarrow> call (k_calloc T);
         let new_pdn_info = \<lparr>pdn_id = new_id, cid = c\<rparr>;
         if \<not> ok then abort new_pdn_info
         else do {
           modify (\<lambda>s. s\<lparr>pdn_info_list := pdn_insert new_pdn_info (pdn_info_list s)\<rparr>);
           return new_pdn_info
         }
       }
   }"

definition link_shell_pdn_info_list_find :: "8 word \<Rightarrow> ('w, 'z, link_shell_pdn_info option) pdn_prog" where
  "link_shell_pdn_info_list_find c = gets (\<lambda>s. find (\<lambda>i. cid i = c) (pdn_info_list s))"

definition link_shell_pdn_info_list_remove :: "8 word \<Rightarrow> ('w, 'z, unit) pdn_prog" where
  "link_shell_pdn_info_list_remove c = do {
     found \<leftarrow> link_shell_pdn_info_list_find c;
     case found of
       None \<Rightarrow> return ()
     | Some i \<Rightarrow> modify (\<lambda>s. s\<lparr>pdn_info_list := remove1 i (pdn_info_list s)\<rparr>)
   }"

definition link_shell_pdn_info_is_in_list :: "8 word \<Rightarrow> ('w, 'z, bool) pdn_prog" where
  "link_shell_pdn_info_is_in_list c = do {
     result \<leftarrow> link_shell_pdn_info_list_find c;
     return (result \<noteq> None)
   }"

subsection \<open>Connecting and disconnecting\<close>

record link_shell_pdn_auth =
  auth_method :: int
  auth_user :: string
  auth_password :: string

definition link_shell_pdn_activate :: "('w, 'y) pdn_api_scheme \<Rightarrow> 8 word \<Rightarrow> ('w, 'z, int) pdn_prog" where
  "link_shell_pdn_activate T c = do {
     (ret, esm) \<leftarrow> call (lte_lc_pdn_activate T c);
     doif (ret \<noteq> 0) (mosh_error T (''lte_lc_pdn_activate() failed, err %d esm %d %s'' @ LF)
       [PInt ret, PInt esm, PStr (lte_lc_pdn_esm_strerror T esm)]);
     return ret
   }"

text \<open>
  The label \<open>cleanup_and_fail\<close>. The test there compares a byte with \<open>-1\<close>, which as an integer no
  byte is, so the context is destroyed whatever \<open>c\<close> is.
\<close>

definition cleanup_and_fail :: "('w, 'y) pdn_api_scheme \<Rightarrow> 8 word \<Rightarrow> int \<Rightarrow> ('w, 'z, int) pdn_prog" where
  "cleanup_and_fail T c ret = do {
     (if uint c \<noteq> -1 then do { _ \<leftarrow> call (lte_lc_pdn_ctx_destroy T c); return () } else return ());
     return ret
   }"

definition link_shell_pdn_connect :: "('w, 'y) pdn_api_scheme \<Rightarrow> string \<Rightarrow> string option \<Rightarrow>
    link_shell_pdn_auth option \<Rightarrow> ('w, 'z, int) pdn_prog" where
  "link_shell_pdn_connect T apn_name family_str auth_params = do {
     (ret, written) \<leftarrow> call (lte_lc_pdn_ctx_create T);
     let c = (case written of Some v \<Rightarrow> v | None \<Rightarrow> -1);
     if ret \<noteq> 0 then do {
       mosh_error T (''lte_lc_pdn_ctx_create() failed, err %d'' @ LF) [PInt ret];
       cleanup_and_fail T c ret
     } else do {
       family \<leftarrow> link_family_str_to_pdn_lib_family T family_str;
       case family of
         Inl ret \<Rightarrow> do {
           mosh_error T (''link_family_str_to_pdn_lib_family() failed, err %d'' @ LF) [PInt ret];
           cleanup_and_fail T c ret
         }
       | Inr pdn_lib_family \<Rightarrow> do {
           ret \<leftarrow> call (lte_lc_pdn_ctx_configure T c apn_name pdn_lib_family);
           if ret \<noteq> 0 then do {
             mosh_error T (''lte_lc_pdn_ctx_configure() failed, err %d'' @ LF) [PInt ret];
             cleanup_and_fail T c ret
           } else do {
             ret \<leftarrow> (case auth_params of
                 None \<Rightarrow> return 0
               | Some a \<Rightarrow> call (lte_lc_pdn_ctx_auth_set T c (auth_method a) (auth_user a) (auth_password a)));
             if ret \<noteq> 0 then do {
               mosh_error T ''Failed to set auth params for CID %d, err %d'' [PInt (uint c), PInt ret];
               cleanup_and_fail T c ret
             } else do {
               ret \<leftarrow> link_shell_pdn_activate T c;
               if ret \<noteq> 0 then cleanup_and_fail T c ret
               else do {
                 new_id \<leftarrow> call (lte_lc_pdn_id_get T c);
                 _ \<leftarrow> link_shell_pdn_info_list_add T new_id c;
                 mosh_print T (''Created and activated a new PDP context: CID %d, PDN ID %d'' @ LF)
                   [PInt (uint c), PInt new_id];
                 return 0
               }
             }
           }
         }
     }
   }"

definition link_shell_pdn_disconnect :: "('w, 'y) pdn_api_scheme \<Rightarrow> int \<Rightarrow> ('w, 'z, int) pdn_prog" where
  "link_shell_pdn_disconnect T ctx = do {
     ret \<leftarrow> call (lte_lc_pdn_deactivate T (word_of_int ctx));
     doif (ret \<noteq> 0) (mosh_error T ''lte_lc_pdn_deactivate() failed, err %d'' [PInt ret]);
     ret \<leftarrow> call (lte_lc_pdn_ctx_destroy T (word_of_int ctx));
     if ret \<noteq> 0 then do {
       mosh_error T ''lte_lc_pdn_ctx_destroy() failed, err %d'' [PInt ret];
       return ret
     } else do {
       link_shell_pdn_info_list_remove (word_of_int ctx);
       mosh_print T (''CID %d deactivated and context destroyed'' @ LF) [PInt ctx];
       return 0
     }
   }"

definition link_shell_pdn_events_subscribe :: "('w, 'y) pdn_api_scheme \<Rightarrow> ('w, 'z, unit) pdn_prog" where
  "link_shell_pdn_events_subscribe T = act (lte_lc_register_handler T)"

definition link_shell_pdn_event_forward_cb_set :: "(pdn_evt \<Rightarrow> 'w \<Rightarrow> 'w) option \<Rightarrow> ('w, 'z, int) pdn_prog" where
  "link_shell_pdn_event_forward_cb_set cb =
     (if cb = None then return (- EINVAL)
      else do { modify (\<lambda>s. s\<lparr>lte_lc_event_forward_callback := cb\<rparr>); return 0 })"

definition link_shell_pdn_init :: "('w, 'y) pdn_api_scheme \<Rightarrow> ('w, 'z, unit) pdn_prog" where
  "link_shell_pdn_init T = do {
     link_shell_pdn_events_subscribe T;
     modify (\<lambda>s. s\<lparr>pdn_info_list := []\<rparr>)
   }"

subsection \<open>Contexts and the list\<close>

text \<open>
  What the modem library documents, on a view \<open>ctxs\<close> of the contexts that exist: a successful creation
  gives a new one and writes its identifier, which is no \<open>0xff\<close>; a failed one changes and writes
  nothing; destroying removes the context, or fails, for whatever reason, and leaves it; the other
  operations create and destroy nothing. \<open>refused\<close> names the contexts whose last destruction the
  library refused.
\<close>

definition pdn_kept :: "('w \<Rightarrow> 8 word set) \<Rightarrow> ('w \<Rightarrow> 8 word set) \<Rightarrow> 'w \<Rightarrow> 'w \<Rightarrow> bool" where
  "pdn_kept ctxs refused w w' \<longleftrightarrow> ctxs w' = ctxs w \<and> refused w' = refused w"

definition pdn_contract :: "('w, 'y) pdn_api_scheme \<Rightarrow> ('w \<Rightarrow> 8 word set) \<Rightarrow> ('w \<Rightarrow> 8 word set) \<Rightarrow> bool" where
  "pdn_contract T ctxs refused \<longleftrightarrow>
     (\<forall>w ret v w'. lte_lc_pdn_ctx_create T w = ((ret, v), w') \<longrightarrow>
        (if ret = 0 then \<exists>c. v = Some c \<and> c \<noteq> -1 \<and> c \<notin> ctxs w \<and> ctxs w' = insert c (ctxs w) \<and>
           refused w' = refused w - {c}
         else v = None \<and> ctxs w' = ctxs w \<and> refused w' = refused w)) \<and>
     (\<forall>c w ret w'. lte_lc_pdn_ctx_destroy T c w = (ret, w') \<longrightarrow>
        (if ret = 0 then ctxs w' = ctxs w - {c} \<and> refused w' = refused w - {c}
         else ctxs w' = ctxs w \<and> refused w' = insert c (refused w))) \<and>
     (\<forall>c a f w. pdn_kept ctxs refused w (snd (lte_lc_pdn_ctx_configure T c a f w))) \<and>
     (\<forall>c m u p w. pdn_kept ctxs refused w (snd (lte_lc_pdn_ctx_auth_set T c m u p w))) \<and>
     (\<forall>c w. pdn_kept ctxs refused w (snd (lte_lc_pdn_activate T c w))) \<and>
     (\<forall>c w. pdn_kept ctxs refused w (snd (lte_lc_pdn_deactivate T c w))) \<and>
     (\<forall>c w. pdn_kept ctxs refused w (snd (lte_lc_pdn_id_get T c w))) \<and>
     (\<forall>w. pdn_kept ctxs refused w (snd (k_calloc T w)))"

definition pdn_sorted :: "link_shell_pdn_info list \<Rightarrow> bool" where
  "pdn_sorted l \<longleftrightarrow> sorted_wrt (\<lambda>a b. cid a < cid b) l"

text \<open>
  Unless the program has stopped, every context in the list exists, and every context that exists is
  in the list or could not be destroyed.
\<close>

definition pdn_inv :: "('w \<Rightarrow> 8 word set) \<Rightarrow> ('w \<Rightarrow> 8 word set) \<Rightarrow> ('w, 'z) pdn_scheme \<Rightarrow> bool" where
  "pdn_inv ctxs refused s \<longleftrightarrow> pdn_sorted (pdn_info_list s) \<and>
     (aborted s \<or> cid ` set (pdn_info_list s) \<subseteq> ctxs (world s) \<and>
        ctxs (world s) \<subseteq> cid ` set (pdn_info_list s) \<union> refused (world s) \<and> -1 \<notin> ctxs (world s))"

lemma set_pdn_insert [simp]: "set (pdn_insert x l) = insert x (set l)"
  by (induction x l rule: pdn_insert.induct) auto

lemma pdn_sorted_insert: "pdn_sorted l \<Longrightarrow> cid x \<notin> cid ` set l \<Longrightarrow> pdn_sorted (pdn_insert x l)"
  by (induction x l rule: pdn_insert.induct) (auto simp: pdn_sorted_def)

lemma pdn_sorted_remove1: "pdn_sorted l \<Longrightarrow> pdn_sorted (remove1 i l)"
  unfolding pdn_sorted_def by (induction l) (auto dest: in_set_remove1 set_remove1_subset [THEN subsetD])

lemma pdn_sorted_cid: "pdn_sorted l \<Longrightarrow> a \<in> set l \<Longrightarrow> b \<in> set l \<Longrightarrow> cid a = cid b \<Longrightarrow> a = b"
  unfolding pdn_sorted_def by (induction l) auto

lemma cid_remove1:
  assumes "pdn_sorted l" "i \<in> set l"
  shows "cid ` set (remove1 i l) = cid ` set l - {cid i}"
proof -
  have "distinct l" using assms(1) unfolding pdn_sorted_def by (induction l) auto
  then show ?thesis using assms pdn_sorted_cid [OF assms(1)] by auto
qed

lemma find_cid: "find (\<lambda>i. cid i = c) l = None \<longleftrightarrow> c \<notin> cid ` set l"
  by (auto simp: find_None_iff)

lemma pdn_print_frame [simp]:
  fixes s :: "('w, 'z) pdn_scheme"
  shows "world (exec_state (mosh_print P f a) s) = world s" "world (exec_state (mosh_error P f a) s) = world s"
    "world (exec_state (link_shell_map_to_string P tbl m) s) = world s"
    "pdn_info_list (exec_state (mosh_print P f a) s) = pdn_info_list s"
    "pdn_info_list (exec_state (mosh_error P f a) s) = pdn_info_list s"
    "pdn_info_list (exec_state (link_shell_map_to_string P tbl m) s) = pdn_info_list s"
    "aborted (exec_state (mosh_print P f a) s) = aborted s" "aborted (exec_state (mosh_error P f a) s) = aborted s"
    "aborted (exec_state (link_shell_map_to_string P tbl m) s) = aborted s"
  by (rule keepsD, intro keeps_intros; simp)+

text \<open>The part of the state the list and the modem are about.\<close>

definition pdn_core :: "('w, 'z) pdn_scheme \<Rightarrow> 'w \<times> link_shell_pdn_info list \<times> bool" where
  "pdn_core s = (world s, pdn_info_list s, aborted s)"

lemma pdn_core_cong: "pdn_core s = pdn_core t \<Longrightarrow> pdn_inv ctxs refused s = pdn_inv ctxs refused t"
  by (simp add: pdn_core_def pdn_inv_def)

lemma cleanup_run:
  "pdn_core (exec_state (cleanup_and_fail T c ret) s) = (snd (lte_lc_pdn_ctx_destroy T c (world s)), pdn_info_list s, aborted s)"
  "result (cleanup_and_fail T c ret) s = ret"
proof -
  have "uint c \<noteq> -1" using uint_ge_0 [of c] by linarith
  then show "pdn_core (exec_state (cleanup_and_fail T c ret) s)
      = (snd (lte_lc_pdn_ctx_destroy T c (world s)), pdn_info_list s, aborted s)"
    "result (cleanup_and_fail T c ret) s = ret"
    by (simp_all add: cleanup_and_fail_def exec_simps pdn_core_def)
qed

lemma activate_run:
  "pdn_core (exec_state (link_shell_pdn_activate T c) s) = (snd (lte_lc_pdn_activate T c (world s)), pdn_info_list s, aborted s)"
  "result (link_shell_pdn_activate T c) s = fst (fst (lte_lc_pdn_activate T c (world s)))"
  by (simp_all add: link_shell_pdn_activate_def exec_simps pdn_core_def)

lemma family_run:
  fixes s :: "('w, 'z) pdn_scheme"
  shows "pdn_core (exec_state (link_family_str_to_pdn_lib_family T f) s) = pdn_core s"
  by (cases f) (simp_all add: link_family_str_to_pdn_lib_family_def exec_simps pdn_core_def)

lemma list_add_run:
  "pdn_core (exec_state (link_shell_pdn_info_list_add T n c) s) =
    (if c \<in> cid ` set (pdn_info_list s) then pdn_core s
     else case k_calloc T (world s) of (ok, w) \<Rightarrow>
       (w, if ok then pdn_insert \<lparr>pdn_id = n, cid = c\<rparr> (pdn_info_list s) else pdn_info_list s, aborted s \<or> \<not> ok))"
proof (cases "find (\<lambda>i. cid i = c) (pdn_info_list s)")
  case None
  then show ?thesis
    unfolding find_cid by (simp add: link_shell_pdn_info_list_add_def exec_simps find_cid [THEN iffD2] pdn_core_def abort_def
        Let_def split: prod.split)
next
  case (Some i)
  then have "c \<in> cid ` set (pdn_info_list s)"
    by (auto simp: find_Some_iff)
  then show ?thesis
    using Some by (simp add: link_shell_pdn_info_list_add_def exec_simps)
qed

lemma list_remove_run:
  assumes "pdn_sorted (pdn_info_list s)"
  shows "\<exists>l. pdn_core (exec_state (link_shell_pdn_info_list_remove c) s) = (world s, l, aborted s) \<and> pdn_sorted l \<and>
    cid ` set l = cid ` set (pdn_info_list s) - {c}"
proof (cases "find (\<lambda>i. cid i = c) (pdn_info_list s)")
  case None
  then show ?thesis
    using assms unfolding find_cid
    by (intro exI [of _ "pdn_info_list s"])
      (simp add: link_shell_pdn_info_list_remove_def link_shell_pdn_info_list_find_def exec_simps pdn_core_def
        find_cid [THEN iffD2])
next
  case (Some i)
  then have "i \<in> set (pdn_info_list s)" "cid i = c"
    by (auto simp: find_Some_iff)
  then show ?thesis
    using assms Some cid_remove1 [OF assms] pdn_sorted_remove1 [OF assms]
    by (intro exI [of _ "remove1 i (pdn_info_list s)"])
      (simp add: link_shell_pdn_info_list_remove_def link_shell_pdn_info_list_find_def exec_simps pdn_core_def)
qed

lemma pdn_contractD:
  assumes "pdn_contract T ctxs refused"
  shows "ctxs (snd (lte_lc_pdn_ctx_configure T c a f w)) = ctxs w \<and> refused (snd (lte_lc_pdn_ctx_configure T c a f w)) = refused w"
    "ctxs (snd (lte_lc_pdn_ctx_auth_set T c m u p w)) = ctxs w \<and> refused (snd (lte_lc_pdn_ctx_auth_set T c m u p w)) = refused w"
    "ctxs (snd (lte_lc_pdn_activate T c w)) = ctxs w \<and> refused (snd (lte_lc_pdn_activate T c w)) = refused w"
    "ctxs (snd (lte_lc_pdn_deactivate T c w)) = ctxs w \<and> refused (snd (lte_lc_pdn_deactivate T c w)) = refused w"
    "ctxs (snd (lte_lc_pdn_id_get T c w)) = ctxs w \<and> refused (snd (lte_lc_pdn_id_get T c w)) = refused w"
    "ctxs (snd (k_calloc T w)) = ctxs w \<and> refused (snd (k_calloc T w)) = refused w"
  using assms [unfolded pdn_contract_def, THEN conjunct2, THEN conjunct2] by (simp_all add: pdn_kept_def)

lemma pdn_destroyD:
  assumes "pdn_contract T ctxs refused" "lte_lc_pdn_ctx_destroy T c w = (ret, w')"
  shows "if ret = 0 then ctxs w' = ctxs w - {c} \<and> refused w' = refused w - {c}
    else ctxs w' = ctxs w \<and> refused w' = insert c (refused w)"
  using assms(1) [unfolded pdn_contract_def, THEN conjunct2, THEN conjunct1, rule_format, OF assms(2)] .

text \<open>While a new context is not yet in the list.\<close>

definition pdn_pending :: "('w \<Rightarrow> 8 word set) \<Rightarrow> ('w \<Rightarrow> 8 word set) \<Rightarrow> 8 word \<Rightarrow> ('w, 'z) pdn_scheme \<Rightarrow> bool" where
  "pdn_pending ctxs refused c s \<longleftrightarrow> pdn_sorted (pdn_info_list s) \<and>
     (aborted s \<or> c \<noteq> -1 \<and> c \<notin> cid ` set (pdn_info_list s) \<and> c \<in> ctxs (world s) \<and>
        cid ` set (pdn_info_list s) \<subseteq> ctxs (world s) \<and>
        ctxs (world s) \<subseteq> insert c (cid ` set (pdn_info_list s) \<union> refused (world s)) \<and> -1 \<notin> ctxs (world s))"

lemma pdn_pending_cong: "pdn_core s = pdn_core t \<Longrightarrow> pdn_pending ctxs refused c s = pdn_pending ctxs refused c t"
  by (simp add: pdn_core_def pdn_pending_def)

lemma keeps_pdn_core [keeps_intros]: "keeps pdn_core (mosh_print P f a)" "keeps pdn_core (mosh_error P f a)"
  by (simp_all add: keeps_def pdn_core_def)

text \<open>An error message keeps the condition.\<close>

lemmas pending_print = valid_keeps [OF pdn_pending_cong keeps_pdn_core(1)] valid_keeps [OF pdn_pending_cong keeps_pdn_core(2)]
lemmas inv_print = valid_keeps [OF pdn_core_cong keeps_pdn_core(1)] valid_keeps [OF pdn_core_cong keeps_pdn_core(2)]

lemma cleanup_pending:
  assumes "pdn_contract T ctxs refused"
  shows "valid (pdn_pending ctxs refused c) (cleanup_and_fail T c ret) (\<lambda>_. pdn_inv ctxs refused)"
proof (rule validI)
  fix s assume s: "pdn_pending ctxs refused c s"
  obtain r w where d: "lte_lc_pdn_ctx_destroy T c (world s) = (r, w)" by fastforce
  show "pdn_inv ctxs refused (exec_state (cleanup_and_fail T c ret) s)"
    using s cleanup_run(1) [of T c ret s] pdn_destroyD [OF assms d]
    unfolding pdn_core_def pdn_inv_def pdn_pending_def d by (auto split: if_splits)
qed

lemma cleanup_none:
  assumes "pdn_contract T ctxs refused"
  shows "valid (pdn_inv ctxs refused) (cleanup_and_fail T (-1) ret) (\<lambda>_. pdn_inv ctxs refused)"
proof (rule validI)
  fix s assume s: "pdn_inv ctxs refused s"
  obtain r w where d: "lte_lc_pdn_ctx_destroy T (-1) (world s) = (r, w)" by fastforce
  show "pdn_inv ctxs refused (exec_state (cleanup_and_fail T (-1) ret) s)"
    using s cleanup_run(1) [of T "-1" ret s] pdn_destroyD [OF assms d]
    unfolding pdn_core_def pdn_inv_def d by (auto split: if_splits)
qed

lemma add_pending:
  assumes "pdn_contract T ctxs refused"
  shows "valid (pdn_pending ctxs refused c) (link_shell_pdn_info_list_add T n c) (\<lambda>_. pdn_inv ctxs refused)"
proof (rule validI)
  fix s assume s: "pdn_pending ctxs refused c s"
  obtain ok w where k: "k_calloc T (world s) = (ok, w)" by fastforce
  have w: "ctxs w = ctxs (world s)" "refused w = refused (world s)"
    using pdn_contractD(6) [OF assms, of "world s"] k by simp_all
  show "pdn_inv ctxs refused (exec_state (link_shell_pdn_info_list_add T n c) s)"
    using s list_add_run [of T n c s] k w
    by (auto simp: pdn_core_def pdn_inv_def pdn_pending_def pdn_sorted_insert split: if_splits)
qed

text \<open>A call of the modem that creates and destroys nothing.\<close>

lemma snd_call: "(\<And>w. f (snd (g w)) = f w) \<Longrightarrow> g v = (a, w) \<Longrightarrow> f w = f v"
  by (metis snd_conv)

lemma pending_call:
  assumes "\<And>w. ctxs (snd (g w)) = ctxs w \<and> refused (snd (g w)) = refused w"
  shows "valid (pdn_pending ctxs refused c) (call g :: ('w, 'z, 'b) pdn_prog) (\<lambda>_. pdn_pending ctxs refused c)"
    "valid (pdn_inv ctxs refused) (call g :: ('w, 'z, 'b) pdn_prog) (\<lambda>_. pdn_inv ctxs refused)"
proof (rule_tac [!] valid_call)
  fix s :: "('w, 'z) pdn_scheme" and a w assume g: "g (world s) = (a, w)"
  have w: "ctxs w = ctxs (world s)" "refused w = refused (world s)"
    using assms [of "world s"] g by simp_all
  show "pdn_pending ctxs refused c s \<Longrightarrow> pdn_pending ctxs refused c (s\<lparr>world := w\<rparr>)"
    "pdn_inv ctxs refused s \<Longrightarrow> pdn_inv ctxs refused (s\<lparr>world := w\<rparr>)"
    by (simp_all add: pdn_pending_def pdn_inv_def w)
qed

lemma activate_pending:
  assumes "pdn_contract T ctxs refused"
  shows "valid (pdn_pending ctxs refused c) (link_shell_pdn_activate T c') (\<lambda>_. pdn_pending ctxs refused c)"
  unfolding link_shell_pdn_activate_def
  by (rule valid_same, rule pending_call(1), simp add: pdn_contractD [OF assms])
    (auto simp: case_prod_unfold intro!: valid_same valid_doif pending_print valid_return)

lemma family_pending: "valid (pdn_pending ctxs refused c) (link_family_str_to_pdn_lib_family T f) (\<lambda>_. pdn_pending ctxs refused c)"
  by (rule validI) (use pdn_pending_cong [OF family_run] in blast)

lemma create_pending:
  assumes "pdn_contract T ctxs refused"
  shows "valid (pdn_inv ctxs refused) (call (lte_lc_pdn_ctx_create T) :: ('w, 'z, _) pdn_prog)
    (\<lambda>(ret, v) s. if ret = 0 then (case v of Some c \<Rightarrow> pdn_pending ctxs refused c s | None \<Rightarrow> False)
       else v = None \<and> pdn_inv ctxs refused s)" (is "valid _ _ ?Q")
proof (rule valid_call)
  fix s :: "('w, 'z) pdn_scheme" and a w
  assume s: "pdn_inv ctxs refused s" and c: "lte_lc_pdn_ctx_create T (world s) = (a, w)"
  obtain ret v where a: "a = (ret, v)" by (cases a)
  have "if ret = 0 then \<exists>c. v = Some c \<and> c \<noteq> -1 \<and> c \<notin> ctxs (world s) \<and> ctxs w = insert c (ctxs (world s)) \<and>
        refused w = refused (world s) - {c}
      else v = None \<and> ctxs w = ctxs (world s) \<and> refused w = refused (world s)"
    using assms [unfolded pdn_contract_def, THEN conjunct1, rule_format, of "world s" ret v w] c a by blast
  then show "?Q a (s\<lparr>world := w\<rparr>)"
    using s a by (auto simp: pdn_inv_def pdn_pending_def subset_iff) blast
qed

lemma auth_pending:
  assumes "pdn_contract T ctxs refused"
  shows "valid (pdn_pending ctxs refused c) (case u of None \<Rightarrow> return 0
    | Some a \<Rightarrow> call (lte_lc_pdn_ctx_auth_set T c' (auth_method a) (auth_user a) (auth_password a))) (\<lambda>_. pdn_pending ctxs refused c)"
  by (auto intro!: valid_option valid_return pending_call(1) simp: pdn_contractD [OF assms])

lemma valid_False: "(\<And>s. \<not> P s) \<Longrightarrow> valid P p Q"
  by (simp add: valid_def)

lemma connect_inv:
  assumes T: "pdn_contract T ctxs refused"
  shows "valid (pdn_inv ctxs refused) (link_shell_pdn_connect T a f u) (\<lambda>_. pdn_inv ctxs refused)"
  unfolding link_shell_pdn_connect_def
proof (rule valid_bind [OF create_pending [OF T]], unfold split_paired_all prod.case Let_def, goal_cases)
  case (1 ret v)
  note law = pdn_contractD [OF T]
  show ?case
  proof (cases "ret = 0")
    case False
    have none: "valid (\<lambda>s. v = None \<and> pdn_inv ctxs refused s) (do { mosh_error T fmt args; cleanup_and_fail T
        (case v of Some v \<Rightarrow> v | None \<Rightarrow> -1) ret }) (\<lambda>_. pdn_inv ctxs refused)" for fmt args
      by (cases v) (simp_all add: valid_False valid_same [OF inv_print(2) cleanup_none [OF T]])
    show ?thesis using False none by simp
  next
    case True
    show ?thesis
    proof (cases v)
      case None
      then show ?thesis using True by (simp add: valid_False)
    next
      case (Some c)
      show ?thesis
        unfolding Some option.case using True
        by (auto intro!: valid_same [OF auth_pending [OF T]] valid_same [OF family_pending] valid_sum valid_if valid_option
            valid_same [OF pending_print(2)] valid_same [OF pending_call(1)] cleanup_pending [OF T]
            valid_same [OF activate_pending [OF T]] valid_bind [OF add_pending [OF T]]
            valid_same [OF inv_print(1)] valid_return simp: law)
    qed
  qed
qed


text \<open>After the context of a listed entry is gone, until the entry goes.\<close>

definition pdn_gone :: "('w \<Rightarrow> 8 word set) \<Rightarrow> ('w \<Rightarrow> 8 word set) \<Rightarrow> 8 word \<Rightarrow> ('w, 'z) pdn_scheme \<Rightarrow> bool" where
  "pdn_gone ctxs refused c s \<longleftrightarrow> pdn_sorted (pdn_info_list s) \<and>
     (aborted s \<or> c \<notin> ctxs (world s) \<and> cid ` set (pdn_info_list s) - {c} \<subseteq> ctxs (world s) \<and>
        ctxs (world s) \<subseteq> cid ` set (pdn_info_list s) \<union> refused (world s) \<and> -1 \<notin> ctxs (world s))"

lemma remove_inv: "valid (pdn_gone ctxs refused c) (link_shell_pdn_info_list_remove c) (\<lambda>_. pdn_inv ctxs refused)"
proof (rule validI)
  fix s :: "('a, 'b) pdn_scheme" assume s: "pdn_gone ctxs refused c s"
  then have "pdn_sorted (pdn_info_list s)" by (simp add: pdn_gone_def)
  from list_remove_run [OF this, of c] s
  show "pdn_inv ctxs refused (exec_state (link_shell_pdn_info_list_remove c) s)"
    by (auto simp: pdn_core_def pdn_inv_def pdn_gone_def)
qed

lemma destroy_inv:
  assumes T: "pdn_contract T ctxs refused"
  shows "valid (pdn_inv ctxs refused) (call (lte_lc_pdn_ctx_destroy T c) :: ('w, 'z, _) pdn_prog)
    (\<lambda>ret s. if ret = 0 then pdn_gone ctxs refused c s else pdn_inv ctxs refused s)"
proof (rule valid_call)
  fix s :: "('w, 'z) pdn_scheme" and ret w
  assume s: "pdn_inv ctxs refused s" and d: "lte_lc_pdn_ctx_destroy T c (world s) = (ret, w)"
  show "if ret = 0 then pdn_gone ctxs refused c (s\<lparr>world := w\<rparr>) else pdn_inv ctxs refused (s\<lparr>world := w\<rparr>)"
    using s pdn_destroyD [OF T d] by (auto simp: pdn_inv_def pdn_gone_def)
qed

lemma disconnect_inv:
  assumes T: "pdn_contract T ctxs refused"
  shows "valid (pdn_inv ctxs refused) (link_shell_pdn_disconnect T c) (\<lambda>_. pdn_inv ctxs refused)"
  unfolding link_shell_pdn_disconnect_def
  by (auto intro!: valid_same [OF pending_call(2)] valid_same [OF valid_doif [OF inv_print(2)]]
      valid_bind [OF destroy_inv [OF T]] valid_if valid_same [OF inv_print(2)] valid_bind [OF remove_inv]
      valid_same [OF inv_print(1)] valid_return simp: pdn_contractD [OF T])

datatype pdn_event =
    Connect string "string option" "link_shell_pdn_auth option"
  | Disconnect int

definition pdn_step :: "('w, 'y) pdn_api_scheme \<Rightarrow> ('w, 'z) pdn_scheme \<Rightarrow> pdn_event \<Rightarrow> ('w, 'z) pdn_scheme" where
  "pdn_step T s e = (case e of
     Connect apn fam auth \<Rightarrow> exec_state (link_shell_pdn_connect T apn fam auth) s
   | Disconnect c \<Rightarrow> exec_state (link_shell_pdn_disconnect T c) s)"


text \<open>
  A modem with the contexts 1, 2 and 3, where the world is the list of those that exist and the list
  of those it refused to destroy; it always refuses to destroy context 2.
\<close>

definition test_pdn :: "(8 word list \<times> 8 word list) pdn_api" where
  "test_pdn = \<lparr>clock_utc = (\<lambda>_. clock_utc plain_print ()), vsnprintfcb = vsnprintfcb plain_print,
     settings_subsys_init = (\<lambda>w. (0, w)), settings_register = (\<lambda>_ w. (0, w)),
     settings_save_one = (\<lambda>_ _ w. (0, w)), lc = (\<lambda>n. int (length n)),
     seconds_text = (\<lambda>_. ''1.00''), nrf_modem_at_printf = (\<lambda>_ _ w. (0, w)),
     lte_lc_pdn_ctx_create = (\<lambda>(w, r). case find (\<lambda>c. c \<notin> set w) [1, 2, 3] of
       Some c \<Rightarrow> ((0, Some c), (c # w, removeAll c r)) | None \<Rightarrow> ((- ENOMEM, None), (w, r))),
     lte_lc_pdn_ctx_configure = (\<lambda>_ apn _ w. (if apn = [] then - EINVAL else 0, w)),
     lte_lc_pdn_ctx_auth_set = (\<lambda>_ m _ _ w. (if m > 2 then - EINVAL else 0, w)),
     lte_lc_pdn_ctx_destroy = (\<lambda>c (w, r). if c \<in> set w \<and> c \<noteq> 2 then (0, (removeAll c w, removeAll c r))
       else (- EINVAL, (w, c # r))),
     lte_lc_pdn_activate = (\<lambda>_ w. ((0, 0), w)), lte_lc_pdn_deactivate = (\<lambda>_ w. (0, w)),
     lte_lc_pdn_id_get = (\<lambda>c w. (uint c, w)), lte_lc_pdn_esm_strerror = (\<lambda>_. ''error''),
     lte_lc_register_handler = (\<lambda>w. w), k_calloc = (\<lambda>w. (True, w)), ppp_ctrl_default_pdn_active = (\<lambda>_ w. w)\<rparr>"

lemma test_pdn: "pdn_contract test_pdn (\<lambda>w. set (fst w)) (\<lambda>w. set (snd w))"
proof -
  have c: "if ret = 0 then \<exists>c. v = Some c \<and> c \<noteq> -1 \<and> c \<notin> set (fst w) \<and> set (fst w') = insert c (set (fst w)) \<and>
      set (snd w') = set (snd w) - {c}
    else v = None \<and> set (fst w') = set (fst w) \<and> set (snd w') = set (snd w)"
    if "lte_lc_pdn_ctx_create test_pdn w = ((ret, v), w')" for w ret v w'
    using that by (cases w) (auto simp: test_pdn_def ENOMEM_def split: if_splits)
  show ?thesis
    unfolding pdn_contract_def
    by (intro conjI allI impI; (rule c, assumption)?; auto simp: test_pdn_def EINVAL_def pdn_kept_def split: if_splits)
qed

definition pdn_boot :: "'w \<Rightarrow> 'w pdn" where
  "pdn_boot w = link.extend (link_boot w (link_sett_ram_data_init test_link)) (pdn.fields [] None)"

lemma world_pdn_boot: "world (pdn_boot w) = w"
  by (simp add: pdn_boot_def link.defs pdn.defs link_boot_def startup.defs startup_boot_def startup_ram_init_def)


subsection \<open>The default PDN\<close>

definition startup_part :: "('w, 'z) pdn_scheme \<Rightarrow> int \<times> string \<times> string \<times> string \<times> bool \<times> 8 word \<times> int option" where
  "startup_part s = (starttime s, cmd1_str s, cmd2_str s, cmd3_str s, running s, running_mem_slot s, work_delay s)"

lemma pdn_more_frame [simp]:
  fixes s :: "('w, 'z) pdn_scheme"
  shows "startup_part (exec_state (mosh_print P f a) s) = startup_part s"
    "startup_part (exec_state (link_shell_map_to_string P tbl m) s) = startup_part s"
    "link_settings (exec_state (mosh_print P f a) s) = link_settings s"
    "link_settings (exec_state (link_shell_map_to_string P tbl m) s) = link_settings s"
    "lte_lc_event_forward_callback (exec_state (mosh_print P f a) s) = lte_lc_event_forward_callback s"
    "lte_lc_event_forward_callback (exec_state (link_shell_map_to_string P tbl m) s) = lte_lc_event_forward_callback s"
  by (rule keepsD, intro keeps_intros; simp add: startup_part_def)+

lemma startup_part_world [simp]: "startup_part (s\<lparr>world := w\<rparr>) = startup_part s"
  by (simp add: startup_part_def)

lemma default_pdn_active_frame [simp]:
  fixes s :: "('w, 'z) pdn_scheme"
  shows "world (exec_state startup_cmd_ctrl_default_pdn_active s) = world s"
    "pdn_info_list (exec_state startup_cmd_ctrl_default_pdn_active s) = pdn_info_list s"
    "link_settings (exec_state startup_cmd_ctrl_default_pdn_active s) = link_settings s"
    "lte_lc_event_forward_callback (exec_state startup_cmd_ctrl_default_pdn_active s) = lte_lc_event_forward_callback s"
  by (simp_all add: startup_cmd_ctrl_default_pdn_active_def k_work_schedule_def exec_simps)

lemma default_pdn_active_cong:
  fixes s t :: "('w, 'z) pdn_scheme"
  shows "startup_part s = startup_part t \<Longrightarrow> startup_part (exec_state startup_cmd_ctrl_default_pdn_active s)
    = startup_part (exec_state startup_cmd_ctrl_default_pdn_active t)"
  by (auto simp: startup_part_def startup_cmd_ctrl_default_pdn_active_def k_work_schedule_def exec_simps
      startup_cmd_can_be_started_def startup_cmd_settings_enabled_def)

lemma default_pdn_active_print:
  fixes s :: "('w, 'z) pdn_scheme"
  shows "startup_part (exec_state startup_cmd_ctrl_default_pdn_active
      (exec_state (mosh_print P f a) (exec_state (link_shell_map_to_string P tbl m) s)))
    = startup_part (exec_state startup_cmd_ctrl_default_pdn_active s)"
  by (rule default_pdn_active_cong) simp

text \<open>
  What a PDN event does: an event of the default PDN (context 0) that says it is active starts the
  start-up commands as \<open>startup_cmd_ctrl.c\<close> decides and tells PPP it is up; one that says it is down or
  the network is gone tells PPP it is down; no other event, and no event of another context, does either.
  In every case the event is then passed to the registered callback, if there is one, and no settings or
  contexts change.
\<close>

theorem pdn_event_effects:
  "let t = exec_state (link_pdn_event_handler T evt) s;
     dflt = (evt_type evt = lc T ''LTE_LC_EVT_PDN'' \<and> pdn_type evt \<noteq> lc T ''LTE_LC_EVT_PDN_ESM_ERROR'' \<and> pdn_cid evt = 0);
     up = (dflt \<and> pdn_type evt = lc T ''LTE_LC_EVT_PDN_ACTIVATED'');
     down = (dflt \<and> \<not> up \<and> pdn_type evt \<in> {lc T ''LTE_LC_EVT_PDN_DEACTIVATED'', lc T ''LTE_LC_EVT_PDN_NETWORK_DETACH''});
     w = (if up then ppp_ctrl_default_pdn_active T True (world s)
          else if down then ppp_ctrl_default_pdn_active T False (world s) else world s)
   in startup_part t = startup_part (if up then exec_state startup_cmd_ctrl_default_pdn_active s else s) \<and>
      world t = (case lte_lc_event_forward_callback s of None \<Rightarrow> w | Some f \<Rightarrow> f evt w) \<and>
      pdn_info_list t = pdn_info_list s \<and> link_settings t = link_settings s"
proof -
  let ?a = "pdn_type evt = lc T ''LTE_LC_EVT_PDN_ACTIVATED''"
  let ?cb = "lte_lc_event_forward_callback s"
  note run = link_pdn_event_handler_def link_pdn_event_to_string_def exec_simps Let_def default_pdn_active_print
  consider "evt_type evt \<noteq> lc T ''LTE_LC_EVT_PDN''" | "pdn_type evt = lc T ''LTE_LC_EVT_PDN_ESM_ERROR''" | "pdn_cid evt \<noteq> 0"
    | "evt_type evt = lc T ''LTE_LC_EVT_PDN''" "pdn_type evt \<noteq> lc T ''LTE_LC_EVT_PDN_ESM_ERROR''" "pdn_cid evt = 0"
    by blast
  then show ?thesis
  proof cases
    case 4
    then show ?thesis
      by (cases ?a; cases ?cb) (simp_all add: run)
  qed (cases ?cb; simp add: run)+
qed

end
