(* ===== verification/Mosh_Gpio.thy ===== *)
theory Mosh_Gpio
  imports Mosh_Print
begin

section \<open>GPIO pulse counting (\<open>gpio_count\<close>)\<close>

text \<open>
  One pin at a time can be watched; its interrupt handler counts the edges at which the pin is high
  (\<open>gpio_count.c\<close>). The GPIO driver of Zephyr is a parameter. The command is \<open>gpio_count_shell.c\<close>.
\<close>

record 'w gpio = "'w mosh" +
  gpio_callback_pin_mask :: "32 word"
  gpio_pulse_count :: "32 word"
  gpio_pin :: "32 word"

type_synonym ('w, 'z, 'a) gpio_prog = "(('w, 'z) gpio_scheme, 'a) prog"

record 'w gpio_api = "'w print_api" +
  gpio_pin_get :: "32 word \<Rightarrow> 'w \<Rightarrow> int \<times> 'w"
  gpio_pin_configure :: "32 word \<Rightarrow> 'w \<Rightarrow> int \<times> 'w"
  gpio_pin_interrupt_configure :: "32 word \<Rightarrow> 'w \<Rightarrow> int \<times> 'w"
  gpio_add_callback :: "'w \<Rightarrow> int \<times> 'w"
  gpio_remove_callback :: "'w \<Rightarrow> int \<times> 'w"
  GPIO_MAX_PINS_PER_PORT :: int

definition GPIO_PIN_INVALID :: "32 word" where "GPIO_PIN_INVALID = -1"

definition gpio_handler :: "('w, 'y) gpio_api_scheme \<Rightarrow> 32 word \<Rightarrow> ('w, 'z, unit) gpio_prog" where
  "gpio_handler T pins = do {
     pin \<leftarrow> gets gpio_pin;
     mask \<leftarrow> gets gpio_callback_pin_mask;
     if pin = GPIO_PIN_INVALID \<or> pins \<noteq> mask then return ()
     else do {
       v \<leftarrow> call (gpio_pin_get T pin);
       doif (v \<noteq> 0) (modify (\<lambda>s. s\<lparr>gpio_pulse_count := gpio_pulse_count s + 1\<rparr>))
     }
   }"

definition gpio_count_enable :: "('w, 'y) gpio_api_scheme \<Rightarrow> 8 word \<Rightarrow> ('w, 'z, int) gpio_prog" where
  "gpio_count_enable T pin = do {
     p \<leftarrow> gets gpio_pin;
     if p \<noteq> GPIO_PIN_INVALID then do {
       mosh_error T ''GPIO pin pulse counting already enabled'' [];
       return (- ENOEXEC)
     } else do {
       modify (\<lambda>s. s\<lparr>gpio_pin := ucast pin, gpio_pulse_count := 0\<rparr>);
       err \<leftarrow> call (gpio_pin_configure T (ucast pin));
       if err \<noteq> 0 then do {
         mosh_error T (''Failed to configure GPIO pin, error: %d'' @ [CHR 0x0A]) [PInt err];
         return (- ENOEXEC)
       } else do {
         err \<leftarrow> call (gpio_pin_interrupt_configure T (ucast pin));
         if err \<noteq> 0 then do {
           mosh_error T (''Failed to configure GPIO pin interrupt, error: %d'' @ [CHR 0x0A]) [PInt err];
           return (- ENOEXEC)
         } else do {
           modify (\<lambda>s. s\<lparr>gpio_callback_pin_mask := push_bit (unat pin) 1\<rparr>);
           err \<leftarrow> call (gpio_add_callback T);
           if err \<noteq> 0 then do {
             mosh_error T (''Failed to add GPIO callback, error: %d'' @ [CHR 0x0A]) [PInt err];
             return (- ENOEXEC)
           } else return 0
         }
       }
     }
   }"

definition gpio_count_disable :: "('w, 'y) gpio_api_scheme \<Rightarrow> ('w, 'z, int) gpio_prog" where
  "gpio_count_disable T = do {
     p \<leftarrow> gets gpio_pin;
     if p = GPIO_PIN_INVALID then do {
       mosh_error T ''GPIO pin pulse counting not enabled'' [];
       return (- ENOEXEC)
     } else do {
       err \<leftarrow> call (gpio_remove_callback T);
       doif (err \<noteq> 0) (mosh_error T ''Failed to remove GPIO callback, error: %d'' [PInt err]);
       modify (\<lambda>s. s\<lparr>gpio_pin := GPIO_PIN_INVALID\<rparr>);
       return 0
     }
   }"

definition gpio_count_get :: "('w, 'z, 32 word) gpio_prog" where
  "gpio_count_get = gets gpio_pulse_count"

definition gpio_count_reset :: "('w, 'z, unit) gpio_prog" where
  "gpio_count_reset = modify (\<lambda>s. s\<lparr>gpio_pulse_count := 0\<rparr>)"

subsection \<open>The command\<close>

definition cmd_gpio_count_enable :: "('w, 'y) gpio_api_scheme \<Rightarrow> string list \<Rightarrow> ('w, 'z, int) gpio_prog" where
  "cmd_gpio_count_enable T argv =
     (let pin = atoi (argv ! 1) in
      if pin < 0 \<or> pin \<ge> GPIO_MAX_PINS_PER_PORT T then do {
        mosh_error T ''Invalid pin value: %d'' [PInt pin];
        return (- EINVAL)
      } else gpio_count_enable T (word_of_int pin))"

definition cmd_gpio_count_disable :: "('w, 'y) gpio_api_scheme \<Rightarrow> ('w, 'z, int) gpio_prog" where
  "cmd_gpio_count_disable T = gpio_count_disable T"

definition cmd_gpio_count_get :: "('w, 'y) print_api_scheme \<Rightarrow> ('w, 'z, int) gpio_prog" where
  "cmd_gpio_count_get P = do {
     n \<leftarrow> gpio_count_get;
     mosh_print P ''Number of pulses: %d'' [PInt (sint n)];
     return 0
   }"

definition cmd_gpio_count_reset :: "('w, 'z, int) gpio_prog" where
  "cmd_gpio_count_reset = do { gpio_count_reset; return 0 }"

subsection \<open>What is counted\<close>

lemma gpio_print_frame [simp]:
  fixes s :: "('w, 'z) gpio_scheme"
  shows "gpio_pin (exec_state (mosh_error P f a) s) = gpio_pin s"
    "gpio_pulse_count (exec_state (mosh_error P f a) s) = gpio_pulse_count s"
    "gpio_callback_pin_mask (exec_state (mosh_error P f a) s) = gpio_callback_pin_mask s"
    "world (exec_state (mosh_error P f a) s) = world s"
  by (rule keepsD, rule keeps_mosh_print; simp)+

lemma ucast_8_32_valid [simp]: "ucast (p :: 8 word) \<noteq> GPIO_PIN_INVALID"
proof
  assume "ucast p = GPIO_PIN_INVALID"
  then have "uint (ucast p :: 32 word) = uint (-1 :: 32 word)" by (simp add: GPIO_PIN_INVALID_def)
  moreover have "uint (-1 :: 32 word) = 2 ^ 32 - 1" by (simp add: unsigned_minus_1_eq_mask mask_eq_exp_minus_1)
  moreover have "uint (ucast p :: 32 word) < 2 ^ 8"
    using uint_lt2p [of p] by (simp add: unsigned_ucast_eq take_bit_eq_mod)
  ultimately show False by simp
qed

text \<open>An edge: the interrupt reports \<open>pins\<close> while the hardware is as \<open>w\<close> says.\<close>

definition gpio_edge :: "('w, 'y) gpio_api_scheme \<Rightarrow> ('w, 'z) gpio_scheme \<Rightarrow> 'w \<times> 32 word \<Rightarrow> ('w, 'z) gpio_scheme" where
  "gpio_edge T s e = exec_state (gpio_handler T (snd e)) (s\<lparr>world := fst e\<rparr>)"

text \<open>The edges the pin is to be counted for: its own, and the pin reads high.\<close>

definition is_pulse :: "('w, 'y) gpio_api_scheme \<Rightarrow> 8 word \<Rightarrow> 'w \<times> 32 word \<Rightarrow> bool" where
  "is_pulse T pin e \<longleftrightarrow> snd e = push_bit (unat pin) 1 \<and> fst (gpio_pin_get T (ucast pin) (fst e)) \<noteq> 0"

definition watching :: "8 word \<Rightarrow> ('w, 'z) gpio_scheme \<Rightarrow> bool" where
  "watching pin s \<longleftrightarrow> gpio_pin s = ucast pin \<and> gpio_callback_pin_mask s = push_bit (unat pin) 1"

lemma gpio_edge_run:
  assumes "watching pin s"
  shows "watching pin (gpio_edge T s e)"
    "gpio_pulse_count (gpio_edge T s e) = gpio_pulse_count s + (if is_pulse T pin e then 1 else 0)"
  using assms by (simp_all add: gpio_edge_def gpio_handler_def is_pulse_def watching_def exec_simps)

lemma gpio_edges_run:
  assumes "watching pin s"
  shows "watching pin (foldl (gpio_edge T) s es) \<and>
    gpio_pulse_count (foldl (gpio_edge T) s es) = gpio_pulse_count s + of_nat (length (filter (is_pulse T pin) es))"
  using assms by (induction es arbitrary: s) (simp_all add: gpio_edge_run)

lemma gpio_enable_run:
  "result (gpio_count_enable T pin) s \<in> {0, - ENOEXEC}"
  "result (gpio_count_enable T pin) s = 0 \<Longrightarrow>
    watching pin (exec_state (gpio_count_enable T pin) s) \<and> gpio_pulse_count (exec_state (gpio_count_enable T pin) s) = 0"
  "gpio_pin (exec_state (gpio_count_enable T pin) s) = (if gpio_pin s = GPIO_PIN_INVALID then ucast pin else gpio_pin s)"
  by (auto simp: gpio_count_enable_def watching_def exec_simps ENOEXEC_def)

text \<open>
  Pulses are counted exactly: after counting was enabled for a pin, whatever edges follow (of any
  pins, at any level), the counter is the number of edges of that pin at which it read high, modulo
  \<open>2\<^sup>3\<^sup>2\<close>; resetting starts from zero again.
\<close>

theorem gpio_pulses_counted:
  assumes "result (gpio_count_enable T pin) s = 0"
  shows "let t = foldl (gpio_edge T) (exec_state (gpio_count_enable T pin) s) es;
             u = foldl (gpio_edge T) (exec_state gpio_count_reset t) es'
    in gpio_pulse_count t = of_nat (length (filter (is_pulse T pin) es)) \<and>
       gpio_pulse_count u = of_nat (length (filter (is_pulse T pin) es'))"
proof -
  let ?t = "foldl (gpio_edge T) (exec_state (gpio_count_enable T pin) s) es"
  note t = gpio_edges_run [OF gpio_enable_run(2) [OF assms, THEN conjunct1], of T es]
  have "watching pin (exec_state gpio_count_reset ?t)"
    using t by (simp add: gpio_count_reset_def exec_simps watching_def)
  from gpio_edges_run [OF this, of T es'] t show ?thesis
    using gpio_enable_run(2) [OF assms] by (simp add: Let_def gpio_count_reset_def exec_simps)
qed

text \<open>A pin whose level is the state of the world.\<close>

definition test_gpio :: "bool gpio_api" where
  "test_gpio = \<lparr>clock_utc = (\<lambda>_. clock_utc plain_print ()), vsnprintfcb = vsnprintfcb plain_print,
     gpio_pin_get = (\<lambda>_ w. (if w then 1 else 0, w)), gpio_pin_configure = (\<lambda>_ w. (0, w)),
     gpio_pin_interrupt_configure = (\<lambda>_ w. (0, w)), gpio_add_callback = (\<lambda>w. (0, w)),
     gpio_remove_callback = (\<lambda>w. (0, w)), GPIO_MAX_PINS_PER_PORT = 32\<rparr>"

definition gpio_boot :: "'w \<Rightarrow> 'w gpio" where
  "gpio_boot w = \<lparr>world = w, at_cmd_mode_dont_print = False, mosh_print_timestamp_use = False,
     mosh_print_cloud_echo = False, console = [], cloud_out = [], aborted = False,
     gpio_callback_pin_mask = 0, gpio_pulse_count = 0, gpio_pin = GPIO_PIN_INVALID\<rparr>"

theorem gpio_pulses_counted_witness:
  "gpio_pulse_count (foldl (gpio_edge test_gpio) (exec_state (gpio_count_enable test_gpio 5) (gpio_boot False))
     [(True, 32), (False, 32), (True, 16), (True, 32)]) = 2"
proof -
  have e: "result (gpio_count_enable test_gpio 5) (gpio_boot False) = 0"
    by (simp add: gpio_count_enable_def exec_simps test_gpio_def gpio_boot_def)
  have p: "is_pulse test_gpio 5 (w, m) \<longleftrightarrow> m = 32 \<and> w" for w m
    by (simp add: is_pulse_def test_gpio_def push_bit_eq_mult)
  show ?thesis
    using gpio_pulses_counted [OF e, where es = "[(True, 32), (False, 32), (True, 16), (True, 32)]"]
    by (simp add: Let_def p)
qed

text \<open>
  Once enabling was tried, even if it failed, another attempt is refused until counting is disabled:
  the pin is stored before the hardware is set up and not cleared on an error.
\<close>

lemma gpio_failed_enable_blocks:
  "result (gpio_count_enable T pin') (exec_state (gpio_count_enable T pin) s) = - ENOEXEC"
proof -
  have "gpio_pin (exec_state (gpio_count_enable T pin) s) \<noteq> GPIO_PIN_INVALID"
    by (simp add: gpio_enable_run(3))
  then show ?thesis
    by (simp add: gpio_count_enable_def [of T pin'] exec_simps)
qed

end
