(* ===== verification/Mosh_Ics.thy ===== *)
theory Mosh_Ics
  imports C_Lib
begin

section \<open>Internet checksum (\<open>icmp_ping.c\<close>)\<close>

text \<open>
  \<open>check_ics\<close> adds a buffer as 32-bit words with end-around carry, then folds the sum to 16 bits.
  The reference is the one's complement sum of 16-bit little-endian words of RFC 1071: the theory
  proves them equal, and that a checksum put in by \<open>calc_ics\<close> is one that \<open>check_ics\<close> accepts.
\<close>

subsection \<open>The code\<close>

text \<open>A little-endian word in memory.\<close>

definition le_nat :: "8 word list \<Rightarrow> nat" where
  "le_nat bs = foldr (\<lambda>b n. unat b + 256 * n) bs 0"

definition carry_add :: "32 word \<Rightarrow> 32 word \<Rightarrow> 32 word" where
  "carry_add hcs s = (let t = hcs + s in if t < s then t + 1 else t)"

text \<open>The loop over 32-bit words: the sum and the rest of the buffer.\<close>

fun add_words :: "nat \<Rightarrow> 8 word list \<Rightarrow> 32 word \<Rightarrow> 32 word \<times> 8 word list" where
  "add_words 0 bs hcs = (hcs, bs)"
| "add_words (Suc i) bs hcs = add_words i (drop 4 bs) (carry_add hcs (of_nat (le_nat (take 4 bs))))"

lemma word32_bound: "unat (w :: 32 word) < 4294967296"
  using unsigned_less [of w] by simp

lemma byte_bound: "unat (b :: 8 word) < 256"
  using unsigned_less [of b] by simp

lemma fold_step:
  fixes h :: "32 word"
  shows "unat ((h AND 0xFFFF) + drop_bit 16 h) = unat h mod 65536 + unat h div 65536"
proof -
  have a: "unat (h AND 0xFFFF) = unat h mod 65536"
  proof -
    have "h AND 0xFFFF = take_bit 16 h"
      by (simp add: take_bit_eq_mask mask_eq_exp_minus_1)
    then show ?thesis by (simp only: unsigned_take_bit_eq) (simp add: take_bit_eq_mod)
  qed
  have b: "unat (drop_bit 16 h) = unat h div 65536"
    by (simp add: drop_bit_eq_div unat_div_distrib)
  have "unat h < 2 ^ 32" using word32_bound [of h] by simp
  then have "unat h mod 65536 + unat h div 65536 < 2 ^ 32"
    by (simp add: less_mult_imp_div_less)
  then show ?thesis
    by (simp add: unat_word_ariths a b)
qed

function fold_ics :: "32 word \<Rightarrow> 32 word" where
  "fold_ics hcs = (if hcs > 0xFFFF then fold_ics ((hcs AND 0xFFFF) + drop_bit 16 hcs) else hcs)"
  by auto

lemma fold_decreases:
  fixes h :: "32 word"
  assumes "0xFFFF < h"
  shows "unat h mod 65536 + unat h div 65536 < unat h"
proof -
  have "65535 < unat h"
    using assms by (simp add: word_less_nat_alt)
  then have "1 \<le> unat h div 65536" by linarith
  moreover have "unat h = 65536 * (unat h div 65536) + unat h mod 65536" by simp
  ultimately show ?thesis by linarith
qed

termination fold_ics
  by (relation "measure unat") (auto simp: fold_step fold_decreases simp del: unat_add_lem)

declare fold_ics.simps [simp del]

text \<open>
  \<open>len\<close> is a C \<open>int\<close>: of a negative one the division gives no words, but its low bits may still make
  the code read up to three bytes. \<open>None\<close> is a read past the end of the buffer.
\<close>

definition check_ics :: "8 word list \<Rightarrow> int \<Rightarrow> 16 word option" where
  "check_ics buffer len =
     (let n = nat (len div 4); two = bit len 1; one = bit len 0 in
      if 4 * n + (if two then 2 else 0) + (if one then 1 else 0) > length buffer then None
      else
        let (hcs, ptr) = add_words n buffer 0;
            (hcs, ptr) = (if two then (carry_add hcs (of_nat (le_nat (take 2 ptr))), drop 2 ptr) else (hcs, ptr));
            hcs = (if one then carry_add hcs (ucast (hd ptr)) else hcs)
        in Some (NOT (ucast (fold_ics hcs))))"

text \<open>Writing bytes into a buffer; \<open>None\<close> is a write past its end.\<close>

definition write_at :: "nat \<Rightarrow> 8 word list \<Rightarrow> 8 word list \<Rightarrow> 8 word list option" where
  "write_at i bs buf = (if i + length bs \<le> length buf then Some (blit buf i bs) else None)"

definition le16 :: "16 word \<Rightarrow> 8 word list" where
  "le16 v = [ucast v, ucast (drop_bit 8 v)]"

text \<open>\<open>calc_ics (buf + off, len, hcs_pos)\<close>.\<close>

definition calc_ics :: "8 word list \<Rightarrow> nat \<Rightarrow> int \<Rightarrow> nat \<Rightarrow> 8 word list option" where
  "calc_ics buf off len hcs_pos = do {
     buf \<leftarrow> write_at (off + hcs_pos) [0, 0] buf;
     hcs \<leftarrow> check_ics (drop off buf) len;
     write_at (off + hcs_pos) (le16 hcs) buf
   }"

subsection \<open>The reference\<close>

text \<open>The sum of the 16-bit words, an odd byte padded with zero, and its folding to one's complement.\<close>

fun sum16 :: "8 word list \<Rightarrow> nat" where
  "sum16 (a # b # bs) = unat a + 256 * unat b + sum16 bs"
| "sum16 [a] = unat a"
| "sum16 [] = 0"

definition fold16 :: "nat \<Rightarrow> nat" where
  "fold16 s = (if s = 0 then 0 else (s - 1) mod 65535 + 1)"

text \<open>Equal as one's complement sums: 0 stands for itself only.\<close>

definition oc_eq :: "nat \<Rightarrow> nat \<Rightarrow> bool" where
  "oc_eq x y \<longleftrightarrow> x mod 65535 = y mod 65535 \<and> (x = 0 \<longleftrightarrow> y = 0)"

lemma oc_eq_refl [simp]: "oc_eq x x"
  by (simp add: oc_eq_def)

lemma oc_eq_sym: "oc_eq x y \<Longrightarrow> oc_eq y x"
  by (simp add: oc_eq_def)

lemma oc_eq_trans [trans]: "oc_eq x y \<Longrightarrow> oc_eq y z \<Longrightarrow> oc_eq x z"
  by (simp add: oc_eq_def)

lemma oc_eq_add: "oc_eq x x' \<Longrightarrow> oc_eq y y' \<Longrightarrow> oc_eq (x + y) (x' + y')"
  unfolding oc_eq_def by (metis add_is_0 mod_add_cong)

lemma oc_eq_wrap: "oc_eq (r + q) (r + 65536 * q)"
proof -
  have "r + 65536 * q = (r + q) + 65535 * q" by simp
  then show ?thesis unfolding oc_eq_def by (metis add_is_0 mod_mult_self2 mult_is_0)
qed

lemma fold16_small: "x \<le> 65535 \<Longrightarrow> fold16 x = x"
  by (auto simp: fold16_def)

lemma fold16_cong: "oc_eq x y \<Longrightarrow> fold16 x = fold16 y"
proof -
  have pred: "(z - 1) mod 65535 = (z mod 65535 + 65534) mod 65535" if "0 < z" for z :: nat
  proof -
    have "z + 65534 = (z - 1) + 65535" using that by simp
    then have "(z - 1) mod 65535 = (z + 65534) mod 65535" by (metis mod_add_self2)
    then show ?thesis by (simp only: mod_add_left_eq)
  qed
  assume "oc_eq x y"
  then show ?thesis
    by (cases "x = 0") (auto simp: oc_eq_def fold16_def pred simp del: One_nat_def)
qed

lemma fold16_oc_eq: "oc_eq (fold16 x) x"
proof (cases "x = 0")
  case False
  then have "((x - 1) mod 65535 + 1) mod 65535 = x mod 65535"
    by (metis Suc_eq_plus1 Suc_pred' mod_Suc_eq neq0_conv)
  then show ?thesis using False by (simp add: oc_eq_def fold16_def)
qed (simp add: fold16_def)

lemma fold16_bound: "fold16 x \<le> 65535"
  using mod_less_divisor [of 65535 "x - 1"] by (simp add: fold16_def del: mod_less_divisor)

subsection \<open>Equivalence\<close>

lemma oc_eq_carry_add: "oc_eq (unat (carry_add h s)) (unat h + unat s)"
proof (cases "unat h + unat s < 2 ^ 32")
  case True
  then have "unat (h + s) = unat h + unat s"
    by (simp add: unat_word_ariths)
  then show ?thesis by (simp add: carry_add_def Let_def word_less_nat_alt)
next
  case False
  define t where "t = unat h + unat s - 2 ^ 32"
  have h: "unat h < 2 ^ 32" "unat s < 2 ^ 32"
    using word32_bound by simp_all
  then have t: "unat (h + s) = t" "t < unat s"
    using False by (simp_all add: unat_word_ariths t_def mod_if)
  have "unat (h + s + 1) = t + 1"
    using t h by (simp add: unat_word_ariths(1) [of "h + s"])
  then have "unat (carry_add h s) = t + 1"
    using t by (simp add: carry_add_def Let_def word_less_nat_alt)
  moreover have "unat h + unat s = (t + 1) + 65535 * 65537"
    using False by (simp add: t_def)
  ultimately show ?thesis
    unfolding oc_eq_def by (metis add_is_0 mod_mult_self2 one_neq_zero)
qed

lemma le_nat_bound: "le_nat bs < 256 ^ length bs"
proof (induction bs)
  case (Cons b bs)
  have "unat b < 256" by (rule byte_bound)
  then show ?case using Cons by (simp add: le_nat_def)
qed (simp add: le_nat_def)

lemma oc_eq_le_nat:
  assumes "length bs = 4"
  shows "oc_eq (unat (of_nat (le_nat bs) :: 32 word)) (sum16 bs)"
proof -
  obtain a b c d where bs: "bs = [a, b, c, d]"
    using assms by (auto simp: numeral_eq_Suc length_Suc_conv)
  have "unat (of_nat (le_nat bs) :: 32 word) = le_nat bs"
    using le_nat_bound [of bs] assms by (simp add: unat_of_nat)
  moreover have "le_nat bs = (unat a + 256 * unat b) + 65536 * (unat c + 256 * unat d)"
    by (simp add: bs le_nat_def)
  ultimately show ?thesis
    using oc_eq_wrap [of "unat a + 256 * unat b" "unat c + 256 * unat d", THEN oc_eq_sym] by (simp add: bs)
qed

lemma sum16_append: "even (length xs) \<Longrightarrow> sum16 (xs @ ys) = sum16 xs + sum16 ys"
  by (induction xs rule: sum16.induct) auto

lemma add_words_sum:
  assumes "4 * n \<le> length bs"
  shows "snd (add_words n bs h) = drop (4 * n) bs"
    and "oc_eq (unat (fst (add_words n bs h))) (unat h + sum16 (take (4 * n) bs))"
  using assms
proof (induction n arbitrary: bs h)
  case (Suc n)
  {
    case 1
    then show ?case using Suc(1) [of "drop 4 bs"] by (simp add: add.commute)
  next
    case 2
    let ?s = "of_nat (le_nat (take 4 bs)) :: 32 word"
    have "oc_eq (unat (fst (add_words (Suc n) bs h))) (unat (carry_add h ?s) + sum16 (take (4 * n) (drop 4 bs)))"
      using Suc(2) [of "drop 4 bs"] 2 by simp
    also have "oc_eq \<dots> (unat h + unat ?s + sum16 (take (4 * n) (drop 4 bs)))"
      by (rule oc_eq_add [OF oc_eq_carry_add oc_eq_refl])
    also have "oc_eq \<dots> (unat h + sum16 (take 4 bs) + sum16 (take (4 * n) (drop 4 bs)))"
      using 2 by (intro oc_eq_add oc_eq_refl oc_eq_le_nat) simp
    also have "unat h + sum16 (take 4 bs) + sum16 (take (4 * n) (drop 4 bs)) = unat h + sum16 (take (4 * Suc n) bs)"
      using sum16_append [of "take 4 bs" "take (4 * n) (drop 4 bs)"] 2 by (simp add: take_add [of 4 "4 * n", symmetric])
    finally show ?case .
  }
qed simp_all

lemma oc_eq_fold_ics: "oc_eq (unat (fold_ics h)) (unat h) \<and> unat (fold_ics h) \<le> 65535"
proof (induction h rule: fold_ics.induct)
  case (1 h)
  show ?case
  proof (cases "h > 0xFFFF")
    case True
    let ?h = "(h AND 0xFFFF) + drop_bit 16 h"
    have step: "fold_ics h = fold_ics ?h"
      using True by (subst fold_ics.simps) simp
    have "oc_eq (unat ?h) (unat h)"
      using oc_eq_wrap [of "unat h mod 65536" "unat h div 65536"] by (simp only: fold_step) simp
    then show ?thesis
      unfolding step using 1 [OF True] oc_eq_trans by blast
  next
    case False
    then show ?thesis
      using fold_ics.simps [of h] by (simp add: word_less_nat_alt)
  qed
qed

lemma fold_ics_eq: "unat (fold_ics h) = fold16 (unat h)"
  using oc_eq_fold_ics [of h] fold16_cong fold16_small by metis

lemma length_split:
  "4 * (k div 4) + (if bit k 1 then 2 else 0) + (if bit k 0 then 1 else 0) = (k :: nat)"
  by (simp add: bit_iff_odd) presburger

lemma int_length [simp]:
  "nat (int k div 4) = k div 4" "bit (int k) i = bit k i"
  by (simp_all add: nat_div_distrib bit_of_nat_iff_bit)

lemma oc_eq_half:
  assumes "length bs = 2"
  shows "oc_eq (unat (of_nat (le_nat bs) :: 32 word)) (sum16 bs)"
proof -
  obtain a b where bs: "bs = [a, b]"
    using assms by (auto simp: numeral_eq_Suc length_Suc_conv)
  have "unat (of_nat (le_nat bs) :: 32 word) = le_nat bs"
    using le_nat_bound [of bs] assms by (simp add: unat_of_nat)
  then show ?thesis by (simp add: bs le_nat_def)
qed

lemma unat_ucast_byte: "unat (ucast (b :: 8 word) :: 32 word) = unat b"
  using byte_bound [of b] by (simp add: unsigned_ucast_eq take_bit_nat_eq_self)

text \<open>The three stages of \<open>check_ics\<close>, each carried to the reference sum.\<close>

lemma stage_half:
  assumes "oc_eq (unat h) (sum16 xs)" "even (length xs)" "2 \<le> length ptr"
  shows "oc_eq (unat (carry_add h (of_nat (le_nat (take 2 ptr))))) (sum16 (xs @ take 2 ptr))"
proof -
  have "oc_eq (unat (carry_add h (of_nat (le_nat (take 2 ptr)))))
      (unat h + unat (of_nat (le_nat (take 2 ptr)) :: 32 word))"
    by (rule oc_eq_carry_add)
  also have "oc_eq \<dots> (sum16 xs + sum16 (take 2 ptr))"
    using assms by (intro oc_eq_add oc_eq_half) simp_all
  finally show ?thesis using assms by (simp add: sum16_append)
qed

lemma stage_byte:
  assumes "oc_eq (unat h) (sum16 xs)" "even (length xs)" "ptr \<noteq> []"
  shows "oc_eq (unat (carry_add h (ucast (hd ptr)))) (sum16 (xs @ take 1 ptr))"
proof -
  have "oc_eq (unat (carry_add h (ucast (hd ptr)))) (unat h + unat (ucast (hd ptr) :: 32 word))"
    by (rule oc_eq_carry_add)
  also have "oc_eq \<dots> (sum16 xs + unat (hd ptr))"
    using assms by (intro oc_eq_add) (simp_all add: unat_ucast_byte)
  finally show ?thesis using assms by (cases ptr) (simp_all add: sum16_append)
qed

lemma fold_result:
  assumes "oc_eq (unat h) s"
  shows "(ucast (fold_ics h) :: 16 word) = of_nat (fold16 s)"
  using fold16_cong [OF assms] fold_ics_eq [of h] by (metis of_nat_unat)

lemma check_ics_reference:
  assumes "k \<le> length buf"
  shows "check_ics buf (int k) = Some (NOT (of_nat (fold16 (sum16 (take k buf)))))"
proof -
  let ?two = "bit k 1" and ?one = "bit k 0"
  define n where "n = k div 4"
  define k2 where "k2 = 4 * n + (if ?two then 2 else 0)"
  have k: "k = k2 + (if ?one then 1 else 0)"
    using length_split [of k] by (simp add: n_def k2_def)
  obtain h1 p1 where w: "add_words n buf 0 = (h1, p1)" by fastforce
  have p1: "p1 = drop (4 * n) buf" and h1: "oc_eq (unat h1) (sum16 (take (4 * n) buf))"
    using add_words_sum [of n buf 0] assms k w by (simp_all add: k2_def)
  define h2 where "h2 = (if ?two then carry_add h1 (of_nat (le_nat (take 2 p1))) else h1)"
  have h2: "oc_eq (unat h2) (sum16 (take k2 buf))"
  proof (cases ?two)
    case True
    then have "2 \<le> length p1" using assms k by (simp add: p1 k2_def)
    then show ?thesis
      using stage_half [OF h1, of p1] True assms k
      by (simp add: h2_def k2_def p1 take_add del: add_2_eq_Suc add_2_eq_Suc')
  qed (use h1 in \<open>simp add: h2_def k2_def\<close>)
  define h3 where "h3 = (if ?one then carry_add h2 (ucast (hd (drop k2 buf))) else h2)"
  have k2: "even k2" "k2 \<le> length buf" using k assms by (simp_all add: k2_def)
  have h3: "oc_eq (unat h3) (sum16 (take k buf))"
  proof (cases ?one)
    case True
    then have "k = k2 + 1" "drop k2 buf \<noteq> []" using k assms by simp_all
    then show ?thesis
      using stage_byte [OF h2, of "drop k2 buf"] True k2 by (simp only: h3_def take_add) simp
  next
    case False
    then have "k = k2" using k by simp
    then show ?thesis using False h2 by (simp add: h3_def)
  qed
  have "check_ics buf (int k) = Some (NOT (ucast (fold_ics h3)))"
    using assms length_split [of k] unfolding check_ics_def
    by (simp add: n_def [symmetric] w Let_def h3_def h2_def k2_def p1 drop_drop add.commute)
  then show ?thesis by (simp only: fold_result [OF h3])
qed

lemma add_words_rest: "snd (add_words n bs h) = drop (4 * n) bs"
  by (induction n bs h rule: add_words.induct) (simp_all add: add.commute)

lemma check_ics_past_end:
  assumes "length buf < k"
  shows "check_ics buf (int k) = None"
  using assms length_split [of k] by (simp add: check_ics_def Let_def)

text \<open>A checksum put into the buffer completes its sum to all ones.\<close>

lemma checksum_completes:
  assumes "s' = s + (65535 - fold16 s)"
  shows "fold16 s' = 65535"
proof (cases "s = 0")
  case False
  define q where "q = (s - 1) div 65535"
  have "s - 1 = 65535 * q + (s - 1) mod 65535" by (simp add: q_def)
  then have "s = 65535 * q + fold16 s" using False by (simp add: fold16_def)
  then have "s' = 65535 * q + 65535" using assms fold16_bound [of s] by linarith
  then have "s' - 1 = 65535 * q + 65534" by simp
  then have "(s' - 1) mod 65535 = 65534" by simp
  then show ?thesis using \<open>s' = 65535 * q + 65535\<close> by (simp add: fold16_def)
qed (use assms in \<open>simp add: fold16_def\<close>)

lemma sum16_le16:
  assumes "even (length xs)"
  shows "sum16 (xs @ le16 v @ ys) = sum16 (xs @ [0, 0] @ ys) + unat v"
proof -
  have b: "unat (ucast v :: 8 word) = unat v mod 256"
    by (simp add: unsigned_ucast_eq take_bit_eq_mod)
  have "unat v < 65536" using unsigned_less [of v] by simp
  then have c: "unat (ucast (drop_bit 8 v) :: 8 word) = unat v div 256"
    by (simp add: unsigned_ucast_eq take_bit_eq_mod drop_bit_eq_div unat_div_distrib less_mult_imp_div_less)
  show ?thesis using assms by (simp add: sum16_append le16_def b c)
qed

lemma unat_not16:
  assumes "f \<le> 65535"
  shows "unat (NOT (of_nat f) :: 16 word) = 65535 - f"
proof -
  have "NOT (of_nat f) = (of_nat (65535 - f) :: 16 word)"
    using assms by (simp add: not_eq_complement of_nat_diff)
  then show ?thesis by (simp add: unsigned_of_nat take_bit_nat_eq_self)
qed

lemma calc_ics_run:
  assumes len: "off + len \<le> length buf" and pos: "even pos" "pos + 2 \<le> len"
  defines "z \<equiv> blit buf (off + pos) [0, 0]"
  defines "v \<equiv> NOT (of_nat (fold16 (sum16 (take len (drop off z))))) :: 16 word"
  shows "calc_ics buf off (int len) pos = Some (blit z (off + pos) (le16 v))"
    and "check_ics (drop off (blit z (off + pos) (le16 v))) (int len) = Some 0"
proof -
  have z: "length z = length buf" using len pos by (simp add: z_def blit_def)
  have c: "check_ics (drop off z) (int len) = Some v"
    unfolding v_def by (rule check_ics_reference) (use len z in simp)
  show "calc_ics buf off (int len) pos = Some (blit z (off + pos) (le16 v))"
    using len pos z c by (simp add: calc_ics_def write_at_def z_def [symmetric] le16_def)
  let ?w = "blit z (off + pos) (le16 v)"
  have w: "length ?w = length buf" using len pos z by (simp add: blit_def le16_def)
  let ?xs = "take pos (drop off buf)" and ?ys = "take (len - (pos + 2)) (drop (off + pos + 2) buf)"
  have parts: "take len (drop off (blit b (off + pos) [p, q])) = take pos (drop off b) @ [p, q] @
      take (len - (pos + 2)) (drop (off + pos + 2) b)" if "length b = length buf" for b :: "8 word list" and p q
  proof -
    obtain m where m: "len = pos + (2 + m)"
      using pos(2) by (metis add.assoc le_iff_add)
    have "drop off (blit b (off + pos) [p, q]) = take pos (drop off b) @ [p, q] @ drop (off + pos + 2) b"
      using len that m by (simp add: blit_def take_add drop_take min_def add.commute)
    then show ?thesis using len that m by (simp add: take_add min_def)
  qed
  have a: "take len (drop off z) = ?xs @ [0, 0] @ ?ys"
    unfolding z_def by (rule parts) simp
  have b: "take len (drop off ?w) = ?xs @ le16 v @ ?ys"
  proof -
    have "take pos (drop off z) = ?xs" "take (len - (pos + 2)) (drop (off + pos + 2) z) = ?ys"
      using len pos by (auto intro!: nth_equalityI simp: z_def blit_def nth_append min_def)
    then show ?thesis using parts [of z] z by (simp add: le16_def)
  qed
  have "sum16 (take len (drop off ?w)) = sum16 (take len (drop off z)) + unat v"
    unfolding a b by (rule sum16_le16) (use len pos in simp)
  also have "unat v = 65535 - fold16 (sum16 (take len (drop off z)))"
    unfolding v_def by (rule unat_not16 [OF fold16_bound])
  finally have "fold16 (sum16 (take len (drop off ?w))) = 65535"
    by (rule checksum_completes)
  moreover have "check_ics (drop off ?w) (int len) = Some (NOT (of_nat (fold16 (sum16 (take len (drop off ?w))))))"
    by (rule check_ics_reference) (use len w in simp)
  ultimately show "check_ics (drop off ?w) (int len) = Some 0" by simp
qed

lemma blit_two: "i + 2 \<le> length xs \<Longrightarrow> blit xs i [p, q] = xs[i := p, i + 1 := q]"
  by (intro nth_equalityI)
    (auto simp: blit_def nth_append nth_list_update nth_Cons' le_add_diff_inverse2 Suc_diff_Suc numeral_2_eq_2)

lemma calc_ics_upd:
  assumes "off + pos + 2 \<le> length buf"
    and "\<And>b. length b = length buf \<Longrightarrow> \<exists>h. check_ics (drop off b) len = Some h"
  shows "\<exists>b c. calc_ics buf off len pos = Some (buf[off + pos := b, off + pos + 1 := c])"
proof -
  let ?z = "blit buf (off + pos) [0, 0]"
  have z: "length ?z = length buf" using assms(1) by (simp add: blit_def)
  then obtain h where "check_ics (drop off ?z) len = Some h"
    using assms(2) by blast
  then have "calc_ics buf off len pos = Some (blit ?z (off + pos) (le16 h))"
    using assms(1) z by (simp add: calc_ics_def write_at_def le16_def)
  also have "blit ?z (off + pos) (le16 h) =
      buf[off + pos := ucast h, off + pos + 1 := ucast (drop_bit 8 h)]"
    using assms(1) by (simp add: blit_two le16_def list_update_swap)
  finally show ?thesis by blast
qed

lemma calc_ics_verifies:
  assumes "off + len \<le> length buf" "even pos" "pos + 2 \<le> len"
  obtains b c where "calc_ics buf off (int len) pos = Some (buf[off + pos := b, off + pos + 1 := c])"
    and "check_ics (drop off (buf[off + pos := b, off + pos + 1 := c])) (int len) = Some 0"
proof -
  have "off + pos + 2 \<le> length buf" using assms by simp
  then have "blit (blit buf (off + pos) [0, 0]) (off + pos) (le16 v) =
      buf[off + pos := ucast v, off + pos + 1 := ucast (drop_bit 8 v)]" for v
    by (simp add: blit_two le16_def list_update_swap)
  then show ?thesis
    using calc_ics_run [OF assms] that by metis
qed

subsection \<open>Properties\<close>

text \<open>
  C11: \<open>check_ics\<close> on the first \<open>k\<close> bytes of a buffer is the Internet checksum of RFC 1071, the
  complement of their one's complement sum in 16-bit words: the code's sum in 32-bit words with
  end-around carries loses nothing, whatever the length. It reads exactly the \<open>k\<close> bytes.
\<close>

theorem icmp_checksum_reference:
  "check_ics buf (int k) =
    (if k \<le> length buf then Some (NOT (of_nat (fold16 (sum16 (take k buf))))) else None)"
  by (simp add: check_ics_reference check_ics_past_end)

text \<open>
  The checksum \<open>calc_ics\<close> writes at an even position of a block inside the buffer is one that
  \<open>check_ics\<close> accepts on the same block, and nothing else of the buffer changes.
\<close>

theorem icmp_checksum_verifies:
  assumes "off + len \<le> length buf" and "even pos" and "pos + 2 \<le> len"
  shows "\<exists>buf' b c. calc_ics buf off (int len) pos = Some buf' \<and>
    check_ics (drop off buf') (int len) = Some 0 \<and> buf' = buf[off + pos := b, off + pos + 1 := c]"
  using calc_ics_verifies [OF assms] by metis

theorem icmp_checksum_verifies_witness:
  "\<exists>buf' b c. calc_ics [8, 0, 1, 2, 3] 0 5 2 = Some buf' \<and>
    check_ics (drop 0 buf') 5 = Some 0 \<and> buf' = [8, 0, 1, 2, 3][2 := b, 3 := c]"
  using icmp_checksum_verifies [of 0 5 "[8, 0, 1, 2, 3]" 2] by simp

end
