(* ===== verification/Mosh_Ping_Packet.thy ===== *)
theory Mosh_Ping_Packet
  imports Mosh_Ics
begin

section \<open>Echo requests and replies (\<open>icmp_ping.c\<close>)\<close>

text \<open>
  The packets of \<open>send_ping_wait_reply\<close>: the IPv4 and IPv6 requests it builds in a buffer of 1500
  zero bytes, and the checks it makes on what was received into the same buffer. A buffer operation
  is \<open>None\<close> where the code writes or reads past the end of the buffer; the lengths keep the widths
  they have in the code.
\<close>

subsection \<open>Constants\<close>

definition ICMP :: "8 word" where "ICMP = 1"
definition ICMPV6 :: "8 word" where "ICMPV6 = 58"
definition IP_NEXT_HEADER_POS :: nat where "IP_NEXT_HEADER_POS = 6"
definition IP_PROTOCOL_POS :: nat where "IP_PROTOCOL_POS = 9"
definition ICMP_ECHO_REP :: "8 word" where "ICMP_ECHO_REP = 0"
definition ICMP_ECHO_REQ :: "8 word" where "ICMP_ECHO_REQ = 8"
definition ICMP6_ECHO_REQ :: "8 word" where "ICMP6_ECHO_REQ = 128"
definition ICMP6_ECHO_REP :: "8 word" where "ICMP6_ECHO_REP = 129"

definition ICMP_IPV4_HDR_LEN :: nat where "ICMP_IPV4_HDR_LEN = 20"
definition ICMP_IPV6_HDR_LEN :: nat where "ICMP_IPV6_HDR_LEN = 40"
definition ICMP_DEFAULT_LINK_MTU :: nat where "ICMP_DEFAULT_LINK_MTU = 1500"
definition ICMP_HDR_LEN :: nat where "ICMP_HDR_LEN = 8"
definition ICMP_IPV4_MAX_LEN :: nat where
  "ICMP_IPV4_MAX_LEN = ICMP_DEFAULT_LINK_MTU - ICMP_IPV4_HDR_LEN - ICMP_HDR_LEN"
definition ICMP_IPV6_MAX_LEN :: nat where
  "ICMP_IPV6_MAX_LEN = ICMP_DEFAULT_LINK_MTU - ICMP_IPV6_HDR_LEN - ICMP_HDR_LEN"

lemmas ping_consts = ICMP_def ICMPV6_def IP_NEXT_HEADER_POS_def IP_PROTOCOL_POS_def ICMP_ECHO_REP_def
  ICMP_ECHO_REQ_def ICMP6_ECHO_REQ_def ICMP6_ECHO_REP_def ICMP_IPV4_HDR_LEN_def ICMP_IPV6_HDR_LEN_def
  ICMP_DEFAULT_LINK_MTU_def ICMP_HDR_LEN_def ICMP_IPV4_MAX_LEN_def ICMP_IPV6_MAX_LEN_def

subsection \<open>Requests\<close>

text \<open>An address of the local or the remote end: \<open>sin_addr\<close> or the 16 bytes of \<open>sin6_addr\<close>.\<close>

datatype ip_addr = V4 "32 word" | V6 "8 word list"

text \<open>\<open>setip\<close>: the address, low byte first, at an index of the buffer.\<close>

definition setip :: "8 word list \<Rightarrow> nat \<Rightarrow> 32 word \<Rightarrow> 8 word list option" where
  "setip buf i ipaddr = write_at i [ucast (ipaddr AND 0xFF), ucast (drop_bit 8 ipaddr AND 0xFF),
     ucast (drop_bit 16 ipaddr AND 0xFF), ucast (drop_bit 24 ipaddr)] buf"

definition payload_byte :: "8 word \<Rightarrow> nat \<Rightarrow> 8 word" where
  "payload_byte seqnr i = of_nat ((i + unat seqnr) mod 10 + 48)"

definition alloc_buf :: "8 word list" where
  "alloc_buf = replicate ICMP_DEFAULT_LINK_MTU 0"

definition put :: "nat \<Rightarrow> 8 word \<Rightarrow> 8 word list \<Rightarrow> 8 word list option" where
  "put i b buf = write_at i [b] buf"

text \<open>The request, its total length and the new sequence number.\<close>

record ping_request =
  req_buf :: "8 word list"
  req_len :: "16 word"
  req_seqnr :: "8 word"

definition ipv4_total_length :: "32 word \<Rightarrow> 16 word" where
  "ipv4_total_length len = ucast (len + of_nat ICMP_IPV4_HDR_LEN + of_nat ICMP_HDR_LEN)"

definition ipv4_request :: "32 word \<Rightarrow> 32 word \<Rightarrow> 32 word \<Rightarrow> 8 word \<Rightarrow> ping_request option" where
  "ipv4_request len src dest seqnr =
     (let header_len = ICMP_IPV4_HDR_LEN; total_length = ipv4_total_length len;
          seqnr = (if seqnr = 255 then 0 else seqnr) + 1;
          icmp_len = int (unat total_length) - int header_len in do {
       buf \<leftarrow> put 0 (0x40 + of_nat (header_len div 4)) alloc_buf;
       buf \<leftarrow> put 2 (ucast (drop_bit 8 total_length)) buf;
       buf \<leftarrow> put 3 (ucast (total_length AND 0xFF)) buf;
       buf \<leftarrow> put 8 64 buf;
       buf \<leftarrow> put 9 ICMP buf;
       buf \<leftarrow> setip buf 12 src;
       buf \<leftarrow> setip buf 16 dest;
       buf \<leftarrow> calc_ics buf 0 (int header_len) 10;
       buf \<leftarrow> put header_len ICMP_ECHO_REQ buf;
       buf \<leftarrow> put (header_len + 7) seqnr buf;
       buf \<leftarrow> write_at (header_len + 8) (map (payload_byte seqnr) [8 ..< nat icmp_len]) buf;
       buf \<leftarrow> calc_ics buf header_len icmp_len 2;
       Some \<lparr>req_buf = buf, req_len = total_length, req_seqnr = seqnr\<rparr>
     })"

text \<open>
  The checksum of an ICMPv6 packet whose ICMP part, at \<open>header_len\<close>, is \<open>len\<close> bytes long: the
  complements of its parts added up, the part with the checksum itself left out.
\<close>

definition icmp6_hcs :: "8 word list \<Rightarrow> int \<Rightarrow> 32 word option" where
  "icmp6_hcs buf rest_len =
     (let header_len = ICMP_IPV6_HDR_LEN; tbuf = [0, buf ! 6] in do {
       h1 \<leftarrow> check_ics (drop 8 buf) 32;
       h2 \<leftarrow> check_ics (drop 4 buf) 2;
       h3 \<leftarrow> check_ics tbuf 2;
       h4 \<leftarrow> check_ics (drop header_len buf) 2;
       h5 \<leftarrow> check_ics (drop (header_len + 4) buf) rest_len;
       Some (fold_ics (ucast h1 + ucast h2 + ucast h3 + ucast h4 + ucast h5))
     })"

definition ipv6_payload_length :: "32 word \<Rightarrow> 16 word" where
  "ipv6_payload_length len = ucast (len + of_nat ICMP_HDR_LEN)"

definition ipv6_request :: "32 word \<Rightarrow> 8 word list \<Rightarrow> 8 word list \<Rightarrow> 8 word \<Rightarrow> ping_request option" where
  "ipv6_request len src dest seqnr =
     (let header_len = ICMP_IPV6_HDR_LEN; payload_length = ipv6_payload_length len;
          total_length = payload_length + of_nat header_len; seqnr = seqnr + 1 in do {
       buf \<leftarrow> put 0 0x60 alloc_buf;
       buf \<leftarrow> put 4 (ucast (drop_bit 8 payload_length)) buf;
       buf \<leftarrow> put 5 (ucast (payload_length AND 0xFF)) buf;
       buf \<leftarrow> put 6 ICMPV6 buf;
       buf \<leftarrow> put 7 64 buf;
       buf \<leftarrow> write_at 8 (take 16 src) buf;
       buf \<leftarrow> write_at 24 (take 16 dest) buf;
       buf \<leftarrow> put header_len ICMP6_ECHO_REQ buf;
       buf \<leftarrow> put (header_len + 7) seqnr buf;
       buf \<leftarrow> write_at (header_len + ICMP_HDR_LEN) (map (payload_byte seqnr) [0 ..< unat len]) buf;
       hcs \<leftarrow> icmp6_hcs buf (sint (4 + len));
       buf \<leftarrow> put (header_len + 2) (ucast (hcs AND 0xFF)) buf;
       buf \<leftarrow> put (header_len + 3) (ucast (drop_bit 8 hcs)) buf;
       Some \<lparr>req_buf = buf, req_len = total_length, req_seqnr = seqnr\<rparr>
     })"

subsection \<open>Replies\<close>

text \<open>
  The buffer after \<open>recv\<close>, which returned \<open>len\<close>: whether it is a packet of the wanted protocol,
  and the verdict on it. Nothing looks at the type of the message.
\<close>

definition header_len :: "8 word \<Rightarrow> nat" where
  "header_len rep = (if rep = ICMP_ECHO_REP then ICMP_IPV4_HDR_LEN else ICMP_IPV6_HDR_LEN)"

definition wanted_protocol :: "8 word \<Rightarrow> 8 word list \<Rightarrow> bool" where
  "wanted_protocol rep buf \<longleftrightarrow> rep = ICMP_ECHO_REP \<and> buf ! IP_PROTOCOL_POS = ICMP \<or>
     rep = ICMP6_ECHO_REP \<and> buf ! IP_NEXT_HEADER_POS = ICMPV6"

datatype verdict =
    Hcs_error string "parg list"
  | Other_seqnr
  | Length_error int int
  | Reply int

definition be16 :: "8 word \<Rightarrow> 8 word \<Rightarrow> int" where
  "be16 hi lo = uint hi * 256 + uint lo"

definition reply_seq_len :: "8 word list \<Rightarrow> nat \<Rightarrow> int \<Rightarrow> int \<Rightarrow> 8 word \<Rightarrow> verdict" where
  "reply_seq_len buf hdr len pllen seqnr =
     (if buf ! (hdr + 7) \<noteq> seqnr then Other_seqnr
      else if pllen \<noteq> len then Length_error len pllen
      else Reply (pllen - int hdr - int ICMP_HDR_LEN))"

definition check_reply :: "8 word \<Rightarrow> 8 word \<Rightarrow> 8 word list \<Rightarrow> int \<Rightarrow> verdict option" where
  "check_reply rep seqnr buf len =
     (let hdr = header_len rep in
      if rep = ICMP_ECHO_REP then do {
        hcs \<leftarrow> check_ics (drop hdr buf) (len - int hdr);
        if hcs \<noteq> 0 then
          Some (Hcs_error (''IPv4 HCS error, hcs: %d, len: %d'' @ [CHR 0x0D, CHR 0x0A])
            [PInt (uint hcs), PInt len])
        else Some (reply_seq_len buf hdr len (be16 (buf ! 2) (buf ! 3)) seqnr)
      } else do {
        hcs \<leftarrow> icmp6_hcs buf (len - int hdr - 4);
        let plhcs = be16 (buf ! (hdr + 3)) (buf ! (hdr + 2));
        if plhcs \<noteq> uint hcs then
          Some (Hcs_error (''IPv6 HCS error: 0x%x 0x%x'' @ [CHR 0x0D, CHR 0x0A])
            [PInt plhcs, PInt (uint hcs)])
        else Some (reply_seq_len buf hdr len (be16 (buf ! 4) (buf ! 5) + int hdr) seqnr)
      })"

subsection \<open>Requests stay in their buffer\<close>

lemma length_alloc [simp]: "length alloc_buf = 1500"
  by (simp add: alloc_buf_def ICMP_DEFAULT_LINK_MTU_def)

text \<open>A write inside the buffer succeeds and keeps its length; this is what the requests are made of.\<close>

lemma write_at_Some: "write_at i bs buf = Some b \<longleftrightarrow> i + length bs \<le> length buf \<and> b = blit buf i bs"
  by (auto simp: write_at_def)

lemma write_at_None: "write_at i bs buf = None \<longleftrightarrow> length buf < i + length bs"
  by (simp add: write_at_def not_le)

lemma put_eq: "put i b buf = (if i < length buf then Some (buf[i := b]) else None)"
  by (auto simp: put_def write_at_def blit_def upd_conv_take_nth_drop)

lemma check_ics_defined: "len \<le> int (length buf) \<Longrightarrow> 3 \<le> length buf \<Longrightarrow> \<exists>h. check_ics buf len = Some h"
proof (cases "0 \<le> len")
  case True
  assume "len \<le> int (length buf)"
  then show ?thesis using True check_ics_reference [of "nat len" buf] by simp
next
  case False
  assume "3 \<le> length buf"
  then show ?thesis using False by (auto simp: check_ics_def Let_def split: prod.splits)
qed

lemma calc_ics_in:
  assumes "off + pos + 2 \<le> length buf" "len \<le> int (length buf) - int off" "off + 3 \<le> length buf"
  shows "\<exists>b c. calc_ics buf off len pos = Some (buf[off + pos := b, off + pos + 1 := c])"
  by (rule calc_ics_upd) (use assms in \<open>auto intro!: check_ics_defined\<close>)

lemma setip_in: "i + 4 \<le> length buf \<Longrightarrow> \<exists>bs. setip buf i a = Some (blit buf i bs) \<and> length bs = 4"
  by (rule exI [of _ "[ucast (a AND 0xFF), ucast (drop_bit 8 a AND 0xFF),
     ucast (drop_bit 16 a AND 0xFF), ucast (drop_bit 24 a)]"]) (simp add: setip_def write_at_def)

lemma ipv4_length: "unat (ipv4_total_length len) = (unat len + 28) mod 65536"
proof -
  have "unat (len + 28) mod 65536 = (unat len + 28) mod 65536"
    by (simp add: unat_word_ariths mod_mod_cancel)
  then show ?thesis
    by (simp add: ipv4_total_length_def ping_consts unsigned_ucast_eq take_bit_eq_mod add.assoc)
qed

text \<open>The IPv4 request: the header with its addresses and checksum, then the ICMP part.\<close>

definition ipv4_headers :: "32 word \<Rightarrow> 32 word \<Rightarrow> 32 word \<Rightarrow> 8 word list option" where
  "ipv4_headers len src dest = (let total_length = ipv4_total_length len in do {
     buf \<leftarrow> put 0 (0x40 + of_nat (ICMP_IPV4_HDR_LEN div 4)) alloc_buf;
     buf \<leftarrow> put 2 (ucast (drop_bit 8 total_length)) buf;
     buf \<leftarrow> put 3 (ucast (total_length AND 0xFF)) buf;
     buf \<leftarrow> put 8 64 buf;
     buf \<leftarrow> put 9 ICMP buf;
     buf \<leftarrow> setip buf 12 src;
     buf \<leftarrow> setip buf 16 dest;
     calc_ics buf 0 (int ICMP_IPV4_HDR_LEN) 10
   })"

lemma ipv4_headers_ok:
  "\<exists>h. ipv4_headers len src dest = Some h \<and> length h = 1500 \<and>
    h ! 2 = ucast (drop_bit 8 (ipv4_total_length len)) \<and>
    h ! 3 = ucast (ipv4_total_length len AND 0xFF) \<and> h ! 9 = ICMP \<and>
    check_ics h 20 = Some 0"
proof -
  define b1 where "b1 = alloc_buf[0 := 0x45, 2 := ucast (drop_bit 8 (ipv4_total_length len)),
    3 := ucast (ipv4_total_length len AND 0xFF), 8 := 64, 9 := ICMP]"
  have b1: "length b1 = 1500" by (simp add: b1_def)
  obtain s where s: "setip b1 12 src = Some (blit b1 12 s)" "length s = 4"
    using setip_in [of 12 b1 src] b1 by auto
  obtain d where d: "setip (blit b1 12 s) 16 dest = Some (blit (blit b1 12 s) 16 d)" "length d = 4"
    using setip_in [of 16 "blit b1 12 s" dest] b1 s(2) by auto
  define b2 where "b2 = blit (blit b1 12 s) 16 d"
  have b2: "length b2 = 1500" using b1 s d by (simp add: b2_def)
  have same: "b2 ! i = b1 ! i" if "i < 12" for i
    using that b1 s d by (simp add: b2_def blit_def nth_append)
  obtain b c where c: "calc_ics b2 0 (int 20) 10 = Some (b2[0 + 10 := b, 0 + 10 + 1 := c])"
      "check_ics (drop 0 (b2[0 + 10 := b, 0 + 10 + 1 := c])) (int 20) = Some 0"
    by (rule calc_ics_verifies [of 0 20 b2 10]) (use b2 in simp_all)
  have "ipv4_headers len src dest = Some (b2[10 := b, 11 := c])"
    using c(1) s d
    by (simp add: ipv4_headers_def Let_def put_eq b2_def ICMP_IPV4_HDR_LEN_def b1_def [symmetric])
  then show ?thesis using c(2) b2 by (simp add: same b1_def)
qed

definition next_seqnr :: "8 word \<Rightarrow> 8 word" where
  "next_seqnr seqnr = (if seqnr = 255 then 0 else seqnr) + 1"

definition ipv4_icmp :: "16 word \<Rightarrow> 8 word \<Rightarrow> 8 word list \<Rightarrow> 8 word list option" where
  "ipv4_icmp total_length seqnr buf = (let icmp_len = int (unat total_length) - 20 in do {
     buf \<leftarrow> put 20 ICMP_ECHO_REQ buf;
     buf \<leftarrow> put 27 seqnr buf;
     buf \<leftarrow> write_at 28 (map (payload_byte seqnr) [8 ..< nat icmp_len]) buf;
     calc_ics buf 20 icmp_len 2
   })"

lemma ipv4_request_split:
  "ipv4_request len src dest seqnr = do {
     buf \<leftarrow> ipv4_headers len src dest;
     buf \<leftarrow> ipv4_icmp (ipv4_total_length len) (next_seqnr seqnr) buf;
     Some \<lparr>req_buf = buf, req_len = ipv4_total_length len, req_seqnr = next_seqnr seqnr\<rparr>
   }"
  unfolding ipv4_request_def ipv4_headers_def ipv4_icmp_def Let_def next_seqnr_def [symmetric] ICMP_IPV4_HDR_LEN_def
  by (simp add: Option.bind_assoc)

lemma icmp_length:
  fixes t :: "16 word"
  shows "nat (uint t - 20) = unat t - 20" "uint t \<le> 1500 \<longleftrightarrow> unat t \<le> 1500"
  using of_nat_unat [of t, where 'a = int] by linarith+

lemma ipv4_icmp_none:
  assumes "length h = 1500" "1500 < unat t"
  shows "ipv4_icmp t q h = None"
proof -
  have "\<not> 28 + (unat t - 28) \<le> 1500" using assms by linarith
  then have "write_at 28 (map (payload_byte q) [8 ..< unat t - 20]) b = None" if "length b = 1500" for b
    using that by (simp add: write_at_def)
  then show ?thesis using assms(1) by (simp add: ipv4_icmp_def Let_def put_eq icmp_length)
qed

lemma ipv4_icmp_some:
  assumes h: "length h = 1500" and t: "unat t \<le> 1500"
  obtains f where "ipv4_icmp t q h = Some f" "length f = 1500" "\<And>i. i < 20 \<Longrightarrow> f ! i = h ! i" "f ! 27 = q"
    "28 \<le> unat t \<Longrightarrow> check_ics (drop 20 f) (int (unat t) - 20) = Some 0"
proof -
  define icmp_len where "icmp_len = int (unat t) - 20"
  define ps where "ps = map (payload_byte q) [8 ..< nat icmp_len]"
  define g where "g = blit (h[20 := ICMP_ECHO_REQ, 27 := q]) 28 ps"
  have ps: "28 + length ps \<le> 1500" using t by (simp add: ps_def icmp_len_def nat_diff_distrib')
  then have g: "length g = 1500" using h by (simp add: g_def)
  have same: "g ! i = h ! i" if "i < 20" for i
    using that h by (simp add: g_def blit_def nth_append)
  have q: "g ! 27 = q" using h by (simp add: g_def blit_def nth_append)
  have run: "ipv4_icmp t q h = calc_ics g 20 icmp_len 2"
    using h ps by (simp add: ipv4_icmp_def Let_def put_eq write_at_def ps_def g_def icmp_len_def)
  show ?thesis
  proof (cases "28 \<le> unat t")
    case True
    then have len: "icmp_len = int (unat t - 20)" by (simp add: icmp_len_def)
    obtain b c where "calc_ics g 20 icmp_len 2 = Some (g[20 + 2 := b, 20 + 2 + 1 := c])"
        "check_ics (drop 20 (g[20 + 2 := b, 20 + 2 + 1 := c])) icmp_len = Some 0"
      unfolding len by (rule calc_ics_verifies [of 20 "unat t - 20" g 2]) (use True t g in simp_all)
    then show ?thesis
      by (intro that [of "g[22 := b, 23 := c]"]) (use run g same q in \<open>simp_all add: icmp_len_def\<close>)
  next
    case False
    obtain b c where "calc_ics g 20 icmp_len 2 = Some (g[20 + 2 := b, 20 + 2 + 1 := c])"
      using calc_ics_in [of 20 2 g icmp_len] t g by (auto simp: icmp_len_def icmp_length)
    then show ?thesis
      by (intro that [of "g[22 := b, 23 := c]"]) (use run g same q False in simp_all)
  qed
qed

lemma ipv4_request_iff: "ipv4_request len src dest seqnr = None \<longleftrightarrow> 1500 < unat (ipv4_total_length len)"
proof -
  obtain h where h: "ipv4_headers len src dest = Some h" "length h = 1500"
    using ipv4_headers_ok by blast
  show ?thesis
  proof (cases "1500 < unat (ipv4_total_length len)")
    case True
    then show ?thesis using h by (simp add: ipv4_request_split ipv4_icmp_none)
  next
    case False
    then obtain f where "ipv4_icmp (ipv4_total_length len) (next_seqnr seqnr) h = Some f"
      by (metis ipv4_icmp_some h(2) linorder_not_less)
    then show ?thesis using h False by (simp add: ipv4_request_split)
  qed
qed

text \<open>The bytes of a length field give the length back.\<close>

lemma be16_bytes:
  fixes t :: "'a :: len word"
  assumes "unat t < 65536"
  shows "be16 (ucast (drop_bit 8 t)) (ucast (t AND 0xFF)) = uint t"
proof -
  have "uint t < 65536" using assms of_nat_unat [of t, where 'a = int] by linarith
  then have "uint t div 256 < 256" "0 \<le> uint t div 256" by (simp_all add: pos_imp_zdiv_nonneg_iff)
  moreover have "uint (drop_bit 8 t) = uint t div 256"
    using unat_drop_bit_eq [of 8 t] of_nat_unat [of "drop_bit 8 t", where 'a = int]
      of_nat_unat [of t, where 'a = int] by (simp add: drop_bit_eq_div zdiv_int)
  ultimately have hi: "uint (ucast (drop_bit 8 t) :: 8 word) = uint t div 256"
    by (simp add: unsigned_ucast_eq take_bit_eq_mod)
  have m: "t AND 0xFF = take_bit 8 t"
    by (simp add: take_bit_eq_mask mask_eq_exp_minus_1)
  have lo: "uint (ucast (t AND 0xFF) :: 8 word) = uint t mod 256"
    by (simp only: m unsigned_ucast_eq unsigned_take_bit_eq) (simp add: take_bit_eq_mod)
  show ?thesis unfolding be16_def hi lo by simp
qed

lemma be16_bytes16: "be16 (ucast (drop_bit 8 t)) (ucast (t AND 0xFF)) = uint (t :: 16 word)"
  using unsigned_less [of t, where 'a = nat] by (intro be16_bytes) simp

lemma ipv4_request_checks:
  assumes r: "ipv4_request len src dest seqnr = Some r" and len: "unat len \<le> 1472"
  shows "check_reply ICMP_ECHO_REP (req_seqnr r) (req_buf r) (uint (req_len r)) = Some (Reply (uint len))"
    and "check_ics (req_buf r) 20 = Some 0" and "wanted_protocol ICMP_ECHO_REP (req_buf r)"
proof -
  let ?t = "ipv4_total_length len"
  have t: "unat ?t = unat len + 28" using len by (simp add: ipv4_length)
  have ut: "uint ?t = uint len + 28"
    using t of_nat_unat [of ?t, where 'a = int] of_nat_unat [of len, where 'a = int] by linarith
  obtain h where h: "ipv4_headers len src dest = Some h" "length h = 1500"
      "h ! 2 = ucast (drop_bit 8 ?t)" "h ! 3 = ucast (?t AND 0xFF)" "h ! 9 = ICMP" "check_ics h 20 = Some 0"
    using ipv4_headers_ok [of len src dest] by blast
  obtain f where f: "ipv4_icmp ?t (next_seqnr seqnr) h = Some f" "length f = 1500"
      "\<And>i. i < 20 \<Longrightarrow> f ! i = h ! i" "f ! 27 = next_seqnr seqnr"
      "check_ics (drop 20 f) (int (unat ?t) - 20) = Some 0"
    by (rule ipv4_icmp_some [OF h(2), of ?t "next_seqnr seqnr"]) (use t len in simp_all)
  have rf: "r = \<lparr>req_buf = f, req_len = ?t, req_seqnr = next_seqnr seqnr\<rparr>"
    using r h(1) f(1) by (simp add: ipv4_request_split)
  have "take 20 f = take 20 h"
    by (intro nth_equalityI) (use f h(2) in simp_all)
  then show "check_ics (req_buf r) 20 = Some 0"
    using h(2,6) f(2) check_ics_reference [of 20 f] check_ics_reference [of 20 h] by (simp add: rf)
  show "wanted_protocol ICMP_ECHO_REP (req_buf r)"
    using f(3) [of 9] h(5) by (simp add: rf wanted_protocol_def IP_PROTOCOL_POS_def)
  show "check_reply ICMP_ECHO_REP (req_seqnr r) (req_buf r) (uint (req_len r)) = Some (Reply (uint len))"
    using f(3) [of 2] f(3) [of 3] f(4,5) h(3,4) ut
    by (simp add: rf check_reply_def header_len_def ICMP_IPV4_HDR_LEN_def ICMP_HDR_LEN_def reply_seq_len_def be16_bytes16)
qed

subsection \<open>The ICMPv6 checksum\<close>

text \<open>The bytes the code sums: the pseudo header and the ICMP part without its checksum.\<close>

definition icmp6_summed :: "8 word list \<Rightarrow> nat \<Rightarrow> 8 word list" where
  "icmp6_summed buf k = take 32 (drop 8 buf) @ take 2 (drop 4 buf) @ [0, buf ! 6] @
     take 2 (drop 40 buf) @ take k (drop 44 buf)"

text \<open>The complements of the parts, added, against the complement of the whole sum.\<close>

lemma complement_sum:
  assumes S: "0 < s" "t mod 65535 = (65535 - fold16 s) mod 65535" and t: "0 < t"
  shows "fold16 t = (if 65535 - fold16 s = 0 then 65535 else 65535 - fold16 s)"
proof -
  have f: "1 \<le> fold16 s" "fold16 s \<le> 65535"
    using S(1) fold16_bound by (simp_all add: fold16_def)
  have "oc_eq t (if 65535 - fold16 s = 0 then 65535 else 65535 - fold16 s)"
    using S t f by (auto simp: oc_eq_def)
  then have "fold16 t = fold16 (if 65535 - fold16 s = 0 then 65535 else 65535 - fold16 s)"
    by (rule fold16_cong)
  then show ?thesis by (simp add: fold16_small)
qed

lemma fold16_mod: "fold16 s mod 65535 = s mod 65535"
  using fold16_oc_eq [of s] by (simp add: oc_eq_def)

lemma fold16_sum_mod: "(fold16 a + fold16 b + fold16 c + fold16 d + fold16 e) mod 65535 =
    fold16 (a + b + c + d + e) mod 65535"
proof -
  have "(fold16 a + fold16 b + fold16 c + fold16 d + fold16 e) mod 65535 = (a + b + c + d + e) mod 65535"
    by (intro mod_add_cong fold16_mod)
  then show ?thesis by (simp only: fold16_mod)
qed

lemma complement_mod:
  fixes f g :: nat
  assumes "f mod 65535 = g mod 65535" "f \<le> 65535 * n" "g \<le> 65535"
  shows "(65535 * n - f) mod 65535 = (65535 - g) mod 65535"
proof -
  have "int f mod 65535 = int g mod 65535"
    using arg_cong [OF assms(1), of int] by (simp add: of_nat_mod)
  then have "(65535 * int n - int f) mod 65535 = (65535 - int g) mod 65535"
    using mod_diff_cong [of "65535 * int n" 65535 65535 "int f" "int g"] by simp
  then have "int ((65535 * n - f) mod 65535) = int ((65535 - g) mod 65535)"
    using assms(2,3) by (simp add: zmod_int of_nat_diff)
  then show ?thesis by (simp only: of_nat_eq_iff)
qed

lemma complements_mod:
  "(65535 - fold16 a + (65535 - fold16 b) + (65535 - fold16 c) + (65535 - fold16 d) + (65535 - fold16 e)) mod 65535 =
    (65535 - fold16 (a + b + c + d + e)) mod 65535"
proof -
  let ?f = "fold16 a + fold16 b + fold16 c + fold16 d + fold16 e"
  have "65535 - fold16 a + (65535 - fold16 b) + (65535 - fold16 c) + (65535 - fold16 d) + (65535 - fold16 e) =
      65535 * 5 - ?f" and "?f \<le> 65535 * 5"
    using fold16_bound [of a] fold16_bound [of b] fold16_bound [of c] fold16_bound [of d] fold16_bound [of e]
    by linarith+
  then show ?thesis
    using complement_mod [OF fold16_sum_mod _ fold16_bound, of a b c d e 5] by simp
qed

lemma icmp6_hcs_reference:
  assumes len: "44 + k \<le> length buf" and next_header: "buf ! 6 \<noteq> 0"
  shows "icmp6_hcs buf (int k) = Some (of_nat (let c = 65535 - fold16 (sum16 (icmp6_summed buf k))
    in if c = 0 then 65535 else c))"
proof -
  define S where "S xs k = sum16 (take k xs)" for xs :: "8 word list" and k
  define a b c d e where "a = S (drop 8 buf) 32" and "b = S (drop 4 buf) 2" and "c = S [0, buf ! 6] 2"
    and "d = S (drop 40 buf) 2" and "e = S (drop 44 buf) k"
  note abcde = a_def b_def c_def d_def e_def S_def
  have run: "check_ics xs (int j) = Some (NOT (of_nat (fold16 (S xs j))))" if "j \<le> length xs" for xs j
    unfolding S_def by (rule check_ics_reference [OF that])
  have u: "unat (ucast (NOT (of_nat (fold16 x)) :: 16 word) :: 32 word) = 65535 - fold16 x" for x
    using unat_not16 [OF fold16_bound] by (simp add: unsigned_ucast_eq take_bit_nat_eq_self)
  let ?h = "\<lambda>x. ucast (NOT (of_nat (fold16 x)) :: 16 word) :: 32 word"
  have hcs: "icmp6_hcs buf (int k) = Some (fold_ics (?h a + ?h b + ?h c + ?h d + ?h e))"
    using len run [of 32 "drop 8 buf"] run [of 2 "drop 4 buf"] run [of 2 "[0, buf ! 6]"]
      run [of 2 "drop 40 buf"] run [of k "drop 44 buf"]
    by (simp add: icmp6_hcs_def Let_def ICMP_IPV6_HDR_LEN_def a_def b_def c_def d_def e_def add.commute)
  let ?t = "65535 - fold16 a + (65535 - fold16 b) + (65535 - fold16 c) + (65535 - fold16 d) + (65535 - fold16 e)"
  have sum: "sum16 (icmp6_summed buf k) = a + b + c + d + e"
    using len by (simp add: icmp6_summed_def abcde sum16_append min_def)
  have "0 < unat (buf ! 6)" using next_header by (simp add: unat_gt_0)
  then have c: "0 < c" "c < 65535"
    using byte_bound [of "buf ! 6"] by (simp_all add: c_def S_def)
  then have "fold16 c < 65535" by (simp add: fold16_small)
  then have t: "0 < ?t" by simp
  have "unat (?h a + ?h b + ?h c + ?h d + ?h e) = ?t"
    using fold16_bound by (simp add: unat_word_ariths u)
  then have "unat (fold_ics (?h a + ?h b + ?h c + ?h d + ?h e)) = fold16 ?t"
    by (simp only: fold_ics_eq)
  moreover have "fold16 ?t = (let c = 65535 - fold16 (sum16 (icmp6_summed buf k)) in if c = 0 then 65535 else c)"
    unfolding sum Let_def by (rule complement_sum) (use c t complements_mod [of a b c d e] in simp_all)
  ultimately have "fold_ics (?h a + ?h b + ?h c + ?h d + ?h e) =
      of_nat (let c = 65535 - fold16 (sum16 (icmp6_summed buf k)) in if c = 0 then 65535 else c)"
    by (metis of_nat_unat ucast_id)
  then show ?thesis unfolding hcs by simp
qed

text \<open>The IPv6 request up to its checksum.\<close>

definition ipv6_body :: "32 word \<Rightarrow> 8 word list \<Rightarrow> 8 word list \<Rightarrow> 8 word \<Rightarrow> 8 word list option" where
  "ipv6_body len src dest seqnr = (let payload_length = ipv6_payload_length len in do {
     buf \<leftarrow> put 0 0x60 alloc_buf;
     buf \<leftarrow> put 4 (ucast (drop_bit 8 payload_length)) buf;
     buf \<leftarrow> put 5 (ucast (payload_length AND 0xFF)) buf;
     buf \<leftarrow> put 6 ICMPV6 buf;
     buf \<leftarrow> put 7 64 buf;
     buf \<leftarrow> write_at 8 (take 16 src) buf;
     buf \<leftarrow> write_at 24 (take 16 dest) buf;
     buf \<leftarrow> put 40 ICMP6_ECHO_REQ buf;
     buf \<leftarrow> put 47 seqnr buf;
     write_at 48 (map (payload_byte seqnr) [0 ..< unat len]) buf
   })"

lemma ipv6_request_split:
  "ipv6_request len src dest seqnr = do {
     buf \<leftarrow> ipv6_body len src dest (seqnr + 1);
     hcs \<leftarrow> icmp6_hcs buf (sint (4 + len));
     buf \<leftarrow> put 42 (ucast (hcs AND 0xFF)) buf;
     buf \<leftarrow> put 43 (ucast (drop_bit 8 hcs)) buf;
     Some \<lparr>req_buf = buf, req_len = ipv6_payload_length len + 40, req_seqnr = seqnr + 1\<rparr>
   }"
  unfolding ipv6_request_def ipv6_body_def Let_def ICMP_IPV6_HDR_LEN_def ICMP_HDR_LEN_def
  by (simp add: Option.bind_assoc)

lemma ipv6_body_cases:
  "unat len > 1452 \<Longrightarrow> ipv6_body len src dest q = None"
  "unat len \<le> 1452 \<Longrightarrow> \<exists>g. ipv6_body len src dest q = Some g \<and> length g = 1500 \<and>
     g ! 4 = ucast (drop_bit 8 (ipv6_payload_length len)) \<and> g ! 5 = ucast (ipv6_payload_length len AND 0xFF) \<and>
     g ! 6 = ICMPV6 \<and> g ! 47 = q"
proof -
  define b1 where "b1 = alloc_buf[0 := 0x60, 4 := ucast (drop_bit 8 (ipv6_payload_length len)),
    5 := ucast (ipv6_payload_length len AND 0xFF), 6 := ICMPV6, 7 := 64]"
  have b1: "length b1 = 1500" by (simp add: b1_def)
  define b2 where "b2 = (blit (blit b1 8 (take 16 src)) 24 (take 16 dest))[40 := ICMP6_ECHO_REQ, 47 := q]"
  have b2: "length b2 = 1500" using b1 by (simp add: b2_def min_def)
  have same: "b2 ! i = b1 ! i" if "i < 8" for i
    using that b1 by (simp add: b2_def blit_def nth_append)
  have run: "ipv6_body len src dest q = write_at 48 (map (payload_byte q) [0 ..< unat len]) b2"
    using b1 by (simp add: ipv6_body_def Let_def put_eq write_at_def b2_def min_def b1_def [symmetric])
  show "ipv6_body len src dest q = None" if "unat len > 1452"
    using that b2 by (simp add: run write_at_def)
  show "\<exists>g. ipv6_body len src dest q = Some g \<and> length g = 1500 \<and>
     g ! 4 = ucast (drop_bit 8 (ipv6_payload_length len)) \<and> g ! 5 = ucast (ipv6_payload_length len AND 0xFF) \<and>
     g ! 6 = ICMPV6 \<and> g ! 47 = q" if "unat len \<le> 1452"
  proof -
    let ?g = "blit b2 48 (map (payload_byte q) [0 ..< unat len])"
    have "?g ! i = b2 ! i" if "i < 48" for i
      using that b2 by (simp add: blit_def nth_append)
    moreover have "b2 ! 47 = q" using b1 by (simp add: b2_def min_def)
    ultimately show ?thesis
      using that b2 same by (simp add: run write_at_def b1_def)
  qed
qed

lemma ipv6_lengths:
  assumes "unat len \<le> 1452"
  shows "uint (ipv6_payload_length len) = uint len + 8" "uint (ipv6_payload_length len + 40) = uint len + 48"
    "sint (4 + len) = int (unat len + 4)"
proof -
  have p: "unat (ipv6_payload_length len) = unat len + 8"
    using assms by (simp add: ipv6_payload_length_def ICMP_HDR_LEN_def unsigned_ucast_eq take_bit_eq_mod unat_word_ariths)
  then have q: "unat (ipv6_payload_length len + 40) = unat len + 48"
    using assms by (simp add: unat_word_ariths)
  note n = of_nat_unat [where 'a = int, symmetric]
  show "uint (ipv6_payload_length len) = uint len + 8" "uint (ipv6_payload_length len + 40) = uint len + 48"
    using p q by (simp_all only: n)
  have "unat (4 + len) = unat len + 4"
    using assms by (simp add: unat_word_ariths)
  then show "sint (4 + len) = int (unat len + 4)"
    using assms by (simp add: sint_uint n signed_take_bit_int_eq_self del: of_nat_unat)
qed

lemma ipv6_request_iff: "ipv6_request len src dest seqnr = None \<longleftrightarrow> 1452 < unat len"
proof (cases "1452 < unat len")
  case True
  then show ?thesis by (simp add: ipv6_request_split ipv6_body_cases)
next
  case False
  then obtain g where g: "ipv6_body len src dest (seqnr + 1) = Some g" "length g = 1500" "g ! 6 = ICMPV6"
    using ipv6_body_cases(2) [of len src dest "seqnr + 1"] by auto
  have "icmp6_hcs g (sint (4 + len)) \<noteq> None"
    using icmp6_hcs_reference [of "unat len + 4" g] False g by (simp add: ipv6_lengths ICMPV6_def)
  then show ?thesis using False g by (auto simp: ipv6_request_split put_eq)
qed

lemma ipv6_request_checks:
  assumes r: "ipv6_request len src dest seqnr = Some r"
  shows "check_reply ICMP6_ECHO_REP (req_seqnr r) (req_buf r) (uint (req_len r)) = Some (Reply (uint len))"
    and "wanted_protocol ICMP6_ECHO_REP (req_buf r)"
proof -
  have len: "unat len \<le> 1452"
    using r ipv6_request_iff [of len src dest seqnr] by fastforce
  let ?p = "ipv6_payload_length len"
  obtain g where g: "ipv6_body len src dest (seqnr + 1) = Some g" "length g = 1500"
      "g ! 4 = ucast (drop_bit 8 ?p)" "g ! 5 = ucast (?p AND 0xFF)" "g ! 6 = ICMPV6" "g ! 47 = seqnr + 1"
    using ipv6_body_cases(2) [OF len, of src dest "seqnr + 1"] by auto
  define k where "k = unat len + 4"
  define v where "v = (let c = 65535 - fold16 (sum16 (icmp6_summed g k)) in if c = 0 then 65535 else c)"
  have v: "v \<le> 65535" by (simp add: v_def Let_def)
  let ?h = "of_nat v :: 32 word"
  have k: "sint (4 + len) = int k" by (simp only: k_def ipv6_lengths(3) [OF len])
  have hg: "icmp6_hcs g (int k) = Some ?h"
    unfolding v_def by (rule icmp6_hcs_reference) (use g len in \<open>simp_all add: k_def ICMPV6_def\<close>)
  define f where "f = g[42 := ucast (?h AND 0xFF), 43 := ucast (drop_bit 8 ?h)]"
  have rf: "r = \<lparr>req_buf = f, req_len = ?p + 40, req_seqnr = seqnr + 1\<rparr>"
    using r g hg by (simp add: ipv6_request_split k put_eq f_def)
  have "icmp6_summed f k = icmp6_summed g k"
    using g(2) by (simp add: icmp6_summed_def f_def drop_update_swap drop_update_cancel)
  then have hf: "icmp6_hcs f (int k) = Some ?h"
    unfolding v_def by (subst icmp6_hcs_reference) (use g len in \<open>simp_all add: f_def k_def ICMPV6_def\<close>)
  have uh: "unat ?h = v" using v by (simp add: unsigned_of_nat take_bit_nat_eq_self)
  have plhcs: "be16 (f ! 43) (f ! 42) = uint ?h"
    using g(2) be16_bytes [of ?h] uh v by (simp add: f_def)
  have pl: "be16 (f ! 4) (f ! 5) = uint len + 8"
    using g be16_bytes16 [of ?p] ipv6_lengths(1) [OF len] by (simp add: f_def)
  have rest: "uint (?p + 40) - 44 = int k"
    using ipv6_lengths(2) [OF len] of_nat_unat [of len, where 'a = int] unfolding k_def by linarith
  show "check_reply ICMP6_ECHO_REP (req_seqnr r) (req_buf r) (uint (req_len r)) = Some (Reply (uint len))"
    using g(2,6) hf rest plhcs pl ipv6_lengths(2) [OF len]
    by (simp add: rf check_reply_def header_len_def ICMP_IPV6_HDR_LEN_def ICMP_HDR_LEN_def ICMP_ECHO_REP_def
      ICMP6_ECHO_REP_def reply_seq_len_def f_def)
  show "wanted_protocol ICMP6_ECHO_REP (req_buf r)"
    using g(2,5) by (simp add: rf f_def wanted_protocol_def IP_NEXT_HEADER_POS_def)
qed

subsection \<open>Properties\<close>

text \<open>
  The ICMPv6 checksum the code computes, by adding the complements of the sums of the parts, is
  the complement of the one's complement sum of the pseudo header and the message (RFC 4443),
  except that it gives the all-ones form of zero: a sum whose complement is 0 comes out as \<open>0xFFFF\<close>.
\<close>

theorem icmp6_checksum_reference:
  assumes "44 + k \<le> length buf" and "buf ! IP_NEXT_HEADER_POS = ICMPV6"
  shows "icmp6_hcs buf (int k) = Some (of_nat (let c = 65535 - fold16 (sum16 (icmp6_summed buf k))
    in if c = 0 then 65535 else c))"
  by (rule icmp6_hcs_reference) (use assms in \<open>simp_all add: IP_NEXT_HEADER_POS_def ICMPV6_def\<close>)

theorem icmp6_checksum_reference_witness:
  "icmp6_hcs (replicate 6 0 @ [ICMPV6] @ replicate 40 0) 0 =
    Some (of_nat (let c = 65535 - fold16 (sum16 (icmp6_summed (replicate 6 0 @ [ICMPV6] @ replicate 40 0) 0))
      in if c = 0 then 65535 else c))"
  using icmp6_checksum_reference [of 0 "replicate 6 0 @ [ICMPV6] @ replicate 40 0"]
  by (simp add: IP_NEXT_HEADER_POS_def nth_append)

text \<open>
  C30: A request is built inside its buffer of 1500 bytes exactly when the packet fits: for IPv4 when the
  total length, which wraps at 16 bits, is at most 1500, for IPv6 when the payload is at most 1452
  bytes. Any other length, as the custom AT command accepts it, makes the code write past the buffer.
\<close>

theorem ping_request_in_bounds:
  "(ipv4_request len src4 dest4 seqnr = None \<longleftrightarrow> 1500 < (unat len + 28) mod 65536) \<and>
   (ipv6_request len src6 dest6 seqnr = None \<longleftrightarrow> ICMP_IPV6_MAX_LEN < unat len)"
  by (simp add: ipv4_request_iff ipv6_request_iff ipv4_length ping_consts)

text \<open>
  C7: A request with a payload of at most 1452 bytes is built, of IPv4 and of IPv6, and passes every check
  the code makes on what it receives: the wanted protocol, the checksum, the sequence number and
  the length, with the payload length sent as the payload length received; the IPv4 header has a
  correct checksum. As the type of the message is not among the checks, the request itself, sent
  back, is taken for its reply.
\<close>

theorem ping_request_accepted:
  assumes "unat len \<le> ICMP_IPV6_MAX_LEN"
  shows "\<exists>r4 r6. ipv4_request len src4 dest4 seqnr = Some r4 \<and> ipv6_request len src6 dest6 seqnr = Some r6 \<and>
    check_ics (req_buf r4) 20 = Some 0 \<and>
    wanted_protocol ICMP_ECHO_REP (req_buf r4) \<and> wanted_protocol ICMP6_ECHO_REP (req_buf r6) \<and>
    check_reply ICMP_ECHO_REP (req_seqnr r4) (req_buf r4) (uint (req_len r4)) = Some (Reply (uint len)) \<and>
    check_reply ICMP6_ECHO_REP (req_seqnr r6) (req_buf r6) (uint (req_len r6)) = Some (Reply (uint len))"
proof -
  have len: "unat len \<le> 1452" using assms by (simp add: ping_consts)
  then obtain r4 where r4: "ipv4_request len src4 dest4 seqnr = Some r4"
    using ipv4_request_iff [of len src4 dest4 seqnr] by (auto simp: ipv4_length)
  obtain r6 where r6: "ipv6_request len src6 dest6 seqnr = Some r6"
    using len ipv6_request_iff [of len src6 dest6 seqnr] by auto
  show ?thesis
    using ipv4_request_checks [OF r4] ipv6_request_checks [OF r6] r4 r6 len by simp
qed

theorem ping_request_accepted_witness:
  "\<exists>r4 r6. ipv4_request 3 0x0100007F 0x08080808 7 = Some r4 \<and>
    ipv6_request 3 (replicate 16 1) (replicate 16 2) 7 = Some r6 \<and>
    check_ics (req_buf r4) 20 = Some 0 \<and>
    wanted_protocol ICMP_ECHO_REP (req_buf r4) \<and> wanted_protocol ICMP6_ECHO_REP (req_buf r6) \<and>
    check_reply ICMP_ECHO_REP (req_seqnr r4) (req_buf r4) (uint (req_len r4)) = Some (Reply (uint (3 :: 32 word))) \<and>
    check_reply ICMP6_ECHO_REP (req_seqnr r6) (req_buf r6) (uint (req_len r6)) = Some (Reply (uint (3 :: 32 word)))"
  by (rule ping_request_accepted) (simp add: ping_consts)

end
