(* ===== verification/Mosh_Ping.thy ===== *)
theory Mosh_Ping
  imports Mosh_At_Cmds Mosh_Ping_Packet
begin

section \<open>Pinging (\<open>icmp_ping.c\<close>, \<open>icmp_ping_shell.c\<close>, \<open>icmp_ping_print.c\<close>, \<open>net_utils.c\<close>)\<close>

text \<open>
  A ping: the command line, the connection it uses, the requests one after the other, each with its
  wait for the reply, and the statistics. Sockets, address look-up, the clock, the heap and the
  kernel's signals are parameters, and so is the reading of the PDP contexts (\<open>link_api.c\<close>).
\<close>

subsection \<open>State\<close>

text \<open>
  An \<open>addrinfo\<close> is the address it holds, whose kind is its family, \<open>None\<close> the null pointer.
  \<open>print_buf\<close> tells whether the output goes to a buffer, \<open>print_out\<close> below, of \<open>print_buf_len\<close> bytes.
\<close>

record icmp_ping_shell_cmd_argv = icmp_ping_args +
  kill_signal :: nat
  print_buf :: bool
  print_buf_len :: int
  src :: "ip_addr option"
  dest :: "ip_addr option"
  current_addr4 :: "32 word"
  current_addr6 :: "8 word list"
  current_apn_str :: string
  current_pdp_type :: int
  mtu :: "32 word"
  force_ipv6 :: bool
  rai :: bool
  pdn_ctx_info_read_uptime :: int

datatype ping_rai = PING_RAI_NONE | PING_RAI_ONGOING | PING_RAI_LAST_PACKET

record 'w ping = "'w mosh" +
  seqnr :: "8 word"
  start_t :: int
  network_reg_status_updated_uptime :: int
  print_out :: string

type_synonym ('w, 'z, 'a) ping_prog = "(('w, 'z) ping_scheme, 'a) prog"

definition PDP_TYPE_IPV6 :: int where "PDP_TYPE_IPV6 = 2"
definition PDP_TYPE_IP4V6 :: int where "PDP_TYPE_IP4V6 = 3"

record pdp_context_info =
  pdp_cid :: "32 word"
  ipv4_mtu :: "32 word"
  pdp_pdn_id :: "32 word"
  pdn_id_valid :: bool
  apn_str :: string
  pdp_type :: int
  ip_addr4 :: "32 word"
  ip_addr6 :: "8 word list"

datatype rai_option = RAI_ONGOING | RAI_ONE_RESP | RAI_NO_DATA

datatype sockopt =
    SO_BINDTOPDN "32 word"
  | SO_SNDTIMEO "32 word" "32 word"
  | SO_RCVTIMEO "32 word" "32 word"
  | SO_RAI rai_option

text \<open>
  The hints of \<open>getaddrinfo\<close>: whether the family is IPv6, and whether the service names a PDN.
  \<open>recv\<close> gives what it returns and the bytes. \<open>sys_getopt_long\<close> gives, for the arguments, each
  option with its argument and the index of the next word, and at the end that index.
\<close>

record 'w ping_api = "'w print_api" +
  ping_calloc :: "'w \<Rightarrow> bool \<times> 'w"
  ping_free :: "'w \<Rightarrow> 'w"
  socket_raw :: "'w \<Rightarrow> int \<times> 'w"
  errno :: "'w \<Rightarrow> int"
  setsockopt :: "int \<Rightarrow> sockopt \<Rightarrow> 'w \<Rightarrow> int \<times> 'w"
  send :: "int \<Rightarrow> 8 word list \<Rightarrow> 'w \<Rightarrow> int \<times> 'w"
  set_nonblock :: "int \<Rightarrow> 'w \<Rightarrow> 'w"
  poll_in :: "int \<Rightarrow> int \<Rightarrow> 'w \<Rightarrow> int \<times> 'w"
  recv :: "int \<Rightarrow> nat \<Rightarrow> 'w \<Rightarrow> (int \<times> 8 word list) \<times> 'w"
  close_fd :: "int \<Rightarrow> 'w \<Rightarrow> 'w"
  k_uptime_get :: "'w \<Rightarrow> int"
  k_sleep :: "32 word \<Rightarrow> 'w \<Rightarrow> 'w"
  k_poll_signal_check :: "nat \<Rightarrow> 'w \<Rightarrow> bool"
  k_poll_signal_reset :: "nat \<Rightarrow> 'w \<Rightarrow> 'w"
  mosh_signal :: nat
  getaddrinfo :: "string \<Rightarrow> string option \<Rightarrow> bool \<Rightarrow> bool \<Rightarrow> 'w \<Rightarrow> (int \<times> ip_addr) \<times> 'w"
  freeaddrinfo :: "ip_addr \<Rightarrow> 'w \<Rightarrow> 'w"
  inet_ntop :: "ip_addr \<Rightarrow> string"
  link_api_pdp_contexts_read :: "'w \<Rightarrow> (int \<times> pdp_context_info list) \<times> 'w"
  link_api_rai_status :: "'w \<Rightarrow> bool \<times> 'w"
  lte_lc_register_ping_handler :: "'w \<Rightarrow> 'w"
  EAGAIN :: int
  EWOULDBLOCK :: int
  sys_getopt_long :: "string list \<Rightarrow> (char \<times> string \<times> nat) list \<times> nat"

subsection \<open>Output\<close>

definition PING_PRINT_LINEBUFF_LEN :: nat where
  "PING_PRINT_LINEBUFF_LEN = 1024"

definition too_short :: string where
  "too_short = ''WARNING: response buffer was too short and was flushed'' @ [CHR 0x0A] @
     ''...and started from the beginning'' @ [CHR 0x0A]"

text \<open>The line as it stands in \<open>linebuffer\<close>.\<close>

definition ping_line :: "('w, 'y) print_api_scheme \<Rightarrow> string \<Rightarrow> string \<Rightarrow> parg list \<Rightarrow> string" where
  "ping_line P stamp fmt args =
     (let ln = take (PING_PRINT_LINEBUFF_LEN - 1) ([CHR 0x0A] @ stamp);
          (n, txt) = vsnprintfcb P (PING_PRINT_LINEBUFF_LEN - length ln) fmt args;
          chars = int (length ln) + n
      in if chars \<ge> int PING_PRINT_LINEBUFF_LEN then ''Cutting too long string while printing...''
         else if chars < 0 then ''Error while printing...''
         else ln @ txt)"

text \<open>Appending to the response buffer; \<open>None\<close> is a write past its end.\<close>

definition append_line :: "string \<Rightarrow> int \<Rightarrow> string \<Rightarrow> string option" where
  "append_line buf buf_len txt =
     (let chars = length (cstr buf) + length txt;
          start = (if int chars \<ge> buf_len then too_short else cstr buf)
      in if length start + length txt < length buf then Some (strcpy buf (start @ txt)) else None)"

definition ping_fprintf :: "('w, 'y) print_api_scheme \<Rightarrow> 'x icmp_ping_shell_cmd_argv_scheme \<Rightarrow> mosh_print_level \<Rightarrow>
    string \<Rightarrow> parg list \<Rightarrow> ('w, 'z, unit) ping_prog" where
  "ping_fprintf P ping_args print_level fmt args =
     (if \<not> print_buf ping_args \<and> print_buf_len ping_args = 0 then mosh_fprintf_valist P print_level fmt args
      else if \<not> print_buf ping_args then abort ()
      else do {
        use \<leftarrow> gets mosh_print_timestamp_use;
        stamp \<leftarrow> (if use then create_timestamp_string P TIMESTAMP_LEN else return '''');
        out \<leftarrow> gets print_out;
        (case append_line out (print_buf_len ping_args) (ping_line P stamp fmt args) of
           None \<Rightarrow> abort ()
         | Some out \<Rightarrow> modify (\<lambda>s. s\<lparr>print_out := out\<rparr>))
      })"

definition ping_print :: "('w, 'y) print_api_scheme \<Rightarrow> 'x icmp_ping_shell_cmd_argv_scheme \<Rightarrow> string \<Rightarrow> parg list \<Rightarrow>
    ('w, 'z, unit) ping_prog" where
  "ping_print P a fmt args = ping_fprintf P a MOSH_PRINT_LEVEL_PRINT fmt args"

definition ping_warn :: "('w, 'y) print_api_scheme \<Rightarrow> 'x icmp_ping_shell_cmd_argv_scheme \<Rightarrow> string \<Rightarrow> parg list \<Rightarrow>
    ('w, 'z, unit) ping_prog" where
  "ping_warn P a fmt args = ping_fprintf P a MOSH_PRINT_LEVEL_WARN fmt args"

definition ping_error :: "('w, 'y) print_api_scheme \<Rightarrow> 'x icmp_ping_shell_cmd_argv_scheme \<Rightarrow> string \<Rightarrow> parg list \<Rightarrow>
    ('w, 'z, unit) ping_prog" where
  "ping_error P a fmt args = ping_fprintf P a MOSH_PRINT_LEVEL_ERROR fmt args"

subsection \<open>Sockets (\<open>net_utils.c\<close>)\<close>

definition net_utils_socket_pdn_id_set :: "('w, 'y) ping_api_scheme \<Rightarrow> int \<Rightarrow> 32 word \<Rightarrow> ('w, 'z, int) ping_prog" where
  "net_utils_socket_pdn_id_set T fd pdn_id = do {
     err \<leftarrow> call (setsockopt T fd (SO_BINDTOPDN pdn_id));
     if err \<noteq> 0 then do {
       e \<leftarrow> ask (errno T);
       mosh_error T ''Failed to bind socket with PDN ID %d, errno %d'' [PInt (uint pdn_id), PInt e];
       return (- EINVAL)
     } else return 0
   }"

definition net_utils_sckt_addr_ntop :: "('w, 'y) ping_api_scheme \<Rightarrow> ip_addr \<Rightarrow> string" where
  "net_utils_sckt_addr_ntop T addr = inet_ntop T addr"

subsection \<open>One request and its reply\<close>

text \<open>
  The request in a fresh buffer, with the type of the reply to wait for. A null source, or a
  destination of another family, is a misread of memory, as is a write past the buffer.
\<close>

definition build_request :: "'x icmp_ping_shell_cmd_argv_scheme \<Rightarrow> 8 word \<Rightarrow> (ping_request \<times> 8 word) option" where
  "build_request a q = (case (src a, dest a) of
     (Some (V4 s), Some (V4 d)) \<Rightarrow> map_option (\<lambda>r. (r, ICMP_ECHO_REP)) (ipv4_request (ping_len a) s d q)
   | (Some (V6 s), Some (V6 d)) \<Rightarrow> map_option (\<lambda>r. (r, ICMP6_ECHO_REP)) (ipv6_request (ping_len a) s d q)
   | _ \<Rightarrow> None)"

text \<open>\<open>k_uptime_delta (&start_t)\<close>: the time since \<open>start_t\<close>, which becomes now.\<close>

definition k_uptime_delta :: "('w, 'y) ping_api_scheme \<Rightarrow> ('w, 'z, int) ping_prog" where
  "k_uptime_delta T = do {
     now \<leftarrow> ask (k_uptime_get T);
     t \<leftarrow> gets start_t;
     modify (\<lambda>s. s\<lparr>start_t := now\<rparr>);
     return (now - t)
   }"

text \<open>The time left of the timeout, as the code computes it: unsigned, kept in an \<open>int32_t\<close>.\<close>

definition time_left :: "'x icmp_ping_shell_cmd_argv_scheme \<Rightarrow> int \<Rightarrow> int" where
  "time_left a delta_t = sint (ping_timeout a - word_of_int delta_t :: 32 word)"

definition set_rai :: "('w, 'y) ping_api_scheme \<Rightarrow> 'x icmp_ping_shell_cmd_argv_scheme \<Rightarrow> int \<Rightarrow> rai_option \<Rightarrow> string \<Rightarrow>
    ('w, 'z, bool) ping_prog" where
  "set_rai T a fd opt msg = do {
     ret \<leftarrow> call (setsockopt T fd (SO_RAI opt));
     if ret \<noteq> 0 then do {
       e \<leftarrow> ask (errno T);
       ping_error T a msg [PInt e];
       return False
     } else return True
   }"

text \<open>
  What was received, once it is of the wanted protocol: the round trip time to report, or \<open>None\<close>
  to wait for another packet.
\<close>

definition parse_reply :: "('w, 'y) ping_api_scheme \<Rightarrow> 'x icmp_ping_shell_cmd_argv_scheme \<Rightarrow> int \<Rightarrow> 8 word \<Rightarrow> ping_rai \<Rightarrow>
    8 word list \<Rightarrow> int \<Rightarrow> int \<Rightarrow> int \<Rightarrow> ('w, 'z, int option) ping_prog" where
  "parse_reply T a fd rep r buf len delta_t timeout = do {
     ok \<leftarrow> (if r = PING_RAI_LAST_PACKET
       then set_rai T a fd RAI_NO_DATA ''setsockopt() for RAI_NO_DATA failed with error %d'' else return True);
     if \<not> ok then return (Some delta_t)
     else do {
       q \<leftarrow> gets seqnr;
       case check_reply rep q buf len of
         None \<Rightarrow> abort (Some 0)
       | Some (Hcs_error fmt args) \<Rightarrow> do { ping_error T a fmt args; return (Some 0) }
       | Some Other_seqnr \<Rightarrow> return (if timeout > 0 then None else Some 0)
       | Some (Length_error l pllen) \<Rightarrow> do {
           ping_error T a ''Expected length %d, got %d'' [PInt l, PInt pllen];
           return (Some 0)
         }
       | Some (Reply dpllen) \<Rightarrow> do {
           let t = uint (word_of_int delta_t :: 32 word);
           ping_print T a ''Pinging %s results: time=%d.%03dsecs, payload sent: %d, payload received %d''
             [PStr (target_name a), PInt (t div 1000), PInt (t mod 1000), PInt (sint (ping_len a)), PInt dpllen];
           return (Some delta_t)
         }
     }
   }"

text \<open>
  The loop \<open>wait_for_data\<close>. Every packet that is not taken starts it over, and as the clock is
  restarted with each packet the loop need not end: \<open>None\<close> is a loop that runs out of \<open>fuel\<close>.
\<close>

fun wait_for_data :: "nat \<Rightarrow> ('w, 'y) ping_api_scheme \<Rightarrow> 'x icmp_ping_shell_cmd_argv_scheme \<Rightarrow> int \<Rightarrow> 8 word \<Rightarrow> ping_rai \<Rightarrow>
    8 word list \<Rightarrow> int \<Rightarrow> ('w, 'z, int option) ping_prog" where
  "wait_for_data 0 T a fd rep r buf timeout = return None"
| "wait_for_data (Suc fuel) T a fd rep r buf timeout =
     (if timeout \<le> 0 then do {
        ping_print T a ''Pinging %s results: no ping response in given timeout %d msec''
          [PStr (target_name a), PInt (sint (ping_timeout a))];
        return (Some 0)
      } else do {
        ret \<leftarrow> call (poll_in T fd timeout);
        if ret = 0 then do {
          ping_print T a ''Pinging %s results: no response in given timeout %d msec''
            [PStr (target_name a), PInt (sint (ping_timeout a))];
          return (Some 0)
        } else if ret < 0 then do {
          e \<leftarrow> ask (errno T);
          ping_error T a ''poll() failed: (%d) (%d)'' [PInt (- e), PInt ret];
          return (Some 0)
        } else do {
          (len, bytes) \<leftarrow> call (recv T fd ICMP_DEFAULT_LINK_MTU);
          let buf = blit buf 0 (take (nat len) bytes);
          delta_t \<leftarrow> k_uptime_delta T;
          let timeout = time_left a delta_t;
          e \<leftarrow> ask (errno T);
          if len \<le> 0 \<and> e \<noteq> EAGAIN T \<and> e \<noteq> EWOULDBLOCK T then do {
            ping_error T a ''recv() failed with errno (%d) and return value (%d)'' [PInt (- e), PInt len];
            return (Some 0)
          } else do {
            doif (len < int (header_len rep)) (ping_error T a ''recv() wrong data (%d)'' [PInt len]);
            if wanted_protocol rep buf then do {
              res \<leftarrow> parse_reply T a fd rep r buf len delta_t timeout;
              case res of None \<Rightarrow> wait_for_data fuel T a fd rep r buf timeout | Some d \<Rightarrow> return (Some d)
            } else wait_for_data fuel T a fd rep r buf timeout
          }
        }
      })"

text \<open>From the open socket to the label \<open>close_end\<close>.\<close>

definition exchange :: "nat \<Rightarrow> ('w, 'y) ping_api_scheme \<Rightarrow> 'x icmp_ping_shell_cmd_argv_scheme \<Rightarrow> ping_rai \<Rightarrow> int \<Rightarrow>
    ping_request \<Rightarrow> 8 word \<Rightarrow> ('w, 'z, int option) ping_prog" where
  "exchange fuel T a r fd req rep = do {
     bound \<leftarrow> (if ping_cid a \<noteq> MOSH_ARG_NOT_SET \<and> pdn_id_for_cid a \<noteq> MOSH_ARG_NOT_SET then do {
         ret \<leftarrow> net_utils_socket_pdn_id_set T fd (pdn_id_for_cid a);
         doif (ret \<noteq> 0) (ping_error T a ''Cannot bind socket to PDN ID %d'' [PInt (sint (pdn_id_for_cid a))]);
         return (ret = 0)
       } else return True);
     if \<not> bound then return (Some 0)
     else do {
       let sec = ping_timeout a div 1000;
       let usec = ping_timeout a mod 1000 * 1000;
       ret \<leftarrow> call (setsockopt T fd (SO_SNDTIMEO sec usec));
       doif (ret < 0) (ping_error T a ''Unable to set socket SO_SNDTIMEO, continue'' []);
       ret \<leftarrow> call (setsockopt T fd (SO_RCVTIMEO sec usec));
       doif (ret < 0) (ping_error T a ''Unable to set socket SO_RCVTIMEO, continue'' []);
       ok \<leftarrow> (if r \<noteq> PING_RAI_NONE
         then set_rai T a fd (if r = PING_RAI_LAST_PACKET then RAI_ONE_RESP else RAI_ONGOING)
           ''setsockopt() for RAI failed with error %d''
         else return True);
       if \<not> ok then return (Some 0)
       else do {
         now \<leftarrow> ask (k_uptime_get T);
         modify (\<lambda>s. s\<lparr>start_t := now\<rparr>);
         ret \<leftarrow> call (send T fd (take (unat (req_len req)) (req_buf req)));
         if ret \<le> 0 then do {
           e \<leftarrow> ask (errno T);
           ping_error T a ''send() failed: (%d)'' [PInt (- e)];
           return (Some 0)
         } else do {
           act (set_nonblock T fd);
           delta_t \<leftarrow> k_uptime_delta T;
           wait_for_data fuel T a fd rep r (req_buf req) (time_left a delta_t)
         }
       }
     }
   }"

definition send_ping_wait_reply :: "nat \<Rightarrow> ('w, 'y) ping_api_scheme \<Rightarrow> 'x icmp_ping_shell_cmd_argv_scheme \<Rightarrow> ping_rai \<Rightarrow>
    ('w, 'z, 32 word option) ping_prog" where
  "send_ping_wait_reply fuel T a r = do {
     ok \<leftarrow> call (ping_calloc T);
     if \<not> ok then do {
       ping_error T a ''No RAM memory available for sending ping.'' [];
       return (Some (-1))
     } else do {
       q \<leftarrow> gets seqnr;
       case build_request a q of
         None \<Rightarrow> abort (Some 0)
       | Some (req, rep) \<Rightarrow> do {
           modify (\<lambda>s. s\<lparr>seqnr := req_seqnr req\<rparr>);
           fd \<leftarrow> call (socket_raw T);
           if fd < 0 then do {
             e \<leftarrow> ask (errno T);
             ping_error T a ''socket() failed: (%d)'' [PInt (- e)];
             act (ping_free T);
             return (Some 0)
           } else do {
             res \<leftarrow> exchange fuel T a r fd req rep;
             case res of
               None \<Rightarrow> return None
             | Some delta_t \<Rightarrow> do {
                 act (close_fd T fd);
                 act (ping_free T);
                 return (Some (word_of_int delta_t))
               }
           }
         }
     }
   }"

subsection \<open>The connection to ping over\<close>

definition mtu_of :: "pdp_context_info list \<Rightarrow> 32 word" where
  "mtu_of tbl = (if ipv4_mtu (tbl ! 0) \<noteq> 0 then ipv4_mtu (tbl ! 0) else of_nat ICMP_DEFAULT_LINK_MTU)"

definition use_context :: "pdp_context_info list \<Rightarrow> pdp_context_info \<Rightarrow> icmp_ping_shell_cmd_argv \<Rightarrow> icmp_ping_shell_cmd_argv" where
  "use_context tbl i a = a\<lparr>current_pdp_type := pdp_type i, current_addr4 := ip_addr4 i, current_addr6 := ip_addr6 i,
     mtu := mtu_of tbl\<rparr>"

definition set_args_step :: "pdp_context_info list \<Rightarrow> icmp_ping_shell_cmd_argv \<times> bool \<Rightarrow> pdp_context_info \<Rightarrow>
    icmp_ping_shell_cmd_argv \<times> bool" where
  "set_args_step tbl af i = (case af of (a, found) \<Rightarrow>
     if pdp_context_info.pdp_cid i = ping_cid a then
       (let a = use_context tbl i a;
            a = (if pdn_id_valid i then a\<lparr>pdn_id_for_cid := pdp_pdn_id i\<rparr> else a)
        in (a\<lparr>current_apn_str := apn_str i\<rparr>, True))
     else (a, found))"

definition icmp_ping_set_ping_args_according_to_pdp_ctx :: "icmp_ping_shell_cmd_argv \<Rightarrow> pdp_context_info list \<Rightarrow>
    icmp_ping_shell_cmd_argv \<times> bool" where
  "icmp_ping_set_ping_args_according_to_pdp_ctx a tbl = foldl (set_args_step tbl) (a, False) tbl"

definition icmp_ping_cmd_defaults_set :: "('w, 'y) ping_api_scheme \<Rightarrow> icmp_ping_shell_cmd_argv" where
  "icmp_ping_cmd_defaults_set T = icmp_ping_args.extend icmp_ping_cmd_defaults
     \<lparr>kill_signal = mosh_signal T, print_buf = False, print_buf_len = 0, src = None, dest = None,
      current_addr4 = 0, current_addr6 = replicate 16 0, current_apn_str = [], current_pdp_type = 0,
      mtu = 0, force_ipv6 = False, rai = False, pdn_ctx_info_read_uptime = 0\<rparr>"

text \<open>The contexts are read and the one to use is chosen: the arguments with it, or failure.\<close>

definition read_connection :: "('w, 'y) ping_api_scheme \<Rightarrow> icmp_ping_shell_cmd_argv \<Rightarrow>
    ('w, 'z, bool \<times> icmp_ping_shell_cmd_argv) ping_prog" where
  "read_connection T a = do {
     (ret, tbl) \<leftarrow> call (link_api_pdp_contexts_read T);
     if ret \<noteq> 0 then do {
       ping_error T a ''cannot read current connection info: %d'' [PInt ret];
       return (False, a)
     } else do {
       now \<leftarrow> ask (k_uptime_get T);
       let a = a\<lparr>pdn_ctx_info_read_uptime := now\<rparr>;
       if tbl = [] then do {
         ping_error T a ''cannot read current connection info'' [];
         return (False, a)
       } else if ping_cid a = MOSH_ARG_NOT_SET then return (True, use_context tbl (tbl ! 0) a)
       else do {
         let (a, found) = icmp_ping_set_ping_args_according_to_pdp_ctx a tbl;
         doif (\<not> found) (ping_error T a ''cannot find CID: %d'' [PInt (sint (ping_cid a))]);
         return (found, a)
       }
     }
   }"

text \<open>The address of the local end that the source is looked up with, and whether it is IPv6.\<close>

definition local_addr :: "icmp_ping_shell_cmd_argv \<Rightarrow> ip_addr" where
  "local_addr a = (if current_pdp_type a = PDP_TYPE_IP4V6 \<and> force_ipv6 a \<or> current_pdp_type a = PDP_TYPE_IPV6
     then V6 (current_addr6 a) else V4 (current_addr4 a))"

definition is_v6 :: "ip_addr \<Rightarrow> bool" where
  "is_v6 x = (case x of V4 _ \<Rightarrow> False | V6 _ \<Rightarrow> True)"

definition pdn_service :: "icmp_ping_shell_cmd_argv \<Rightarrow> string option" where
  "pdn_service a = (if ping_cid a \<noteq> MOSH_ARG_NOT_SET \<and> pdn_id_for_cid a \<noteq> MOSH_ARG_NOT_SET
     then Some (take 5 (show_int (sint (pdn_id_for_cid a)))) else None)"

definition look_up :: "('w, 'y) ping_api_scheme \<Rightarrow> icmp_ping_shell_cmd_argv \<Rightarrow>
    ('w, 'z, bool \<times> icmp_ping_shell_cmd_argv) ping_prog" where
  "look_up T a = do {
     let service = pdn_service a;
     let v6 = is_v6 (local_addr a);
     (st, res) \<leftarrow> call (getaddrinfo T (inet_ntop T (local_addr a)) service v6 (service \<noteq> None));
     if st \<noteq> 0 then do {
       ping_error T a ''getaddrinfo(src) error: %d'' [PInt st];
       return (False, a)
     } else do {
       let a = a\<lparr>src := Some res\<rparr>;
       (st, res2) \<leftarrow> call (getaddrinfo T (target_name a) service v6 (service \<noteq> None));
       if st \<noteq> 0 then do {
         ping_error T a ''getaddrinfo(dest) error: %d'' [PInt st];
         ping_error T a (''Cannot resolve remote host'' @ [CHR 0x0D, CHR 0x0A]) [];
         act (freeaddrinfo T res);
         return (False, a\<lparr>src := None\<rparr>)
       } else if is_v6 res \<noteq> is_v6 res2 then do {
         ping_error T a ''Source/Destination address family error'' [];
         act (freeaddrinfo T res2);
         act (freeaddrinfo T res);
         return (False, a\<lparr>dest := None, src := None\<rparr>)
       } else do {
         let a = a\<lparr>dest := Some res2\<rparr>;
         ping_print T a ''Source IP addr: %s'' [PStr (net_utils_sckt_addr_ntop T res)];
         ping_print T a ''Destination IP addr: %s'' [PStr (net_utils_sckt_addr_ntop T res2)];
         let ipv6_max_payload_len = mtu a - of_nat ICMP_IPV6_HDR_LEN - of_nat ICMP_HDR_LEN;
         doif (is_v6 res \<and> ping_len a > ipv6_max_payload_len)
           (ping_warn T a ''Payload size exceeds the link limits: MTU %d - headers %d = %d ''
             [PInt (sint (mtu a)), PInt 12, PInt (sint ipv6_max_payload_len)]);
         return (True, a)
       }
     }
   }"

text \<open>
  \<open>icmp_ping_current_conn_info_set\<close>: the arguments it is given and the ones it fills are one value
  here, as the caller uses only the latter.
\<close>

definition icmp_ping_current_conn_info_set :: "('w, 'y) ping_api_scheme \<Rightarrow> icmp_ping_shell_cmd_argv \<Rightarrow>
    ('w, 'z, bool \<times> icmp_ping_shell_cmd_argv) ping_prog" where
  "icmp_ping_current_conn_info_set T a = do {
     (ok, a) \<leftarrow> read_connection T a;
     if \<not> ok then return (False, a)
     else do {
       let ipv4_max_payload_len = mtu a - of_nat ICMP_IPV4_HDR_LEN - of_nat ICMP_HDR_LEN;
       doif (\<not> force_ipv6 a \<and> ping_len a > ipv4_max_payload_len)
         (ping_warn T a ''Payload size exceeds the link limits: MTU %d - headers %d = %d ''
           [PInt (if force_ipv6 a then 1 else 0), PInt 12, PInt (sint ipv4_max_payload_len)]);
       ping_print T a ''Initiating ping to: %s'' [PStr (target_name a)];
       look_up T a
     }
   }"

subsection \<open>The session\<close>

record ping_stats =
  sum :: "32 word"
  count :: "32 word"
  rtt_min :: "32 word"
  rtt_max :: "32 word"

definition no_stats :: ping_stats where
  "no_stats = \<lparr>sum = 0, count = 0, rtt_min = 0xFFFFFFFF, rtt_max = 0\<rparr>"

definition add_reply :: "32 word \<Rightarrow> ping_stats \<Rightarrow> ping_stats" where
  "add_reply ping_t st = (if ping_t > 0
     then \<lparr>sum = sum st + ping_t, count = count st + 1, rtt_min = min (rtt_min st) ping_t,
       rtt_max = max (rtt_max st) ping_t\<rparr>
     else st)"

definition free_addr :: "('w, 'y) ping_api_scheme \<Rightarrow> ip_addr option \<Rightarrow> ('w, 'z, unit) ping_prog" where
  "free_addr T x = (case x of None \<Rightarrow> return () | Some i \<Rightarrow> act (freeaddrinfo T i))"

text \<open>Before a request: the contexts are read again when the registration has changed since.\<close>

definition refresh :: "('w, 'y) ping_api_scheme \<Rightarrow> icmp_ping_shell_cmd_argv \<Rightarrow>
    ('w, 'z, bool \<times> icmp_ping_shell_cmd_argv) ping_prog" where
  "refresh T a = do {
     upd \<leftarrow> gets network_reg_status_updated_uptime;
     if pdn_ctx_info_read_uptime a < upd then do {
       ping_print T a ''Re-reading PDN context info...'' [];
       free_addr T (dest a);
       free_addr T (src a);
       (ok, a) \<leftarrow> icmp_ping_current_conn_info_set T (a\<lparr>dest := None, src := None\<rparr>);
       doif (\<not> ok) (ping_error T a ''Re-reading of PDN context info failed - exiting'' []);
       return (ok, a)
     } else return (True, a)
   }"

text \<open>The requests still to send, the \<open>i\<close>-th next: the arguments, the statistics and the result so far.\<close>

fun ping_loop :: "nat \<Rightarrow> ('w, 'y) ping_api_scheme \<Rightarrow> nat \<Rightarrow> icmp_ping_shell_cmd_argv \<Rightarrow> ping_stats \<Rightarrow>
    ('w, 'z, (icmp_ping_shell_cmd_argv \<times> ping_stats \<times> int) option) ping_prog" where
  "ping_loop fuel T 0 a st = return (Some (a, st, 0))"
| "ping_loop fuel T (Suc left) a st = do {
     (ok, a) \<leftarrow> refresh T a;
     if \<not> ok then return (Some (a, st, -1))
     else do {
       res \<leftarrow> send_ping_wait_reply fuel T a
         (if \<not> rai a then PING_RAI_NONE else if left = 0 then PING_RAI_LAST_PACKET else PING_RAI_ONGOING);
       case res of
         None \<Rightarrow> return None
       | Some ping_t \<Rightarrow> do {
           killed \<leftarrow> ask (k_poll_signal_check T (kill_signal a));
           if killed then do {
             act (k_poll_signal_reset T (kill_signal a));
             ping_error T a ''KILL signal received - exiting'' [];
             return (Some (a, st, 0))
           } else do {
             act (k_sleep T (ping_interval a));
             ping_loop fuel T left a (add_reply ping_t st)
           }
         }
     }
   }"

text \<open>The statistics; with no request to send the loss is divided by zero.\<close>

definition print_stats :: "('w, 'y) ping_api_scheme \<Rightarrow> icmp_ping_shell_cmd_argv \<Rightarrow> ping_stats \<Rightarrow> ('w, 'z, unit) ping_prog" where
  "print_stats T a st = do {
     let lost = ping_count a - count st;
     ping_print T a ''Ping statistics for %s:'' [PStr (target_name a)];
     if ping_count a = 0 then abort ()
     else do {
       ping_print T a ''    Packets: Sent = %d, Received = %d, Lost = %d (%d%% loss)''
         [PInt (sint (ping_count a)), PInt (sint (count st)), PInt (sint lost), PInt (sint (lost * 100 div ping_count a))];
       doif (count st > 0) (do {
         ping_print T a ''Approximate round trip times in milli-seconds:'' [];
         ping_print T a ''    Minimum = %dms, Maximum = %dms, Average = %dms''
           [PInt (sint (rtt_min st)), PInt (sint (rtt_max st)), PInt (sint (sum st div count st))]
       })
     }
   }"

definition icmp_ping_start_run :: "nat \<Rightarrow> ('w, 'y) ping_api_scheme \<Rightarrow> icmp_ping_shell_cmd_argv \<Rightarrow>
    ('w, 'z, int option) ping_prog" where
  "icmp_ping_start_run fuel T ping_args = do {
     (ok, a) \<leftarrow> icmp_ping_current_conn_info_set T ping_args;
     if \<not> ok then return (Some (-1))
     else do {
       res \<leftarrow> ping_loop fuel T (unat (ping_count a)) a no_stats;
       case res of
         None \<Rightarrow> return None
       | Some (a, st, ret) \<Rightarrow> do {
           print_stats T a st;
           free_addr T (src a);
           free_addr T (dest a);
           ping_print T a ''Pinging DONE'' [];
           return (Some ret)
         }
     }
   }"

subsection \<open>Registration\<close>

definition icmp_ping_lte_lc_evt_handler :: "('w, 'y) ping_api_scheme \<Rightarrow> bool \<Rightarrow> bool \<Rightarrow> ('w, 'z, unit) ping_prog" where
  "icmp_ping_lte_lc_evt_handler T is_reg_status registered =
     doif (is_reg_status \<and> registered) (do {
       now \<leftarrow> ask (k_uptime_get T);
       modify (\<lambda>s. s\<lparr>network_reg_status_updated_uptime := now\<rparr>)
     })"

definition icmp_ping_init :: "('w, 'y) ping_api_scheme \<Rightarrow> ('w, 'z, int) ping_prog" where
  "icmp_ping_init T = do {
     now \<leftarrow> ask (k_uptime_get T);
     modify (\<lambda>s. s\<lparr>network_reg_status_updated_uptime := now\<rparr>);
     act (lte_lc_register_ping_handler T);
     return 0
   }"

subsection \<open>The command (\<open>icmp_ping_shell.c\<close>)\<close>

definition atoi32 :: "string \<Rightarrow> 32 word" where
  "atoi32 t = word_of_int (atoi t)"

text \<open>One option: \<open>None\<close> goes to the usage text, else the options go on with new arguments.\<close>

definition ping_option :: "('w, 'y) ping_api_scheme \<Rightarrow> string list \<Rightarrow> char \<times> string \<times> nat \<Rightarrow> icmp_ping_shell_cmd_argv \<Rightarrow>
    ('w, 'z, icmp_ping_shell_cmd_argv option) ping_prog" where
  "ping_option T argv x a = (case x of (opt, optarg, optind) \<Rightarrow>
     if opt = CHR ''d'' then
       (if length optarg > ICMP_MAX_ADDR then do {
          ping_error T a ''too long destination name'' [];
          return None
        } else return (Some (a\<lparr>target_name := optarg\<rparr>)))
     else if opt = CHR ''t'' then
       (if atoi32 optarg = 0 then do {
          ping_warn T (a\<lparr>ping_timeout := 0\<rparr>) ''timeout not an integer (> 0), defaulting to %d msecs''
            [PInt (sint ICMP_PARAM_TIMEOUT_DEFAULT)];
          return (Some (a\<lparr>ping_timeout := ICMP_PARAM_TIMEOUT_DEFAULT\<rparr>))
        } else return (Some (a\<lparr>ping_timeout := atoi32 optarg\<rparr>)))
     else if opt = CHR ''I'' then
       (if atoi32 optarg = 0 then do {
          ping_warn T (a\<lparr>ping_cid := 0\<rparr>) ''CID not an integer (> 0), default context used'' [];
          return (Some (a\<lparr>ping_cid := MOSH_ARG_NOT_SET\<rparr>))
        } else return (Some (a\<lparr>ping_cid := atoi32 optarg\<rparr>)))
     else if opt = CHR ''c'' then
       (if atoi32 optarg = 0 then do {
          ping_warn T (a\<lparr>ping_count := 0\<rparr>) ''count not an integer (> 0), defaulting to %d''
            [PInt (sint ICMP_PARAM_COUNT_DEFAULT)];
          return (Some (a\<lparr>ping_count := 0, ping_timeout := ICMP_PARAM_COUNT_DEFAULT\<rparr>))
        } else return (Some (a\<lparr>ping_count := atoi32 optarg\<rparr>)))
     else if opt = CHR ''i'' then
       (if atoi32 optarg = 0 then do {
          ping_warn T (a\<lparr>ping_interval := 0\<rparr>) ''interval not an integer (> 0), defaulting to %d''
            [PInt (sint ICMP_PARAM_INTERVAL_DEFAULT)];
          return (Some (a\<lparr>ping_interval := ICMP_PARAM_INTERVAL_DEFAULT\<rparr>))
        } else return (Some (a\<lparr>ping_interval := atoi32 optarg\<rparr>)))
     else if opt = CHR ''l'' then
       (if atoi32 optarg > of_nat ICMP_IPV4_MAX_LEN then do {
          ping_error T (a\<lparr>ping_len := atoi32 optarg\<rparr>) ''Payload size exceeds the ultimate max limit %d''
            [PInt (int ICMP_IPV4_MAX_LEN)];
          return None
        } else return (Some (a\<lparr>ping_len := atoi32 optarg\<rparr>)))
     else if opt = CHR ''6'' then return (Some (a\<lparr>force_ipv6 := True\<rparr>))
     else if opt = CHR ''r'' then do {
       rai_status \<leftarrow> call (link_api_rai_status T);
       doif (\<not> rai_status) (ping_warn T (a\<lparr>rai := True\<rparr>)
         (''RAI is requested but RAI is disabled.'' @ [CHR 0x0A] @ ''Use 'link rai' command to enable it for ping usage.'') []);
       return (Some (a\<lparr>rai := True\<rparr>))
     }
     else if opt = CHR ''h'' then return None
     else do {
       mosh_error T ''Unknown option (%s). See usage:'' [table_arg argv (optind - 1)];
       return None
     })"

fun ping_options :: "('w, 'y) ping_api_scheme \<Rightarrow> string list \<Rightarrow> (char \<times> string \<times> nat) list \<Rightarrow> icmp_ping_shell_cmd_argv \<Rightarrow>
    ('w, 'z, icmp_ping_shell_cmd_argv option) ping_prog" where
  "ping_options T argv [] a = return (Some a)"
| "ping_options T argv (x # xs) a = do {
     res \<leftarrow> ping_option T argv x a;
     case res of None \<Rightarrow> return None | Some a \<Rightarrow> ping_options T argv xs a
   }"

definition icmp_ping_shell_usage_print :: "string \<Rightarrow> ('w, 'z, unit) ping_prog" where
  "icmp_ping_shell_usage_print usage = mosh_print_no_format usage"

definition show_usage :: "string \<Rightarrow> ('w, 'z, int option) ping_prog" where
  "show_usage usage = do { icmp_ping_shell_usage_print usage; return (Some (-1)) }"

text \<open>
  \<open>buf\<close> is the response buffer and its length, when there is one, \<open>sig\<close> the kill signal of the caller.
  \<open>usage\<close> is the text of the help.
\<close>

definition icmp_ping_shell_th :: "nat \<Rightarrow> ('w, 'y) ping_api_scheme \<Rightarrow> string \<Rightarrow> string list \<Rightarrow> bool \<Rightarrow> int \<Rightarrow> nat option \<Rightarrow>
    ('w, 'z, int option) ping_prog" where
  "icmp_ping_shell_th fuel T usage argv buf buf_len sig =
     (if length argv < 2 then show_usage usage
      else do {
        let a = (icmp_ping_cmd_defaults_set T)\<lparr>print_buf := buf, print_buf_len := buf_len\<rparr>;
        let a = (case sig of None \<Rightarrow> a | Some k \<Rightarrow> a\<lparr>kill_signal := k\<rparr>);
        let (opts, optind) = sys_getopt_long T argv;
        res \<leftarrow> ping_options T argv opts a;
        case res of
          None \<Rightarrow> show_usage usage
        | Some a \<Rightarrow>
            if optind < length argv then do {
              mosh_error T ''Arguments without '-' not supported: %s'' [PStr (last argv)];
              show_usage usage
            } else if target_name a = [] then do {
              ping_error T a ''-d destination, MUST be given. See usage:'' [];
              show_usage usage
            } else icmp_ping_start_run fuel T a
      })"

definition icmp_ping_shell :: "nat \<Rightarrow> ('w, 'y) ping_api_scheme \<Rightarrow> string \<Rightarrow> string list \<Rightarrow> ('w, 'z, int option) ping_prog" where
  "icmp_ping_shell fuel T usage argv = icmp_ping_shell_th fuel T usage argv False 0 None"

subsection \<open>What printing leaves alone\<close>

text \<open>A view of the state that the prints of a ping, aborts included, cannot change.\<close>

definition print_free :: "(('w, 'z) ping_scheme \<Rightarrow> 'b) \<Rightarrow> bool" where
  "print_free f \<longleftrightarrow> (\<forall>s c. f (s\<lparr>console := c\<rparr>) = f s) \<and> (\<forall>s c. f (s\<lparr>cloud_out := c\<rparr>) = f s) \<and>
     (\<forall>s c. f (s\<lparr>print_out := c\<rparr>) = f s) \<and> (\<forall>s c. f (s\<lparr>aborted := c\<rparr>) = f s)"

lemma print_free_world [simp]: "print_free (\<lambda>s. g (world s))" "print_free world"
  by (simp_all add: print_free_def)

lemma keeps_abort [keeps_intros]: "(\<And>s c. f (s\<lparr>aborted := c\<rparr>) = f s) \<Longrightarrow> keeps f (abort x)"
  unfolding abort_def by (intro keeps_intros) simp

lemma keeps_ping_fprintf:
  fixes f :: "('w, 'z) ping_scheme \<Rightarrow> 'b"
  assumes "print_free f"
  shows "keeps f (ping_fprintf P a l fmt args)"
  using assms unfolding ping_fprintf_def create_timestamp_string_def print_free_def mosh_fprintf_def [symmetric]
  by (intro keeps_intros) simp_all

lemma keeps_ping_print [keeps_intros]:
  fixes f :: "('w, 'z) ping_scheme \<Rightarrow> 'b"
  assumes "print_free f"
  shows "keeps f (ping_print P a fmt args)" "keeps f (ping_warn P a fmt args)" "keeps f (ping_error P a fmt args)"
  unfolding ping_print_def ping_warn_def ping_error_def by (rule keeps_ping_fprintf [OF assms])+

lemma world_ping_print [exec_simps]:
  "world (exec_state (ping_print P a fmt args) s) = world s"
  "world (exec_state (ping_warn P a fmt args) s) = world s"
  "world (exec_state (ping_error P a fmt args) s) = world s"
  by (rule keepsD [OF keeps_ping_print(1)], simp, rule keepsD [OF keeps_ping_print(2)], simp,
      rule keepsD [OF keeps_ping_print(3)], simp)

subsection \<open>Waiting comes to an end when the packets do\<close>

text \<open>
  \<open>m\<close> counts what can still be received: without it \<open>poll\<close> does not report data, \<open>recv\<close> takes one,
  and the options of a socket bring no new packets.
\<close>

definition drains :: "('w, 'y) ping_api_scheme \<Rightarrow> ('w \<Rightarrow> nat) \<Rightarrow> bool" where
  "drains T m \<longleftrightarrow>
     (\<forall>fd t w. m (snd (poll_in T fd t w)) \<le> m w \<and> (0 < fst (poll_in T fd t w) \<longrightarrow> 0 < m (snd (poll_in T fd t w)))) \<and>
     (\<forall>fd n w. 0 < m w \<longrightarrow> m (snd (recv T fd n w)) < m w) \<and>
     (\<forall>fd opt w. m (snd (setsockopt T fd opt w)) \<le> m w)"

text \<open>An operation after which no more is left to receive than before.\<close>

definition lowers :: "('w \<Rightarrow> nat) \<Rightarrow> ('w, 'z, 'a) ping_prog \<Rightarrow> bool" where
  "lowers m p \<longleftrightarrow> (\<forall>s. m (world (exec_state p s)) \<le> m (world s))"

named_theorems lowers_intros \<open>rules of operations that receive nothing new\<close>

lemma lowersD: "lowers m p \<Longrightarrow> m (world (exec_state p s)) \<le> m (world s)"
  by (simp add: lowers_def)

lemma lowers_keeps: "keeps world p \<Longrightarrow> lowers m p"
  by (simp add: lowers_def keeps_def)

lemma lowers_bind [lowers_intros]: "lowers m p \<Longrightarrow> (\<And>x. lowers m (q x)) \<Longrightarrow> lowers m (State_Monad.bind p q)"
  unfolding lowers_def exec_bind by (meson order_trans)

lemma lowers_basic [lowers_intros]:
  "lowers m (return x)" "lowers m (ask f)" "lowers m (gets g)" "lowers m (ping_print P a fmt args)"
  "lowers m (ping_warn P a fmt args)" "lowers m (ping_error P a fmt args)" "lowers m (mosh_error P fmt args)"
  "lowers m (abort x)"
  by (rule lowers_keeps, intro keeps_intros; simp)+

lemma lowers_modify [lowers_intros]: "(\<And>s. world (f s) = world s) \<Longrightarrow> lowers m (modify f)"
  by (rule lowers_keeps) (rule keeps_modify)

lemma lowers_if [lowers_intros]: "lowers m p \<Longrightarrow> lowers m q \<Longrightarrow> lowers m (if b then p else q)"
  by simp

lemma lowers_doif [lowers_intros]: "lowers m p \<Longrightarrow> lowers m (doif b p)"
  by (simp add: doif_def lowers_basic)

lemma lowers_call [lowers_intros]: "(\<And>w. m (snd (f w)) \<le> m w) \<Longrightarrow> lowers m (call f)"
  by (simp add: lowers_def exec_simps)

lemma lowers_Let [lowers_intros]: "lowers m (p x) \<Longrightarrow> lowers m (Let x p)"
  by (simp add: Let_def)

lemma lowers_verdict [lowers_intros]:
  assumes "lowers m p" "\<And>f x. lowers m (p1 f x)" "lowers m p2" "\<And>l k. lowers m (p3 l k)" "\<And>n. lowers m (p4 n)"
  shows "lowers m (case v of None \<Rightarrow> p | Some (Hcs_error f x) \<Rightarrow> p1 f x | Some Other_seqnr \<Rightarrow> p2
    | Some (Length_error l k) \<Rightarrow> p3 l k | Some (Reply n) \<Rightarrow> p4 n)"
  using assms by (auto split: option.split verdict.split)

lemma lowers_setsockopt: "drains T m \<Longrightarrow> lowers m (call (setsockopt T fd opt))"
  by (rule lowers_call) (simp add: drains_def)

lemma lowers_parse_reply:
  assumes "drains T m"
  shows "lowers m (parse_reply T a fd rep r buf len d t)"
  unfolding parse_reply_def set_rai_def
  by (intro lowers_intros lowers_setsockopt [OF assms])

lemma wait_returns:
  fixes s :: "('w, 'z) ping_scheme"
  assumes "drains T m" "m (world s) < fuel"
  shows "result (wait_for_data fuel T a fd rep r buf timeout) s \<noteq> None"
  using assms(2)
proof (induction fuel arbitrary: s buf timeout)
  case (Suc fuel)
  note d = assms(1) [unfolded drains_def]
  show ?case
  proof (cases "timeout \<le> 0 \<or> fst (poll_in T fd timeout (world s)) \<le> 0")
    case True
    then show ?thesis by (auto simp: exec_simps)
  next
    case False
    define w1 where "w1 = snd (poll_in T fd timeout (world s))"
    define rc where "rc = recv T fd ICMP_DEFAULT_LINK_MTU w1"
    define s2 where "s2 = s\<lparr>world := snd rc, start_t := k_uptime_get T (snd rc)\<rparr>"
    have "m w1 \<le> m (world s)" "0 < m w1" using d False by (auto simp: w1_def)
    then have less: "m (snd rc) < fuel" using d Suc.prems unfolding rc_def by (metis less_Suc_eq_le order_less_le_trans less_le_trans)
    have next_ok: "result (wait_for_data fuel T a fd rep r b t) u \<noteq> None" if "m (world u) \<le> m (snd rc)"
      for b t and u :: "('w, 'z) ping_scheme"
      by (rule Suc.IH) (use that less in simp)
    have parse: "m (world (exec_state (parse_reply T a fd rep r b l e t) u)) \<le> m (snd rc)" if "world u = snd rc"
      for b l e t and u :: "('w, 'z) ping_scheme"
      using lowersD [OF lowers_parse_reply [OF assms(1)], of a fd rep r b l e t u] that by simp
    show ?thesis
      using False next_ok parse
      by (simp add: exec_simps k_uptime_delta_def rc_def [symmetric] w1_def [symmetric] Let_def split: option.split)
  qed
qed simp

text \<open>A session returns when every socket has fewer packets to receive than there is fuel.\<close>

definition returns :: "('s, 'a option) prog \<Rightarrow> bool" where
  "returns p \<longleftrightarrow> (\<forall>s. result p s \<noteq> None)"

named_theorems returns_intros \<open>rules of operations that do not run out of fuel\<close>

lemma returns_bind [returns_intros]: "(\<And>x. returns (q x)) \<Longrightarrow> returns (State_Monad.bind p q)"
  by (simp add: returns_def exec_simps)

lemma returns_basic [returns_intros]: "returns (return (Some x))" "returns (abort (Some y))"
  by (simp_all add: returns_def exec_simps abort_def)

lemma returns_if [returns_intros]: "returns p \<Longrightarrow> returns q \<Longrightarrow> returns (if b then p else q)"
  by simp

lemma returns_option [returns_intros]:
  "returns p \<Longrightarrow> (\<And>x. returns (q x)) \<Longrightarrow> returns (case y of None \<Rightarrow> p | Some x \<Rightarrow> q x)"
  by (simp split: option.split)

lemma returns_prod [returns_intros]: "(\<And>x z. returns (p x z)) \<Longrightarrow> returns (case y of (x, z) \<Rightarrow> p x z)"
  by (simp split: prod.split)

lemma returns_Let [returns_intros]: "returns (p x) \<Longrightarrow> returns (Let x p)"
  by (simp add: Let_def)

text \<open>A call of an operation that returns, and what is done with what it returns.\<close>

lemma returns_then:
  assumes "returns p" "\<And>x. returns (q x)"
  shows "returns (State_Monad.bind p (\<lambda>r. case r of None \<Rightarrow> return None | Some x \<Rightarrow> q x))"
  using assms by (auto simp: returns_def exec_simps split: option.split)

lemma returns_wait:
  assumes "drains T m" "\<And>w. m w < fuel"
  shows "returns (wait_for_data fuel T a fd rep r buf timeout)"
  unfolding returns_def using wait_returns [OF assms(1)] assms(2) by blast

lemma returns_send:
  assumes "drains T m" "\<And>w. m w < fuel"
  shows "returns (send_ping_wait_reply fuel T a r)"
  unfolding send_ping_wait_reply_def exchange_def
  by (intro returns_then returns_intros returns_wait [OF assms])

lemma returns_loop:
  assumes "drains T m" "\<And>w. m w < fuel"
  shows "returns (ping_loop fuel T n a st)"
proof (induction n arbitrary: a st)
  case (Suc n)
  show ?case
    unfolding ping_loop.simps
    by (intro returns_bind returns_prod returns_if returns_then returns_basic returns_send [OF assms] Suc.IH)
qed (simp add: returns_intros)

lemma returns_session:
  assumes "drains T m" "\<And>w. m w < fuel"
  shows "returns (icmp_ping_start_run fuel T a)"
  unfolding icmp_ping_start_run_def
  by (intro returns_bind returns_prod returns_if returns_then returns_basic returns_loop [OF assms])

subsection \<open>Nothing is lost\<close>

text \<open>
  The documented effect of the calls on what the program holds: request buffers, sockets and
  addresses that were looked up. \<open>held\<close> counts each.
\<close>

datatype resource = Buffer | Socket | Address

definition ledger :: "('w, 'y) ping_api_scheme \<Rightarrow> (resource \<Rightarrow> 'w \<Rightarrow> int) \<Rightarrow> bool" where
  "ledger T held \<longleftrightarrow> (\<forall>r w.
     held r (snd (ping_calloc T w)) = held r w + (if r = Buffer \<and> fst (ping_calloc T w) then 1 else 0) \<and>
     held r (ping_free T w) = held r w - (if r = Buffer then 1 else 0) \<and>
     held r (snd (socket_raw T w)) = held r w + (if r = Socket \<and> 0 \<le> fst (socket_raw T w) then 1 else 0) \<and>
     (\<forall>fd. held r (close_fd T fd w) = held r w - (if r = Socket then 1 else 0)) \<and>
     (\<forall>n sv v f. held r (snd (getaddrinfo T n sv v f w)) =
        held r w + (if r = Address \<and> fst (fst (getaddrinfo T n sv v f w)) = 0 then 1 else 0)) \<and>
     (\<forall>x. held r (freeaddrinfo T x w) = held r w - (if r = Address then 1 else 0)) \<and>
     (\<forall>fd opt. held r (snd (setsockopt T fd opt w)) = held r w) \<and>
     (\<forall>fd bs. held r (snd (send T fd bs w)) = held r w) \<and>
     (\<forall>fd. held r (set_nonblock T fd w) = held r w) \<and>
     (\<forall>fd t. held r (snd (poll_in T fd t w)) = held r w) \<and>
     (\<forall>fd n. held r (snd (recv T fd n w)) = held r w) \<and>
     (\<forall>i. held r (k_sleep T i w) = held r w) \<and>
     (\<forall>k. held r (k_poll_signal_reset T k w) = held r w) \<and>
     held r (snd (link_api_pdp_contexts_read T w)) = held r w)"

lemma keeps_held_call: "(\<And>w. h (snd (g w)) = h w) \<Longrightarrow> keeps (\<lambda>s. h (world s)) (call g)"
  by (simp add: keeps_def exec_simps)

lemma keeps_held_act: "(\<And>w. h (g w) = h w) \<Longrightarrow> keeps (\<lambda>s. h (world s)) (act g)"
  by (simp add: keeps_def exec_simps)

lemma keeps_verdict:
  assumes "keeps h p" "\<And>f x. keeps h (p1 f x)" "keeps h p2" "\<And>l k. keeps h (p3 l k)" "\<And>n. keeps h (p4 n)"
  shows "keeps h (case v of None \<Rightarrow> p | Some (Hcs_error f x) \<Rightarrow> p1 f x | Some Other_seqnr \<Rightarrow> p2
    | Some (Length_error l k) \<Rightarrow> p3 l k | Some (Reply n) \<Rightarrow> p4 n)"
  using assms by (auto split: option.split verdict.split)

lemma held_parse_reply:
  fixes T :: "('w, 'y) ping_api_scheme"
  assumes "ledger T held"
  shows "keeps (\<lambda>s :: ('w, 'z) ping_scheme. held r (world s)) (parse_reply T a fd rep q buf len d t)"
  unfolding parse_reply_def set_rai_def
  by (intro keeps_verdict keeps_bind keeps_if keeps_held_call keeps_return keeps_ask keeps_gets keeps_ping_print keeps_Let keeps_abort)
    (use assms in \<open>simp_all add: ledger_def\<close>)

lemma held_wait:
  fixes T :: "('w, 'y) ping_api_scheme"
  assumes "ledger T held"
  shows "keeps (\<lambda>s :: ('w, 'z) ping_scheme. held r (world s)) (wait_for_data fuel T a fd rep q buf timeout)"
proof (induction fuel arbitrary: buf timeout)
  case (Suc fuel)
  show ?case
    unfolding wait_for_data.simps k_uptime_delta_def
    by (intro keeps_bind keeps_if keeps_doif keeps_prod keeps_option keeps_held_call keeps_return keeps_ask keeps_gets keeps_modify
        keeps_ping_print keeps_Let held_parse_reply [OF assms] Suc.IH)
      (use assms in \<open>simp_all add: ledger_def\<close>)
qed (simp add: keeps_intros)

lemma held_exchange:
  fixes T :: "('w, 'y) ping_api_scheme"
  assumes "ledger T held"
  shows "keeps (\<lambda>s :: ('w, 'z) ping_scheme. held r (world s)) (exchange fuel T a q fd req rep)"
  unfolding exchange_def net_utils_socket_pdn_id_set_def set_rai_def k_uptime_delta_def
  by (intro keeps_bind keeps_if keeps_doif keeps_held_call keeps_held_act keeps_return keeps_ask keeps_gets keeps_modify
      keeps_mosh_print keeps_ping_print keeps_Let held_wait [OF assms])
    (use assms in \<open>simp_all add: ledger_def\<close>)

definition paired :: "icmp_ping_shell_cmd_argv \<Rightarrow> bool" where
  "paired a \<longleftrightarrow> (\<exists>x y. src a = Some x \<and> dest a = Some y \<and> is_v6 x = is_v6 y)"

definition addresses :: "icmp_ping_shell_cmd_argv \<Rightarrow> int" where
  "addresses a = (if src a = None then 0 else 1) + (if dest a = None then 0 else 1)"

lemma build_request_paired:
  assumes "paired a" "unat (ping_len a) \<le> 1452"
  shows "build_request a q \<noteq> None"
proof -
  have four: "ipv4_request (ping_len a) x y q \<noteq> None" for x y
    using assms(2) ipv4_request_iff [of "ping_len a"] by (simp add: ipv4_length)
  have six: "ipv6_request (ping_len a) x y q \<noteq> None" for x y
    using assms(2) ipv6_request_iff [of "ping_len a"] by simp
  obtain x y where xy: "src a = Some x" "dest a = Some y" "is_v6 x = is_v6 y"
    using assms(1) by (auto simp: paired_def)
  show ?thesis
    by (cases x; cases y) (use xy four six in \<open>simp_all add: build_request_def is_v6_def del: not_None_eq\<close>)
qed

lemma held_send:
  fixes T :: "('w, 'y) ping_api_scheme" and s :: "('w, 'z) ping_scheme"
  assumes L: "ledger T held" and "paired a" "unat (ping_len a) \<le> 1452"
    and "result (send_ping_wait_reply fuel T a q) s \<noteq> None"
  shows "held r (world (exec_state (send_ping_wait_reply fuel T a q) s)) = held r (world s)"
proof -
  have ex: "held r (world (exec_state (exchange fuel T a q fd req rep) t)) = held r (world t)"
    for fd req rep and t :: "('w, 'z) ping_scheme"
    by (rule keepsD [OF held_exchange [OF L]])
  obtain req rep where "build_request a (seqnr s) = Some (req, rep)"
    using build_request_paired [OF assms(2,3), of "seqnr s"] by auto
  note run = this L [unfolded ledger_def]
  note defs = send_ping_wait_reply_def exec_simps
  consider "\<not> fst (ping_calloc T (world s))" |
    "fst (ping_calloc T (world s))" "fst (socket_raw T (snd (ping_calloc T (world s)))) < 0" |
    "fst (ping_calloc T (world s))" "\<not> fst (socket_raw T (snd (ping_calloc T (world s)))) < 0"
    by blast
  then show ?thesis
  proof cases
    case 3
    then show ?thesis using run assms(4) ex by (simp add: defs split: option.splits)
  qed (use run in \<open>simp_all add: defs\<close>)
qed

lemma keeps_world_prints:
  "world (exec_state (mosh_error P fmt args) s) = world s"
  by (rule keepsD, rule keeps_mosh_print) simp_all

lemma held_look_up:
  fixes T :: "('w, 'y) ping_api_scheme" and s :: "('w, 'z) ping_scheme"
  assumes L: "ledger T held" and "src a = None" "dest a = None"
  defines "t \<equiv> exec_state (look_up T a) s" and "a' \<equiv> snd (result (look_up T a) s)"
  shows "held r (world t) = held r (world s) + (if r = Address then addresses a' else 0)"
    and "fst (result (look_up T a) s) \<Longrightarrow> paired a'"
    and "\<not> fst (result (look_up T a) s) \<Longrightarrow> addresses a' = 0" and "ping_len a' = ping_len a"
proof -
  let ?g = "getaddrinfo T (inet_ntop T (local_addr a)) (pdn_service a) (is_v6 (local_addr a)) (pdn_service a \<noteq> None) (world s)"
  let ?h = "getaddrinfo T (target_name a) (pdn_service a) (is_v6 (local_addr a)) (pdn_service a \<noteq> None) (snd ?g)"
  obtain st res w1 where g: "?g = ((st, res), w1)" by (metis prod.collapse)
  obtain st2 res2 w2 where h: "?h = ((st2, res2), w2)" by (metis prod.collapse)
  note G = g [simplified] h [unfolded g, simplified]
  define k :: int where "k = (if r = Address then 1 else 0)"
  have look: "held r (snd (getaddrinfo T n sv v f w)) = held r w + (if fst (fst (getaddrinfo T n sv v f w)) = 0 then k else 0)"
    for n sv v f w
    using L by (simp add: ledger_def k_def)
  have W: "held r w1 = held r (world s) + (if st = 0 then k else 0)"
      "held r w2 = held r w1 + (if st2 = 0 then k else 0)"
    using look [of "inet_ntop T (local_addr a)" "pdn_service a" "is_v6 (local_addr a)" "pdn_service a \<noteq> None" "world s"]
      look [of "target_name a" "pdn_service a" "is_v6 (local_addr a)" "pdn_service a \<noteq> None" w1]
    unfolding g h [unfolded g snd_conv] by simp_all
  have F: "held r (freeaddrinfo T x w) = held r w - k" for x w
    using L unfolding ledger_def k_def by blast
  note defs = t_def a'_def look_up_def exec_simps Let_def addresses_def paired_def
  consider "st \<noteq> 0" | "st = 0" "st2 \<noteq> 0" | "st = 0" "st2 = 0" "is_v6 res \<noteq> is_v6 res2" |
    "st = 0" "st2 = 0" "is_v6 res = is_v6 res2" by blast
  then have "held r (world t) = held r (world s) + k * addresses a' \<and>
      (fst (result (look_up T a) s) \<longrightarrow> paired a') \<and>
      (\<not> fst (result (look_up T a) s) \<longrightarrow> addresses a' = 0) \<and> ping_len a' = ping_len a"
    by cases (use assms(2,3) G W F in \<open>simp_all add: defs\<close>)
  moreover have "k * addresses a' = (if r = Address then addresses a' else 0)" by (simp add: k_def)
  ultimately show "held r (world t) = held r (world s) + (if r = Address then addresses a' else 0)"
    and "fst (result (look_up T a) s) \<Longrightarrow> paired a'"
    and "\<not> fst (result (look_up T a) s) \<Longrightarrow> addresses a' = 0" and "ping_len a' = ping_len a" by simp_all
qed

lemma read_connection_keeps:
  fixes T :: "('w, 'y) ping_api_scheme" and s :: "('w, 'z) ping_scheme" and a :: icmp_ping_shell_cmd_argv
  assumes L: "ledger T held"
  defines "a' \<equiv> snd (result (read_connection T a) s)"
  shows "held r (world (exec_state (read_connection T a) s)) = held r (world s)"
    and "src a' = src a" "dest a' = dest a" "ping_len a' = ping_len a"
proof -
  have step: "src (fst (set_args_step tbl af i)) = src (fst af) \<and> dest (fst (set_args_step tbl af i)) = dest (fst af) \<and>
      ping_len (fst (set_args_step tbl af i)) = ping_len (fst af)" for tbl af i
    by (simp add: set_args_step_def use_context_def Let_def split: prod.split)
  have fold: "src (fst (foldl (set_args_step tbl) af is)) = src (fst af) \<and>
      dest (fst (foldl (set_args_step tbl) af is)) = dest (fst af) \<and>
      ping_len (fst (foldl (set_args_step tbl) af is)) = ping_len (fst af)" for tbl af "is"
    by (induction "is" arbitrary: af) (simp_all add: step)
  obtain ret tbl w where c: "link_api_pdp_contexts_read T (world s) = ((ret, tbl), w)"
    by (metis prod.collapse)
  have w: "held r w = held r (world s)"
    using L c unfolding ledger_def by (metis snd_conv)
  note defs = a'_def read_connection_def exec_simps Let_def use_context_def icmp_ping_set_ping_args_according_to_pdp_ctx_def
  consider "ret \<noteq> 0" | "ret = 0" "tbl = []" | "ret = 0" "tbl \<noteq> []" "ping_cid a = MOSH_ARG_NOT_SET" |
    "ret = 0" "tbl \<noteq> []" "ping_cid a \<noteq> MOSH_ARG_NOT_SET" by blast
  then have "held r (world (exec_state (read_connection T a) s)) = held r (world s) \<and>
      src a' = src a \<and> dest a' = dest a \<and> ping_len a' = ping_len a"
    by cases (use c w in \<open>simp_all add: defs fold split: prod.split\<close>)
  then show "held r (world (exec_state (read_connection T a) s)) = held r (world s)"
    and "src a' = src a" "dest a' = dest a" "ping_len a' = ping_len a" by simp_all
qed

lemma held_connect:
  fixes T :: "('w, 'y) ping_api_scheme" and s :: "('w, 'z) ping_scheme"
  assumes L: "ledger T held" and "src a = None" "dest a = None"
  defines "t \<equiv> exec_state (icmp_ping_current_conn_info_set T a) s"
    and "res \<equiv> result (icmp_ping_current_conn_info_set T a) s"
  shows "held r (world t) = held r (world s) + (if r = Address then addresses (snd res) else 0)"
    and "fst res \<Longrightarrow> paired (snd res)" and "\<not> fst res \<Longrightarrow> addresses (snd res) = 0"
    and "ping_len (snd res) = ping_len a"
proof -
  define c where "c = result (read_connection T a) s"
  define u where "u = exec_state (read_connection T a) s"
  have c: "src (snd c) = None" "dest (snd c) = None" "ping_len (snd c) = ping_len a"
    and u: "held r (world u) = held r (world s)"
    using read_connection_keeps [OF L, where a = a and s = s] assms(2,3) by (simp_all add: c_def u_def)
  note defs = t_def res_def icmp_ping_current_conn_info_set_def exec_simps Let_def c_def [symmetric] u_def [symmetric]
  have "held r (world t) = held r (world s) + (if r = Address then addresses (snd res) else 0) \<and>
      (fst res \<longrightarrow> paired (snd res)) \<and> (\<not> fst res \<longrightarrow> addresses (snd res) = 0) \<and> ping_len (snd res) = ping_len a"
  proof (cases "fst c")
    case True
    define v where "v = exec_state (do {
       doif (\<not> force_ipv6 (snd c) \<and> ping_len (snd c) > mtu (snd c) - of_nat ICMP_IPV4_HDR_LEN - of_nat ICMP_HDR_LEN)
         (ping_warn T (snd c) ''Payload size exceeds the link limits: MTU %d - headers %d = %d ''
           [PInt (if force_ipv6 (snd c) then 1 else 0), PInt 12,
            PInt (sint (mtu (snd c) - of_nat ICMP_IPV4_HDR_LEN - of_nat ICMP_HDR_LEN))]);
       ping_print T (snd c) ''Initiating ping to: %s'' [PStr (target_name (snd c))]
     }) u"
    have "t = exec_state (look_up T (snd c)) v" "res = result (look_up T (snd c)) v"
      using True by (simp_all add: defs v_def)
    moreover have "world v = world u" by (simp add: v_def exec_simps)
    ultimately show ?thesis
      using held_look_up [OF L c(1,2), where s = v] c u by simp
  next
    case False
    then have "t = u" "res = (False, snd c)" by (simp_all add: defs)
    then show ?thesis using c u by (simp add: addresses_def)
  qed
  then show "held r (world t) = held r (world s) + (if r = Address then addresses (snd res) else 0)"
    and "fst res \<Longrightarrow> paired (snd res)" and "\<not> fst res \<Longrightarrow> addresses (snd res) = 0"
    and "ping_len (snd res) = ping_len a" by simp_all
qed

lemma held_free_addr:
  assumes "ledger T held"
  shows "held r (world (exec_state (free_addr T x) s)) =
    held r (world s) - (if r = Address \<and> x \<noteq> None then 1 else 0)"
  using assms by (cases x) (simp_all add: free_addr_def exec_simps ledger_def)

lemma held_refresh:
  fixes T :: "('w, 'y) ping_api_scheme" and s :: "('w, 'z) ping_scheme"
  assumes L: "ledger T held" and "paired a"
  defines "t \<equiv> exec_state (refresh T a) s" and "res \<equiv> result (refresh T a) s"
  shows "held r (world t) + (if r = Address then addresses a else 0) =
      held r (world s) + (if r = Address then addresses (snd res) else 0)"
    and "fst res \<Longrightarrow> paired (snd res)" and "ping_len (snd res) = ping_len a"
proof -
  let ?a = "a\<lparr>dest := None, src := None\<rparr>"
  define v where "v = exec_state (do {
       ping_print T a ''Re-reading PDN context info...'' [];
       free_addr T (dest a);
       free_addr T (src a)
     }) s"
  have v: "held r (world v) = held r (world s) - (if r = Address then addresses a else 0)"
    by (simp add: v_def exec_simps held_free_addr [OF L] addresses_def)
  note C = held_connect [OF L, where a = ?a and s = v, simplified]
  note defs = t_def res_def refresh_def exec_simps Let_def
  have "held r (world t) + (if r = Address then addresses a else 0) =
      held r (world s) + (if r = Address then addresses (snd res) else 0) \<and>
      (fst res \<longrightarrow> paired (snd res)) \<and> ping_len (snd res) = ping_len a"
  proof (cases "pdn_ctx_info_read_uptime a < network_reg_status_updated_uptime s")
    case True
    define p :: "('w, 'z, bool \<times> icmp_ping_shell_cmd_argv) ping_prog"
      where "p = icmp_ping_current_conn_info_set T ?a"
    have "world t = world (exec_state p v)" "res = result p v"
      using True by (simp_all add: defs p_def v_def)
    then show ?thesis using C v by (simp add: p_def)
  next
    case False
    then have "t = s" "res = (True, a)" by (simp_all add: defs)
    then show ?thesis using assms(2) by simp
  qed
  then show "held r (world t) + (if r = Address then addresses a else 0) =
      held r (world s) + (if r = Address then addresses (snd res) else 0)"
    and "fst res \<Longrightarrow> paired (snd res)" and "ping_len (snd res) = ping_len a" by simp_all
qed

lemma held_loop:
  fixes T :: "('w, 'y) ping_api_scheme" and s :: "('w, 'z) ping_scheme"
  assumes L: "ledger T held" and "paired a" "unat (ping_len a) \<le> 1452"
    and "result (ping_loop fuel T n a st) s = Some (a', st', ret)"
  shows "held r (world (exec_state (ping_loop fuel T n a st) s)) + (if r = Address then addresses a else 0) =
    held r (world s) + (if r = Address then addresses a' else 0)"
  using assms(2-4)
proof (induction n arbitrary: a st s)
  case (Suc n)
  define b where "b = result (refresh T a) s"
  define s1 where "s1 = exec_state (refresh T a) s"
  note R = held_refresh [OF L Suc.prems(1), where s = s, folded b_def s1_def]
  let ?q = "if \<not> rai (snd b) then PING_RAI_NONE else if n = 0 then PING_RAI_LAST_PACKET else PING_RAI_ONGOING"
  define p :: "('w, 'z, 32 word option) ping_prog" where "p = send_ping_wait_reply fuel T (snd b) ?q"
  define s2 where "s2 = exec_state p s1"
  note defs = ping_loop.simps exec_simps Let_def b_def [symmetric] s1_def [symmetric] p_def [symmetric] s2_def [symmetric]
  show ?case
  proof (cases "fst b")
    case False
    then have "a' = snd b" using Suc.prems(3) by (simp add: defs)
    then show ?thesis using False R(1) by (simp add: defs)
  next
    case True
    then obtain x where x: "result p s1 = Some x"
      using Suc.prems(3) by (cases "result p s1") (simp_all add: defs)
    have len: "unat (ping_len (snd b)) \<le> 1452" using R(3) Suc.prems(2) by simp
    have s2: "held r (world s2) = held r (world s1)"
      using held_send [OF L R(2) [OF True] len, of fuel ?q s1] x by (simp add: p_def s2_def)
    show ?thesis
    proof (cases "k_poll_signal_check T (kill_signal (snd b)) (world s2)")
      case killed: True
      then have "a' = snd b" using Suc.prems(3) True x by (simp add: defs)
      then show ?thesis using True x killed s2 R(1) L by (simp add: defs ledger_def)
    next
      case False
      define s3 where "s3 = s2\<lparr>world := k_sleep T (ping_interval (snd b)) (world s2)\<rparr>"
      have s3: "held r (world s3) = held r (world s2)" using L by (simp add: s3_def ledger_def)
      have run: "exec_state (ping_loop fuel T (Suc n) a st) s = exec_state (ping_loop fuel T n (snd b) (add_reply x st)) s3"
          "result (ping_loop fuel T (Suc n) a st) s = result (ping_loop fuel T n (snd b) (add_reply x st)) s3"
        using True x False by (simp_all add: defs s3_def)
      show ?thesis
        using Suc.IH [OF R(2) [OF True] len, where s = s3 and st = "add_reply x st"] Suc.prems(3) s2 s3 R(1) [of r]
        unfolding run by (cases "r = Address") simp_all
    qed
  qed
qed (simp add: exec_simps)

lemma print_stats_world [exec_simps]: "world (exec_state (print_stats T a st) s) = world s"
proof -
  have "keeps world (print_stats T a st)"
    unfolding print_stats_def by (intro keeps_intros) simp_all
  then show ?thesis by (rule keepsD)
qed

lemma held_session:
  fixes T :: "('w, 'y) ping_api_scheme" and s :: "('w, 'z) ping_scheme"
  assumes L: "ledger T held" and a: "src a = None" "dest a = None" "unat (ping_len a) \<le> 1452"
    and res: "result (icmp_ping_start_run fuel T a) s \<noteq> None"
  shows "held r (world (exec_state (icmp_ping_start_run fuel T a) s)) = held r (world s)"
proof -
  define b where "b = result (icmp_ping_current_conn_info_set T a) s"
  define s1 where "s1 = exec_state (icmp_ping_current_conn_info_set T a) s"
  note C = held_connect [OF L a(1,2), where s = s, folded b_def s1_def]
  let ?n = "unat (ping_count (snd b))"
  define p :: "('w, 'z, (icmp_ping_shell_cmd_argv \<times> ping_stats \<times> int) option) ping_prog"
    where "p = ping_loop fuel T ?n (snd b) no_stats"
  note defs = icmp_ping_start_run_def exec_simps Let_def b_def [symmetric] s1_def [symmetric] p_def [symmetric]
  show ?thesis
  proof (cases "fst b")
    case True
    then obtain a' st ret where x: "result p s1 = Some (a', st, ret)"
      using res by (cases "result p s1") (simp_all add: defs, metis prod_cases3)
    have "held r (world (exec_state p s1)) + (if r = Address then addresses (snd b) else 0) =
        held r (world s1) + (if r = Address then addresses a' else 0)"
      unfolding p_def by (rule held_loop [OF L C(2) [OF True]]) (use C(4) a(3) x in \<open>simp_all add: p_def\<close>)
    then show ?thesis
      using True x C(1) by (simp add: defs held_free_addr [OF L] addresses_def)
  next
    case False
    then show ?thesis using C(1,3) by (simp add: defs)
  qed
qed

subsection \<open>Statistics and options\<close>

lemma fold_add_reply:
  fixes ts :: "32 word list"
  defines "pos \<equiv> filter (\<lambda>t. 0 < t) ts"
  shows "count (fold add_reply ts st) = count st + of_nat (length pos)"
    and "ping_stats.sum (fold add_reply ts st) = ping_stats.sum st + sum_list ts"
    and "rtt_min (fold add_reply ts st) \<le> rtt_min st" "rtt_max st \<le> rtt_max (fold add_reply ts st)"
    and "t \<in> set pos \<Longrightarrow> rtt_min (fold add_reply ts st) \<le> t \<and> t \<le> rtt_max (fold add_reply ts st)"
proof -
  have step: "rtt_min (add_reply x st) \<le> rtt_min st" "rtt_max st \<le> rtt_max (add_reply x st)"
    "0 < x \<Longrightarrow> rtt_min (add_reply x st) \<le> x \<and> x \<le> rtt_max (add_reply x st)" for x st
    by (simp_all add: add_reply_def)
  have bounds: "rtt_min (fold add_reply ts st) \<le> rtt_min st \<and> rtt_max st \<le> rtt_max (fold add_reply ts st)" for ts st
    by (induction ts arbitrary: st) (auto intro: order_trans step)
  then show "rtt_min (fold add_reply ts st) \<le> rtt_min st" "rtt_max st \<le> rtt_max (fold add_reply ts st)" by auto
  show "count (fold add_reply ts st) = count st + of_nat (length pos)"
    unfolding pos_def by (induction ts arbitrary: st) (simp_all add: add_reply_def)
  show "ping_stats.sum (fold add_reply ts st) = ping_stats.sum st + sum_list ts"
    by (induction ts arbitrary: st) (simp_all add: add_reply_def word_gt_0)
  show "t \<in> set pos \<Longrightarrow> rtt_min (fold add_reply ts st) \<le> t \<and> t \<le> rtt_max (fold add_reply ts st)"
    unfolding pos_def
  proof (induction ts arbitrary: st)
    case (Cons x ts)
    show ?case
    proof (cases "t = x \<and> 0 < x")
      case True
      then show ?thesis using step(3) [of x st] bounds [of ts "add_reply x st"] by auto
    next
      case False
      then have "t \<in> set (filter (\<lambda>t. 0 < t) ts)" using Cons.prems by (auto split: if_splits)
      then show ?thesis using Cons.IH [of "add_reply x st"] by simp
    qed
  qed simp
qed

text \<open>
  What the requests of a session return, in order: those of the loop that are made and not
  killed. It is the specification of what the statistics are about.
\<close>

fun request_times :: "nat \<Rightarrow> ('w, 'y) ping_api_scheme \<Rightarrow> nat \<Rightarrow> icmp_ping_shell_cmd_argv \<Rightarrow> ('w, 'z) ping_scheme \<Rightarrow>
    32 word list" where
  "request_times fuel T 0 a s = []"
| "request_times fuel T (Suc left) a s =
     (let ok = fst (result (refresh T a) s); b = snd (result (refresh T a) s);
          request = send_ping_wait_reply fuel T b
            (if \<not> rai b then PING_RAI_NONE else if left = 0 then PING_RAI_LAST_PACKET else PING_RAI_ONGOING);
          s\<^sub>1 = exec_state (refresh T a) s; s\<^sub>2 = exec_state request s\<^sub>1
      in if \<not> ok then [] else (case result request s\<^sub>1 of
           None \<Rightarrow> []
         | Some time \<Rightarrow> if k_poll_signal_check T (kill_signal b) (world s\<^sub>2) then []
             else time # request_times fuel T left b (s\<^sub>2\<lparr>world := k_sleep T (ping_interval b) (world s\<^sub>2)\<rparr>)))"

lemma loop_stats:
  fixes s :: "('w, 'z) ping_scheme"
  assumes "result (ping_loop fuel T n a st) s = Some (a', st', ret)"
  shows "st' = fold add_reply (request_times fuel T n a s) st"
  using assms
proof (induction n arbitrary: a st s)
  case (Suc n)
  define b where "b = result (refresh T a) s"
  define s1 where "s1 = exec_state (refresh T a) s"
  define p :: "('w, 'z, 32 word option) ping_prog" where "p = send_ping_wait_reply fuel T (snd b)
    (if \<not> rai (snd b) then PING_RAI_NONE else if n = 0 then PING_RAI_LAST_PACKET else PING_RAI_ONGOING)"
  have times: "request_times fuel T (Suc n) a s = (if \<not> fst b then [] else (case result p s1 of
           None \<Rightarrow> []
         | Some time \<Rightarrow> if k_poll_signal_check T (kill_signal (snd b)) (world (exec_state p s1)) then []
             else time # request_times fuel T n (snd b) ((exec_state p s1)\<lparr>world :=
               k_sleep T (ping_interval (snd b)) (world (exec_state p s1))\<rparr>)))"
    unfolding request_times.simps Let_def b_def s1_def p_def by (rule refl)
  note defs = ping_loop.simps exec_simps Let_def b_def [symmetric] s1_def [symmetric] p_def [symmetric]
  show ?case
  proof (cases "fst b")
    case True
    then obtain x where x: "result p s1 = Some x"
      using Suc.prems by (cases "result p s1") (simp_all add: defs)
    show ?thesis
    proof (cases "k_poll_signal_check T (kill_signal (snd b)) (world (exec_state p s1))")
      case False
      then have "result (ping_loop fuel T n (snd b) (add_reply x st))
          ((exec_state p s1)\<lparr>world := k_sleep T (ping_interval (snd b)) (world (exec_state p s1))\<rparr>) = Some (a', st', ret)"
        using Suc.prems True x by (simp add: defs)
      then show ?thesis unfolding times using Suc.IH True x False by simp
    qed (unfold times, use Suc.prems True x in \<open>simp add: defs\<close>)
  qed (unfold times, use Suc.prems in \<open>simp add: defs\<close>)
qed (simp add: exec_simps)

lemma length_request_times: "length (request_times fuel T n a s) \<le> n"
  by (induction n arbitrary: a s) (auto simp: Let_def split: option.splits)

lemma fold_add_reply_hit:
  assumes "ts \<noteq> []" "0 \<notin> set ts"
  shows "rtt_min (fold add_reply ts st) \<in> insert (rtt_min st) (set ts)"
    and "rtt_max (fold add_reply ts st) \<in> insert (rtt_max st) (set ts)"
proof -
  show "rtt_min (fold add_reply ts st) \<in> insert (rtt_min st) (set ts)" for ts :: "32 word list" and st
    by (induction ts arbitrary: st) (force simp: add_reply_def min_def split: if_splits)+
  show "rtt_max (fold add_reply ts st) \<in> insert (rtt_max st) (set ts)" for ts :: "32 word list" and st
    by (induction ts arbitrary: st) (force simp: add_reply_def max_def split: if_splits)+
qed

text \<open>The statistics of any list of results are those of its times that are not zero.\<close>

lemma stats_of_times:
  fixes ts :: "32 word list"
  defines "pos \<equiv> filter (\<lambda>t. 0 < t) ts" and "st \<equiv> fold add_reply ts no_stats"
  assumes "length ts < 2 ^ 32"
  shows "unat (count st) = length pos" "ping_stats.sum st = sum_list pos"
    and "pos \<noteq> [] \<Longrightarrow> rtt_min st = Min (set pos) \<and> rtt_max st = Max (set pos)"
proof -
  have "length pos \<le> length ts" by (simp add: pos_def)
  then have "length pos < 2 ^ 32" using assms(3) by linarith
  then show "unat (count st) = length pos"
    using fold_add_reply(1) [of ts no_stats]
    by (simp add: st_def pos_def no_stats_def unsigned_of_nat take_bit_nat_eq_self)
  have "sum_list pos = sum_list ts" unfolding pos_def by (induction ts) (auto simp: word_gt_0)
  then show "ping_stats.sum st = sum_list pos"
    using fold_add_reply(2) [of ts no_stats] by (simp add: st_def no_stats_def)
  assume pos: "pos \<noteq> []"
  have "add_reply = (\<lambda>t. if 0 < t then add_reply t else id)"
    by (intro ext) (simp add: add_reply_def)
  then have "fold add_reply ts = fold (\<lambda>t. if 0 < t then add_reply t else id) ts"
    by (rule arg_cong)
  then have "st = fold add_reply pos no_stats"
    unfolding st_def pos_def fold_filter by simp
  then have hit: "rtt_min st \<in> insert 0xFFFFFFFF (set pos)" "rtt_max st \<in> insert 0 (set pos)"
    using fold_add_reply_hit [of pos no_stats] pos by (auto simp: pos_def no_stats_def)
  have bounds: "rtt_min st \<le> t \<and> t \<le> rtt_max st" if "t \<in> set pos" for t
    using fold_add_reply(5) [of t ts no_stats] that by (simp add: st_def pos_def)
  obtain t where t: "t \<in> set pos" using pos by (cases pos) auto
  have "0 < t" using t by (simp add: pos_def)
  have top: "x \<le> 0xFFFFFFFF" for x :: "32 word"
  proof -
    have "(0xFFFFFFFF :: 32 word) = - 1" by simp
    then show ?thesis by (simp only: word_n1_ge)
  qed
  have "rtt_min st \<in> set pos"
    using hit(1) bounds [OF t] t top [of t] by (auto dest: antisym)
  moreover have "rtt_max st \<in> set pos"
    using hit(2) bounds [OF t] t \<open>0 < t\<close> by auto
  ultimately show "rtt_min st = Min (set pos) \<and> rtt_max st = Max (set pos)"
    using bounds by (auto intro!: Min_eqI [symmetric] Max_eqI [symmetric])
qed

lemma sum_between:
  fixes xs :: "nat list"
  assumes "\<And>x. x \<in> set xs \<Longrightarrow> l \<le> x \<and> x \<le> u"
  shows "l * length xs \<le> sum_list xs \<and> sum_list xs \<le> u * length xs"
  using assms by (induction xs) force+

lemma sum_positive:
  "sum_list (map unat (filter (\<lambda>t. 0 < t) ts)) = sum_list (map unat (ts :: 32 word list))"
  by (induction ts) (auto simp: word_gt_0)

lemma average_between:
  fixes ts :: "32 word list"
  defines "st \<equiv> fold add_reply ts no_stats"
  assumes n: "length ts < 2 ^ 32" and sum: "sum_list (map unat ts) < 2 ^ 32" and pos: "0 < count st"
  shows "rtt_min st \<le> ping_stats.sum st div count st" "ping_stats.sum st div count st \<le> rtt_max st"
proof -
  define xs where "xs = map unat (filter (\<lambda>t. 0 < t) ts)"
  have len: "length xs \<le> length ts" by (simp add: xs_def)
  have "length xs < 2 ^ 32" using len n by simp
  then have c: "unat (count st) = length xs"
    using fold_add_reply(1) [of ts no_stats]
    by (simp add: st_def xs_def no_stats_def unsigned_of_nat take_bit_nat_eq_self)
  have su: "sum_list xs = sum_list (map unat ts)" unfolding xs_def by (rule sum_positive)
  have "unat (sum_list ts) = sum_list (map unat ts)"
    using sum
  proof (induction ts)
    case (Cons t ts)
    then show ?case by (simp add: unat_word_ariths)
  qed simp
  then have s: "unat (ping_stats.sum st) = sum_list xs"
    using fold_add_reply(2) [of ts no_stats] su by (simp add: st_def no_stats_def)
  have "unat (rtt_min st) \<le> x \<and> x \<le> unat (rtt_max st)" if "x \<in> set xs" for x
    using that fold_add_reply(5) [of _ ts no_stats] by (auto simp: xs_def st_def word_le_nat_alt)
  from sum_between [OF this, of xs] have
    "unat (rtt_min st) * unat (count st) \<le> unat (ping_stats.sum st)"
    "unat (ping_stats.sum st) \<le> unat (rtt_max st) * unat (count st)"
    by (simp_all add: c s)
  moreover have "0 < unat (count st)" using pos by (simp add: word_gt_0 unat_gt_0)
  ultimately show "rtt_min st \<le> ping_stats.sum st div count st" "ping_stats.sum st div count st \<le> rtt_max st"
    by (simp_all add: word_le_nat_alt unat_div_distrib less_eq_div_iff_mult_less_eq div_le_mono [THEN order_trans])
qed

definition args_safe :: "icmp_ping_shell_cmd_argv \<Rightarrow> bool" where
  "args_safe a \<longleftrightarrow> unat (ping_len a) \<le> ICMP_IPV4_MAX_LEN \<and> length (target_name a) \<le> ICMP_MAX_ADDR \<and>
     src a = None \<and> dest a = None"

lemma ping_option_safe:
  assumes "args_safe a" "result (ping_option T argv x a) s = Some a'"
  shows "args_safe a'"
proof -
  obtain c optarg i where x: "x = (c, optarg, i)" by (metis prod_cases3)
  have len: "unat (ping_len (a\<lparr>ping_len := v\<rparr>)) \<le> 1472" if "\<not> 1472 < v" for v
    using that by (simp add: word_less_nat_alt)
  show ?thesis
    using assms unfolding x ping_option_def
    by (auto simp: exec_simps args_safe_def word_less_nat_alt ping_consts split: if_splits)
qed

lemma ping_options_safe:
  assumes "args_safe a" "result (ping_options T argv xs a) s = Some a'"
  shows "args_safe a'"
  using assms
proof (induction xs arbitrary: a s)
  case (Cons x xs)
  then obtain b where b: "result (ping_option T argv x a) s = Some b"
    by (cases "result (ping_option T argv x a) s") (simp_all add: exec_simps)
  then show ?case
    using Cons.IH [OF ping_option_safe [OF Cons.prems(1) b]] Cons.prems(2) by (simp add: exec_simps)
qed (simp add: exec_simps)

text \<open>
  A packet that passes for no reply, whatever the sequence number and whatever the buffer held
  before; and a network on which no request is answered: there is memory for the requests and no
  such packet arrives (\<open>recv\<close> may also fail).
\<close>

definition refused :: "int \<Rightarrow> 8 word list \<Rightarrow> bool" where
  "refused len bytes \<longleftrightarrow> (\<forall>rep q buf d. wanted_protocol rep (blit buf 0 (take (nat len) bytes)) \<longrightarrow>
     check_reply rep q (blit buf 0 (take (nat len) bytes)) len \<noteq> Some (Reply d))"

definition unanswered :: "('w, 'y) ping_api_scheme \<Rightarrow> bool" where
  "unanswered T \<longleftrightarrow> (\<forall>w. fst (ping_calloc T w)) \<and> (\<forall>fd w. fst (setsockopt T fd (SO_RAI RAI_NO_DATA) w) = 0) \<and>
     (\<forall>fd n w. refused (fst (fst (recv T fd n w))) (snd (fst (recv T fd n w))) \<or>
        fst (fst (recv T fd n w)) \<le> 0 \<and> errno T (snd (recv T fd n w)) \<notin> {EAGAIN T, EWOULDBLOCK T})"

lemma parse_refused:
  assumes "unanswered T" "refused len bytes" "wanted_protocol rep (blit buf 0 (take (nat len) bytes))"
  shows "result (parse_reply T a fd rep r (blit buf 0 (take (nat len) bytes)) len d timeout) s \<in> {None, Some 0}"
proof -
  define b where "b = blit buf 0 (take (nat len) bytes)"
  have "check_reply rep q b len \<noteq> Some (Reply k)" for q k
    using assms(2,3) by (auto simp: refused_def b_def)
  moreover have "fst (setsockopt T fd (SO_RAI RAI_NO_DATA) w) = 0" for w
    using assms(1) by (simp add: unanswered_def)
  ultimately show ?thesis
    unfolding b_def [symmetric] parse_reply_def
    by (auto simp: exec_simps set_rai_def abort_def split: option.split verdict.split)
qed

lemma wait_unanswered:
  fixes s :: "('w, 'z) ping_scheme"
  assumes "unanswered T"
  shows "result (wait_for_data fuel T a fd rep r buf timeout) s \<in> {None, Some 0}"
proof (induction fuel arbitrary: s buf timeout)
  case (Suc fuel)
  define w1 where "w1 = snd (poll_in T fd timeout (world s))"
  obtain len bytes w2 where r: "recv T fd ICMP_DEFAULT_LINK_MTU w1 = ((len, bytes), w2)"
    by (metis prod.collapse)
  define b where "b = blit buf 0 (take (nat len) bytes)"
  consider "len \<le> 0" "errno T w2 \<noteq> EAGAIN T" "errno T w2 \<noteq> EWOULDBLOCK T" | "refused len bytes"
    using assms r unfolding unanswered_def by (metis fst_conv insert_iff snd_conv)
  then show ?case
  proof cases
    case 1
    then show ?thesis
      by (simp add: exec_simps Let_def k_uptime_delta_def w1_def [symmetric] r)
  next
    case 2
    have parse: "x = 0" if "result (parse_reply T a fd rep r b len d t) u = Some x" "wanted_protocol rep b"
      for d t x and u :: "('w, 'z) ping_scheme"
      using parse_refused [OF assms 2, of rep buf a fd r d t u] that unfolding b_def by simp
    show ?thesis
      using Suc.IH
      by (auto simp: exec_simps Let_def k_uptime_delta_def w1_def [symmetric] r b_def [symmetric]
          split: option.split dest: parse)
  qed
qed (simp add: exec_simps)

definition no_time :: "('s, int option) prog \<Rightarrow> bool" where
  "no_time p \<longleftrightarrow> (\<forall>s. result p s \<in> {None, Some 0})"

named_theorems no_time_intros \<open>rules of operations that report no round trip time\<close>

lemma no_time_rules [no_time_intros]:
  "(\<And>x. no_time (q x)) \<Longrightarrow> no_time (State_Monad.bind p q)" "no_time (return (Some 0))"
  "no_time f \<Longrightarrow> no_time g \<Longrightarrow> no_time (if c then f else g)" "no_time (h x) \<Longrightarrow> no_time (Let x h)"
  by (simp_all add: no_time_def exec_simps)

lemma exchange_unanswered:
  assumes "unanswered T"
  shows "no_time (exchange fuel T a r fd req rep :: ('w, 'z, int option) ping_prog)"
proof -
  have wait: "no_time (wait_for_data fuel T a fd rep r buf timeout :: ('w, 'z, int option) ping_prog)" for buf timeout
    unfolding no_time_def using wait_unanswered [OF assms] by blast
  show ?thesis unfolding exchange_def by (intro no_time_intros wait)
qed

lemma send_unanswered:
  fixes s :: "('w, 'z) ping_scheme"
  assumes "unanswered T" "result (send_ping_wait_reply fuel T a r) s = Some t"
  shows "t = 0"
proof -
  have "fst (ping_calloc T w)" for w using assms(1) by (simp add: unanswered_def)
  moreover have zero: "d = 0" if "result (exchange fuel T a r fd req rep) u = Some d" for fd req rep d and u :: "('w, 'z) ping_scheme"
    using exchange_unanswered [OF assms(1), unfolded no_time_def, rule_format, of fuel a r fd req rep u] that by simp
  ultimately show ?thesis
    using assms(2)
    by (auto simp: send_ping_wait_reply_def exec_simps abort_def split: option.splits prod.splits if_splits dest: zero)
qed

lemma send_no_memory:
  "\<not> fst (ping_calloc T (world s)) \<Longrightarrow> result (send_ping_wait_reply fuel T a r) s = Some (-1)"
  by (simp add: send_ping_wait_reply_def exec_simps)

lemma times_all:
  fixes s :: "('w, 'z) ping_scheme"
  assumes "\<And>a r t. \<And>s :: ('w, 'z) ping_scheme. result (send_ping_wait_reply fuel T (a :: icmp_ping_shell_cmd_argv) r) s = Some t \<Longrightarrow> P t"
  shows "list_all P (request_times fuel T n a s)"
proof (induction n arbitrary: a s)
  case (Suc n)
  define r where "r = (if \<not> rai (snd (result (refresh T a) s)) then PING_RAI_NONE
    else if n = 0 then PING_RAI_LAST_PACKET else PING_RAI_ONGOING)"
  show ?case
    unfolding request_times.simps Let_def r_def [symmetric] using Suc by (auto split: option.split intro: assms [of _ r])
qed simp

subsection \<open>A world to try it in\<close>

text \<open>The counters of a ledger, and whether one packet is waiting.\<close>

record ping_world =
  buffers :: int
  sockets :: int
  addresses_out :: int
  waiting :: bool

definition test_ping :: "ping_world ping_api" where
  "test_ping = \<lparr>clock_utc = (\<lambda>_. (\<lparr>tm_sec = 0, tm_min = 0, tm_hour = 0, tm_mday = 1, tm_mon = 0, tm_year = 125\<rparr>, 0)),
     vsnprintfcb = (\<lambda>n f _. (int (length f), take (n - 1) f)),
     ping_calloc = (\<lambda>w. (True, w\<lparr>buffers := buffers w + 1\<rparr>)),
     ping_free = (\<lambda>w. w\<lparr>buffers := buffers w - 1\<rparr>),
     socket_raw = (\<lambda>w. (3, w\<lparr>sockets := sockets w + 1\<rparr>)), errno = (\<lambda>_. 0), setsockopt = (\<lambda>_ _ w. (0, w)),
     send = (\<lambda>_ bs w. (int (length bs), w)), set_nonblock = (\<lambda>_ w. w),
     poll_in = (\<lambda>_ _ w. (if waiting w then 1 else 0, w)),
     recv = (\<lambda>_ _ w. ((20, replicate 20 0), w\<lparr>waiting := False\<rparr>)),
     close_fd = (\<lambda>_ w. w\<lparr>sockets := sockets w - 1\<rparr>), k_uptime_get = (\<lambda>_. 1000), k_sleep = (\<lambda>_ w. w),
     k_poll_signal_check = (\<lambda>_ _. False), k_poll_signal_reset = (\<lambda>_ w. w), mosh_signal = 0,
     getaddrinfo = (\<lambda>_ _ _ _ w. ((0, V4 0x0100007F), w\<lparr>addresses_out := addresses_out w + 1\<rparr>)),
     freeaddrinfo = (\<lambda>_ w. w\<lparr>addresses_out := addresses_out w - 1\<rparr>), inet_ntop = (\<lambda>_. ''127.0.0.1''),
     link_api_pdp_contexts_read = (\<lambda>w. ((0, [\<lparr>pdp_cid = 0, ipv4_mtu = 1500, pdp_pdn_id = 0, pdn_id_valid = True,
       apn_str = ''apn'', pdp_type = 1, ip_addr4 = 0x0100007F, ip_addr6 = replicate 16 0\<rparr>]), w)),
     link_api_rai_status = (\<lambda>w. (False, w)), lte_lc_register_ping_handler = (\<lambda>w. w), EAGAIN = 11, EWOULDBLOCK = 11,
     sys_getopt_long = (\<lambda>argv. ([(CHR ''d'', argv ! 2, 3)], 3))\<rparr>"

definition ping_boot :: "ping_world ping" where
  "ping_boot = \<lparr>world = \<lparr>buffers = 0, sockets = 0, addresses_out = 0, waiting = True\<rparr>,
     at_cmd_mode_dont_print = False, mosh_print_timestamp_use = False, mosh_print_cloud_echo = False,
     console = [], cloud_out = [], aborted = False, seqnr = 0, start_t = 0,
     network_reg_status_updated_uptime = 0, print_out = []\<rparr>"

definition count_held :: "resource \<Rightarrow> ping_world \<Rightarrow> int" where
  "count_held r w = (case r of Buffer \<Rightarrow> buffers w | Socket \<Rightarrow> sockets w | Address \<Rightarrow> addresses_out w)"

lemma test_ping_ledger: "ledger test_ping count_held"
  by (auto simp: ledger_def test_ping_def count_held_def split: resource.split)

lemma test_ping_drains: "drains test_ping (\<lambda>w. if waiting w then 1 else 0)"
  by (simp add: drains_def test_ping_def)

text \<open>
  A network that sends every request back after 20 ms; the world is the uptime and the last packet
  sent.
\<close>

definition echo_ping :: "(int \<times> 8 word list) ping_api" where
  "echo_ping = \<lparr>clock_utc = (\<lambda>_. (\<lparr>tm_sec = 0, tm_min = 0, tm_hour = 0, tm_mday = 1, tm_mon = 0, tm_year = 125\<rparr>, 0)),
     vsnprintfcb = (\<lambda>n f _. (int (length f), take (n - 1) f)),
     ping_calloc = (\<lambda>w. (True, w)), ping_free = (\<lambda>w. w),
     socket_raw = (\<lambda>w. (3, w)), errno = (\<lambda>_. 0), setsockopt = (\<lambda>_ _ w. (0, w)),
     send = (\<lambda>_ bs w. (int (length bs), (fst w, bs))), set_nonblock = (\<lambda>_ w. w),
     poll_in = (\<lambda>_ _ w. (1, w)),
     recv = (\<lambda>_ _ w. ((int (length (snd w)), snd w), (fst w + 20, snd w))),
     close_fd = (\<lambda>_ w. w), k_uptime_get = fst, k_sleep = (\<lambda>ms w. (fst w + uint ms, snd w)),
     k_poll_signal_check = (\<lambda>_ _. False), k_poll_signal_reset = (\<lambda>_ w. w), mosh_signal = 0,
     getaddrinfo = (\<lambda>_ _ _ _ w. ((0, V4 0x0100007F), w)), freeaddrinfo = (\<lambda>_ w. w), inet_ntop = (\<lambda>_. ''127.0.0.1''),
     link_api_pdp_contexts_read = (\<lambda>w. ((0, []), w)), link_api_rai_status = (\<lambda>w. (False, w)),
     lte_lc_register_ping_handler = (\<lambda>w. w), EAGAIN = 11, EWOULDBLOCK = 11, sys_getopt_long = (\<lambda>argv. ([], 1))\<rparr>"

definition echo_args :: icmp_ping_shell_cmd_argv where
  "echo_args = (icmp_ping_cmd_defaults_set echo_ping)\<lparr>ping_len := 32, src := Some (V4 1), dest := Some (V4 2)\<rparr>"

definition echo_boot :: "(int \<times> 8 word list) ping" where
  "echo_boot = \<lparr>world = (1000, []), at_cmd_mode_dont_print = False, mosh_print_timestamp_use = False,
     mosh_print_cloud_echo = False, console = [], cloud_out = [], aborted = False, seqnr = 0, start_t = 0,
     network_reg_status_updated_uptime = 0, print_out = []\<rparr>"

lemma blit_self: "blit b 0 (take n b) = b"
  by (cases "n \<le> length b") (simp_all add: blit_def)

lemma echo_calls:
  "ping_calloc echo_ping w = (True, w)" "ping_free echo_ping w = w" "socket_raw echo_ping w = (3, w)"
  "setsockopt echo_ping fd opt w = (0, w)" "send echo_ping fd bs w = (int (length bs), (fst w, bs))"
  "set_nonblock echo_ping fd w = w" "poll_in echo_ping fd ms w = (1, w)"
  "recv echo_ping fd n w = ((int (length (snd w)), snd w), (fst w + 20, snd w))"
  "close_fd echo_ping fd w = w" "k_uptime_get echo_ping w = fst w" "k_poll_signal_check echo_ping k w = False"
  by (simp_all add: echo_ping_def)

lemma echo_arg_values:
  "ping_len echo_args = 32" "src echo_args = Some (V4 1)" "dest echo_args = Some (V4 2)" "ping_timeout echo_args = 3000"
  "ping_cid echo_args = MOSH_ARG_NOT_SET" "rai echo_args = False" "pdn_ctx_info_read_uptime echo_args = 0"
  by (simp_all add: echo_args_def icmp_ping_cmd_defaults_set_def icmp_ping_args.defs icmp_ping_cmd_defaults_def
      ICMP_PARAM_TIMEOUT_DEFAULT_def echo_ping_def)

lemma uptime_kept:
  "network_reg_status_updated_uptime (exec_state (ping_print T a f x) u) = network_reg_status_updated_uptime u"
  by (rule keepsD [OF keeps_ping_print(1)]) (simp add: print_free_def)

lemma echo_built:
  obtains q where "ipv4_request 32 1 2 n = Some q" "length (req_buf q) = 1500" "unat (req_len q) = 60"
proof -
  have t: "unat (ipv4_total_length 32) = 60" by (simp add: ipv4_length)
  obtain h where h: "ipv4_headers 32 1 2 = Some h" "length h = 1500"
    using ipv4_headers_ok by blast
  obtain f where "ipv4_icmp (ipv4_total_length 32) (next_seqnr n) h = Some f" "length f = 1500"
    by (rule ipv4_icmp_some [OF h(2), of "ipv4_total_length 32" "next_seqnr n"]) (use t in simp_all)
  then show ?thesis
    by (intro that [of "\<lparr>req_buf = f, req_len = ipv4_total_length 32, req_seqnr = next_seqnr n\<rparr>"]) (use h t in \<open>simp_all add: ipv4_request_split\<close>)
qed

lemma echo_request:
  fixes s :: "(int \<times> 8 word list) ping"
  defines "p \<equiv> send_ping_wait_reply 2 echo_ping echo_args PING_RAI_NONE :: ((int \<times> 8 word list) ping, 32 word option) prog"
  shows "result p s = Some 20"
    and "network_reg_status_updated_uptime (exec_state p s) = network_reg_status_updated_uptime s"
proof -
  obtain q where q: "ipv4_request 32 1 2 (seqnr s) = Some q" "length (req_buf q) = 1500" "unat (req_len q) = 60"
    by (rule echo_built)
  have "uint (req_len q) = 60" using q(3) by (metis int_nat_eq of_nat_numeral uint_nat)
  then have checks: "check_reply ICMP_ECHO_REP (req_seqnr q) (req_buf q) 60 = Some (Reply 32)"
      "wanted_protocol ICMP_ECHO_REP (req_buf q)"
    using ipv4_request_checks [OF q(1)] by simp_all
  define u where "u = s\<lparr>seqnr := req_seqnr q, world := (fst (world s), take 60 (req_buf q)), start_t := fst (world s)\<rparr>"
  note wait_run = u_def exec_simps numeral_2_eq_2 echo_calls k_uptime_delta_def time_left_def parse_reply_def checks blit_self
    header_len_def ICMP_IPV4_HDR_LEN_def q(2) Let_def echo_arg_values
  have wait: "result (wait_for_data 2 echo_ping echo_args 3 ICMP_ECHO_REP PING_RAI_NONE (req_buf q) 3000) u = Some 20"
      "network_reg_status_updated_uptime (exec_state (wait_for_data 2 echo_ping echo_args 3 ICMP_ECHO_REP PING_RAI_NONE
        (req_buf q) 3000) u) = network_reg_status_updated_uptime s"
    by (simp_all add: wait_run uptime_kept)
  note run = p_def send_ping_wait_reply_def exec_simps echo_arg_values q build_request_def exchange_def k_uptime_delta_def
    time_left_def echo_calls Let_def u_def [symmetric]
  show "result p s = Some 20" "network_reg_status_updated_uptime (exec_state p s) = network_reg_status_updated_uptime s"
    using wait by (simp_all add: run del: wait_for_data.simps)
qed

lemma echo_session:
  fixes s :: "(int \<times> 8 word list) ping"
  assumes "network_reg_status_updated_uptime s = 0"
  shows "request_times 2 echo_ping n echo_args s = replicate n 20"
    and "\<exists>st. result (ping_loop 2 echo_ping n echo_args st0) s = Some (echo_args, st, 0)"
proof -
  show "request_times 2 echo_ping n echo_args s = replicate n 20"
    using assms by (induction n arbitrary: s) (simp_all add: refresh_def exec_simps echo_arg_values echo_calls echo_request)
  show "\<exists>st. result (ping_loop 2 echo_ping n echo_args st0) s = Some (echo_args, st, 0)"
    using assms by (induction n arbitrary: s st0) (simp_all add: refresh_def exec_simps echo_arg_values echo_calls echo_request)
qed

subsection \<open>Properties\<close>



text \<open>
  C26: The other side of it: the timeout is counted from the last packet, so a wait does not end at all
  while packets of another protocol keep coming, each before the timeout of the ping has passed
  since the one before. Whatever the fuel, the wait runs out of it.
\<close>

theorem ping_wait_starved:
  fixes s :: "('w, 'z) ping_scheme"
  assumes traffic: "\<And>t w. 0 < fst (poll_in T fd t w)" "\<And>w. fst (recv T fd ICMP_DEFAULT_LINK_MTU w) = (int (length p), p)"
    and other: "IP_PROTOCOL_POS < length p" "p ! IP_PROTOCOL_POS \<noteq> ICMP"
    and clock: "\<And>t w. 0 < time_left a (k_uptime_get T (snd (recv T fd ICMP_DEFAULT_LINK_MTU (snd (poll_in T fd t w)))) - k_uptime_get T w)"
    and start: "start_t s = k_uptime_get T (world s)" "0 < timeout"
  shows "result (wait_for_data fuel T a fd ICMP_ECHO_REP r buf timeout) s = None"
  using start
proof (induction fuel arbitrary: s buf timeout)
  case (Suc fuel)
  define w1 where "w1 = snd (recv T fd ICMP_DEFAULT_LINK_MTU (snd (poll_in T fd timeout (world s))))"
  let ?buf = "blit buf 0 (take (nat (int (length p))) p)" and ?d = "k_uptime_get T w1 - k_uptime_get T (world s)"
  define s1 where "s1 = s\<lparr>world := w1, start_t := k_uptime_get T w1\<rparr>"
  define s2 where "s2 = (if int (length p) < int (header_len ICMP_ECHO_REP)
    then exec_state (ping_error T a ''recv() wrong data (%d)'' [PInt (int (length p))]) s1 else s1)"
  have proto: "\<not> wanted_protocol ICMP_ECHO_REP ?buf"
    using other by (simp add: wanted_protocol_def blit_def nth_append ICMP_ECHO_REP_def ICMP6_ECHO_REP_def)
  have kept: "start_t (exec_state (ping_error T a f x) s1) = start_t s1" for f x
    by (rule keepsD [OF keeps_ping_print(3)]) (simp add: print_free_def)
  have s2: "start_t s2 = k_uptime_get T (world s2)"
    using kept by (simp add: s2_def exec_simps) (simp add: s1_def)
  have "p \<noteq> []" using other(1) by auto
  then have run: "result (wait_for_data (Suc fuel) T a fd ICMP_ECHO_REP r buf timeout) s =
      result (wait_for_data fuel T a fd ICMP_ECHO_REP r ?buf (time_left a ?d)) s2"
    using Suc.prems traffic(1) [of timeout "world s"] other(1) proto
    by (simp add: exec_simps traffic(2) k_uptime_delta_def Let_def w1_def [symmetric] s1_def [symmetric] s2_def)
  show ?case
    unfolding run by (rule Suc.IH [OF s2]) (use clock [of timeout "world s"] in \<open>simp add: w1_def\<close>)
qed (simp add: exec_simps)

definition busy_ping :: "ping_world ping_api" where
  "busy_ping = test_ping\<lparr>poll_in := (\<lambda>_ _ w. (1, w))\<rparr>"

theorem ping_wait_starved_witness:
  "result (wait_for_data 1000 busy_ping (icmp_ping_cmd_defaults_set busy_ping) 3 ICMP_ECHO_REP PING_RAI_NONE
    alloc_buf 3000) (ping_boot\<lparr>start_t := 1000\<rparr>) = None"
  by (rule ping_wait_starved [where p = "replicate 20 0"])
    (simp_all add: busy_ping_def test_ping_def ping_consts time_left_def icmp_ping_cmd_defaults_set_def
      icmp_ping_cmd_defaults_def icmp_ping_args.defs ICMP_PARAM_TIMEOUT_DEFAULT_def)

text \<open>
  C4: A session gives back what it took: after it as many request buffers, sockets and looked-up
  addresses are in use as before, whichever call failed, whenever the registration changed and
  the contexts were read again, and also when it was killed. The payload is one that fits the buffer.
\<close>

theorem ping_no_leak:
  assumes "ledger T held" and "src a = None" "dest a = None" and "unat (ping_len a) \<le> ICMP_IPV6_MAX_LEN"
    and "result (icmp_ping_start_run fuel T a) s \<noteq> None"
  shows "held r (world (exec_state (icmp_ping_start_run fuel T a) s)) = held r (world s)"
  by (rule held_session) (use assms in \<open>simp_all add: ping_consts\<close>)

theorem ping_no_leak_witness:
  "count_held Address (world (exec_state (icmp_ping_start_run 2 test_ping (icmp_ping_cmd_defaults_set test_ping)) ping_boot)) =
    count_held Address (world ping_boot)"
proof (rule ping_no_leak [OF test_ping_ledger])
  show "result (icmp_ping_start_run 2 test_ping (icmp_ping_cmd_defaults_set test_ping)) ping_boot \<noteq> None"
  proof -
    have "returns (icmp_ping_start_run 2 test_ping (icmp_ping_cmd_defaults_set test_ping) ::
        (ping_world, unit, int option) ping_prog)"
      by (rule returns_session [OF test_ping_drains]) simp
    then show ?thesis unfolding returns_def by blast
  qed
qed (simp_all add: icmp_ping_cmd_defaults_set_def icmp_ping_args.defs icmp_ping_cmd_defaults_def ICMP_PARAM_LENGTH_DEFAULT_def)



text \<open>
  Whatever the options of the command, a session is started only with a payload of at most 1472
  bytes and a name that fits its array: the IPv4 request, whatever the addresses, is then built inside its buffer.
\<close>

theorem ping_options_in_bounds:
  assumes "result (ping_options T argv opts ((icmp_ping_cmd_defaults_set T)
    \<lparr>print_buf := b, print_buf_len := l, kill_signal := k\<rparr>)) s = Some a"
  shows "length (target_name a) \<le> ICMP_MAX_ADDR \<and> src a = None \<and> dest a = None \<and>
    ipv4_request (ping_len a) x y q \<noteq> None"
proof -
  have "args_safe ((icmp_ping_cmd_defaults_set T)\<lparr>print_buf := b, print_buf_len := l, kill_signal := k\<rparr>)"
    by (simp add: args_safe_def icmp_ping_cmd_defaults_set_def icmp_ping_args.defs icmp_ping_cmd_defaults_def
      ICMP_PARAM_LENGTH_DEFAULT_def)
  then have "args_safe a" using ping_options_safe assms by blast
  then show ?thesis
    using ipv4_request_iff [of "ping_len a" x y q] by (simp add: args_safe_def ipv4_length ping_consts del: not_None_eq)
qed

theorem ping_options_in_bounds_witness:
  "length (target_name ((icmp_ping_cmd_defaults_set test_ping)\<lparr>target_name := ''host'', ping_len := 1472\<rparr>)) \<le> ICMP_MAX_ADDR \<and>
    src ((icmp_ping_cmd_defaults_set test_ping)\<lparr>target_name := ''host'', ping_len := 1472\<rparr>) = None \<and>
    dest ((icmp_ping_cmd_defaults_set test_ping)\<lparr>target_name := ''host'', ping_len := 1472\<rparr>) = None \<and>
    ipv4_request (ping_len ((icmp_ping_cmd_defaults_set test_ping)\<lparr>target_name := ''host'', ping_len := 1472\<rparr>)) 1 2 3 \<noteq> None"
proof (rule ping_options_in_bounds)
  let ?a = "icmp_ping_cmd_defaults_set test_ping"
  have "atoi32 ''1472'' = 1472" by code_simp
  moreover have "?a\<lparr>print_buf := False, print_buf_len := 0, kill_signal := 0\<rparr> = ?a"
    by (simp add: icmp_ping_cmd_defaults_set_def icmp_ping_args.defs icmp_ping_cmd_defaults_def test_ping_def)
  ultimately show "result (ping_options test_ping [] [(CHR ''d'', ''host'', 3), (CHR ''l'', ''1472'', 5)]
      (?a\<lparr>print_buf := False, print_buf_len := 0, kill_signal := 0\<rparr>)) ping_boot =
    Some (?a\<lparr>target_name := ''host'', ping_len := 1472\<rparr>)"
    by (simp add: exec_simps ping_option_def ICMP_MAX_ADDR_def ping_consts)
qed

end
