(* ===== verification/Mosh_Str.thy ===== *)
theory Mosh_Str
  imports Mosh_Print
begin

section \<open>String utilities (\<open>str_utils.c\<close>)\<close>

text \<open>
  Joining arguments into a command line, reading hexadecimal text and integers, and the names of
  A-GNSS data. \<open>hex2bin\<close> is Zephyr's, the bits of the A-GNSS flags and the numbers of the
  satellite systems are the modem library's: parameters.
\<close>

record 'w str_api = "'w print_api" +
  hex2bin :: "string \<Rightarrow> nat \<Rightarrow> 8 word list"
  gnss_flag :: "string \<Rightarrow> 32 word"
  gnss_system :: "string \<Rightarrow> 8 word"

subsection \<open>Command lines\<close>

text \<open>\<open>sprintf (buf + pos, ...)\<close> of a text; \<open>None\<close> is a write past the end of the buffer.\<close>

definition sprintf_at :: "string \<Rightarrow> nat \<Rightarrow> string \<Rightarrow> string option" where
  "sprintf_at buf pos txt =
     (if pos + length txt < length buf then Some (blit buf pos (txt @ [NUL])) else None)"

text \<open>The loop over the arguments from \<open>total_len\<close> on: the buffer, and whether the text was cut.\<close>

fun append_args :: "string list \<Rightarrow> nat \<Rightarrow> nat \<Rightarrow> string \<Rightarrow> (string \<times> bool) option" where
  "append_args [] out_buf_len total_len out_buf = Some (out_buf, False)"
| "append_args (a # as) out_buf_len total_len out_buf =
     (if total_len + length a > out_buf_len then Some (out_buf, True)
      else case sprintf_at out_buf total_len (if as = [] then a else a @ '' '') of
        None \<Rightarrow> None
      | Some out_buf \<Rightarrow> append_args as out_buf_len (length (cstr out_buf)) out_buf)"

definition shell_command_str_from_argv :: "('w, 'y) print_api_scheme \<Rightarrow> string list \<Rightarrow> string option \<Rightarrow> string \<Rightarrow> nat \<Rightarrow>
    ('w, 'z, string option) mosh_prog" where
  "shell_command_str_from_argv P argv cmd_prefix out_buf out_buf_len = do {
     let (out_buf, total_len) = (case cmd_prefix of None \<Rightarrow> (out_buf, 0)
       | Some p \<Rightarrow> (strncpy out_buf p out_buf_len, length p));
     case append_args argv out_buf_len total_len out_buf of
       None \<Rightarrow> return None
     | Some (out_buf, was_cut) \<Rightarrow> do {
         doif was_cut (mosh_error P ''Converted shell command cut due to too short output buffer'' []);
         return (Some out_buf)
       }
   }"

subsection \<open>Numbers\<close>

text \<open>Removing the spaces in place: the array, and the length of what is left at its start.\<close>

definition squeeze_step :: "string \<times> nat \<Rightarrow> nat \<Rightarrow> string \<times> nat" where
  "squeeze_step sj i = (case sj of (s, j) \<Rightarrow> if s ! i \<noteq> CHR '' '' then (s[j := s ! i], Suc j) else (s, j))"

definition squeeze :: "string \<Rightarrow> nat \<Rightarrow> string \<times> nat" where
  "squeeze s n = foldl squeeze_step (s, 0) [0 ..< n]"

definition str_hex_to_bytes :: "('w, 'y) str_api_scheme \<Rightarrow> string \<Rightarrow> nat \<Rightarrow> nat \<Rightarrow> 8 word list" where
  "str_hex_to_bytes T str str_length buf_length =
     (case squeeze str str_length of (s, n) \<Rightarrow> hex2bin T (take n s) buf_length)"

text \<open>The number a whole string is, or the error.\<close>

definition mosh_string_to_int :: "string \<Rightarrow> nat \<Rightarrow> int + int" where
  "mosh_string_to_int str_buf base =
     (case strtol base str_buf of
        None \<Rightarrow> Inl (- ENODATA)
      | Some (temp, rest, erange) \<Rightarrow>
          if rest \<noteq> [] \<or> (temp = LONG_MAX \<or> temp = LONG_MIN) \<and> erange then Inl (- ENODATA) else Inr temp)"

subsection \<open>A-GNSS\<close>

definition flag_names :: "(string \<times> string) list" where
  "flag_names =
     [(''NRF_MODEM_GNSS_AGNSS_GPS_UTC_REQUEST'', ''utc''), (''NRF_MODEM_GNSS_AGNSS_KLOBUCHAR_REQUEST'', ''klob''),
      (''NRF_MODEM_GNSS_AGNSS_NEQUICK_REQUEST'', ''neq''), (''NRF_MODEM_GNSS_AGNSS_GPS_SYS_TIME_AND_SV_TOW_REQUEST'', ''time''),
      (''NRF_MODEM_GNSS_AGNSS_POSITION_REQUEST'', ''pos''), (''NRF_MODEM_GNSS_AGNSS_INTEGRITY_REQUEST'', ''int''),
      (''NRF_MODEM_GNSS_AGNSS_GGTO_REQUEST'', ''ggto'')]"

definition agnss_data_flags_str_get :: "('w, 'y) str_api_scheme \<Rightarrow> 32 word \<Rightarrow> string" where
  "agnss_data_flags_str_get T data_flags =
     (let s = foldl (\<lambda>s (f, n). if data_flags AND gnss_flag T f \<noteq> 0 then s @ n @ '' | '' else s) [] flag_names
      in if length s = 0 then ''none'' else take (length s - 3) s)"

definition gnss_system_str_get :: "('w, 'y) str_api_scheme \<Rightarrow> 8 word \<Rightarrow> string" where
  "gnss_system_str_get T system_id =
     (if system_id = gnss_system T ''NRF_MODEM_GNSS_SYSTEM_INVALID'' then ''invalid''
      else if system_id = gnss_system T ''NRF_MODEM_GNSS_SYSTEM_GPS'' then ''GPS''
      else if system_id = gnss_system T ''NRF_MODEM_GNSS_SYSTEM_QZSS'' then ''QZSS''
      else if system_id = gnss_system T ''NRF_MODEM_GNSS_SYSTEM_GAL'' then ''GAL''
      else ''unknown'')"

subsection \<open>What they compute\<close>

text \<open>The arguments with single spaces between them.\<close>

fun unwords :: "string list \<Rightarrow> string" where
  "unwords [] = []"
| "unwords [a] = a"
| "unwords (a # as) = a @ '' '' @ unwords as"

lemma sprintf_at_cstr:
  assumes "cstr (take pos buf) = take pos buf" "pos + length txt < length buf" "NUL \<notin> set txt"
  shows "\<exists>b. sprintf_at buf pos txt = Some b \<and> length b = length buf \<and> cstr b = take pos buf @ txt"
proof -
  have "NUL \<notin> set (take pos buf)" using assms(1) NUL_notin_cstr by metis
  then have "cstr (blit buf pos (txt @ [NUL])) = take pos buf @ txt"
    using assms(3) cstr_append_NUL [of "take pos buf @ txt"] by (simp add: blit_def)
  then show ?thesis using assms(2) by (simp add: sprintf_at_def)
qed

lemma cstr_cstr [simp]: "cstr (cstr b) = cstr b"
  by (simp add: cstr_def)

lemma append_args_fits:
  assumes "cstr buf = take pos buf" "pos + length (unwords as) < length buf" "length buf \<le> buf_len"
    and "\<forall>a\<in>set as. NUL \<notin> set a"
  shows "\<exists>b. append_args as buf_len pos buf = Some (b, False) \<and> length b = length buf \<and>
    cstr b = take pos buf @ unwords as"
  using assms
proof (induction as arbitrary: pos buf rule: unwords.induct)
  case (2 a)
  have "cstr (take pos buf) = take pos buf" by (simp add: 2(1) [symmetric])
  then show ?case using sprintf_at_cstr [of pos buf a] 2 by auto
next
  case (3 a b as)
  have clean: "cstr (take pos buf) = take pos buf" by (simp add: 3(2) [symmetric])
  have "NUL \<notin> set (a @ '' '')" using 3(5) by (simp add: NUL_def)
  then obtain c where c: "sprintf_at buf pos (a @ '' '') = Some c" "length c = length buf"
      "cstr c = take pos buf @ a @ '' ''"
    using sprintf_at_cstr [OF clean, of "a @ '' ''"] 3(3) by auto
  define q where "q = length (cstr c)"
  have q: "q = pos + length a + 1" using c(3) 3(3) by (simp add: q_def)
  have "take q c = cstr c" unfolding q_def cstr_def by (metis takeWhile_eq_take)
  then obtain d where d: "append_args (b # as) buf_len q c = Some (d, False)" "length d = length c"
      "cstr d = take q c @ unwords (b # as)"
    using 3(1) [of c q] 3(3-5) c(2) q by auto
  have "append_args (a # b # as) buf_len pos buf = append_args (b # as) buf_len q c"
    using 3(3,4) c(1) by (simp add: q_def)
  then show ?case using d c \<open>take q c = cstr c\<close> by simp
qed (use assms in auto)

lemma squeeze_filter:
  assumes "n \<le> length s"
  shows "\<exists>t. squeeze s n = (t, length (filter (\<lambda>c. c \<noteq> CHR '' '') (take n s))) \<and> length t = length s \<and>
    take (length (filter (\<lambda>c. c \<noteq> CHR '' '') (take n s))) t = filter (\<lambda>c. c \<noteq> CHR '' '') (take n s) \<and>
    drop n t = drop n s"
  using assms
proof (induction n)
  case (Suc n)
  let ?f = "\<lambda>k. filter (\<lambda>c. c \<noteq> CHR '' '') (take k s)"
  obtain t where t: "squeeze s n = (t, length (?f n))" "length t = length s" "take (length (?f n)) t = ?f n" "drop n t = drop n s"
    using Suc by auto
  have j: "length (?f n) \<le> n" using length_filter_le [of _ "take n s"] Suc.prems by (simp add: min_def)
  have tn: "t ! n = s ! n" using t(2,4) Suc.prems by (metis Suc_le_lessD hd_drop_conv_nth)
  have f: "?f (Suc n) = ?f n @ (if s ! n \<noteq> CHR '' '' then [s ! n] else [])"
    using Suc.prems by (simp add: take_Suc_conv_app_nth)
  have d: "drop (Suc n) t = drop (Suc n) s" using t(4) by (metis drop_Suc tl_drop)
  have sq: "squeeze s (Suc n) = squeeze_step (squeeze s n) n" by (simp add: squeeze_def)
  show ?case
  proof (cases "s ! n = CHR '' ''")
    case True
    then show ?thesis using sq t d f tn by (simp add: squeeze_step_def)
  next
    case False
    let ?t = "t[length (?f n) := s ! n]"
    have "take (Suc (length (?f n))) ?t = ?f n @ [s ! n]"
      using t(2,3) j Suc.prems by (simp add: take_Suc_list_update)
    moreover have "drop (Suc n) ?t = drop (Suc n) s" using j d by simp
    ultimately show ?thesis using sq t f tn False by (simp add: squeeze_step_def)
  qed
qed (simp add: squeeze_def)

text \<open>The names with \<open>" | "\<close> between them.\<close>

fun with_bars :: "string list \<Rightarrow> string" where
  "with_bars [] = []"
| "with_bars [a] = a"
| "with_bars (a # as) = a @ '' | '' @ with_bars as"

lemma with_bars_concat: "as \<noteq> [] \<Longrightarrow> concat (map (\<lambda>a. a @ '' | '') as) = with_bars as @ '' | ''"
  by (induction as rule: with_bars.induct) simp_all

lemma foldl_append_if:
  "foldl (\<lambda>s (f, n). if P f then s @ n @ '' | '' else s) acc xs =
    acc @ concat (map (\<lambda>a. a @ '' | '') (map snd (filter (P \<circ> fst) xs)))"
  by (induction xs arbitrary: acc) auto

subsection \<open>Properties\<close>

text \<open>
  In a cleared buffer with room for it the arguments are joined by single spaces and nothing is
  cut. An argument exactly as long as the buffer, which leaves no room for the end of the string,
  passes the test of the code all the same, and its end is written past the buffer.
\<close>

theorem shell_command_str_joined:
  assumes "length (unwords argv) < n" and "\<forall>a\<in>set argv. NUL \<notin> set a" and "length x = n"
  shows "(\<exists>b. run_state (shell_command_str_from_argv P argv None (replicate n NUL) n) s = (Some b, s) \<and>
      length b = n \<and> cstr b = unwords argv) \<and>
    result (shell_command_str_from_argv P [x] None (replicate n NUL) n) s = None"
proof
  have "cstr (replicate n NUL) = take 0 (replicate n NUL)" by (simp add: cstr_def)
  then obtain b where "append_args argv n 0 (replicate n NUL) = Some (b, False)" "length b = n" "cstr b = unwords argv"
    using append_args_fits [of "replicate n NUL" 0 argv n] assms(1,2) by auto
  then show "\<exists>b. run_state (shell_command_str_from_argv P argv None (replicate n NUL) n) s = (Some b, s) \<and>
      length b = n \<and> cstr b = unwords argv"
    by (simp add: shell_command_str_from_argv_def)
  show "result (shell_command_str_from_argv P [x] None (replicate n NUL) n) s = None"
    using assms(3) by (simp add: shell_command_str_from_argv_def exec_simps sprintf_at_def)
qed

definition quiet_print :: "unit print_api" where
  "quiet_print = \<lparr>clock_utc = (\<lambda>_. (\<lparr>tm_sec = 0, tm_min = 0, tm_hour = 0, tm_mday = 1, tm_mon = 0, tm_year = 125\<rparr>, 0)),
     vsnprintfcb = (\<lambda>n f _. (int (length f), take (n - 1) f))\<rparr>"

definition quiet_mosh :: "unit mosh" where
  "quiet_mosh = \<lparr>world = (), at_cmd_mode_dont_print = False, mosh_print_timestamp_use = False,
     mosh_print_cloud_echo = False, console = [], cloud_out = [], aborted = False\<rparr>"

theorem shell_command_str_joined_witness:
  "(\<exists>b. run_state (shell_command_str_from_argv quiet_print [''ping'', ''-d'', ''host''] None (replicate 20 NUL) 20) quiet_mosh =
      (Some b, quiet_mosh) \<and> length b = 20 \<and> cstr b = unwords [''ping'', ''-d'', ''host'']) \<and>
    result (shell_command_str_from_argv quiet_print [replicate 20 (CHR ''x'')] None (replicate 20 NUL) 20) quiet_mosh = None"
  by (rule shell_command_str_joined) (simp_all add: NUL_def)

text \<open>
  Spaces are taken out of the hexadecimal text in place, wherever they are, before it is converted.
\<close>

theorem str_hex_ignores_spaces:
  assumes "n \<le> length str"
  shows "str_hex_to_bytes T str n len = hex2bin T (filter (\<lambda>c. c \<noteq> CHR '' '') (take n str)) len"
  using squeeze_filter [OF assms] by (auto simp: str_hex_to_bytes_def)

theorem str_hex_ignores_spaces_witness:
  "str_hex_to_bytes \<lparr>clock_utc = clock_utc quiet_print, vsnprintfcb = vsnprintfcb quiet_print,
      hex2bin = (\<lambda>s n. take n (str_bytes s)), gnss_flag = (\<lambda>_. 0), gnss_system = (\<lambda>_. 0)\<rparr> ''12 34 5'' 5 9 =
    hex2bin \<lparr>clock_utc = clock_utc quiet_print, vsnprintfcb = vsnprintfcb quiet_print,
      hex2bin = (\<lambda>s n. take n (str_bytes s)), gnss_flag = (\<lambda>_. 0), gnss_system = (\<lambda>_. 0)\<rparr>
      (filter (\<lambda>c. c \<noteq> CHR '' '') (take 5 ''12 34 5'')) 9"
  by (rule str_hex_ignores_spaces) simp

text \<open>
  What \<open>mosh_string_to_int\<close> accepts: the decimal text of every \<open>int\<close> is read back as that number, a
  text with anything after the number and a number out of range are rejected.
\<close>

theorem string_to_int_roundtrip:
  "mosh_string_to_int (show_int v) 10 = (if LONG_MIN \<le> v \<and> v \<le> LONG_MAX then Inr v else Inl (- ENODATA)) \<and>
   (is_digit 10 c \<or> mosh_string_to_int (show_nat n @ c # rest) 10 = Inl (- ENODATA))"
proof -
  have "saturate v = v \<longleftrightarrow> LONG_MIN \<le> v \<and> v \<le> LONG_MAX"
    by (auto simp: saturate_def)
  moreover have "saturate v = LONG_MAX \<or> saturate v = LONG_MIN" if "saturate v \<noteq> v"
    using that by (auto simp: saturate_def split: if_splits)
  ultimately have "mosh_string_to_int (show_int v) 10 = (if LONG_MIN \<le> v \<and> v \<le> LONG_MAX then Inr v else Inl (- ENODATA))"
    by (auto simp: mosh_string_to_int_def strtol_show_int)
  moreover have "mosh_string_to_int (show_nat n @ c # rest) 10 = Inl (- ENODATA)" if "\<not> is_digit 10 c"
    using strtol_digits(1) [of "show_nat n" "c # rest"] show_nat_digits that by (simp add: mosh_string_to_int_def)
  ultimately show ?thesis by blast
qed

text \<open>
  The text of the A-GNSS flags is the names of the flags that are set, in the order of the table, with
  bars between them, or \<open>none\<close>.
\<close>

theorem agnss_flags_text:
  "agnss_data_flags_str_get T fl =
    (let names = map snd (filter (\<lambda>x. fl AND gnss_flag T (fst x) \<noteq> 0) flag_names)
     in if names = [] then ''none'' else with_bars names)"
proof -
  let ?names = "map snd (filter (\<lambda>x. fl AND gnss_flag T (fst x) \<noteq> 0) flag_names)"
  have s: "foldl (\<lambda>s (f, n). if fl AND gnss_flag T f \<noteq> 0 then s @ n @ '' | '' else s) [] flag_names =
      concat (map (\<lambda>a. a @ '' | '') ?names)"
    using foldl_append_if [where P = "\<lambda>f. fl AND gnss_flag T f \<noteq> 0" and acc = "[]" and xs = flag_names] by (simp add: comp_def)
  show ?thesis
  proof (cases "?names = []")
    case False
    then show ?thesis unfolding agnss_data_flags_str_get_def s with_bars_concat [OF False] by simp
  qed (simp add: agnss_data_flags_str_get_def s)
qed

end
