(* ===== verification/Mosh_Th.thy ===== *)
theory Mosh_Th
  imports Mosh_Ping Mosh_Str
begin

section \<open>Worker threads (\<open>th_ctrl.c\<close>, \<open>th_shell.c\<close>)\<close>

text \<open>
  Two worker threads that run \<open>ping\<close>, \<open>iperf3\<close> or a pipeline of shell commands. The copied
  arguments and the output buffers live in the heap, modelled here as a map from addresses to blocks,
  so that every \<open>malloc\<close> and \<open>free\<close> of the code is one of the model. The work queue runs one item at a
  time; the item of a thread is pending from its submission to the end of its handler. The handler
  is one step: the two threads, and the shell commands that look at them, take turns.
  \<open>iperf3\<close> and the shell are parameters, and whether there is memory.
\<close>

subsection \<open>State\<close>

datatype block = Chars string | Ptrs "nat list"

record th_ctrl_data =
  results_str :: "nat option"
  th_argv :: "nat option"
  th_argc :: nat
  cmd_len :: nat
  th_nbr :: nat
  background :: bool
  is_pipeline :: bool
  pending :: bool

text \<open>\<open>heap_fault\<close>: a block that is not live was freed or used, or a null pointer was followed.\<close>

record 'w th = "'w ping" +
  th_work_data_1 :: th_ctrl_data
  th_work_data_2 :: th_ctrl_data
  heap :: "nat \<Rightarrow> block option"
  next_block :: nat
  heap_fault :: bool

type_synonym ('w, 'z, 'a) th_prog = "(('w, 'z) th_scheme, 'a) prog"

record 'w th_api = "'w ping_api" +
  malloc_ok :: "'w \<Rightarrow> bool \<times> 'w"
  iperf_main :: "string list \<Rightarrow> string option \<Rightarrow> 'w \<Rightarrow> (int \<times> string) \<times> 'w"
  th_shell_execute_cmd :: "string \<Rightarrow> 'w \<Rightarrow> 'w"
  k_poll_signal_raise :: "nat \<Rightarrow> 'w \<Rightarrow> 'w"
  kill_signal_of :: "nat \<Rightarrow> nat"
  ping_usage :: string

definition TH_BG_THREADS_MAX_AMOUNT :: int where "TH_BG_THREADS_MAX_AMOUNT = 2"
definition TH_RESPONSE_BUFFER_SIZE :: nat where "TH_RESPONSE_BUFFER_SIZE = 4096"

subsection \<open>The heap\<close>

definition malloc :: "('w, 'y) th_api_scheme \<Rightarrow> block \<Rightarrow> ('w, 'z, nat option) th_prog" where
  "malloc T b = do {
     ok \<leftarrow> call (malloc_ok T);
     if ok then do {
       p \<leftarrow> gets next_block;
       modify (\<lambda>s. s\<lparr>heap := (heap s)(p \<mapsto> b), next_block := Suc p\<rparr>);
       return (Some p)
     } else return None
   }"

definition fault :: "('w, 'z, unit) th_prog" where
  "fault = modify (\<lambda>s. s\<lparr>heap_fault := True\<rparr>)"

definition free :: "nat option \<Rightarrow> ('w, 'z, unit) th_prog" where
  "free p = (case p of None \<Rightarrow> return ()
     | Some a \<Rightarrow> do {
         h \<leftarrow> gets heap;
         if h a = None then fault else modify (\<lambda>s. s\<lparr>heap := (heap s)(a := None)\<rparr>)
       })"

text \<open>Blocks hold the bytes of their array, terminators included. What a pointer points to, for reading: of the wrong kind or dead, nothing.\<close>

definition chars_at :: "(nat \<Rightarrow> block option) \<Rightarrow> nat \<Rightarrow> string" where
  "chars_at h a = (case h a of Some (Chars s) \<Rightarrow> s | _ \<Rightarrow> [])"

definition ptrs_at :: "(nat \<Rightarrow> block option) \<Rightarrow> nat \<Rightarrow> nat list" where
  "ptrs_at h a = (case h a of Some (Ptrs ps) \<Rightarrow> ps | _ \<Rightarrow> [])"

definition mosh_strdup :: "('w, 'y) th_api_scheme \<Rightarrow> string \<Rightarrow> ('w, 'z, nat option) th_prog" where
  "mosh_strdup T str = malloc T (Chars (str @ [NUL]))"

subsection \<open>Copies of arguments\<close>

fun copy_args :: "('w, 'y) th_api_scheme \<Rightarrow> nat \<Rightarrow> nat \<Rightarrow> string list \<Rightarrow> ('w, 'z, nat option) th_prog" where
  "copy_args T p i [] = return (Some p)"
| "copy_args T p i (a # as) = do {
     q \<leftarrow> mosh_strdup T a;
     case q of
       None \<Rightarrow> do { free (Some p); return None }
     | Some q \<Rightarrow> do {
         modify (\<lambda>s. s\<lparr>heap := (heap s)(p \<mapsto> Ptrs ((ptrs_at (heap s) p)[i := q]))\<rparr>);
         copy_args T p (Suc i) as
       }
   }"

definition th_ctrl_util_duplicate_argv :: "('w, 'y) th_api_scheme \<Rightarrow> string list \<Rightarrow> ('w, 'z, nat option) th_prog" where
  "th_ctrl_util_duplicate_argv T argv = do {
     p \<leftarrow> malloc T (Ptrs (replicate (length argv) 0));
     case p of None \<Rightarrow> return None | Some p \<Rightarrow> copy_args T p 0 argv
   }"

text \<open>The loop starts at 1, so that \<open>argv[0]\<close> is not freed.\<close>

fun free_args :: "nat list \<Rightarrow> ('w, 'z, unit) th_prog" where
  "free_args [] = return ()"
| "free_args (p # ps) = do { free (Some p); free_args ps }"

definition th_ctrl_util_duplicate_argv_free :: "nat \<Rightarrow> nat option \<Rightarrow> ('w, 'z, unit) th_prog" where
  "th_ctrl_util_duplicate_argv_free argc argv = do {
     h \<leftarrow> gets heap;
     (case argv of
        None \<Rightarrow> doif (1 < argc) fault
      | Some a \<Rightarrow>
          if h a = None \<or> length (ptrs_at h a) < argc then doif (1 < argc) fault
          else free_args (drop 1 (take argc (ptrs_at h a))));
     free argv
   }"

subsection \<open>Access to the two records\<close>

definition data_of :: "nat \<Rightarrow> ('w, 'z) th_scheme \<Rightarrow> th_ctrl_data" where
  "data_of k s = (if k = 1 then th_work_data_1 s else th_work_data_2 s)"

definition upd_data :: "nat \<Rightarrow> (th_ctrl_data \<Rightarrow> th_ctrl_data) \<Rightarrow> ('w, 'z) th_scheme \<Rightarrow> ('w, 'z) th_scheme" where
  "upd_data k f s = (if k = 1 then s\<lparr>th_work_data_1 := f (th_work_data_1 s)\<rparr> else s\<lparr>th_work_data_2 := f (th_work_data_2 s)\<rparr>)"

definition arg_strings :: "(nat \<Rightarrow> block option) \<Rightarrow> th_ctrl_data \<Rightarrow> string list" where
  "arg_strings h d = (case th_argv d of None \<Rightarrow> [] | Some a \<Rightarrow> map (\<lambda>p. cstr (chars_at h p)) (ptrs_at h a))"

definition results_text :: "(nat \<Rightarrow> block option) \<Rightarrow> th_ctrl_data \<Rightarrow> string" where
  "results_text h d = (case results_str d of None \<Rightarrow> [] | Some a \<Rightarrow> cstr (chars_at h a))"

subsection \<open>The work item\<close>

fun run_pipeline :: "('w, 'y) th_api_scheme \<Rightarrow> nat \<Rightarrow> string list \<Rightarrow> ('w, 'z, unit) th_prog" where
  "run_pipeline T i [] = return ()"
| "run_pipeline T i (c # cs) = do {
     mosh_print T (''Executing command %d '' @ [CHR 0x22] @ ''%s'' @ [CHR 0x22] @ ''...'') [PInt (int i), PStr c];
     act (th_shell_execute_cmd T c);
     run_pipeline T (Suc i) cs
   }"

text \<open>\<open>ping\<close> and \<open>iperf3\<close> of the handler, with the output buffer \<open>out\<close> of a background thread.\<close>

definition run_ping :: "nat \<Rightarrow> ('w, 'y) th_api_scheme \<Rightarrow> nat \<Rightarrow> string list \<Rightarrow> nat option \<Rightarrow> ('w, 'z, int option) th_prog" where
  "run_ping fuel T k argv out = (case out of
     None \<Rightarrow> icmp_ping_shell_th fuel T (ping_usage T) argv False 0 (Some (kill_signal_of T k))
   | Some a \<Rightarrow> do {
       modify (\<lambda>s. s\<lparr>print_out := chars_at (heap s) a\<rparr>);
       ret \<leftarrow> icmp_ping_shell_th fuel T (ping_usage T) argv True (int TH_RESPONSE_BUFFER_SIZE) (Some (kill_signal_of T k));
       modify (\<lambda>s. s\<lparr>heap := (heap s)(a \<mapsto> Chars (print_out s))\<rparr>);
       return ret
     })"

definition run_iperf :: "('w, 'y) th_api_scheme \<Rightarrow> string list \<Rightarrow> nat option \<Rightarrow> ('w, 'z, int option) th_prog" where
  "run_iperf T argv out = (case out of
     None \<Rightarrow> do { (ret, _) \<leftarrow> call (iperf_main T argv None); return (Some ret) }
   | Some a \<Rightarrow> do {
       h \<leftarrow> gets heap;
       (ret, txt) \<leftarrow> call (iperf_main T argv (Some (chars_at h a)));
       modify (\<lambda>s. s\<lparr>heap := (heap s)(a \<mapsto> Chars txt)\<rparr>);
       return (Some ret)
     })"

definition th_run_work :: "nat \<Rightarrow> ('w, 'y) th_api_scheme \<Rightarrow> nat \<Rightarrow> th_ctrl_data \<Rightarrow> string list \<Rightarrow> ('w, 'z, int option) th_prog" where
  "th_run_work fuel T k d argv =
     (if \<not> background d \<and> is_pipeline d then do { run_pipeline T 0 argv; return (Some (-1)) }
      else if hd argv = ''iperf3'' then run_iperf T argv (results_str d)
      else if hd argv = ''ping'' then run_ping fuel T k argv (results_str d)
      else return (Some (-1)))"

definition report_work :: "('w, 'y) th_api_scheme \<Rightarrow> th_ctrl_data \<Rightarrow> string list \<Rightarrow> int \<Rightarrow> ('w, 'z, unit) th_prog" where
  "report_work T d argv ret = do {
     mosh_print T ''--------------------------------------------------'' [];
     mosh_print T ''%s returned %d from a thread #%d'' [PStr (hd argv), PInt ret, PInt (int (th_nbr d))];
     doif (background d)
       (mosh_print T (''Use shell command to print results: '' @ [CHR 0x22] @ ''th results %d'' @ [CHR 0x22]) [PInt (int (th_nbr d))]);
     mosh_print T ''--------------------------------------------------'' []
   }"

text \<open>The result of the handler: whether it ended.\<close>

definition th_ctrl_work_handler :: "nat \<Rightarrow> ('w, 'y) th_api_scheme \<Rightarrow> nat \<Rightarrow> ('w, 'z, bool) th_prog" where
  "th_ctrl_work_handler fuel T k = do {
     d \<leftarrow> gets (data_of k);
     h \<leftarrow> gets heap;
     mosh_print T ''Starting thread #%d'' [PInt (int (th_nbr d))];
     if th_argv d = None then abort False
     else if background d \<noteq> (results_str d \<noteq> None) then abort False
     else do {
       res \<leftarrow> th_run_work fuel T k d (arg_strings h d);
       case res of
         None \<Rightarrow> return False
       | Some ret \<Rightarrow> do {
           report_work T d (arg_strings h d) ret;
           modify (upd_data k (\<lambda>d. d\<lparr>pending := False\<rparr>));
           return True
         }
     }
   }"

subsection \<open>The commands\<close>

text \<open>The command of a thread, joined in a buffer of its own.\<close>

definition print_command :: "('w, 'y) th_api_scheme \<Rightarrow> nat \<Rightarrow> string list \<Rightarrow> ('w, 'z, unit) th_prog" where
  "print_command T len argv = do {
     print_buf \<leftarrow> malloc T (Chars (replicate (len + 1) NUL));
     (case print_buf of
        None \<Rightarrow> mosh_print T ''  command: No memory available to print'' []
      | Some _ \<Rightarrow> do {
          txt \<leftarrow> shell_command_str_from_argv T argv None (replicate (len + 1) NUL) (len + 1);
          (case txt of
             None \<Rightarrow> fault
           | Some txt \<Rightarrow> mosh_print T ''  command: %s'' [PStr (cstr txt)])
        });
     free print_buf
   }"

definition th_ctrl_data_status_print :: "('w, 'y) th_api_scheme \<Rightarrow> nat \<Rightarrow> ('w, 'z, unit) th_prog" where
  "th_ctrl_data_status_print T k = do {
     d \<leftarrow> gets (data_of k);
     h \<leftarrow> gets heap;
     mosh_print T ''thread #%d status:'' [PInt (int (th_nbr d))];
     mosh_print T (if results_text h d \<noteq> [] then ''  Results available'' else ''  Results not available'') [];
     (if pending d
      then mosh_print T ''  thread is running %s'' [PStr (if background d then ''in the background'' else ''in the foreground'')]
      else mosh_print T ''  thread is not running'' []);
     doif (th_argv d \<noteq> None) (print_command T (cmd_len d) (arg_strings h d))
   }"

definition th_ctrl_status_print :: "('w, 'y) th_api_scheme \<Rightarrow> ('w, 'z, unit) th_prog" where
  "th_ctrl_status_print T = do { th_ctrl_data_status_print T 1; th_ctrl_data_status_print T 2 }"

definition raise_kill :: "('w, 'y) th_api_scheme \<Rightarrow> nat \<Rightarrow> ('w, 'z, unit) th_prog" where
  "raise_kill T k = act (k_poll_signal_raise T (kill_signal_of T k))"

definition th_ctrl_kill_em_all :: "('w, 'y) th_api_scheme \<Rightarrow> ('w, 'z, unit) th_prog" where
  "th_ctrl_kill_em_all T = do {
     p1 \<leftarrow> gets (\<lambda>s. pending (th_work_data_1 s));
     doif p1 (raise_kill T 1);
     p2 \<leftarrow> gets (\<lambda>s. pending (th_work_data_2 s));
     doif p2 (raise_kill T 2)
   }"

definition th_ctrl_kill :: "('w, 'y) th_api_scheme \<Rightarrow> int \<Rightarrow> ('w, 'z, unit) th_prog" where
  "th_ctrl_kill T nbr =
     (if nbr = 1 then do {
        p \<leftarrow> gets (\<lambda>s. pending (th_work_data_1 s));
        if p then raise_kill T 1 else mosh_print T ''Thread #1 not running'' []
      } else if nbr = 2 then do {
        p \<leftarrow> gets (\<lambda>s. pending (th_work_data_2 s));
        if p then raise_kill T 2 else mosh_print T ''Thread #2 not running'' []
      } else return ())"

text \<open>The text, which is deleted when the work is done.\<close>

definition show_results :: "('w, 'y) th_api_scheme \<Rightarrow> nat \<Rightarrow> th_ctrl_data \<Rightarrow> string \<Rightarrow> ('w, 'z, unit) th_prog" where
  "show_results T k d txt =
     (if txt = [] then mosh_print T ''No results for thread #%d'' [PInt (int (th_nbr d))]
      else do {
        mosh_print T ''thread #%d results:'' [PInt (int (th_nbr d))];
        mosh_print T ''-------------------------------------'' [];
        mosh_print_no_format txt;
        mosh_print T ''-------------------------------------'' [];
        doif (\<not> pending d) (do {
          free (results_str d);
          modify (upd_data k (\<lambda>d. d\<lparr>results_str := None\<rparr>));
          mosh_print T ''Note: th results #%d were deleted.'' [PInt (int (th_nbr d))]
        })
      })"

definition th_ctrl_data_result_print :: "('w, 'y) th_api_scheme \<Rightarrow> nat \<Rightarrow> ('w, 'z, unit) th_prog" where
  "th_ctrl_data_result_print T k = do {
     d \<leftarrow> gets (data_of k);
     h \<leftarrow> gets heap;
     show_results T k d (results_text h d);
     doif (\<not> pending d) (do {
       th_ctrl_util_duplicate_argv_free (th_argc d) (th_argv d);
       modify (upd_data k (\<lambda>d. d\<lparr>th_argc := 0, th_argv := None\<rparr>))
     })
   }"

definition th_ctrl_result_print :: "('w, 'y) th_api_scheme \<Rightarrow> int \<Rightarrow> ('w, 'z, unit) th_prog" where
  "th_ctrl_result_print T nbr =
     (if nbr = 1 then th_ctrl_data_result_print T 1
      else if nbr = 2 then th_ctrl_data_result_print T 2
      else return ())"

subsection \<open>Starting\<close>

definition clear_block :: "nat option \<Rightarrow> ('w, 'z, unit) th_prog" where
  "clear_block p = (case p of None \<Rightarrow> return ()
     | Some a \<Rightarrow> do {
         h \<leftarrow> gets heap;
         if h a = None then fault else modify (\<lambda>s. s\<lparr>heap := (heap s)(a \<mapsto> Chars (replicate TH_RESPONSE_BUFFER_SIZE NUL))\<rparr>)
       })"

text \<open>The buffer for the results: whether the start goes on.\<close>

definition prepare_results :: "('w, 'y) th_api_scheme \<Rightarrow> nat \<Rightarrow> bool \<Rightarrow> ('w, 'z, bool) th_prog" where
  "prepare_results T k is_background = do {
     r \<leftarrow> gets (\<lambda>s. results_str (data_of k s));
     doif (\<not> is_background \<and> r \<noteq> None) (do {
       free r;
       modify (upd_data k (\<lambda>d. d\<lparr>results_str := None\<rparr>))
     });
     r \<leftarrow> gets (\<lambda>s. results_str (data_of k s));
     if is_background \<and> r = None then do {
       p \<leftarrow> malloc T (Chars (replicate TH_RESPONSE_BUFFER_SIZE NUL));
       modify (upd_data k (\<lambda>d. d\<lparr>results_str := p\<rparr>));
       doif (p = None) (mosh_error T ''Cannot start a thread: no memory to store a response'' []);
       return (p \<noteq> None)
     } else do {
       clear_block r;
       return True
     }
   }"

definition th_ctrl_data_start :: "('w, 'y) th_api_scheme \<Rightarrow> nat \<Rightarrow> nat \<Rightarrow> string list \<Rightarrow> bool \<Rightarrow> bool \<Rightarrow> ('w, 'z, unit) th_prog" where
  "th_ctrl_data_start T cmd_buff_len k argv is_background pipeline = do {
     d \<leftarrow> gets (data_of k);
     if pending d then abort ()
     else do {
       ok \<leftarrow> prepare_results T k is_background;
       if \<not> ok then return ()
       else if \<not> length argv > 1 then abort ()
       else do {
         doif (th_argv d \<noteq> None) (th_ctrl_util_duplicate_argv_free (th_argc d) (th_argv d));
         modify (upd_data k (\<lambda>d. d\<lparr>th_argc := length argv - 1\<rparr>));
         p \<leftarrow> th_ctrl_util_duplicate_argv T (tl argv);
         modify (upd_data k (\<lambda>d. d\<lparr>th_argv := p\<rparr>));
         if p = None then mosh_error T ''Cannot start a thread: no memory for duplicated cmd args'' []
         else do {
           modify (upd_data k (\<lambda>d. d\<lparr>background := is_background, is_pipeline := pipeline, cmd_len := cmd_buff_len\<rparr>));
           if th_nbr d = 1 \<or> th_nbr d = 2 then modify (upd_data k (\<lambda>d. d\<lparr>pending := True\<rparr>)) else abort ()
         }
       }
     }
   }"

definition th_ctrl_start :: "('w, 'y) th_api_scheme \<Rightarrow> nat \<Rightarrow> string list \<Rightarrow> bool \<Rightarrow> bool \<Rightarrow> ('w, 'z, unit) th_prog" where
  "th_ctrl_start T cmd_buff_len argv is_background pipeline =
     (if \<not> pipeline \<and> argv ! 1 \<noteq> ''iperf3'' \<and> argv ! 1 \<noteq> ''ping''
      then mosh_error T ''Cannot start a thread: command %s'' [PStr (argv ! 1)]
      else do {
        mosh_print T ''Starting ...'' [];
        p1 \<leftarrow> gets (\<lambda>s. pending (th_work_data_1 s));
        p2 \<leftarrow> gets (\<lambda>s. pending (th_work_data_2 s));
        if \<not> p1 then th_ctrl_data_start T cmd_buff_len 1 argv is_background pipeline
        else if \<not> p2 then th_ctrl_data_start T cmd_buff_len 2 argv is_background pipeline
        else mosh_error T ''Worker threads are all busy. Try again later.'' []
      })"

definition th_ctrl_init :: "('w, 'z, unit) th_prog" where
  "th_ctrl_init = do {
     modify (upd_data 1 (\<lambda>d. d\<lparr>th_nbr := 1\<rparr>));
     modify (upd_data 2 (\<lambda>d. d\<lparr>th_nbr := 2\<rparr>))
   }"

subsection \<open>The shell\<close>

definition missing_command :: "('w, 'y) th_api_scheme \<Rightarrow> ('w, 'z, int) th_prog" where
  "missing_command T = do { mosh_error T ''Missing the command to be run'' []; return (- EINVAL) }"

definition cmd_th_startbg :: "('w, 'y) th_api_scheme \<Rightarrow> nat \<Rightarrow> string list \<Rightarrow> ('w, 'z, int) th_prog" where
  "cmd_th_startbg T cmd_buff_len argv =
     (if length argv < 2 then missing_command T else do { th_ctrl_start T cmd_buff_len argv True False; return 0 })"

definition cmd_th_startfg :: "('w, 'y) th_api_scheme \<Rightarrow> nat \<Rightarrow> string list \<Rightarrow> ('w, 'z, int) th_prog" where
  "cmd_th_startfg T cmd_buff_len argv =
     (if length argv < 2 then missing_command T else do { th_ctrl_start T cmd_buff_len argv False False; return 0 })"

definition cmd_th_start_pipeline :: "('w, 'y) th_api_scheme \<Rightarrow> nat \<Rightarrow> string list \<Rightarrow> ('w, 'z, int) th_prog" where
  "cmd_th_start_pipeline T cmd_buff_len argv =
     (if length argv < 2 then missing_command T else do { th_ctrl_start T cmd_buff_len argv False True; return 0 })"

definition cmd_th_get_results :: "('w, 'y) th_api_scheme \<Rightarrow> string list \<Rightarrow> ('w, 'z, int) th_prog" where
  "cmd_th_get_results T argv = (let process_nbr = atoi (argv ! 1) in
     if process_nbr \<le> 0 \<or> process_nbr > TH_BG_THREADS_MAX_AMOUNT then do {
       mosh_error T ''invalid thread number %d'' [PInt process_nbr];
       return (- EINVAL)
     } else do { th_ctrl_result_print T process_nbr; return 0 })"

definition cmd_th_ctrl_kill :: "('w, 'y) th_api_scheme \<Rightarrow> string list \<Rightarrow> ('w, 'z, int) th_prog" where
  "cmd_th_ctrl_kill T argv = (let process_nbr = atoi (argv ! 1) in
     if process_nbr \<le> 0 \<or> process_nbr > TH_BG_THREADS_MAX_AMOUNT then do {
       mosh_error T ''invalid thread number %d'' [PInt process_nbr];
       return (- EINVAL)
     } else do { th_ctrl_kill T process_nbr; return 0 })"

definition cmd_th_status :: "('w, 'y) th_api_scheme \<Rightarrow> ('w, 'z, int) th_prog" where
  "cmd_th_status T = do { th_ctrl_status_print T; return 0 }"

text \<open>The shell calls a handler with as many arguments as its table (\<open>sub_th\<close>) says.\<close>

datatype th_cmd = Startbg | Startfg | Pipeline | Results | Kill | Status

definition run_th_cmd :: "('w, 'y) th_api_scheme \<Rightarrow> nat \<Rightarrow> th_cmd \<Rightarrow> string list \<Rightarrow> ('w, 'z, int) th_prog" where
  "run_th_cmd T cmd_buff_len c argv = (case c of
     Startbg \<Rightarrow> cmd_th_startbg T cmd_buff_len argv
   | Startfg \<Rightarrow> cmd_th_startfg T cmd_buff_len argv
   | Pipeline \<Rightarrow> cmd_th_start_pipeline T cmd_buff_len argv
   | Results \<Rightarrow> if length argv = 2 then cmd_th_get_results T argv else return (- EINVAL)
   | Kill \<Rightarrow> if length argv = 2 then cmd_th_ctrl_kill T argv else return (- EINVAL)
   | Status \<Rightarrow> if length argv = 1 then cmd_th_status T else return (- EINVAL))"

text \<open>A command of the user, with the length of its line (\<open>shell->ctx->cmd_buff_len\<close>), or a work queue that runs the item of its thread.\<close>

datatype th_event = Command th_cmd nat "string list" | Work nat

definition th_step :: "nat \<Rightarrow> ('w, 'y) th_api_scheme \<Rightarrow> ('w, 'z) th_scheme \<Rightarrow> th_event \<Rightarrow> ('w, 'z) th_scheme" where
  "th_step fuel T s e = (case e of
     Command c cmd_buff_len argv \<Rightarrow> exec_state (run_th_cmd T cmd_buff_len c argv) s
   | Work k \<Rightarrow> if k \<in> {1, 2} \<and> pending (data_of k s) then exec_state (th_ctrl_work_handler fuel T k) s else s)"

text \<open>The static data at the start of the program.\<close>

definition no_data :: th_ctrl_data where
  "no_data = \<lparr>results_str = None, th_argv = None, th_argc = 0, cmd_len = 0, th_nbr = 0, background = False,
     is_pipeline = False, pending = False\<rparr>"

definition th_start :: "('w, 'z) th_scheme \<Rightarrow> ('w, 'z) th_scheme" where
  "th_start s = exec_state th_ctrl_init
     (s\<lparr>th_work_data_1 := no_data, th_work_data_2 := no_data, heap := \<lambda>_. None, next_block := 1, heap_fault := False\<rparr>)"

subsection \<open>The heap invariant\<close>

definition args_of :: "(nat \<Rightarrow> block option) \<Rightarrow> th_ctrl_data \<Rightarrow> nat list" where
  "args_of h d = (case th_argv d of None \<Rightarrow> [] | Some a \<Rightarrow> ptrs_at h a)"

definition owned :: "(nat \<Rightarrow> block option) \<Rightarrow> th_ctrl_data \<Rightarrow> nat list" where
  "owned h d = (case th_argv d of None \<Rightarrow> [] | Some a \<Rightarrow> [a]) @ args_of h d @ (case results_str d of None \<Rightarrow> [] | Some r \<Rightarrow> [r])"

definition is_chars :: "block option \<Rightarrow> bool" where
  "is_chars b \<longleftrightarrow> (case b of Some (Chars _) \<Rightarrow> True | _ \<Rightarrow> False)"

definition thread_ok :: "(nat \<Rightarrow> block option) \<Rightarrow> th_ctrl_data \<Rightarrow> bool" where
  "thread_ok h d \<longleftrightarrow>
     (case th_argv d of None \<Rightarrow> th_argc d = 0 | Some a \<Rightarrow> h a = Some (Ptrs (ptrs_at h a)) \<and> 0 < th_argc d) \<and>
     length (args_of h d) = th_argc d \<and> list_all (\<lambda>p. is_chars (h p)) (args_of h d) \<and>
     (case results_str d of None \<Rightarrow> True | Some r \<Rightarrow> is_chars (h r)) \<and> distinct (owned h d) \<and>
     (pending d \<longrightarrow> th_argv d \<noteq> None \<and> background d = (results_str d \<noteq> None))"

definition heap_ok :: "(nat \<Rightarrow> block option) \<Rightarrow> nat \<Rightarrow> th_ctrl_data \<Rightarrow> th_ctrl_data \<Rightarrow> bool" where
  "heap_ok h n d e \<longleftrightarrow> (\<forall>p. n \<le> p \<longrightarrow> h p = None) \<and> thread_ok h d \<and> thread_ok h e \<and> set (owned h d) \<inter> set (owned h e) = {}"

text \<open>
  The invariant, for thread \<open>k\<close> with the data \<open>d\<close>: inside an operation \<open>d\<close> is what the record of
  the thread is going to be.
\<close>

definition other :: "nat \<Rightarrow> nat" where "other k = (if k = 1 then 2 else 1)"

definition args_fit :: "(nat \<Rightarrow> block option) \<Rightarrow> th_ctrl_data \<Rightarrow> bool" where
  "args_fit h d \<longleftrightarrow> (th_argv d \<noteq> None \<longrightarrow> length (unwords (arg_strings h d)) \<le> cmd_len d)"

definition holds :: "nat \<Rightarrow> th_ctrl_data \<Rightarrow> ('w, 'z) th_scheme \<Rightarrow> bool" where
  "holds k d s \<longleftrightarrow> \<not> heap_fault s \<and> heap_ok (heap s) (next_block s) d (data_of (other k) s) \<and>
     args_fit (heap s) (data_of (other k) s)"

definition th_inv :: "('w, 'z) th_scheme \<Rightarrow> bool" where
  "th_inv s \<longleftrightarrow> holds 1 (th_work_data_1 s) s \<and> args_fit (heap s) (th_work_data_1 s)"

lemma heap_ok_sym: "heap_ok h n d e \<longleftrightarrow> heap_ok h n e d"
  by (auto simp: heap_ok_def)

lemma th_inv_holds: "th_inv s \<longleftrightarrow> holds k (data_of k s) s \<and> args_fit (heap s) (data_of k s)"
  using heap_ok_sym [of "heap s" "next_block s" "th_work_data_1 s" "th_work_data_2 s"]
  by (cases "k = 1") (auto simp: th_inv_def holds_def data_of_def other_def)

lemma owned_live: "thread_ok h d \<Longrightarrow> p \<in> set (owned h d) \<Longrightarrow> h p \<noteq> None"
  by (auto simp: thread_ok_def owned_def list_all_iff is_chars_def split: option.splits)

lemma thread_ok_frame:
  assumes "thread_ok h d" "\<And>p. p \<in> set (owned h d) \<Longrightarrow> h' p = h p"
  shows "owned h' d = owned h d" "thread_ok h' d" "arg_strings h' d = arg_strings h d"
proof -
  have a: "ptrs_at h' a = ptrs_at h a" if "th_argv d = Some a" for a
    using assms(2) [of a] that by (simp add: ptrs_at_def owned_def)
  then show o: "owned h' d = owned h d" by (auto simp: owned_def args_of_def split: option.split)
  have "args_of h' d = args_of h d" using a by (auto simp: args_of_def split: option.split)
  moreover have "h' p = h p" if "p \<in> set (args_of h d)" for p using assms(2) that by (simp add: owned_def)
  moreover have "h' a = h a" if "th_argv d = Some a" for a using assms(2) that by (simp add: owned_def)
  moreover have "h' a = h a" if "results_str d = Some a" for a using assms(2) that by (simp add: owned_def)
  ultimately show "thread_ok h' d"
    using assms(1) a o by (simp add: thread_ok_def list_all_iff split: option.splits)
  show "arg_strings h' d = arg_strings h d"
    using a assms(2) by (auto simp: arg_strings_def chars_at_def owned_def args_of_def split: option.split)
qed

text \<open>A change of the heap that is local to one thread.\<close>

lemma heap_ok_change:
  assumes "heap_ok h n d e" "thread_ok h' d'"
    and "\<And>p. p < n \<Longrightarrow> p \<notin> set (owned h d) \<Longrightarrow> h' p = h p"
    and "\<And>p. m \<le> p \<Longrightarrow> h' p = None" "n \<le> m"
    and "\<And>p. p \<in> set (owned h' d') \<Longrightarrow> p \<in> set (owned h d) \<or> n \<le> p"
  shows "heap_ok h' m d' e" "owned h' e = owned h e" "arg_strings h' e = arg_strings h e"
proof -
  have e: "thread_ok h e" using assms(1) by (simp add: heap_ok_def)
  have low: "p < n" if "p \<in> set (owned h e)" for p
    using assms(1) owned_live [OF e that] by (metis heap_ok_def not_less)
  have "h' p = h p" if "p \<in> set (owned h e)" for p
    using assms(1,3) low [OF that] that by (auto simp: heap_ok_def)
  note f = thread_ok_frame [OF e this]
  show "owned h' e = owned h e" "arg_strings h' e = arg_strings h e" by (simp_all only: f)
  have "p \<notin> set (owned h e)" if "p \<in> set (owned h' d')" for p
    using assms(6) [OF that] low [of p] assms(1) by (auto simp: heap_ok_def)
  then show "heap_ok h' m d' e"
    using assms(2,4) f by (auto simp: heap_ok_def)
qed

subsection \<open>Operations on the heap\<close>

definition hp :: "('w, 'z) th_scheme \<Rightarrow> th_ctrl_data \<times> th_ctrl_data \<times> (nat \<Rightarrow> block option) \<times> nat \<times> bool" where
  "hp s = (th_work_data_1 s, th_work_data_2 s, heap s, next_block s, heap_fault s)"

lemma hp_eq: "hp s = hp t \<longleftrightarrow> th_work_data_1 s = th_work_data_1 t \<and> th_work_data_2 s = th_work_data_2 t \<and>
    heap s = heap t \<and> next_block s = next_block t \<and> heap_fault s = heap_fault t"
  by (simp add: hp_def)

lemma hp_update [simp]:
  "hp (s\<lparr>console := c\<rparr>) = hp s" "hp (s\<lparr>cloud_out := l\<rparr>) = hp s" "hp (s\<lparr>print_out := o'\<rparr>) = hp s"
  "hp (s\<lparr>aborted := b\<rparr>) = hp s" "hp (s\<lparr>world := w\<rparr>) = hp s" "hp (s\<lparr>seqnr := q\<rparr>) = hp s" "hp (s\<lparr>start_t := t\<rparr>) = hp s"
  "hp (s\<lparr>network_reg_status_updated_uptime := u\<rparr>) = hp s"
  by (simp_all add: hp_def)

lemma hp_cong: "hp s = hp t \<Longrightarrow> holds k d s = holds k d t" "hp s = hp t \<Longrightarrow> data_of k s = data_of k t"
  by (simp_all add: hp_eq holds_def data_of_def)

lemma hp_print [simp]:
  "hp (exec_state (mosh_print T f a) s) = hp s" "hp (exec_state (mosh_error T f a) s) = hp s"
  "hp (exec_state (mosh_print_no_format x) s) = hp s" "hp (exec_state (abort y) s) = hp s"
  by (rule keepsD, rule keeps_intros, simp_all)+

definition memory :: "('w, 'y) th_api_scheme \<Rightarrow> bool" where
  "memory T \<longleftrightarrow> (\<forall>w. fst (malloc_ok T w))"

lemma exec_malloc:
  assumes "memory T"
  shows "result (malloc T b) s = Some (next_block s)"
    "exec_state (malloc T b) s =
      s\<lparr>world := snd (malloc_ok T (world s)), heap := (heap s)(next_block s \<mapsto> b), next_block := Suc (next_block s)\<rparr>"
  using assms by (simp_all add: memory_def malloc_def exec_simps)

lemma exec_free: "heap s a \<noteq> None \<Longrightarrow> exec_state (free (Some a)) s = s\<lparr>heap := (heap s)(a := None)\<rparr>"
  by (auto simp: free_def exec_simps)

lemma exec_free_args:
  "distinct ps \<Longrightarrow> \<forall>p\<in>set ps. heap s p \<noteq> None \<Longrightarrow> exec_state (free_args ps) s = s\<lparr>heap := heap s |` (- set ps)\<rparr>"
proof (induction ps arbitrary: s)
  case (Cons p ps)
  have "(heap s)(p := None) |` (- set ps) = heap s |` (- set (p # ps))"
    by (auto simp: restrict_map_def fun_eq_iff)
  moreover have "exec_state (free_args ps) (s\<lparr>heap := (heap s)(p := None)\<rparr>) =
      s\<lparr>heap := (heap s)(p := None) |` (- set ps)\<rparr>"
    using Cons.prems by (subst Cons.IH) auto
  ultimately show ?case using Cons.prems by (simp add: exec_simps exec_free del: not_None_eq)
qed (simp add: exec_simps restrict_map_def)

lemma exec_argv_free:
  assumes "heap s a = Some (Ptrs ps)" "length ps = n" "0 < n" "distinct (a # ps)" "\<forall>p\<in>set ps. heap s p \<noteq> None"
  shows "exec_state (th_ctrl_util_duplicate_argv_free n (Some a)) s = s\<lparr>heap := heap s |` (- insert a (set (tl ps)))\<rparr>"
proof -
  have p: "ptrs_at (heap s) a = ps" using assms(1) by (simp add: ptrs_at_def)
  have t: "distinct (tl ps)" "\<forall>p\<in>set (tl ps). heap s p \<noteq> None" "a \<notin> set (tl ps)"
    using assms(4,5) by (cases ps; simp)+
  have "(heap s |` (- set (tl ps)))(a := None) = heap s |` (- insert a (set (tl ps)))"
    by (auto simp: restrict_map_def fun_eq_iff)
  then show ?thesis
    using assms(1,2) t
    by (simp add: th_ctrl_util_duplicate_argv_free_def exec_simps p drop_Suc exec_free_args [OF t(1,2)] exec_free restrict_map_def)
qed

text \<open>The copies of the arguments are the next blocks, in order.\<close>

definition copies :: "nat \<Rightarrow> string list \<Rightarrow> nat \<Rightarrow> block option" where
  "copies n as q = (if n \<le> q \<and> q < n + length as then Some (Chars (as ! (q - n) @ [NUL])) else None)"

lemma copies_Cons: "copies n (a # as) = (copies (Suc n) as)(n \<mapsto> Chars (a @ [NUL]))"
  by (auto simp: copies_def fun_eq_iff nth_Cons')

lemma exec_copy_args:
  assumes "memory T" "heap s p = Some (Ptrs ps)" "i + length as = length ps" "p < next_block s"
  defines "n \<equiv> next_block s"
  shows "result (copy_args T p i as) s = Some p \<and> (\<exists>w. exec_state (copy_args T p i as) s =
    s\<lparr>world := w, heap := ((heap s)(p \<mapsto> Ptrs (take i ps @ [n ..< n + length as]))) ++ copies n as, next_block := n + length as\<rparr>)"
  using assms(2-4) unfolding n_def
proof (induction as arbitrary: i ps s)
  case Nil
  have "(heap s)(p \<mapsto> Ptrs ps) ++ copies (next_block s) [] = heap s"
    using Nil(1) by (auto simp: copies_def map_add_def fun_eq_iff)
  then show ?case using Nil by (intro conjI exI [of _ "world s"]) (simp_all add: exec_simps del: fun_upd_apply)
next
  case (Cons a as)
  let ?n = "next_block s"
  define s1 where "s1 = s\<lparr>world := snd (malloc_ok T (world s)), next_block := Suc ?n, heap := ((heap s)(?n \<mapsto> Chars (a @ [NUL])))(p \<mapsto> Ptrs (ps[i := ?n]))\<rparr>"
  have i: "i < length ps" using Cons.prems(2) by simp
  have run: "exec_state (copy_args T p i (a # as)) s = exec_state (copy_args T p (Suc i) as) s1"
    "result (copy_args T p i (a # as)) s = result (copy_args T p (Suc i) as) s1"
    using Cons.prems by (simp_all add: mosh_strdup_def exec_malloc [OF assms(1)] exec_simps s1_def ptrs_at_def)
  have "heap s1 p = Some (Ptrs (ps[i := ?n]))" "Suc i + length as = length (ps[i := ?n])" "p < next_block s1"
    using Cons.prems by (simp_all add: s1_def)
  from Cons.IH [OF this] obtain w where
    r: "result (copy_args T p (Suc i) as) s1 = Some p" and
    w: "exec_state (copy_args T p (Suc i) as) s1 = s1\<lparr>world := w, heap := ((heap s1)(p \<mapsto> Ptrs (take (Suc i) (ps[i := ?n]) @
       [next_block s1 ..< next_block s1 + length as]))) ++ copies (next_block s1) as, next_block := next_block s1 + length as\<rparr>"
    by blast
  have l: "take (Suc i) (ps[i := ?n]) @ [Suc ?n ..< Suc ?n + length as] = take i ps @ [?n ..< ?n + length (a # as)]"
    using i by (simp add: take_Suc_conv_app_nth upt_conv_Cons del: upt_Suc)
  have "((heap s1)(p \<mapsto> P)) ++ copies (Suc ?n) as = ((heap s)(p \<mapsto> P)) ++ copies ?n (a # as)" for P
    using Cons.prems(3) by (auto simp: s1_def copies_Cons fun_eq_iff map_add_def copies_def split: option.split)
  moreover have "next_block s1 = Suc ?n" by (simp add: s1_def)
  ultimately show ?case
    using r w l unfolding run by (intro conjI exI [of _ w]) (simp_all add: s1_def del: upt_Suc fun_upd_apply)
qed

lemma exec_duplicate:
  fixes s :: "('w, 'z) th_scheme"
  assumes "memory T"
  defines "n \<equiv> next_block s"
  shows "result (th_ctrl_util_duplicate_argv T argv) s = Some n"
    "\<exists>w. exec_state (th_ctrl_util_duplicate_argv T argv) s = s\<lparr>world := w,
       heap := ((heap s)(n \<mapsto> Ptrs [Suc n ..< Suc n + length argv])) ++ copies (Suc n) argv, next_block := Suc n + length argv\<rparr>"
proof -
  let ?s = "s\<lparr>world := snd (malloc_ok T (world s)), heap := (heap s)(n \<mapsto> Ptrs (replicate (length argv) 0)), next_block := Suc n\<rparr>"
  have "heap ?s n = Some (Ptrs (replicate (length argv) 0))" "0 + length argv = length (replicate (length argv) (0::nat))"
    "n < next_block ?s" by simp_all
  note c = exec_copy_args [OF assms(1) this]
  have run: "exec_state (th_ctrl_util_duplicate_argv T argv) s = exec_state (copy_args T n 0 argv) ?s"
    "result (th_ctrl_util_duplicate_argv T argv) s = result (copy_args T n 0 argv) ?s"
    by (simp_all add: th_ctrl_util_duplicate_argv_def exec_simps exec_malloc [OF assms(1)] n_def)
  show "result (th_ctrl_util_duplicate_argv T argv) s = Some n" using c by (simp add: run)
  show "\<exists>w. exec_state (th_ctrl_util_duplicate_argv T argv) s = s\<lparr>world := w,
       heap := ((heap s)(n \<mapsto> Ptrs [Suc n ..< Suc n + length argv])) ++ copies (Suc n) argv, next_block := Suc n + length argv\<rparr>"
    using c by (auto simp: run)
qed

subsection \<open>The steps of an operation\<close>

lemma holds_change:
  assumes "holds k d s" "thread_ok h' d'"
    and "\<And>p. p < next_block s \<Longrightarrow> p \<notin> set (owned (heap s) d) \<Longrightarrow> h' p = heap s p"
    and "\<And>p. m \<le> p \<Longrightarrow> h' p = None" "next_block s \<le> m"
    and "\<And>p. p \<in> set (owned h' d') \<Longrightarrow> p \<in> set (owned (heap s) d) \<or> next_block s \<le> p"
  shows "holds k d' (s\<lparr>world := w, heap := h', next_block := m\<rparr>)"
proof -
  have "data_of (other k) (s\<lparr>world := w, heap := h', next_block := m\<rparr>) = data_of (other k) s" by (simp add: data_of_def)
  moreover have "heap_ok (heap s) (next_block s) d (data_of (other k) s)" using assms(1) by (simp add: holds_def)
  note c = heap_ok_change [OF this assms(2-6)]
  ultimately show ?thesis using assms(1) c(1,3) by (simp add: holds_def args_fit_def)
qed

lemma holds_fresh: "holds k d s \<Longrightarrow> next_block s \<le> p \<Longrightarrow> heap s p = None"
  and holds_thread: "holds k d s \<Longrightarrow> thread_ok (heap s) d"
  and holds_no_fault: "holds k d s \<Longrightarrow> \<not> heap_fault s"
  by (auto simp: holds_def heap_ok_def)

lemma holds_owned_low: "holds k d s \<Longrightarrow> p \<in> set (owned (heap s) d) \<Longrightarrow> p < next_block s"
  by (metis holds_fresh holds_thread not_less owned_live)

text \<open>A field of the record that owns nothing.\<close>

lemma holds_same_owner:
  assumes "holds k d s" "th_argv d' = th_argv d" "th_argc d' = th_argc d" "results_str d' = results_str d"
    and "pending d' \<Longrightarrow> th_argv d \<noteq> None \<and> background d' = (results_str d \<noteq> None)"
  shows "holds k d' s"
proof -
  have "owned (heap s) d' = owned (heap s) d" "args_of (heap s) d' = args_of (heap s) d"
    using assms(2,4) by (simp_all add: owned_def args_of_def)
  then have "thread_ok (heap s) d'"
    using holds_thread [OF assms(1)] assms(2-5) unfolding thread_ok_def by (simp split: option.splits)
  then show ?thesis using assms(1) \<open>owned (heap s) d' = _\<close> by (simp add: holds_def heap_ok_def)
qed

lemma holds_clear:
  assumes "holds k d s" "results_str d = Some r"
  shows "exec_state (clear_block (Some r)) s = s\<lparr>heap := (heap s)(r \<mapsto> Chars (replicate TH_RESPONSE_BUFFER_SIZE NUL))\<rparr>"
    "holds k d (s\<lparr>heap := (heap s)(r \<mapsto> Chars t)\<rparr>)"
    "arg_strings ((heap s)(r \<mapsto> Chars t)) d = arg_strings (heap s) d"
proof -
  note ok = holds_thread [OF assms(1)]
  have r: "r \<in> set (owned (heap s) d)" using assms(2) by (simp add: owned_def)
  show "exec_state (clear_block (Some r)) s = s\<lparr>heap := (heap s)(r \<mapsto> Chars (replicate TH_RESPONSE_BUFFER_SIZE NUL))\<rparr>"
    using owned_live [OF ok r] by (auto simp: clear_block_def exec_simps)
  let ?h = "(heap s)(r \<mapsto> Chars t)"
  have dist: "distinct (owned (heap s) d)" using ok by (simp add: thread_ok_def)
  have argv: "ptrs_at ?h a = ptrs_at (heap s) a" "?h a = heap s a" if "th_argv d = Some a" for a
    using dist that assms(2) by (auto simp: owned_def ptrs_at_def)
  have args: "args_of ?h d = args_of (heap s) d" using argv by (simp add: args_of_def split: option.split)
  then have o: "owned ?h d = owned (heap s) d" by (simp add: owned_def)
  have "r \<notin> set (args_of (heap s) d)" using dist assms(2) by (auto simp: owned_def)
  then show "arg_strings ?h d = arg_strings (heap s) d"
    using argv by (auto simp: arg_strings_def chars_at_def args_of_def split: option.splits)
  have "thread_ok ?h d"
    using ok argv assms(2) unfolding thread_ok_def args o
    by (auto simp: is_chars_def list_all_iff split: option.splits)
  then have "holds k d (s\<lparr>world := world s, heap := ?h, next_block := next_block s\<rparr>)"
    using holds_owned_low [OF assms(1) r]
    by (rule_tac holds_change [OF assms(1)]) (use r holds_fresh [OF assms(1)] o in auto)
  then show "holds k d (s\<lparr>heap := ?h\<rparr>)" by simp
qed

lemma holds_free_results:
  assumes "holds k d s" "results_str d = Some r" "\<not> pending d"
  shows "exec_state (free (Some r)) s = s\<lparr>heap := (heap s)(r := None)\<rparr>"
    "holds k (d\<lparr>results_str := None\<rparr>) (s\<lparr>heap := (heap s)(r := None)\<rparr>)"
proof -
  note ok = holds_thread [OF assms(1)]
  have r: "r \<in> set (owned (heap s) d)" using assms(2) by (simp add: owned_def)
  show "exec_state (free (Some r)) s = s\<lparr>heap := (heap s)(r := None)\<rparr>"
    using owned_live [OF ok r] by (simp add: exec_free)
  let ?h = "(heap s)(r := None)" and ?d = "d\<lparr>results_str := None\<rparr>"
  have dist: "distinct (owned (heap s) d)" using ok by (simp add: thread_ok_def)
  have argv: "ptrs_at ?h a = ptrs_at (heap s) a" "?h a = heap s a" if "th_argv d = Some a" for a
    using dist that assms(2) by (auto simp: owned_def ptrs_at_def)
  have args: "args_of ?h ?d = args_of (heap s) d" using argv by (simp add: args_of_def split: option.split)
  have o: "owned (heap s) d = owned ?h ?d @ [r]" using args assms(2) by (simp add: owned_def)
  have "r \<notin> set (args_of (heap s) d)" using dist assms(2) by (auto simp: owned_def)
  then have "thread_ok ?h ?d"
    using ok argv assms(2,3) dist unfolding thread_ok_def args o
    by (auto simp: list_all_iff split: option.splits)
  then have "holds k ?d (s\<lparr>world := world s, heap := ?h, next_block := next_block s\<rparr>)"
    by (rule_tac holds_change [OF assms(1)]) (use r holds_fresh [OF assms(1)] o in auto)
  then show "holds k ?d (s\<lparr>heap := ?h\<rparr>)" by simp
qed

lemma holds_new_results:
  assumes "holds k d s" "results_str d = None" "\<not> pending d" "memory T"
  shows "holds k (d\<lparr>results_str := Some (next_block s)\<rparr>) (exec_state (malloc T (Chars t)) s)"
proof -
  note ok = holds_thread [OF assms(1)]
  let ?n = "next_block s" let ?h = "(heap s)(?n \<mapsto> Chars t)" and ?d = "d\<lparr>results_str := Some ?n\<rparr>"
  have low: "p \<noteq> ?n" if "p \<in> set (owned (heap s) d)" for p using holds_owned_low [OF assms(1) that] by simp
  have argv: "ptrs_at ?h a = ptrs_at (heap s) a" "?h a = heap s a" if "th_argv d = Some a" for a
    using low [of a] that by (simp_all add: owned_def ptrs_at_def)
  have args: "args_of ?h ?d = args_of (heap s) d" using argv by (simp add: args_of_def split: option.split)
  have o: "owned ?h ?d = owned (heap s) d @ [?n]" using args assms(2) by (simp add: owned_def)
  have "?n \<notin> set (args_of (heap s) d)" using low by (auto simp: owned_def)
  then have "thread_ok ?h ?d"
    using ok argv assms(2,3) low unfolding thread_ok_def args o
    by (auto simp: list_all_iff is_chars_def split: option.splits)
  then have "holds k ?d (s\<lparr>world := snd (malloc_ok T (world s)), heap := ?h, next_block := Suc ?n\<rparr>)"
    by (rule_tac holds_change [OF assms(1)]) (use holds_fresh [OF assms(1)] o in auto)
  then show ?thesis by (simp add: exec_malloc [OF assms(4)])
qed

lemma in_set_tl: "p \<in> set (tl xs) \<Longrightarrow> p \<in> set xs"
  by (cases xs) auto

lemma holds_free_argv:
  assumes "holds k d s" "\<not> pending d"
  defines "t \<equiv> exec_state (th_ctrl_util_duplicate_argv_free (th_argc d) (th_argv d)) s"
  shows "holds k (d\<lparr>th_argc := 0, th_argv := None\<rparr>) t"
    "t = s\<lparr>heap := heap s |` (- (case th_argv d of None \<Rightarrow> {} | Some a \<Rightarrow> insert a (set (tl (ptrs_at (heap s) a)))))\<rparr>"
proof -
  note ok = holds_thread [OF assms(1)]
  let ?d = "d\<lparr>th_argc := 0, th_argv := None\<rparr>"
  let ?F = "case th_argv d of None \<Rightarrow> {} | Some a \<Rightarrow> insert a (set (tl (ptrs_at (heap s) a)))"
  let ?h = "heap s |` (- ?F)"
  show t: "t = s\<lparr>heap := ?h\<rparr>"
  proof (cases "th_argv d")
    case None
    then show ?thesis
      using ok by (simp add: t_def thread_ok_def th_ctrl_util_duplicate_argv_free_def exec_simps free_def restrict_map_def)
  next
    case (Some a)
    let ?ps = "ptrs_at (heap s) a"
    have "heap s a = Some (Ptrs ?ps)" "length ?ps = th_argc d" "0 < th_argc d" "distinct (a # ?ps)"
      using ok Some by (simp_all add: thread_ok_def args_of_def owned_def)
    moreover have "\<forall>p\<in>set ?ps. heap s p \<noteq> None"
      using owned_live [OF ok] Some by (simp add: owned_def args_of_def)
    ultimately show ?thesis unfolding t_def Some by (simp add: exec_argv_free)
  qed
  have sub: "?F \<subseteq> set (owned (heap s) d)"
    by (auto simp: owned_def args_of_def split: option.splits dest: in_set_tl)
  have r: "results_str d = Some r \<Longrightarrow> r \<notin> ?F" for r
    using ok by (auto simp: thread_ok_def owned_def args_of_def split: option.splits dest: in_set_tl)
  have "thread_ok ?h ?d"
    using ok r assms(2) by (auto simp: thread_ok_def owned_def args_of_def restrict_map_def split: option.splits)
  moreover have "p \<in> set (owned ?h ?d) \<Longrightarrow> p \<in> set (owned (heap s) d)" for p
    by (simp add: owned_def args_of_def)
  ultimately have "holds k ?d (s\<lparr>world := world s, heap := ?h, next_block := next_block s\<rparr>)"
    by (rule_tac holds_change [OF assms(1)]) (use sub holds_fresh [OF assms(1)] in \<open>auto simp: restrict_map_def\<close>)
  then show "holds k ?d t" by (simp add: t)
qed

lemma cstr_terminate [simp]: "cstr (s @ [NUL]) = cstr s"
  by (induction s) (simp_all add: cstr_def)

lemma holds_duplicate:
  assumes "holds k d s" "th_argv d = None" "\<not> pending d" "memory T" "argv \<noteq> []"
  defines "t \<equiv> exec_state (th_ctrl_util_duplicate_argv T argv) s"
  shows "holds k (d\<lparr>th_argc := length argv, th_argv := Some (next_block s)\<rparr>) t"
    "arg_strings (heap t) (d\<lparr>th_argc := length argv, th_argv := Some (next_block s)\<rparr>) = map cstr argv"
    "\<exists>w h m. t = s\<lparr>world := w, heap := h, next_block := m\<rparr>"
proof -
  note ok = holds_thread [OF assms(1)]
  let ?n = "next_block s" let ?d = "d\<lparr>th_argc := length argv, th_argv := Some ?n\<rparr>"
  define ps where "ps = [Suc ?n ..< Suc ?n + length argv]"
  define h where "h = ((heap s)(?n \<mapsto> Ptrs ps)) ++ copies (Suc ?n) argv"
  obtain w where t: "t = s\<lparr>world := w, heap := h, next_block := Suc ?n + length argv\<rparr>"
    using exec_duplicate(2) [OF assms(4)] unfolding t_def h_def ps_def by blast
  have ps: "set ps = {Suc ?n ..< Suc ?n + length argv}" "distinct ps" "length ps = length argv"
    by (simp_all only: ps_def set_upt distinct_upt length_upt)
  have new: "h p = Some (Chars (argv ! (p - Suc ?n) @ [NUL]))" if "p \<in> set ps" for p
    using that by (auto simp: ps h_def map_add_def copies_def)
  have at: "h ?n = Some (Ptrs ps)" by (simp add: h_def map_add_def copies_def)
  have old: "h p = heap s p" if "p < ?n" for p using that by (auto simp: h_def map_add_def copies_def)
  have end_block: "h p = None" if "Suc ?n + length argv \<le> p" for p
    using that holds_fresh [OF assms(1), of p] by (auto simp: h_def map_add_def copies_def)
  have args: "args_of h ?d = ps" by (simp add: args_of_def ptrs_at_def at)
  have res: "results_str d = Some r \<Longrightarrow> r < ?n" for r
    using holds_owned_low [OF assms(1), of r] by (simp add: owned_def)
  have o: "owned h ?d = ?n # ps @ (case results_str d of None \<Rightarrow> [] | Some r \<Rightarrow> [r])"
    by (simp add: owned_def args)
  have "list_all (\<lambda>p. is_chars (h p)) ps" by (simp add: list_all_iff new is_chars_def)
  then have "thread_ok h ?d"
    using ok at assms(3,5) ps res old unfolding thread_ok_def args o
    by (fastforce simp: ptrs_at_def split: option.splits)
  moreover have "p \<in> set (owned (heap s) d) \<or> ?n \<le> p" if "p \<in> set (owned h ?d)" for p
    using that ps unfolding o by (auto simp: owned_def split: option.splits)
  ultimately show "holds k ?d t"
    unfolding t by (intro holds_change [OF assms(1)]) (use old end_block in auto)
  have "map (\<lambda>p. cstr (chars_at h p)) ps ! i = map cstr argv ! i" if "i < length argv" for i
  proof -
    have "ps ! i = Suc ?n + i" using that unfolding ps_def by (subst nth_upt) simp_all
    moreover have "ps ! i \<in> set ps" using that ps(3) by simp
    ultimately show ?thesis using that ps(3) new [of "ps ! i"] by (simp add: chars_at_def)
  qed
  then have "map (\<lambda>p. cstr (chars_at h p)) ps = map cstr argv" by (intro nth_equalityI) (simp_all add: ps)
  then show "arg_strings (heap t) ?d = map cstr argv" by (simp add: arg_strings_def t ptrs_at_def at)
  show "\<exists>w h m. t = s\<lparr>world := w, heap := h, next_block := m\<rparr>" using t by blast
qed

subsection \<open>The operations keep the invariant\<close>

lemma data_of_upd [simp]:
  "data_of k (upd_data k f s) = f (data_of k s)" "data_of (other k) (upd_data k f s) = data_of (other k) s"
  by (simp_all add: data_of_def upd_data_def other_def)

lemma data_of_heap [simp]:
  "data_of k (s\<lparr>heap := h\<rparr>) = data_of k s" "data_of k (s\<lparr>next_block := n\<rparr>) = data_of k s"
  "data_of k (s\<lparr>world := w\<rparr>) = data_of k s"
  by (simp_all add: data_of_def)

lemma upd_upd [simp]: "upd_data k f (upd_data k g s) = upd_data k (\<lambda>d. f (g d)) s"
  by (simp add: upd_data_def)

lemma world_upd [simp]: "world (upd_data k f s) = world s"
  by (simp add: upd_data_def)

lemma heap_upd [simp]:
  "heap (upd_data k f s) = heap s" "next_block (upd_data k f s) = next_block s" "heap_fault (upd_data k f s) = heap_fault s"
  by (simp_all add: upd_data_def)

lemma holds_upd [simp]: "holds k d (upd_data k f s) = holds k d s"
  by (simp add: holds_def)

lemmas prints_keep [simp] = hp_print [THEN hp_cong(1)] hp_print [THEN hp_cong(2)]

lemmas exec_plain = exec_bind result_bind exec_return result_return exec_basic exec_world exec_if

lemma exec_prepare:
  fixes s :: "('w, 'z) th_scheme" and bg :: bool
  assumes "holds k (data_of k s) s" "\<not> pending (data_of k s)" "bg \<Longrightarrow> memory T"
  defines "t \<equiv> exec_state (prepare_results T k bg) s"
  shows "result (prepare_results T k bg) s"
    "data_of k t = (data_of k s)\<lparr>results_str := results_str (data_of k t)\<rparr>" "results_str (data_of k t) \<noteq> None \<longleftrightarrow> bg" "holds k (data_of k t) t"
    "data_of (other k) t = data_of (other k) s"
proof -
  define d where "d = data_of k s"
  have h: "holds k d s" "\<not> pending d" using assms by (simp_all add: d_def)
  have all: "result (prepare_results T k bg) s \<and> data_of k t = d\<lparr>results_str := results_str (data_of k t)\<rparr> \<and> (results_str (data_of k t) \<noteq> None \<longleftrightarrow> bg) \<and>
      holds k (data_of k t) t \<and> data_of (other k) t = data_of (other k) s"
  proof (cases "results_str d")
    case None
    show ?thesis
    proof (cases bg)
      case True
      note m = exec_malloc [OF assms(3) [OF True]]
      have t: "t = upd_data k (\<lambda>d. d\<lparr>results_str := Some (next_block s)\<rparr>) (exec_state (malloc T (Chars (replicate TH_RESPONSE_BUFFER_SIZE NUL))) s)"
        using None True by (simp add: t_def prepare_results_def exec_simps m d_def)
      have "result (prepare_results T k bg) s"
        using None True by (simp add: prepare_results_def exec_simps m d_def)
      then show ?thesis
        using holds_new_results [OF h(1) None h(2) assms(3) [OF True], of "replicate TH_RESPONSE_BUFFER_SIZE NUL"] h(1) None True
        by (simp add: t m d_def)
    qed (use None h(1) in \<open>simp add: t_def prepare_results_def exec_simps d_def clear_block_def\<close>)
  next
    case (Some r)
    note f = holds_free_results [OF h(1) Some h(2)] and c = holds_clear [OF h(1) Some]
    have t: "t = (if bg then s\<lparr>heap := (heap s)(r \<mapsto> Chars (replicate TH_RESPONSE_BUFFER_SIZE NUL))\<rparr>
       else upd_data k (\<lambda>d. d\<lparr>results_str := None\<rparr>) (s\<lparr>heap := (heap s)(r := None)\<rparr>))"
      using Some c(1) f(1) by (simp add: t_def prepare_results_def exec_simps d_def) (simp add: clear_block_def exec_simps)
    have "result (prepare_results T k bg) s"
      using Some f(1) by (simp add: prepare_results_def exec_simps d_def)
    then show ?thesis using f(2) c(2) Some by (auto simp: t d_def)
  qed
  then show "result (prepare_results T k bg) s"
    "data_of k t = (data_of k s)\<lparr>results_str := results_str (data_of k t)\<rparr>" "results_str (data_of k t) \<noteq> None \<longleftrightarrow> bg" "holds k (data_of k t) t"
    "data_of (other k) t = data_of (other k) s" by (simp_all add: d_def)
qed

definition started :: "nat \<Rightarrow> string list \<Rightarrow> bool \<Rightarrow> bool \<Rightarrow> nat \<Rightarrow> ('w, 'z) th_scheme \<Rightarrow> bool" where
  "started n argv bg pl k s \<longleftrightarrow> (let d = data_of k s in
     pending d \<and> background d = bg \<and> is_pipeline d = pl \<and> th_argc d = length argv - 1 \<and> cmd_len d = n \<and> arg_strings (heap s) d = map cstr (tl argv))"

lemma exec_drop_argv:
  fixes s :: "('w, 'z) th_scheme"
  assumes "holds k (data_of k s) s" "\<not> pending (data_of k s)"
    and "th_argv d = th_argv (data_of k s)" "th_argc d = th_argc (data_of k s)"
  defines "t \<equiv> exec_state (doif (th_argv d \<noteq> None) (th_ctrl_util_duplicate_argv_free (th_argc d) (th_argv d))) s"
  shows "holds k ((data_of k s)\<lparr>th_argc := 0, th_argv := None\<rparr>) t" "data_of j t = data_of j s"
proof -
  note f = holds_free_argv [OF assms(1,2)]
  have "holds k ((data_of k s)\<lparr>th_argc := 0, th_argv := None\<rparr>) t \<and> data_of j t = data_of j s"
  proof (cases "th_argv d")
    case None
    have "th_argc d = 0" using holds_thread [OF assms(1)] None assms(3,4) by (simp add: thread_ok_def)
    then have "(data_of k s)\<lparr>th_argc := 0, th_argv := None\<rparr> = data_of k s" using None assms(3,4) by simp
    then show ?thesis using None assms(1) by (simp add: t_def exec_simps)
  next
    case (Some a)
    then show ?thesis using f assms(3,4) by (simp add: t_def exec_simps)
  qed
  then show "holds k ((data_of k s)\<lparr>th_argc := 0, th_argv := None\<rparr>) t" "data_of j t = data_of j s" by simp_all
qed

lemma exec_start:
  fixes s :: "('w, 'z) th_scheme" and bg pl :: bool and n :: nat
  assumes "holds k (data_of k s) s" "\<not> pending (data_of k s)" "memory T" "1 < length argv"
    and "th_nbr (data_of k s) = 1 \<or> th_nbr (data_of k s) = 2"
  defines "t \<equiv> exec_state (th_ctrl_data_start T n k argv bg pl) s"
  shows "holds k (data_of k t) t" "data_of (other k) t = data_of (other k) s" "started n argv bg pl k t"
    "th_nbr (data_of k t) = th_nbr (data_of k s)"
proof -
  let ?none = "\<lambda>d. d\<lparr>th_argc := 0, th_argv := None\<rparr>" and ?len = "length argv - Suc 0"
  define d where "d = data_of k s"
  define s1 where "s1 = exec_state (prepare_results T k bg) s"
  define d1 where "d1 = data_of k s1"
  note p = exec_prepare [OF assms(1-3), of bg, folded s1_def, folded d1_def]
  have d1: "th_argv d1 = th_argv d" "th_argc d1 = th_argc d" "th_nbr d1 = th_nbr d" "\<not> pending d1"
  proof -
    obtain r where "d1 = d\<lparr>results_str := r\<rparr>" using p(2) unfolding d_def by blast
    then show "th_argv d1 = th_argv d" "th_argc d1 = th_argc d" "th_nbr d1 = th_nbr d" "\<not> pending d1"
      using assms(2) by (simp_all add: d_def)
  qed
  define s2 where "s2 = exec_state (doif (th_argv d \<noteq> None) (th_ctrl_util_duplicate_argv_free (th_argc d) (th_argv d))) s1"
  have s2: "holds k (?none d1) s2" "data_of k s2 = d1" "data_of (other k) s2 = data_of (other k) s"
  proof -
    have "holds k d1 s1" using p(4) .
    note e = exec_drop_argv [of k s1 d, folded d1_def s2_def, OF this d1(4) d1(1,2) [symmetric]]
    show "holds k (?none d1) s2" by (rule e(1))
    show "data_of k s2 = d1" "data_of (other k) s2 = data_of (other k) s"
      using e(2) p(5) by (simp_all add: d1_def)
  qed
  define s3 where "s3 = upd_data k (\<lambda>d. d\<lparr>th_argc := ?len\<rparr>) s2"
  have "holds k (?none d1) s3" "tl argv \<noteq> []" using s2(1) assms(4) by (cases argv; auto simp: s3_def)+
  note dup = holds_duplicate [OF this(1) _ _ assms(3) this(2), simplified, OF d1(4)] exec_duplicate(1) [OF assms(3), of "tl argv" s3]
  define s4 where "s4 = exec_state (th_ctrl_util_duplicate_argv T (tl argv)) s3"
  define f :: "th_ctrl_data \<Rightarrow> th_ctrl_data" where "f = (\<lambda>d. d\<lparr>th_argv := Some (next_block s3), background := bg, is_pipeline := pl, cmd_len := n, pending := True\<rparr>)"
  have s4: "data_of k s4 = d1\<lparr>th_argc := ?len\<rparr>" "data_of (other k) s4 = data_of (other k) s"
    using dup(3) s2(2,3) by (auto simp: s4_def s3_def)
  have t: "t = upd_data k f s4"
    using assms(2,4,5) p(1) s2(2) d1(3) dup(4)
    by (simp add: t_def th_ctrl_data_start_def exec_plain d_def [symmetric] s1_def [symmetric] s2_def [symmetric]
        s3_def [symmetric] s4_def [symmetric] f_def del: not_None_eq)
  show "holds k (data_of k t) t"
    unfolding t holds_upd data_of_upd s4(1) f_def
    by (rule holds_same_owner [OF dup(1) [folded s4_def]]) (use p(3) in simp_all)
  show "data_of (other k) t = data_of (other k) s" by (simp add: t s4)
  show "th_nbr (data_of k t) = th_nbr (data_of k s)" using d1(3) by (simp add: t s4 f_def d_def)
  show "started n argv bg pl k t"
    using dup(2) by (simp add: started_def t s4 f_def Let_def arg_strings_def s4_def [symmetric])
qed

subsection \<open>A ping leaves the threads alone\<close>

lemma hp_print_free [simp]: "print_free hp"
  by (simp add: print_free_def)

lemma keeps_hp_ping [keeps_intros]:
  fixes T :: "('w, 'y) ping_api_scheme"
  shows "keeps hp (parse_reply T a fd rep r buf len dt tm)" "keeps hp (wait_for_data fuel T a fd rep r buf tm)"
    "keeps hp (exchange fuel T a r fd req rep)" "keeps hp (send_ping_wait_reply fuel T a r)"
proof -
  show parse: "keeps hp (parse_reply T a fd rep r buf len dt tm)" for fd rep buf len dt tm
    unfolding parse_reply_def set_rai_def
    by (intro keeps_verdict keeps_intros) simp_all
  show wait: "keeps hp (wait_for_data fuel T a fd rep r buf tm)" for fd rep buf tm
  proof (induction fuel arbitrary: buf tm)
    case (Suc fuel)
    show ?case unfolding wait_for_data.simps k_uptime_delta_def
      by (intro keeps_intros parse Suc.IH) simp_all
  qed (simp add: keeps_intros)
  show ex: "keeps hp (exchange fuel T a r fd req rep)" for fd req rep
    unfolding exchange_def net_utils_socket_pdn_id_set_def set_rai_def k_uptime_delta_def
    by (intro keeps_intros wait) simp_all
  show "keeps hp (send_ping_wait_reply fuel T a r)"
    unfolding send_ping_wait_reply_def
    by (intro keeps_intros ex) simp_all
qed

lemma keeps_hp_session [keeps_intros]:
  fixes T :: "('w, 'y) ping_api_scheme"
  shows "keeps hp (icmp_ping_current_conn_info_set T a)" "keeps hp (ping_loop fuel T n a st)" "keeps hp (icmp_ping_start_run fuel T a)"
proof -
  show conn: "keeps hp (icmp_ping_current_conn_info_set T a)" for a
    unfolding icmp_ping_current_conn_info_set_def read_connection_def look_up_def
    by (intro keeps_intros) simp_all
  have free: "keeps hp (free_addr T x)" for x
    unfolding free_addr_def by (intro keeps_intros) simp_all
  have refresh: "keeps hp (refresh T a)" for a
    unfolding refresh_def by (intro keeps_intros conn free) simp_all
  show loop: "keeps hp (ping_loop fuel T n a st)" for n a st
    by (induction n arbitrary: a st) (auto intro!: keeps_intros refresh)
  have stats: "keeps hp (print_stats T a st)" for a st
    unfolding print_stats_def by (intro keeps_intros) simp_all
  show "keeps hp (icmp_ping_start_run fuel T a)"
    unfolding icmp_ping_start_run_def by (intro keeps_intros conn loop free stats) simp_all
qed

lemma keeps_hp_shell [keeps_intros]:
  fixes T :: "('w, 'y) ping_api_scheme"
  shows "keeps hp (icmp_ping_shell_th fuel T usage argv b n sig)"
proof -
  have option: "keeps hp (ping_option T argv x a)" for x a
    unfolding ping_option_def by (intro keeps_intros) simp_all
  have options: "keeps hp (ping_options T argv xs a)" for xs a
    by (induction xs arbitrary: a) (auto intro!: keeps_intros option)
  show ?thesis
    unfolding icmp_ping_shell_th_def show_usage_def icmp_ping_shell_usage_print_def
    by (intro keeps_intros options) simp_all
qed

subsection \<open>The commands keep the invariant\<close>

definition numbered :: "('w, 'z) th_scheme \<Rightarrow> bool" where
  "numbered s \<longleftrightarrow> th_nbr (th_work_data_1 s) = 1 \<and> th_nbr (th_work_data_2 s) = 2"

definition th_safe :: "('w, 'z) th_scheme \<Rightarrow> bool" where
  "th_safe s \<longleftrightarrow> th_inv s \<and> numbered s"

lemma th_safe_hp: "hp s = hp t \<Longrightarrow> th_safe s = th_safe t"
  by (simp add: th_safe_def th_inv_def numbered_def hp_eq holds_def data_of_def)

lemma th_safe_keeps: "keeps hp p \<Longrightarrow> th_safe s \<Longrightarrow> th_safe (exec_state p s)"
  using th_safe_hp [OF keepsD [of hp p s]] by simp

lemma numbered_iff: "k = 1 \<or> k = 2 \<Longrightarrow> numbered s \<longleftrightarrow> th_nbr (data_of k s) = k \<and> th_nbr (data_of (other k) s) = other k"
  by (auto simp: numbered_def data_of_def other_def)

lemma th_safe_iff: "k = 1 \<or> k = 2 \<Longrightarrow> th_safe s \<longleftrightarrow> holds k (data_of k s) s \<and> args_fit (heap s) (data_of k s) \<and>
    th_nbr (data_of k s) = k \<and> th_nbr (data_of (other k) s) = other k"
  using numbered_iff [of k s] th_inv_holds [of s k] unfolding th_safe_def by blast

lemma th_safe_start:
  fixes s :: "('w, 'z) th_scheme"
  assumes "th_safe s" "memory T" "k = 1 \<or> k = 2" "\<not> pending (data_of k s)" "1 < length argv"
    "length (unwords (map cstr (tl argv))) \<le> n"
  shows "th_safe (exec_state (th_ctrl_data_start T n k argv bg pl) s)"
proof -
  have nbr: "th_nbr (data_of k s) = 1 \<or> th_nbr (data_of k s) = 2" using assms(1,3) th_safe_iff by auto
  have "holds k (data_of k s) s" using assms(1,3) th_safe_iff by blast
  note e = exec_start [OF this assms(4,2,5) nbr, of n bg pl]
  have "args_fit (heap t) (data_of k t)" if "started n argv bg pl k t" for t :: "('w, 'z) th_scheme"
    using that assms(6) by (simp add: args_fit_def started_def Let_def)
  then show ?thesis using e assms(1,3) by (simp add: th_safe_iff [of k])
qed

text \<open>Printing the results of a thread that is not running.\<close>

lemma prints_heap [simp]:
  "heap (exec_state (mosh_print T f a) s) = heap s" "heap (exec_state (mosh_error T f a) s) = heap s"
  "heap (exec_state (mosh_print_no_format x) s) = heap s"
  "next_block (exec_state (mosh_print T f a) s) = next_block s" "next_block (exec_state (mosh_error T f a) s) = next_block s"
  using hp_print(1-3) [THEN hp_eq [THEN iffD1]] by blast+

lemma exec_results:
  fixes s :: "('w, 'z) th_scheme" and T :: "('w, 'y) th_api_scheme"
  assumes "holds k (data_of k s) s" "\<not> pending (data_of k s)"
  defines "d \<equiv> data_of k s" and "t \<equiv> exec_state (th_ctrl_data_result_print T k) s"
  defines "r \<equiv> if results_text (heap s) d = [] then results_str d else None"
  shows "data_of k t = d\<lparr>results_str := r, th_argc := 0, th_argv := None\<rparr>"
    "data_of (other k) t = data_of (other k) s" "holds k (data_of k t) t"
    "heap t = heap s |` (- ((case th_argv d of None \<Rightarrow> {} | Some a \<Rightarrow> insert a (set (tl (ptrs_at (heap s) a)))) \<union>
       (if r = None then set_option (results_str d) else {})))"
proof -
  have h: "holds k d s" "\<not> pending d" using assms by (simp_all add: d_def)
  define body where "body = (show_results T k d (results_text (heap s) d) :: (('w, 'z) th_scheme, unit) prog)"
  define s1 where "s1 = exec_state body s"
  have s1: "holds k (d\<lparr>results_str := r\<rparr>) s1 \<and> data_of k s1 = d\<lparr>results_str := r\<rparr> \<and> data_of (other k) s1 = data_of (other k) s \<and>
      heap s1 = heap s |` (- (if r = None then set_option (results_str d) else {}))"
  proof (cases "results_text (heap s) d = []")
    case True
    then have "r = results_str d" by (simp add: r_def)
    then show ?thesis using True h(1) by (auto simp: s1_def body_def show_results_def d_def restrict_map_def)
  next
    case False
    then obtain x where x: "results_str d = Some x" by (auto simp: results_text_def split: option.splits)
    define s2 where "s2 = exec_state (do {
        mosh_print T ''thread #%d results:'' [PInt (int (th_nbr d))];
        mosh_print T ''-------------------------------------'' [];
        mosh_print_no_format (results_text (heap s) d);
        mosh_print T ''-------------------------------------'' [] }) s"
    have s2: "holds k d s2" "data_of k s2 = d" "data_of (other k) s2 = data_of (other k) s" "heap s2 = heap s"
      using h(1) by (simp_all add: s2_def exec_simps d_def)
    have f: "exec_state (free (Some x)) s2 = s2\<lparr>heap := (heap s)(x := None)\<rparr>"
        "holds k (d\<lparr>results_str := None\<rparr>) (s2\<lparr>heap := (heap s)(x := None)\<rparr>)"
      using holds_free_results [OF s2(1) x h(2)] s2(4) by simp_all
    have "s1 = exec_state (do {
          free (Some x);
          modify (upd_data k (\<lambda>d. d\<lparr>results_str := None\<rparr>));
          mosh_print T ''Note: th results #%d were deleted.'' [PInt (int (th_nbr d))] }) s2"
      using False h(2) x by (simp add: s1_def s2_def body_def show_results_def exec_simps)
    moreover have "(heap s)(x := None) = heap s |` (- {x})" by (auto simp: restrict_map_def fun_eq_iff)
    moreover have "r = None" using False by (simp add: r_def)
    ultimately show ?thesis using f s2 x by (simp add: exec_simps del: fun_upd_apply)
  qed
  let ?d = "d\<lparr>results_str := r\<rparr>"
  have "\<not> pending ?d" using h(2) by simp
  note f = holds_free_argv [OF conjunct1 [OF s1] this]
  have "a \<notin> set_option (results_str d)" if "th_argv d = Some a" for a
    using holds_thread [OF h(1)] that by (auto simp: thread_ok_def owned_def)
  then have argv: "ptrs_at (heap s1) a = ptrs_at (heap s) a" if "th_argv d = Some a" for a
    using s1 that by (simp add: ptrs_at_def)
  define F where "F = (case th_argv d of None \<Rightarrow> {} | Some a \<Rightarrow> insert a (set (tl (ptrs_at (heap s) a))))"
  have F1: "(case th_argv d of None \<Rightarrow> {} | Some a \<Rightarrow> insert a (set (tl (ptrs_at (heap s1) a)))) = F"
    using argv by (simp add: F_def split: option.split)
  have "heap s1 |` (- F) = heap s |` (- (F \<union> (if r = None then set_option (results_str d) else {})))"
    using s1 by (simp add: Int_commute)
  moreover have "exec_state (th_ctrl_util_duplicate_argv_free (th_argc d) (th_argv d)) s1 = s1\<lparr>heap := heap s1 |` (- F)\<rparr>"
    using f(2) F1 by simp
  ultimately have fr: "exec_state (th_ctrl_util_duplicate_argv_free (th_argc d) (th_argv d)) s1 =
      s1\<lparr>heap := heap s |` (- (F \<union> (if r = None then set_option (results_str d) else {})))\<rparr>" by simp
  have run: "t = upd_data k (\<lambda>d. d\<lparr>th_argc := 0, th_argv := None\<rparr>) (exec_state (th_ctrl_util_duplicate_argv_free (th_argc d) (th_argv d)) s1)"
    using h(2) by (simp add: t_def th_ctrl_data_result_print_def exec_plain exec_doif d_def [symmetric] body_def [symmetric] s1_def [symmetric])
  show "data_of k t = d\<lparr>results_str := r, th_argc := 0, th_argv := None\<rparr>"
    "data_of (other k) t = data_of (other k) s" "holds k (data_of k t) t"
    "heap t = heap s |` (- ((case th_argv d of None \<Rightarrow> {} | Some a \<Rightarrow> insert a (set (tl (ptrs_at (heap s) a)))) \<union>
       (if r = None then set_option (results_str d) else {})))"
    using f(1) s1 unfolding run F_def [symmetric] by (simp_all add: fr)
qed

lemma th_safe_results:
  fixes s :: "('w, 'z) th_scheme"
  assumes "th_safe s" "k = 1 \<or> k = 2"
  shows "th_safe (exec_state (th_ctrl_data_result_print T k) s)"
proof (cases "pending (data_of k s)")
  case True
  then have "hp (exec_state (th_ctrl_data_result_print T k) s) = hp s"
    by (simp add: th_ctrl_data_result_print_def show_results_def exec_simps)
  then show ?thesis using assms(1) th_safe_hp by blast
next
  case False
  have "holds k (data_of k s) s" using assms th_safe_iff by blast
  note e = exec_results [OF this False, where T = T]
  have "args_fit (heap t) (d\<lparr>results_str := r, th_argc := 0, th_argv := None\<rparr>)" for t :: "('w, 'z) th_scheme" and d r
    by (simp add: args_fit_def)
  then show ?thesis
    using e(1-3) assms(1) by (simp add: th_safe_iff [OF assms(2)])
qed

text \<open>Showing the status: the copy of the command line fits its buffer.\<close>

lemma status_text:
  assumes "length (unwords as) \<le> n" "list_all (\<lambda>a. NUL \<notin> set a) as"
  shows "\<exists>b. \<forall>s. run_state (shell_command_str_from_argv T as None (replicate (n + 1) NUL) (n + 1)) s = (Some b, s)"
proof -
  let ?b = "replicate (n + 1) NUL"
  have "cstr ?b = take 0 ?b" by (simp add: cstr_def)
  then obtain b where "append_args as (n + 1) 0 ?b = Some (b, False)"
    using append_args_fits [of ?b 0 as "n + 1"] assms by (auto simp: list_all_iff)
  then show ?thesis by (auto simp: shell_command_str_from_argv_def run_simps)
qed

lemma hp_print_command:
  fixes u :: "('w, 'z) th_scheme"
  assumes "length (unwords as) \<le> n" "list_all (\<lambda>a. NUL \<notin> set a) as" "memory T" "heap u (next_block u) = None"
  shows "hp (exec_state (print_command T n as) u) = hp (u\<lparr>next_block := Suc (next_block u)\<rparr>)"
proof -
  obtain b where b: "run_state (shell_command_str_from_argv T as None (replicate (Suc n) NUL) (Suc n)) s = (Some b, s)"
    for s :: "('w, 'z) th_scheme"
    using status_text [OF assms(1,2), of T] unfolding Suc_eq_plus1 [symmetric] by blast
  define v where "v = exec_state (malloc T (Chars (replicate (n + 1) NUL))) u"
  define w where "w = exec_state (mosh_print T ''  command: %s'' [PStr (cstr b)]) v"
  have "exec_state (print_command T n as) u = exec_state (free (Some (next_block u))) w"
    by (simp add: print_command_def exec_bind result_bind exec_malloc(1) [OF assms(3)] v_def [symmetric] del: replicate_Suc)
      (simp add: w_def v_def exec_state_def result_def b run_bind del: replicate_Suc)
  also have "hp w = hp v" by (simp add: w_def)
  then have w: "heap w = (heap u)(next_block u \<mapsto> Chars (replicate (n + 1) NUL))" "next_block w = Suc (next_block u)"
      "th_work_data_1 w = th_work_data_1 u" "th_work_data_2 w = th_work_data_2 u" "heap_fault w = heap_fault u"
    by (simp_all add: hp_eq v_def exec_malloc [OF assms(3)])
  then have "exec_state (free (Some (next_block u))) w = w\<lparr>heap := (heap w)(next_block u := None)\<rparr>"
    by (intro exec_free) simp
  finally show ?thesis using w assms(4) by (simp add: hp_eq) (simp add: fun_eq_iff)
qed

lemma arg_strings_clean: "list_all (\<lambda>a. NUL \<notin> set a) (arg_strings h d)"
  by (auto simp: arg_strings_def list_all_iff split: option.split)

lemma th_safe_status:
  fixes s :: "('w, 'z) th_scheme"
  assumes "th_safe s" "memory T"
  shows "th_safe (exec_state (th_ctrl_data_status_print T k) s)"
proof -
  let ?d = "data_of k s" let ?n = "cmd_len ?d + 1"
  define t where "t = exec_state (th_ctrl_data_status_print T k) s"
  have fit: "th_argv ?d \<noteq> None \<Longrightarrow> length (unwords (arg_strings (heap s) ?d)) \<le> cmd_len ?d"
    using assms(1) th_inv_holds [of s k] by (simp add: th_safe_def args_fit_def)
  have free: "heap s (next_block s) = None"
    using holds_fresh [of k ?d s "next_block s"] assms(1) th_inv_holds [of s k] by (simp add: th_safe_def)
  have "hp t = hp s \<or> hp t = hp (s\<lparr>next_block := Suc (next_block s)\<rparr>)"
  proof -
    define u where "u = exec_state (do {
        mosh_print T ''thread #%d status:'' [PInt (int (th_nbr ?d))];
        mosh_print T (if results_text (heap s) ?d \<noteq> [] then ''  Results available'' else ''  Results not available'') [];
        (if pending ?d
         then mosh_print T ''  thread is running %s'' [PStr (if background ?d then ''in the background'' else ''in the foreground'')]
         else mosh_print T ''  thread is not running'' [])
      }) s"
    have u: "hp u = hp s" "t = exec_state (doif (th_argv ?d \<noteq> None) (print_command T (cmd_len ?d) (arg_strings (heap s) ?d))) u"
      by (simp_all add: u_def t_def th_ctrl_data_status_print_def exec_plain)
    show ?thesis
    proof (cases "th_argv ?d = None")
      case False
      have "heap u (next_block u) = None" using u(1) free by (simp add: hp_eq)
      note hp_print_command [OF fit [OF False] arg_strings_clean assms(2) this]
      then show ?thesis using u False by (simp add: exec_doif) (simp add: hp_eq)
    qed (use u in \<open>simp add: exec_doif\<close>)
  qed
  moreover have "th_safe (s\<lparr>next_block := Suc (next_block s)\<rparr>)"
    using assms(1) by (simp add: th_safe_def th_inv_def numbered_def holds_def heap_ok_def data_of_def other_def)
  ultimately show ?thesis using assms(1) th_safe_hp t_def by blast
qed

text \<open>What the work itself does to the heap: at most it writes the results of its thread.\<close>

definition works :: "nat \<Rightarrow> ('w, 'z, 'a) th_prog \<Rightarrow> ('w, 'z) th_scheme \<Rightarrow> bool" where
  "works k p s \<longleftrightarrow> hp (exec_state p s) = hp s \<or>
     (\<exists>r t. results_str (data_of k s) = Some r \<and> hp (exec_state p s) = hp (s\<lparr>heap := (heap s)(r \<mapsto> Chars t)\<rparr>))"

lemma works_keeps: "keeps hp p \<Longrightarrow> works k p s"
  by (simp add: works_def keeps_def)

lemma works_safe:
  assumes "works k p s" "th_safe s"
  shows "th_safe (exec_state p s) \<and> data_of j (exec_state p s) = data_of j s"
proof -
  consider "hp (exec_state p s) = hp s" |
    r t where "results_str (data_of k s) = Some r" "hp (exec_state p s) = hp (s\<lparr>heap := (heap s)(r \<mapsto> Chars t)\<rparr>)"
    using assms(1) unfolding works_def by blast
  then show ?thesis
  proof cases
    case 1
    then show ?thesis using assms(2) th_safe_hp [OF 1] hp_cong(2) [OF 1] by simp
  next
    case 2
    let ?t = "s\<lparr>heap := (heap s)(r \<mapsto> Chars t)\<rparr>"
    have "holds k (data_of k s) s" using assms(2) th_inv_holds th_safe_def by blast
    note c = holds_clear(2,3) [OF this 2(1), of t]
    have "th_inv ?t" using c assms(2) th_inv_holds [of s k] by (simp add: th_inv_holds [of ?t k] args_fit_def th_safe_def)
    moreover have "numbered ?t" using assms(2) by (simp add: numbered_def th_safe_def)
    ultimately show ?thesis using th_safe_hp [OF 2(2)] hp_cong(2) [OF 2(2)] by (simp add: th_safe_def)
  qed
qed

lemma works_run:
  fixes s :: "('w, 'z) th_scheme"
  shows "works k (run_ping fuel T j argv (results_str (data_of k s))) s" "works k (run_iperf T argv (results_str (data_of k s))) s"
proof -
  have "keeps hp (run_pipeline T i cs)" for i and cs and T :: "('w, 'y) th_api_scheme"
    by (induction cs arbitrary: i) (auto intro!: keeps_intros)
  show "works k (run_ping fuel T j argv (results_str (data_of k s))) s"
  proof (cases "results_str (data_of k s)")
    case None
    then show ?thesis unfolding run_ping_def by (auto intro!: works_keeps keeps_intros)
  next
    case (Some a)
    define u where "u = exec_state (icmp_ping_shell_th fuel T (ping_usage T) argv True (int TH_RESPONSE_BUFFER_SIZE) (Some (kill_signal_of T j)))
      (s\<lparr>print_out := chars_at (heap s) a\<rparr>)"
    have "hp u = hp s" unfolding u_def by (subst keepsD [OF keeps_hp_shell]) simp
    moreover have "exec_state (run_ping fuel T j argv (Some a)) s = u\<lparr>heap := (heap u)(a \<mapsto> Chars (print_out u))\<rparr>"
      by (simp add: run_ping_def exec_simps u_def)
    ultimately show ?thesis using Some unfolding works_def by (auto simp: hp_eq)
  qed
  show "works k (run_iperf T argv (results_str (data_of k s))) s"
    unfolding works_def run_iperf_def by (cases "results_str (data_of k s)") (auto simp: exec_simps hp_eq)
qed

lemma keeps_hp_pipeline: "keeps hp (run_pipeline T i cs)"
  by (induction cs arbitrary: i) (auto intro!: keeps_intros)

lemma exec_option_case [exec_simps]:
  "exec_state (case x of None \<Rightarrow> p | Some y \<Rightarrow> q y) s = (case x of None \<Rightarrow> exec_state p s | Some y \<Rightarrow> exec_state (q y) s)"
  by (simp split: option.split)

lemma th_safe_handler:
  fixes s :: "('w, 'z) th_scheme"
  assumes "th_safe s" "pending (data_of k s)"
  shows "th_safe (exec_state (th_ctrl_work_handler fuel T k) s)"
    "\<not> is_pipeline (data_of k s) \<Longrightarrow> hd (arg_strings (heap s) (data_of k s)) = ''iperf3'' \<Longrightarrow>
      data_of k (exec_state (th_ctrl_work_handler fuel T k) s) = (data_of k s)\<lparr>pending := False\<rparr>"
proof -
  define d where "d = data_of k s"
  define s0 where "s0 = exec_state (mosh_print T ''Starting thread #%d'' [PInt (int (th_nbr d))]) s"
  have s0: "th_safe s0" "data_of k s0 = d" "heap s0 = heap s"
    using assms(1) th_safe_hp [of s0 s] by (simp_all add: s0_def d_def)
  have ok: "th_argv d \<noteq> None" "background d = (results_str d \<noteq> None)"
    using holds_thread [of k d s] assms th_inv_holds [of s k] by (auto simp: thread_ok_def th_safe_def d_def)
  define argv where "argv = arg_strings (heap s) d"
  define s1 where "s1 = exec_state (th_run_work fuel T k d argv) s0"
  have "works k (th_run_work fuel T k d argv) s0"
    using works_run(1) [of k fuel T k argv s0] works_run(2) [of k T argv s0] s0(2)
    by (auto simp: th_run_work_def intro!: works_keeps keeps_intros keeps_hp_pipeline)
  note s1 = works_safe [OF this s0(1), folded s1_def]
  define s2 where "s2 r = exec_state (report_work T d argv r) s1" for r
  have s2: "th_safe (s2 r)" "data_of k (s2 r) = d" for r
  proof -
    have "hp (s2 r) = hp s1" unfolding s2_def report_work_def by (rule keepsD, intro keeps_intros) simp_all
    then show "th_safe (s2 r)" "data_of k (s2 r) = d"
      using s1 s0(2) th_safe_hp [of "s2 r" s1] hp_cong(2) [of "s2 r" s1 k] by simp_all
  qed
  let ?u = "upd_data k (\<lambda>d. d\<lparr>pending := False\<rparr>)"
  have safe: "th_safe (?u (s2 r))" for r
  proof -
    have h: "holds k d (s2 r)" "args_fit (heap (s2 r)) d" using s2 th_inv_holds [of "s2 r" k] by (auto simp: th_safe_def)
    have "holds k (d\<lparr>pending := False\<rparr>) (?u (s2 r))" unfolding holds_upd by (rule holds_same_owner [OF h(1)]) simp_all
    moreover have "args_fit (heap (s2 r)) (d\<lparr>pending := False\<rparr>)"
      using h(2) by (simp add: args_fit_def arg_strings_def)
    moreover have "numbered (?u (s2 r))" using s2(1) by (simp add: th_safe_def numbered_def upd_data_def)
    ultimately show ?thesis using s2(2) by (simp add: th_safe_def th_inv_holds [of _ k])
  qed
  have run: "exec_state (th_ctrl_work_handler fuel T k) s =
      (case result (th_run_work fuel T k d argv) s0 of None \<Rightarrow> s1 | Some r \<Rightarrow> ?u (s2 r))"
    using ok by (cases "result (th_run_work fuel T k d argv) s0"; cases "th_argv d")
      (simp_all add: th_ctrl_work_handler_def exec_simps d_def [symmetric] s0_def [symmetric] argv_def [symmetric] s1_def [symmetric]
        s2_def [symmetric])
  show "th_safe (exec_state (th_ctrl_work_handler fuel T k) s)" using s1 safe by (simp add: run split: option.split)
  assume "\<not> is_pipeline (data_of k s)" "hd (arg_strings (heap s) (data_of k s)) = ''iperf3''"
  then have "result (th_run_work fuel T k d argv) s0 \<noteq> None"
    by (cases "results_str d") (simp_all add: th_run_work_def run_iperf_def exec_simps d_def [symmetric] argv_def [symmetric])
  then show "data_of k (exec_state (th_ctrl_work_handler fuel T k) s) = (data_of k s)\<lparr>pending := False\<rparr>"
    using s2(2) by (auto simp: run d_def [symmetric])
qed

subsection \<open>Runs\<close>

text \<open>The arguments are cut from the command line, so that joined they are no longer than it.\<close>

definition event_ok :: "th_event \<Rightarrow> bool" where
  "event_ok e \<longleftrightarrow> (case e of Command c n argv \<Rightarrow> length (unwords (map cstr (tl argv))) \<le> n | Work k \<Rightarrow> True)"

lemma th_safe_th_ctrl_start:
  fixes s :: "('w, 'z) th_scheme"
  assumes "th_safe s" "memory T" "1 < length argv" "length (unwords (map cstr (tl argv))) \<le> n"
  shows "th_safe (exec_state (th_ctrl_start T n argv bg pl) s)"
proof -
  let ?s = "exec_state (mosh_print T ''Starting ...'' []) s"
  have s: "th_safe ?s" "data_of k ?s = data_of k s" for k using assms(1) th_safe_hp [of ?s s] by simp_all
  have err: "th_safe (exec_state (mosh_error T f a) u) = th_safe u" for f a and u :: "('w, 'z) th_scheme"
    by (rule th_safe_hp) simp
  note st = th_safe_start [OF s(1) assms(2) _ _ assms(3,4), of 1 bg pl] th_safe_start [OF s(1) assms(2) _ _ assms(3,4), of 2 bg pl]
  show ?thesis
    using st s assms(1) by (cases pl) (simp_all add: th_ctrl_start_def exec_simps err data_of_def)
qed

lemma th_safe_cmd:
  assumes "th_safe s" "memory T" "length (unwords (map cstr (tl argv))) \<le> n"
  shows "th_safe (exec_state (run_th_cmd T n c argv) s)"
proof -
  have err: "th_safe (exec_state (mosh_error T f a) s)" for f a
    using assms(1) th_safe_hp [of "exec_state (mosh_error T f a) s" s] by simp
  note start = th_safe_th_ctrl_start [OF assms(1,2) _ assms(3)]
  show ?thesis
  proof (cases c)
    case Startbg
    then show ?thesis using err start by (simp add: run_th_cmd_def cmd_th_startbg_def missing_command_def exec_simps)
  next
    case Startfg
    then show ?thesis using err start by (simp add: run_th_cmd_def cmd_th_startfg_def missing_command_def exec_simps)
  next
    case Pipeline
    then show ?thesis using err start by (simp add: run_th_cmd_def cmd_th_start_pipeline_def missing_command_def exec_simps)
  next
    case Results
    then show ?thesis
      using err assms(1) th_safe_results [OF assms(1), of 1 T] th_safe_results [OF assms(1), of 2 T]
      by (simp add: run_th_cmd_def cmd_th_get_results_def th_ctrl_result_print_def exec_simps Let_def)
  next
    case Kill
    have "th_safe (exec_state (th_ctrl_kill T i) s)" for i
      unfolding th_ctrl_kill_def raise_kill_def by (intro th_safe_keeps [OF _ assms(1)] keeps_intros) simp_all
    then show ?thesis
      using Kill err assms(1)
      by (simp add: run_th_cmd_def cmd_th_ctrl_kill_def exec_simps Let_def)
  next
    case Status
    then show ?thesis
      using assms(1) by (simp add: run_th_cmd_def cmd_th_status_def th_ctrl_status_print_def exec_simps th_safe_status [OF _ assms(2)])
  qed
qed

lemma th_safe_step: "th_safe s \<Longrightarrow> memory T \<Longrightarrow> event_ok e \<Longrightarrow> th_safe (th_step fuel T s e)"
  by (cases e) (simp_all add: th_step_def event_ok_def th_safe_cmd th_safe_handler)

lemma th_safe_run: "th_safe s \<Longrightarrow> memory T \<Longrightarrow> list_all event_ok es \<Longrightarrow> th_safe (foldl (th_step fuel T) s es)"
  by (induction es arbitrary: s) (simp_all add: th_safe_step)

lemma th_safe_boot: "th_safe (th_start s)"
  by (simp add: th_start_def th_ctrl_init_def exec_simps th_safe_def numbered_def th_inv_def holds_def heap_ok_def thread_ok_def
      args_fit_def owned_def args_of_def data_of_def upd_data_def no_data_def other_def)

lemmas th_reachable = th_safe_run [OF th_safe_boot]

subsection \<open>An instance\<close>

definition test_th :: "ping_world th_api" where
  "test_th = ping_api.extend test_ping (th_api.fields (\<lambda>w. (True, w)) (\<lambda>argv out w. ((0, ''done'' @ [NUL]), w))
     (\<lambda>c w. w) (\<lambda>k w. w) (\<lambda>k. k) ''usage'')"

definition th_boot :: "ping_world th" where
  "th_boot = th_start (ping.extend ping_boot (th.fields no_data no_data (\<lambda>_. None) 1 False))"

text \<open>The same board without memory.\<close>

definition no_memory_th :: "ping_world th_api" where
  "no_memory_th = test_th\<lparr>malloc_ok := \<lambda>w. (False, w)\<rparr>"

lemma memory_test_th: "memory test_th"
  by (simp add: memory_def test_th_def ping_api.defs th_api.defs)

definition iperf_line :: "string list" where
  "iperf_line = [''startbg'', ''iperf3'', ''-c'', ''192.0.2.1'']"

definition th_script :: "th_event list" where
  "th_script = [Command Startbg 21 iperf_line, Work 1, Command Status 9 [''status''], Command Results 12 [''results'', ''1'']]"

lemma th_script_ok: "list_all event_ok th_script"
  by (simp add: th_script_def event_ok_def iperf_line_def cstr_def NUL_def)

subsection \<open>Properties\<close>

text \<open>
  C17: While there is memory the worker threads never misuse the heap: after any sequence of commands
  and of work items that ran, no block was freed twice or used after it was freed and no null pointer
  was followed; what the two threads point to is live, and no block belongs to both; and a thread that
  is to run has its arguments, and an output buffer exactly when it runs in the background, so that
  the assertions of the work handler hold.
\<close>

theorem th_memory_safe:
  assumes "memory T" and "list_all event_ok es" and "t = foldl (th_step fuel T) (th_start s) es"
  shows "\<not> heap_fault t \<and>
    distinct (owned (heap t) (th_work_data_1 t) @ owned (heap t) (th_work_data_2 t)) \<and>
    list_all (\<lambda>p. heap t p \<noteq> None) (owned (heap t) (th_work_data_1 t) @ owned (heap t) (th_work_data_2 t)) \<and>
    list_all (\<lambda>d. pending d \<longrightarrow> th_argv d \<noteq> None \<and> background d = (results_str d \<noteq> None)) [th_work_data_1 t, th_work_data_2 t]"
proof -
  have "th_safe t" unfolding assms(3) by (rule th_reachable [OF assms(1,2)])
  then have ok: "\<not> heap_fault t" "heap_ok (heap t) (next_block t) (th_work_data_1 t) (th_work_data_2 t)"
    by (simp_all add: th_safe_def th_inv_def holds_def data_of_def other_def)
  then have th: "thread_ok (heap t) (th_work_data_1 t)" "thread_ok (heap t) (th_work_data_2 t)"
      "set (owned (heap t) (th_work_data_1 t)) \<inter> set (owned (heap t) (th_work_data_2 t)) = {}"
    by (simp_all add: heap_ok_def)
  then show ?thesis
    using ok(1) th owned_live [OF th(1)] owned_live [OF th(2)]
    by (simp add: list_all_iff) (auto simp: thread_ok_def)
qed

theorem th_memory_safe_witness:
  "\<not> heap_fault (foldl (th_step 3 test_th) (th_start th_boot) th_script)"
  using th_memory_safe [OF memory_test_th th_script_ok refl, of 3 th_boot] by blast

text \<open>
  A start takes the first thread that is not running, with the arguments of the command and none
  of the other thread's; when both run it is refused and nothing changes.
\<close>

theorem th_start_policy:
  assumes "memory T" and "list_all event_ok es" and "t = foldl (th_step fuel T) (th_start s) es"
    and "1 < length argv" and "pipeline \<or> argv ! 1 = ''iperf3'' \<or> argv ! 1 = ''ping''"
    and "u = exec_state (th_ctrl_start T n argv bg pipeline) t"
  shows "(if \<not> pending (th_work_data_1 t) then started n argv bg pipeline 1 u \<and> th_work_data_2 u = th_work_data_2 t
    else if \<not> pending (th_work_data_2 t) then started n argv bg pipeline 2 u \<and> th_work_data_1 u = th_work_data_1 t
    else hp u = hp t)"
proof -
  let ?t = "exec_state (mosh_print T ''Starting ...'' []) t"
  have "th_safe t" unfolding assms(3) by (rule th_reachable [OF assms(1,2)])
  then have "th_safe ?t" using th_safe_hp [of ?t t] by simp
  then have h: "holds k (data_of k ?t) ?t" "k = 1 \<or> k = 2 \<Longrightarrow> th_nbr (data_of k ?t) = 1 \<or> th_nbr (data_of k ?t) = 2" for k
    using th_inv_holds [of ?t k] th_safe_iff [of k ?t] by (auto simp: th_safe_def)
  have d: "th_work_data_1 ?t = th_work_data_1 t" "th_work_data_2 ?t = th_work_data_2 t"
    using hp_print(1) [THEN hp_eq [THEN iffD1]] by blast+
  note st = exec_start [OF h(1) _ assms(1,4) h(2), of 1 n bg pipeline] exec_start [OF h(1) _ assms(1,4) h(2), of 2 n bg pipeline]
  show ?thesis
    using st(2,3,6,7) d assms(5) unfolding assms(6)
    by (auto simp: th_ctrl_start_def exec_simps data_of_def other_def)
qed

theorem th_start_policy_witness:
  "started 21 iperf_line True False 1 (exec_state (th_ctrl_start test_th 21 iperf_line True False) (th_start th_boot))"
proof -
  have "th_start th_boot = foldl (th_step 3 test_th) (th_start th_boot) []" by simp
  note p = th_start_policy [OF memory_test_th _ this, of iperf_line False _ 21 True, OF _ _ _ refl]
  have "\<not> pending (th_work_data_1 (th_start th_boot))"
    by (simp add: th_start_def th_ctrl_init_def exec_simps upd_data_def no_data_def)
  then show ?thesis using p by (simp add: iperf_line_def)
qed

text \<open>
  Asking for the results of a thread that has ended frees its output, when it printed it, the array
  of its arguments and the arguments, but not the first one, the name of the command: that block
  stays allocated and nothing points to it any more. No other block is touched.
\<close>

theorem th_results_leak:
  assumes "memory T" and "list_all event_ok es" and "t = foldl (th_step fuel T) (th_start s) es"
    and "\<not> pending (data_of k t)" and "th_argv (data_of k t) = Some a"
    and "u = exec_state (th_ctrl_data_result_print T k) t" and "ps = ptrs_at (heap t) a"
    and "out = (if results_text (heap t) (data_of k t) = [] then {} else set_option (results_str (data_of k t)))"
  shows "heap u = heap t |` (- (insert a (set (tl ps)) \<union> out)) \<and> heap u (hd ps) \<noteq> None \<and>
    hd ps \<notin> set (owned (heap u) (data_of k u) @ owned (heap u) (data_of (other k) u))"
proof -
  let ?d = "data_of k t" and ?F = "insert a (set (tl ps)) \<union> out"
  have "th_safe t" unfolding assms(3) by (rule th_reachable [OF assms(1,2)])
  then have h: "holds k ?d t" using th_inv_holds [of t k] by (simp add: th_safe_def)
  note ok = holds_thread [OF h]
  note e = exec_results [OF h assms(4), where T = T, folded assms(6)]
  have heap: "heap u = heap t |` (- ?F)"
    using e(4) assms(5) by (cases "results_str ?d") (simp_all add: assms(7,8) results_text_def)
  have own: "owned (heap t) ?d = a # ps @ (case results_str ?d of None \<Rightarrow> [] | Some r \<Rightarrow> [r])"
    by (simp add: owned_def args_of_def assms(5,7))
  have "ps \<noteq> []" using ok assms(5,7) by (auto simp: thread_ok_def args_of_def)
  then have hd: "hd ps \<in> set ps" "hd ps \<notin> set (tl ps)" "hd ps \<noteq> a" "hd ps \<notin> set_option (results_str ?d)"
    using ok own by (cases ps; auto simp: thread_ok_def)+
  then have "hd ps \<notin> ?F" by (simp add: assms(8))
  moreover have "heap t (hd ps) \<noteq> None" using owned_live [OF ok] hd(1) own by simp
  ultimately have live: "heap u (hd ps) \<noteq> None" by (simp add: heap)
  have mine: "hd ps \<notin> set (owned (heap u) (data_of k u))"
    using hd(4) unfolding e(1) by (simp add: owned_def args_of_def split: option.split)
  have o: "thread_ok (heap t) (data_of (other k) t)" "set (owned (heap t) ?d) \<inter> set (owned (heap t) (data_of (other k) t)) = {}"
    using h by (simp_all add: holds_def heap_ok_def)
  have "?F \<subseteq> set (owned (heap t) ?d)" using own by (auto simp: assms(8) dest: in_set_tl)
  then have "heap u p = heap t p" if "p \<in> set (owned (heap t) (data_of (other k) t))" for p
    using o(2) that by (auto simp: heap restrict_map_def)
  then have "owned (heap u) (data_of (other k) t) = owned (heap t) (data_of (other k) t)"
    by (rule thread_ok_frame(1) [OF o(1)])
  then have "hd ps \<notin> set (owned (heap u) (data_of (other k) u))"
    using o(2) hd(1) own by (auto simp: e(2))
  then show ?thesis using heap live mine by simp
qed

definition th_run :: "ping_world th" where
  "th_run = foldl (th_step 3 test_th) (th_start th_boot) [Command Startbg 21 iperf_line, Work 1]"

lemma data_boot: "data_of 1 (th_start s) = \<lparr>results_str = None, th_argv = None, th_argc = 0, cmd_len = 0, th_nbr = 1,
    background = False, is_pipeline = False, pending = False\<rparr>"
  by (simp add: th_start_def th_ctrl_init_def exec_simps upd_data_def data_of_def no_data_def)

lemma th_run_ended: "\<not> pending (data_of 1 th_run)" "th_argv (data_of 1 th_run) \<noteq> None"
proof -
  let ?b = "exec_state (mosh_print test_th ''Starting ...'' []) (th_start th_boot)"
  let ?s = "th_step 3 test_th (th_start th_boot) (Command Startbg 21 iperf_line)"
  have "th_safe (foldl (th_step 3 test_th) (th_start th_boot) [Command Startbg 21 iperf_line])"
    using th_script_ok by (intro th_reachable memory_test_th) (simp add: th_script_def)
  then have safe: "th_safe ?s" by simp
  have b: "holds 1 (data_of 1 ?b) ?b" "\<not> pending (data_of 1 ?b)" "th_nbr (data_of 1 ?b) = 1 \<or> th_nbr (data_of 1 ?b) = 2"
    using th_safe_boot [of th_boot] th_inv_holds [of "th_start th_boot" 1]
    by (simp_all add: th_safe_def data_boot [unfolded One_nat_def])
  have "?s = exec_state (th_ctrl_data_start test_th 21 1 iperf_line True False) ?b"
    using b(2) by (simp add: th_step_def run_th_cmd_def cmd_th_startbg_def th_ctrl_start_def iperf_line_def exec_simps data_of_def)
  then have s: "started 21 iperf_line True False 1 ?s"
    using exec_start(3) [OF b(1,2) memory_test_th _ b(3), of iperf_line 21 True False] by (simp add: iperf_line_def)
  then have d: "pending (data_of 1 ?s)" "\<not> is_pipeline (data_of 1 ?s)" "arg_strings (heap ?s) (data_of 1 ?s) = map cstr (tl iperf_line)"
    by (simp_all add: started_def Let_def)
  have "th_run = exec_state (th_ctrl_work_handler 3 test_th 1) ?s"
    using d(1) by (simp add: th_run_def th_step_def [of _ _ ?s])
  then have run: "data_of 1 th_run = (data_of 1 ?s)\<lparr>pending := False\<rparr>"
    using th_safe_handler(2) [OF safe d(1,2), where fuel = 3 and T = test_th] d(3) by (simp add: iperf_line_def cstr_def NUL_def)
  show "\<not> pending (data_of 1 th_run)" "th_argv (data_of 1 th_run) \<noteq> None"
    using d(3) unfolding run by (auto simp: arg_strings_def iperf_line_def split: option.splits)
qed

theorem th_results_leak_witness:
  "let u = exec_state (th_ctrl_data_result_print test_th 1) th_run
   in hd (ptrs_at (heap th_run) (the (th_argv (data_of 1 th_run)))) \<notin> set (owned (heap u) (data_of 1 u))"
proof -
  obtain a where a: "th_argv (data_of 1 th_run) = Some a" using th_run_ended(2) by blast
  have "list_all event_ok [Command Startbg 21 iperf_line, Work 1]"
    using th_script_ok by (simp add: th_script_def)
  from th_results_leak [OF memory_test_th this th_run_def th_run_ended(1) a refl refl refl, THEN conjunct2, THEN conjunct2]
  show ?thesis unfolding set_append Let_def a option.sel by blast
qed



end
