(* ===== verification/Mosh_Sock.thy ===== *)
theory Mosh_Sock
  imports Mosh_Th
begin

section \<open>Sockets (\<open>sock.c\<close>)\<close>

text \<open>
  The socket tool: a table of sockets, opened and closed by commands, read by a thread that polls
  them, written by commands, by the poll thread and by a periodic work item. The send buffers and
  the receive buffer are blocks of the heap of Mosh_Th. What is behind the socket API is a
  parameter: sockets, options, names, the clock; so are the numbers of the constants of the API
  (\<open>num\<close>) and the floating point of the throughput summary.
\<close>

subsection \<open>State\<close>

record addrinfo =
  ai_family :: int
  ai_text :: string
  ai_port :: int

record data_transfer_info =
  work_busy :: bool
  interval :: int
  packet_number_prefix :: int
  data_format_hex :: bool

record sock_info =
  sock_id :: int
  sock_fd :: int
  family :: int
  sock_type :: int
  port :: int
  bind_port :: int
  pdn_cid :: int
  send_flags :: int
  in_use :: bool
  secure :: bool
  send_buffer :: "nat option"
  send_buffer_size :: nat
  send_poll :: bool
  send_bytes_sent :: "32 word"
  send_bytes_left :: int
  send_print_interval :: int
  log_receive_data :: bool
  start_time_ms :: int
  recv_end_time_ms :: int
  recv_data_len :: "32 word"
  recv_data_len_expected :: "32 word"
  recv_start_throughput :: bool
  recv_print_format :: int
  addrs :: "addrinfo list"
  send_info :: data_transfer_info

text \<open>
  \<open>addrs\<close> is the list \<open>addrinfo\<close>, empty for the null pointer. \<open>sock_sem\<close> is the count of the
  semaphore, \<open>recv_blocked\<close> whether the poll thread waits for it.
\<close>

record 'w sock = "'w th" +
  sockets :: "sock_info list"
  sock_receive_buffer :: "nat option"
  sock_sem :: nat
  recv_blocked :: bool

type_synonym ('w, 'z, 'a) sock_prog = "(('w, 'z) sock_scheme, 'a) prog"

datatype opt_value = OInt int | OInts "int list" | OStr string | OTime int int | ONone | OPointer nat

record revents =
  POLLIN :: bool
  POLLOUT :: bool
  POLLERR :: bool
  POLLHUP :: bool
  POLLNVAL :: bool

text \<open>
  \<open>sock_poll\<close> gets the descriptors and whether each is polled for output. \<open>OPointer n\<close> is the value
  of an option whose \<open>n\<close> bytes are read from a pointer variable and what follows it on the stack.
\<close>

record 'w sock_api = "'w th_api" +
  max_sockets :: nat
  num :: "string \<Rightarrow> int"
  getaddrinfo_list :: "string \<Rightarrow> string option \<Rightarrow> int \<Rightarrow> int \<Rightarrow> 'w \<Rightarrow> (int \<times> addrinfo list) \<times> 'w"
  freeaddrinfo_list :: "addrinfo list \<Rightarrow> 'w \<Rightarrow> 'w"
  lte_lc_pdn_id_get :: "int \<Rightarrow> 'w \<Rightarrow> int"
  socket :: "int \<Rightarrow> int \<Rightarrow> int \<Rightarrow> 'w \<Rightarrow> int \<times> 'w"
  bind_any :: "int \<Rightarrow> int \<Rightarrow> int \<Rightarrow> 'w \<Rightarrow> int \<times> 'w"
  connect :: "int \<Rightarrow> addrinfo \<Rightarrow> 'w \<Rightarrow> int \<times> 'w"
  set_opt :: "int \<Rightarrow> int \<Rightarrow> int \<Rightarrow> opt_value \<Rightarrow> 'w \<Rightarrow> int \<times> 'w"
  get_opt :: "int \<Rightarrow> int \<Rightarrow> int \<Rightarrow> 'w \<Rightarrow> (int \<times> opt_value) \<times> 'w"
  fcntl_getfl :: "int \<Rightarrow> 'w \<Rightarrow> 32 word"
  fcntl_setfl :: "int \<Rightarrow> 32 word \<Rightarrow> 'w \<Rightarrow> 'w"
  O_NONBLOCK :: "32 word"
  sock_tx :: "int \<Rightarrow> string \<Rightarrow> int \<Rightarrow> 'w \<Rightarrow> int \<times> 'w"
  sock_rx :: "int \<Rightarrow> nat \<Rightarrow> 'w \<Rightarrow> (int \<times> string) \<times> 'w"
  sock_poll :: "(int \<times> bool) list \<Rightarrow> 'w \<Rightarrow> (int \<times> revents list) \<times> 'w"
  seconds :: "int \<Rightarrow> string"
  throughput :: "32 word \<Rightarrow> int \<Rightarrow> string"

definition SOCK_SEND_BUFFER_SIZE_UDP :: nat where "SOCK_SEND_BUFFER_SIZE_UDP = 1200"
definition SOCK_SEND_BUFFER_SIZE_TCP :: nat where "SOCK_SEND_BUFFER_SIZE_TCP = 3540"
definition SOCK_RECEIVE_BUFFER_SIZE :: nat where "SOCK_RECEIVE_BUFFER_SIZE = 1536"
definition SOCK_OPT_VALUE_LIST_SIZE :: nat where "SOCK_OPT_VALUE_LIST_SIZE = 20"
definition SOCK_FD_NONE :: int where "SOCK_FD_NONE = -1"
definition SOCK_ID_NONE :: int where "SOCK_ID_NONE = -1"
definition SOCK_BUFFER_SIZE_NONE :: int where "SOCK_BUFFER_SIZE_NONE = -1"
definition SOCK_SEND_DATA_INTERVAL_NONE :: int where "SOCK_SEND_DATA_INTERVAL_NONE = -1"
definition SOCK_MAX_SEND_DATA_LEN :: nat where "SOCK_MAX_SEND_DATA_LEN = 200"
definition SOCK_DATA_LEN_NONE :: "32 word" where "SOCK_DATA_LEN_NONE = -1"
definition SOCK_RECV_PRINT_FORMAT_NONE :: int where "SOCK_RECV_PRINT_FORMAT_NONE = 0"
definition SOCK_RECV_PRINT_FORMAT_STR :: int where "SOCK_RECV_PRINT_FORMAT_STR = 1"
definition SOCK_RECV_PRINT_FORMAT_HEX :: int where "SOCK_RECV_PRINT_FORMAT_HEX = 2"

definition zero_info :: sock_info where
  "zero_info = \<lparr>sock_id = 0, sock_fd = 0, family = 0, sock_type = 0, port = 0, bind_port = 0, pdn_cid = 0, send_flags = 0,
     in_use = False, secure = False, send_buffer = None, send_buffer_size = 0, send_poll = False, send_bytes_sent = 0,
     send_bytes_left = 0, send_print_interval = 0, log_receive_data = False, start_time_ms = 0, recv_end_time_ms = 0,
     recv_data_len = 0, recv_data_len_expected = 0, recv_start_throughput = False, recv_print_format = 0, addrs = [],
     send_info = \<lparr>work_busy = False, interval = 0, packet_number_prefix = 0, data_format_hex = False\<rparr>\<rparr>"

definition info :: "nat \<Rightarrow> ('w, 'z) sock_scheme \<Rightarrow> sock_info" where
  "info i s = sockets s ! i"

definition upd_info :: "nat \<Rightarrow> (sock_info \<Rightarrow> sock_info) \<Rightarrow> ('w, 'z, unit) sock_prog" where
  "upd_info i f = modify (\<lambda>s. s\<lparr>sockets := (sockets s)[i := f (sockets s ! i)]\<rparr>)"

subsection \<open>Slots\<close>

definition cancel_work :: "nat \<Rightarrow> ('w, 'z, unit) sock_prog" where
  "cancel_work i = upd_info i (\<lambda>d. d\<lparr>send_info := (send_info d)\<lparr>work_busy := False\<rparr>\<rparr>)"

definition cleared_info :: sock_info where
  "cleared_info = zero_info\<lparr>sock_id := SOCK_ID_NONE, sock_fd := SOCK_FD_NONE, log_receive_data := True,
     recv_data_len_expected := SOCK_DATA_LEN_NONE, recv_print_format := SOCK_RECV_PRINT_FORMAT_STR\<rparr>"

definition sock_info_clear :: "('w, 'y) sock_api_scheme \<Rightarrow> nat \<Rightarrow> ('w, 'z, unit) sock_prog" where
  "sock_info_clear T i = do {
     d \<leftarrow> gets (info i);
     doif (work_busy (send_info d)) (do {
       cancel_work i;
       mosh_print T ''Socket data send periodic stop'' []
     });
     free (send_buffer d);
     doif (in_use d) (act (close_fd T (sock_fd d)));
     act (freeaddrinfo_list T (addrs d));
     upd_info i (\<lambda>d. cleared_info)
   }"

text \<open>The first index with the property, up to the number of sockets.\<close>

definition first_slot :: "(sock_info \<Rightarrow> bool) \<Rightarrow> sock_info list \<Rightarrow> nat option" where
  "first_slot P ss = (let n = length (takeWhile (\<lambda>d. \<not> P d) ss) in if n < length ss then Some n else None)"

definition get_socket_id_by_fd :: "int \<Rightarrow> ('w, 'z, nat option) sock_prog" where
  "get_socket_id_by_fd fd = do {
     ss \<leftarrow> gets sockets;
     case first_slot (\<lambda>d. sock_fd d = fd) ss of
       None \<Rightarrow> return None
     | Some i \<Rightarrow> if sock_id (ss ! i) = int i then return (Some i) else abort None
   }"

definition get_socket_info_by_id :: "('w, 'y) sock_api_scheme \<Rightarrow> int \<Rightarrow> ('w, 'z, nat option) sock_prog" where
  "get_socket_info_by_id T socket_id =
     (if socket_id = SOCK_ID_NONE then do {
        mosh_error T ''Socket id not given. -i option is mandatory'' [];
        return None
      } else if socket_id < 0 \<or> socket_id \<ge> int (max_sockets T) then do {
        mosh_error T ''Socket id=%d must a positive number smaller than %d'' [PInt socket_id, PInt (int (max_sockets T))];
        return None
      } else do {
        d \<leftarrow> gets (info (nat socket_id));
        if \<not> in_use d then do {
          mosh_error T ''Socket id=%d not available'' [PInt socket_id];
          return None
        } else return (Some (nat socket_id))
      })"

definition reserve_socket_id :: "('w, 'y) sock_api_scheme \<Rightarrow> ('w, 'z, nat option) sock_prog" where
  "reserve_socket_id T = do {
     ss \<leftarrow> gets sockets;
     case first_slot (\<lambda>d. \<not> in_use d) ss of
       None \<Rightarrow> return None
     | Some i \<Rightarrow> do {
         sock_info_clear T i;
         upd_info i (\<lambda>d. d\<lparr>sock_id := int i\<rparr>);
         return (Some i)
       }
   }"

definition sock_get_blocking_mode :: "('w, 'y) sock_api_scheme \<Rightarrow> int \<Rightarrow> ('w, 'z, bool) sock_prog" where
  "sock_get_blocking_mode T fd = do {
     flags \<leftarrow> ask (fcntl_getfl T fd);
     return (if flags OR O_NONBLOCK T \<noteq> 0 then False else True)
   }"

definition set_sock_blocking_mode :: "('w, 'y) sock_api_scheme \<Rightarrow> int \<Rightarrow> bool \<Rightarrow> ('w, 'z, unit) sock_prog" where
  "set_sock_blocking_mode T fd blocking = do {
     flags \<leftarrow> ask (fcntl_getfl T fd);
     if \<not> blocking then act (fcntl_setfl T fd (flags OR O_NONBLOCK T))
     else act (fcntl_setfl T fd (flags AND NOT (O_NONBLOCK T)))
   }"

fun set_nonblocking :: "('w, 'y) sock_api_scheme \<Rightarrow> sock_info list \<Rightarrow> ('w, 'z, unit) sock_prog" where
  "set_nonblocking T [] = return ()"
| "set_nonblocking T (d # ds) = do {
     doif (in_use d) (set_sock_blocking_mode T (sock_fd d) False);
     set_nonblocking T ds
   }"

definition sock_all_set_nonblocking :: "('w, 'y) sock_api_scheme \<Rightarrow> ('w, 'z, unit) sock_prog" where
  "sock_all_set_nonblocking T = do { ss \<leftarrow> gets sockets; set_nonblocking T ss }"

subsection \<open>Send buffers\<close>

definition sock_send_buffer_calloc :: "('w, 'y) sock_api_scheme \<Rightarrow> nat \<Rightarrow> nat \<Rightarrow> ('w, 'z, bool) sock_prog" where
  "sock_send_buffer_calloc T i size' = do {
     d \<leftarrow> gets (info i);
     (case send_buffer d of None \<Rightarrow> return ()
      | Some a \<Rightarrow>
          if send_buffer_size d = size' then
            modify (\<lambda>s. s\<lparr>heap := (heap s)(a \<mapsto> Chars (replicate (send_buffer_size d) NUL @ drop (send_buffer_size d) (chars_at (heap s) a)))\<rparr>)
          else free (Some a));
     upd_info i (\<lambda>d. d\<lparr>send_buffer_size := size'\<rparr>);
     p \<leftarrow> malloc T (Chars (replicate (size' + 1) NUL));
     upd_info i (\<lambda>d. d\<lparr>send_buffer := p\<rparr>);
     doif (p = None) (mosh_error T ''Out of memory while reserving send buffer of size %d bytes'' [PInt (int size')]);
     return (p \<noteq> None)
   }"

definition sock_send_buffer_free :: "nat \<Rightarrow> ('w, 'z, unit) sock_prog" where
  "sock_send_buffer_free i = do {
     d \<leftarrow> gets (info i);
     doif (send_buffer d \<noteq> None) (do {
       free (send_buffer d);
       upd_info i (\<lambda>d. d\<lparr>send_buffer := None, send_buffer_size := 0\<rparr>)
     })
   }"

text \<open>\<open>memset\<close> and \<open>memcpy\<close> to the send buffer of a socket: past its end, or through a null pointer, a fault.\<close>

definition write_send_buffer :: "nat \<Rightarrow> string \<Rightarrow> ('w, 'z, unit) sock_prog" where
  "write_send_buffer i bs = do {
     d \<leftarrow> gets (info i);
     h \<leftarrow> gets heap;
     case send_buffer d of
       None \<Rightarrow> doif (bs \<noteq> []) fault
     | Some a \<Rightarrow>
         if h a = None \<or> length bs > length (chars_at h a) then fault
         else modify (\<lambda>s. s\<lparr>heap := (heap s)(a \<mapsto> Chars (blit (chars_at (heap s) a) 0 bs))\<rparr>)
   }"

subsection \<open>Opening\<close>

definition sock_validate_parameters :: "('w, 'y) sock_api_scheme \<Rightarrow> int \<Rightarrow> int \<Rightarrow> int \<Rightarrow> int \<Rightarrow> bool \<Rightarrow> 32 word \<Rightarrow> ('w, 'z, int) sock_prog" where
  "sock_validate_parameters T fam typ prt bprt sec sec_tag =
     (if fam \<noteq> num T ''AF_INET'' \<and> fam \<noteq> num T ''AF_INET6'' \<and> fam \<noteq> num T ''AF_PACKET'' then do {
        mosh_error T ''Unsupported address family=%d'' [PInt fam];
        return (- EINVAL)
      } else if typ \<noteq> num T ''SOCK_STREAM'' \<and> typ \<noteq> num T ''SOCK_DGRAM'' \<and> typ \<noteq> num T ''SOCK_RAW'' then do {
        mosh_error T ''Unsupported address type=%d'' [PInt typ];
        return (- EINVAL)
      } else if sec \<and> typ = num T ''SOCK_RAW'' then do {
        mosh_error T ''Security not supported with address type=%d'' [PInt typ];
        return (- EINVAL)
      } else if sec \<and> uint sec_tag < 0 then do {
        mosh_error T ''Security tag must be given when security is enabled'' [];
        return (- EINVAL)
      } else if typ \<noteq> num T ''SOCK_RAW'' \<and> (prt < 1 \<or> prt > 65535) then do {
        mosh_error T ''Port (%d) must be bigger than 0 and smaller than 65536'' [PInt prt];
        return (- EINVAL)
      } else if bprt > 65535 then do {
        mosh_error T ''Bind port (%d) must be smaller than 65536'' [PInt bprt];
        return (- EINVAL)
      } else return 0)"

definition sock_protocol_resolve :: "('w, 'y) sock_api_scheme \<Rightarrow> int \<Rightarrow> bool \<Rightarrow> int" where
  "sock_protocol_resolve T typ sec =
     (if sec \<and> typ = num T ''SOCK_STREAM'' then num T ''IPPROTO_TLS_1_2''
      else if sec \<and> typ = num T ''SOCK_DGRAM'' then num T ''IPPROTO_DTLS_1_2''
      else if typ = num T ''SOCK_STREAM'' then num T ''IPPROTO_TCP''
      else if typ = num T ''SOCK_DGRAM'' then num T ''IPPROTO_UDP''
      else 0)"

text \<open>The result, and the list it found. The PDN service is a text of at most 11 characters.\<close>

definition sock_getaddrinfo_req :: "('w, 'y) sock_api_scheme \<Rightarrow> int \<Rightarrow> int \<Rightarrow> string \<Rightarrow> int \<Rightarrow> ('w, 'z, int \<times> addrinfo list) sock_prog" where
  "sock_getaddrinfo_req T fam typ address cid =
     (if address = [] then
        (if typ \<noteq> num T ''SOCK_RAW'' then do {
           mosh_error T ''Address not given'' [];
           return (- EINVAL, [])
         } else return (0, []))
      else do {
        pdn \<leftarrow> ask (lte_lc_pdn_id_get T cid);
        (err, ai) \<leftarrow> call (getaddrinfo_list T address (if cid > 0 then Some (take 11 (show_int pdn)) else None) fam typ);
        if err \<noteq> 0 then do {
          e \<leftarrow> ask (errno T);
          (if err = num T ''DNS_EAI_SYSTEM''
           then mosh_error T ''getaddrinfo() failed, err %d, errno %d'' [PInt err, PInt e]
           else mosh_error T ''getaddrinfo() failed, err %d'' [PInt err]);
          return (- num T ''EADDRNOTAVAIL'', [])
        } else return (0, ai)
      })"

definition option_step :: "('w, 'y) sock_api_scheme \<Rightarrow> int \<Rightarrow> int \<Rightarrow> opt_value \<Rightarrow> string \<Rightarrow> ('w, 'z, int option) sock_prog" where
  "option_step T fd opt v msg = do {
     err \<leftarrow> call (set_opt T fd (num T ''SOL_TLS'') opt v);
     if err \<noteq> 0 then do {
       e \<leftarrow> ask (errno T);
       mosh_error T msg [PInt e];
       return (Some e)
     } else return None
   }"

text \<open>The next step of a chain, unless the one before ended it with a value.\<close>

definition andthen :: "('s, 'a option) prog \<Rightarrow> ('s, 'a option) prog \<Rightarrow> ('s, 'a option) prog" where
  "andthen p q = do { r \<leftarrow> p; case r of None \<Rightarrow> q | Some x \<Rightarrow> return (Some x) }"

definition peer_verify_value :: "('w, 'y) sock_api_scheme \<Rightarrow> int \<Rightarrow> int" where
  "peer_verify_value T peer_verify =
     (if peer_verify = 0 then num T ''TLS_PEER_VERIFY_NONE''
      else if peer_verify = 1 then num T ''TLS_PEER_VERIFY_OPTIONAL''
      else num T ''TLS_PEER_VERIFY_REQUIRED'')"

text \<open>The option \<open>TLS_HOSTNAME\<close> is given the address of the pointer to the name.\<close>

definition sock_set_tls_options :: "('w, 'y) sock_api_scheme \<Rightarrow> int \<Rightarrow> 32 word \<Rightarrow> bool \<Rightarrow> int \<Rightarrow> string \<Rightarrow> int \<Rightarrow> int \<Rightarrow> ('w, 'z, int) sock_prog" where
  "sock_set_tls_options T fd sec_tag session_cache peer_verify peer_hostname dtls_cid dtls_frag_ext = do {
     tag \<leftarrow> option_step T fd (num T ''TLS_SEC_TAG_LIST'') (OInts [uint sec_tag]) ''Unable to set security tag, errno %d'';
     if tag \<noteq> None then return (- EINVAL)
     else do {
       res \<leftarrow>
         andthen (option_step T fd (num T ''TLS_SESSION_CACHE'')
           (OInt (if session_cache then num T ''TLS_SESSION_CACHE_ENABLED'' else num T ''TLS_SESSION_CACHE_DISABLED''))
           ''Unable to set session cache, errno %d'')
         (andthen (option_step T fd (num T ''TLS_PEER_VERIFY'') (OInt (peer_verify_value T peer_verify))
           ''Unable to set peer verify, errno %d'')
         (andthen (if peer_hostname \<noteq> [] then option_step T fd (num T ''TLS_HOSTNAME'') (OPointer (length peer_hostname))
             ''Unable to set peer hostname, errno %d'' else return None)
         (andthen (if dtls_cid \<noteq> num T ''TLS_DTLS_CID_STATUS_DISABLED'' then option_step T fd (num T ''TLS_DTLS_CID'') (OInt dtls_cid)
             ''Unable to set DTLS CID option, errno %d'' else return None)
         (if dtls_frag_ext \<noteq> num T ''DTLS_FRAG_EXT_DISABLED'' then option_step T fd (num T ''TLS_DTLS_FRAG_EXT'') (OInt dtls_frag_ext)
             ''Unable to set DTLS fragmentation extension option, errno %d'' else return None))));
       return (case res of None \<Rightarrow> 0 | Some e \<Rightarrow> e)
     }
   }"

definition sock_bind :: "('w, 'y) sock_api_scheme \<Rightarrow> int \<Rightarrow> int \<Rightarrow> int \<Rightarrow> ('w, 'z, int) sock_prog" where
  "sock_bind T fd fam bprt = do {
     err \<leftarrow> call (bind_any T fd fam bprt);
     if err \<noteq> 0 then do {
       e \<leftarrow> ask (errno T);
       mosh_error T ''Unable to bind, errno %d'' [PInt e];
       return e
     } else return 0
   }"

text \<open>The last context of the list with the CID.\<close>

definition pdn_id_of :: "int \<Rightarrow> pdp_context_info list \<Rightarrow> int option" where
  "pdn_id_of cid tbl = foldl (\<lambda>r c. if uint (pdp_cid c) = cid then Some (sint (pdp_pdn_id c)) else r) None tbl"

definition sock_bind_to_pdp_context :: "('w, 'y) sock_api_scheme \<Rightarrow> nat \<Rightarrow> int \<Rightarrow> ('w, 'z, int) sock_prog" where
  "sock_bind_to_pdp_context T i cid = do {
     (err, tbl) \<leftarrow> call (link_api_pdp_contexts_read T);
     if err \<noteq> 0 then do {
       mosh_error T ''cannot read current connection info: %d'' [PInt err];
       return (- EINVAL)
     } else
       (case pdn_id_of cid tbl of
          None \<Rightarrow> do {
            mosh_error T (''PDN context with CID=%d doesn'' @ [CHR 0x27] @ ''t exist'') [PInt cid];
            return (- EINVAL)
          }
        | Some pdn_id \<Rightarrow> do {
            d \<leftarrow> gets (info i);
            err \<leftarrow> net_utils_socket_pdn_id_set T (sock_fd d) (word_of_int pdn_id);
            doif (err \<noteq> 0) (mosh_error T ''Cannot bind socket id=%d to PDN ID %d'' [PInt (sock_id d), PInt pdn_id]);
            return err
          })
   }"

text \<open>The command \<open>sock getaddrinfo\<close>.\<close>

fun print_answers :: "('w, 'y) sock_api_scheme \<Rightarrow> addrinfo list \<Rightarrow> ('w, 'z, unit) sock_prog" where
  "print_answers T [] = return ()"
| "print_answers T (a # as) = do {
     mosh_print T ''getaddrinfo answer family=%d, address=%s'' [PInt (ai_family a), PStr (ai_text a)];
     print_answers T as
   }"

definition sock_getaddrinfo :: "('w, 'y) sock_api_scheme \<Rightarrow> int \<Rightarrow> int \<Rightarrow> string \<Rightarrow> int \<Rightarrow> ('w, 'z, int) sock_prog" where
  "sock_getaddrinfo T fam typ hostname cid = do {
     mosh_print T ''getaddrinfo query family=%d, type=%d, pdn_cid=%d, hostname=%s'' [PInt fam, PInt typ, PInt cid, PStr hostname];
     (err, ai) \<leftarrow> sock_getaddrinfo_req T fam typ hostname cid;
     if err \<noteq> 0 then return err
     else do {
       print_answers T ai;
       act (freeaddrinfo_list T ai);
       return err
     }
   }"

record sock_args =
  a_family :: int
  a_type :: int
  a_address :: string
  a_port :: int
  a_bind_port :: int
  a_pdn_cid :: int
  a_secure :: bool
  a_sec_tag :: "32 word"
  a_session_cache :: bool
  a_keep_open :: bool
  a_peer_verify :: int
  a_peer_hostname :: string
  a_dtls_cid :: int
  a_dtls_frag_ext :: int

text \<open>
  From the reserved slot to the label \<open>connect_error\<close>: \<open>None\<close> when the socket is open, else the error
  the function returns after the slot is cleared.
\<close>

definition fail_if :: "int \<Rightarrow> int option" where
  "fail_if err = (if err \<noteq> 0 then Some err else None)"

definition resolve_address :: "('w, 'y) sock_api_scheme \<Rightarrow> nat \<Rightarrow> sock_args \<Rightarrow> ('w, 'z, int option) sock_prog" where
  "resolve_address T i a = do {
     (err, ai) \<leftarrow> sock_getaddrinfo_req T (a_family a) (a_type a) (a_address a) (a_pdn_cid a);
     upd_info i (\<lambda>d. d\<lparr>addrs := ai\<rparr>);
     if err \<noteq> 0 then return (Some err)
     else if a_address a = [] then return None
     else if a_family a = num T ''AF_INET'' \<or> a_family a = num T ''AF_INET6'' then do {
       upd_info i (\<lambda>d. d\<lparr>addrs := (case addrs d of [] \<Rightarrow> [] | x # xs \<Rightarrow> x\<lparr>ai_port := a_port a mod 65536\<rparr> # xs)\<rparr>);
       return None
     } else abort (Some 0)
   }"

definition create_socket :: "('w, 'y) sock_api_scheme \<Rightarrow> nat \<Rightarrow> sock_args \<Rightarrow> ('w, 'z, int option) sock_prog" where
  "create_socket T i a = do {
     fd \<leftarrow> call (socket T (a_family a) (a_type a) (sock_protocol_resolve T (a_type a) (a_secure a)));
     if fd < 0 then do {
       e \<leftarrow> ask (errno T);
       (if e = num T ''ENFILE'' \<or> e = num T ''EMFILE''
        then mosh_error T ''Socket creation failed due to maximum number of sockets in the system exceeded (%d). Notice that all file descriptors in the system are taken into account and not just sockets created through this application.''
          [PInt (num T ''CONFIG_ZVFS_OPEN_MAX'')]
        else mosh_error T ''Socket create failed, errno %d'' [PInt e]);
       return (Some e)
     } else do {
       upd_info i (\<lambda>d. d\<lparr>in_use := True, sock_fd := fd, family := a_family a, sock_type := a_type a, port := a_port a,
         bind_port := a_bind_port a, pdn_cid := a_pdn_cid a, secure := a_secure a\<rparr>);
       return None
     }
   }"

definition prepare_socket :: "('w, 'y) sock_api_scheme \<Rightarrow> nat \<Rightarrow> sock_args \<Rightarrow> ('w, 'z, int option) sock_prog" where
  "prepare_socket T i a = do {
     fd \<leftarrow> gets (\<lambda>s. sock_fd (info i s));
     andthen (if a_pdn_cid a > 0 then do { err \<leftarrow> sock_bind_to_pdp_context T i (a_pdn_cid a); return (fail_if err) } else return None)
     (andthen (if a_bind_port a > 0 then do { err \<leftarrow> sock_bind T fd (a_family a) (a_bind_port a); return (fail_if err) } else return None)
     (andthen (if a_keep_open a then do {
           err \<leftarrow> call (set_opt T fd (num T ''SOL_SOCKET'') (num T ''SO_KEEPOPEN'') (OInt 1));
           e \<leftarrow> ask (errno T);
           doif (err \<noteq> 0) (mosh_error T ''Unable to set option SO_KEEPOPEN, errno %d'' [PInt e]);
           return (fail_if err)
         } else return None)
     (if a_secure a then do {
         err \<leftarrow> sock_set_tls_options T fd (a_sec_tag a) (a_session_cache a) (a_peer_verify a) (a_peer_hostname a)
           (a_dtls_cid a) (a_dtls_frag_ext a);
         return (fail_if err)
       } else return None)))
   }"

definition connect_socket :: "('w, 'y) sock_api_scheme \<Rightarrow> nat \<Rightarrow> sock_args \<Rightarrow> ('w, 'z, int option) sock_prog" where
  "connect_socket T i a =
     (if a_type a = num T ''SOCK_STREAM'' \<or> a_type a = num T ''SOCK_DGRAM'' then do {
        d \<leftarrow> gets (info i);
        case addrs d of
          [] \<Rightarrow> do { fault; return (Some 0) }
        | x # _ \<Rightarrow> do {
            err \<leftarrow> call (connect T (sock_fd d) x);
            if err \<noteq> 0 then do {
              e \<leftarrow> ask (errno T);
              mosh_error T ''Unable to connect, errno %d'' [PInt e];
              return (Some e)
            } else return None
          }
      } else return None)"

definition open_slot :: "('w, 'y) sock_api_scheme \<Rightarrow> nat \<Rightarrow> sock_args \<Rightarrow> ('w, 'z, int option) sock_prog" where
  "open_slot T i a =
     andthen (do {
         proto \<leftarrow> sock_validate_parameters T (a_family a) (a_type a) (a_port a) (a_bind_port a) (a_secure a) (a_sec_tag a);
         return (if proto < 0 then Some (- EINVAL) else None)
       })
     (andthen (resolve_address T i a)
     (andthen (create_socket T i a)
     (andthen (prepare_socket T i a) (connect_socket T i a))))"

definition announce :: "('w, 'y) sock_api_scheme \<Rightarrow> sock_args \<Rightarrow> ('w, 'z, unit) sock_prog" where
  "announce T a = do {
     mosh_print T ''Socket open and connect family=%d, type=%d, port=%d, bind_port=%d, pdn_cid=%d, address=%s''
       [PInt (a_family a), PInt (a_type a), PInt (a_port a), PInt (a_bind_port a), PInt (a_pdn_cid a), PStr (a_address a)];
     doif (a_secure a) (mosh_print T
       ''                        secure=%d, sec_tag=%u, session_cache=%d, peer_verify=%d, peer_hostname=%s, dtls_cid=%d, dtls_frag_ext=%d''
       [PInt 1, PInt (uint (a_sec_tag a)), PInt (if a_session_cache a then 1 else 0), PInt (a_peer_verify a),
        PStr (a_peer_hostname a), PInt (a_dtls_cid a), PInt (a_dtls_frag_ext a)])
   }"

definition sock_open_and_connect :: "('w, 'y) sock_api_scheme \<Rightarrow> sock_args \<Rightarrow> ('w, 'z, int) sock_prog" where
  "sock_open_and_connect T a = do {
     announce T a;
     slot \<leftarrow> reserve_socket_id T;
     case slot of
       None \<Rightarrow> do {
         mosh_error T ''Socket creation failed. MAX_SOCKETS=%d exceeded'' [PInt (int (max_sockets T))];
         return (- num T ''ENFILE'')
       }
     | Some i \<Rightarrow> do {
         res \<leftarrow> open_slot T i a;
         case res of
           Some err \<Rightarrow> do { sock_info_clear T i; return err }
         | None \<Rightarrow> do {
             d \<leftarrow> gets (info i);
             set_sock_blocking_mode T (sock_fd d) False;
             modify (\<lambda>s. s\<lparr>sock_sem := 1\<rparr>);
             mosh_print T ''Socket created socket_id=%d, fd=%d'' [PInt (sock_id d), PInt (sock_fd d)];
             return 0
           }
       }
   }"

subsection \<open>Sending\<close>

text \<open>The arithmetic is that of the C library's doubles: the texts are parameters.\<close>

definition print_throughput_summary :: "('w, 'y) sock_api_scheme \<Rightarrow> 32 word \<Rightarrow> int \<Rightarrow> ('w, 'z, unit) sock_prog" where
  "print_throughput_summary T data_len time_ms = do {
     mosh_print T ''Summary:'' [];
     mosh_print T ''  Data length: %7u bytes'' [PInt (uint data_len)];
     mosh_print T ''  Time:       %8.3f s'' [PStr (seconds T time_ms)];
     mosh_print T ''  Throughput:  %7.0f bit/s'' [PStr (throughput T data_len time_ms)]
   }"

definition hex_digit :: "nat \<Rightarrow> char" where
  "hex_digit d = char_of (if d < 10 then 48 + d else 55 + d)"

text \<open>The conversion \<open>0x%02X\<close> and the space after it.\<close>

definition hex_byte :: "char \<Rightarrow> string" where
  "hex_byte c = ''0x'' @ [hex_digit (of_char c div 16), hex_digit (of_char c mod 16)] @ '' ''"

function sock_print_data_hex :: "('w, 'y) sock_api_scheme \<Rightarrow> string \<Rightarrow> ('w, 'z, unit) sock_prog" where
  "sock_print_data_hex T bs =
     (if bs = [] then return ()
      else do {
        mosh_print T ([CHR 0x09] @ ''%s'') [PStr (concat (map hex_byte (take 8 bs)))];
        sock_print_data_hex T (drop 8 bs)
      })"
  by pat_completeness auto
termination by (relation "measure (\<lambda>(T, bs). length bs)") auto

declare sock_print_data_hex.simps [simp del]

text \<open>What is sent: the send buffer of the socket, or other bytes.\<close>

datatype source = Send_buffer | Bytes string

definition source_bytes :: "nat \<Rightarrow> source \<Rightarrow> ('w, 'z) sock_scheme \<Rightarrow> string option" where
  "source_bytes i what s = (case what of Bytes bs \<Rightarrow> Some bs
     | Send_buffer \<Rightarrow> (case send_buffer (info i s) of None \<Rightarrow> None
       | Some a \<Rightarrow> if heap s a = None then None else Some (chars_at (heap s) a)))"

definition number_packet :: "('w, 'y) sock_api_scheme \<Rightarrow> nat \<Rightarrow> ('w, 'z, unit) sock_prog" where
  "number_packet T i = do {
     d \<leftarrow> gets (info i);
     doif (packet_number_prefix (send_info d) > 0) (do {
       doif (packet_number_prefix (send_info d) \<ge> 10000)
         (upd_info i (\<lambda>d. d\<lparr>send_info := (send_info d)\<lparr>packet_number_prefix := 1\<rparr>\<rparr>));
       n \<leftarrow> gets (\<lambda>s. packet_number_prefix (send_info (info i s)));
       write_send_buffer i (take 4 (show_padded 4 n));
       upd_info i (\<lambda>d. d\<lparr>send_info := (send_info d)\<lparr>packet_number_prefix := n + 1\<rparr>\<rparr>)
     })
   }"

definition log_sent :: "('w, 'y) sock_api_scheme \<Rightarrow> string option \<Rightarrow> nat \<Rightarrow> bool \<Rightarrow> ('w, 'z, unit) sock_prog" where
  "log_sent T bs len hex_format = do {
     mosh_print T ''Socket data send:'' [];
     (if hex_format then
        (if len = 0 then return ()
         else case bs of None \<Rightarrow> fault | Some bs \<Rightarrow> if length bs < len then fault else sock_print_data_hex T (take len bs))
      else case bs of None \<Rightarrow> fault | Some bs \<Rightarrow> mosh_print T ([CHR 0x09] @ ''%s'') [PStr (cstr bs)])
   }"

definition sock_send :: "('w, 'y) sock_api_scheme \<Rightarrow> nat \<Rightarrow> source \<Rightarrow> nat \<Rightarrow> bool \<Rightarrow> bool \<Rightarrow> ('w, 'z, int) sock_prog" where
  "sock_send T i what len log_data hex_format = do {
     killed \<leftarrow> ask (k_poll_signal_check T (mosh_signal T));
     if killed then do {
       act (k_poll_signal_reset T (mosh_signal T));
       mosh_error T ''KILL signal received - exiting'' [];
       return (- num T ''ECANCELED'')
     } else do {
       number_packet T i;
       bs \<leftarrow> gets (source_bytes i what);
       doif log_data (log_sent T bs len hex_format);
       d \<leftarrow> gets (info i);
       doif (case bs of None \<Rightarrow> 0 < len | Some bs \<Rightarrow> length bs < len) fault;
       bytes \<leftarrow> call (sock_tx T (sock_fd d) (take len (case bs of None \<Rightarrow> [] | Some bs \<Rightarrow> bs)) (send_flags d));
       if bytes < 0 then do {
         err \<leftarrow> ask (errno T);
         blocking \<leftarrow> sock_get_blocking_mode T (sock_fd d);
         doif (err \<noteq> EAGAIN T \<or> blocking) (mosh_error T ''Socket send failed, errno %d'' [PInt err]);
         return (- err)
       } else return bytes
     }
   }"

definition schedule_work :: "nat \<Rightarrow> ('w, 'z, unit) sock_prog" where
  "schedule_work i = upd_info i (\<lambda>d. d\<lparr>send_info := (send_info d)\<lparr>work_busy := True\<rparr>\<rparr>)"

text \<open>The work item is not busy any more when its handler has ended, unless it is scheduled again.\<close>

definition data_send_work_handler :: "('w, 'y) sock_api_scheme \<Rightarrow> nat \<Rightarrow> ('w, 'z, unit) sock_prog" where
  "data_send_work_handler T i = do {
     d \<leftarrow> gets (info i);
     cancel_work i;
     if \<not> in_use d then
       mosh_print T (''Socket id=%d not in use. Fatal error and sending won'' @ [CHR 0x27] @ ''t work.'') [PInt (sock_id d)]
     else do {
       ret \<leftarrow> sock_send T i Send_buffer (send_buffer_size d) True (data_format_hex (send_info d));
       doif (ret \<noteq> - num T ''ECANCELED'') (schedule_work i)
     }
   }"

text \<open>
  Sending a given number of bytes: the result is whether the function returned (with a network that
  takes no byte and reports no error it does not).
\<close>

definition start_chunk :: "nat \<Rightarrow> ('w, 'z, unit) sock_prog" where
  "start_chunk i = do {
     d \<leftarrow> gets (info i);
     doif (send_bytes_left d < int (send_buffer_size d)) (do {
       write_send_buffer i (replicate (send_buffer_size d) NUL);
       write_send_buffer i (replicate (nat (send_bytes_left d)) (CHR ''l''))
     })
   }"

definition print_progress :: "('w, 'y) sock_api_scheme \<Rightarrow> nat \<Rightarrow> ('w, 'z, unit) sock_prog" where
  "print_progress T i = do {
     now \<leftarrow> ask (k_uptime_get T);
     d \<leftarrow> gets (info i);
     let ms = now - start_time_ms d;
     doif (ms > 1000 * send_print_interval d) (do {
       mosh_print T ''%7u bytes, %6.2fs, %6.0f bit/s''
         [PInt (uint (send_bytes_sent d)), PStr (seconds T ms), PStr (throughput T (send_bytes_sent d) ms)];
       upd_info i (\<lambda>d. d\<lparr>send_print_interval := send_print_interval d + 10\<rparr>)
     })
   }"

definition finish_random :: "('w, 'y) sock_api_scheme \<Rightarrow> nat \<Rightarrow> ('w, 'z, unit) sock_prog" where
  "finish_random T i = do {
     now \<leftarrow> ask (k_uptime_get T);
     d \<leftarrow> gets (info i);
     upd_info i (\<lambda>d. d\<lparr>send_poll := False, start_time_ms := now\<rparr>);
     sock_send_buffer_free i;
     print_throughput_summary T (send_bytes_sent d) (now - start_time_ms d)
   }"

definition strlen_send_buffer :: "nat \<Rightarrow> ('w, 'z, nat) sock_prog" where
  "strlen_send_buffer i = do {
     bs \<leftarrow> gets (source_bytes i Send_buffer);
     case bs of
       None \<Rightarrow> do { fault; return 0 }
     | Some bs \<Rightarrow> do { doif (\<not> terminated bs) fault; return (length (cstr bs)) }
   }"

fun sock_send_random_data_length :: "nat \<Rightarrow> ('w, 'y) sock_api_scheme \<Rightarrow> nat \<Rightarrow> ('w, 'z, bool) sock_prog" where
  "sock_send_random_data_length 0 T i = return False"
| "sock_send_random_data_length (Suc fuel) T i = do {
     d \<leftarrow> gets (info i);
     if send_bytes_left d \<le> 0 then do { finish_random T i; return True }
     else do {
       start_chunk i;
       len \<leftarrow> strlen_send_buffer i;
       bytes \<leftarrow> sock_send T i Send_buffer len False False;
       if bytes = - EAGAIN T then do {
         upd_info i (\<lambda>d. d\<lparr>send_poll := True\<rparr>);
         return True
       } else if bytes < 0 then do { finish_random T i; return True }
       else do {
         upd_info i (\<lambda>d. d\<lparr>send_bytes_sent := send_bytes_sent d + word_of_int bytes, send_bytes_left := send_bytes_left d - bytes\<rparr>);
         print_progress T i;
         sock_send_random_data_length fuel T i
       }
     }
   }"

record send_args =
  random_data_length :: int
  a_interval :: int
  a_packet_number_prefix :: bool
  a_blocking :: bool
  a_flags :: int
  a_buffer_size :: int
  a_data_format_hex :: bool

text \<open>The size of the buffer: the given one, or that of the protocol.\<close>

definition chunk_size :: "('w, 'y) sock_api_scheme \<Rightarrow> int \<Rightarrow> send_args \<Rightarrow> nat" where
  "chunk_size T typ a = (if a_buffer_size a \<noteq> SOCK_BUFFER_SIZE_NONE then nat (uint (word_of_int (a_buffer_size a) :: 32 word))
     else if typ = num T ''SOCK_DGRAM'' then SOCK_SEND_BUFFER_SIZE_UDP else SOCK_SEND_BUFFER_SIZE_TCP)"

text \<open>What is done between the allocation of the buffer and the loop.\<close>

definition start_random :: "('w, 'y) sock_api_scheme \<Rightarrow> nat \<Rightarrow> nat \<Rightarrow> sock_info \<Rightarrow> send_args \<Rightarrow> ('w, 'z, unit) sock_prog" where
  "start_random T i len d a = do {
     let args = [PInt (random_data_length a), PInt (int len), PInt (if a_blocking a then 1 else 0)];
     mosh_print T ''Sending %d bytes of data with buffer_size=%d, blocking=%d'' args;
     doif (sock_type d = num T ''SOCK_STREAM'' \<and> len > 4096 \<or> sock_type d = num T ''SOCK_DGRAM'' \<and> len > 1200)
       (mosh_warn T ''Sending %d bytes of data with buffer_size=%d, blocking=%d'' args);
     upd_info i (\<lambda>d. d\<lparr>send_bytes_sent := 0, send_bytes_left := random_data_length a, log_receive_data := False,
       send_print_interval := 10\<rparr>);
     set_sock_blocking_mode T (sock_fd d) (a_blocking a);
     write_send_buffer i (replicate len (CHR ''d''));
     now \<leftarrow> ask (k_uptime_get T);
     upd_info i (\<lambda>d. d\<lparr>start_time_ms := now\<rparr>)
   }"

definition send_random :: "nat \<Rightarrow> ('w, 'y) sock_api_scheme \<Rightarrow> nat \<Rightarrow> send_args \<Rightarrow> ('w, 'z, int option) sock_prog" where
  "send_random fuel T i a =
     (if a_interval a \<noteq> SOCK_SEND_DATA_INTERVAL_NONE then do {
        mosh_error T ''Data length and interval cannot be specified at the same time'' [];
        return (Some (- EINVAL))
      } else do {
        d \<leftarrow> gets (info i);
        let len = chunk_size T (sock_type d) a;
        ok \<leftarrow> sock_send_buffer_calloc T i len;
        if \<not> ok then return (Some (- ENOMEM))
        else do {
          start_random T i len d a;
          ended \<leftarrow> sock_send_random_data_length fuel T i;
          if \<not> ended then return None
          else do {
            set_sock_blocking_mode T (sock_fd d) False;
            return (Some 0)
          }
        }
      })"

definition stop_periodic :: "('w, 'y) sock_api_scheme \<Rightarrow> nat \<Rightarrow> ('w, 'z, int) sock_prog" where
  "stop_periodic T i = do {
     d \<leftarrow> gets (info i);
     if work_busy (send_info d) then do {
       cancel_work i;
       mosh_print T ''Socket data send periodic stop'' [];
       return 0
     } else do {
       mosh_error T ''Socket data send stop: periodic data not started'' [];
       return (- EINVAL)
     }
   }"

definition start_periodic :: "('w, 'y) sock_api_scheme \<Rightarrow> nat \<Rightarrow> string \<Rightarrow> send_args \<Rightarrow> ('w, 'z, int) sock_prog" where
  "start_periodic T i data a = do {
     d \<leftarrow> gets (info i);
     if work_busy (send_info d) then do {
       mosh_error T ''Periodic sending is already ongoing'' [];
       return (- EBUSY)
     } else if length data < 1 then do {
       mosh_error T ''Data sending interval is specified without data to be sent'' [];
       return (- EINVAL)
     } else do {
       let len = (if a_packet_number_prefix a then length data + 4 else length data);
       ok \<leftarrow> sock_send_buffer_calloc T i len;
       if \<not> ok then return (- ENOMEM)
       else if a_packet_number_prefix a \<and> a_data_format_hex a then do {
         mosh_error T ''Hexadecimal format cannot be used with packet number prefix'' [];
         return (- EINVAL)
       } else do {
         (if a_packet_number_prefix a then do {
            write_send_buffer i (''0000'' @ cstr data @ [NUL]);
            upd_info i (\<lambda>d. d\<lparr>send_info := (send_info d)\<lparr>packet_number_prefix := 1\<rparr>\<rparr>)
          } else write_send_buffer i data);
         upd_info i (\<lambda>d. d\<lparr>send_buffer_size := len, send_info := (send_info d)\<lparr>data_format_hex := a_data_format_hex a,
           interval := a_interval a\<rparr>\<rparr>);
         mosh_print T ''Socket data send periodic with interval=%d'' [PInt (a_interval a)];
         schedule_work i;
         return 0
       }
     }
   }"

text \<open>
  \<open>sock send\<close>: \<open>H\<close> is the hexadecimal reader. The result \<open>None\<close> is a call that does not return.
\<close>

definition sock_send_data :: "nat \<Rightarrow> ('w, 'y) sock_api_scheme \<Rightarrow> ('v, 'x) str_api_scheme \<Rightarrow> int \<Rightarrow> string \<Rightarrow> send_args \<Rightarrow>
    ('w, 'z, int option) sock_prog" where
  "sock_send_data fuel T H socket_id data a = do {
     slot \<leftarrow> get_socket_info_by_id T socket_id;
     case slot of
       None \<Rightarrow> return (Some (- EINVAL))
     | Some i \<Rightarrow>
         if (word_of_int (a_flags a) :: 32 word) AND word_of_int (num T ''MSG_WAITACK'') \<noteq> 0 \<and> \<not> a_blocking a then do {
           mosh_error T ''The wait_ack flag cannot be used in non-blocking mode'' [];
           return (Some (- EINVAL))
         } else do {
           sock_all_set_nonblocking T;
           upd_info i (\<lambda>d. d\<lparr>send_flags := a_flags a\<rparr>);
           let data = (if a_data_format_hex a
             then map (\<lambda>b. char_of (unat b)) (str_hex_to_bytes H data (length data) (SOCK_MAX_SEND_DATA_LEN div 2)) else data);
           upd_info i (\<lambda>d. d\<lparr>log_receive_data := True\<rparr>);
           if random_data_length a > 0 then send_random fuel T i a
           else if a_interval a \<noteq> SOCK_SEND_DATA_INTERVAL_NONE then
             (if a_interval a = 0 then do { ret \<leftarrow> stop_periodic T i; return (Some ret) }
              else if a_interval a > 0 then do { ret \<leftarrow> start_periodic T i data a; return (Some ret) }
              else return (Some 0))
           else if data \<noteq> [] then do {
             d \<leftarrow> gets (info i);
             set_sock_blocking_mode T (sock_fd d) (a_blocking a);
             _ \<leftarrow> sock_send T i (Bytes (data @ [NUL])) (length data) True (a_data_format_hex a);
             set_sock_blocking_mode T (sock_fd d) False;
             return (Some 0)
           } else do {
             mosh_print T ''No send parameters given'' [];
             return (Some (- EINVAL))
           }
         }
   }"

subsection \<open>Receiving\<close>

text \<open>The receive buffer of the poll thread, allocated when data comes: whether there is one.\<close>

definition receive_buffer :: "('w, 'y) sock_api_scheme \<Rightarrow> ('w, 'z, bool) sock_prog" where
  "receive_buffer T = do {
     b \<leftarrow> gets sock_receive_buffer;
     if b \<noteq> None then return True
     else do {
       p \<leftarrow> malloc T (Chars (replicate (SOCK_RECEIVE_BUFFER_SIZE + 1) NUL));
       modify (\<lambda>s. s\<lparr>sock_receive_buffer := p\<rparr>);
       doif (p = None) (mosh_error T ''Out of memory while reserving receive buffer of size %d bytes''
         [PInt (int SOCK_RECEIVE_BUFFER_SIZE)]);
       return (p \<noteq> None)
     }
   }"

text \<open>
  Data of a socket. The receive buffer holds it only within this function, which zeroes it at the
  end: what is printed as a string is the data up to its first NUL.
\<close>

definition count_received :: "('w, 'y) sock_api_scheme \<Rightarrow> nat \<Rightarrow> int \<Rightarrow> ('w, 'z, unit) sock_prog" where
  "count_received T i n = do {
     now \<leftarrow> ask (k_uptime_get T);
     upd_info i (\<lambda>d. d\<lparr>recv_end_time_ms := now, recv_data_len := recv_data_len d + word_of_int n\<rparr>);
     d \<leftarrow> gets (info i);
     doif (recv_data_len d \<ge> recv_data_len_expected d) (do {
       print_throughput_summary T (recv_data_len d) (recv_end_time_ms d - start_time_ms d);
       upd_info i (\<lambda>d. d\<lparr>recv_data_len_expected := SOCK_DATA_LEN_NONE\<rparr>)
     })
   }"

definition handle_pollin :: "('w, 'y) sock_api_scheme \<Rightarrow> nat \<Rightarrow> ('w, 'z, unit) sock_prog" where
  "handle_pollin T i = do {
     now \<leftarrow> ask (k_uptime_get T);
     upd_info i (\<lambda>d. if recv_start_throughput d then d\<lparr>start_time_ms := now, recv_start_throughput := False\<rparr> else d);
     d \<leftarrow> gets (info i);
     (n, bs) \<leftarrow> call (sock_rx T (sock_fd d) SOCK_RECEIVE_BUFFER_SIZE);
     doif (n > 0) (do {
       count_received T i n;
       doif (log_receive_data d) (do {
         mosh_print T ''Received data for socket socket_id=%d, buffer_size=%d:'' [PInt (int i), PInt n];
         if recv_print_format d = SOCK_RECV_PRINT_FORMAT_HEX then sock_print_data_hex T (take (nat n) bs)
         else mosh_print T ([CHR 0x09] @ ''%s'') [PStr (cstr (take (nat n) bs))]
       })
     })
   }"

text \<open>The result: whether the function returned.\<close>

definition sock_handle_poll_events :: "nat \<Rightarrow> ('w, 'y) sock_api_scheme \<Rightarrow> nat \<Rightarrow> revents \<Rightarrow> ('w, 'z, bool) sock_prog" where
  "sock_handle_poll_events fuel T i ev = do {
     ok \<leftarrow> (if POLLIN ev then receive_buffer T else return True);
     if \<not> ok then return True
     else do {
       doif (POLLIN ev) (handle_pollin T i);
       ended \<leftarrow> (if POLLOUT ev then sock_send_random_data_length fuel T i else return True);
       if \<not> ended then return False
       else do {
         d \<leftarrow> gets (info i);
         doif (POLLERR ev) (do {
           mosh_print T ''Error from socket id=%d (fd=%d), closing'' [PInt (int i), PInt (sock_fd d)];
           sock_info_clear T i
         });
         d \<leftarrow> gets (info i);
         doif (POLLHUP ev) (do {
           mosh_print T ''Socket id=%d (fd=%d) disconnected so closing.'' [PInt (int i), PInt (sock_fd d)];
           sock_info_clear T i
         });
         doif (POLLNVAL ev) (do {
           mosh_print T ''Socket id=%d invalid'' [PInt (int i)];
           sock_info_clear T i
         });
         return True
       }
     }
   }"

fun handle_all :: "nat \<Rightarrow> ('w, 'y) sock_api_scheme \<Rightarrow> (int \<times> revents) list \<Rightarrow> ('w, 'z, bool) sock_prog" where
  "handle_all fuel T [] = return True"
| "handle_all fuel T (x # xs) = do {
     slot \<leftarrow> get_socket_id_by_fd (fst x);
     case slot of
       None \<Rightarrow> handle_all fuel T xs
     | Some i \<Rightarrow> do {
         ended \<leftarrow> sock_handle_poll_events fuel T i (snd x);
         if ended then handle_all fuel T xs else return False
       }
   }"

text \<open>
  One turn of the loop of the poll thread, from the wait for the semaphore when it waits. The
  semaphore is reset before the wait, as no socket was open.
\<close>

definition poll_list :: "sock_info list \<Rightarrow> (int \<times> bool) list" where
  "poll_list ss = map (\<lambda>d. (sock_fd d, send_poll d)) (filter in_use ss)"

definition sock_receive_turn :: "nat \<Rightarrow> ('w, 'y) sock_api_scheme \<Rightarrow> ('w, 'z, bool) sock_prog" where
  "sock_receive_turn fuel T = do {
     blocked \<leftarrow> gets recv_blocked;
     sem \<leftarrow> gets sock_sem;
     if blocked \<and> sem = 0 then return True
     else do {
       doif blocked (modify (\<lambda>s. s\<lparr>sock_sem := sock_sem s - 1, recv_blocked := False\<rparr>));
       fds \<leftarrow> gets (\<lambda>s. poll_list (sockets s));
       if fds = [] then do {
         modify (\<lambda>s. s\<lparr>sock_sem := 0\<rparr>);
         b \<leftarrow> gets sock_receive_buffer;
         free b;
         modify (\<lambda>s. s\<lparr>sock_receive_buffer := None, recv_blocked := True\<rparr>);
         return True
       } else do {
         (ret, evs) \<leftarrow> call (sock_poll T fds);
         if ret \<le> 0 then return True
         else handle_all fuel T (zip (map fst fds) evs)
       }
     }
   }"

definition sock_recv :: "('w, 'y) sock_api_scheme \<Rightarrow> int \<Rightarrow> bool \<Rightarrow> int \<Rightarrow> bool \<Rightarrow> int \<Rightarrow> ('w, 'z, int) sock_prog" where
  "sock_recv T socket_id receive_start data_length blocking print_format = do {
     slot \<leftarrow> get_socket_info_by_id T socket_id;
     case slot of
       None \<Rightarrow> return (- EINVAL)
     | Some i \<Rightarrow> do {
         d \<leftarrow> gets (info i);
         if print_format \<noteq> SOCK_RECV_PRINT_FORMAT_NONE then
           (if print_format = SOCK_RECV_PRINT_FORMAT_STR \<or> print_format = SOCK_RECV_PRINT_FORMAT_HEX then do {
              mosh_print T ''Receive print format changed for socket id=%d'' [PInt (sock_id d)];
              upd_info i (\<lambda>d. d\<lparr>recv_print_format := print_format\<rparr>);
              return 0
            } else do {
              mosh_error T ''Receive data print format (%d) must be %d or %d''
                [PInt print_format, PInt SOCK_RECV_PRINT_FORMAT_STR, PInt SOCK_RECV_PRINT_FORMAT_HEX];
              return (- EINVAL)
            })
         else if receive_start then do {
           mosh_print T ''Receive data calculation start socket id=%d'' [PInt (sock_id d)];
           sock_all_set_nonblocking T;
           upd_info i (\<lambda>d. d\<lparr>recv_start_throughput := True, recv_data_len := 0, log_receive_data := False, start_time_ms := 0,
             recv_end_time_ms := 0\<rparr>);
           set_sock_blocking_mode T (sock_fd d) blocking;
           upd_info i (\<lambda>d. d\<lparr>recv_data_len_expected := (if data_length > 0 then word_of_int data_length else SOCK_DATA_LEN_NONE)\<rparr>);
           return 0
         } else do {
           print_throughput_summary T (recv_data_len d) (recv_end_time_ms d - start_time_ms d);
           return 0
         }
       }
   }"

definition sock_close :: "('w, 'y) sock_api_scheme \<Rightarrow> int \<Rightarrow> ('w, 'z, int) sock_prog" where
  "sock_close T socket_id = do {
     slot \<leftarrow> get_socket_info_by_id T socket_id;
     case slot of
       None \<Rightarrow> return (- EINVAL)
     | Some i \<Rightarrow> do {
         d \<leftarrow> gets (info i);
         mosh_print T ''Close socket id=%d, fd=%d'' [PInt (sock_id d), PInt (sock_fd d)];
         sock_info_clear T i;
         return 0
       }
   }"

subsection \<open>Options\<close>

definition sock_rai_option_set :: "('w, 'y) sock_api_scheme \<Rightarrow> int \<Rightarrow> string \<Rightarrow> ('w, 'z, int option) sock_prog" where
  "sock_rai_option_set T fd option = do {
     err \<leftarrow> call (set_opt T fd (num T ''SOL_SOCKET'') (num T ''SO_RAI'') (OInt (num T option)));
     if err \<noteq> 0 then do {
       e \<leftarrow> ask (errno T);
       mosh_error T ''setsockopt() for SO_RAI with value %s failed with error %d'' [PStr option, PInt e];
       return (Some err)
     } else do {
       mosh_print T ''Socket option %s set'' [PStr option];
       return None
     }
   }"

fun set_rai_options :: "('w, 'y) sock_api_scheme \<Rightarrow> int \<Rightarrow> (bool \<times> string) list \<Rightarrow> ('w, 'z, int) sock_prog" where
  "set_rai_options T fd [] = return 0"
| "set_rai_options T fd (x # xs) =
     (if fst x then do {
        res \<leftarrow> sock_rai_option_set T fd (snd x);
        case res of None \<Rightarrow> set_rai_options T fd xs | Some err \<Rightarrow> return err
      } else set_rai_options T fd xs)"

definition sock_rai :: "('w, 'y) sock_api_scheme \<Rightarrow> int \<Rightarrow> bool \<Rightarrow> bool \<Rightarrow> bool \<Rightarrow> bool \<Rightarrow> bool \<Rightarrow> ('w, 'z, int) sock_prog" where
  "sock_rai T socket_id rai_last rai_no_data rai_one_resp rai_ongoing rai_wait_more = do {
     slot \<leftarrow> get_socket_info_by_id T socket_id;
     case slot of
       None \<Rightarrow> return (- EINVAL)
     | Some i \<Rightarrow> do {
         doif (\<not> rai_last \<and> \<not> rai_no_data \<and> \<not> rai_one_resp \<and> \<not> rai_ongoing \<and> \<not> rai_wait_more)
           (mosh_error T ''No socket specific RAI options given with -i'' []);
         d \<leftarrow> gets (info i);
         set_rai_options T (sock_fd d) [(rai_last, ''RAI_LAST''), (rai_no_data, ''RAI_NO_DATA''), (rai_one_resp, ''RAI_ONE_RESP''),
           (rai_ongoing, ''RAI_ONGOING''), (rai_wait_more, ''RAI_WAIT_MORE'')]
       }
   }"

text \<open>\<open>strtoul (s, &end, 0)\<close> stored in an \<open>int\<close>: \<open>None\<close> without a number, else the value and the rest.\<close>

definition strtoul_int :: "string \<Rightarrow> (int \<times> string) option" where
  "strtoul_int s =
     (let s1 = dropWhile isspace s;
          neg = (take 1 s1 = ''-'');
          s2 = (if take 1 s1 = ''-'' \<or> take 1 s1 = ''+'' then drop 1 s1 else s1);
          (b, s3) = strtol_base 0 s2;
          ds = takeWhile (is_digit b) s3;
          v = int (digits_value b ds);
          u = (if v > 4294967295 then 4294967295 else if neg then - v else v)
      in if ds = [] then None else Some (sint (word_of_int u :: 32 word), dropWhile (is_digit b) s3))"

fun value_list :: "nat \<Rightarrow> string \<Rightarrow> int list \<times> string" where
  "value_list 0 s = ([], s)"
| "value_list (Suc n) s = (case strtoul_int s of
     None \<Rightarrow> ([], s)
   | Some (v, rest) \<Rightarrow> (case value_list n rest of (vs, rest) \<Rightarrow> (v # vs, rest)))"

text \<open>
  A null string where the code has no branch for it is a null pointer followed. A time in
  milliseconds is multiplied in 32 bits.
\<close>

definition opt_of_text :: "('w, 'y) sock_api_scheme \<Rightarrow> int \<Rightarrow> int \<Rightarrow> string option \<Rightarrow> (opt_value \<times> string option) option" where
  "opt_of_text T level opt v =
     (if level = num T ''SOL_TLS'' \<and> (opt = num T ''TLS_SEC_TAG_LIST'' \<or> opt = num T ''TLS_CIPHERSUITE_LIST'') then
        (case v of None \<Rightarrow> None
         | Some s \<Rightarrow> (case value_list SOCK_OPT_VALUE_LIST_SIZE (map (\<lambda>c. if c = CHR '','' then CHR '' '' else c) s) of
             (vs, rest) \<Rightarrow> Some (OInts vs, Some rest)))
      else if level = num T ''SOL_TLS'' \<and> opt = num T ''TLS_HOSTNAME'' then Some (OStr (case v of None \<Rightarrow> [] | Some s \<Rightarrow> s), v)
      else if level = num T ''SOL_TLS'' \<and> opt = num T ''TLS_SESSION_CACHE_PURGE'' then Some (ONone, v)
      else case v of None \<Rightarrow> None
        | Some s \<Rightarrow>
            if level = num T ''SOL_SOCKET'' \<and> (opt = num T ''SO_RCVTIMEO'' \<or> opt = num T ''SO_SNDTIMEO'') then
              (let us = sint (word_of_int (atoi s * 1000) :: 32 word)
               in Some (OTime (sgn us * (\<bar>us\<bar> div 1000000)) (sgn us * (\<bar>us\<bar> mod 1000000)), v))
            else Some (OInt (atoi s), v))"

definition sock_setopt :: "('w, 'y) sock_api_scheme \<Rightarrow> int \<Rightarrow> int \<Rightarrow> int \<Rightarrow> string option \<Rightarrow> ('w, 'z, int) sock_prog" where
  "sock_setopt T socket_id level opt v = do {
     slot \<leftarrow> get_socket_info_by_id T socket_id;
     case slot of
       None \<Rightarrow> return (- EINVAL)
     | Some i \<Rightarrow>
         if opt = 0 then do {
           mosh_error T ''Socket option is mandatory.'' [];
           return (- EINVAL)
         } else if v = None \<and> \<not> (level = num T ''SOL_TLS'' \<and> opt = num T ''TLS_HOSTNAME'') \<and>
             \<not> (level = num T ''SOL_TLS'' \<and> opt = num T ''TLS_SESSION_CACHE_PURGE'') then do {
           mosh_error T ''Socket option value is mandatory.'' [];
           return (- EINVAL)
         } else do {
           d \<leftarrow> gets (info i);
           case opt_of_text T level opt v of
             None \<Rightarrow> do { fault; return 0 }
           | Some (x, rest) \<Rightarrow> do {
               err \<leftarrow> call (set_opt T (sock_fd d) level opt x);
               e \<leftarrow> ask (errno T);
               doif (err \<noteq> 0) (mosh_error T ''setsockopt() for level=%d, option=%d, value=%s failed with error %d''
                 [PInt level, PInt opt, (case rest of None \<Rightarrow> PWild | Some s \<Rightarrow> PStr s), PInt e]);
               return err
             }
         }
   }"

text \<open>The list of values as a text of at most 127 characters, without the comma at the end.\<close>

fun join_values :: "(int \<Rightarrow> string) \<Rightarrow> int list \<Rightarrow> string \<Rightarrow> nat \<Rightarrow> string \<times> nat" where
  "join_values f [] txt len = (txt, len)"
| "join_values f (v # vs) txt len =
     (let piece = f v @ '','';
          txt = txt @ take (127 - len) piece;
          len = len + length piece
      in if len \<ge> 127 then (txt, len) else join_values f vs txt len)"

definition values_text :: "(int \<Rightarrow> string) \<Rightarrow> int list \<Rightarrow> string" where
  "values_text f vs = (case join_values f vs [] 0 of (txt, len) \<Rightarrow>
     if 0 < len \<and> len \<le> length txt \<and> txt ! (len - 1) = CHR '','' then take (len - 1) txt else txt)"

fun hex_of_nat :: "nat \<Rightarrow> string" where
  "hex_of_nat n = (if n < 16 then [hex_digit n] else hex_of_nat (n div 16) @ [hex_digit (n mod 16)])"

declare hex_of_nat.simps [simp del]

text \<open>What is read into a list, a string, a time or an integer.\<close>

definition opt_ints :: "opt_value \<Rightarrow> int list" where "opt_ints v = (case v of OInts vs \<Rightarrow> vs | _ \<Rightarrow> [])"
definition opt_str :: "opt_value \<Rightarrow> string" where "opt_str v = (case v of OStr s \<Rightarrow> s | _ \<Rightarrow> [])"
definition opt_int :: "opt_value \<Rightarrow> int" where "opt_int v = (case v of OInt x \<Rightarrow> x | _ \<Rightarrow> 0)"
definition opt_ms :: "opt_value \<Rightarrow> int" where
  "opt_ms v = (case v of OTime sec usec \<Rightarrow> sec * 1000 + sgn usec * (\<bar>usec\<bar> div 1000) | _ \<Rightarrow> 0)"

text \<open>The conversion at the end of the message and its argument.\<close>

definition show_opt :: "('w, 'y) sock_api_scheme \<Rightarrow> int \<Rightarrow> int \<Rightarrow> opt_value \<Rightarrow> string \<times> parg" where
  "show_opt T level opt v =
     (if level = num T ''SOL_TLS'' \<and> opt = num T ''TLS_SEC_TAG_LIST'' then (''%s'', PStr (values_text show_int (opt_ints v)))
      else if level = num T ''SOL_TLS'' \<and> opt = num T ''TLS_CIPHERSUITE_LIST'' then
        (''%s'', PStr (values_text (\<lambda>x. ''0x'' @ hex_of_nat (unat (word_of_int x :: 32 word))) (opt_ints v)))
      else if level = num T ''SOL_TLS'' \<and> opt = num T ''TLS_HOSTNAME'' then (''%s'', PStr (cstr (take 63 (opt_str v))))
      else if level = num T ''SOL_SOCKET'' \<and> (opt = num T ''SO_RCVTIMEO'' \<or> opt = num T ''SO_SNDTIMEO'') then
        (''%d ms'', PInt (opt_ms v))
      else (''%d'', PInt (opt_int v)))"

definition sock_getopt :: "('w, 'y) sock_api_scheme \<Rightarrow> int \<Rightarrow> int \<Rightarrow> int \<Rightarrow> ('w, 'z, int) sock_prog" where
  "sock_getopt T socket_id level opt = do {
     slot \<leftarrow> get_socket_info_by_id T socket_id;
     case slot of
       None \<Rightarrow> return (- EINVAL)
     | Some i \<Rightarrow> do {
         d \<leftarrow> gets (info i);
         (err, v) \<leftarrow> call (get_opt T (sock_fd d) level opt);
         e \<leftarrow> ask (errno T);
         (if err = 0 then mosh_print T (''getsockopt() socket_id=%d, level=%d, option=%d, value='' @ fst (show_opt T level opt v))
            [PInt socket_id, PInt level, PInt opt, snd (show_opt T level opt v)]
          else mosh_error T ''getsockopt() socket_id=%d, level=%d, option=%d failed with error %d''
            [PInt socket_id, PInt level, PInt opt, PInt e]);
         return err
       }
   }"

fun list_sockets :: "('w, 'y) sock_api_scheme \<Rightarrow> nat \<Rightarrow> sock_info list \<Rightarrow> ('w, 'z, unit) sock_prog" where
  "list_sockets T i [] = return ()"
| "list_sockets T i (d # ds) = do {
     doif (in_use d) (mosh_print T ''Socket id=%d, fd=%d, family=%d, type=%d, port=%d, bind_port=%d, pdn=%d''
       [PInt (int i), PInt (sock_fd d), PInt (family d), PInt (sock_type d), PInt (port d), PInt (bind_port d), PInt (pdn_cid d)]);
     list_sockets T (Suc i) ds
   }"

definition sock_list :: "('w, 'y) sock_api_scheme \<Rightarrow> ('w, 'z, int) sock_prog" where
  "sock_list T = do {
     ss \<leftarrow> gets sockets;
     list_sockets T 0 ss;
     doif (\<not> list_ex in_use ss) (mosh_print T ''There are no open sockets'' []);
     return 0
   }"

subsection \<open>The program as a machine\<close>

datatype sock_cmd = Connect sock_args | Close int | Send int string send_args | Recv int bool int bool int | Rai int bool bool bool bool bool
  | Setopt int int int "string option" | Getopt int int int | Getaddrinfo int int string int | List

text \<open>A command, a turn of the poll thread, or the periodic work item of a socket.\<close>

datatype sock_event = Sock_command sock_cmd | Poll_turn | Periodic nat

text \<open>\<open>None\<close>: the step does not return.\<close>

definition run_sock_cmd :: "nat \<Rightarrow> ('w, 'y) sock_api_scheme \<Rightarrow> ('v, 'x) str_api_scheme \<Rightarrow> sock_cmd \<Rightarrow> ('w, 'z, bool) sock_prog" where
  "run_sock_cmd fuel T H c = (case c of
     Connect a \<Rightarrow> do { _ \<leftarrow> sock_open_and_connect T a; return True }
   | Close i \<Rightarrow> do { _ \<leftarrow> sock_close T i; return True }
   | Send i data a \<Rightarrow> do { res \<leftarrow> sock_send_data fuel T H i data a; return (res \<noteq> None) }
   | Recv i start len blocking fmt \<Rightarrow> do { _ \<leftarrow> sock_recv T i start len blocking fmt; return True }
   | Rai i b1 b2 b3 b4 b5 \<Rightarrow> do { _ \<leftarrow> sock_rai T i b1 b2 b3 b4 b5; return True }
   | Setopt i level opt v \<Rightarrow> do { _ \<leftarrow> sock_setopt T i level opt v; return True }
   | Getopt i level opt \<Rightarrow> do { _ \<leftarrow> sock_getopt T i level opt; return True }
   | Getaddrinfo fam typ host cid \<Rightarrow> do { _ \<leftarrow> sock_getaddrinfo T fam typ host cid; return True }
   | List \<Rightarrow> do { _ \<leftarrow> sock_list T; return True })"

definition sock_event_prog :: "nat \<Rightarrow> ('w, 'y) sock_api_scheme \<Rightarrow> ('v, 'x) str_api_scheme \<Rightarrow> sock_event \<Rightarrow> ('w, 'z, bool) sock_prog" where
  "sock_event_prog fuel T H e = (case e of
     Sock_command c \<Rightarrow> run_sock_cmd fuel T H c
   | Poll_turn \<Rightarrow> sock_receive_turn fuel T
   | Periodic i \<Rightarrow> do {
       n \<leftarrow> gets (\<lambda>s. length (sockets s));
       busy \<leftarrow> gets (\<lambda>s. work_busy (send_info (info i s)));
       if i < n \<and> busy then do { data_send_work_handler T i; return True } else return True
     })"

definition sock_step :: "nat \<Rightarrow> ('w, 'y) sock_api_scheme \<Rightarrow> ('v, 'x) str_api_scheme \<Rightarrow> ('w, 'z) sock_scheme \<Rightarrow> sock_event \<Rightarrow> ('w, 'z) sock_scheme" where
  "sock_step fuel T H s e = exec_state (sock_event_prog fuel T H e) s"

text \<open>The static variables at the start: every slot is zero.\<close>

definition sock_start :: "('w, 'y) sock_api_scheme \<Rightarrow> ('w, 'z) sock_scheme \<Rightarrow> ('w, 'z) sock_scheme" where
  "sock_start T s = s\<lparr>sockets := replicate (max_sockets T) zero_info, sock_receive_buffer := None, sock_sem := 0, recv_blocked := False,
     heap := \<lambda>_. None, next_block := 1, heap_fault := False\<rparr>"


subsection \<open>An instance\<close>

text \<open>A network that opens one descriptor after the other and takes at most 700 bytes at a time.\<close>

record sock_world =
  open_fds :: "int list"
  lists_held :: int
  taken :: int

definition next_fd :: "int list \<Rightarrow> int" where
  "next_fd xs = foldr max xs 2 + 1"

lemma le_foldr_max: "x \<in> set xs \<Longrightarrow> (x :: int) \<le> foldr max xs k"
  by (induction xs) auto

lemma next_fd_fresh: "next_fd xs \<notin> set xs"
  using le_foldr_max [of "next_fd xs" xs 2] by (auto simp: next_fd_def)

lemma next_fd_positive: "0 \<le> next_fd xs"
proof -
  have "2 \<le> foldr max xs (2 :: int)" by (induction xs) auto
  then show ?thesis by (simp add: next_fd_def)
qed

definition test_sock :: "sock_world sock_api" where
  "test_sock = \<lparr>clock_utc = (\<lambda>_. (\<lparr>tm_sec = 0, tm_min = 0, tm_hour = 0, tm_mday = 1, tm_mon = 0, tm_year = 125\<rparr>, 0)),
     vsnprintfcb = (\<lambda>n f _. (int (length f), take (n - 1) f)),
     ping_calloc = (\<lambda>w. (True, w)), ping_free = (\<lambda>w. w), socket_raw = (\<lambda>w. (-1, w)), errno = (\<lambda>_. 5),
     setsockopt = (\<lambda>_ _ w. (0, w)), send = (\<lambda>_ _ w. (-1, w)), set_nonblock = (\<lambda>_ w. w), poll_in = (\<lambda>_ _ w. (0, w)),
     recv = (\<lambda>_ _ w. ((0, []), w)), close_fd = (\<lambda>fd w. w\<lparr>open_fds := filter (\<lambda>x. x \<noteq> fd) (open_fds w)\<rparr>),
     k_uptime_get = (\<lambda>_. 1000), k_sleep = (\<lambda>_ w. w), k_poll_signal_check = (\<lambda>_ _. False), k_poll_signal_reset = (\<lambda>_ w. w),
     mosh_signal = 0, getaddrinfo = (\<lambda>_ _ _ _ w. ((1, V4 0), w)), freeaddrinfo = (\<lambda>_ w. w), inet_ntop = (\<lambda>_. []),
     link_api_pdp_contexts_read = (\<lambda>w. ((0, []), w)), link_api_rai_status = (\<lambda>w. (False, w)),
     lte_lc_register_ping_handler = (\<lambda>w. w), EAGAIN = 11, EWOULDBLOCK = 11, sys_getopt_long = (\<lambda>_. ([], 1)),
     malloc_ok = (\<lambda>w. (True, w)), iperf_main = (\<lambda>_ _ w. ((0, []), w)), th_shell_execute_cmd = (\<lambda>_ w. w),
     k_poll_signal_raise = (\<lambda>_ w. w), kill_signal_of = (\<lambda>k. k), ping_usage = [],
     max_sockets = 8, num = (\<lambda>c. int (length c)),
     getaddrinfo_list = (\<lambda>n _ _ _ w. ((0, [\<lparr>ai_family = 7, ai_text = n, ai_port = 0\<rparr>]), w\<lparr>lists_held := lists_held w + 1\<rparr>)),
     freeaddrinfo_list = (\<lambda>l w. if l = [] then w else w\<lparr>lists_held := lists_held w - 1\<rparr>), lte_lc_pdn_id_get = (\<lambda>_ _. 0),
     socket = (\<lambda>_ _ _ w. (next_fd (open_fds w), w\<lparr>open_fds := next_fd (open_fds w) # open_fds w\<rparr>)), bind_any = (\<lambda>_ _ _ w. (0, w)),
     connect = (\<lambda>_ _ w. (0, w)), set_opt = (\<lambda>_ _ _ _ w. (0, w)), get_opt = (\<lambda>_ _ _ w. ((0, OInt 0), w)),
     fcntl_getfl = (\<lambda>_ _. 0), fcntl_setfl = (\<lambda>_ _ w. w), O_NONBLOCK = 4,
     sock_tx = (\<lambda>_ bs _ w. (int (min 700 (length bs)), w\<lparr>taken := taken w + int (min 700 (length bs))\<rparr>)),
     sock_rx = (\<lambda>_ _ w. ((0, []), w)), sock_poll = (\<lambda>_ w. ((0, []), w)), seconds = (\<lambda>_. []), throughput = (\<lambda>_ _. [])\<rparr>"

definition sock_boot :: "sock_world sock" where
  "sock_boot = \<lparr>world = \<lparr>open_fds = [], lists_held = 0, taken = 0\<rparr>,
     at_cmd_mode_dont_print = False, mosh_print_timestamp_use = False, mosh_print_cloud_echo = False,
     console = [], cloud_out = [], aborted = False, seqnr = 0, start_t = 0,
     network_reg_status_updated_uptime = 0, print_out = [], th_work_data_1 = no_data, th_work_data_2 = no_data,
     heap = (\<lambda>_. None), next_block = 1, heap_fault = False, sockets = [], sock_receive_buffer = None, sock_sem = 0,
     recv_blocked = False\<rparr>"

definition test_str :: "unit str_api" where
  "test_str = print_api.extend plain_print (str_api.fields (\<lambda>_ _. []) (\<lambda>_. 0) (\<lambda>_. 0))"

end
