(* ===== verification/Mosh_Sock_Table.thy ===== *)
theory Mosh_Sock_Table
  imports Mosh_Sock
begin

section \<open>The table of sockets (\<open>sock.c\<close>)\<close>

text \<open>
  What the commands, the poll thread and the periodic work items keep of the table of sockets: which
  descriptors and address lists its slots own. An operation that opens or closes nothing leaves the
  \<open>view\<close> of the table alone (the rules of \<open>view_intros\<close>); opening is followed step by step from the
  reserved slot (\<open>in_slot\<close>) to the open or the cleared one.
\<close>

subsection \<open>The table\<close>

text \<open>
  Contract of the network: a new descriptor is not in use, closing one takes it back,
  a list of addresses lives until it is freed, and no other call opens or closes a descriptor or
  makes a list.
\<close>

definition quiet :: "('w, 'y) sock_api_scheme \<Rightarrow> ('w \<Rightarrow> 'b) \<Rightarrow> 'w \<Rightarrow> bool" where
  "quiet T g w \<longleftrightarrow>
     (\<forall>fd x y. g (snd (bind_any T fd x y w)) = g w) \<and> (\<forall>fd x. g (snd (connect T fd x w)) = g w) \<and>
     (\<forall>fd x y z. g (snd (set_opt T fd x y z w)) = g w) \<and> (\<forall>fd x y. g (snd (get_opt T fd x y w)) = g w) \<and>
     (\<forall>fd x. g (fcntl_setfl T fd x w) = g w) \<and> (\<forall>fd x y. g (snd (sock_tx T fd x y w)) = g w) \<and>
     (\<forall>fd x. g (snd (sock_rx T fd x w)) = g w) \<and> (\<forall>x. g (snd (sock_poll T x w)) = g w) \<and>
     g (snd (link_api_pdp_contexts_read T w)) = g w \<and> (\<forall>fd x. g (snd (setsockopt T fd x w)) = g w) \<and>
     (\<forall>x. g (k_poll_signal_reset T x w) = g w) \<and> g (snd (malloc_ok T w)) = g w"

definition descriptors :: "('w, 'y) sock_api_scheme \<Rightarrow> ('w \<Rightarrow> int set) \<Rightarrow> ('w \<Rightarrow> int) \<Rightarrow> bool" where
  "descriptors T fds als \<longleftrightarrow>
     (\<forall>f t p w. case socket T f t p w of (fd, w') \<Rightarrow> als w' = als w \<and>
        (if fd < 0 then fds w' = fds w else fd \<notin> fds w \<and> fds w' = insert fd (fds w))) \<and>
     (\<forall>fd w. fds (close_fd T fd w) = fds w - {fd} \<and> als (close_fd T fd w) = als w) \<and>
     (\<forall>n s f t w. case getaddrinfo_list T n s f t w of ((err, ai), w') \<Rightarrow> fds w' = fds w \<and>
        als w' = als w + (if err = 0 then 1 else 0) \<and> (err = 0 \<longrightarrow> ai \<noteq> [])) \<and>
     (\<forall>ai w. fds (freeaddrinfo_list T ai w) = fds w \<and>
        als (freeaddrinfo_list T ai w) = als w - (if ai = [] then 0 else 1)) \<and>
     (\<forall>w. quiet T fds w) \<and> (\<forall>w. quiet T als w)"

type_synonym entry = "int \<times> int \<times> bool \<times> addrinfo list"

definition core :: "sock_info \<Rightarrow> entry" where
  "core d = (sock_id d, sock_fd d, in_use d, addrs d)"

text \<open>What the properties of the table are about.\<close>

record view =
  entries :: "entry list"
  v_fds :: "int set"
  v_lists :: int
  v_sem :: nat
  v_blocked :: bool

definition view :: "('w \<Rightarrow> int set) \<Rightarrow> ('w \<Rightarrow> int) \<Rightarrow> ('w, 'z) sock_scheme \<Rightarrow> view" where
  "view fds als s = \<lparr>entries = map core (sockets s), v_fds = fds (world s), v_lists = als (world s),
     v_sem = sock_sem s, v_blocked = recv_blocked s\<rparr>"

definition e_id :: "entry \<Rightarrow> int" where "e_id e = fst e"
definition e_fd :: "entry \<Rightarrow> int" where "e_fd e = fst (snd e)"
definition e_use :: "entry \<Rightarrow> bool" where "e_use e = fst (snd (snd e))"
definition e_addrs :: "entry \<Rightarrow> addrinfo list" where "e_addrs e = snd (snd (snd e))"

lemmas entry_defs = e_id_def e_fd_def e_use_def e_addrs_def core_def

definition used_fds :: "entry list \<Rightarrow> int list" where
  "used_fds es = map e_fd (filter e_use es)"

text \<open>
  \<open>table_ok n F L X v\<close>: the table has \<open>n\<close> slots, \<open>F\<close> are the descriptors of other parts of the program
  and \<open>L\<close> is the number of their lists; the slots \<open>X\<close> are being opened. A free slot has no descriptor
  (0 when it was never used, and then no slot after it was), and the poll thread does not wait for
  ever while a socket is open.
\<close>

definition slot_ok :: "nat set \<Rightarrow> entry list \<Rightarrow> nat \<Rightarrow> bool" where
  "slot_ok X es i \<longleftrightarrow>
     (e_use (es ! i) \<longrightarrow> e_id (es ! i) = int i \<and> 0 \<le> e_fd (es ! i)) \<and>
     (\<not> e_use (es ! i) \<longrightarrow> e_fd (es ! i) \<le> 0 \<and> (e_fd (es ! i) = 0 \<longrightarrow> (\<forall>j<length es. i < j \<longrightarrow> \<not> e_use (es ! j)))) \<and>
     (i \<in> X \<longrightarrow> e_id (es ! i) = int i \<and> (\<forall>j<i. e_use (es ! j))) \<and>
     (i \<notin> X \<longrightarrow> \<not> e_use (es ! i) \<longrightarrow> e_addrs (es ! i) = [])"

text \<open>What the slots own, apart from what each of them is.\<close>

definition owned :: "int set \<Rightarrow> int \<Rightarrow> view \<Rightarrow> bool" where
  "owned F L v \<longleftrightarrow>
     distinct (used_fds (entries v)) \<and> v_fds v = F \<union> set (used_fds (entries v)) \<and> F \<inter> set (used_fds (entries v)) = {} \<and>
     v_lists v = L + int (length (filter (\<lambda>e. e_addrs e \<noteq> []) (entries v)))"

definition table_ok :: "nat \<Rightarrow> int set \<Rightarrow> int \<Rightarrow> nat set \<Rightarrow> view \<Rightarrow> bool" where
  "table_ok n F L X v \<longleftrightarrow> length (entries v) = n \<and> (\<forall>i<n. slot_ok X (entries v) i) \<and> owned F L v \<and>
     (v_blocked v \<longrightarrow> 0 < v_sem v \<or> (\<forall>i<n. i \<notin> X \<longrightarrow> \<not> e_use (entries v ! i)))"

subsection \<open>Operations that leave the table alone\<close>

named_theorems view_intros \<open>operations that leave the view of the table alone\<close>

lemma core_kept:
  assumes "\<And>d. core (g d) = core d"
  shows "map core (ss[i := g (ss ! i)]) = map core ss"
proof (cases "i < length ss")
  case True
  then have "core (ss ! i) = map core ss ! i" by simp
  then have "map core (ss[i := g (ss ! i)]) = (map core ss)[i := map core ss ! i]"
    by (simp only: map_update assms)
  then show ?thesis by (simp only: list_update_id)
qed (simp add: list_update_beyond)

lemma view_cong [simp]:
  "view fds als (s\<lparr>console := c\<rparr>) = view fds als s" "view fds als (s\<lparr>cloud_out := l\<rparr>) = view fds als s"
  "view fds als (s\<lparr>aborted := b\<rparr>) = view fds als s" "view fds als (s\<lparr>heap := h\<rparr>) = view fds als s"
  "view fds als (s\<lparr>next_block := n\<rparr>) = view fds als s" "view fds als (s\<lparr>heap_fault := b\<rparr>) = view fds als s"
  "view fds als (s\<lparr>sock_receive_buffer := p\<rparr>) = view fds als s"
  by (simp_all add: view_def)

lemma view_upd_info [view_intros]: "(\<And>d. core (g d) = core d) \<Longrightarrow> keeps (view fds als) (upd_info i g)"
  unfolding upd_info_def by (rule keeps_modify) (simp add: view_def core_kept)

lemma view_modify [view_intros]: "(\<And>s. view fds als (g s) = view fds als s) \<Longrightarrow> keeps (view fds als) (modify g)"
  by (rule keeps_modify)

lemma view_call [view_intros]:
  "(\<And>w. fds (snd (h w)) = fds w) \<Longrightarrow> (\<And>w. als (snd (h w)) = als w) \<Longrightarrow> keeps (view fds als) (call h)"
  by (simp add: keeps_def exec_simps view_def)

lemma view_act [view_intros]:
  "(\<And>w. fds (h w) = fds w) \<Longrightarrow> (\<And>w. als (h w) = als w) \<Longrightarrow> keeps (view fds als) (act h)"
  by (simp add: keeps_def exec_simps view_def)

lemmas view_basic [view_intros] = keeps_return keeps_bind keeps_if keeps_doif keeps_ask keeps_gets keeps_option keeps_prod keeps_Let
  keeps_abort keeps_mosh_print

lemma view_opt_value [view_intros]:
  assumes "\<And>x. keeps f (p x)" "\<And>x. keeps f (q x)" shows "keeps f (case y of Send_buffer \<Rightarrow> p () | Bytes b \<Rightarrow> q b)"
  using assms by (cases y) simp_all

lemma quiet_facts:
  assumes "descriptors T fds als"
  shows "\<And>w. quiet T fds w" "\<And>w. quiet T als w"
  using assms by (simp_all add: descriptors_def)

lemma view_heap [view_intros]:
  "keeps (view fds als) fault" "keeps (view fds als) (free p)" "keeps (view fds als) (write_send_buffer i bs)"
proof -
  show f: "keeps (view fds als) fault" unfolding fault_def by (intro view_intros) simp_all
  show "keeps (view fds als) (free p)" unfolding free_def by (intro view_intros f) simp_all
  show "keeps (view fds als) (write_send_buffer i bs)" unfolding write_send_buffer_def by (intro view_intros f) simp_all
qed

lemma view_malloc [view_intros]:
  assumes "descriptors T fds als" shows "keeps (view fds als) (malloc T b)"
  unfolding malloc_def by (intro view_intros) (use quiet_facts [OF assms, unfolded quiet_def] in simp_all)

lemma view_list_case [view_intros]:
  "keeps f p \<Longrightarrow> (\<And>x xs. keeps f (q x xs)) \<Longrightarrow> keeps f (case y of [] \<Rightarrow> p | x # xs \<Rightarrow> q x xs)"
  by (simp split: list.split)

lemma view_prints [view_intros]:
  "keeps (view fds als) (mosh_print P fmt args)" "keeps (view fds als) (mosh_warn P fmt args)"
  "keeps (view fds als) (mosh_error P fmt args)" "keeps (view fds als) (abort x)"
  by (intro keeps_mosh_print keeps_abort; simp)+

lemma view_fields:
  "keeps (view fds als) (cancel_work i)" "keeps (view fds als) (schedule_work i)"
  unfolding cancel_work_def schedule_work_def by (intro view_intros; simp add: core_def)+

lemma quiet_plain:
  assumes "descriptors T fds als"
  shows "fds (snd (bind_any T fd x y w)) = fds w" "als (snd (bind_any T fd x y w)) = als w"
    "fds (snd (connect T fd ad w)) = fds w" "als (snd (connect T fd ad w)) = als w"
    "fds (snd (set_opt T fd x y z w)) = fds w" "als (snd (set_opt T fd x y z w)) = als w"
    "fds (snd (get_opt T fd x y w)) = fds w" "als (snd (get_opt T fd x y w)) = als w"
    "fds (fcntl_setfl T fd fl w) = fds w" "als (fcntl_setfl T fd fl w) = als w"
    "fds (snd (sock_tx T fd bs x w)) = fds w" "als (snd (sock_tx T fd bs x w)) = als w"
    "fds (snd (sock_rx T fd n w)) = fds w" "als (snd (sock_rx T fd n w)) = als w"
    "fds (snd (sock_poll T l w)) = fds w" "als (snd (sock_poll T l w)) = als w"
    "fds (snd (link_api_pdp_contexts_read T w)) = fds w" "als (snd (link_api_pdp_contexts_read T w)) = als w"
    "fds (snd (setsockopt T fd o' w)) = fds w" "als (snd (setsockopt T fd o' w)) = als w"
    "fds (k_poll_signal_reset T n w) = fds w" "als (k_poll_signal_reset T n w) = als w"
    "fds (snd (malloc_ok T w)) = fds w" "als (snd (malloc_ok T w)) = als w"
  using quiet_facts [OF assms] unfolding quiet_def by metis+

lemma view_closed [view_intros]:
  "keeps (view fds als) (get_socket_id_by_fd fd)" "keeps (view fds als) (sock_send_buffer_free i)"
  "keeps (view fds als) (start_chunk i)" "keeps (view fds als) (strlen_send_buffer i)"
  unfolding get_socket_id_by_fd_def sock_send_buffer_free_def start_chunk_def strlen_send_buffer_def
  by (intro view_intros; simp add: core_def)+

lemma view_slots [view_intros]:
  assumes d: "descriptors T fds als"
  shows "keeps (view fds als) (sock_get_blocking_mode T fd)" "keeps (view fds als) (set_sock_blocking_mode T fd b)" "keeps (view fds als) (get_socket_info_by_id T k)"
  unfolding sock_get_blocking_mode_def set_sock_blocking_mode_def get_socket_info_by_id_def
  by (intro view_intros d view_fields; simp add: core_def quiet_plain [OF d])+

lemma view_nonblocking [view_intros]:
  assumes d: "descriptors T fds als"
  shows "keeps (view fds als) (set_nonblocking T ss)" "keeps (view fds als) (sock_all_set_nonblocking T)"
proof -
  show n: "keeps (view fds als) (set_nonblocking T ss)" for ss
    by (induction ss) (auto intro!: view_intros d)
  show "keeps (view fds als) (sock_all_set_nonblocking T)"
    unfolding sock_all_set_nonblocking_def by (intro view_intros n)
qed

lemma view_buffers [view_intros]:
  assumes d: "descriptors T fds als"
  shows "keeps (view fds als) (sock_send_buffer_calloc T i n)"
  unfolding sock_send_buffer_calloc_def
  by (intro view_intros d view_fields; simp add: core_def quiet_plain [OF d])+

lemma view_options [view_intros]:
  assumes d: "descriptors T fds als"
  shows "keeps (view fds als) (option_step T fd opt v msg)" "keeps (view fds als) (sock_bind T fd fam bprt)" "keeps (view fds als) (sock_validate_parameters T fam typ prt bprt sec tag)" "keeps (view fds als) (sock_bind_to_pdp_context T i cid)"
  unfolding option_step_def sock_bind_def sock_validate_parameters_def sock_bind_to_pdp_context_def net_utils_socket_pdn_id_set_def
  by (intro view_intros d view_fields; simp add: core_def quiet_plain [OF d])+

lemma view_andthen [view_intros]: "keeps f p \<Longrightarrow> keeps f q \<Longrightarrow> keeps f (andthen p q)"
  unfolding andthen_def by (intro view_intros)

lemma view_tls [view_intros]:
  assumes d: "descriptors T fds als"
  shows "keeps (view fds als) (sock_set_tls_options T fd tag sc pv ph cid fe)"
  unfolding sock_set_tls_options_def
  by (intro view_intros d view_fields; simp add: core_def quiet_plain [OF d])+

lemma view_prepare [view_intros]:
  assumes d: "descriptors T fds als"
  shows "keeps (view fds als) (prepare_socket T i a)" "keeps (view fds als) (connect_socket T i a)"
  unfolding prepare_socket_def connect_socket_def
  by (intro view_intros d view_fields; simp add: core_def quiet_plain [OF d])+

lemma view_summary [view_intros]:
  assumes d: "descriptors T fds als"
  shows "keeps (view fds als) (print_throughput_summary T n ms)"
  unfolding print_throughput_summary_def
  by (intro view_intros d view_fields; simp add: core_def quiet_plain [OF d])+

lemma view_hex [view_intros]:
  assumes d: "descriptors T fds als"
  shows "keeps (view fds als) (sock_print_data_hex T bs)"
proof (induction T bs rule: sock_print_data_hex.induct)
  case (1 T bs)
  then show ?case by (subst sock_print_data_hex.simps) (auto intro!: view_intros)
qed

lemma view_send [view_intros]:
  assumes d: "descriptors T fds als"
  shows "keeps (view fds als) (number_packet T i)" "keeps (view fds als) (log_sent T bs len hx)" "keeps (view fds als) (sock_send T i what len lg hx)"
  unfolding number_packet_def log_sent_def sock_send_def
  by (intro view_intros d view_fields; simp add: core_def quiet_plain [OF d])+

lemma view_work [view_intros]:
  assumes d: "descriptors T fds als"
  shows "keeps (view fds als) (data_send_work_handler T i)"
  unfolding data_send_work_handler_def
  by (intro view_intros d view_fields; simp add: core_def quiet_plain [OF d])+

lemma view_random [view_intros]:
  assumes d: "descriptors T fds als"
  shows "keeps (view fds als) (print_progress T i)" "keeps (view fds als) (finish_random T i)"
  unfolding print_progress_def finish_random_def
  by (intro view_intros d view_fields; simp add: core_def quiet_plain [OF d])+

lemma view_random_data [view_intros]:
  assumes d: "descriptors T fds als"
  shows "keeps (view fds als) (sock_send_random_data_length fuel T i)"
  by (induction fuel) (auto intro!: view_intros d simp: core_def)

lemma view_send_data [view_intros]:
  assumes d: "descriptors T fds als"
  shows "keeps (view fds als) (start_random T i len d a)" "keeps (view fds als) (send_random fuel T i a)" "keeps (view fds als) (stop_periodic T i)" "keeps (view fds als) (start_periodic T i bs a)" "keeps (view fds als) (sock_send_data fuel T H k bs a)"
  unfolding start_random_def send_random_def stop_periodic_def start_periodic_def sock_send_data_def
  by (intro view_intros d view_fields; simp add: core_def quiet_plain [OF d])+

lemma view_receive [view_intros]:
  assumes d: "descriptors T fds als"
  shows "keeps (view fds als) (receive_buffer T)" "keeps (view fds als) (count_received T i n)" "keeps (view fds als) (handle_pollin T i)" "keeps (view fds als) (sock_recv T k st dl bl pf)"
  unfolding receive_buffer_def count_received_def handle_pollin_def sock_recv_def
  by (intro view_intros d view_fields; simp add: core_def quiet_plain [OF d])+

lemma view_rai_option [view_intros]:
  assumes d: "descriptors T fds als"
  shows "keeps (view fds als) (sock_rai_option_set T fd opt)"
  unfolding sock_rai_option_set_def
  by (intro view_intros d view_fields; simp add: core_def quiet_plain [OF d])+

lemma view_rai_options [view_intros]:
  assumes d: "descriptors T fds als"
  shows "keeps (view fds als) (set_rai_options T fd xs)"
  by (induction xs) (auto intro!: view_intros d)

lemma view_opts [view_intros]:
  assumes d: "descriptors T fds als"
  shows "keeps (view fds als) (sock_rai T k b1 b2 b3 b4 b5)" "keeps (view fds als) (sock_setopt T k lv opt v)" "keeps (view fds als) (sock_getopt T k lv opt)"
  unfolding sock_rai_def sock_setopt_def sock_getopt_def
  by (intro view_intros d view_fields; simp add: core_def quiet_plain [OF d])+

lemma view_list [view_intros]:
  "keeps (view fds als) (list_sockets T i ss)" "keeps (view fds als) (sock_list T)" "keeps (view fds als) (print_answers T l)"
proof -
  show s: "keeps (view fds als) (list_sockets T i ss)" for i ss
    by (induction ss arbitrary: i) (auto intro!: view_intros)
  show "keeps (view fds als) (sock_list T)" unfolding sock_list_def by (intro view_intros s)
  show "keeps (view fds als) (print_answers T l)" by (induction l) (auto intro!: view_intros)
qed


subsection \<open>Operations that change it\<close>

definition put :: "nat \<Rightarrow> entry \<Rightarrow> view \<Rightarrow> view" where
  "put i e v = v\<lparr>entries := (entries v)[i := e]\<rparr>"

definition clear_view :: "nat \<Rightarrow> view \<Rightarrow> view" where
  "clear_view i v = (let e = entries v ! i in
     put i (-1, -1, False, []) (v\<lparr>v_fds := (if e_use e then v_fds v - {e_fd e} else v_fds v),
       v_lists := v_lists v - (if e_addrs e = [] then 0 else 1)\<rparr>))"

lemma put_simps [simp]:
  "entries (put i e v) = (entries v)[i := e]" "v_fds (put i e v) = v_fds v" "v_lists (put i e v) = v_lists v"
  "v_sem (put i e v) = v_sem v" "v_blocked (put i e v) = v_blocked v"
  by (simp_all add: put_def)

lemma split_at:
  assumes "i < length es"
  obtains A B where "es = A @ es ! i # B" "\<And>e. es[i := e] = A @ e # B"
proof -
  have "es = take i es @ es ! i # drop (Suc i) es" using assms by (rule id_take_nth_drop)
  moreover have "es[i := e] = take i es @ e # drop (Suc i) es" for e using assms by (rule upd_conv_take_nth_drop)
  ultimately show ?thesis using that by blast
qed

lemma owned_put:
  assumes "owned F L v" "i < length (entries v)" "e_use e = e_use (entries v ! i)" "e_fd e = e_fd (entries v ! i)"
  shows "owned F L (put i e (v\<lparr>v_lists := v_lists v + (if e_addrs e = [] then 0 else 1) - (if e_addrs (entries v ! i) = [] then 0 else 1)\<rparr>))"
proof -
  obtain A B where es: "entries v = A @ entries v ! i # B" "(entries v)[i := e] = A @ e # B"
    using assms(2) by (rule split_at) blast
  have u: "used_fds (A @ e # B) = used_fds (entries v)"
    by (subst es(1)) (simp add: used_fds_def assms(3,4))
  have "length (filter (\<lambda>e. e_addrs e \<noteq> []) (entries v)) = length (filter (\<lambda>e. e_addrs e \<noteq> []) (A @ entries v ! i # B))"
    using es(1) by simp
  then show ?thesis using assms(1) by (simp add: owned_def u es(2) del: filter_append) simp
qed

lemma owned_open:
  assumes "owned F L v" "i < length (entries v)" "\<not> e_use (entries v ! i)" "e_use e" "e_addrs e = e_addrs (entries v ! i)"
    "e_fd e \<notin> v_fds v"
  shows "owned F L (put i e (v\<lparr>v_fds := insert (e_fd e) (v_fds v)\<rparr>))"
proof -
  obtain A B where es: "entries v = A @ entries v ! i # B" "(entries v)[i := e] = A @ e # B"
    using assms(2) by (rule split_at) blast
  have u: "used_fds (entries v) = used_fds A @ used_fds B" by (subst es(1)) (simp add: used_fds_def assms(3))
  have u': "used_fds ((entries v)[i := e]) = used_fds A @ e_fd e # used_fds B" by (simp add: es(2) used_fds_def assms(4))
  have l: "length (filter (\<lambda>e. e_addrs e \<noteq> []) (entries v)) = length (filter (\<lambda>e. e_addrs e \<noteq> []) ((entries v)[i := e]))"
    by (subst es(1)) (simp add: es(2) assms(5))
  show ?thesis using assms(1,6) by (auto simp: owned_def u u' l [symmetric])
qed

lemma owned_clear:
  assumes "owned F L v" "i < length (entries v)"
  shows "owned F L (clear_view i v)"
proof -
  let ?x = "entries v ! i"
  obtain A B where es: "entries v = A @ ?x # B" "\<And>e. (entries v)[i := e] = A @ e # B"
    using assms(2) by (rule split_at) blast
  have u: "used_fds (entries v) = used_fds A @ (if e_use ?x then [e_fd ?x] else []) @ used_fds B"
    by (subst es(1)) (simp add: used_fds_def)
  have u': "used_fds ((entries v)[i := (-1, -1, False, [])]) = used_fds A @ used_fds B"
    by (simp add: es(2) used_fds_def entry_defs)
  have l: "length (filter (\<lambda>e. e_addrs e \<noteq> []) (entries v)) =
      length (filter (\<lambda>e. e_addrs e \<noteq> []) ((entries v)[i := (-1, -1, False, [])])) + (if e_addrs ?x = [] then 0 else 1)"
    by (subst es(1)) (simp add: es(2) entry_defs)
  show ?thesis using assms(1) by (auto simp: owned_def clear_view_def Let_def u u' l split: if_splits)
qed

lemma slot_other:
  assumes "slot_ok X es j" "j \<noteq> i" "X \<subseteq> {i}" "Y \<subseteq> {i}" "e_use e \<Longrightarrow> e_use (es ! i) \<or> (\<forall>k<i. e_use (es ! k))"
  shows "slot_ok Y (es[i := e]) j"
proof -
  have "e_fd (es ! j) = 0 \<longrightarrow> \<not> e_use (es ! j) \<longrightarrow> (\<forall>k<length es. j < k \<longrightarrow> \<not> e_use (es[i := e] ! k))"
  proof (intro impI allI)
    fix k assume k: "e_fd (es ! j) = 0" "\<not> e_use (es ! j)" "k < length es" "j < k"
    then have *: "\<forall>l<length es. j < l \<longrightarrow> \<not> e_use (es ! l)" using assms(1) by (simp add: slot_ok_def)
    show "\<not> e_use (es[i := e] ! k)"
    proof (cases "k = i")
      case True
      then have "\<not> e_use e" using * k assms(5) by blast
      then show ?thesis using True k by simp
    next
      case False then show ?thesis using * k by simp
    qed
  qed
  moreover have "j \<notin> X" "j \<notin> Y" using assms(2-4) by auto
  ultimately show ?thesis using assms(1,2) by (simp add: slot_ok_def)
qed

lemma table_okI:
  assumes "length (entries v) = n" "owned F L v" "\<And>j. j < n \<Longrightarrow> slot_ok X (entries v) j"
    "\<And>j. v_blocked v \<Longrightarrow> v_sem v = 0 \<Longrightarrow> j < n \<Longrightarrow> j \<notin> X \<Longrightarrow> \<not> e_use (entries v ! j)"
  shows "table_ok n F L X v"
  using assms by (auto simp: table_ok_def)

lemma table_ok_facts:
  assumes "table_ok n F L X v"
  shows "length (entries v) = n" "owned F L v" "i < n \<Longrightarrow> slot_ok X (entries v) i"
    "v_blocked v \<Longrightarrow> v_sem v = 0 \<Longrightarrow> i < n \<Longrightarrow> i \<notin> X \<Longrightarrow> \<not> e_use (entries v ! i)"
  using assms by (auto simp: table_ok_def)

lemma table_clear:
  assumes t: "table_ok n F L X v" "X \<subseteq> {i}" "i < n"
  shows "table_ok n F L {} (clear_view i v)"
proof (rule table_okI)
  note f = table_ok_facts [OF t(1)]
  show "length (entries (clear_view i v)) = n" by (simp add: clear_view_def Let_def f(1))
  show "owned F L (clear_view i v)" using f(1,2) t(3) by (simp add: owned_clear)
  fix j assume j: "j < n"
  show "slot_ok {} (entries (clear_view i v)) j"
  proof (cases "j = i")
    case True then show ?thesis using j by (simp add: slot_ok_def clear_view_def Let_def f(1) entry_defs)
  next
    case False then show ?thesis
      unfolding clear_view_def Let_def put_simps
      by (simp, intro slot_other [OF f(3) [OF j] _ t(2)]) (simp_all add: entry_defs)
  qed
  assume "v_blocked (clear_view i v)" "v_sem (clear_view i v) = 0"
  then show "\<not> e_use (entries (clear_view i v) ! j)"
    using f(4) [OF _ _ j] t(2) j by (cases "j = i") (auto simp: clear_view_def Let_def f(1) e_use_def)
qed

text \<open>A slot that is being opened: reserved, given a list, given a descriptor, open.\<close>

lemma table_claim:
  assumes t: "table_ok n F L {} v" "i < n" "entries v ! i = (-1, -1, False, [])" "\<forall>j<i. e_use (entries v ! j)"
  shows "table_ok n F L {i} (put i (int i, -1, False, []) v)"
proof (rule table_okI)
  note f = table_ok_facts [OF t(1)]
  have w: "v\<lparr>v_lists := v_lists v\<rparr> = v" by simp
  show "length (entries (put i (int i, -1, False, []) v)) = n" by (simp add: f(1))
  show "owned F L (put i (int i, -1, False, []) v)"
    using owned_put [OF f(2), of i "(int i, -1, False, [])"] by (simp add: f(1) t(2,3) entry_defs)
  fix j assume j: "j < n"
  show "slot_ok {i} (entries (put i (int i, -1, False, []) v)) j"
  proof (cases "j = i")
    case True then show ?thesis using f(3) [OF t(2)] j t by (simp add: slot_ok_def f(1) entry_defs)
  next
    case False then show ?thesis
      unfolding put_simps by (intro slot_other [OF f(3) [OF j]]) (simp_all add: entry_defs)
  qed
  assume "v_blocked (put i (int i, -1, False, []) v)" "v_sem (put i (int i, -1, False, []) v) = 0" "j \<notin> {i}"
  then show "\<not> e_use (entries (put i (int i, -1, False, []) v) ! j)"
    using f(4) [OF _ _ j] by simp
qed

lemma table_addrs:
  assumes t: "table_ok n F L {i} v" "i < n" "e_id e = e_id (entries v ! i)" "e_fd e = e_fd (entries v ! i)"
    "e_use e = e_use (entries v ! i)"
  shows "table_ok n F L {i} (put i e (v\<lparr>v_lists := v_lists v + (if e_addrs e = [] then 0 else 1) - (if e_addrs (entries v ! i) = [] then 0 else 1)\<rparr>))"
    (is "table_ok n F L {i} ?v")
proof (rule table_okI)
  note f = table_ok_facts [OF t(1)]
  show "length (entries ?v) = n" by (simp add: f(1))
  show "owned F L ?v" by (rule owned_put [OF f(2)]) (simp_all add: f(1) t)
  fix j assume j: "j < n"
  show "slot_ok {i} (entries ?v) j"
  proof (cases "j = i")
    case True then show ?thesis using f(3) [OF t(2)] j t by (simp add: slot_ok_def f(1))
  next
    case False then show ?thesis
      unfolding put_simps by (simp, intro slot_other [OF f(3) [OF j]]) (simp_all add: t(5))
  qed
  assume "v_blocked ?v" "v_sem ?v = 0" "j \<notin> {i}"
  then show "\<not> e_use (entries ?v ! j)" using f(4) [OF _ _ j] by simp
qed

lemma table_open:
  assumes t: "table_ok n F L {i} v" "i < n" "e_id e = e_id (entries v ! i)" "e_addrs e = e_addrs (entries v ! i)"
    "\<not> e_use (entries v ! i)" "e_use e" "0 \<le> e_fd e" "e_fd e \<notin> v_fds v"
  shows "table_ok n F L {i} (put i e (v\<lparr>v_fds := insert (e_fd e) (v_fds v)\<rparr>))" (is "table_ok n F L {i} ?v")
proof (rule table_okI)
  note f = table_ok_facts [OF t(1)]
  show "length (entries ?v) = n" by (simp add: f(1))
  show "owned F L ?v" by (rule owned_open [OF f(2)]) (simp_all add: f(1) t)
  fix j assume j: "j < n"
  show "slot_ok {i} (entries ?v) j"
  proof (cases "j = i")
    case True then show ?thesis using f(3) [OF t(2)] j t by (simp add: slot_ok_def f(1))
  next
    case False then show ?thesis
      unfolding put_simps by (simp, intro slot_other [OF f(3) [OF j]]) (use f(3) [OF t(2)] in \<open>simp_all add: slot_ok_def\<close>)
  qed
  assume "v_blocked ?v" "v_sem ?v = 0" "j \<notin> {i}"
  then show "\<not> e_use (entries ?v ! j)" using f(4) [OF _ _ j] by simp
qed

lemma table_opened:
  assumes t: "table_ok n F L {i} v" "i < n" "e_use (entries v ! i)" "0 < m"
  shows "table_ok n F L {} (v\<lparr>v_sem := m\<rparr>)"
proof (rule table_okI)
  note f = table_ok_facts [OF t(1)]
  show "length (entries (v\<lparr>v_sem := m\<rparr>)) = n" by (simp add: f(1))
  show "owned F L (v\<lparr>v_sem := m\<rparr>)" using f(2) by (simp add: owned_def)
  show "slot_ok {} (entries (v\<lparr>v_sem := m\<rparr>)) j" if "j < n" for j
    using f(3) [OF that] t(3) by (auto simp: slot_ok_def split: if_splits)
qed (use t(4) in simp)

lemma entry_at: "i < length (sockets s) \<Longrightarrow> entries (view fds als s) ! i = core (info i s)"
  by (simp add: view_def info_def)

lemma length_entries [simp]: "length (entries (view fds als s)) = length (sockets s)"
  by (simp add: view_def)

definition release :: "('w, 'y) sock_api_scheme \<Rightarrow> nat \<Rightarrow> sock_info \<Rightarrow> ('w, 'z, unit) sock_prog" where
  "release T i d = do {
     doif (in_use d) (act (close_fd T (sock_fd d)));
     act (freeaddrinfo_list T (addrs d));
     upd_info i (\<lambda>d. cleared_info)
   }"

lemma exec_upd_info: "exec_state (upd_info i f) s = s\<lparr>sockets := (sockets s)[i := f (sockets s ! i)]\<rparr>"
  by (simp add: upd_info_def exec_simps)

lemma view_release:
  assumes "descriptors T fds als" "core d = entries (view fds als s) ! i"
  shows "view fds als (exec_state (release T i d) s) = clear_view i (view fds als s)"
proof -
  have e: "e_use (entries (view fds als s) ! i) = in_use d" "e_fd (entries (view fds als s) ! i) = sock_fd d"
    "e_addrs (entries (view fds als s) ! i) = addrs d"
    by (simp_all add: assms(2) [symmetric] entry_defs)
  have c: "core cleared_info = (-1, -1, False, [])"
    by (simp add: core_def cleared_info_def zero_info_def SOCK_ID_NONE_def SOCK_FD_NONE_def)
  have w: "fds (close_fd T fd w) = fds w - {fd}" "als (close_fd T fd w) = als w"
    "fds (freeaddrinfo_list T ai w) = fds w" "als (freeaddrinfo_list T ai w) = als w - (if ai = [] then 0 else 1)" for fd ai w
    using assms(1) by (simp_all add: descriptors_def)
  show ?thesis
    unfolding release_def clear_view_def Let_def e
    by (simp add: exec_simps exec_upd_info view_def put_def map_update c w)
qed

lemma view_clear:
  fixes s :: "('w, 'z) sock_scheme"
  assumes "descriptors T fds als" "i < length (sockets s)"
  shows "view fds als (exec_state (sock_info_clear T i) s) = clear_view i (view fds als s)"
proof -
  define pre :: "('w, 'z, unit) sock_prog" where "pre = (do {
      d \<leftarrow> gets (info i);
      doif (work_busy (send_info d)) (do { cancel_work i; mosh_print T ''Socket data send periodic stop'' [] });
      free (send_buffer d) })"
  have k: "view fds als (exec_state pre s) = view fds als s"
    unfolding pre_def by (intro keepsD view_intros view_fields)
  have "exec_state (sock_info_clear T i) s = exec_state (release T i (info i s)) (exec_state pre s)"
    by (simp add: sock_info_clear_def release_def pre_def exec_simps)
  then show ?thesis
    using view_release [OF assms(1), where s = "exec_state pre s" and i = i and d = "info i s"] assms(2)
    by (simp add: k entry_at)
qed

abbreviation tracks :: "('w \<Rightarrow> int set) \<Rightarrow> ('w \<Rightarrow> int) \<Rightarrow> nat \<Rightarrow> int set \<Rightarrow> int \<Rightarrow> nat set \<Rightarrow> ('w, 'z) sock_scheme \<Rightarrow> bool" where
  "tracks fds als n F L X s \<equiv> table_ok n F L X (view fds als s)"

lemma tracks_keeps: "keeps (view fds als) p \<Longrightarrow> valid (tracks fds als n F L X) p (\<lambda>_. tracks fds als n F L X)"
  by (rule valid_keeps [where f = "view fds als"]) simp_all

lemma tracks_clear:
  assumes "descriptors T fds als" "X \<subseteq> {i}" "i < n"
  shows "valid (tracks fds als n F L X) (sock_info_clear T i) (\<lambda>_. tracks fds als n F L {})"
proof (rule validI)
  fix s assume t: "tracks fds als n F L X s"
  then have "length (sockets s) = n" using table_ok_facts(1) by fastforce
  then show "tracks fds als n F L {} (exec_state (sock_info_clear T i) s)"
    using table_clear [OF t assms(2,3)] assms by (simp add: view_clear)
qed

lemma first_slot_Some:
  assumes "first_slot P ss = Some i"
  shows "i < length ss" "P (ss ! i)" "\<And>j. j < i \<Longrightarrow> \<not> P (ss ! j)"
proof -
  let ?t = "takeWhile (\<lambda>d. \<not> P d) ss"
  have i: "i = length ?t" "length ?t < length ss" using assms by (auto simp: first_slot_def Let_def split: if_splits)
  show "i < length ss" using i by simp
  show "P (ss ! i)" using nth_length_takeWhile [OF i(2)] i(1) by simp
  fix j assume "j < i"
  then have "j < length ?t" using i(1) by simp
  then have "?t ! j \<in> set ?t" "?t ! j = ss ! j" by (rule nth_mem, rule takeWhile_nth)
  then show "\<not> P (ss ! j)" using set_takeWhileD by metis
qed

lemma tracks_length: "tracks fds als n F L X s \<Longrightarrow> length (sockets s) = n"
  using table_ok_facts(1) by fastforce

text \<open>The slot of a socket that is being opened, by what it holds.\<close>

abbreviation slot_at :: "nat \<Rightarrow> ('w, 'z) sock_scheme \<Rightarrow> entry" where
  "slot_at i s \<equiv> core (info i s)"

lemma clear_entry:
  assumes "descriptors T fds als" "i < length (sockets s)"
  shows "slot_at i (exec_state (sock_info_clear T i) s) = (-1, -1, False, [])"
    "j \<noteq> i \<Longrightarrow> j < length (sockets s) \<Longrightarrow> slot_at j (exec_state (sock_info_clear T i) s) = slot_at j s"
    "length (sockets (exec_state (sock_info_clear T i) s)) = length (sockets s)"
proof -
  let ?t = "exec_state (sock_info_clear T i) s"
  have v: "view fds als ?t = clear_view i (view fds als s)" by (rule view_clear [OF assms])
  have "length (entries (view fds als ?t)) = length (entries (view fds als s))"
    unfolding v by (simp add: clear_view_def Let_def)
  then show l: "length (sockets ?t) = length (sockets s)" by simp
  have "entries (view fds als ?t) ! i = (-1, -1, False, [])"
    unfolding v using assms(2) by (simp add: clear_view_def Let_def)
  then show "slot_at i ?t = (-1, -1, False, [])" using assms(2) l by (simp add: entry_at)
  assume j: "j \<noteq> i" "j < length (sockets s)"
  have "entries (view fds als ?t) ! j = entries (view fds als s) ! j"
    unfolding v using j by (simp add: clear_view_def Let_def)
  then show "slot_at j ?t = slot_at j s" using j l by (simp add: entry_at)
qed

lemma view_set:
  assumes "i < length (sockets s)" "core (f (info i s)) = e"
  shows "view fds als (exec_state (upd_info i f) s) = put i e (view fds als s)"
  using assms by (simp add: exec_upd_info view_def put_def map_update info_def)

lemma tracks_reserve:
  assumes d: "descriptors T fds als"
  shows "valid (tracks fds als n F L {}) (reserve_socket_id T) (\<lambda>r s. case r of None \<Rightarrow> tracks fds als n F L {} s
    | Some i \<Rightarrow> i < n \<and> tracks fds als n F L {i} s \<and> slot_at i s = (int i, -1, False, []))"
proof (rule validI)
  fix s :: "('a, 'd) sock_scheme" assume t: "tracks fds als n F L {} s"
  let ?p = "reserve_socket_id T :: ('a, 'd, nat option) sock_prog"
  show "case result ?p s of None \<Rightarrow> tracks fds als n F L {} (exec_state ?p s)
    | Some i \<Rightarrow> i < n \<and> tracks fds als n F L {i} (exec_state ?p s) \<and> slot_at i (exec_state ?p s) = (int i, -1, False, [])"
  proof (cases "first_slot (\<lambda>d. \<not> in_use d) (sockets s)")
    case None then show ?thesis using t by (simp add: reserve_socket_id_def exec_simps)
  next
    case (Some i)
    note f = first_slot_Some [OF Some]
    have n: "length (sockets s) = n" "i < n" using tracks_length [OF t] f(1) by simp_all
    let ?s = "exec_state (sock_info_clear T i) s"
    let ?t = "exec_state (upd_info i (\<lambda>d. d\<lparr>sock_id := int i\<rparr>)) ?s"
    have c: "slot_at i ?s = (-1, -1, False, [])" "length (sockets ?s) = n" using clear_entry [OF d f(1)] n by simp_all
    have e: "core ((info i ?s)\<lparr>sock_id := int i\<rparr>) = (int i, -1, False, [])" using c(1) by (simp add: core_def)
    have v: "view fds als ?t = put i (int i, -1, False, []) (view fds als ?s)"
      by (rule view_set) (simp_all add: c(2) n(2) e)
    have "\<forall>j<i. e_use (entries (view fds als ?s) ! j)"
    proof (intro allI impI)
      fix j assume "j < i"
      then show "e_use (entries (view fds als ?s) ! j)"
        using clear_entry(2) [OF d f(1), of j] f(1) f(3) [of j] n c(2)
        by (simp add: entry_at info_def) (simp add: core_def e_use_def)
    qed
    moreover have "tracks fds als n F L {} ?s" by (rule validD [OF tracks_clear [OF d] t]) (simp_all add: n)
    ultimately have "tracks fds als n F L {i} ?t"
      unfolding v using n c by (intro table_claim) (simp_all add: entry_at)
    moreover have "slot_at i ?t = (int i, -1, False, [])" using c n e by (simp add: exec_upd_info info_def)
    ultimately show ?thesis using Some n by (simp add: reserve_socket_id_def exec_simps)
  qed
qed

lemmas view_printed [simp] = view_prints [THEN keepsD]

lemma view_getaddrinfo:
  assumes d: "descriptors T fds als"
  shows "view fds als (exec_state (sock_getaddrinfo_req T fam typ address cid) s) =
    (view fds als s)\<lparr>v_lists := als (world s) + (if snd (result (sock_getaddrinfo_req T fam typ address cid) s) = [] then 0 else 1)\<rparr>"
proof (cases "address = []")
  case True
  have "(view fds als s)\<lparr>v_lists := als (world s)\<rparr> = view fds als s" by (simp add: view_def)
  then show ?thesis using True by (simp add: sock_getaddrinfo_req_def exec_simps)
next
  case False
  define svc where "svc = (if cid > 0 then Some (take 11 (show_int (lte_lc_pdn_id_get T cid (world s)))) else None)"
  obtain err ai w where g: "getaddrinfo_list T address svc fam typ (world s) = ((err, ai), w)" by (metis prod.collapse)
  have "case getaddrinfo_list T address svc fam typ (world s) of ((err, ai), w') \<Rightarrow> fds w' = fds (world s) \<and>
      als w' = als (world s) + (if err = 0 then 1 else 0) \<and> (err = 0 \<longrightarrow> ai \<noteq> [])"
    using d by (simp only: descriptors_def)
  then have w: "fds w = fds (world s)" "als w = als (world s) + (if err = 0 then 1 else 0)" "err = 0 \<Longrightarrow> ai \<noteq> []"
    by (simp_all add: g)
  have v: "view fds als (s\<lparr>world := w\<rparr>) = (view fds als s)\<lparr>v_lists := als (world s) + (if err = 0 then 1 else 0)\<rparr>"
    by (simp add: view_def w(1,2))
  show ?thesis
    using False v w(3) g unfolding svc_def
    by (cases "err = 0"; cases "0 < cid") (simp_all add: sock_getaddrinfo_req_def exec_simps)
qed

lemma valid_andthen:
  assumes "valid P p (\<lambda>r s. if r = None then R s else Q r s)" "valid R q Q"
  shows "valid P (andthen p q) Q"
  unfolding andthen_def
proof (rule valid_bind [OF assms(1)])
  fix x show "valid (\<lambda>s. if x = None then R s else Q x s) (case x of None \<Rightarrow> q | Some y \<Rightarrow> return (Some y)) Q"
    using assms(2) by (cases x) (simp_all add: valid_return)
qed

lemmas e_defs = e_id_def e_fd_def e_use_def e_addrs_def

lemma core_simps [simp]:
  "e_id (core d) = sock_id d" "e_fd (core d) = sock_fd d" "e_use (core d) = in_use d" "e_addrs (core d) = addrs d"
  by (simp_all add: entry_defs)

text \<open>The rest of the program while slot \<open>i\<close> is being opened.\<close>

definition around :: "nat \<Rightarrow> view \<Rightarrow> entry list \<times> nat \<times> bool" where
  "around i v = ((entries v)[i := (0, 0, False, [])], v_sem v, v_blocked v)"

lemma around_put [simp]: "around i (put i e v) = around i v" "around i (v\<lparr>v_fds := x\<rparr>) = around i v"
  "around i (v\<lparr>v_lists := y\<rparr>) = around i v" "around i (clear_view i v) = around i v"
  by (simp_all add: around_def clear_view_def Let_def)

definition in_slot :: "('w \<Rightarrow> int set) \<Rightarrow> ('w \<Rightarrow> int) \<Rightarrow> nat \<Rightarrow> int set \<Rightarrow> int \<Rightarrow> nat \<Rightarrow> entry list \<times> nat \<times> bool \<Rightarrow> (entry \<Rightarrow> bool) \<Rightarrow>
    ('w, 'z) sock_scheme \<Rightarrow> bool" where
  "in_slot fds als n F L i r C s \<longleftrightarrow> tracks fds als n F L {i} s \<and> around i (view fds als s) = r \<and> C (entries (view fds als s) ! i)"

lemma in_slot_keeps:
  "keeps (view fds als) p \<Longrightarrow> valid (in_slot fds als n F L i r C) p (\<lambda>_. in_slot fds als n F L i r C)"
  by (rule valid_keeps [where f = "view fds als"]) (simp_all add: in_slot_def)

lemma in_slot_view: "view fds als s = view fds als t \<Longrightarrow> in_slot fds als n F L i r C s = in_slot fds als n F L i r C t"
  by (simp add: in_slot_def)

lemma in_slot_length: "in_slot fds als n F L i r C s \<Longrightarrow> length (sockets s) = n"
  unfolding in_slot_def using tracks_length by blast

lemma in_slot_addrs:
  fixes s :: "('w, 'z) sock_scheme"
  assumes o: "in_slot fds als n F L i r (\<lambda>e. \<not> e_use e) s" "i < n"
    and a: "\<And>d. core (f d) = (sock_id d, sock_fd d, in_use d, g (addrs d))" "\<And>l. g l = [] \<longleftrightarrow> l = []"
  shows "in_slot fds als n F L i r (\<lambda>e. \<not> e_use e) (exec_state (upd_info i f) s)"
proof -
  have n: "i < length (sockets s)" using in_slot_length [OF o(1)] o(2) by simp
  have e: "entries (view fds als s) ! i = core (info i s)" by (rule entry_at [OF n])
  have v: "view fds als (exec_state (upd_info i f) s) = put i (core (f (info i s))) (view fds als s)"
    by (rule view_set [OF n]) simp
  have "table_ok n F L {i} (put i (core (f (info i s))) ((view fds als s)\<lparr>v_lists := v_lists (view fds als s) +
      (if e_addrs (core (f (info i s))) = [] then 0 else 1) - (if e_addrs (entries (view fds als s) ! i) = [] then 0 else 1)\<rparr>))"
    by (rule table_addrs) (use o in \<open>simp_all add: in_slot_def e a(1) e_defs core_simps [unfolded e_defs]\<close>)
  moreover have "(view fds als s)\<lparr>v_lists := v_lists (view fds als s) +
      (if e_addrs (core (f (info i s))) = [] then 0 else 1) - (if e_addrs (entries (view fds als s) ! i) = [] then 0 else 1)\<rparr> = view fds als s"
    by (simp add: e a e_defs core_simps [unfolded e_defs])
  ultimately show ?thesis using o n unfolding in_slot_def v by (simp add: a(1) e e_defs core_simps [unfolded e_defs])
qed

lemma in_slot_resolve:
  assumes d: "descriptors T fds als" and "i < n"
  shows "valid (in_slot fds als n F L i r (\<lambda>e. \<not> e_use e \<and> e_addrs e = [])) (resolve_address T i a)
    (\<lambda>_. in_slot fds als n F L i r (\<lambda>e. \<not> e_use e))"
proof (rule validI)
  fix s :: "('a, 'd) sock_scheme"
  assume o: "in_slot fds als n F L i r (\<lambda>e. \<not> e_use e \<and> e_addrs e = []) s"
  define q :: "('a, 'd, int \<times> addrinfo list) sock_prog" where
    "q = sock_getaddrinfo_req T (a_family a) (a_type a) (a_address a) (a_pdn_cid a)"
  obtain err ai where r: "result q s = (err, ai)" by (metis prod.collapse)
  let ?s = "exec_state q s"
  let ?t = "exec_state (upd_info i (\<lambda>d. d\<lparr>addrs := ai\<rparr>)) ?s"
  have v: "view fds als ?s = (view fds als s)\<lparr>v_lists := als (world s) + (if ai = [] then 0 else 1)\<rparr>"
    using r unfolding q_def by (subst view_getaddrinfo [OF d]) simp
  have n: "length (sockets s) = n" "length (sockets ?s) = n"
    using in_slot_length [OF o] arg_cong [OF v, of "length \<circ> entries"] by simp_all
  have e: "entries (view fds als s) ! i = core (info i s)" "core (info i ?s) = core (info i s)"
    using n \<open>i < n\<close> arg_cong [OF v, of "\<lambda>v. entries v ! i"] by (simp_all add: entry_at)
  have new: "core ((info i ?s)\<lparr>addrs := ai\<rparr>) = (e_id (core (info i s)), e_fd (core (info i s)), e_use (core (info i s)), ai)"
    using e(2) by (simp add: entry_defs)
  have w: "view fds als ?t = put i (e_id (core (info i s)), e_fd (core (info i s)), e_use (core (info i s)), ai) (view fds als ?s)"
    by (rule view_set) (simp_all add: n \<open>i < n\<close> new)
  have "in_slot fds als n F L i r (\<lambda>e. \<not> e_use e) ?t"
    using table_addrs [where v = "view fds als s" and e = "(e_id (core (info i s)), e_fd (core (info i s)), e_use (core (info i s)), ai)"
        and n = n and F = F and L = L and i = i] o n \<open>i < n\<close>
    unfolding in_slot_def w v by (cases "ai = []") (simp add: e entry_defs, simp add: view_def)+
  moreover have "in_slot fds als n F L i r (\<lambda>e. \<not> e_use e) (exec_state (abort (Some 0)) ?t)"
    by (rule validD [OF in_slot_keeps [OF view_prints(4)] calculation])
  ultimately show "in_slot fds als n F L i r (\<lambda>e. \<not> e_use e) (exec_state (resolve_address T i a) s)"
    using \<open>i < n\<close>
    by (auto simp: resolve_address_def exec_simps q_def [symmetric] r core_def
      intro!: in_slot_addrs [where g = "\<lambda>l. case l of [] \<Rightarrow> [] | x # xs \<Rightarrow> x\<lparr>ai_port := a_port a mod 65536\<rparr> # xs"]
      split: list.splits)
qed

lemma in_slot_create:
  assumes d: "descriptors T fds als" and "i < n"
  shows "valid (in_slot fds als n F L i r (\<lambda>e. \<not> e_use e)) (create_socket T i a)
    (\<lambda>x. in_slot fds als n F L i r (\<lambda>e. e_use e \<longleftrightarrow> x = None))"
proof (rule validI)
  fix s :: "('a, 'd) sock_scheme"
  let ?p = "create_socket T i a :: ('a, 'd, int option) sock_prog"
  assume o: "in_slot fds als n F L i r (\<lambda>e. \<not> e_use e) s"
  obtain fd w where g: "socket T (a_family a) (a_type a) (sock_protocol_resolve T (a_type a) (a_secure a)) (world s) = (fd, w)"
    by (metis prod.collapse)
  have "case socket T (a_family a) (a_type a) (sock_protocol_resolve T (a_type a) (a_secure a)) (world s) of (fd, w') \<Rightarrow>
      als w' = als (world s) \<and> (if fd < 0 then fds w' = fds (world s) else fd \<notin> fds (world s) \<and> fds w' = insert fd (fds (world s)))"
    using d by (simp only: descriptors_def)
  then have c: "als w = als (world s)" "if fd < 0 then fds w = fds (world s) else fd \<notin> fds (world s) \<and> fds w = insert fd (fds (world s))"
    by (simp_all add: g)
  show "in_slot fds als n F L i r (\<lambda>e. e_use e \<longleftrightarrow> result ?p s = None) (exec_state ?p s)"
  proof (cases "fd < 0")
    case True
    then have "view fds als (s\<lparr>world := w\<rparr>) = view fds als s" using c by (simp add: view_def)
    then have "view fds als (exec_state ?p s) = view fds als s" "result ?p s \<noteq> None"
      using True by (simp_all add: create_socket_def exec_simps g)
    then show ?thesis using o by (simp add: in_slot_def)
  next
    case False
    let ?f = "\<lambda>d. d\<lparr>in_use := True, sock_fd := fd, family := a_family a, sock_type := a_type a, port := a_port a,
         bind_port := a_bind_port a, pdn_cid := a_pdn_cid a, secure := a_secure a\<rparr>"
    let ?e = "(sock_id (info i s), fd, True, addrs (info i s))"
    have n: "length (sockets s) = n" by (rule in_slot_length [OF o])
    have x: "exec_state ?p s = exec_state (upd_info i ?f) (s\<lparr>world := w\<rparr>)" "result ?p s = None"
      using False by (simp_all add: create_socket_def exec_simps g)
    have v: "view fds als (exec_state (upd_info i ?f) (s\<lparr>world := w\<rparr>)) = put i ?e ((view fds als s)\<lparr>v_fds := insert fd (v_fds (view fds als s))\<rparr>)"
      using n \<open>i < n\<close> False c by (simp add: exec_upd_info view_def put_def map_update info_def core_def)
    have "table_ok n F L {i} (put i ?e ((view fds als s)\<lparr>v_fds := insert (e_fd ?e) (v_fds (view fds als s))\<rparr>))"
      by (rule table_open)
        (use o n \<open>i < n\<close> False c in \<open>simp_all add: in_slot_def entry_at entry_defs, simp_all add: view_def\<close>)
    then show ?thesis using o n \<open>i < n\<close> unfolding x in_slot_def v by (simp add: entry_defs)
  qed
qed

lemma in_slot_weaken: "in_slot fds als n F L i r C s \<Longrightarrow> (\<And>e. C e \<Longrightarrow> C' e) \<Longrightarrow> in_slot fds als n F L i r C' s"
  by (simp add: in_slot_def)

lemma in_slot_open:
  assumes d: "descriptors T fds als" and "i < n"
  shows "valid (in_slot fds als n F L i r (\<lambda>e. \<not> e_use e \<and> e_addrs e = [])) (open_slot T i a)
    (\<lambda>x. in_slot fds als n F L i r (\<lambda>e. x = None \<longrightarrow> e_use e))"
    (is "valid (?I (\<lambda>e. \<not> e_use e \<and> e_addrs e = [])) _ (\<lambda>x. ?I (\<lambda>e. x = None \<longrightarrow> e_use e))")
proof -
  have connected: "valid (?I e_use) (connect_socket T i a) (\<lambda>x. ?I (\<lambda>e. x = None \<longrightarrow> e_use e))"
    by (rule valid_imp [OF in_slot_keeps [OF view_prepare(2) [OF d], where C = e_use]]) (auto elim: in_slot_weaken)
  have prepared: "valid (?I e_use) (andthen (prepare_socket T i a) (connect_socket T i a)) (\<lambda>x. ?I (\<lambda>e. x = None \<longrightarrow> e_use e))"
    by (rule valid_andthen [OF valid_imp [OF in_slot_keeps [OF view_prepare(1) [OF d], where C = e_use]] connected])
      (auto elim: in_slot_weaken)
  have created: "valid (?I (\<lambda>e. \<not> e_use e)) (andthen (create_socket T i a) (andthen (prepare_socket T i a) (connect_socket T i a)))
      (\<lambda>x. ?I (\<lambda>e. x = None \<longrightarrow> e_use e))"
    by (rule valid_andthen [OF valid_imp [OF in_slot_create [OF assms]] prepared]) (auto elim: in_slot_weaken)
  have resolved: "valid (?I (\<lambda>e. \<not> e_use e \<and> e_addrs e = []))
      (andthen (resolve_address T i a) (andthen (create_socket T i a) (andthen (prepare_socket T i a) (connect_socket T i a))))
      (\<lambda>x. ?I (\<lambda>e. x = None \<longrightarrow> e_use e))"
    by (rule valid_andthen [OF valid_imp [OF in_slot_resolve [OF assms]] created]) (auto elim: in_slot_weaken)
  show ?thesis
    unfolding open_slot_def
    by (rule valid_andthen [OF _ resolved], rule valid_imp, rule in_slot_keeps, intro view_intros d) (auto intro: d elim: in_slot_weaken)
qed


text \<open>What opening does to the table, by whether a slot is free and whether it ends up in use.\<close>

definition opened :: "('w \<Rightarrow> int set) \<Rightarrow> ('w \<Rightarrow> int) \<Rightarrow> nat \<Rightarrow> int set \<Rightarrow> int \<Rightarrow> int \<Rightarrow> nat option \<Rightarrow> view \<Rightarrow> int \<Rightarrow> ('w, 'z) sock_scheme \<Rightarrow> bool" where
  "opened fds als n F L full slot v r s \<longleftrightarrow> tracks fds als n F L {} s \<and>
     (case slot of None \<Rightarrow> r = full \<and> view fds als s = v
      | Some i \<Rightarrow> (entries (view fds als s))[i := (0, 0, False, [])] = (entries v)[i := (0, 0, False, [])] \<and>
          v_blocked (view fds als s) = v_blocked v \<and>
          (if e_use (entries (view fds als s) ! i) then r = 0 \<and> sock_sem s = 1
           else sock_sem s = v_sem v \<and> e_addrs (entries (view fds als s) ! i) = [] \<and> e_fd (entries (view fds als s) ! i) = - 1))"

lemma reserve_result: "result (reserve_socket_id T) s = first_slot (\<lambda>d. \<not> in_use d) (sockets s)"
  by (simp add: reserve_socket_id_def exec_simps split: option.split)

lemma reserve_view:
  assumes d: "descriptors T fds als" and f: "first_slot (\<lambda>d. \<not> in_use d) (sockets s) = Some i"
  shows "around i (view fds als (exec_state (reserve_socket_id T) s)) = around i (view fds als s)"
proof -
  have i: "i < length (sockets s)" "i < length (sockets (exec_state (sock_info_clear T i) s))"
    using first_slot_Some(1) [OF f] by (simp_all add: clear_entry(3) [OF d])
  show ?thesis
    using f by (simp add: reserve_socket_id_def exec_simps view_set [OF i(2) refl] view_clear [OF d i(1)])
qed

lemma sock_open_effect:
  fixes s :: "('w, 'z) sock_scheme"
  assumes d: "descriptors T fds als" and t: "tracks fds als n F L {} s"
  shows "opened fds als n F L (- num T ''ENFILE'') (first_slot (\<lambda>d. \<not> in_use d) (sockets s)) (view fds als s)
    (result (sock_open_and_connect T a) s) (exec_state (sock_open_and_connect T a) s)"
proof -
  define s0 where "s0 = exec_state (announce T a) s"
  have v0: "view fds als s0 = view fds als s" unfolding s0_def announce_def by (intro keepsD view_intros)
  have t0: "tracks fds als n F L {} s0" using t v0 by simp
  have f0: "sockets s0 = sockets s" unfolding s0_def announce_def by (intro keepsD keeps_intros) simp_all
  show ?thesis
  proof (cases "first_slot (\<lambda>d. \<not> in_use d) (sockets s)")
    case None
    then have "exec_state (reserve_socket_id T) s0 = s0" using f0 by (simp add: reserve_socket_id_def exec_simps)
    then show ?thesis using None f0 v0 t
      by (simp add: sock_open_and_connect_def exec_simps reserve_result opened_def s0_def [symmetric])
  next
    case (Some i)
    define s1 where "s1 = exec_state (reserve_socket_id T) s0"
    have n: "i < n" using first_slot_Some(1) [OF Some] tracks_length [OF t] by simp
    have o1: "tracks fds als n F L {i} s1" "slot_at i s1 = (int i, -1, False, [])"
      using validD [OF tracks_reserve [OF d] t0] Some f0 by (simp_all add: s1_def reserve_result)
    have "entries (view fds als s1) ! i = (int i, -1, False, [])"
      using o1 n tracks_length [OF o1(1)] by (simp add: entry_at)
    moreover have "around i (view fds als s1) = around i (view fds als s)"
      unfolding s1_def using reserve_view [OF d, of s0] f0 Some v0 by simp
    ultimately have o: "in_slot fds als n F L i (around i (view fds als s)) (\<lambda>e. \<not> e_use e \<and> e_addrs e = []) s1"
      using o1(1) by (simp add: in_slot_def e_defs)
    define x where "x = result (open_slot T i a) s1"
    define s2 where "s2 = exec_state (open_slot T i a) s1"
    have o2: "in_slot fds als n F L i (around i (view fds als s)) (\<lambda>e. x = None \<longrightarrow> e_use e) s2"
      using validD [OF in_slot_open [OF d n] o] by (simp add: x_def s2_def)
    note run = sock_open_and_connect_def exec_simps reserve_result f0 Some s0_def [symmetric] s1_def [symmetric] x_def [symmetric] s2_def [symmetric]
    show ?thesis
    proof (cases x)
      case None
      let ?s3 = "exec_state (set_sock_blocking_mode T (sock_fd (info i s2)) False) s2"
      have v3: "view fds als ?s3 = view fds als s2" by (intro keepsD view_intros d)
      have o3: "in_slot fds als n F L i (around i (view fds als s)) e_use s2" using o2 None by simp
      have r: "result (sock_open_and_connect T a) s = 0"
        "view fds als (exec_state (sock_open_and_connect T a) s) = (view fds als s2)\<lparr>v_sem := 1\<rparr>"
        using None v3 by (simp_all add: run) (simp add: view_def)
      have k: "tracks fds als n F L {i} s2" "e_use (entries (view fds als s2) ! i)" "around i (view fds als s2) = around i (view fds als s)"
        using o3 by (simp_all add: in_slot_def)
      have "tracks fds als n F L {} (exec_state (sock_open_and_connect T a) s)"
        unfolding r(2) by (rule table_opened [OF k(1) n k(2)]) simp
      moreover have "sock_sem (exec_state (sock_open_and_connect T a) s) = 1"
        using arg_cong [OF r(2), of v_sem] by (simp add: view_def)
      ultimately show ?thesis
        using k unfolding opened_def r Some option.case by (simp add: around_def)
    next
      case (Some err)
      have r: "result (sock_open_and_connect T a) s = err"
        "view fds als (exec_state (sock_open_and_connect T a) s) = clear_view i (view fds als s2)"
        using Some n in_slot_length [OF o2] by (simp_all add: run view_clear [OF d])
      have k: "tracks fds als n F L {i} s2" "around i (view fds als s2) = around i (view fds als s)"
        using o2 by (simp_all add: in_slot_def)
      let ?t = "exec_state (sock_open_and_connect T a) s"
      have "tracks fds als n F L {} ?t" unfolding r(2) using table_clear [OF k(1) _ n] by simp
      moreover have "around i (view fds als ?t) = around i (view fds als s)" unfolding r(2) using k(2) by simp
      moreover have "entries (view fds als ?t) ! i = (-1, -1, False, [])"
        unfolding r(2) using n in_slot_length [OF o2] by (simp add: clear_view_def Let_def)
      moreover have "sock_sem ?t = v_sem (view fds als ?t)" by (simp add: view_def)
      ultimately show ?thesis
        using Some \<open>first_slot (\<lambda>d. \<not> in_use d) (sockets s) = Some i\<close> unfolding opened_def
        by (simp add: around_def e_defs)
    qed
  qed
qed

lemma tracks_open:
  assumes "descriptors T fds als"
  shows "valid (tracks fds als n F L {}) (sock_open_and_connect T a) (\<lambda>_. tracks fds als n F L {})"
proof (rule validI)
  fix s :: "('a, 'd) sock_scheme"
  assume "tracks fds als n F L {} s"
  from sock_open_effect [OF assms this, of a]
  show "tracks fds als n F L {} (exec_state (sock_open_and_connect T a) s)" by (simp add: opened_def)
qed

lemma valid_gets_eq: "(\<And>x. valid (\<lambda>s. P s \<and> f s = x) (q x) Q) \<Longrightarrow> valid P (State_Monad.bind (gets f) q) Q"
  by (simp add: valid_def exec_simps)

lemma tracks_found:
  "valid (tracks fds als n F L {}) (get_socket_id_by_fd fd) (\<lambda>r s. tracks fds als n F L {} s \<and> (\<forall>i. r = Some i \<longrightarrow> i < n))"
proof (rule validI)
  fix s :: "('a, 'b) sock_scheme" assume t: "tracks fds als n F L {} s"
  have k: "keeps (view fds als) (get_socket_id_by_fd fd :: ('a, 'b, nat option) sock_prog)" by (rule view_closed)
  have "i < n" if "result (get_socket_id_by_fd fd) s = Some i" for i
    using that first_slot_Some(1) [of _ "sockets s"] tracks_length [OF t]
    by (auto simp: get_socket_id_by_fd_def exec_simps abort_def split: option.splits if_splits)
  then show "tracks fds als n F L {} (exec_state (get_socket_id_by_fd fd) s) \<and>
      (\<forall>i. result (get_socket_id_by_fd fd) s = Some i \<longrightarrow> i < n)"
    using t keepsD [OF k, of s] by simp
qed

lemma tracks_named:
  fixes T :: "('a, 'y) sock_api_scheme"
  shows "valid (tracks fds als n F L {} :: ('a, 'z) sock_scheme \<Rightarrow> bool) (get_socket_info_by_id T k) (\<lambda>r s. tracks fds als n F L {} s \<and> (\<forall>i. r = Some i \<longrightarrow> i < max_sockets T))"
proof (rule validI)
  fix s :: "('a, 'z) sock_scheme" assume t: "tracks fds als n F L {} s"
  have k: "keeps (view fds als) (get_socket_info_by_id T k :: ('a, 'z, nat option) sock_prog)"
    unfolding get_socket_info_by_id_def by (intro view_intros)
  have "i < max_sockets T" if "result (get_socket_info_by_id T k) s = Some i" for i
    using that by (auto simp: get_socket_info_by_id_def exec_simps split: if_splits)
  then show "tracks fds als n F L {} (exec_state (get_socket_info_by_id T k) s) \<and>
      (\<forall>i. result (get_socket_info_by_id T k) s = Some i \<longrightarrow> i < max_sockets T)"
    using t keepsD [OF k, of s] by simp
qed

lemma valid_slot:
  "valid P p Q \<Longrightarrow> (\<And>i. i < n \<Longrightarrow> valid P (q i) Q) \<Longrightarrow>
    valid (\<lambda>s. P s \<and> (\<forall>i. r = Some i \<longrightarrow> i < n)) (case r of None \<Rightarrow> p | Some i \<Rightarrow> q i) Q"
  by (auto simp: valid_def split: option.split)

lemma tracks_same: "keeps (view fds als) p \<Longrightarrow> (\<And>x. valid (tracks fds als n F L X) (q x) Q) \<Longrightarrow>
    valid (tracks fds als n F L X) (State_Monad.bind p q) Q"
  by (rule valid_same [OF tracks_keeps])

lemma tracks_end: "valid (tracks fds als n F L X) (return x) (\<lambda>_. tracks fds als n F L X)"
  by (rule valid_return)

lemma tracks_close:
  assumes d: "descriptors T fds als"
  shows "valid (tracks fds als (max_sockets T) F L {}) (sock_close T k) (\<lambda>_. tracks fds als (max_sockets T) F L {})"
  unfolding sock_close_def
  by (rule valid_bind [OF tracks_named], rule valid_slot, rule tracks_end, rule tracks_same [OF keeps_gets],
    rule tracks_same [OF view_prints(1)], rule valid_bind [OF tracks_clear [OF d] tracks_end]) simp_all

lemma tracks_poll_events:
  assumes d: "descriptors T fds als" and i: "i < n"
  shows "valid (tracks fds als n F L {}) (sock_handle_poll_events fuel T i ev) (\<lambda>_. tracks fds als n F L {})"
proof -
  have close: "valid (tracks fds als n F L {}) (doif b (do { mosh_print T m l; sock_info_clear T i })) (\<lambda>_. tracks fds als n F L {})" for b m l
    by (rule valid_doif) (intro tracks_same view_prints tracks_clear [OF d _ i] | simp)+
  show ?thesis
    unfolding sock_handle_poll_events_def
    by (intro tracks_same valid_if tracks_end valid_same [OF close] view_intros d)
qed

lemma tracks_handle_all:
  assumes d: "descriptors T fds als"
  shows "valid (tracks fds als n F L {}) (handle_all fuel T xs) (\<lambda>_. tracks fds als n F L {})"
proof (induction xs)
  case (Cons x xs)
  show ?case
    unfolding handle_all.simps
    by (rule valid_bind [OF tracks_found], rule valid_slot, rule Cons.IH, rule valid_same [OF tracks_poll_events [OF d]],
      assumption, rule valid_if, rule Cons.IH, rule tracks_end)
qed (simp add: tracks_end)

lemma view_getaddrinfo_cmd:
  assumes d: "descriptors T fds als"
  shows "keeps (view fds als) (sock_getaddrinfo T fam typ host cid)"
  unfolding keeps_def
proof
  fix s :: "('a, 'd) sock_scheme"
  define m :: "('a, 'd, unit) sock_prog" where "m = mosh_print T ''getaddrinfo query family=%d, type=%d, pdn_cid=%d, hostname=%s'' [PInt fam, PInt typ, PInt cid, PStr host]"
  define q :: "('a, 'd, int \<times> addrinfo list) sock_prog" where "q = sock_getaddrinfo_req T fam typ host cid"
  let ?s = "exec_state m s"
  have m: "view fds als ?s = view fds als s" unfolding m_def by simp
  obtain err ai where r: "result q ?s = (err, ai)" by (metis prod.collapse)
  have v: "view fds als (exec_state q ?s) = (view fds als ?s)\<lparr>v_lists := als (world ?s) + (if ai = [] then 0 else 1)\<rparr>"
    using r unfolding q_def by (subst view_getaddrinfo [OF d]) simp
  have none: "err \<noteq> 0 \<Longrightarrow> ai = []"
    using r by (auto simp: q_def sock_getaddrinfo_req_def exec_simps split: if_splits)
  have p: "view fds als (exec_state (print_answers T ai) t) = view fds als t" for t :: "('a, 'd) sock_scheme"
    by (rule keepsD [OF view_list(3)])
  have f: "view fds als (t\<lparr>world := freeaddrinfo_list T ai (world t)\<rparr>) =
      (view fds als t)\<lparr>v_lists := v_lists (view fds als t) - (if ai = [] then 0 else 1)\<rparr>" for t :: "('a, 'd) sock_scheme"
    using d by (simp add: view_def descriptors_def)
  have l: "(view fds als ?s)\<lparr>v_lists := als (world ?s)\<rparr> = view fds als ?s" by (simp add: view_def)
  have "view fds als (exec_state (sock_getaddrinfo T fam typ host cid) s) = view fds als ?s"
    using none by (cases "err = 0") (simp_all add: sock_getaddrinfo_def exec_simps m_def [symmetric] q_def [symmetric] r p f v l)
  then show "view fds als (exec_state (sock_getaddrinfo T fam typ host cid) s) = view fds als s" using m by simp
qed

lemma poll_list_Nil: "poll_list ss = [] \<longleftrightarrow> (\<forall>d\<in>set ss. \<not> in_use d)"
  by (simp add: poll_list_def filter_empty_conv)

lemma tracks_turn:
  assumes d: "descriptors T fds als"
  shows "valid (tracks fds als n F L {}) (sock_receive_turn fuel T) (\<lambda>_. tracks fds als n F L {})"
proof (rule validI)
  fix s :: "('a, 'd) sock_scheme" assume t: "tracks fds als n F L {} s"
  let ?r = "exec_state (sock_receive_turn fuel T) s"
  define s1 where "s1 = (if recv_blocked s then s\<lparr>sock_sem := sock_sem s - 1, recv_blocked := False\<rparr> else s)"
  have s1: "sockets s1 = sockets s" "\<not> recv_blocked s1" by (simp_all add: s1_def)
  have v1: "view fds als s1 = (view fds als s)\<lparr>v_sem := sock_sem s1, v_blocked := False\<rparr>"
    by (simp add: s1_def view_def)
  have t1: "tracks fds als n F L {} s1"
    using t unfolding v1 by (simp add: table_ok_def owned_def)
  show "tracks fds als n F L {} ?r"
  proof (cases "recv_blocked s \<and> sock_sem s = 0")
    case True
    then show ?thesis using t by (simp add: sock_receive_turn_def exec_simps)
  next
    case awake: False
    show ?thesis
    proof (cases "poll_list (sockets s) = []")
      case True
      let ?q = "do {
        modify (\<lambda>s. s\<lparr>sock_sem := 0\<rparr>);
        b \<leftarrow> gets sock_receive_buffer;
        free b;
        modify (\<lambda>s. s\<lparr>sock_receive_buffer := None, recv_blocked := True\<rparr>);
        return True
      } :: ('a, 'd, bool) sock_prog"
      have r: "?r = exec_state ?q s1"
        using awake True by (auto simp: sock_receive_turn_def exec_simps s1_def)
      have f: "view fds als (exec_state (free p) t) = view fds als t" for p and t :: "('a, 'd) sock_scheme"
        by (rule keepsD [OF view_heap(2)])
      have b: "view fds als (t\<lparr>sock_receive_buffer := None, recv_blocked := True\<rparr>) = (view fds als t)\<lparr>v_blocked := True\<rparr>"
        "view fds als (t\<lparr>sock_sem := 0\<rparr>) = (view fds als t)\<lparr>v_sem := 0\<rparr>" for t :: "('a, 'd) sock_scheme"
        by (simp_all add: view_def)
      have "view fds als ?r = (view fds als s1)\<lparr>v_sem := 0, v_blocked := True\<rparr>"
        unfolding r by (simp add: exec_simps b f)
      moreover have "\<forall>i<n. \<not> e_use (entries (view fds als s1) ! i)"
        using True s1(1) tracks_length [OF t1] by (simp add: poll_list_Nil view_def)
      ultimately show ?thesis using t1 by (simp add: table_ok_def owned_def)
    next
      case False
      let ?l = "poll_list (sockets s)"
      let ?q = "do {
        (ret, evs) \<leftarrow> call (sock_poll T ?l);
        if ret \<le> 0 then return True else handle_all fuel T (zip (map fst ?l) evs)
      } :: ('a, 'd, bool) sock_prog"
      have r: "?r = exec_state ?q s1"
        using awake False by (auto simp: sock_receive_turn_def exec_simps s1_def)
      have q: "valid (tracks fds als n F L {}) ?q (\<lambda>_. tracks fds als n F L {})"
        unfolding case_prod_unfold
        by (intro tracks_same valid_if tracks_end tracks_handle_all [OF d] view_call) (simp_all add: quiet_plain [OF d])
      show ?thesis unfolding r by (rule validD [OF q t1])
    qed
  qed
qed

lemma tracks_event:
  assumes d: "descriptors T fds als"
  shows "valid (tracks fds als (max_sockets T) F L {}) (sock_event_prog fuel T H e) (\<lambda>_. tracks fds als (max_sockets T) F L {})"
proof (cases e)
  case (Sock_command c)
  show ?thesis
    unfolding Sock_command sock_event_prog_def sock_event.case run_sock_cmd_def
    by (cases c) (simp_all only: sock_cmd.case, intro valid_same [OF tracks_open [OF d]] tracks_end,
      intro valid_same [OF tracks_close [OF d]] tracks_end, (intro tracks_same tracks_end view_intros view_getaddrinfo_cmd d)+)
next
  case Poll_turn then show ?thesis using tracks_turn [OF d] by (simp add: sock_event_prog_def)
next
  case (Periodic i)
  then show ?thesis unfolding sock_event_prog_def sock_event.case
    by (simp, intro tracks_same tracks_end valid_if keeps_gets view_work [OF d])
qed

lemma tracks_run:
  assumes "descriptors T fds als" "tracks fds als (max_sockets T) F L {} s"
  shows "tracks fds als (max_sockets T) F L {} (foldl (sock_step fuel T H) s es)"
  by (rule foldl_invariant [where P = "tracks fds als (max_sockets T) F L {}", OF _ assms(2)]) (simp add: sock_step_def validD [OF tracks_event [OF assms(1)]])

lemma tracks_start:
  "tracks fds als (max_sockets T) (fds (world s)) (als (world s)) {} (sock_start T s)"
  by (auto simp: sock_start_def table_ok_def owned_def view_def slot_ok_def used_fds_def core_def zero_info_def e_defs filter_empty_conv)

subsection \<open>Reachable states\<close>

inductive sock_reachable :: "nat \<Rightarrow> ('w, 'y) sock_api_scheme \<Rightarrow> ('v, 'x) str_api_scheme \<Rightarrow> ('w, 'z) sock_scheme \<Rightarrow>
    ('w, 'z) sock_scheme \<Rightarrow> bool" for fuel T H s0 where
  boot: "sock_reachable fuel T H s0 (sock_start T s0)"
| step: "sock_reachable fuel T H s0 s \<Longrightarrow> sock_reachable fuel T H s0 (sock_step fuel T H s e)"

lemma tracks_reachable:
  assumes d: "descriptors T fds als" and r: "sock_reachable fuel T H s0 s"
  shows "tracks fds als (max_sockets T) (fds (world s0)) (als (world s0)) {} s"
  using r
proof (induction rule: sock_reachable.induct)
  case boot show ?case by (rule tracks_start)
next
  case (step s e)
  show ?case unfolding sock_step_def by (rule validD [OF tracks_event [OF d] step.IH])
qed

lemma distinct_filter_nth:
  assumes "distinct (map f (filter P xs))" "i < length xs" "j < i" "P (xs ! i)" "P (xs ! j)"
  shows "f (xs ! j) \<noteq> f (xs ! i)"
proof -
  have xs: "xs = take i xs @ xs ! i # drop (Suc i) xs" using assms(2) by (rule id_take_nth_drop)
  have "distinct (map f (filter P (take i xs @ xs ! i # drop (Suc i) xs)))" using assms(1) xs by simp
  then have "f (xs ! i) \<notin> f ` {x \<in> set (take i xs). P x}" using assms(4) by auto
  moreover have "xs ! j \<in> set (take i xs)" using assms(2,3) by (metis in_set_conv_nth length_take less_trans min.absorb4 nth_take)
  then have "f (xs ! j) \<in> f ` {x \<in> set (take i xs). P x}" using assms(5) by simp
  ultimately show ?thesis by metis
qed

lemma first_slotI:
  assumes "i < length ss" "P (ss ! i)" "\<And>j. j < i \<Longrightarrow> \<not> P (ss ! j)"
  shows "first_slot P ss = Some i"
proof -
  have "takeWhile (\<lambda>d. \<not> P d) ss = take i ss"
    by (rule takeWhile_eq_take_P_nth) (use assms in auto)
  then show ?thesis using assms(1) by (simp add: first_slot_def Let_def min_def)
qed

lemma tracks_slot:
  assumes t: "tracks fds als n F L {} s" and i: "i < n"
  shows "in_use (info i s) \<Longrightarrow> sock_id (info i s) = int i \<and> 0 \<le> sock_fd (info i s)"
    "\<not> in_use (info i s) \<Longrightarrow> sock_fd (info i s) \<le> 0 \<and> addrs (info i s) = []"
    "\<not> in_use (info i s) \<Longrightarrow> sock_fd (info i s) = 0 \<Longrightarrow> i < j \<Longrightarrow> j < n \<Longrightarrow> \<not> in_use (info j s)"
  using table_ok_facts(3) [OF t i] i tracks_length [OF t] by (simp_all add: slot_ok_def entry_at)

lemma used_fds_view: "used_fds (entries (view fds als s)) = map sock_fd (filter in_use (sockets s))"
  by (simp add: used_fds_def view_def filter_map comp_def)

lemma tracks_lookup:
  assumes t: "tracks fds als n F L {} s" and i: "i < n" "in_use (info i s)"
  shows "first_slot (\<lambda>d. sock_fd d = sock_fd (info i s)) (sockets s) = Some i"
proof (rule first_slotI)
  have n: "length (sockets s) = n" by (rule tracks_length [OF t])
  show "i < length (sockets s)" "sock_fd (sockets s ! i) = sock_fd (info i s)" using i n by (simp_all add: info_def)
  fix j assume j: "j < i"
  show "sock_fd (sockets s ! j) \<noteq> sock_fd (info i s)"
  proof (cases "in_use (info j s)")
    case True
    have "distinct (map sock_fd (filter in_use (sockets s)))"
      using table_ok_facts(2) [OF t] by (simp add: owned_def used_fds_view)
    from distinct_filter_nth [OF this _ j] show ?thesis using i j n True by (simp add: info_def)
  next
    case False
    then have "sock_fd (info j s) < 0" using tracks_slot(2,3) [OF t, of j] i j by fastforce
    then show ?thesis using tracks_slot(1) [OF t i(1) i(2)] by (simp add: info_def)
  qed
qed

subsection \<open>An instance\<close>

definition opened_by :: "sock_world \<Rightarrow> int set" where
  "opened_by w = set (open_fds w)"

lemma test_sock_descriptors: "descriptors test_sock opened_by lists_held"
  by (auto simp: descriptors_def quiet_def test_sock_def opened_by_def next_fd_fresh next_fd_positive [THEN leD])

definition test_connect :: sock_args where
  "test_connect = \<lparr>a_family = 7, a_type = 10, a_address = ''a'', a_port = 80, a_bind_port = 0, a_pdn_cid = 0, a_secure = False,
     a_sec_tag = 0, a_session_cache = False, a_keep_open = False, a_peer_verify = 0, a_peer_hostname = [], a_dtls_cid = 0,
     a_dtls_frag_ext = 0\<rparr>"

definition one_open :: "sock_world sock" where
  "one_open = sock_step 1 test_sock test_str (sock_start test_sock sock_boot) (Sock_command (Connect test_connect))"

lemma one_open_reachable: "sock_reachable 1 test_sock test_str sock_boot one_open"
  unfolding one_open_def by (intro sock_reachable.intros)

subsection \<open>What the table keeps\<close>

text \<open>
  C16: The table of sockets is well formed in every state the commands, the poll thread and the
  periodic work items reach: an open slot carries its own index and a descriptor of its own, by which
  the poll thread finds it; the descriptors the program holds are those of the open slots and the
  address lists it holds are those of the slots, so neither leaks; and the poll thread never waits for
  ever while a socket is open.
\<close>

theorem sock_table_tracked:
  assumes "descriptors T fds als" "sock_reachable fuel T H s0 s"
  shows "length (sockets s) = max_sockets T \<and>
    (\<forall>i. i < max_sockets T \<longrightarrow> in_use (info i s) \<longrightarrow> sock_id (info i s) = int i \<and> 0 \<le> sock_fd (info i s) \<and>
       result (get_socket_id_by_fd (sock_fd (info i s))) s = Some i) \<and>
    distinct (map sock_fd (filter in_use (sockets s))) \<and>
    fds (world s) = fds (world s0) \<union> sock_fd ` {d \<in> set (sockets s). in_use d} \<and>
    fds (world s0) \<inter> sock_fd ` {d \<in> set (sockets s). in_use d} = {} \<and>
    als (world s) = als (world s0) + int (length (filter (\<lambda>d. addrs d \<noteq> []) (sockets s))) \<and>
    (recv_blocked s \<longrightarrow> 0 < sock_sem s \<or> poll_list (sockets s) = [])"
proof -
  have t: "tracks fds als (max_sockets T) (fds (world s0)) (als (world s0)) {} s" by (rule tracks_reachable [OF assms])
  have n: "length (sockets s) = max_sockets T" by (rule tracks_length [OF t])
  have ids: "sock_id (info i s) = int i \<and> 0 \<le> sock_fd (info i s) \<and> result (get_socket_id_by_fd (sock_fd (info i s))) s = Some i"
    if "i < max_sockets T" "in_use (info i s)" for i
    using tracks_slot(1) [OF t that] tracks_lookup [OF t that]
    by (simp add: get_socket_id_by_fd_def exec_simps) (simp add: info_def)
  have o: "distinct (map sock_fd (filter in_use (sockets s)))"
    "fds (world s) = fds (world s0) \<union> sock_fd ` {d \<in> set (sockets s). in_use d}"
    "fds (world s0) \<inter> sock_fd ` {d \<in> set (sockets s). in_use d} = {}"
    "als (world s) = als (world s0) + int (length (filter (\<lambda>d. addrs d \<noteq> []) (sockets s)))"
    using table_ok_facts(2) [OF t] unfolding owned_def used_fds_view
    by (simp_all add: view_def filter_map comp_def)
  have "0 < sock_sem s \<or> poll_list (sockets s) = []" if "recv_blocked s"
    using t that n unfolding table_ok_def by (auto simp: view_def poll_list_Nil in_set_conv_nth)
  then show ?thesis using n ids o by blast
qed

theorem sock_table_tracked_witness:
  "opened_by (world one_open) = sock_fd ` {d \<in> set (sockets one_open). in_use d} \<and>
    distinct (map sock_fd (filter in_use (sockets one_open)))"
  using sock_table_tracked [OF test_sock_descriptors one_open_reachable] by (simp add: opened_by_def sock_boot_def)

lemma changed_slot:
  assumes "es'[i := x] = es[i := x]" "i < length es"
  shows "es' = es[i := es' ! i]"
proof -
  have l: "length es' = length es" using arg_cong [OF assms(1), of length] by simp
  have "(es'[i := x])[i := es' ! i] = (es[i := x])[i := es' ! i]" using assms(1) by simp
  then show ?thesis using l assms(2) by simp
qed

lemma owned_same:
  assumes "owned F L v" "owned F L v'" "(entries v')[i := x] = (entries v)[i := x]" "i < length (entries v)"
    "\<not> e_use (entries v ! i)" "\<not> e_use (entries v' ! i)" "e_addrs (entries v ! i) = []" "e_addrs (entries v' ! i) = []"
  shows "v_fds v' = v_fds v" "v_lists v' = v_lists v"
proof -
  obtain A B where es: "entries v = A @ entries v ! i # B" "\<And>e. (entries v)[i := e] = A @ e # B" using assms(4) by (rule split_at) blast
  have es': "entries v' = A @ entries v' ! i # B" using changed_slot [OF assms(3,4)] es(2) by metis
  have "used_fds (entries v) = used_fds A @ used_fds B" by (subst es(1)) (simp add: used_fds_def assms(5))
  moreover have "used_fds (entries v') = used_fds A @ used_fds B" by (subst es') (simp add: used_fds_def assms(6))
  ultimately show "v_fds v' = v_fds v" using assms(1,2) by (simp add: owned_def)
  have "length (filter (\<lambda>e. e_addrs e \<noteq> []) (entries v)) = length (filter (\<lambda>e. e_addrs e \<noteq> []) (A @ B))"
    by (subst es(1)) (simp add: assms(7))
  moreover have "length (filter (\<lambda>e. e_addrs e \<noteq> []) (entries v')) = length (filter (\<lambda>e. e_addrs e \<noteq> []) (A @ B))"
    by (subst es') (simp add: assms(8))
  ultimately show "v_lists v' = v_lists v" using assms(1,2) by (simp add: owned_def)
qed

lemma owned_new:
  assumes "owned F L v" "owned F L v'" "(entries v')[i := x] = (entries v)[i := x]" "i < length (entries v)"
    "\<not> e_use (entries v ! i)" "e_use (entries v' ! i)"
  shows "v_fds v' = insert (e_fd (entries v' ! i)) (v_fds v)" "e_fd (entries v' ! i) \<notin> v_fds v"
proof -
  obtain A B where es: "entries v = A @ entries v ! i # B" "\<And>e. (entries v)[i := e] = A @ e # B" using assms(4) by (rule split_at) blast
  have es': "entries v' = A @ entries v' ! i # B" using changed_slot [OF assms(3,4)] es(2) by metis
  have u: "used_fds (entries v) = used_fds A @ used_fds B" by (subst es(1)) (simp add: used_fds_def assms(5))
  have u': "used_fds (entries v') = used_fds A @ e_fd (entries v' ! i) # used_fds B" by (subst es') (simp add: used_fds_def assms(6))
  show "v_fds v' = insert (e_fd (entries v' ! i)) (v_fds v)" "e_fd (entries v' ! i) \<notin> v_fds v"
    using assms(1,2) by (auto simp: owned_def u u')
qed

text \<open>
  C23: \<open>sock connect\<close> takes the first free slot and opens it with a new descriptor, or, whatever
  failed (parameters, name, socket, binding, options, connection), leaves the descriptors, the address
  lists and the other slots as they were. Without a free slot nothing changes and the result is
  \<open>-ENFILE\<close>.
\<close>

theorem sock_open_all_or_nothing:
  fixes s :: "('w, 'z) sock_scheme" and a :: sock_args
  assumes "descriptors T fds als" "sock_reachable fuel T H s0 s"
  defines "s' \<equiv> exec_state (sock_open_and_connect T a) s"
  shows "case first_slot (\<lambda>d. \<not> in_use d) (sockets s) of
      None \<Rightarrow> result (sock_open_and_connect T a) s = - num T ''ENFILE'' \<and> fds (world s') = fds (world s) \<and> als (world s') = als (world s)
    | Some i \<Rightarrow> map core (take i (sockets s') @ drop (Suc i) (sockets s')) = map core (take i (sockets s) @ drop (Suc i) (sockets s)) \<and>
        (if in_use (info i s')
         then result (sock_open_and_connect T a) s = 0 \<and> fds (world s') = insert (sock_fd (info i s')) (fds (world s)) \<and>
           sock_fd (info i s') \<notin> fds (world s) \<and> sock_sem s' = 1
         else fds (world s') = fds (world s) \<and> als (world s') = als (world s) \<and> sock_sem s' = sock_sem s)"
proof -
  let ?F = "fds (world s0)" and ?L = "als (world s0)" and ?n = "max_sockets T"
  have t: "tracks fds als ?n ?F ?L {} s" by (rule tracks_reachable [OF assms(1,2)])
  note o = sock_open_effect [OF assms(1) t, of a]
  have t': "tracks fds als ?n ?F ?L {} s'" using o by (simp add: opened_def s'_def)
  have vw: "v_fds (view fds als u) = fds (world u)" "v_lists (view fds als u) = als (world u)" "v_sem (view fds als u) = sock_sem u" for u :: "('w, 'z) sock_scheme"
    by (simp_all add: view_def)
  show ?thesis
  proof (cases "first_slot (\<lambda>d. \<not> in_use d) (sockets s)")
    case None
    then have "view fds als s' = view fds als s" "result (sock_open_and_connect T a) s = - num T ''ENFILE''"
      using o by (simp_all add: opened_def s'_def)
    then show ?thesis using None vw [of s] vw [of s'] by simp
  next
    case (Some i)
    note f = first_slot_Some [OF Some]
    have n: "i < length (sockets s)" "i < length (sockets s')" "i < length (entries (view fds als s))" "length (sockets s) = ?n"
      using f(1) tracks_length [OF t] tracks_length [OF t'] by simp_all
    have e: "(entries (view fds als s'))[i := (0, 0, False, [])] = (entries (view fds als s))[i := (0, 0, False, [])]"
      "if in_use (info i s') then result (sock_open_and_connect T a) s = 0 \<and> sock_sem s' = 1
       else sock_sem s' = sock_sem s \<and> addrs (info i s') = []"
      using o Some n vw(3) [of s] by (auto simp: opened_def s'_def [symmetric] entry_at split: if_splits)
    have "take i (map core (sockets s')) = take i (map core (sockets s))" "drop (Suc i) (map core (sockets s')) = drop (Suc i) (map core (sockets s))"
      using arg_cong [OF e(1), of "take i"] arg_cong [OF e(1), of "drop (Suc i)"] by (simp_all add: view_def)
    then have core: "map core (take i (sockets s') @ drop (Suc i) (sockets s')) = map core (take i (sockets s) @ drop (Suc i) (sockets s))"
      by (simp add: take_map drop_map)
    have free: "\<not> in_use (info i s)" "addrs (info i s) = []" using f(2) tracks_slot(2) [OF t, of i] n by (simp_all add: info_def)
    note owned = table_ok_facts(2) [OF t] table_ok_facts(2) [OF t']
    have "if in_use (info i s')
      then fds (world s') = insert (sock_fd (info i s')) (fds (world s)) \<and> sock_fd (info i s') \<notin> fds (world s)
      else fds (world s') = fds (world s) \<and> als (world s') = als (world s)"
      using owned_same [OF owned e(1) n(3)] owned_new [OF owned e(1) n(3)] e(2) free n vw
      by (simp add: entry_at)
    then show ?thesis using Some core e(2) by (simp split: if_splits)
  qed
qed

theorem sock_open_all_or_nothing_witness:
  "if in_use (info 0 (exec_state (sock_open_and_connect test_sock test_connect) (sock_start test_sock sock_boot)))
   then result (sock_open_and_connect test_sock test_connect) (sock_start test_sock sock_boot) = 0 \<and>
     opened_by (world (exec_state (sock_open_and_connect test_sock test_connect) (sock_start test_sock sock_boot))) \<noteq> {}
   else opened_by (world (exec_state (sock_open_and_connect test_sock test_connect) (sock_start test_sock sock_boot))) = {}"
proof -
  have f: "first_slot (\<lambda>d. \<not> in_use d) (sockets (sock_start test_sock sock_boot)) = Some 0"
    by (rule first_slotI) (simp_all add: sock_start_def test_sock_def zero_info_def)
  have w: "opened_by (world (sock_start test_sock sock_boot)) = {}"
    by (simp add: sock_start_def sock_boot_def opened_by_def)
  show ?thesis
    using sock_open_all_or_nothing [OF test_sock_descriptors sock_reachable.boot [where fuel = 1 and H = test_str], of test_connect sock_boot]
    unfolding f option.case w by (simp split: if_splits)
qed

end
