(* ===== verification/Mosh_Sock_Send.thy ===== *)
theory Mosh_Sock_Send
  imports Mosh_Sock
begin

section \<open>Sending on a socket (\<open>sock.c\<close>)\<close>

text \<open>
  The loop that sends a given number of bytes in the chunks of its send buffer: \<open>ready\<close> is its
  invariant, \<open>accounts\<close> what a call did. The send buffer is a block of the heap; a fault is an access
  to memory that is not owned.
\<close>

subsection \<open>Sending a given number of bytes\<close>

text \<open>
  Contract of the network for sending: bytes that are given are taken in part or in full, or an
  error with a positive number is reported; \<open>acc\<close> counts what was taken.
\<close>

definition counts :: "('w, 'y) sock_api_scheme \<Rightarrow> ('w \<Rightarrow> int) \<Rightarrow> bool" where
  "counts T acc \<longleftrightarrow>
     (\<forall>fd bs fl w. case sock_tx T fd bs fl w of (r, w') \<Rightarrow>
        (r < 0 \<longrightarrow> acc w' = acc w \<and> 0 < errno T w') \<and>
        (0 \<le> r \<longrightarrow> acc w' = acc w + r \<and> r \<le> int (length bs) \<and> (bs \<noteq> [] \<longrightarrow> 0 < r))) \<and>
     (\<forall>n w. acc (k_poll_signal_reset T n w) = acc w) \<and> (\<forall>fd fl w. acc (fcntl_setfl T fd fl w) = acc w) \<and>
     (\<forall>w. acc (snd (malloc_ok T w)) = acc w) \<and> 0 < num T ''ECANCELED'' \<and> 0 < EAGAIN T"

text \<open>What sending works on.\<close>

record sending =
  s_buf :: "nat option"
  s_size :: nat
  s_sent :: "32 word"
  s_left :: int
  s_prefix :: int
  s_poll :: bool

definition sending_of :: "sock_info \<Rightarrow> sending" where
  "sending_of d = \<lparr>s_buf = send_buffer d, s_size = send_buffer_size d, s_sent = send_bytes_sent d, s_left = send_bytes_left d,
     s_prefix = packet_number_prefix (send_info d), s_poll = send_poll d\<rparr>"

definition sv :: "('w \<Rightarrow> int) \<Rightarrow> nat \<Rightarrow> ('w, 'z) sock_scheme \<Rightarrow> sending \<times> (nat \<Rightarrow> block option) \<times> bool \<times> int \<times> nat" where
  "sv acc i s = (sending_of (info i s), heap s, heap_fault s, acc (world s), length (sockets s))"

text \<open>
  The buffer a call of the loop starts from: a string that fills it when that much is left to send.
  A socket that numbers its packets has room for the four digits.
\<close>

definition buffer_ready :: "sending \<Rightarrow> (nat \<Rightarrow> block option) \<Rightarrow> bool" where
  "buffer_ready d h \<longleftrightarrow> (0 < s_prefix d \<longrightarrow> 4 \<le> s_size d) \<and> 0 < s_size d \<and> 0 \<le> s_left d \<and>
     (\<exists>a b. s_buf d = Some a \<and> h a = Some (Chars b) \<and> length b = Suc (s_size d) \<and> b ! s_size d = NUL \<and>
        (int (s_size d) \<le> s_left d \<longrightarrow> NUL \<notin> set (take (s_size d) b)))"

definition ready :: "nat \<Rightarrow> ('w, 'z) sock_scheme \<Rightarrow> bool" where
  "ready i s \<longleftrightarrow> i < length (sockets s) \<and> buffer_ready (sending_of (info i s)) (heap s)"

lemma sending_simps [simp]:
  "s_buf (sending_of d) = send_buffer d" "s_size (sending_of d) = send_buffer_size d" "s_sent (sending_of d) = send_bytes_sent d"
  "s_left (sending_of d) = send_bytes_left d" "s_prefix (sending_of d) = packet_number_prefix (send_info d)"
  "s_poll (sending_of d) = send_poll d"
  by (simp_all add: sending_of_def)

lemma sv_cong [simp]: "sv acc i (s\<lparr>console := c\<rparr>) = sv acc i s" "sv acc i (s\<lparr>cloud_out := l\<rparr>) = sv acc i s"
  by (simp_all add: sv_def info_def)

lemma keeps_sv_print [keeps_intros]:
  "keeps (sv acc i) (mosh_print P fmt args)" "keeps (sv acc i) (mosh_warn P fmt args)" "keeps (sv acc i) (mosh_error P fmt args)"
  by (intro keeps_mosh_print; simp)+

lemmas sv_print [simp] = keeps_sv_print [THEN keepsD]

lemma info_upd: "i < length (sockets s) \<Longrightarrow> info i (exec_state (upd_info i f) s) = f (info i s)"
  by (simp add: upd_info_def exec_simps info_def)

lemma sv_upd:
  "i < length (sockets s) \<Longrightarrow> sv acc i (exec_state (upd_info i f) s) = (sending_of (f (info i s)), heap s, heap_fault s, acc (world s), length (sockets s))"
  by (simp add: sv_def upd_info_def exec_simps info_def)

lemma keeps_sv_upd: "(\<And>d. sending_of (f d) = sending_of d) \<Longrightarrow> keeps (sv acc i) (upd_info i f)"
proof -
  assume a: "\<And>d. sending_of (f d) = sending_of d"
  have "sending_of ((sockets s)[i := f (sockets s ! i)] ! i) = sending_of (sockets s ! i)" for s :: "('a, 'b) sock_scheme"
    using a by (cases "i < length (sockets s)") (simp_all add: list_update_beyond)
  then show ?thesis unfolding upd_info_def by (intro keeps_modify) (simp add: sv_def info_def)
qed

lemma keeps_sv_progress: "keeps (sv acc i) (print_progress T i)"
  unfolding print_progress_def by (intro keeps_intros keeps_sv_upd) (simp add: sending_of_def)

lemma readyE:
  assumes "ready i s"
  obtains a b where "send_buffer (info i s) = Some a" "heap s a = Some (Chars b)" "length b = Suc (send_buffer_size (info i s))"
    "b ! send_buffer_size (info i s) = NUL" "int (send_buffer_size (info i s)) \<le> send_bytes_left (info i s) \<Longrightarrow> NUL \<notin> set (take (send_buffer_size (info i s)) b)"
    "i < length (sockets s)" "0 < packet_number_prefix (send_info (info i s)) \<Longrightarrow> 4 \<le> send_buffer_size (info i s)" "0 < send_buffer_size (info i s)" "0 \<le> send_bytes_left (info i s)"
  using assms by (auto simp: ready_def buffer_ready_def)

text \<open>The buffer before a chunk: the rest of the data, or a full buffer.\<close>

lemma chunk:
  assumes "ready i s" "0 < send_bytes_left (info i s)"
  obtains a b str rest where "send_buffer (info i s) = Some a" "exec_state (start_chunk i) s = s\<lparr>heap := (heap s)(a \<mapsto> Chars b)\<rparr>"
    "b = str @ NUL # rest" "NUL \<notin> set str" "str \<noteq> []" "int (length str) \<le> send_bytes_left (info i s)"
    "length b = Suc (send_buffer_size (info i s))" "b ! send_buffer_size (info i s) = NUL"
    "int (send_buffer_size (info i s)) \<le> send_bytes_left (info i s) \<Longrightarrow> NUL \<notin> set (take (send_buffer_size (info i s)) b)"
proof -
  let ?n = "send_buffer_size (info i s)" and ?l = "send_bytes_left (info i s)"
  obtain a b where r: "send_buffer (info i s) = Some a" "heap s a = Some (Chars b)" "length b = Suc ?n" "b ! ?n = NUL"
    "int ?n \<le> ?l \<Longrightarrow> NUL \<notin> set (take ?n b)" "0 < ?n"
    using assms(1) by (rule readyE) blast
  have split: "b = take ?n b @ [NUL]" using r(3,4) by (metis lessI take_Suc_conv_app_nth take_all order_refl)
  show ?thesis
  proof (cases "?l < int ?n")
    case False
    have "exec_state (start_chunk i) s = s\<lparr>heap := (heap s)(a \<mapsto> Chars b)\<rparr>"
      using False r(2) by (simp add: start_chunk_def exec_simps fun_upd_idem)
    then show ?thesis
      using False r split by (intro that [of a b "take ?n b" "[]"]) auto
  next
    case True
    let ?z = "replicate ?n NUL @ [NUL]" and ?t = "replicate (nat ?l) (CHR ''l'')"
    have z: "blit b 0 (replicate ?n NUL) = ?z"
      using r(3,4) by (simp add: blit_def) (metis Cons_nth_drop_Suc drop_all le_refl lessI)
    have k: "nat ?l \<le> ?n" using True by simp
    have b: "blit ?z 0 ?t = ?t @ NUL # replicate (?n - nat ?l) NUL"
      using k by (simp add: blit_def replicate_append_same flip: replicate_Suc)
    have "exec_state (start_chunk i) s = s\<lparr>heap := (heap s)(a \<mapsto> Chars (?t @ NUL # replicate (?n - nat ?l) NUL))\<rparr>"
      using True r k z b by (simp add: start_chunk_def write_send_buffer_def exec_simps info_def chars_at_def)
    then show ?thesis
      using True r(1) assms(2) k
      by (intro that [of a "?t @ NUL # replicate (?n - nat ?l) NUL" ?t "replicate (?n - nat ?l) NUL"])
        (auto simp: NUL_def nth_append nth_Cons' )
  qed
qed

lemma strlen_chunk:
  assumes "send_buffer (info i s) = Some a" "heap s a = Some (Chars (str @ NUL # rest))" "NUL \<notin> set str"
  shows "result (strlen_send_buffer i) s = length str" "exec_state (strlen_send_buffer i) s = s"
  using assms by (simp_all add: strlen_send_buffer_def exec_simps source_bytes_def chars_at_def terminated_def)

text \<open>What numbering a packet does to the bytes of the send buffer: nothing, or four digits.\<close>

definition numbered :: "string \<Rightarrow> string \<Rightarrow> bool" where
  "numbered b b' \<longleftrightarrow> b' = b \<or> (\<exists>ds. length ds = 4 \<and> NUL \<notin> set ds \<and> 4 \<le> length b \<and> b' = ds @ drop 4 b)"

lemma number_digits:
  "0 < n \<Longrightarrow> length (take 4 (show_padded 4 n)) = 4" "0 < n \<Longrightarrow> NUL \<notin> set (take 4 (show_padded 4 n))"
proof -
  assume n: "0 < n"
  then show "length (take 4 (show_padded 4 n)) = 4" by (simp add: show_padded_def pad_def)
  have "\<not> is_digit 10 NUL" by code_simp
  then have "NUL \<notin> set (show_nat (nat n))" using show_nat_digits by blast
  then have "NUL \<notin> set (show_padded 4 n)"
    using n by (auto simp: show_padded_def pad_def NUL_def)
  then show "NUL \<notin> set (take 4 (show_padded 4 n))" using set_take_subset [of 4 "show_padded 4 n"] by blast
qed

lemma numberedD:
  assumes "numbered b b'"
  shows "length b' = length b" "4 \<le> k \<or> b' = b \<Longrightarrow> k < length b \<Longrightarrow> b' ! k = b ! k"
    "NUL \<notin> set (take k b) \<Longrightarrow> NUL \<notin> set (take k b')"
    "b \<noteq> [] \<Longrightarrow> hd b \<noteq> NUL \<Longrightarrow> hd b' \<noteq> NUL"
proof -
  have "length b' = length b \<and> (4 \<le> k \<or> b' = b \<longrightarrow> k < length b \<longrightarrow> b' ! k = b ! k) \<and>
    (NUL \<notin> set (take k b) \<longrightarrow> NUL \<notin> set (take k b')) \<and> (b \<noteq> [] \<longrightarrow> hd b \<noteq> NUL \<longrightarrow> hd b' \<noteq> NUL)"
  proof (cases "b' = b")
    case False
    then obtain ds where ds: "length ds = 4" "NUL \<notin> set ds" "4 \<le> length b" "b' = ds @ drop 4 b"
      using assms by (auto simp: numbered_def)
    have "set (take (k - 4) (drop 4 b)) \<subseteq> set (take k b)"
    proof (cases "4 \<le> k")
      case True
      then have "take k b = take 4 b @ take (k - 4) (drop 4 b)" by (metis le_add_diff_inverse take_add)
      then show ?thesis by simp
    qed simp
    moreover have "set (take k ds) \<subseteq> set ds" by (rule set_take_subset)
    moreover have "ds \<noteq> []" using ds(1) by auto
    moreover have "hd ds \<noteq> NUL" using ds(2) \<open>ds \<noteq> []\<close> by (metis hd_in_set)
    ultimately show ?thesis using ds False by (auto simp: nth_append)
  qed simp
  then show "length b' = length b" "4 \<le> k \<or> b' = b \<Longrightarrow> k < length b \<Longrightarrow> b' ! k = b ! k"
    "NUL \<notin> set (take k b) \<Longrightarrow> NUL \<notin> set (take k b')" "b \<noteq> [] \<Longrightarrow> hd b \<noteq> NUL \<Longrightarrow> hd b' \<noteq> NUL" by blast+
qed

lemma number_run:
  fixes s :: "('w, 'z) sock_scheme" and T :: "('w, 'y) sock_api_scheme"
  assumes "i < length (sockets s)" "send_buffer (info i s) = Some a" "heap s a = Some (Chars b)"
  defines "t \<equiv> exec_state (number_packet T i) s"
  obtains n b' x where "sv acc i t = ((sending_of (info i s))\<lparr>s_prefix := n\<rparr>, (heap s)(a \<mapsto> Chars b'), heap_fault s \<or> x, acc (world s), length (sockets s))"
    "x \<Longrightarrow> 0 < packet_number_prefix (send_info (info i s)) \<and> length b < 4"
    "0 < n \<or> b' \<noteq> b \<Longrightarrow> 0 < packet_number_prefix (send_info (info i s))" "numbered b b'"
    "sock_fd (info i t) = sock_fd (info i s)" "send_flags (info i t) = send_flags (info i s)" "world t = world s"
proof (cases "0 < packet_number_prefix (send_info (info i s))")
  case False
  then have "t = s" by (simp add: t_def number_packet_def exec_simps)
  then show ?thesis
    using False assms(3) by (intro that [of "packet_number_prefix (send_info (info i s))" b False])
      (auto simp: numbered_def sv_def sending_of_def fun_upd_idem)
next
  case True
  define k where "k = (if 10000 \<le> packet_number_prefix (send_info (info i s)) then 1 else packet_number_prefix (send_info (info i s)))"
  define ds where "ds = take 4 (show_padded 4 k)"
  define x where "x = (length b < 4)"
  define b' where "b' = (if x then b else ds @ drop 4 b)"
  define u where "u = s\<lparr>sockets := (sockets s)[i := (info i s)\<lparr>send_info := (send_info (info i s))\<lparr>packet_number_prefix := k\<rparr>\<rparr>]\<rparr>"
  have ds: "length ds = 4" "NUL \<notin> set ds" using True number_digits [of k] by (simp_all add: ds_def k_def split: if_splits)
  have u: "info i u = (info i s)\<lparr>send_info := (send_info (info i s))\<lparr>packet_number_prefix := k\<rparr>\<rparr>" "heap u = heap s"
      "world u = world s" "length (sockets u) = length (sockets s)" "heap_fault u = heap_fault s"
    using assms(1) by (simp_all add: u_def info_def)
  define v where "v = exec_state (write_send_buffer i ds) u"
  have v: "v = u\<lparr>heap := (heap s)(a \<mapsto> Chars b'), heap_fault := heap_fault s \<or> x\<rparr>"
    using assms(2,3) u ds(1) by (auto simp: v_def write_send_buffer_def exec_simps chars_at_def x_def b'_def blit_def fault_def fun_upd_idem)
  have iv: "info i v = info i u" "length (sockets v) = length (sockets s)" by (simp_all add: v info_def u(4))
  have w: "exec_state (doif (10000 \<le> packet_number_prefix (send_info (info i s)))
      (upd_info i (\<lambda>d. d\<lparr>send_info := (send_info d)\<lparr>packet_number_prefix := 1\<rparr>\<rparr>))) s = u"
    using assms(1) by (simp add: exec_simps upd_info_def u_def k_def info_def)
  have t: "t = exec_state (upd_info i (\<lambda>d. d\<lparr>send_info := (send_info d)\<lparr>packet_number_prefix := k + 1\<rparr>\<rparr>)) v"
    using True u(1) w unfolding t_def v_def ds_def number_packet_def by (simp add: exec_simps)
  have it: "info i t = (info i v)\<lparr>send_info := (send_info (info i v))\<lparr>packet_number_prefix := k + 1\<rparr>\<rparr>" "heap t = heap v"
      "world t = world v" "length (sockets t) = length (sockets v)" "heap_fault t = heap_fault v"
    using assms(1) iv(2) unfolding t by (simp_all add: info_upd) (simp_all add: upd_info_def exec_simps)
  show ?thesis
  proof (rule that [of "k + 1" b' x])
    show "sv acc i t = ((sending_of (info i s))\<lparr>s_prefix := k + 1\<rparr>, (heap s)(a \<mapsto> Chars b'), heap_fault s \<or> x, acc (world s), length (sockets s))"
      by (simp add: sv_def it iv u sending_of_def) (simp add: v u)
    show "numbered b b'" using ds by (auto simp: numbered_def b'_def x_def)
    show "world t = world s" by (simp add: it v u)
  qed (use True in \<open>simp_all add: x_def it iv u\<close>)
qed

lemma send_chunk:
  fixes s :: "('w, 'z) sock_scheme" and T :: "('w, 'y) sock_api_scheme" and n :: nat
  assumes c: "counts T acc" and i: "i < length (sockets s)"
    and b: "send_buffer (info i s) = Some a" "heap s a = Some (Chars b)" "0 < n" "n \<le> length b"
  defines "p \<equiv> sock_send T i Send_buffer n False False"
  obtains m k b' x where
    "sv acc i (exec_state p s) = ((sending_of (info i s))\<lparr>s_prefix := k\<rparr>, (heap s)(a \<mapsto> Chars b'), heap_fault s \<or> x, acc (world s) + m, length (sockets s))"
    "x \<Longrightarrow> 0 < packet_number_prefix (send_info (info i s)) \<and> length b < 4"
    "0 < k \<or> b' \<noteq> b \<Longrightarrow> 0 < packet_number_prefix (send_info (info i s))" "numbered b b'"
    "result p s < 0 \<and> m = 0 \<or> result p s = m \<and> 0 < m \<and> m \<le> int n"
proof (cases "k_poll_signal_check T (mosh_signal T) (world s)")
  case True
  show ?thesis
  proof (rule that [of "packet_number_prefix (send_info (info i s))" b False 0])
    show "sv acc i (exec_state p s) = ((sending_of (info i s))\<lparr>s_prefix := packet_number_prefix (send_info (info i s))\<rparr>,
        (heap s)(a \<mapsto> Chars b), heap_fault s \<or> False, acc (world s) + 0, length (sockets s))"
      using True c b(2) by (simp add: p_def sock_send_def exec_simps) (simp add: sv_def info_def counts_def sending_of_def fun_upd_idem)
    show "result p s < 0 \<and> (0 :: int) = 0 \<or> result p s = 0 \<and> (0 :: int) < 0 \<and> 0 \<le> int n"
      using True c by (simp add: p_def sock_send_def exec_simps counts_def)
  qed (simp_all add: numbered_def)
next
  case False
  define u where "u = exec_state (number_packet T i) s"
  obtain k b' x where num: "sv acc i u = ((sending_of (info i s))\<lparr>s_prefix := k\<rparr>, (heap s)(a \<mapsto> Chars b'), heap_fault s \<or> x, acc (world s), length (sockets s))"
    "x \<Longrightarrow> 0 < packet_number_prefix (send_info (info i s)) \<and> length b < 4"
    "0 < k \<or> b' \<noteq> b \<Longrightarrow> 0 < packet_number_prefix (send_info (info i s))" "numbered b b'"
    "sock_fd (info i u) = sock_fd (info i s)" "send_flags (info i u) = send_flags (info i s)" "world u = world s"
    unfolding u_def by (rule number_run [where acc = acc and T = T, OF i b(1,2)]) blast
  let ?bs = "take n b'"
  obtain r w where t: "sock_tx T (sock_fd (info i s)) ?bs (send_flags (info i s)) (world s) = (r, w)" by (metis prod.collapse)
  have len: "length ?bs = n" "?bs \<noteq> []" using numberedD(1) [OF num(4)] b(3,4) by auto
  have "case sock_tx T (sock_fd (info i s)) ?bs (send_flags (info i s)) (world s) of (r, w') \<Rightarrow>
      (r < 0 \<longrightarrow> acc w' = acc (world s) \<and> 0 < errno T w') \<and>
      (0 \<le> r \<longrightarrow> acc w' = acc (world s) + r \<and> r \<le> int (length ?bs) \<and> (?bs \<noteq> [] \<longrightarrow> 0 < r))"
    using c by (simp only: counts_def)
  then have w: "r < 0 \<Longrightarrow> acc w = acc (world s) \<and> 0 < errno T w" "0 \<le> r \<Longrightarrow> acc w = acc (world s) + r \<and> r \<le> int n \<and> 0 < r"
    using len by (simp_all add: t)
  have buf: "send_buffer (info i u) = Some a" "heap u a = Some (Chars b')"
    using num(1) b(1) by (simp_all add: sv_def sending_of_def)
  have bs: "source_bytes i Send_buffer u = Some b'" using buf by (simp add: source_bytes_def chars_at_def)
  have le: "\<not> length b' < n" using numberedD(1) [OF num(4)] b(4) by simp
  have k: "sv acc i (exec_state (doif y (mosh_error T m l)) v) = sv acc i v" for y m l and v :: "('w, 'z) sock_scheme"
    by (simp add: exec_simps)
  have v: "sv acc i (u\<lparr>world := w\<rparr>) = ((sending_of (info i s))\<lparr>s_prefix := k\<rparr>, (heap s)(a \<mapsto> Chars b'), heap_fault s \<or> x, acc w, length (sockets s))"
    using num(1) by (simp add: sv_def info_def)
  have e: "sv acc i (exec_state p s) = ((sending_of (info i s))\<lparr>s_prefix := k\<rparr>, (heap s)(a \<mapsto> Chars b'), heap_fault s \<or> x, acc w, length (sockets s)) \<and>
      (result p s < 0 \<and> r < 0 \<or> result p s = r \<and> 0 \<le> r)"
    using False w le
    by (cases "r < 0") (auto simp: p_def sock_send_def exec_simps u_def [symmetric] num(5-7) bs t v sock_get_blocking_mode_def)
  show ?thesis
    by (rule that [of k b' x "if r < 0 then 0 else r", OF _ num(2-4)]) (use e w in \<open>auto split: if_splits\<close>)
qed

lemma finish:
  assumes "i < length (sockets s)" "send_buffer (info i s) = Some a" "heap s a \<noteq> None"
  shows "sv acc i (exec_state (finish_random T i) s) =
    ((sending_of (info i s))\<lparr>s_buf := None, s_size := 0, s_poll := False\<rparr>, (heap s)(a := None), heap_fault s, acc (world s), length (sockets s))"
proof -
  have p: "keeps (sv acc i) (print_throughput_summary T n ms)" for n ms
    unfolding print_throughput_summary_def by (intro keeps_intros)
  obtain b where "heap s a = Some b" using assms(3) by blast
  then show ?thesis
    using assms(1,2)
    by (simp add: finish_random_def sock_send_buffer_free_def free_def exec_simps upd_info_def info_def keepsD [OF p])
      (simp add: sv_def info_def sending_of_def)
qed

lemma sending_eqD:
  assumes "sending_of d = e"
  shows "send_buffer d = s_buf e" "send_buffer_size d = s_size e" "send_bytes_sent d = s_sent e" "send_bytes_left d = s_left e"
    "packet_number_prefix (send_info d) = s_prefix e" "send_poll d = s_poll e"
  by (simp_all flip: assms)

text \<open>What a call did: the bytes \<open>m\<close> it sent; it waits for the socket, or has ended and freed its buffer.\<close>

definition accounts :: "('w \<Rightarrow> int) \<Rightarrow> nat \<Rightarrow> sending \<Rightarrow> int \<Rightarrow> bool \<Rightarrow> ('w, 'z) sock_scheme \<Rightarrow> bool" where
  "accounts acc i d x f s \<longleftrightarrow> heap_fault s = f \<and>
     (\<exists>m. 0 \<le> m \<and> m \<le> s_left d \<and> acc (world s) = x + m \<and> send_bytes_sent (info i s) = s_sent d + word_of_int m \<and>
        send_bytes_left (info i s) = s_left d - m) \<and>
     (if send_poll (info i s) then ready i s \<and> 0 < send_bytes_left (info i s) else send_buffer (info i s) = None)"

lemma accounts_step:
  assumes "accounts acc i d' x' f s" "s_sent d' = s_sent d + word_of_int m" "s_left d' = s_left d - m" "x' = x + m" "0 \<le> m"
  shows "accounts acc i d x f s"
proof -
  obtain k where k: "0 \<le> k" "k \<le> s_left d'" "acc (world s) = x' + k" "send_bytes_sent (info i s) = s_sent d' + word_of_int k"
    "send_bytes_left (info i s) = s_left d' - k"
    using assms(1) unfolding accounts_def by blast
  then have "0 \<le> m + k \<and> m + k \<le> s_left d \<and> acc (world s) = x + (m + k) \<and>
      send_bytes_sent (info i s) = s_sent d + word_of_int (m + k) \<and> send_bytes_left (info i s) = s_left d - (m + k)"
    using assms(2-5) by simp
  then show ?thesis using assms(1) unfolding accounts_def by blast
qed

lemma random_loop:
  assumes c: "counts T acc"
  shows "ready i s \<Longrightarrow> send_bytes_left (info i s) < int fuel \<Longrightarrow> result (sock_send_random_data_length fuel T i) s \<and>
    accounts acc i (sending_of (info i s)) (acc (world s)) (heap_fault s) (exec_state (sock_send_random_data_length fuel T i) s)"
proof (induction fuel arbitrary: s)
  case 0
  then show ?case by (auto simp: ready_def buffer_ready_def)
next
  case (Suc fuel)
  let ?d = "sending_of (info i s)" and ?x = "acc (world s)"
  have stop: "accounts acc i ?d ?x (heap_fault s) (exec_state (finish_random T i) t)"
    if "sending_of (info i t) = ?d\<lparr>s_prefix := k\<rparr>" "heap t a \<noteq> None" "send_buffer (info i s) = Some a" "length (sockets t) = length (sockets s)"
      "acc (world t) = ?x" "heap_fault t = heap_fault s" for t :: "('a, 'c) sock_scheme" and a k
  proof -
    have l: "i < length (sockets t)" using Suc.prems(1) that(4) by (simp add: ready_def)
    have b: "send_buffer (info i t) = Some a" "0 \<le> send_bytes_left (info i s)"
      using arg_cong [OF that(1), of s_buf] that(3) Suc.prems(1) by (auto elim: readyE)
    define u where "u = exec_state (finish_random T i) t"
    have u: "sending_of (info i u) = ?d\<lparr>s_prefix := k, s_buf := None, s_size := 0, s_poll := False\<rparr>" "heap_fault u = heap_fault s" "acc (world u) = ?x"
      using finish [where acc = acc and T = T, OF l b(1) that(2)] that unfolding u_def sv_def by simp_all
    show ?thesis
      unfolding u_def [symmetric] accounts_def using u(2,3) b(2) sending_eqD [OF u(1)] by (auto intro!: exI [of _ 0])
  qed
  show ?case
  proof (cases "send_bytes_left (info i s) \<le> 0")
    case True
    then show ?thesis using Suc.prems stop [of s "packet_number_prefix (send_info (info i s))"] by (auto simp: exec_simps elim!: readyE)
  next
    case False
    then have pos: "0 < send_bytes_left (info i s)" by simp
    obtain a b str rest where ch: "send_buffer (info i s) = Some a"
      "exec_state (start_chunk i) s = s\<lparr>heap := (heap s)(a \<mapsto> Chars b)\<rparr>" "b = str @ NUL # rest" "NUL \<notin> set str" "str \<noteq> []"
      "int (length str) \<le> send_bytes_left (info i s)" "length b = Suc (send_buffer_size (info i s))"
      "b ! send_buffer_size (info i s) = NUL"
      "int (send_buffer_size (info i s)) \<le> send_bytes_left (info i s) \<Longrightarrow> NUL \<notin> set (take (send_buffer_size (info i s)) b)"
      using chunk [OF Suc.prems(1) pos] by blast
    define s1 where "s1 = s\<lparr>heap := (heap s)(a \<mapsto> Chars b)\<rparr>"
    have i1: "info i s1 = info i s" "heap s1 a = Some (Chars (str @ NUL # rest))" "world s1 = world s" "heap_fault s1 = heap_fault s"
      "sockets s1 = sockets s" by (simp_all add: s1_def info_def ch(3))
    define q :: "('a, 'c, int) sock_prog" where "q = sock_send T i Send_buffer (length str) False False"
    define t where "t = exec_state q s1"
    have pre: "0 < packet_number_prefix (send_info (info i s)) \<Longrightarrow> 4 \<le> send_buffer_size (info i s)"
      using Suc.prems(1) by (auto elim: readyE)
    have is1: "i < length (sockets s1)" using Suc.prems(1) i1(5) by (simp add: ready_def)
    have pos1: "0 < length str" "length str \<le> length (str @ NUL # rest)" "send_buffer (info i s1) = Some a"
      using ch(1,5) i1(1) by simp_all
    obtain m k b' x where m: "sv acc i t = ((sending_of (info i s1))\<lparr>s_prefix := k\<rparr>, (heap s1)(a \<mapsto> Chars b'), heap_fault s1 \<or> x, acc (world s1) + m, length (sockets s1))"
      "x \<Longrightarrow> 0 < packet_number_prefix (send_info (info i s1)) \<and> length (str @ NUL # rest) < 4"
      "0 < k \<or> b' \<noteq> str @ NUL # rest \<Longrightarrow> 0 < packet_number_prefix (send_info (info i s1))" "numbered (str @ NUL # rest) b'"
      "result q s1 < 0 \<and> m = 0 \<or> result q s1 = m \<and> 0 < m \<and> m \<le> int (length str)"
      unfolding t_def q_def by (rule send_chunk [OF c is1 pos1(3) i1(2) pos1(1,2)]) blast
    have x: "\<not> x" using m(2) pre ch(3,7) i1(1) by auto
    have t: "sending_of (info i t) = ?d\<lparr>s_prefix := k\<rparr>" "heap t = (heap s1)(a \<mapsto> Chars b')" "heap_fault t = heap_fault s" "acc (world t) = ?x + m"
      "length (sockets t) = length (sockets s)" using m(1) x i1 by (simp_all add: sv_def)
    have l: "i < length (sockets t)" using Suc.prems(1) t(5) by (simp add: ready_def)
    have b': "length b' = Suc (send_buffer_size (info i s))" "b' ! send_buffer_size (info i s) = NUL"
      "int (send_buffer_size (info i s)) \<le> send_bytes_left (info i s) \<Longrightarrow> NUL \<notin> set (take (send_buffer_size (info i s)) b')"
      "0 < k \<Longrightarrow> 4 \<le> send_buffer_size (info i s)"
    proof -
      have nb: "numbered b b'" "4 \<le> send_buffer_size (info i s) \<or> b' = b"
        using m(3,4) ch(3) pre i1(1) by auto
      show "length b' = Suc (send_buffer_size (info i s))" "b' ! send_buffer_size (info i s) = NUL"
        using numberedD(1,2) [OF nb(1)] nb(2) ch(7,8) by simp_all
      show "int (send_buffer_size (info i s)) \<le> send_bytes_left (info i s) \<Longrightarrow> NUL \<notin> set (take (send_buffer_size (info i s)) b')"
        using numberedD(3) [OF nb(1)] ch(9) by blast
      show "0 < k \<Longrightarrow> 4 \<le> send_buffer_size (info i s)" using m(3) pre i1(1) by simp
    qed
    have br: "buffer_ready (?d\<lparr>s_prefix := k, s_left := j\<rparr>) (heap t)" if "0 \<le> j" "j \<le> send_bytes_left (info i s)" for j
      using that Suc.prems(1) ch(1) b' t(2) by (auto simp: ready_def buffer_ready_def)
    note run = exec_simps ch(2) s1_def [symmetric] strlen_chunk [where a = a and rest = rest] i1 ch(1,4)
      q_def [symmetric] t_def [symmetric]
    show ?thesis
    proof (cases "result q s1 = - EAGAIN T")
      case True
      have m0: "m = 0" using m(5) True c by (auto simp: counts_def)
      define u where "u = exec_state (upd_info i (\<lambda>d. d\<lparr>send_poll := True\<rparr>)) t"
      have u: "info i u = (info i t)\<lparr>send_poll := True\<rparr>" "heap u = heap t" "heap_fault u = heap_fault t" "acc (world u) = acc (world t)"
        "length (sockets u) = length (sockets t)"
        using l by (simp_all add: u_def info_upd) (simp_all add: upd_info_def exec_simps)
      have e: "exec_state (sock_send_random_data_length (Suc fuel) T i) s = u" "result (sock_send_random_data_length (Suc fuel) T i) s"
        using pos True by (simp_all add: run u_def)
      have "buffer_ready (sending_of (info i u)) (heap u)"
        using br [of "send_bytes_left (info i s)"] pos t(1) u(1,2) by (auto simp: buffer_ready_def sending_eqD [OF t(1)])
      then have "ready i u" using l u(5) by (simp add: ready_def)
      then show ?thesis
        using e u t pos m0 sending_eqD [OF t(1)] by (auto simp: accounts_def intro!: exI [of _ 0])
    next
      case other: False
      show ?thesis
      proof (cases "result q s1 < 0")
        case True
        then have "m = 0" using m(5) by auto
        moreover have "exec_state (sock_send_random_data_length (Suc fuel) T i) s = exec_state (finish_random T i) t"
          "result (sock_send_random_data_length (Suc fuel) T i) s"
          using pos other True by (simp_all add: run)
        ultimately show ?thesis using stop [of t k a] t i1 ch(1) by simp
      next
        case False
        then have r: "result q s1 = m" "0 < m" "m \<le> send_bytes_left (info i s)" using m(5) ch(6) by auto
        define u where "u = exec_state (print_progress T i) (exec_state (upd_info i (\<lambda>d. d\<lparr>send_bytes_sent := send_bytes_sent d + word_of_int m,
          send_bytes_left := send_bytes_left d - m\<rparr>)) t)"
        have "sv acc i u = (sending_of ((info i t)\<lparr>send_bytes_sent := send_bytes_sent (info i t) + word_of_int m,
          send_bytes_left := send_bytes_left (info i t) - m\<rparr>), heap t, heap_fault t, acc (world t), length (sockets t))"
          unfolding u_def keepsD [OF keeps_sv_progress] by (rule sv_upd [OF l])
        then have u: "sending_of (info i u) = ?d\<lparr>s_prefix := k, s_sent := send_bytes_sent (info i s) + word_of_int m, s_left := send_bytes_left (info i s) - m\<rparr>"
          "heap u = heap t" "heap_fault u = heap_fault t" "acc (world u) = acc (world t)" "length (sockets u) = length (sockets t)"
          using t(1) by (simp_all add: sv_def sending_of_def)
        have e: "exec_state (sock_send_random_data_length (Suc fuel) T i) s = exec_state (sock_send_random_data_length fuel T i) u"
          "result (sock_send_random_data_length (Suc fuel) T i) s = result (sock_send_random_data_length fuel T i) u"
          using pos other False r(1) by (simp_all add: run u_def)
        have "buffer_ready (sending_of (info i u)) (heap u)"
          using br [of "send_bytes_left (info i s) - m"] r u(1,2) by (auto simp: buffer_ready_def)
        then have "ready i u" using l u(5) by (simp add: ready_def)
        moreover have "send_bytes_left (info i u) < int fuel" using sending_eqD(4) [OF u(1)] Suc.prems(2) r(2) by simp
        ultimately have ih: "result (sock_send_random_data_length fuel T i) u"
          "accounts acc i (sending_of (info i u)) (acc (world u)) (heap_fault u) (exec_state (sock_send_random_data_length fuel T i) u)"
          using Suc.IH by blast+
        have "accounts acc i ?d ?x (heap_fault s) (exec_state (sock_send_random_data_length fuel T i) u)"
          by (rule accounts_step [where m = m, OF ih(2) [unfolded u(3) t(3)]]) (use u t r in simp_all)
        then show ?thesis using ih(1) e by simp
      qed
    qed
  qed
qed

text \<open>The buffer of a socket is not dangling.\<close>

definition buffer_live :: "nat \<Rightarrow> ('w, 'z) sock_scheme \<Rightarrow> bool" where
  "buffer_live i s \<longleftrightarrow> i < length (sockets s) \<and> (case send_buffer (info i s) of None \<Rightarrow> True | Some a \<Rightarrow> heap s a \<noteq> None)"

lemma malloc_run:
  "exec_state (malloc T b) s = (if fst (malloc_ok T (world s))
     then s\<lparr>world := snd (malloc_ok T (world s)), heap := (heap s)(next_block s \<mapsto> b), next_block := Suc (next_block s)\<rparr>
     else s\<lparr>world := snd (malloc_ok T (world s))\<rparr>)"
  "result (malloc T b) s = (if fst (malloc_ok T (world s)) then Some (next_block s) else None)"
  by (simp_all add: malloc_def exec_simps)

lemma print_fields [simp]:
  "sockets (exec_state (mosh_error P fmt args) s) = sockets s" "heap (exec_state (mosh_error P fmt args) s) = heap s"
  "heap_fault (exec_state (mosh_error P fmt args) s) = heap_fault s" "world (exec_state (mosh_error P fmt args) s) = world s"
  by (rule keepsD, rule keeps_mosh_print, simp_all)+

lemma calloc_buffer:
  fixes s :: "('w, 'z) sock_scheme" and n :: nat
  assumes c: "counts T acc" and l: "i < length (sockets s)"
  defines "t \<equiv> exec_state (sock_send_buffer_calloc T i n) s"
  obtains h f where "sv acc i t = ((sending_of (info i s))\<lparr>s_size := n, s_buf := (if fst (malloc_ok T (world s)) then Some (next_block s) else None)\<rparr>,
      h, f, acc (world s), length (sockets s))"
    "buffer_live i s \<Longrightarrow> f = heap_fault s"
    "result (sock_send_buffer_calloc T i n) s \<longleftrightarrow> fst (malloc_ok T (world s))"
    "fst (malloc_ok T (world s)) \<Longrightarrow> h (next_block s) = Some (Chars (replicate (Suc n) NUL))"
    "sock_fd (info i t) = sock_fd (info i s)"
proof -
  define q :: "('w, 'z, unit) sock_prog" where "q = (case send_buffer (info i s) of None \<Rightarrow> return ()
      | Some a \<Rightarrow>
          if send_buffer_size (info i s) = n then
            modify (\<lambda>s'. s'\<lparr>heap := (heap s')(a \<mapsto> Chars (replicate (send_buffer_size (info i s)) NUL @ drop (send_buffer_size (info i s)) (chars_at (heap s') a)))\<rparr>)
          else free (Some a))"
  obtain h f where q: "exec_state q s = s\<lparr>heap := h, heap_fault := f\<rparr>" "buffer_live i s \<Longrightarrow> f = heap_fault s"
  proof (cases "send_buffer (info i s)")
    case None
    then have "exec_state q s = s\<lparr>heap := heap s, heap_fault := heap_fault s\<rparr>" by (simp add: q_def exec_simps)
    then show ?thesis by (rule that) simp
  next
    case (Some a)
    let ?same = "send_buffer_size (info i s) = n" and ?dead = "heap s a = None"
    have f: "exec_state (free (Some a)) s = s\<lparr>heap := (heap s)(a := None), heap_fault := heap_fault s \<or> ?dead\<rparr>"
      by (auto simp: free_def exec_simps fault_def fun_upd_idem)
    let ?h = "if ?same
      then (heap s)(a \<mapsto> Chars (replicate (send_buffer_size (info i s)) NUL @ drop (send_buffer_size (info i s)) (chars_at (heap s) a)))
      else (heap s)(a := None)"
    have "exec_state q s = s\<lparr>heap := ?h, heap_fault := heap_fault s \<or> \<not> ?same \<and> ?dead\<rparr>"
      unfolding q_def by (simp add: Some exec_if exec_basic f)
    then show ?thesis by (rule that) (auto simp: buffer_live_def Some)
  qed
  let ?w = "snd (malloc_ok T (world s))" and ?ok = "fst (malloc_ok T (world s))"
  define d where "d = (info i s)\<lparr>send_buffer_size := n, send_buffer := (if ?ok then Some (next_block s) else None)\<rparr>"
  define h' where "h' = (if ?ok then h(next_block s \<mapsto> Chars (replicate (Suc n) NUL)) else h)"
  have e: "info i t = d" "heap t = h'" "heap_fault t = f" "world t = ?w" "length (sockets t) = length (sockets s)"
    "result (sock_send_buffer_calloc T i n) s = ?ok"
  proof -
    define r :: "('w, 'z, bool) sock_prog" where "r = (do {
        upd_info i (\<lambda>d. d\<lparr>send_buffer_size := n\<rparr>);
        p \<leftarrow> malloc T (Chars (replicate (n + 1) NUL));
        upd_info i (\<lambda>d. d\<lparr>send_buffer := p\<rparr>);
        doif (p = None) (mosh_error T ''Out of memory while reserving send buffer of size %d bytes'' [PInt (int n)]);
        return (p \<noteq> None) })"
    have "exec_state (sock_send_buffer_calloc T i n) s = exec_state r (s\<lparr>heap := h, heap_fault := f\<rparr>)"
      "result (sock_send_buffer_calloc T i n) s = result r (s\<lparr>heap := h, heap_fault := f\<rparr>)"
      unfolding sock_send_buffer_calloc_def q(1) [symmetric] q_def r_def by (simp_all only: exec_bind result_bind exec_basic)
    then show "info i t = d" "heap t = h'" "heap_fault t = f" "world t = ?w" "length (sockets t) = length (sockets s)"
      "result (sock_send_buffer_calloc T i n) s = ?ok"
      using l by (simp_all add: t_def r_def exec_simps malloc_run upd_info_def info_def d_def h'_def)
  qed
  show ?thesis
    using that [of h' f] e c q(2) by (simp add: sv_def counts_def d_def sending_of_def h'_def)
qed

lemma blocking_sv:
  assumes "counts T acc"
  shows "keeps (sv acc i) (set_sock_blocking_mode T fd b)"
  using assms by (simp add: set_sock_blocking_mode_def keeps_def exec_simps sv_def info_def counts_def)

lemma accounts_sv:
  assumes "sv acc i s = sv acc i t" shows "accounts acc i d x f s = accounts acc i d x f t"
  using assms by (simp add: accounts_def ready_def sv_def sending_of_def)

lemma sv_write:
  assumes "sv acc i s = (d, h, f, x, l)" "s_buf d = Some a" "h a = Some (Chars b)" "length bs \<le> length b"
  shows "sv acc i (exec_state (write_send_buffer i bs) s) = (d, h(a \<mapsto> Chars (blit b 0 bs)), f, x, l)"
  using assms by (auto simp: write_send_buffer_def exec_simps sv_def info_def chars_at_def)

lemma sv_upd_to:
  assumes "sv acc i s = (d, h, f, x, l)" "i < l" "\<And>e. sending_of e = d \<Longrightarrow> sending_of (g e) = d'"
  shows "sv acc i (exec_state (upd_info i g) s) = (d', h, f, x, l)"
proof -
  have "i < length (sockets s)" using assms(1,2) by (simp add: sv_def)
  then show ?thesis using assms(1,3) by (simp add: sv_upd) (simp add: sv_def)
qed

lemma sv_start_random:
  assumes c: "counts T acc" and s: "sv acc i s = (d, h, f, x, l)" "i < l" "s_buf d = Some p" "h p = Some (Chars (replicate (Suc n) NUL))"
  shows "sv acc i (exec_state (start_random T i n e a) s) = (d\<lparr>s_sent := 0, s_left := random_data_length a\<rparr>,
    h(p \<mapsto> Chars (replicate n (CHR ''d'') @ [NUL])), f, x, l)"
proof -
  define g where "g = (\<lambda>d :: sock_info. d\<lparr>send_bytes_sent := 0, send_bytes_left := random_data_length a, log_receive_data := False, send_print_interval := 10\<rparr>)"
  define d1 where "d1 = d\<lparr>s_sent := 0, s_left := random_data_length a\<rparr>"
  have b: "blit (replicate (Suc n) NUL) 0 (replicate n (CHR ''d'')) = replicate n (CHR ''d'') @ [NUL]"
    by (simp add: blit_def del: replicate_Suc) simp
  define u where "u = exec_state (do {
      mosh_print T ''Sending %d bytes of data with buffer_size=%d, blocking=%d'' [PInt (random_data_length a), PInt (int n), PInt (if a_blocking a then 1 else 0)];
      doif (sock_type e = num T ''SOCK_STREAM'' \<and> n > 4096 \<or> sock_type e = num T ''SOCK_DGRAM'' \<and> n > 1200)
        (mosh_warn T ''Sending %d bytes of data with buffer_size=%d, blocking=%d'' [PInt (random_data_length a), PInt (int n), PInt (if a_blocking a then 1 else 0)]) }) s"
  have u: "sv acc i u = (d, h, f, x, l)" unfolding u_def s(1) [symmetric] by (intro keepsD keeps_intros)
  have u1: "sv acc i (exec_state (upd_info i g) u) = (d1, h, f, x, l)"
    by (rule sv_upd_to [OF u s(2)]) (auto simp: g_def d1_def sending_of_def)
  then have u2: "sv acc i (exec_state (set_sock_blocking_mode T (sock_fd e) (a_blocking a)) (exec_state (upd_info i g) u)) = (d1, h, f, x, l)"
    by (simp add: keepsD [OF blocking_sv [OF c]])
  have u3: "sv acc i (exec_state (write_send_buffer i (replicate n (CHR ''d'')))
      (exec_state (set_sock_blocking_mode T (sock_fd e) (a_blocking a)) (exec_state (upd_info i g) u))) =
      (d1, h(p \<mapsto> Chars (replicate n (CHR ''d'') @ [NUL])), f, x, l)"
    unfolding b [symmetric] by (rule sv_write [OF u2]) (simp_all add: d1_def s)
  have "sv acc i (exec_state (upd_info i (\<lambda>d. d\<lparr>start_time_ms := t\<rparr>)) (exec_state (write_send_buffer i (replicate n (CHR ''d'')))
      (exec_state (set_sock_blocking_mode T (sock_fd e) (a_blocking a)) (exec_state (upd_info i g) u)))) =
      (d1, h(p \<mapsto> Chars (replicate n (CHR ''d'') @ [NUL])), f, x, l)" for t
    by (rule sv_upd_to [OF u3 s(2)]) (simp add: sending_of_def)
  then show ?thesis
    unfolding start_random_def Let_def u_def g_def d1_def by (simp only: exec_bind exec_world exec_doif result_bind)
qed

text \<open>What \<open>send_random\<close> does before its loop.\<close>

lemma send_random_start:
  fixes s :: "('w, 'z) sock_scheme" and T :: "('w, 'y) sock_api_scheme" and a :: send_args and fuel i :: nat
  assumes c: "counts T acc" and i: "i < length (sockets s)" and a: "a_interval a = SOCK_SEND_DATA_INTERVAL_NONE"
    and ok: "fst (malloc_ok T (world s))"
  defines "len \<equiv> chunk_size T (sock_type (info i s)) a" and "loop \<equiv> sock_send_random_data_length fuel T i" and "p \<equiv> send_random fuel T i a"
  obtains s2 h f where
    "sv acc i s2 = ((sending_of (info i s))\<lparr>s_size := len, s_buf := Some (next_block s), s_sent := 0, s_left := random_data_length a\<rparr>,
        h(next_block s \<mapsto> Chars (replicate len (CHR ''d'') @ [NUL])), f, acc (world s), length (sockets s))"
    "buffer_live i s \<Longrightarrow> f = heap_fault s"
    "result p s = (if result loop s2 then Some 0 else None)"
    "result loop s2 \<Longrightarrow>
       exec_state p s = exec_state (set_sock_blocking_mode T (sock_fd (info i s)) False) (exec_state loop s2)"
proof -
  define s1 where "s1 = exec_state (sock_send_buffer_calloc T i len) s"
  define q :: "('w, 'z, unit) sock_prog" where "q = start_random T i len (info i s) a"
  define s2 where "s2 = exec_state q s1"
  obtain h f where h: "sv acc i s1 = ((sending_of (info i s))\<lparr>s_size := len, s_buf := Some (next_block s)\<rparr>,
      h, f, acc (world s), length (sockets s))" "buffer_live i s \<Longrightarrow> f = heap_fault s"
    "result (sock_send_buffer_calloc T i len) s"
    "h (next_block s) = Some (Chars (replicate (Suc len) NUL))"
    unfolding s1_def by (rule calloc_buffer [OF c i, of len]) (simp add: ok)
  define m where "m = (do { ended \<leftarrow> loop;
      if \<not> ended then return None else do { set_sock_blocking_mode T (sock_fd (info i s)) False; return (Some 0) } } :: ('w, 'z, int option) sock_prog)"
  have body: "exec_state p s = exec_state m s2" "result p s = result m s2"
    using h(3) unfolding p_def send_random_def s2_def q_def s1_def m_def loop_def len_def
    by (simp_all add: a Let_def exec_bind result_bind exec_basic exec_if exec_return result_return)
  show ?thesis
  proof (rule that [of s2 h f])
    show "sv acc i s2 = ((sending_of (info i s))\<lparr>s_size := len, s_buf := Some (next_block s), s_sent := 0, s_left := random_data_length a\<rparr>,
        h(next_block s \<mapsto> Chars (replicate len (CHR ''d'') @ [NUL])), f, acc (world s), length (sockets s))"
      unfolding s2_def q_def using sv_start_random [OF c h(1) i _ h(4)] by simp
  qed (simp_all add: body m_def exec_simps h(2))
qed

lemma send_random_no_memory:
  assumes "counts T acc" "i < length (sockets s)" "a_interval a = SOCK_SEND_DATA_INTERVAL_NONE" "\<not> fst (malloc_ok T (world s))"
  shows "result (send_random fuel T i a) s = Some (- ENOMEM)"
  using calloc_buffer [OF assms(1,2), of "chunk_size T (sock_type (info i s)) a"] assms(3,4)
  by (auto simp: send_random_def Let_def exec_simps)

lemma send_random_effect:
  fixes s :: "('w, 'z) sock_scheme"
  assumes c: "counts T acc" and b: "buffer_live i s"
    and pre: "0 < packet_number_prefix (send_info (info i s)) \<Longrightarrow> 4 \<le> chunk_size T (sock_type (info i s)) a"
    and a: "a_interval a = SOCK_SEND_DATA_INTERVAL_NONE" "0 < random_data_length a" "random_data_length a < int fuel"
    and n: "0 < chunk_size T (sock_type (info i s)) a" and ok: "fst (malloc_ok T (world s))"
  shows "result (send_random fuel T i a) s = Some 0 \<and>
      accounts acc i ((sending_of (info i s))\<lparr>s_sent := 0, s_left := random_data_length a\<rparr>) (acc (world s)) (heap_fault s)
        (exec_state (send_random fuel T i a) s)"
proof -
  have i: "i < length (sockets s)" using b by (simp add: buffer_live_def)
  let ?loop = "sock_send_random_data_length fuel T i" and ?len = "chunk_size T (sock_type (info i s)) a"
  obtain s2 h f where st: "sv acc i s2 = ((sending_of (info i s))\<lparr>s_size := ?len, s_buf := Some (next_block s), s_sent := 0, s_left := random_data_length a\<rparr>,
        h(next_block s \<mapsto> Chars (replicate ?len (CHR ''d'') @ [NUL])), f, acc (world s), length (sockets s))"
    and f: "f = heap_fault s" and res: "result (send_random fuel T i a) s = (if result ?loop s2 then Some 0 else None)"
    and exec: "result ?loop s2 \<Longrightarrow> exec_state (send_random fuel T i a) s =
      exec_state (set_sock_blocking_mode T (sock_fd (info i s)) False) (exec_state ?loop s2)"
    by (rule send_random_start [OF c i a(1) ok, where fuel = fuel]) (use b in blast)
  have v: "sending_of (info i s2) = (sending_of (info i s))\<lparr>s_size := ?len, s_buf := Some (next_block s), s_sent := 0, s_left := random_data_length a\<rparr>"
    "heap s2 = h(next_block s \<mapsto> Chars (replicate ?len (CHR ''d'') @ [NUL]))" "heap_fault s2 = heap_fault s" "acc (world s2) = acc (world s)"
    "length (sockets s2) = length (sockets s)" using st f by (simp_all add: sv_def)
  have r: "ready i s2" using v(5) i a(2) n pre by (simp add: ready_def buffer_ready_def v(1,2)) (simp add: NUL_def nth_append)
  have loop: "result ?loop s2"
    "accounts acc i (sending_of (info i s2)) (acc (world s2)) (heap_fault s2) (exec_state ?loop s2)"
    using random_loop [OF c r, of fuel] a(3) sending_eqD(4) [OF v(1)] by simp_all
  have "accounts acc i (sending_of (info i s2)) (acc (world s)) (heap_fault s) (exec_state (send_random fuel T i a) s)"
    using loop(2) v(3,4) exec [OF loop(1)] by (simp add: accounts_sv [OF keepsD [OF blocking_sv [OF c]]])
  then show ?thesis using res loop(1) by (simp add: accounts_def v(1))
qed

subsection \<open>Sending comes to an end\<close>

text \<open>
  Whatever else is wrong with it, the buffer of a call has a first byte that is no NUL: no call
  sends an empty string, so every call sends something or fails.
\<close>

definition sendable :: "nat \<Rightarrow> ('w, 'z) sock_scheme \<Rightarrow> bool" where
  "sendable i s \<longleftrightarrow> i < length (sockets s) \<and> 0 < send_buffer_size (info i s) \<and>
     (\<exists>a b. send_buffer (info i s) = Some a \<and> heap s a = Some (Chars b) \<and> length b = Suc (send_buffer_size (info i s)) \<and> hd b \<noteq> NUL)"

lemma sendable_chunk:
  assumes "sendable i s" "0 < send_bytes_left (info i s)"
  obtains a b where "send_buffer (info i s) = Some a" "exec_state (start_chunk i) s = s\<lparr>heap := (heap s)(a \<mapsto> Chars b)\<rparr>"
    "length b = Suc (send_buffer_size (info i s))" "hd b \<noteq> NUL"
proof -
  let ?n = "send_buffer_size (info i s)" and ?l = "send_bytes_left (info i s)"
  obtain a b where r: "send_buffer (info i s) = Some a" "heap s a = Some (Chars b)" "length b = Suc ?n" "hd b \<noteq> NUL"
    using assms(1) by (auto simp: sendable_def)
  show ?thesis
  proof (cases "?l < int ?n")
    case False
    then have "exec_state (start_chunk i) s = s\<lparr>heap := (heap s)(a \<mapsto> Chars b)\<rparr>"
      using r(2) by (simp add: start_chunk_def exec_simps fun_upd_idem)
    then show ?thesis using r by (intro that [of a b])
  next
    case True
    let ?b = "blit (blit b 0 (replicate ?n NUL)) 0 (replicate (nat ?l) (CHR ''l''))"
    have e: "exec_state (start_chunk i) s = s\<lparr>heap := (heap s)(a \<mapsto> Chars ?b)\<rparr>"
      using True r by (simp add: start_chunk_def write_send_buffer_def exec_simps info_def chars_at_def)
    obtain k where "nat ?l = Suc k" using assms(2) by (cases "nat ?l") auto
    then have "hd ?b \<noteq> NUL" by (simp add: blit_def NUL_def)
    moreover have "length ?b = Suc ?n" using True r(3) by simp
    ultimately show ?thesis using e r(1) by (intro that [of a ?b])
  qed
qed

lemma loop_returns:
  fixes T :: "('w, 'y) sock_api_scheme"
  assumes c: "counts T acc"
  shows "sendable i s \<Longrightarrow> send_bytes_left (info i s) < int fuel \<Longrightarrow> 0 < fuel \<Longrightarrow> result (sock_send_random_data_length fuel T i) s"
proof (induction fuel arbitrary: s)
  case (Suc fuel)
  show ?case
  proof (cases "send_bytes_left (info i s) \<le> 0")
    case False
    then have pos: "0 < send_bytes_left (info i s)" by simp
    obtain a b where ch: "send_buffer (info i s) = Some a" "exec_state (start_chunk i) s = s\<lparr>heap := (heap s)(a \<mapsto> Chars b)\<rparr>"
      "length b = Suc (send_buffer_size (info i s))" "hd b \<noteq> NUL"
      by (rule sendable_chunk [OF Suc.prems(1) pos])
    define n where "n = length (cstr b)"
    define s1 where "s1 = s\<lparr>heap := (heap s)(a \<mapsto> Chars b), heap_fault := heap_fault s \<or> \<not> terminated b\<rparr>"
    have n: "0 < n" "n \<le> length b"
      using ch(3,4) length_takeWhile_le [of _ b] by (cases b, simp_all add: n_def cstr_def)
    have len: "result (strlen_send_buffer i) (s\<lparr>heap := (heap s)(a \<mapsto> Chars b)\<rparr>) = n"
      "exec_state (strlen_send_buffer i) (s\<lparr>heap := (heap s)(a \<mapsto> Chars b)\<rparr>) = s1"
      using ch(1) by (auto simp: strlen_send_buffer_def exec_simps source_bytes_def chars_at_def n_def s1_def fault_def info_def)
    have i1: "info i s1 = info i s" "heap s1 a = Some (Chars b)" "length (sockets s1) = length (sockets s)"
      by (simp_all add: s1_def info_def)
    have b1: "send_buffer (info i s1) = Some a" using ch(1) i1(1) by simp
    have l1: "i < length (sockets s1)" using Suc.prems(1) i1(3) by (simp add: sendable_def)
    define q :: "('w, 'a, int) sock_prog" where "q = sock_send T i Send_buffer n False False"
    define t where "t = exec_state q s1"
    obtain m k b' x where m: "sv acc i t = ((sending_of (info i s1))\<lparr>s_prefix := k\<rparr>, (heap s1)(a \<mapsto> Chars b'), heap_fault s1 \<or> x, acc (world s1) + m, length (sockets s1))"
      "numbered b b'" "result q s1 < 0 \<and> m = 0 \<or> result q s1 = m \<and> 0 < m \<and> m \<le> int n"
      unfolding t_def q_def by (rule send_chunk [OF c l1 b1 i1(2) n]) blast
    have ts: "sending_of (info i t) = (sending_of (info i s))\<lparr>s_prefix := k\<rparr>" "heap t a = Some (Chars b')"
      "length (sockets t) = length (sockets s)" using m(1) i1 by (simp_all add: sv_def)
    note run = exec_simps ch(2) len q_def [symmetric] t_def [symmetric]
    show ?thesis
    proof (cases "result q s1 < 0")
      case True
      then show ?thesis using pos by (simp add: run)
    next
      case r: False
      then have r1: "result q s1 = m" "0 < m" using m(3) by auto
      define u where "u = exec_state (print_progress T i) (exec_state (upd_info i (\<lambda>d. d\<lparr>send_bytes_sent := send_bytes_sent d + word_of_int m,
        send_bytes_left := send_bytes_left d - m\<rparr>)) t)"
      have lt: "i < length (sockets t)" using Suc.prems(1) ts(3) by (simp add: sendable_def)
      have "sv acc i u = (sending_of ((info i t)\<lparr>send_bytes_sent := send_bytes_sent (info i t) + word_of_int m,
        send_bytes_left := send_bytes_left (info i t) - m\<rparr>), heap t, heap_fault t, acc (world t), length (sockets t))"
        unfolding u_def keepsD [OF keeps_sv_progress] by (rule sv_upd [OF lt])
      then have u: "sending_of (info i u) = (sending_of (info i s))\<lparr>s_prefix := k, s_sent := send_bytes_sent (info i s) + word_of_int m,
          s_left := send_bytes_left (info i s) - m\<rparr>" "heap u a = Some (Chars b')" "length (sockets u) = length (sockets s)"
        using ts sending_eqD [OF ts(1)] by (simp_all add: sv_def sending_of_def)
      have "b \<noteq> []" using ch(3) by auto
      then have nb: "length b' = length b" "hd b' \<noteq> NUL"
        using numberedD(1,4) [OF m(2)] ch(4) by simp_all
      have "sendable i u"
        using Suc.prems(1) ch(1,3) u(2,3) nb sending_eqD [OF u(1)] by (simp add: sendable_def)
      moreover have "send_bytes_left (info i u) < int fuel" using sending_eqD(4) [OF u(1)] Suc.prems(2) r1(2) by simp
      moreover have "0 < fuel" using pos Suc.prems(2) by auto
      ultimately have ih: "result (sock_send_random_data_length fuel T i) u" by (rule Suc.IH)
      have "result (sock_send_random_data_length (Suc fuel) T i) s"
        using pos r r1 ih by (simp add: run u_def)
      then show ?thesis .
    qed
  qed (simp add: exec_simps)
qed simp

lemma send_random_returns:
  fixes s :: "('w, 'z) sock_scheme"
  assumes c: "counts T acc" and i: "i < length (sockets s)"
    and a: "0 < random_data_length a" "random_data_length a < int fuel" and n: "0 < chunk_size T (sock_type (info i s)) a"
  shows "result (send_random fuel T i a) s \<noteq> None"
proof (cases "a_interval a = SOCK_SEND_DATA_INTERVAL_NONE \<and> fst (malloc_ok T (world s))")
  case True
  then have none: "a_interval a = SOCK_SEND_DATA_INTERVAL_NONE" and ok: "fst (malloc_ok T (world s))" by simp_all
  let ?len = "chunk_size T (sock_type (info i s)) a"
  obtain s2 :: "('w, 'z) sock_scheme" and h f where st: "sv acc i s2 = ((sending_of (info i s))\<lparr>s_size := ?len, s_buf := Some (next_block s), s_sent := 0, s_left := random_data_length a\<rparr>,
        h(next_block s \<mapsto> Chars (replicate ?len (CHR ''d'') @ [NUL])), f, acc (world s), length (sockets s))"
    and res: "result (send_random fuel T i a) s = (if result (sock_send_random_data_length fuel T i) s2 then Some 0 else None)"
    by (rule send_random_start [OF c i none ok, where fuel = fuel]) blast
  have v: "sending_of (info i s2) = (sending_of (info i s))\<lparr>s_size := ?len, s_buf := Some (next_block s), s_sent := 0, s_left := random_data_length a\<rparr>"
    "heap s2 = h(next_block s \<mapsto> Chars (replicate ?len (CHR ''d'') @ [NUL]))" "length (sockets s2) = length (sockets s)"
    using st by (simp_all add: sv_def)
  have "hd (replicate ?len (CHR ''d'') @ [NUL]) \<noteq> NUL" using n by (cases ?len) (simp_all add: NUL_def)
  then have "sendable i s2" using i n sending_eqD [OF v(1)] by (simp add: sendable_def v(2,3))
  then have "result (sock_send_random_data_length fuel T i) s2"
    using loop_returns [OF c, of i s2 fuel] a sending_eqD(4) [OF v(1)] by simp
  then show ?thesis using res by simp
next
  case False
  then show ?thesis
  proof (cases "a_interval a = SOCK_SEND_DATA_INTERVAL_NONE")
    case True
    then show ?thesis using False send_random_no_memory [OF c i True] by simp
  qed (simp add: send_random_def exec_simps)
qed

text \<open>A fault is not forgotten.\<close>

named_theorems sticky_intros \<open>operations after which a fault is still there\<close>

definition sticky :: "('w, 'z, 'a) sock_prog \<Rightarrow> bool" where
  "sticky p \<longleftrightarrow> (\<forall>s. heap_fault s \<longrightarrow> heap_fault (exec_state p s))"

lemma sticky_basic [sticky_intros]:
  "sticky (return x)" "sticky (gets f)" "sticky (ask g)" "sticky (call h)" "sticky (act k)" "sticky fault" "sticky (upd_info i u)"
  "sticky (mosh_print P fmt args)" "sticky (mosh_error P fmt args)"
  unfolding sticky_def fault_def upd_info_def
  by (simp_all add: exec_simps keepsD [OF keeps_mosh_print(1)] keepsD [OF keeps_mosh_print(3)])

lemma sticky_bind [sticky_intros]: "sticky p \<Longrightarrow> (\<And>x. sticky (q x)) \<Longrightarrow> sticky (State_Monad.bind p q)"
  by (simp add: sticky_def exec_bind)

lemma sticky_if [sticky_intros]: "sticky p \<Longrightarrow> sticky q \<Longrightarrow> sticky (if b then p else q)"
  by simp

lemma sticky_doif [sticky_intros]: "sticky p \<Longrightarrow> sticky (doif b p)"
  by (simp add: sticky_def exec_simps)

lemma sticky_option [sticky_intros]: "sticky p \<Longrightarrow> (\<And>x. sticky (q x)) \<Longrightarrow> sticky (case y of None \<Rightarrow> p | Some x \<Rightarrow> q x)"
  by (simp split: option.split)

lemma sticky_hex [sticky_intros]: "sticky (sock_print_data_hex T bs)"
proof (induction T bs rule: sock_print_data_hex.induct)
  case (1 T bs)
  then show ?case by (subst sock_print_data_hex.simps) (auto intro!: sticky_intros)
qed

lemma stickyD: "sticky p \<Longrightarrow> heap_fault s \<Longrightarrow> heap_fault (exec_state p s)"
  by (simp add: sticky_def)

lemma sticky_after: "heap_fault (exec_state p s) \<Longrightarrow> (\<And>x. sticky (q x)) \<Longrightarrow> heap_fault (exec_state (State_Monad.bind p q) s)"
  by (simp add: sticky_def exec_bind)

lemma number_null:
  assumes i: "i < length (sockets s)" "0 < packet_number_prefix (send_info (info i s))" "send_buffer (info i s) = None"
  shows "heap_fault (exec_state (number_packet T i) s)"
proof -
  define n where "n = (if 10000 \<le> packet_number_prefix (send_info (info i s)) then 1 else packet_number_prefix (send_info (info i s)))"
  have "show_padded 4 n \<noteq> []" by (auto simp: show_padded_def show_int_def pad_def Let_def)
  then have w: "heap_fault (exec_state (write_send_buffer i (take 4 (show_padded 4 n))) t)" if "send_buffer (info i t) = None" for t :: "('a, 'b) sock_scheme"
    using that by (simp add: write_send_buffer_def exec_simps fault_def)
  show ?thesis
    using i w by (auto simp: number_packet_def exec_simps n_def upd_info_def info_def fault_def)
qed

lemma map_in_use:
  assumes "\<And>d. in_use (f d) = in_use d" shows "map in_use (ss[i := f (ss ! i)]) = map in_use ss"
proof (cases "i < length ss")
  case True
  then have "in_use (ss ! i) = map in_use ss ! i" by simp
  then show ?thesis by (simp only: map_update assms list_update_id)
qed (simp add: list_update_beyond)

text \<open>A random send and a numbered periodic send on one socket.\<close>

lemma random_then_periodic:
  fixes s :: "('w, 'z) sock_scheme"
  assumes i: "i < length (sockets s)" "in_use (info i s)" "0 < packet_number_prefix (send_info (info i s))"
    and b: "send_buffer (info i s) = Some a" "heap s a \<noteq> None"
    and k: "\<not> k_poll_signal_check T (mosh_signal T) (world s)"
  shows "heap_fault (exec_state (do { finish_random T i; data_send_work_handler T i }) s)"
proof -
  define t where "t = exec_state (finish_random T i) s"
  have "sv (\<lambda>_. 0) i t = ((sending_of (info i s))\<lparr>s_buf := None, s_size := 0, s_poll := False\<rparr>, (heap s)(a := None), heap_fault s, 0, length (sockets s))"
    unfolding t_def by (rule finish [OF i(1) b])
  then have t: "sending_of (info i t) = (sending_of (info i s))\<lparr>s_buf := None, s_size := 0, s_poll := False\<rparr>" "i < length (sockets t)"
    using i(1) by (simp_all add: sv_def)
  have u: "keeps (\<lambda>s. map in_use (sockets s)) (upd_info i f)" if "\<And>d. in_use (f d) = in_use d" for f :: "sock_info \<Rightarrow> sock_info"
    unfolding upd_info_def by (rule keeps_modify) (simp add: map_in_use [OF that])
  have "keeps (\<lambda>s. map in_use (sockets s)) (finish_random T i :: ('w, 'z, unit) sock_prog)"
    unfolding finish_random_def sock_send_buffer_free_def free_def fault_def print_throughput_summary_def
    by (intro keeps_intros u) simp_all
  from keepsD [OF this, of s] have "map in_use (sockets t) ! i = map in_use (sockets s) ! i" by (simp add: t_def)
  then have use: "in_use (info i t)" using i(1,2) t(2) by (simp add: info_def)
  have "keeps world (finish_random T i :: ('w, 'z, unit) sock_prog)"
    unfolding finish_random_def sock_send_buffer_free_def free_def fault_def print_throughput_summary_def upd_info_def
    by (intro keeps_intros) simp_all
  from keepsD [OF this, of s] have wt: "world t = world s" by (simp add: t_def)
  define v where "v = exec_state (cancel_work i) t"
  have v: "info i v = (info i t)\<lparr>send_info := (send_info (info i t))\<lparr>work_busy := False\<rparr>\<rparr>" "i < length (sockets v)" "world v = world s"
    using t(2) wt by (simp_all add: v_def cancel_work_def info_upd) (simp_all add: upd_info_def exec_simps)
  have f: "heap_fault (exec_state (number_packet T i) v)"
    using number_null [OF v(2)] v(1) i(3) sending_eqD [OF t(1)] by simp
  have "heap_fault (exec_state (sock_send T i Send_buffer n True x) v)" for n x
    unfolding sock_send_def log_sent_def sock_get_blocking_mode_def
    by (subst exec_bind, simp only: exec_world v(3) k if_False) (intro sticky_after f sticky_intros)
  then have "heap_fault (exec_state (data_send_work_handler T i) t)"
    using use unfolding data_send_work_handler_def schedule_work_def
    by (simp add: exec_bind [where p = "gets (info i)"] exec_bind [where p = "cancel_work i"] exec_basic v_def [symmetric])
      (intro sticky_after sticky_intros)
  then show ?thesis by (simp add: exec_bind t_def)
qed

lemma calloc_leak:
  fixes s :: "('w, 'z) sock_scheme"
  assumes "i < length (sockets s)" "send_buffer (info i s) = Some a" "heap s a \<noteq> None" "a \<noteq> next_block s"
    "send_buffer_size (info i s) = n" "fst (malloc_ok T (world s))"
  defines "t \<equiv> exec_state (sock_send_buffer_calloc T i n) s"
  shows "heap t a \<noteq> None" "send_buffer (info i t) \<noteq> Some a"
  using assms(1-3,5,6) assms(4) [symmetric]
  by (simp_all add: t_def sock_send_buffer_calloc_def exec_simps malloc_run upd_info_def info_def)

text \<open>The first slot in use, with a send buffer of four bytes for numbered packets.\<close>

definition sending_sock :: "sock_world sock" where
  "sending_sock = sock_boot\<lparr>sockets := [zero_info\<lparr>in_use := True, sock_fd := 3, send_buffer := Some 0, send_buffer_size := 4,
     send_info := \<lparr>work_busy = True, interval = 5, packet_number_prefix = 1, data_format_hex = False\<rparr>\<rparr>],
     heap := [0 \<mapsto> Chars (''0000'' @ [NUL])]\<rparr>"

text \<open>The same slot after \<open>sock send -i 0 -p 0\<close>: the numbering goes on.\<close>

definition stopped_sock :: "sock_world sock" where
  "stopped_sock = sock_boot\<lparr>sockets := [zero_info\<lparr>in_use := True, sock_fd := 3, send_buffer := Some 0, send_buffer_size := 4,
     send_info := \<lparr>work_busy = False, interval = 5, packet_number_prefix = 8, data_format_hex = False\<rparr>\<rparr>],
     heap := [0 \<mapsto> Chars (''0007'' @ [NUL])]\<rparr>"

definition random_args :: send_args where
  "random_args = \<lparr>random_data_length = 2000, a_interval = -1, a_packet_number_prefix = False, a_blocking = False, a_flags = 0,
     a_buffer_size = 1000, a_data_format_hex = False\<rparr>"

definition taken_by :: "sock_world \<Rightarrow> int" where
  "taken_by w = taken w"

lemma test_sock_counts: "counts test_sock taken_by"
  by (simp add: counts_def test_sock_def taken_by_def)



text \<open>
  C36: A socket that sends numbered packets periodically and has just finished sending random data
  has no send buffer any more; the next numbered packet is written through the null pointer.
\<close>

theorem numbered_packet_null:
  fixes s :: "('w, 'z) sock_scheme"
  assumes "i < length (sockets s)" "in_use (info i s)" "0 < packet_number_prefix (send_info (info i s))"
    "send_buffer (info i s) = Some a" "heap s a \<noteq> None" "\<not> k_poll_signal_check T (mosh_signal T) (world s)"
  shows "heap_fault (exec_state (do { finish_random T i; data_send_work_handler T i }) s)"
  using assms by (rule random_then_periodic)

theorem numbered_packet_null_witness:
  "\<not> heap_fault sending_sock \<and>
    heap_fault (exec_state (do { finish_random test_sock 0; data_send_work_handler test_sock 0 }) sending_sock)"
  using numbered_packet_null [of 0 sending_sock 0 test_sock]
  by (simp add: sending_sock_def sock_boot_def info_def zero_info_def test_sock_def)

text \<open>
  Asking for a send buffer of the size the socket already has clears the old buffer and then
  allocates another one: the old one stays allocated and the socket no longer points to it.
\<close>

theorem send_buffer_leak:
  fixes s :: "('w, 'z) sock_scheme" and n :: nat
  assumes "i < length (sockets s)" "send_buffer (info i s) = Some a" "heap s a \<noteq> None" "a \<noteq> next_block s"
    "send_buffer_size (info i s) = n" "fst (malloc_ok T (world s))"
  defines "s' \<equiv> exec_state (sock_send_buffer_calloc T i n) s"
  shows "heap s' a \<noteq> None \<and> send_buffer (info i s') \<noteq> Some a"
  unfolding s'_def using calloc_leak [OF assms(1-6)] by blast

theorem send_buffer_leak_witness:
  "heap (exec_state (sock_send_buffer_calloc test_sock 0 4) sending_sock) 0 \<noteq> None \<and>
    send_buffer (info 0 (exec_state (sock_send_buffer_calloc test_sock 0 4) sending_sock)) \<noteq> Some 0"
  by (rule send_buffer_leak) (simp_all add: sending_sock_def sock_boot_def info_def zero_info_def test_sock_def)

end
