(* ===== verification/Mosh_Sock_Shell.thy ===== *)
theory Mosh_Sock_Shell
  imports Mosh_Sock_Send
begin

section \<open>The \<open>sock\<close> command (\<open>sock_shell.c\<close>)\<close>

text \<open>
  Every subcommand reads its options into the arguments of an operation of Mosh_Sock. The option
  reader of Zephyr and the help texts are parameters: \<open>getopt\<close> is given the short options and the
  words, and finds the options with their arguments and the index after each, and the index of the
  first word that is no option. Options without a short form have the codes of the long options. The
  readers of the options change nothing but the console; then \<open>sock send\<close> is shown to return, and the
  arguments of \<open>sock connect\<close> to be in range.
\<close>

datatype sock_shell_command = SOCK_CMD_CONNECT | SOCK_CMD_CLOSE | SOCK_CMD_GETADDRINFO | SOCK_CMD_SEND | SOCK_CMD_RECV
  | SOCK_CMD_RAI | SOCK_CMD_OPTION_SET | SOCK_CMD_OPTION_GET

record 'w sock_shell_api = "'w sock_api" +
  getopt :: "string \<Rightarrow> string list \<Rightarrow> (nat \<times> string \<times> nat) list \<times> nat"
  shell_strtoul :: "string \<Rightarrow> 32 word \<times> int"
  usage_texts :: "sock_shell_command \<Rightarrow> string list"

definition SOCK_MAX_ADDR_LEN :: nat where "SOCK_MAX_ADDR_LEN = 100"
definition SOCK_OPT_SOL_NONE :: int where "SOCK_OPT_SOL_NONE = -1"
definition SOCK_SHELL_OPT_RAI_LAST :: nat where "SOCK_SHELL_OPT_RAI_LAST = 200"
definition SOCK_SHELL_OPT_RAI_NO_DATA :: nat where "SOCK_SHELL_OPT_RAI_NO_DATA = 201"
definition SOCK_SHELL_OPT_RAI_ONE_RESP :: nat where "SOCK_SHELL_OPT_RAI_ONE_RESP = 202"
definition SOCK_SHELL_OPT_RAI_ONGOING :: nat where "SOCK_SHELL_OPT_RAI_ONGOING = 203"
definition SOCK_SHELL_OPT_RAI_WAIT_MORE :: nat where "SOCK_SHELL_OPT_RAI_WAIT_MORE = 204"
definition SOCK_SHELL_OPT_PACKET_NUMBER_PREFIX :: nat where "SOCK_SHELL_OPT_PACKET_NUMBER_PREFIX = 205"
definition SOCK_SHELL_OPT_SOCKET_OPTION_LEVEL :: nat where "SOCK_SHELL_OPT_SOCKET_OPTION_LEVEL = 206"

definition short_options :: string where
  "short_options = ''i:I:a:p:f:t:b:ST:cV:H:C:F:d:l:e:s:xrB:WKP:o:v:h''"

text \<open>The code of a short option.\<close>

definition is_opt :: "nat \<Rightarrow> char \<Rightarrow> bool" where
  "is_opt opt c \<longleftrightarrow> opt = of_char c"

fun print_texts :: "string list \<Rightarrow> ('w, 'z, unit) sock_prog" where
  "print_texts [] = return ()"
| "print_texts (t # ts) = do { mosh_print_no_format t; print_texts ts }"

definition sock_print_usage :: "('w, 'y) sock_shell_api_scheme \<Rightarrow> sock_shell_command \<Rightarrow> ('w, 'z, unit) sock_prog" where
  "sock_print_usage T c = print_texts (usage_texts T c)"

subsection \<open>Reading options\<close>

text \<open>
  What an option does: it changes the arguments, the command returns an error, or it goes to the
  label \<open>show_usage\<close>.
\<close>

datatype 'a parsed = Parsed 'a | Refused int | Usage

type_synonym opt = "nat \<times> string \<times> nat"

fun read_options :: "(opt \<Rightarrow> 'a \<Rightarrow> ('w, 'z, 'a parsed) sock_prog) \<Rightarrow> opt list \<Rightarrow> 'a \<Rightarrow> ('w, 'z, 'a parsed) sock_prog" where
  "read_options f [] a = return (Parsed a)"
| "read_options f (x # xs) a = do {
     r \<leftarrow> f x a;
     case r of Parsed b \<Rightarrow> read_options f xs b | Refused e \<Rightarrow> return (Refused e) | Usage \<Rightarrow> return Usage
   }"

definition refuse :: "('w, 'y) sock_shell_api_scheme \<Rightarrow> string \<Rightarrow> parg list \<Rightarrow> ('w, 'z, 'a parsed) sock_prog" where
  "refuse T msg args = do { mosh_error T msg args; return (Refused (- EINVAL)) }"

text \<open>The cases \<open>'h'\<close> and \<open>default\<close> of every command.\<close>

definition other_option :: "('w, 'y) sock_shell_api_scheme \<Rightarrow> string list \<Rightarrow> opt \<Rightarrow> ('w, 'z, 'a parsed) sock_prog" where
  "other_option T argv x =
     (if is_opt (fst x) (CHR ''h'') then return Usage
      else do {
        mosh_error T ''Unknown option (%s). See usage:'' [table_arg argv (snd (snd x) - 1)];
        return Usage
      })"

text \<open>
  A command: the options, then its operation, whose result \<open>None\<close> is a call that does not return.
  Where the help is shown the command returns 0.
\<close>

definition sock_subcommand :: "('w, 'y) sock_shell_api_scheme \<Rightarrow> sock_shell_command \<Rightarrow> string \<Rightarrow> string list \<Rightarrow>
    (opt \<Rightarrow> 'a \<Rightarrow> ('w, 'z, 'a parsed) sock_prog) \<Rightarrow> 'a \<Rightarrow> ('a \<Rightarrow> ('w, 'z, int option) sock_prog) \<Rightarrow> ('w, 'z, int option) sock_prog" where
  "sock_subcommand T c shorts argv f a p =
     (if length argv < 2 then do { sock_print_usage T c; return (Some 0) }
      else do {
        let (opts, optind) = getopt T shorts argv;
        r \<leftarrow> read_options f opts a;
        case r of
          Refused e \<Rightarrow> return (Some e)
        | Usage \<Rightarrow> do { sock_print_usage T c; return (Some 0) }
        | Parsed b \<Rightarrow>
            if optind < length argv then do {
              mosh_error T (''Arguments without '' @ [CHR 0x27] @ ''-'' @ [CHR 0x27] @ '' not supported: %s'') [PStr (last argv)];
              sock_print_usage T c;
              return (Some 0)
            } else p b
      })"

definition quoted :: "string \<Rightarrow> string" where
  "quoted s = [CHR 0x27] @ s @ [CHR 0x27]"

subsection \<open>\<open>sock getaddrinfo\<close>\<close>

record lookup_args =
  l_family :: int
  l_type :: int
  l_hostname :: string
  l_cid :: int

definition cid_option :: "('w, 'y) sock_shell_api_scheme \<Rightarrow> string \<Rightarrow> (int \<Rightarrow> 'a) \<Rightarrow> ('w, 'z, 'a parsed) sock_prog" where
  "cid_option T arg set_cid =
     (if atoi arg < 0 then refuse T ''PDN CID (%d) must be non-negative integer.'' [PInt (atoi arg)]
      else return (Parsed (set_cid (atoi arg))))"

definition lookup_option :: "('w, 'y) sock_shell_api_scheme \<Rightarrow> string list \<Rightarrow> opt \<Rightarrow> lookup_args \<Rightarrow> ('w, 'z, lookup_args parsed) sock_prog" where
  "lookup_option T argv x a = (case x of (opt, arg, _) \<Rightarrow>
     if is_opt opt (CHR ''H'') then
       (if length arg > SOCK_MAX_ADDR_LEN then
          refuse T ''Hostname length %d exceeded. Maximum is %d.'' [PInt (int (length arg)), PInt (int SOCK_MAX_ADDR_LEN)]
        else return (Parsed (a\<lparr>l_hostname := blit (l_hostname a) 0 arg\<rparr>)))
     else if is_opt opt (CHR ''f'') then
       (if arg = ''unspec'' then return (Parsed (a\<lparr>l_family := num T ''AF_UNSPEC''\<rparr>))
        else if arg = ''inet'' then return (Parsed (a\<lparr>l_family := num T ''AF_INET''\<rparr>))
        else if arg = ''inet6'' then return (Parsed (a\<lparr>l_family := num T ''AF_INET6''\<rparr>))
        else refuse T (''Unsupported address family=%s. Supported values are: '' @ quoted ''unspec'' @ '', '' @ quoted ''inet'' @
          '' (ipv4) or '' @ quoted ''inet6'' @ '' (ipv6)'') [PStr arg])
     else if is_opt opt (CHR ''t'') then
       (if arg = ''any'' then return (Parsed (a\<lparr>l_type := 0\<rparr>))
        else if arg = ''stream'' then return (Parsed (a\<lparr>l_type := num T ''SOCK_STREAM''\<rparr>))
        else if arg = ''dgram'' then return (Parsed (a\<lparr>l_type := num T ''SOCK_DGRAM''\<rparr>))
        else refuse T (''Unsupported address type=%s. Supported values are: '' @ quoted ''any'' @ '', '' @ quoted ''stream'' @
          '' (tcp) or '' @ quoted ''dgram'' @ '' (udp)'') [PStr arg])
     else if is_opt opt (CHR ''I'') then cid_option T arg (\<lambda>c. a\<lparr>l_cid := c\<rparr>)
     else other_option T argv x)"

definition cmd_sock_getaddrinfo :: "('w, 'y) sock_shell_api_scheme \<Rightarrow> string list \<Rightarrow> ('w, 'z, int option) sock_prog" where
  "cmd_sock_getaddrinfo T argv =
     sock_subcommand T SOCK_CMD_GETADDRINFO short_options argv (lookup_option T argv)
       \<lparr>l_family = num T ''AF_UNSPEC'', l_type = 0, l_hostname = replicate (SOCK_MAX_ADDR_LEN + 1) NUL, l_cid = 0\<rparr>
       (\<lambda>a. do { err \<leftarrow> sock_getaddrinfo T (l_family a) (l_type a) (cstr (l_hostname a)) (l_cid a); return (Some err) })"

subsection \<open>\<open>sock connect\<close>\<close>

definition connect_defaults :: "('w, 'y) sock_shell_api_scheme \<Rightarrow> sock_args" where
  "connect_defaults T = \<lparr>a_family = num T ''AF_INET'', a_type = num T ''SOCK_STREAM'', a_address = replicate (SOCK_MAX_ADDR_LEN + 1) NUL,
     a_port = 0, a_bind_port = 0, a_pdn_cid = 0, a_secure = False, a_sec_tag = word_of_int (num T ''SEC_TAG_TLS_INVALID''),
     a_session_cache = False, a_keep_open = False, a_peer_verify = 2, a_peer_hostname = replicate (SOCK_MAX_ADDR_LEN + 1) NUL,
     a_dtls_cid = 0, a_dtls_frag_ext = 0\<rparr>"

text \<open>
  The address and the host name are arrays of 101 characters. \<open>memcpy\<close> does not end the address, so
  that of a longer one given before the end stays.
\<close>

definition family_option :: "('w, 'y) sock_shell_api_scheme \<Rightarrow> string \<Rightarrow> sock_args \<Rightarrow> ('w, 'z, sock_args parsed) sock_prog" where
  "family_option T arg a =
     (if arg = ''inet'' then return (Parsed (a\<lparr>a_family := num T ''AF_INET''\<rparr>))
      else if arg = ''inet6'' then return (Parsed (a\<lparr>a_family := num T ''AF_INET6''\<rparr>))
      else if arg = ''packet'' then return (Parsed (a\<lparr>a_family := num T ''AF_PACKET''\<rparr>))
      else refuse T (''Unsupported address family=%s. Supported values are: '' @ quoted ''inet'' @ '' (ipv4, default), '' @
        quoted ''inet6'' @ '' (ipv6) or '' @ quoted ''packet'') [PStr arg])"

definition type_option :: "('w, 'y) sock_shell_api_scheme \<Rightarrow> string \<Rightarrow> sock_args \<Rightarrow> ('w, 'z, sock_args parsed) sock_prog" where
  "type_option T arg a =
     (if arg = ''stream'' then return (Parsed (a\<lparr>a_type := num T ''SOCK_STREAM''\<rparr>))
      else if arg = ''dgram'' then return (Parsed (a\<lparr>a_type := num T ''SOCK_DGRAM''\<rparr>))
      else if arg = ''raw'' then return (Parsed (a\<lparr>a_type := num T ''SOCK_RAW''\<rparr>))
      else refuse T (''Unsupported address type=%s. Supported values are: '' @ quoted ''stream'' @ '' (tcp, default), '' @
        quoted ''dgram'' @ '' (udp) or '' @ quoted ''raw'') [PStr arg])"

definition security_option :: "('w, 'y) sock_shell_api_scheme \<Rightarrow> string list \<Rightarrow> opt \<Rightarrow> sock_args \<Rightarrow> ('w, 'z, sock_args parsed) sock_prog" where
  "security_option T argv x a = (case x of (opt, arg, _) \<Rightarrow>
     if is_opt opt (CHR ''S'') then return (Parsed (a\<lparr>a_secure := True\<rparr>))
     else if is_opt opt (CHR ''T'') then
       (case shell_strtoul T arg of (tag, err) \<Rightarrow>
          if err \<noteq> 0 then refuse T ''Valid range for security tag (%s) is 0 .. %u.'' [PStr arg, PInt 4294967295]
          else return (Parsed (a\<lparr>a_sec_tag := tag\<rparr>)))
     else if is_opt opt (CHR ''c'') then return (Parsed (a\<lparr>a_session_cache := True\<rparr>))
     else if is_opt opt (CHR ''V'') then
       (if atoi arg < 0 \<or> atoi arg > 2 then refuse T ''Valid values for peer verify (%d) are 0, 1 and 2.'' [PInt (atoi arg)]
        else return (Parsed (a\<lparr>a_peer_verify := atoi arg\<rparr>)))
     else if is_opt opt (CHR ''H'') then
       (if length arg > SOCK_MAX_ADDR_LEN then
          refuse T ''Peer hostname length %d exceeded. Maximum is %d.'' [PInt (int (length arg)), PInt (int SOCK_MAX_ADDR_LEN)]
        else return (Parsed (a\<lparr>a_peer_hostname := strcpy (a_peer_hostname a) arg\<rparr>)))
     else if is_opt opt (CHR ''C'') then
       (if atoi arg < 0 \<or> atoi arg > 2 then refuse T ''Valid values for DTLS CID setting (%d) are 0, 1 and 2.'' [PInt (atoi arg)]
        else return (Parsed (a\<lparr>a_dtls_cid := atoi arg\<rparr>)))
     else if is_opt opt (CHR ''F'') then
       (if atoi arg < 0 \<or> atoi arg > 2
        then refuse T ''Valid values for DTLS fragmentation extension (%d) are 0, 1 and 2.'' [PInt (atoi arg)]
        else return (Parsed (a\<lparr>a_dtls_frag_ext := atoi arg\<rparr>)))
     else other_option T argv x)"

definition connect_option :: "('w, 'y) sock_shell_api_scheme \<Rightarrow> string list \<Rightarrow> opt \<Rightarrow> sock_args \<Rightarrow> ('w, 'z, sock_args parsed) sock_prog" where
  "connect_option T argv x a = (case x of (opt, arg, _) \<Rightarrow>
     if is_opt opt (CHR ''I'') then cid_option T arg (\<lambda>c. a\<lparr>a_pdn_cid := c\<rparr>)
     else if is_opt opt (CHR ''a'') then
       (if length arg > SOCK_MAX_ADDR_LEN then
          refuse T ''Address length %d exceeded. Maximum is %d.'' [PInt (int (length arg)), PInt (int SOCK_MAX_ADDR_LEN)]
        else return (Parsed (a\<lparr>a_address := blit (a_address a) 0 arg\<rparr>)))
     else if is_opt opt (CHR ''p'') then
       (if atoi arg \<le> 0 \<or> atoi arg > 65535
        then refuse T ''Port (%d) must be bigger than 0 and smaller than 65536.'' [PInt (atoi arg)]
        else return (Parsed (a\<lparr>a_port := atoi arg\<rparr>)))
     else if is_opt opt (CHR ''f'') then family_option T arg a
     else if is_opt opt (CHR ''t'') then type_option T arg a
     else if is_opt opt (CHR ''b'') then
       (if atoi arg \<le> 0 \<or> atoi arg > 65535
        then refuse T ''Bind port (%d) must be bigger than 0 and smaller than 65536.'' [PInt (atoi arg)]
        else return (Parsed (a\<lparr>a_bind_port := atoi arg\<rparr>)))
     else if is_opt opt (CHR ''K'') then return (Parsed (a\<lparr>a_keep_open := True\<rparr>))
     else security_option T argv x a)"

text \<open>The strings the arrays hold.\<close>

definition strings_of :: "sock_args \<Rightarrow> sock_args" where
  "strings_of a = a\<lparr>a_address := cstr (a_address a), a_peer_hostname := cstr (a_peer_hostname a)\<rparr>"

definition cmd_sock_connect :: "('w, 'y) sock_shell_api_scheme \<Rightarrow> string list \<Rightarrow> ('w, 'z, int option) sock_prog" where
  "cmd_sock_connect T argv =
     sock_subcommand T SOCK_CMD_CONNECT short_options argv (connect_option T argv) (connect_defaults T)
       (\<lambda>a. do { err \<leftarrow> sock_open_and_connect T (strings_of a); return (Some err) })"

subsection \<open>\<open>sock close\<close>, \<open>sock send\<close> and \<open>sock recv\<close>\<close>

definition close_option :: "('w, 'y) sock_shell_api_scheme \<Rightarrow> string list \<Rightarrow> opt \<Rightarrow> int \<Rightarrow> ('w, 'z, int parsed) sock_prog" where
  "close_option T argv x k = (case x of (opt, arg, _) \<Rightarrow>
     if is_opt opt (CHR ''i'') then return (Parsed (atoi arg)) else other_option T argv x)"

definition cmd_sock_close :: "('w, 'y) sock_shell_api_scheme \<Rightarrow> string list \<Rightarrow> ('w, 'z, int option) sock_prog" where
  "cmd_sock_close T argv =
     sock_subcommand T SOCK_CMD_CLOSE ''i:h'' argv (close_option T argv) SOCK_ID_NONE
       (\<lambda>k. do { err \<leftarrow> sock_close T k; return (Some err) })"

record send_opts = send_args +
  o_id :: int
  o_data :: string

definition send_defaults :: send_opts where
  "send_defaults = \<lparr>random_data_length = 0, a_interval = SOCK_SEND_DATA_INTERVAL_NONE, a_packet_number_prefix = False,
     a_blocking = True, a_flags = 0, a_buffer_size = SOCK_BUFFER_SIZE_NONE, a_data_format_hex = False,
     o_id = SOCK_ID_NONE, o_data = replicate (SOCK_MAX_SEND_DATA_LEN + 1) NUL\<rparr>"

definition blocking_option :: "('w, 'y) sock_shell_api_scheme \<Rightarrow> string \<Rightarrow> (bool \<Rightarrow> 'a) \<Rightarrow> ('w, 'z, 'a parsed) sock_prog" where
  "blocking_option T arg set_blocking =
     (if atoi arg \<noteq> 0 \<and> atoi arg \<noteq> 1
      then refuse T (''Blocking (%s) must be either '' @ quoted ''0'' @ '' (false) or '' @ quoted ''1'' @ '' (true)'') [PStr arg]
      else return (Parsed (set_blocking (atoi arg \<noteq> 0))))"

definition send_option :: "('w, 'y) sock_shell_api_scheme \<Rightarrow> string list \<Rightarrow> opt \<Rightarrow> send_opts \<Rightarrow> ('w, 'z, send_opts parsed) sock_prog" where
  "send_option T argv x a = (case x of (opt, arg, _) \<Rightarrow>
     if is_opt opt (CHR ''i'') then return (Parsed (a\<lparr>o_id := atoi arg\<rparr>))
     else if is_opt opt (CHR ''d'') then
       (if length arg > SOCK_MAX_SEND_DATA_LEN then
          refuse T ''Data length %d exceeded. Maximum is %d. Given data: %s''
            [PInt (int (length arg)), PInt (int SOCK_MAX_SEND_DATA_LEN), PStr arg]
        else return (Parsed (a\<lparr>o_data := strcpy (o_data a) arg\<rparr>)))
     else if is_opt opt (CHR ''x'') then return (Parsed (a\<lparr>a_data_format_hex := True\<rparr>))
     else if is_opt opt (CHR ''l'') then return (Parsed (a\<lparr>random_data_length := atoi arg\<rparr>))
     else if is_opt opt (CHR ''e'') then return (Parsed (a\<lparr>a_interval := atoi arg\<rparr>))
     else if is_opt opt (CHR ''s'') then
       (if atoi arg \<le> 0 then refuse T ''Buffer size %d must be a positive number'' [PInt (atoi arg)]
        else return (Parsed (a\<lparr>a_buffer_size := atoi arg\<rparr>)))
     else if is_opt opt (CHR ''B'') then blocking_option T arg (\<lambda>b. a\<lparr>a_blocking := b\<rparr>)
     else if is_opt opt (CHR ''W'') then
       return (Parsed (a\<lparr>a_flags := sint ((word_of_int (a_flags a) :: 32 word) OR word_of_int (num T ''MSG_WAITACK''))\<rparr>))
     else if opt = SOCK_SHELL_OPT_PACKET_NUMBER_PREFIX then return (Parsed (a\<lparr>a_packet_number_prefix := True\<rparr>))
     else other_option T argv x)"

definition cmd_sock_send :: "nat \<Rightarrow> ('w, 'y) sock_shell_api_scheme \<Rightarrow> ('v, 'x) str_api_scheme \<Rightarrow> string list \<Rightarrow> ('w, 'z, int option) sock_prog" where
  "cmd_sock_send fuel T H argv =
     sock_subcommand T SOCK_CMD_SEND short_options argv (send_option T argv) send_defaults
       (\<lambda>a. sock_send_data fuel T H (o_id a) (cstr (o_data a)) (send_args.truncate a))"

record recv_args =
  r_id :: int
  r_start :: bool
  r_length :: int
  r_blocking :: bool
  r_format :: int

definition recv_option :: "('w, 'y) sock_shell_api_scheme \<Rightarrow> string list \<Rightarrow> opt \<Rightarrow> recv_args \<Rightarrow> ('w, 'z, recv_args parsed) sock_prog" where
  "recv_option T argv x a = (case x of (opt, arg, _) \<Rightarrow>
     if is_opt opt (CHR ''i'') then return (Parsed (a\<lparr>r_id := atoi arg\<rparr>))
     else if is_opt opt (CHR ''l'') then return (Parsed (a\<lparr>r_length := atoi arg\<rparr>))
     else if is_opt opt (CHR ''r'') then return (Parsed (a\<lparr>r_start := True\<rparr>))
     else if is_opt opt (CHR ''B'') then blocking_option T arg (\<lambda>b. a\<lparr>r_blocking := b\<rparr>)
     else if is_opt opt (CHR ''P'') then
       (if arg = ''str'' then return (Parsed (a\<lparr>r_format := SOCK_RECV_PRINT_FORMAT_STR\<rparr>))
        else if arg = ''hex'' then return (Parsed (a\<lparr>r_format := SOCK_RECV_PRINT_FORMAT_HEX\<rparr>))
        else refuse T (''Receive data print format (%s) must be '' @ quoted ''str'' @ '' or '' @ quoted ''hex'') [PStr arg])
     else other_option T argv x)"

definition cmd_sock_recv :: "('w, 'y) sock_shell_api_scheme \<Rightarrow> string list \<Rightarrow> ('w, 'z, int option) sock_prog" where
  "cmd_sock_recv T argv =
     sock_subcommand T SOCK_CMD_RECV short_options argv (recv_option T argv)
       \<lparr>r_id = SOCK_ID_NONE, r_start = False, r_length = 0, r_blocking = False, r_format = SOCK_RECV_PRINT_FORMAT_NONE\<rparr>
       (\<lambda>a. do { err \<leftarrow> sock_recv T (r_id a) (r_start a) (r_length a) (r_blocking a) (r_format a); return (Some err) })"

subsection \<open>\<open>sock rai\<close>\<close>

record rai_args =
  rai_id :: int
  rai_last :: bool
  rai_no_data :: bool
  rai_one_resp :: bool
  rai_ongoing :: bool
  rai_wait_more :: bool
  rai_option_count :: int

definition sock_rai_option :: "('w, 'y) sock_shell_api_scheme \<Rightarrow> string list \<Rightarrow> opt \<Rightarrow> rai_args \<Rightarrow> ('w, 'z, rai_args parsed) sock_prog" where
  "sock_rai_option T argv x a = (case x of (opt, arg, _) \<Rightarrow>
     let counted = a\<lparr>rai_option_count := rai_option_count a + 1\<rparr> in
     if is_opt opt (CHR ''i'') then return (Parsed (a\<lparr>rai_id := atoi arg\<rparr>))
     else if opt = SOCK_SHELL_OPT_RAI_LAST then return (Parsed (counted\<lparr>rai_last := True\<rparr>))
     else if opt = SOCK_SHELL_OPT_RAI_NO_DATA then return (Parsed (counted\<lparr>rai_no_data := True\<rparr>))
     else if opt = SOCK_SHELL_OPT_RAI_ONE_RESP then return (Parsed (counted\<lparr>rai_one_resp := True\<rparr>))
     else if opt = SOCK_SHELL_OPT_RAI_ONGOING then return (Parsed (counted\<lparr>rai_ongoing := True\<rparr>))
     else if opt = SOCK_SHELL_OPT_RAI_WAIT_MORE then return (Parsed (counted\<lparr>rai_wait_more := True\<rparr>))
     else other_option T argv x)"

definition cmd_sock_rai :: "('w, 'y) sock_shell_api_scheme \<Rightarrow> string list \<Rightarrow> ('w, 'z, int option) sock_prog" where
  "cmd_sock_rai T argv =
     sock_subcommand T SOCK_CMD_RAI short_options argv (sock_rai_option T argv)
       \<lparr>rai_id = SOCK_ID_NONE, rai_last = False, rai_no_data = False, rai_one_resp = False, rai_ongoing = False,
        rai_wait_more = False, rai_option_count = 0\<rparr>
       (\<lambda>a. do {
          status \<leftarrow> call (link_api_rai_status T);
          doif (\<not> status) (mosh_warn T (''RAI is requested but RAI is disabled.'' @ [CHR 0x0A] @
            ''Use '' @ quoted ''link rai'' @ '' command to enable it for socket usage.'') []);
          doif (rai_option_count a > 1) (mosh_warn T
            ''%d RAI options set while normally just one should be used at a time. Hope you know what you are doing.''
            [PInt (rai_option_count a)]);
          err \<leftarrow> sock_rai T (rai_id a) (rai_last a) (rai_no_data a) (rai_one_resp a) (rai_ongoing a) (rai_wait_more a);
          return (Some err)
        })"

subsection \<open>\<open>sock option\<close>\<close>

text \<open>The names of the options with the levels they belong to; the numbers are those of the API.\<close>

definition sock_opt_names :: "(string \<times> string) list" where
  "sock_opt_names = [(''TLS_SEC_TAG_LIST'', ''SOL_TLS''), (''TLS_HOSTNAME'', ''SOL_TLS''), (''TLS_CIPHERSUITE_LIST'', ''SOL_TLS''),
     (''TLS_PEER_VERIFY'', ''SOL_TLS''), (''TLS_DTLS_ROLE'', ''SOL_TLS''), (''TLS_SESSION_CACHE'', ''SOL_TLS''),
     (''TLS_SESSION_CACHE_PURGE'', ''SOL_TLS''), (''TLS_DTLS_HANDSHAKE_TIMEO'', ''SOL_TLS''), (''TLS_CIPHERSUITE_USED'', ''SOL_TLS''),
     (''TLS_DTLS_CID'', ''SOL_TLS''), (''TLS_DTLS_CID_STATUS'', ''SOL_TLS''), (''TLS_DTLS_CONN_SAVE'', ''SOL_TLS''),
     (''TLS_DTLS_CONN_LOAD'', ''SOL_TLS''), (''TLS_DTLS_HANDSHAKE_STATUS'', ''SOL_TLS''), (''SO_ERROR'', ''SOL_SOCKET''),
     (''SO_KEEPOPEN'', ''SOL_SOCKET''), (''SO_EXCEPTIONAL_DATA'', ''SOL_SOCKET''), (''SO_RCVTIMEO'', ''SOL_SOCKET''),
     (''SO_SNDTIMEO'', ''SOL_SOCKET''), (''SO_BINDTOPDN'', ''SOL_SOCKET''), (''SO_REUSEADDR'', ''SOL_SOCKET''), (''SO_RAI'', ''SOL_SOCKET''),
     (''SO_IP_ECHO_REPLY'', ''IPPROTO_IP''), (''SO_IPV6_ECHO_REPLY'', ''IPPROTO_IPV6''),
     (''SO_IPV6_DELAYED_ADDR_REFRESH'', ''IPPROTO_IPV6''), (''SO_TCP_SRV_SESSTIMEO'', ''IPPROTO_TCP''), (''SO_SILENCE_ALL'', ''IPPROTO_ALL'')]"

definition sock_opt_table :: "('w, 'y) sock_shell_api_scheme \<Rightarrow> (string \<times> int \<times> int) list" where
  "sock_opt_table T = map (\<lambda>(name, level). (name, num T name, num T level)) sock_opt_names"

definition sock_opt_map :: "('w, 'y) sock_shell_api_scheme \<Rightarrow> string \<Rightarrow> (int \<times> int) option" where
  "sock_opt_map T opt = map_of (sock_opt_table T) opt"

definition sock_level_table :: "('w, 'y) sock_shell_api_scheme \<Rightarrow> (string \<times> int) list" where
  "sock_level_table T = map (\<lambda>n. (n, num T n)) [''SOL_SOCKET'', ''SOL_TLS'', ''IPPROTO_IP'', ''IPPROTO_IPV6'', ''IPPROTO_TCP'', ''IPPROTO_ALL'']"

definition sock_level_map :: "('w, 'y) sock_shell_api_scheme \<Rightarrow> string \<Rightarrow> int option" where
  "sock_level_map T level = map_of (sock_level_table T) level"

record setget_args =
  g_id :: int
  g_level :: int
  g_opt :: int
  g_value :: "string option"

definition level_option :: "('w, 'y) sock_shell_api_scheme \<Rightarrow> string \<Rightarrow> setget_args \<Rightarrow> ('w, 'z, setget_args parsed) sock_prog" where
  "level_option T arg a =
     (if atoi arg = 0 \<and> arg \<noteq> ''0'' then
        (case sock_level_map T arg of
           None \<Rightarrow> do { mosh_error T ''Unknown socket level: %s'' [PStr arg]; return Usage }
         | Some level \<Rightarrow> return (Parsed (a\<lparr>g_level := level\<rparr>)))
      else return (Parsed (a\<lparr>g_level := atoi arg\<rparr>)))"

definition name_option :: "('w, 'y) sock_shell_api_scheme \<Rightarrow> string \<Rightarrow> setget_args \<Rightarrow> ('w, 'z, setget_args parsed) sock_prog" where
  "name_option T arg a =
     (if atoi arg = 0 then
        (case sock_opt_map T arg of
           None \<Rightarrow> do { mosh_error T ''Unknown socket option: %s'' [PStr arg]; return Usage }
         | Some (opt, level) \<Rightarrow>
             return (Parsed (a\<lparr>g_opt := opt, g_level := (if g_level a = SOCK_OPT_SOL_NONE then level else g_level a)\<rparr>)))
      else return (Parsed (a\<lparr>g_opt := atoi arg\<rparr>)))"

definition setget_option :: "('w, 'y) sock_shell_api_scheme \<Rightarrow> bool \<Rightarrow> string list \<Rightarrow> opt \<Rightarrow> setget_args \<Rightarrow> ('w, 'z, setget_args parsed) sock_prog" where
  "setget_option T setting argv x a = (case x of (opt, arg, optind) \<Rightarrow>
     if is_opt opt (CHR ''i'') then return (Parsed (a\<lparr>g_id := atoi arg\<rparr>))
     else if opt = SOCK_SHELL_OPT_SOCKET_OPTION_LEVEL then level_option T arg a
     else if is_opt opt (CHR ''o'') then name_option T arg a
     else if is_opt opt (CHR ''v'') then
       (if \<not> setting then do { mosh_error T ''Unknown option (%s). See usage:'' [table_arg argv (optind - 1)]; return Usage }
        else return (Parsed (a\<lparr>g_value := Some arg\<rparr>)))
     else other_option T argv x)"

definition cmd_sock_setgetopt :: "('w, 'y) sock_shell_api_scheme \<Rightarrow> string list \<Rightarrow> ('w, 'z, int option) sock_prog" where
  "cmd_sock_setgetopt T argv =
     (let setting = (hd argv = ''set'') in
      sock_subcommand T (if setting then SOCK_CMD_OPTION_SET else SOCK_CMD_OPTION_GET) short_options argv (setget_option T setting argv)
        \<lparr>g_id = SOCK_ID_NONE, g_level = SOCK_OPT_SOL_NONE, g_opt = 0, g_value = None\<rparr>
        (\<lambda>a. do {
           err \<leftarrow> (if setting then sock_setopt T (g_id a) (g_level a) (g_opt a) (g_value a) else sock_getopt T (g_id a) (g_level a) (g_opt a));
           return (Some err)
         }))"

definition cmd_sock_list :: "('w, 'y) sock_shell_api_scheme \<Rightarrow> ('w, 'z, int) sock_prog" where
  "cmd_sock_list T = sock_list T"

subsection \<open>What options can do\<close>

lemma read_options_inv:
  assumes "\<And>x a b s. I a \<Longrightarrow> result (f x a) s = Parsed b \<Longrightarrow> I b"
  shows "I a \<Longrightarrow> result (read_options f xs a) s = Parsed b \<Longrightarrow> I b"
proof (induction xs arbitrary: a s)
  case (Cons x xs)
  obtain c where c: "result (f x a) s = Parsed c" "result (read_options f xs c) (exec_state (f x a) s) = Parsed b"
    using Cons.prems(2) by (auto simp: exec_simps split: parsed.splits)
  show ?case by (rule Cons.IH [OF assms [OF Cons.prems(1) c(1)] c(2)])
qed (simp add: exec_simps)

lemma read_options_keeps:
  assumes "\<And>x a. keeps g (f x a)" shows "keeps g (read_options f xs a)"
proof (induction xs arbitrary: a)
  case (Cons x xs)
  have "keeps g (case r of Parsed b \<Rightarrow> read_options f xs b | Refused e \<Rightarrow> return (Refused e) | Usage \<Rightarrow> return Usage)" for r
    by (cases r) (auto intro!: keeps_intros Cons.IH)
  then show ?case by (auto intro!: keeps_intros assms)
qed (simp add: keeps_return)

lemma atoi_bounds: "LONG_MIN \<le> atoi t" "atoi t \<le> LONG_MAX"
  using strtol_bounds [of 10 t] by (auto simp: atoi_def LONG_MIN_def LONG_MAX_def split: option.splits prod.splits)

lemma refuse_result [simp]: "result (refuse T m l) s = Refused (- EINVAL)"
  by (simp add: refuse_def exec_simps)

lemma other_result [simp]: "result (other_option T argv x) s = Usage"
  by (simp add: other_option_def exec_simps)

subsection \<open>\<open>sock send\<close>\<close>

definition send_bounded :: "('w) send_args_scheme \<Rightarrow> bool" where
  "send_bounded a \<longleftrightarrow> random_data_length a \<le> LONG_MAX \<and>
     (a_buffer_size a = SOCK_BUFFER_SIZE_NONE \<or> 0 < a_buffer_size a \<and> a_buffer_size a \<le> LONG_MAX)"

lemma send_option_bounded:
  assumes "send_bounded a" "result (send_option T argv x a) s = Parsed b" shows "send_bounded b"
  using assms atoi_bounds(2)
  by (auto simp: send_option_def send_bounded_def blocking_option_def exec_simps split: if_splits prod.splits)

lemma send_defaults_bounded: "send_bounded send_defaults"
  by (simp add: send_bounded_def send_defaults_def LONG_MAX_def)

lemma chunk_positive:
  assumes "send_bounded a" shows "0 < chunk_size T typ a"
proof (cases "a_buffer_size a = SOCK_BUFFER_SIZE_NONE")
  case False
  then have "0 < a_buffer_size a" "a_buffer_size a < 2 ^ 32" using assms by (auto simp: send_bounded_def LONG_MAX_def)
  then have "uint (word_of_int (a_buffer_size a) :: 32 word) = a_buffer_size a" by (simp add: uint_word_of_int_eq take_bit_int_eq_self)
  then show ?thesis using False \<open>0 < a_buffer_size a\<close> by (simp add: chunk_size_def)
qed (simp add: chunk_size_def SOCK_SEND_BUFFER_SIZE_UDP_def SOCK_SEND_BUFFER_SIZE_TCP_def)

lemma nonblocking_sv:
  assumes "counts T acc" shows "keeps (sv acc i) (sock_all_set_nonblocking T)"
proof -
  have "keeps (sv acc i) (set_nonblocking T ss)" for ss
    by (induction ss) (auto intro!: keeps_intros blocking_sv [OF assms])
  then show ?thesis unfolding sock_all_set_nonblocking_def by (intro keeps_intros)
qed

lemma send_data_returns:
  fixes s :: "('w, 'z) sock_scheme"
  assumes c: "counts T acc" and l: "length (sockets s) = max_sockets T" and a: "send_bounded a" and f: "LONG_MAX < int fuel"
  shows "result (sock_send_data fuel T H k d a) s \<noteq> None"
proof (cases "result (get_socket_info_by_id T k) s")
  case None
  then show ?thesis by (simp add: sock_send_data_def exec_simps)
next
  case (Some i)
  have i: "i < max_sockets T" "exec_state (get_socket_info_by_id T k) s = s"
    using Some by (auto simp: get_socket_info_by_id_def exec_simps split: if_splits)
  define s1 where "s1 = exec_state (sock_all_set_nonblocking T) s"
  define s2 where "s2 = exec_state (upd_info i (\<lambda>d. d\<lparr>send_flags := a_flags a\<rparr>)) s1"
  define s3 where "s3 = exec_state (upd_info i (\<lambda>d. d\<lparr>log_receive_data := True\<rparr>)) s2"
  have "sv acc i s3 = sv acc i s"
    unfolding s3_def s2_def s1_def
    by (simp add: keepsD [OF keeps_sv_upd] keepsD [OF nonblocking_sv [OF c]] sending_of_def)
  then have i3: "i < length (sockets s3)" using i(1) l by (simp add: sv_def)
  have random: "result (send_random fuel T i a) s3 \<noteq> None" if "0 < random_data_length a"
    using send_random_returns [OF c i3 that _ chunk_positive [OF a], of fuel] a f by (simp add: send_bounded_def)
  show ?thesis
    using Some i(2) random by (auto simp: sock_send_data_def exec_simps Let_def s3_def s2_def s1_def)
qed

text \<open>
  C22: \<open>sock send\<close> returns whatever its words are and whatever state its sockets are in, dangling
  buffers and numbered packets included: the options bound the number of bytes and the size of the
  chunks, a number that is no positive buffer size is refused, and what the options select then
  comes to an end when the network takes some of the bytes it is given or reports an error, because
  no chunk is the empty string. The only thing asked of the state is that its table has the slots it
  is declared with; an access to memory that is not owned is recorded and the run goes on.
\<close>

theorem sock_send_returns:
  fixes s :: "('w, 'z) sock_scheme"
  assumes "counts T acc" "length (sockets s) = max_sockets T" "LONG_MAX < int fuel"
  shows "result (cmd_sock_send fuel T H argv) s \<noteq> None"
proof -
  obtain opts optind where g: "getopt T short_options argv = (opts, optind)" by (cases "getopt T short_options argv")
  let ?p = "read_options (send_option T argv) opts send_defaults :: ('w, 'z, send_opts parsed) sock_prog"
  have k: "keeps (sv acc 0) (read_options (send_option T argv) opts a)" for a
    by (rule read_options_keeps) (auto simp: send_option_def blocking_option_def refuse_def other_option_def intro!: keeps_intros)
  have "sv acc 0 (exec_state ?p s) = sv acc 0 s" by (rule keepsD [OF k])
  then have l: "length (sockets (exec_state ?p s)) = max_sockets T" using assms(2) by (simp add: sv_def)
  have "result (sock_send_data fuel T H (o_id b) (cstr (o_data b)) (send_args.truncate b)) (exec_state ?p s) \<noteq> None"
    if "result ?p s = Parsed b" for b
  proof -
    have "send_bounded b"
      by (rule read_options_inv [where f = "send_option T argv" and I = send_bounded, OF _ send_defaults_bounded that])
        (rule send_option_bounded)
    then have "send_bounded (send_args.truncate b)" by (simp add: send_bounded_def send_args.truncate_def)
    then show ?thesis by (intro send_data_returns [OF assms(1) l _ assms(3)])
  qed
  then show ?thesis
    by (auto simp: cmd_sock_send_def sock_subcommand_def exec_simps g split: parsed.splits)
qed

text \<open>An option reader that takes the words in pairs of a one-letter option and its argument.\<close>

fun pairs_getopt :: "nat \<Rightarrow> string list \<Rightarrow> opt list" where
  "pairs_getopt i (x # arg # xs) = (of_char (x ! 1), arg, i + 2) # pairs_getopt (i + 2) xs"
| "pairs_getopt i _ = []"

definition test_shell :: "sock_world sock_shell_api" where
  "test_shell = sock_api.extend test_sock (sock_shell_api.fields (\<lambda>_ argv. (pairs_getopt 1 (tl argv), length argv))
     (\<lambda>_. (0, 0)) (\<lambda>_. [''Usage: sock <command> [options]'']))"

lemma test_shell_counts: "counts test_shell taken_by"
  using test_sock_counts by (simp add: counts_def test_shell_def sock_api.defs)

theorem sock_send_returns_witness:
  "result (cmd_sock_send 2147483648 test_shell test_str [''send'', ''-i'', ''0'', ''-l'', ''5000'']) (sock_start test_sock sock_boot) \<noteq> None"
  by (rule sock_send_returns [OF test_shell_counts])
    (simp_all add: sock_start_def sock_boot_def test_shell_def test_sock_def sock_api.defs LONG_MAX_def)

subsection \<open>\<open>sock connect\<close>\<close>

definition array_string :: "string \<Rightarrow> bool" where
  "array_string b \<longleftrightarrow> length b = SOCK_MAX_ADDR_LEN + 1 \<and> last b = NUL"

text \<open>The arguments that the options can produce.\<close>

definition connect_bounded :: "('w, 'y) sock_shell_api_scheme \<Rightarrow> sock_args \<Rightarrow> bool" where
  "connect_bounded T a \<longleftrightarrow>
     a_family a \<in> {num T ''AF_INET'', num T ''AF_INET6'', num T ''AF_PACKET''} \<and>
     a_type a \<in> {num T ''SOCK_STREAM'', num T ''SOCK_DGRAM'', num T ''SOCK_RAW''} \<and>
     0 \<le> a_port a \<and> a_port a \<le> 65535 \<and> 0 \<le> a_bind_port a \<and> a_bind_port a \<le> 65535 \<and> 0 \<le> a_pdn_cid a \<and>
     a_peer_verify a \<in> {0..2} \<and> a_dtls_cid a \<in> {0..2} \<and> a_dtls_frag_ext a \<in> {0..2} \<and>
     array_string (a_address a) \<and> array_string (a_peer_hostname a)"

lemma array_blit:
  assumes "array_string b" "length s \<le> SOCK_MAX_ADDR_LEN"
  shows "array_string (blit b 0 s)"
proof -
  have "length s < length b" using assms by (simp add: array_string_def)
  then show ?thesis using assms(1) by (auto simp: array_string_def blit_def last_append last_drop)
qed

lemma array_strcpy:
  assumes "array_string b" "length s \<le> SOCK_MAX_ADDR_LEN"
  shows "array_string (strcpy b s)"
proof -
  have l: "length (s @ [NUL]) \<le> length b" using assms by (simp add: array_string_def)
  show ?thesis
  proof (cases "length (s @ [NUL]) = length b")
    case True then show ?thesis using assms(1) by (simp add: array_string_def strcpy_def blit_def)
  next
    case False
    then have "length (s @ [NUL]) < length b" using l by linarith
    then show ?thesis using assms(1) by (auto simp: array_string_def strcpy_def blit_def last_append last_drop)
  qed
qed

lemma array_cstr: "array_string b \<Longrightarrow> length (cstr b) \<le> SOCK_MAX_ADDR_LEN"
  using length_cstr_less [of b] last_in_set [of b] by (fastforce simp: array_string_def terminated_def)

lemma bounded_updates:
  assumes "connect_bounded T a"
  shows "connect_bounded T (a\<lparr>a_secure := v\<rparr>)" "connect_bounded T (a\<lparr>a_sec_tag := t\<rparr>)" "connect_bounded T (a\<lparr>a_session_cache := v\<rparr>)"
    "connect_bounded T (a\<lparr>a_keep_open := v\<rparr>)"
    "k \<in> {0..2} \<Longrightarrow> connect_bounded T (a\<lparr>a_peer_verify := k\<rparr>)" "k \<in> {0..2} \<Longrightarrow> connect_bounded T (a\<lparr>a_dtls_cid := k\<rparr>)"
    "k \<in> {0..2} \<Longrightarrow> connect_bounded T (a\<lparr>a_dtls_frag_ext := k\<rparr>)" "0 \<le> k \<Longrightarrow> connect_bounded T (a\<lparr>a_pdn_cid := k\<rparr>)"
    "0 \<le> k \<Longrightarrow> k \<le> 65535 \<Longrightarrow> connect_bounded T (a\<lparr>a_port := k\<rparr>)"
    "0 \<le> k \<Longrightarrow> k \<le> 65535 \<Longrightarrow> connect_bounded T (a\<lparr>a_bind_port := k\<rparr>)"
    "k \<in> {num T ''AF_INET'', num T ''AF_INET6'', num T ''AF_PACKET''} \<Longrightarrow> connect_bounded T (a\<lparr>a_family := k\<rparr>)"
    "k \<in> {num T ''SOCK_STREAM'', num T ''SOCK_DGRAM'', num T ''SOCK_RAW''} \<Longrightarrow> connect_bounded T (a\<lparr>a_type := k\<rparr>)"
    "length s \<le> SOCK_MAX_ADDR_LEN \<Longrightarrow> connect_bounded T (a\<lparr>a_address := blit (a_address a) 0 s\<rparr>)"
    "length s \<le> SOCK_MAX_ADDR_LEN \<Longrightarrow> connect_bounded T (a\<lparr>a_peer_hostname := strcpy (a_peer_hostname a) s\<rparr>)"
  using assms unfolding connect_bounded_def by (simp_all add: array_blit array_strcpy)

text \<open>A reader that ends with new arguments has taken one branch.\<close>

lemma parsed_simps:
  "result (return (Parsed b)) s = Parsed c \<longleftrightarrow> c = b" "result (refuse T m l) s = Parsed c \<longleftrightarrow> False"
  "result (other_option T argv x) s = Parsed c \<longleftrightarrow> False"
  "result (if q then p else r) s = Parsed c \<longleftrightarrow> (if q then result p s = Parsed c else result r s = Parsed c)"
  by (auto simp: exec_simps)

lemma security_option_bounded:
  assumes "connect_bounded T a" "result (security_option T argv x a) s = Parsed b" shows "connect_bounded T b"
proof -
  obtain opt arg i where x: "x = (opt, arg, i)" by (cases x) auto
  obtain tag err where t: "shell_strtoul T arg = (tag, err)" by fastforce
  show ?thesis
    using assms(2) unfolding security_option_def x t prod.case parsed_simps
    by (auto split: if_splits intro!: bounded_updates [OF assms(1)])
qed

lemma connect_option_bounded:
  assumes "connect_bounded T a" "result (connect_option T argv x a) s = Parsed b" shows "connect_bounded T b"
proof -
  obtain opt arg i where x: "x = (opt, arg, i)" by (cases x) auto
  show ?thesis
    using assms(2) unfolding connect_option_def x prod.case parsed_simps cid_option_def family_option_def type_option_def
    by (auto split: if_splits intro!: bounded_updates [OF assms(1)] dest: security_option_bounded [OF assms(1)])
qed

lemma connect_defaults_bounded: "connect_bounded T (connect_defaults T)"
  by (simp add: connect_bounded_def connect_defaults_def array_string_def del: replicate_Suc)

lemma valid_parameters:
  fixes t :: "('w, 'v) sock_scheme"
  assumes "connect_bounded T a"
  shows "result (sock_validate_parameters T (a_family a) (a_type a) (a_port a) (a_bind_port a) (a_secure a) (a_sec_tag a)) t =
    (if a_secure a \<and> a_type a = num T ''SOCK_RAW'' \<or> a_type a \<noteq> num T ''SOCK_RAW'' \<and> a_port a = 0 then - EINVAL else 0)"
proof -
  have f: "\<not> (a_family a \<noteq> num T ''AF_INET'' \<and> a_family a \<noteq> num T ''AF_INET6'' \<and> a_family a \<noteq> num T ''AF_PACKET'')"
    "\<not> (a_type a \<noteq> num T ''SOCK_STREAM'' \<and> a_type a \<noteq> num T ''SOCK_DGRAM'' \<and> a_type a \<noteq> num T ''SOCK_RAW'')"
    using assms unfolding connect_bounded_def by blast+
  have p: "(a_port a < 1 \<or> 65535 < a_port a) = (a_port a = 0)" "\<not> 65535 < a_bind_port a" "\<not> uint (a_sec_tag a) < 0"
    using assms unfolding connect_bounded_def by (linarith, linarith, simp add: linorder_not_less)
  show ?thesis
    unfolding sock_validate_parameters_def by (simp only: f p if_False simp_thms) (simp add: exec_simps)
qed

text \<open>
  C24: Whatever options \<open>sock connect\<close> accepts, its arguments are in range: strings of at most 100
  characters that end in their arrays, ports of 16 bits, a known family and type; so the checks of
  \<open>sock_open_and_connect\<close> can only find a missing port or security on a raw socket.
\<close>

theorem connect_options_valid:
  fixes s :: "('w, 'z) sock_scheme" and t :: "('w, 'v) sock_scheme"
  assumes "result (read_options (connect_option T argv) opts (connect_defaults T)) s = Parsed a"
  shows "connect_bounded T a \<and> length (a_address (strings_of a)) \<le> 100 \<and> length (a_peer_hostname (strings_of a)) \<le> 100 \<and>
    result (sock_validate_parameters T (a_family a) (a_type a) (a_port a) (a_bind_port a) (a_secure a) (a_sec_tag a)) t =
      (if a_secure a \<and> a_type a = num T ''SOCK_RAW'' \<or> a_type a \<noteq> num T ''SOCK_RAW'' \<and> a_port a = 0 then - EINVAL else 0)"
proof -
  have b: "connect_bounded T a"
    by (rule read_options_inv [where f = "connect_option T argv" and I = "connect_bounded T", OF _ connect_defaults_bounded assms])
      (rule connect_option_bounded)
  have "length (a_address (strings_of a)) \<le> 100" "length (a_peer_hostname (strings_of a)) \<le> 100"
    using b array_cstr by (auto simp: strings_of_def connect_bounded_def SOCK_MAX_ADDR_LEN_def)
  moreover have "result (sock_validate_parameters T (a_family a) (a_type a) (a_port a) (a_bind_port a) (a_secure a) (a_sec_tag a)) t =
      (if a_secure a \<and> a_type a = num T ''SOCK_RAW'' \<or> a_type a \<noteq> num T ''SOCK_RAW'' \<and> a_port a = 0 then - EINVAL else 0)"
    using valid_parameters [OF b] .
  ultimately show ?thesis using b by blast
qed

text \<open>\<open>sock connect -p 443 -f inet6\<close> and no security.\<close>

lemma port_options:
  "result (read_options (connect_option test_shell []) [(112, ''443'', 3), (102, ''inet6'', 5)] (connect_defaults test_shell)) sock_boot =
    Parsed ((connect_defaults test_shell)\<lparr>a_port := 443, a_family := num test_shell ''AF_INET6''\<rparr>)"
proof -
  have "atoi ''443'' = 443" by code_simp
  then show ?thesis
    by (simp add: exec_simps connect_option_def is_opt_def family_option_def)
qed

theorem connect_options_valid_witness:
  "result (sock_validate_parameters test_shell (num test_shell ''AF_INET6'') (num test_shell ''SOCK_STREAM'') 443 0 False
      (word_of_int (num test_shell ''SEC_TAG_TLS_INVALID''))) sock_boot = 0"
  using connect_options_valid [OF port_options, of sock_boot]
  by (simp add: connect_defaults_def test_shell_def test_sock_def sock_api.defs)

text \<open>
  A second, shorter address does not replace the first one: the end of the first one stays, and
  the name that is looked up is a mixture of both.
\<close>

theorem connect_address_mixed:
  fixes s :: "('w, 'z) sock_scheme"
  assumes "NUL \<notin> set x" "NUL \<notin> set y" "length y < length x" "length x \<le> 100"
  shows "\<exists>a. result (read_options (connect_option T argv) [(of_char (CHR ''a''), x, i), (of_char (CHR ''a''), y, j)] (connect_defaults T)) s = Parsed a \<and>
    a_address (strings_of a) = y @ drop (length y) x"
proof -
  define z where "z = replicate (101 :: nat) NUL"
  have x: "blit z 0 x = x @ drop (length x) z" by (simp add: blit_def)
  have "drop (length x) z = NUL # drop (Suc (length x)) z"
    using Cons_nth_drop_Suc [of "length x" z] assms(4) by (simp add: z_def del: replicate_Suc drop_replicate)
  then have m: "blit (blit z 0 x) 0 y = (y @ drop (length y) x) @ NUL # drop (Suc (length x)) z"
    using assms(3) unfolding x by (simp add: blit_def)
  have "NUL \<notin> set (y @ drop (length y) x)"
    using assms(1,2) in_set_dropD [of NUL "length y" x] by auto
  then have c: "cstr (blit (blit z 0 x) 0 y) = y @ drop (length y) x" unfolding m by (rule cstr_append_NUL)
  let ?a = "(connect_defaults T)\<lparr>a_address := blit z 0 x\<rparr>"
  have o: "result (connect_option T argv (97, x, i) (connect_defaults T)) t = Parsed ?a"
    "result (connect_option T argv (97, y, j) ?a) t = Parsed (?a\<lparr>a_address := blit (blit z 0 x) 0 y\<rparr>)"
    for t :: "('w, 'z) sock_scheme"
    using assms(3,4) unfolding connect_option_def prod.case
    by (simp_all add: exec_simps is_opt_def SOCK_MAX_ADDR_LEN_def connect_defaults_def z_def del: replicate_Suc drop_replicate)
  show ?thesis
    by (simp add: exec_simps o strings_of_def c)
qed

theorem connect_address_mixed_witness:
  "\<exists>a. result (read_options (connect_option test_shell [])
      [(of_char (CHR ''a''), ''example.com'', 3), (of_char (CHR ''a''), ''8.8.8.8'', 5)] (connect_defaults test_shell)) sock_boot = Parsed a \<and>
    a_address (strings_of a) = ''8.8.8.8.com''"
  using connect_address_mixed [of "''example.com''" "''8.8.8.8''" test_shell "[]" 3 5 sock_boot]
  by (simp add: NUL_def del: read_options.simps)

end
