(* ===== verification/Mosh_Gnss.thy ===== *)
theory Mosh_Gnss
  imports Mosh_Str
begin

section \<open>GNSS (\<open>gnss.c\<close>)\<close>

text \<open>
  Three parts share the static variables: the handler of the modem's GNSS events, which runs in an
  interrupt, copies the data of an event into a block of the heap and puts it into a queue of 30; the
  thread that takes the events from the queue, prints them and frees the blocks; and the API, which
  sets up the modem and, in the periodic mode of the application, starts and stops the search by
  work items with a delay.

  The GNSS interface of the modem, nRF Cloud and the heap are parameters, as are the numbers of their
  header files (\<open>gnss_num\<close> by name). Floating-point fields are passed on as they are (as the integer
  their bits make). The build is that of \<open>prj.conf\<close>: nRF Cloud over CoAP, assertions enabled, an
  nRF9151; P-GPS and filtered ephemerides are options of it. LwM2M, MQTT and SUPL are not modelled.
\<close>

definition EACCES :: int where "EACCES = 13"
definition EOPNOTSUPP :: int where "EOPNOTSUPP = 95"
definition UINT16_MAX :: int where "UINT16_MAX = 65535"

datatype gnss_operation_mode = GNSS_OP_MODE_CONTINUOUS | GNSS_OP_MODE_SINGLE_FIX | GNSS_OP_MODE_PERIODIC_FIX
  | GNSS_OP_MODE_PERIODIC_FIX_GNSS

text \<open>The enumerations of \<open>gnss.h\<close>; a variable of such a type can hold other numbers.\<close>

definition GNSS_DUTY_CYCLING_DISABLED :: int where "GNSS_DUTY_CYCLING_DISABLED = 0"
definition GNSS_DUTY_CYCLING_PERFORMANCE :: int where "GNSS_DUTY_CYCLING_PERFORMANCE = 1"
definition GNSS_DUTY_CYCLING_POWER :: int where "GNSS_DUTY_CYCLING_POWER = 2"
definition GNSS_DATA_DELETE_EPHEMERIDES :: int where "GNSS_DATA_DELETE_EPHEMERIDES = 0"
definition GNSS_DATA_DELETE_EKF :: int where "GNSS_DATA_DELETE_EKF = 1"
definition GNSS_DATA_DELETE_ALL :: int where "GNSS_DATA_DELETE_ALL = 2"
definition GNSS_DATA_DELETE_TCXO :: int where "GNSS_DATA_DELETE_TCXO = 3"
definition GNSS_DYNAMICS_MODE_GENERAL :: int where "GNSS_DYNAMICS_MODE_GENERAL = 0"
definition GNSS_DYNAMICS_MODE_STATIONARY :: int where "GNSS_DYNAMICS_MODE_STATIONARY = 1"
definition GNSS_DYNAMICS_MODE_PEDESTRIAN :: int where "GNSS_DYNAMICS_MODE_PEDESTRIAN = 2"
definition GNSS_DYNAMICS_MODE_AUTOMOTIVE :: int where "GNSS_DYNAMICS_MODE_AUTOMOTIVE = 3"
definition GNSS_TIMING_SOURCE_RTC :: int where "GNSS_TIMING_SOURCE_RTC = 0"
definition GNSS_TIMING_SOURCE_TCXO :: int where "GNSS_TIMING_SOURCE_TCXO = 1"
definition GNSS_NMEA_TALKER_MODE_STANDARD :: int where "GNSS_NMEA_TALKER_MODE_STANDARD = 0"
definition GNSS_NMEA_TALKER_MODE_GP_ONLY :: int where "GNSS_NMEA_TALKER_MODE_GP_ONLY = 1"
definition GNSS_NMEA_QZSS_MODE_STANDARD :: int where "GNSS_NMEA_QZSS_MODE_STANDARD = 0"
definition GNSS_NMEA_QZSS_MODE_CUSTOM :: int where "GNSS_NMEA_QZSS_MODE_CUSTOM = 1"

record gnss_1pps_mode =
  pps_enable :: bool
  pulse_interval :: "16 word"
  pulse_width :: "16 word"
  apply_start_time :: bool
  pps_year :: "16 word"
  pps_month :: "8 word"
  pps_day :: "8 word"
  pps_hour :: "8 word"
  pps_minute :: "8 word"
  pps_second :: "8 word"

subsection \<open>Data of the events\<close>

record gnss_sv =
  sv :: "16 word"
  cn0 :: "16 word"
  sv_elevation :: "16 word"
  sv_azimuth :: "16 word"
  sv_signal :: "8 word"
  sv_flags :: "8 word"

record gnss_datetime =
  dt_year :: "16 word"
  dt_month :: "8 word"
  dt_day :: "8 word"
  dt_hour :: "8 word"
  dt_minute :: "8 word"
  dt_seconds :: "8 word"
  dt_ms :: "16 word"

record pvt_frame =
  pvt_latitude :: int
  pvt_longitude :: int
  pvt_altitude :: int
  pvt_accuracy :: int
  altitude_accuracy :: int
  pvt_speed :: int
  speed_accuracy :: int
  vertical_speed :: int
  vertical_speed_accuracy :: int
  pvt_heading :: int
  heading_accuracy :: int
  pvt_datetime :: gnss_datetime
  pdop :: int
  hdop :: int
  vdop :: int
  tdop :: int
  pvt_flags :: "8 word"
  pvt_sv :: "gnss_sv list"
  execution_time :: "32 word"

record system_need =
  system_id :: "8 word"
  sv_mask_ephe :: "64 word"
  sv_mask_alm :: "64 word"

record agnss_frame =
  data_flags :: "32 word"
  system_count :: "8 word"
  systems :: "system_need list"

datatype event_data = Uninit | Pvt pvt_frame | Nmea string | Agnss agnss_frame

record event_item =
  ev_id :: int
  ev_data :: "nat option"

record gnss_cell =
  cell_id :: int
  cell_tac :: int
  cell_rsrp :: int
  cell_mnc :: int
  cell_mcc :: int

record coap_request =
  agnss_req :: agnss_frame
  mask_angle :: "8 word"
  coap_filtered :: bool
  net_info :: "gnss_cell option"

datatype pgps_event = PGPS_EVT_READY "nat option" | PGPS_EVT_AVAILABLE "nat option" | PGPS_EVT_REQUEST nat | PGPS_EVT_OTHER

record expiry_sv =
  exp_sv_id :: "16 word"
  exp_system_id :: "8 word"
  ephe_expiry :: "16 word"
  alm_expiry :: "16 word"

record agnss_expiry =
  exp_data_flags :: "32 word"
  utc_expiry :: "16 word"
  klob_expiry :: "16 word"
  neq_expiry :: "16 word"
  integrity_expiry :: "16 word"
  position_expiry :: "16 word"
  ggto_expiry :: "16 word"
  exp_sv :: "expiry_sv list"

subsection \<open>State and parameters\<close>

text \<open>
  \<open>start_work\<close> and \<open>timeout_work\<close> are the delayable work items with the delay they were scheduled
  with, the other fields \<open>_work\<close> say whether the item is submitted. \<open>blocks\<close> are the blocks allocated
  for events; \<open>data_fault\<close> is set by an access through a pointer that points to no block with the data
  expected.
\<close>

record 'w gnss_modes = "'w mosh" +
  operation_mode :: gnss_operation_mode
  periodic_fix_interval :: "32 word"
  periodic_fix_retry :: "32 word"
  nmea_mask_set :: bool
  agnss_need :: agnss_frame
  gnss_elevation :: "8 word"
  gnss_api_initialized :: bool
  pvt_output_level :: "8 word"
  nmea_output_level :: "8 word"
  event_output_level :: "8 word"

record 'w agnss_filter = "'w gnss_modes" +
  agnss_automatic :: bool
  agnss_inject_ephe :: bool
  agnss_inject_alm :: bool
  agnss_inject_utc :: bool
  agnss_inject_klob :: bool
  agnss_inject_neq :: bool
  agnss_inject_time :: bool
  agnss_inject_pos :: bool
  agnss_inject_int :: bool
  agnss_inject_ggto :: bool

record 'w gnss_pgps = "'w agnss_filter" +
  pgps_enabled :: bool
  prediction :: "nat option"
  pgps_request :: nat
  gnss_filtered_ephemerides_enabled :: bool
  inject_pgps_data_work :: bool
  notify_pgps_prediction_work :: bool
  get_pgps_data_work :: bool

record 'w gnss = "'w gnss_pgps" +
  gnss_event_msgq :: "event_item list"
  start_work :: "nat option"
  timeout_work :: "nat option"
  stop_work :: bool
  get_agnss_data_work :: bool
  blocks :: "nat \<Rightarrow> event_data option"
  next_event_block :: nat
  data_fault :: bool

type_synonym ('w, 'z, 'a) gnss_prog = "(('w, 'z) gnss_scheme, 'a) prog"

record 'w gnss_events_api = "'w str_api" +
  gnss_num :: "string \<Rightarrow> int"
  tenths :: "16 word \<Rightarrow> int"
  k_malloc_ok :: "'w \<Rightarrow> bool \<times> 'w"
  read_pvt :: "'w \<Rightarrow> (int \<times> pvt_frame) \<times> 'w"
  read_nmea :: "'w \<Rightarrow> (int \<times> string) \<times> 'w"
  read_agnss :: "'w \<Rightarrow> (int \<times> agnss_frame) \<times> 'w"

record 'w gnss_modem_api = "'w gnss_events_api" +
  event_handler_set :: "'w \<Rightarrow> 'w"
  modem_gnss_start :: "'w \<Rightarrow> int \<times> 'w"
  modem_gnss_stop :: "'w \<Rightarrow> int \<times> 'w"
  modem_gnss_set :: "string \<Rightarrow> int \<Rightarrow> 'w \<Rightarrow> int \<times> 'w"
  modem_1pps_enable :: "gnss_1pps_mode \<Rightarrow> 'w \<Rightarrow> int \<times> 'w"
  agnss_write_location :: "int list \<Rightarrow> 'w \<Rightarrow> int \<times> 'w"
  agnss_expiry_get :: "'w \<Rightarrow> (int \<times> agnss_expiry) \<times> 'w"

record 'w gnss_api = "'w gnss_modem_api" +
  modem_info_string_get :: "string \<Rightarrow> 'w \<Rightarrow> (int \<times> string) \<times> 'w"
  modem_info_short_get :: "string \<Rightarrow> 'w \<Rightarrow> (int \<times> int) \<times> 'w"
  coap_agnss_data_get :: "coap_request \<Rightarrow> 'w \<Rightarrow> (int \<times> 8 word list) \<times> 'w"
  agnss_process :: "8 word list \<Rightarrow> 'w \<Rightarrow> int \<times> 'w"
  pgps_init :: "'w \<Rightarrow> int \<times> 'w"
  coap_pgps_url_get :: "nat \<Rightarrow> 'w \<Rightarrow> (int \<times> string \<times> string) \<times> 'w"
  pgps_update :: "string \<times> string \<Rightarrow> 'w \<Rightarrow> int \<times> 'w"
  pgps_request_reset :: "'w \<Rightarrow> 'w"
  pgps_notify_prediction :: "'w \<Rightarrow> int \<times> 'w"
  pgps_inject :: "nat option \<Rightarrow> agnss_frame \<Rightarrow> 'w \<Rightarrow> int \<times> 'w"
  pgps_preemptive_updates :: "'w \<Rightarrow> int \<times> 'w"
  config_pgps :: bool
  filtered_runtime :: bool
  inject_max_length :: nat

text \<open>
  \<open>modem_gnss_set\<close> are the functions \<open>nrf_modem_gnss_..._set\<close> that take one number, by the name of
  what they set.
\<close>

definition MSGQ_LEN :: nat where
  "MSGQ_LEN = 30"

definition gnss_err_to_str :: "('w, 'y) gnss_api_scheme \<Rightarrow> int \<Rightarrow> string" where
  "gnss_err_to_str T err =
     (if err = - gnss_num T ''NRF_EPERM'' then ''Modem library not initialized''
      else if err = - gnss_num T ''NRF_ENOMEM'' then ''not enough shared memory''
      else if err = - gnss_num T ''NRF_EACCES'' then ''GNSS not enabled in system or functional mode''
      else if err = - gnss_num T ''NRF_EINVAL'' then ''wrong state or invalid data''
      else if err = - gnss_num T ''NRF_ENOMSG'' then ''no data to read for selected data type''
      else if err = - gnss_num T ''NRF_EOPNOTSUPP'' then ''operation not supported by modem firmware''
      else if err = - gnss_num T ''NRF_ESHUTDOWN'' then ''modem was shut down''
      else if err = - gnss_num T ''NRF_EMSGSIZE'' then ''supplied buffer too small''
      else ''unknown err value'')"

subsection \<open>Blocks and work items\<close>

definition new_block :: "('w, 'z, nat) gnss_prog" where
  "new_block = do {
     a \<leftarrow> gets next_event_block;
     modify (\<lambda>s. s\<lparr>blocks := (blocks s)(a \<mapsto> Uninit), next_event_block := Suc a\<rparr>);
     return a
   }"

definition put_block :: "nat \<Rightarrow> event_data \<Rightarrow> ('w, 'z, unit) gnss_prog" where
  "put_block a d = modify (\<lambda>s. s\<lparr>blocks := (blocks s)(a \<mapsto> d)\<rparr>)"

definition gnss_fault :: "('w, 'z, unit) gnss_prog" where
  "gnss_fault = modify (\<lambda>s. s\<lparr>data_fault := True\<rparr>)"

text \<open>\<open>k_free\<close>; the null pointer may be freed.\<close>

definition k_free :: "nat option \<Rightarrow> ('w, 'z, unit) gnss_prog" where
  "k_free p = (case p of
     None \<Rightarrow> return ()
   | Some a \<Rightarrow> do {
       b \<leftarrow> gets (\<lambda>s. blocks s a);
       if b = None then gnss_fault else modify (\<lambda>s. s\<lparr>blocks := (blocks s)(a := None)\<rparr>)
     })"

text \<open>What a pointer points to; \<open>Uninit\<close> also for a pointer to nothing.\<close>

definition deref :: "nat option \<Rightarrow> ('w, 'z, event_data) gnss_prog" where
  "deref p = gets (\<lambda>s. case p of None \<Rightarrow> Uninit | Some a \<Rightarrow> (case blocks s a of None \<Rightarrow> Uninit | Some d \<Rightarrow> d))"

text \<open>\<open>k_work_schedule\<close> leaves an item that is scheduled as it is.\<close>

definition schedule_start :: "nat \<Rightarrow> ('w, 'z, unit) gnss_prog" where
  "schedule_start delay = modify (\<lambda>s. if start_work s = None then s\<lparr>start_work := Some delay\<rparr> else s)"

definition schedule_timeout :: "nat \<Rightarrow> ('w, 'z, unit) gnss_prog" where
  "schedule_timeout delay = modify (\<lambda>s. if timeout_work s = None then s\<lparr>timeout_work := Some delay\<rparr> else s)"

subsection \<open>The handler of the modem's events\<close>

definition get_event_data :: "('w, 'y) gnss_api_scheme \<Rightarrow> string \<Rightarrow> ('w \<Rightarrow> (int \<times> event_data) \<times> 'w) \<Rightarrow>
    ('w, 'z, int \<times> nat option) gnss_prog" where
  "get_event_data T typ read = do {
     ok \<leftarrow> call (k_malloc_ok T);
     if \<not> ok then return (- 1, None)
     else do {
       data \<leftarrow> new_block;
       (err, d) \<leftarrow> call read;
       if err \<noteq> 0 then do {
         to_console (Print (''Failed to read event data, type: %d, error: %d (%s)'' @ [CHR 0x0A])
           [PInt (gnss_num T typ), PInt err, PStr (gnss_err_to_str T err)]);
         k_free (Some data);
         return (- 1, None)
       } else do {
         put_block data d;
         return (0, Some data)
       }
     }
   }"

definition typed :: "('a \<Rightarrow> event_data) \<Rightarrow> ('w \<Rightarrow> (int \<times> 'a) \<times> 'w) \<Rightarrow> 'w \<Rightarrow> (int \<times> event_data) \<times> 'w" where
  "typed c rd w = (case rd w of ((err, x), w') \<Rightarrow> ((err, c x), w'))"

text \<open>The error and the data of an event; a fix ends the search of the periodic mode.\<close>

definition event_with_data :: "('w, 'y) gnss_api_scheme \<Rightarrow> int \<Rightarrow> ('w, 'z, int \<times> nat option) gnss_prog" where
  "event_with_data T event_id =
     (if event_id = gnss_num T ''NRF_MODEM_GNSS_EVT_PVT'' then
        get_event_data T ''NRF_MODEM_GNSS_DATA_PVT'' (typed Pvt (read_pvt T))
      else if event_id = gnss_num T ''NRF_MODEM_GNSS_EVT_FIX'' then do {
        mode \<leftarrow> gets operation_mode;
        doif (mode = GNSS_OP_MODE_PERIODIC_FIX) (modify (\<lambda>s. s\<lparr>timeout_work := None, stop_work := True\<rparr>));
        return (0, None)
      } else if event_id = gnss_num T ''NRF_MODEM_GNSS_EVT_NMEA'' then
        get_event_data T ''NRF_MODEM_GNSS_DATA_NMEA'' (typed Nmea (read_nmea T))
      else if event_id = gnss_num T ''NRF_MODEM_GNSS_EVT_AGNSS_REQ'' then
        get_event_data T ''NRF_MODEM_GNSS_DATA_AGNSS_REQ'' (typed Agnss (read_agnss T))
      else return (0, None))"

text \<open>\<open>k_msgq_put\<close> without waiting: the identifier is kept in 8 bits.\<close>

definition put_event :: "('w, 'y) gnss_api_scheme \<Rightarrow> event_item \<Rightarrow> ('w, 'z, unit) gnss_prog" where
  "put_event T event = do {
     q \<leftarrow> gets gnss_event_msgq;
     if length q < MSGQ_LEN then modify (\<lambda>s. s\<lparr>gnss_event_msgq := q @ [event]\<rparr>)
     else do {
       mosh_warn T ''GNSS: Event msgq full'' [];
       k_free (ev_data event)
     }
   }"

definition gnss_event_handler :: "('w, 'y) gnss_api_scheme \<Rightarrow> int \<Rightarrow> ('w, 'z, unit) gnss_prog" where
  "gnss_event_handler T event_id = do {
     (err, data) \<leftarrow> event_with_data T event_id;
     if err \<noteq> 0 then return ()
     else put_event T \<lparr>ev_id = event_id mod 256, ev_data = data\<rparr>
   }"

subsection \<open>The thread that handles the data\<close>

fun print_lines :: "('w, 'y) print_api_scheme \<Rightarrow> (string \<times> parg list) list \<Rightarrow> ('w, 'z, unit) gnss_prog" where
  "print_lines T [] = return ()"
| "print_lines T (l # ls) = do { mosh_print T (fst l) (snd l); print_lines T ls }"

definition has_flag :: "('w, 'y) gnss_api_scheme \<Rightarrow> 8 word \<Rightarrow> string \<Rightarrow> bool" where
  "has_flag T fl n \<longleftrightarrow> fl AND word_of_int (gnss_num T n) \<noteq> 0"

definition truth :: "bool \<Rightarrow> parg" where
  "truth b = PStr (if b then ''true'' else ''false'')"

definition print_pvt_flags :: "('w, 'y) gnss_api_scheme \<Rightarrow> pvt_frame \<Rightarrow> ('w, 'z, unit) gnss_prog" where
  "print_pvt_flags T pvt = print_lines T
     [('''', []),
      (''Fix valid:          %s'', [truth (has_flag T (pvt_flags pvt) ''NRF_MODEM_GNSS_PVT_FLAG_FIX_VALID'')]),
      (''Leap second valid:  %s'', [truth (has_flag T (pvt_flags pvt) ''NRF_MODEM_GNSS_PVT_FLAG_LEAP_SECOND_VALID'')]),
      (''Sleep between PVT:  %s'', [truth (has_flag T (pvt_flags pvt) ''NRF_MODEM_GNSS_PVT_FLAG_SLEEP_BETWEEN_PVT'')]),
      (''Deadline missed:    %s'', [truth (has_flag T (pvt_flags pvt) ''NRF_MODEM_GNSS_PVT_FLAG_DEADLINE_MISSED'')]),
      (''Insuf. time window: %s'', [truth (has_flag T (pvt_flags pvt) ''NRF_MODEM_GNSS_PVT_FLAG_NOT_ENOUGH_WINDOW_TIME'')]),
      (''Velocity valid:     %s'', [truth (has_flag T (pvt_flags pvt) ''NRF_MODEM_GNSS_PVT_FLAG_VELOCITY_VALID'')]),
      (''Scheduled download: %s'', [truth (has_flag T (pvt_flags pvt) ''NRF_MODEM_GNSS_PVT_FLAG_SCHED_DOWNLOAD'')])]"

definition fix_lines :: "pvt_frame \<Rightarrow> (string \<times> parg list) list" where
  "fix_lines pvt =
     [(''Time:              %02d.%02d.%04d %02d:%02d:%02d.%03d'',
       [PInt (uint (dt_day (pvt_datetime pvt))), PInt (uint (dt_month (pvt_datetime pvt))), PInt (uint (dt_year (pvt_datetime pvt))),
        PInt (uint (dt_hour (pvt_datetime pvt))), PInt (uint (dt_minute (pvt_datetime pvt))), PInt (uint (dt_seconds (pvt_datetime pvt))),
        PInt (uint (dt_ms (pvt_datetime pvt)))]),
      (''Latitude:          %f'', [PInt (pvt_latitude pvt)]),
      (''Longitude:         %f'', [PInt (pvt_longitude pvt)]),
      (''Accuracy:          %.1f m'', [PInt (pvt_accuracy pvt)]),
      (''Altitude:          %.1f m'', [PInt (pvt_altitude pvt)]),
      (''Altitude accuracy: %.1f m'', [PInt (altitude_accuracy pvt)]),
      (''Speed:             %.1f m/s'', [PInt (pvt_speed pvt)]),
      (''Speed accuracy:    %.1f m/s'', [PInt (speed_accuracy pvt)]),
      (''V. speed:          %.1f m/s'', [PInt (vertical_speed pvt)]),
      (''V. speed accuracy: %.1f m/s'', [PInt (vertical_speed_accuracy pvt)]),
      (''Heading:           %.1f deg'', [PInt (pvt_heading pvt)]),
      (''Heading accuracy:  %.1f deg'', [PInt (heading_accuracy pvt)]),
      (''PDOP:              %.1f'', [PInt (pdop pvt)]),
      (''HDOP:              %.1f'', [PInt (hdop pvt)]),
      (''VDOP:              %.1f'', [PInt (vdop pvt)]),
      (''TDOP:              %.1f'', [PInt (tdop pvt)]),
      (''Google maps URL:   https://maps.google.com/?q=%f,%f'', [PInt (pvt_latitude pvt), PInt (pvt_longitude pvt)])]"

definition sv_line :: "('w, 'y) gnss_api_scheme \<Rightarrow> gnss_sv \<Rightarrow> string \<times> parg list" where
  "sv_line T v = (''SV: %3d C/N0: %4.1f el: %2d az: %3d signal: %d in fix: %d unhealthy: %d'',
     [PInt (uint (sv v)), PInt (tenths T (cn0 v)), PInt (sint (sv_elevation v)), PInt (sint (sv_azimuth v)), PInt (uint (sv_signal v)),
      PInt (if has_flag T (sv_flags v) ''NRF_MODEM_GNSS_SV_FLAG_USED_IN_FIX'' then 1 else 0),
      PInt (if has_flag T (sv_flags v) ''NRF_MODEM_GNSS_SV_FLAG_UNHEALTHY'' then 1 else 0)])"

definition print_pvt :: "('w, 'y) gnss_api_scheme \<Rightarrow> pvt_frame \<Rightarrow> ('w, 'z, unit) gnss_prog" where
  "print_pvt T pvt = do {
     level \<leftarrow> gets pvt_output_level;
     if level = 0 then return ()
     else do {
       print_pvt_flags T pvt;
       mosh_print T ''Execution time:     %u ms'' [PInt (uint (execution_time pvt))];
       doif (has_flag T (pvt_flags pvt) ''NRF_MODEM_GNSS_PVT_FLAG_FIX_VALID'') (print_lines T (fix_lines pvt));
       if level < 2 then return ()
       else print_lines T (map (sv_line T) (filter (\<lambda>v. sv v \<noteq> 0) (pvt_sv pvt)))
     }
   }"

text \<open>The first line end of the array becomes its end.\<close>

fun end_line :: "string \<Rightarrow> string" where
  "end_line [] = []"
| "end_line (c # cs) = (if c = CHR 0x0D \<or> c = CHR 0x0A then NUL # cs else c # end_line cs)"

definition print_nmea :: "('w, 'y) gnss_api_scheme \<Rightarrow> string \<Rightarrow> ('w, 'z, unit) gnss_prog" where
  "print_nmea T nmea_str = do {
     level \<leftarrow> gets nmea_output_level;
     if level = 0 then return ()
     else mosh_print T ''%s'' [PStr (cstr (end_line nmea_str))]
   }"

definition event_print :: "('w, 'y) gnss_api_scheme \<Rightarrow> string \<Rightarrow> ('w, 'z, unit) gnss_prog" where
  "event_print T msg = do { level \<leftarrow> gets event_output_level; doif (level > 0) (mosh_print T msg []) }"

definition need_line :: "('w, 'y) gnss_api_scheme \<Rightarrow> string \<Rightarrow> system_need \<Rightarrow> string \<times> parg list" where
  "need_line T f n = (f, [PStr (gnss_system_str_get T (system_id n)), PInt (uint (sv_mask_ephe n)), PInt (uint (sv_mask_alm n))])"

definition needed_systems :: "agnss_frame \<Rightarrow> system_need list" where
  "needed_systems f = take (unat (system_count f)) (systems f)"

definition handle_agnss_req :: "('w, 'y) gnss_api_scheme \<Rightarrow> agnss_frame \<Rightarrow> ('w, 'z, unit) gnss_prog" where
  "handle_agnss_req T f =
     (if \<not> system_count f > 0 \<or> system_id (systems f ! 0) \<noteq> gnss_system T ''NRF_MODEM_GNSS_SYSTEM_GPS'' then abort ()
      else do {
        level \<leftarrow> gets event_output_level;
        doif (level > 0) (do {
          mosh_print T ''GNSS: A-GNSS data needed: Flags: %s'' [PStr (agnss_data_flags_str_get T (data_flags f))];
          print_lines T (map (need_line T ''GNSS: A-GNSS data needed: %s ephe: 0x%llx, alm: 0x%llx'') (needed_systems f))
        });
        modify (\<lambda>s. s\<lparr>agnss_need := f\<rparr>);
        automatic \<leftarrow> gets agnss_automatic;
        doif automatic (modify (\<lambda>s. s\<lparr>get_agnss_data_work := True\<rparr>));
        enabled \<leftarrow> gets pgps_enabled;
        doif (config_pgps T \<and> enabled \<and> sv_mask_ephe (systems f ! 0) \<noteq> 0) (modify (\<lambda>s. s\<lparr>notify_pgps_prediction_work := True\<rparr>))
      })"

definition handle_event :: "('w, 'y) gnss_api_scheme \<Rightarrow> event_item \<Rightarrow> ('w, 'z, unit) gnss_prog" where
  "handle_event T e =
     (if ev_id e = gnss_num T ''NRF_MODEM_GNSS_EVT_PVT'' then do {
        d \<leftarrow> deref (ev_data e);
        case d of Pvt pvt \<Rightarrow> print_pvt T pvt | _ \<Rightarrow> gnss_fault
      } else if ev_id e = gnss_num T ''NRF_MODEM_GNSS_EVT_FIX'' then event_print T ''GNSS: Got fix''
      else if ev_id e = gnss_num T ''NRF_MODEM_GNSS_EVT_NMEA'' then do {
        d \<leftarrow> deref (ev_data e);
        case d of Nmea n \<Rightarrow> print_nmea T n | _ \<Rightarrow> gnss_fault
      } else if ev_id e = gnss_num T ''NRF_MODEM_GNSS_EVT_AGNSS_REQ'' then do {
        d \<leftarrow> deref (ev_data e);
        case d of Agnss f \<Rightarrow> handle_agnss_req T f | _ \<Rightarrow> gnss_fault
      } else if ev_id e = gnss_num T ''NRF_MODEM_GNSS_EVT_BLOCKED'' then event_print T ''GNSS: Blocked by LTE''
      else if ev_id e = gnss_num T ''NRF_MODEM_GNSS_EVT_UNBLOCKED'' then event_print T ''GNSS: Unblocked by LTE''
      else if ev_id e = gnss_num T ''NRF_MODEM_GNSS_EVT_PERIODIC_WAKEUP'' then event_print T ''GNSS: Wakeup''
      else if ev_id e = gnss_num T ''NRF_MODEM_GNSS_EVT_SLEEP_AFTER_TIMEOUT'' then event_print T ''GNSS: Timeout, entering sleep''
      else if ev_id e = gnss_num T ''NRF_MODEM_GNSS_EVT_SLEEP_AFTER_FIX'' then event_print T ''GNSS: Fix, entering sleep''
      else if ev_id e = gnss_num T ''NRF_MODEM_GNSS_EVT_REF_ALT_EXPIRED'' then
        event_print T ''GNSS: Reference altitude for 3-satellite fix expired''
      else do {
        level \<leftarrow> gets event_output_level;
        doif (level > 0) (mosh_warn T ''GNSS: Unknown event %d received'' [PInt (ev_id e)])
      })"

text \<open>A turn of the loop: the thread waits while the queue is empty.\<close>

definition data_handler_turn :: "('w, 'y) gnss_api_scheme \<Rightarrow> ('w, 'z, unit) gnss_prog" where
  "data_handler_turn T = do {
     q \<leftarrow> gets gnss_event_msgq;
     case q of [] \<Rightarrow> return ()
     | e # rest \<Rightarrow> do {
         modify (\<lambda>s. s\<lparr>gnss_event_msgq := rest\<rparr>);
         handle_event T e;
         k_free (ev_data e)
       }
   }"

subsection \<open>A-GNSS\<close>

definition strtol_value :: "nat \<Rightarrow> string \<Rightarrow> int" where
  "strtol_value base t = (case strtol base t of None \<Rightarrow> 0 | Some (v, _, _) \<Rightarrow> v)"

text \<open>The error, or the serving cell; the operator is three digits of MCC and then the MNC.\<close>

definition serving_cell_info_get :: "('w, 'y) gnss_api_scheme \<Rightarrow> ('w, 'z, int + gnss_cell) gnss_prog" where
  "serving_cell_info_get T = do {
     (err, resp) \<leftarrow> call (modem_info_string_get T ''MODEM_INFO_CELLID'');
     if err < 0 then return (Inl err)
     else do {
       let cid = strtol_value 16 resp;
       (err, resp) \<leftarrow> call (modem_info_string_get T ''MODEM_INFO_AREA_CODE'');
       if err < 0 then return (Inl err)
       else do {
         let tac = strtol_value 16 resp;
         (err, rsrp) \<leftarrow> call (modem_info_short_get T ''MODEM_INFO_RSRP'');
         if err < 0 then return (Inl err)
         else do {
           let rsrp = (if rsrp = 255 then 0 else rsrp);
           (err, resp) \<leftarrow> call (modem_info_string_get T ''MODEM_INFO_OPERATOR'');
           if err < 0 then return (Inl err)
           else return (Inr \<lparr>cell_id = cid, cell_tac = tac, cell_rsrp = rsrp, cell_mnc = strtol_value 10 (drop 3 resp),
             cell_mcc = strtol_value 10 (take 3 resp)\<rparr>)
         }
       }
     }
   }"

definition zero_need :: system_need where
  "zero_need = \<lparr>system_id = 0, sv_mask_ephe = 0, sv_mask_alm = 0\<rparr>"

text \<open>The parts of the need that are enabled; a part that is not is zero.\<close>

definition filter_flags :: "('w, 'y) gnss_api_scheme \<Rightarrow> (bool \<times> string) list \<Rightarrow> 32 word \<Rightarrow> 32 word" where
  "filter_flags T parts need = foldl (\<lambda>flags (enabled, n). if enabled then flags OR (need AND gnss_flag T n) else flags) 0 parts"

definition injected_flags :: "('w, 'z) gnss_scheme \<Rightarrow> (bool \<times> string) list" where
  "injected_flags s =
     [(agnss_inject_utc s, ''NRF_MODEM_GNSS_AGNSS_GPS_UTC_REQUEST''),
      (agnss_inject_klob s, ''NRF_MODEM_GNSS_AGNSS_KLOBUCHAR_REQUEST''),
      (agnss_inject_neq s, ''NRF_MODEM_GNSS_AGNSS_NEQUICK_REQUEST''),
      (agnss_inject_time s, ''NRF_MODEM_GNSS_AGNSS_GPS_SYS_TIME_AND_SV_TOW_REQUEST''),
      (agnss_inject_pos s, ''NRF_MODEM_GNSS_AGNSS_POSITION_REQUEST''),
      (agnss_inject_int s, ''NRF_MODEM_GNSS_AGNSS_INTEGRITY_REQUEST''),
      (agnss_inject_ggto s, ''NRF_MODEM_GNSS_AGNSS_GGTO_REQUEST'')]"

definition get_filtered_agnss_request :: "('w, 'y) gnss_api_scheme \<Rightarrow> ('w, 'z, agnss_frame) gnss_prog" where
  "get_filtered_agnss_request T = gets (\<lambda>s.
     \<lparr>data_flags = filter_flags T (injected_flags s) (data_flags (agnss_need s)),
      system_count = system_count (agnss_need s),
      systems = map (\<lambda>src. \<lparr>system_id = system_id src, sv_mask_ephe = (if agnss_inject_ephe s then sv_mask_ephe src else 0),
          sv_mask_alm = (if agnss_inject_alm s then sv_mask_alm src else 0)\<rparr>) (needed_systems (agnss_need s)) @
        replicate (length (systems (agnss_need s)) - unat (system_count (agnss_need s))) zero_need\<rparr>)"

definition get_agnss_data :: "('w, 'y) gnss_api_scheme \<Rightarrow> ('w, 'z, unit) gnss_prog" where
  "get_agnss_data T = do {
     request \<leftarrow> get_filtered_agnss_request T;
     mosh_print T ''GNSS: Getting A-GNSS data from %s...'' [PStr ''nRF Cloud''];
     mosh_print T ''GNSS: A-GNSS request: flags: %s'' [PStr (agnss_data_flags_str_get T (data_flags request))];
     print_lines T (map (need_line T ''GNSS: A-GNSS request: %s sv_mask_ephe: 0x%llx, sv_mask_alm: 0x%llx'') (needed_systems request));
     enabled \<leftarrow> gets gnss_filtered_ephemerides_enabled;
     let on = (filtered_runtime T \<and> enabled);
     elevation \<leftarrow> gets gnss_elevation;
     doif on (mosh_print T ''GNSS: Requesting filtered ephemeris; elevation = %u'' [PInt (uint elevation)]);
     cell \<leftarrow> serving_cell_info_get T;
     (case cell of Inl err \<Rightarrow> mosh_warn T ''GNSS: Could not get cell info, error: %d'' [PInt err] | Inr _ \<Rightarrow> return ());
     (err, buf) \<leftarrow> call (coap_agnss_data_get T \<lparr>agnss_req = request, mask_angle = (if on then elevation else 0), coap_filtered = on,
       net_info = (case cell of Inl _ \<Rightarrow> None | Inr c \<Rightarrow> Some c)\<rparr>);
     if err \<noteq> 0 then mosh_error T ''GNSS: Failed to get A-GNSS data, error: %d'' [PInt err]
     else do {
       mosh_print T ''GNSS: Processing A-GNSS data'' [];
       err \<leftarrow> call (agnss_process T buf);
       if err \<noteq> 0 then mosh_error T ''GNSS: Failed to process A-GNSS data, error: %d'' [PInt err]
       else mosh_print T ''GNSS: A-GNSS data injected to the modem'' []
     }
   }"

subsection \<open>Work items of the search\<close>

definition start_gnss_work_fn :: "('w, 'y) gnss_api_scheme \<Rightarrow> ('w, 'z, unit) gnss_prog" where
  "start_gnss_work_fn T = do {
     err \<leftarrow> call (modem_gnss_start T);
     (if err \<noteq> 0 then mosh_error T ''GNSS: Failed to start GNSS, error: %d (%s)'' [PInt err, PStr (gnss_err_to_str T err)]
      else event_print T ''GNSS: Search started'');
     interval \<leftarrow> gets periodic_fix_interval;
     schedule_start (unat interval);
     retry \<leftarrow> gets periodic_fix_retry;
     doif (retry > 0 \<and> retry < interval) (schedule_timeout (unat retry))
   }"

definition modem_stop :: "('w, 'y) gnss_api_scheme \<Rightarrow> ('w, 'z, int) gnss_prog" where
  "modem_stop T = do {
     err \<leftarrow> call (modem_gnss_stop T);
     doif (err \<noteq> 0) (mosh_error T ''GNSS: Failed to stop GNSS, error: %d (%s)'' [PInt err, PStr (gnss_err_to_str T err)]);
     return err
   }"

definition stop_gnss_work_fn :: "('w, 'y) gnss_api_scheme \<Rightarrow> ('w, 'z, unit) gnss_prog" where
  "stop_gnss_work_fn T = do { err \<leftarrow> modem_stop T; return () }"

definition handle_timeout_work_fn :: "('w, 'y) gnss_api_scheme \<Rightarrow> ('w, 'z, unit) gnss_prog" where
  "handle_timeout_work_fn T = do {
     event_print T ''GNSS: Search timeout'';
     err \<leftarrow> modem_stop T;
     return ()
   }"

subsection \<open>P-GPS\<close>

definition get_pgps_data_work_fn :: "('w, 'y) gnss_api_scheme \<Rightarrow> ('w, 'z, unit) gnss_prog" where
  "get_pgps_data_work_fn T = do {
     mosh_print T ''GNSS: Getting P-GPS predictions from nRF Cloud...'' [];
     req \<leftarrow> gets pgps_request;
     (err, location) \<leftarrow> call (coap_pgps_url_get T req);
     if err \<noteq> 0 then do {
       mosh_error T ''GNSS: Failed to get P-GPS data, error: %d'' [PInt err];
       act (pgps_request_reset T)
     } else do {
       mosh_print T ''GNSS: Processing P-GPS response'' [];
       err \<leftarrow> call (pgps_update T location);
       if err \<noteq> 0 then do {
         mosh_error T ''GNSS: Failed to process P-GPS response, error: %d'' [PInt err];
         act (pgps_request_reset T)
       } else do {
         mosh_print T ''GNSS: P-GPS response processed'' [];
         err \<leftarrow> call (pgps_notify_prediction T);
         if err \<noteq> 0 then mosh_error T ''GNSS: Failed to request current prediction, error: %d'' [PInt err]
         else mosh_print T ''GNSS: P-GPS predictions requested'' []
       }
     }
   }"

definition inject_pgps_data_work_fn :: "('w, 'y) gnss_api_scheme \<Rightarrow> ('w, 'z, unit) gnss_prog" where
  "inject_pgps_data_work_fn T = do {
     mosh_print T ''GNSS: Injecting ephemerides to modem...'' [];
     p \<leftarrow> gets prediction;
     need \<leftarrow> gets agnss_need;
     err \<leftarrow> call (pgps_inject T p need);
     doif (err \<noteq> 0) (mosh_error T ''GNSS: Failed to inject ephemerides to modem'' []);
     err \<leftarrow> call (pgps_preemptive_updates T);
     doif (err \<noteq> 0) (mosh_error T ''GNSS: Failed to request preduction updates'' [])
   }"

definition notify_pgps_prediction_work_fn :: "('w, 'y) gnss_api_scheme \<Rightarrow> ('w, 'z, unit) gnss_prog" where
  "notify_pgps_prediction_work_fn T = do {
     err \<leftarrow> call (pgps_notify_prediction T);
     doif (err \<noteq> 0) (mosh_error T ''GNSS: Failed to notify P-GPS predictions'' [])
   }"

definition pgps_available :: "nat option \<Rightarrow> ('w, 'z, unit) gnss_prog" where
  "pgps_available p = doif (p \<noteq> None) (modify (\<lambda>s. s\<lparr>prediction := p, inject_pgps_data_work := True\<rparr>))"

definition pgps_event_handler :: "pgps_event \<Rightarrow> ('w, 'z, unit) gnss_prog" where
  "pgps_event_handler event = (case event of
     PGPS_EVT_READY p \<Rightarrow> pgps_available p
   | PGPS_EVT_AVAILABLE p \<Rightarrow> pgps_available p
   | PGPS_EVT_REQUEST r \<Rightarrow> modify (\<lambda>s. s\<lparr>pgps_request := r, get_pgps_data_work := True\<rparr>)
   | PGPS_EVT_OTHER \<Rightarrow> return ())"

subsection \<open>The API\<close>

text \<open>A setting of the modem, with the message of its failure.\<close>

definition modem_set :: "('w, 'y) gnss_api_scheme \<Rightarrow> string \<Rightarrow> int \<Rightarrow> string \<Rightarrow> ('w, 'z, int) gnss_prog" where
  "modem_set T what v msg = do {
     err \<leftarrow> call (modem_gnss_set T what v);
     doif (err \<noteq> 0) (mosh_error T msg [PInt err, PStr (gnss_err_to_str T err)]);
     return err
   }"

definition gnss_api_init :: "('w, 'y) gnss_api_scheme \<Rightarrow> ('w, 'z, unit) gnss_prog" where
  "gnss_api_init T = do {
     act (event_handler_set T);
     initialized \<leftarrow> gets gnss_api_initialized;
     if initialized then return ()
     else do {
       err \<leftarrow> call (modem_gnss_set T ''qzss_nmea_mode'' (gnss_num T ''NRF_MODEM_GNSS_QZSS_NMEA_MODE_CUSTOM''));
       doif (err \<noteq> 0) (mosh_warn T ''GNSS: Failed to enable custom QZSS NMEA mode, error: %d (%s)''
         [PInt err, PStr (gnss_err_to_str T err)]);
       modify (\<lambda>s. s\<lparr>gnss_api_initialized := True, stop_work := False, start_work := None, timeout_work := None,
         get_agnss_data_work := False\<rparr>)
     }
   }"

definition mask_of :: "('w, 'y) gnss_api_scheme \<Rightarrow> string list \<Rightarrow> 32 word" where
  "mask_of T names = foldl (\<lambda>m n. m OR word_of_int (gnss_num T n)) 0 names"

definition gnss_enable_all_nmeas :: "('w, 'y) gnss_api_scheme \<Rightarrow> ('w, 'z, int) gnss_prog" where
  "gnss_enable_all_nmeas T = call (modem_gnss_set T ''nmea_mask'' (uint (mask_of T [''NRF_MODEM_GNSS_NMEA_GGA_MASK'',
     ''NRF_MODEM_GNSS_NMEA_GLL_MASK'', ''NRF_MODEM_GNSS_NMEA_GSA_MASK'', ''NRF_MODEM_GNSS_NMEA_GSV_MASK'', ''NRF_MODEM_GNSS_NMEA_RMC_MASK''])))"

definition gnss_start :: "('w, 'y) gnss_api_scheme \<Rightarrow> ('w, 'z, int) gnss_prog" where
  "gnss_start T = do {
     gnss_api_init T;
     set \<leftarrow> gets nmea_mask_set;
     doif (\<not> set) (do {
       err \<leftarrow> gnss_enable_all_nmeas T;
       doif (err = 0) (modify (\<lambda>s. s\<lparr>nmea_mask_set := True\<rparr>))
     });
     mode \<leftarrow> gets operation_mode;
     if mode = GNSS_OP_MODE_PERIODIC_FIX then do {
       schedule_start 0;
       return 0
     } else do {
       err \<leftarrow> call (modem_gnss_start T);
       doif (err \<noteq> 0) (mosh_error T ''GNSS: Failed to start GNSS, error: %d (%s)'' [PInt err, PStr (gnss_err_to_str T err)]);
       return err
     }
   }"

definition gnss_stop :: "('w, 'y) gnss_api_scheme \<Rightarrow> ('w, 'z, int) gnss_prog" where
  "gnss_stop T = do {
     gnss_api_init T;
     mode \<leftarrow> gets operation_mode;
     if mode = GNSS_OP_MODE_PERIODIC_FIX then do {
       modify (\<lambda>s. s\<lparr>timeout_work := None\<rparr>);
       modify (\<lambda>s. s\<lparr>start_work := None\<rparr>);
       err \<leftarrow> call (modem_gnss_stop T);
       return 0
     } else modem_stop T
   }"

definition nv_data_delete :: "('w, 'y) gnss_api_scheme \<Rightarrow> 32 word \<Rightarrow> ('w, 'z, int) gnss_prog" where
  "nv_data_delete T m = modem_set T ''nv_data_delete'' (uint m) ''GNSS: Failed to delete NV data, error: %d (%s)''"

definition gnss_delete_data :: "('w, 'y) gnss_api_scheme \<Rightarrow> int \<Rightarrow> ('w, 'z, int) gnss_prog" where
  "gnss_delete_data T data = do {
     gnss_api_init T;
     if data = GNSS_DATA_DELETE_EPHEMERIDES then nv_data_delete T (mask_of T [''NRF_MODEM_GNSS_DELETE_EPHEMERIDES''])
     else if data = GNSS_DATA_DELETE_EKF then nv_data_delete T (mask_of T [''NRF_MODEM_GNSS_DELETE_EKF''])
     else if data = GNSS_DATA_DELETE_ALL then do {
       err \<leftarrow> call (modem_gnss_set T ''nv_data_delete'' (uint (mask_of T [''NRF_MODEM_GNSS_DELETE_EKF''])));
       nv_data_delete T (mask_of T [''NRF_MODEM_GNSS_DELETE_EPHEMERIDES'', ''NRF_MODEM_GNSS_DELETE_ALMANACS'',
         ''NRF_MODEM_GNSS_DELETE_IONO_CORRECTION_DATA'', ''NRF_MODEM_GNSS_DELETE_LAST_GOOD_FIX'', ''NRF_MODEM_GNSS_DELETE_GPS_TOW'',
         ''NRF_MODEM_GNSS_DELETE_GPS_WEEK'', ''NRF_MODEM_GNSS_DELETE_UTC_DATA'', ''NRF_MODEM_GNSS_DELETE_GPS_TOW_PRECISION''])
     } else if data = GNSS_DATA_DELETE_TCXO then nv_data_delete T (mask_of T [''NRF_MODEM_GNSS_DELETE_TCXO_OFFSET''])
     else do {
       mosh_error T ''GNSS: Invalid erase data value'' [];
       return (- 1)
     }
   }"

definition gnss_delete_data_custom :: "('w, 'y) gnss_api_scheme \<Rightarrow> 32 word \<Rightarrow> ('w, 'z, int) gnss_prog" where
  "gnss_delete_data_custom T m = nv_data_delete T m"

definition set_fix :: "('w, 'y) gnss_api_scheme \<Rightarrow> 16 word \<Rightarrow> 16 word \<Rightarrow> ('w, 'z, int) gnss_prog" where
  "set_fix T interval retry = do {
     err \<leftarrow> modem_set T ''fix_interval'' (uint interval) ''GNSS: Failed to set fix interval, error: %d (%s)'';
     if err \<noteq> 0 then return err
     else modem_set T ''fix_retry'' (uint retry) ''GNSS: Failed to set fix retry, error: %d (%s)''
   }"

definition gnss_set_continuous_mode :: "('w, 'y) gnss_api_scheme \<Rightarrow> ('w, 'z, int) gnss_prog" where
  "gnss_set_continuous_mode T = do {
     gnss_api_init T;
     modify (\<lambda>s. s\<lparr>operation_mode := GNSS_OP_MODE_CONTINUOUS\<rparr>);
     set_fix T 1 0
   }"

definition gnss_set_single_fix_mode :: "('w, 'y) gnss_api_scheme \<Rightarrow> 16 word \<Rightarrow> ('w, 'z, int) gnss_prog" where
  "gnss_set_single_fix_mode T fix_retry = do {
     gnss_api_init T;
     modify (\<lambda>s. s\<lparr>operation_mode := GNSS_OP_MODE_SINGLE_FIX\<rparr>);
     set_fix T 0 fix_retry
   }"

definition gnss_set_periodic_fix_mode :: "('w, 'y) gnss_api_scheme \<Rightarrow> 32 word \<Rightarrow> 16 word \<Rightarrow> ('w, 'z, int) gnss_prog" where
  "gnss_set_periodic_fix_mode T fix_interval fix_retry = do {
     gnss_api_init T;
     modify (\<lambda>s. s\<lparr>operation_mode := GNSS_OP_MODE_PERIODIC_FIX, periodic_fix_interval := fix_interval,
       periodic_fix_retry := ucast fix_retry\<rparr>);
     set_fix T 1 0
   }"

definition gnss_set_periodic_fix_mode_gnss :: "('w, 'y) gnss_api_scheme \<Rightarrow> 16 word \<Rightarrow> 16 word \<Rightarrow> ('w, 'z, int) gnss_prog" where
  "gnss_set_periodic_fix_mode_gnss T fix_interval fix_retry = do {
     gnss_api_init T;
     modify (\<lambda>s. s\<lparr>operation_mode := GNSS_OP_MODE_PERIODIC_FIX_GNSS\<rparr>);
     set_fix T fix_interval fix_retry
   }"

definition gnss_set_system_mask :: "('w, 'y) gnss_api_scheme \<Rightarrow> 8 word \<Rightarrow> ('w, 'z, int) gnss_prog" where
  "gnss_set_system_mask T system_mask =
     modem_set T ''signal_mask'' (uint system_mask) ''GNSS: Failed to set system mask, error: %d (%s)''"

definition gnss_set_duty_cycling_policy :: "('w, 'y) gnss_api_scheme \<Rightarrow> int \<Rightarrow> ('w, 'z, int) gnss_prog" where
  "gnss_set_duty_cycling_policy T policy = do {
     gnss_api_init T;
     let set = (\<lambda>mode. modem_set T ''power_mode'' (gnss_num T mode) ''GNSS: Failed to set duty cycling policy, error: %d (%s)'');
     if policy = GNSS_DUTY_CYCLING_DISABLED then set ''NRF_MODEM_GNSS_PSM_DISABLED''
     else if policy = GNSS_DUTY_CYCLING_PERFORMANCE then set ''NRF_MODEM_GNSS_PSM_DUTY_CYCLING_PERFORMANCE''
     else if policy = GNSS_DUTY_CYCLING_POWER then set ''NRF_MODEM_GNSS_PSM_DUTY_CYCLING_POWER''
     else do {
       mosh_error T ''GNSS: Invalid duty cycling policy value %d'' [PInt policy];
       return (- 1)
     }
   }"

definition gnss_set_elevation_threshold :: "('w, 'y) gnss_api_scheme \<Rightarrow> 8 word \<Rightarrow> ('w, 'z, int) gnss_prog" where
  "gnss_set_elevation_threshold T elevation = do {
     gnss_api_init T;
     err \<leftarrow> modem_set T ''elevation_threshold'' (uint elevation) ''GNSS: Failed to set elevation threshold, error: %d (%s)'';
     doif (err = 0) (modify (\<lambda>s. s\<lparr>gnss_elevation := elevation\<rparr>));
     return err
   }"

definition gnss_set_agnss_filtered_ephemerides :: "('w, 'y) gnss_api_scheme \<Rightarrow> bool \<Rightarrow> ('w, 'z, int) gnss_prog" where
  "gnss_set_agnss_filtered_ephemerides T on =
     (if filtered_runtime T then do {
        modify (\<lambda>s. s\<lparr>gnss_filtered_ephemerides_enabled := on\<rparr>);
        return 0
      } else return (- EOPNOTSUPP))"

definition gnss_set_use_case :: "('w, 'y) gnss_api_scheme \<Rightarrow> bool \<Rightarrow> bool \<Rightarrow> ('w, 'z, int) gnss_prog" where
  "gnss_set_use_case T low_accuracy_enabled scheduled_downloads_disabled = do {
     gnss_api_init T;
     modem_set T ''use_case'' (uint (mask_of T ([''NRF_MODEM_GNSS_USE_CASE_MULTIPLE_HOT_START''] @
         (if low_accuracy_enabled then [''NRF_MODEM_GNSS_USE_CASE_LOW_ACCURACY''] else []) @
         (if scheduled_downloads_disabled then [''NRF_MODEM_GNSS_USE_CASE_SCHED_DOWNLOAD_DISABLE''] else []))) mod 256)
       ''GNSS: Failed to set use case, error: %d (%s)''
   }"

definition gnss_set_nmea_mask :: "('w, 'y) gnss_api_scheme \<Rightarrow> 16 word \<Rightarrow> ('w, 'z, int) gnss_prog" where
  "gnss_set_nmea_mask T nmea_mask = do {
     gnss_api_init T;
     err \<leftarrow> modem_set T ''nmea_mask'' (uint nmea_mask) ''GNSS: Failed to set NMEA mask, error: %d (%s)'';
     doif (err = 0) (modify (\<lambda>s. s\<lparr>nmea_mask_set := True\<rparr>));
     return err
   }"

definition gnss_set_nmea_talker_mode :: "('w, 'y) gnss_api_scheme \<Rightarrow> int \<Rightarrow> ('w, 'z, int) gnss_prog" where
  "gnss_set_nmea_talker_mode T talker_mode = do {
     gnss_api_init T;
     let set = (\<lambda>mode. modem_set T ''nmea_talker_mode'' (gnss_num T mode) ''GNSS: Failed to set NMEA talker mode, error: %d (%s)'');
     if talker_mode = GNSS_NMEA_TALKER_MODE_STANDARD then set ''NRF_MODEM_GNSS_NMEA_TALKER_MODE_STANDARD''
     else if talker_mode = GNSS_NMEA_TALKER_MODE_GP_ONLY then set ''NRF_MODEM_GNSS_NMEA_TALKER_MODE_GP_ONLY''
     else do {
       mosh_error T ''GNSS: Invalid NMEA talker mode value %d'' [PInt talker_mode];
       return (- EINVAL)
     }
   }"

definition gnss_set_nmea_qzss_mode :: "('w, 'y) gnss_api_scheme \<Rightarrow> int \<Rightarrow> ('w, 'z, int) gnss_prog" where
  "gnss_set_nmea_qzss_mode T nmea_mode = do {
     gnss_api_init T;
     let set = (\<lambda>mode. modem_set T ''qzss_nmea_mode'' (gnss_num T mode) ''GNSS: Failed to set QZSS NMEA mode, error: %d (%s)'');
     if nmea_mode = GNSS_NMEA_QZSS_MODE_STANDARD then set ''NRF_MODEM_GNSS_QZSS_NMEA_MODE_STANDARD''
     else if nmea_mode = GNSS_NMEA_QZSS_MODE_CUSTOM then set ''NRF_MODEM_GNSS_QZSS_NMEA_MODE_CUSTOM''
     else do {
       mosh_error T ''GNSS: Invalid QZSS NMEA mode value %d'' [PInt nmea_mode];
       return (- EINVAL)
     }
   }"

definition gnss_set_priority_time_windows :: "('w, 'y) gnss_api_scheme \<Rightarrow> bool \<Rightarrow> ('w, 'z, int) gnss_prog" where
  "gnss_set_priority_time_windows T on = do {
     gnss_api_init T;
     modem_set T ''prio_mode'' (if on then 1 else 0) ''GNSS: Failed to set priority time windows, error: %d (%s)''
   }"

definition gnss_set_dynamics_mode :: "('w, 'y) gnss_api_scheme \<Rightarrow> int \<Rightarrow> ('w, 'z, int) gnss_prog" where
  "gnss_set_dynamics_mode T mode = do {
     gnss_api_init T;
     let set = (\<lambda>m. modem_set T ''dyn_mode'' (gnss_num T m) ''GNSS: Failed to change dynamics mode, error: %d (%s)'');
     if mode = GNSS_DYNAMICS_MODE_GENERAL then set ''NRF_MODEM_GNSS_DYNAMICS_GENERAL_PURPOSE''
     else if mode = GNSS_DYNAMICS_MODE_STATIONARY then set ''NRF_MODEM_GNSS_DYNAMICS_STATIONARY''
     else if mode = GNSS_DYNAMICS_MODE_PEDESTRIAN then set ''NRF_MODEM_GNSS_DYNAMICS_PEDESTRIAN''
     else if mode = GNSS_DYNAMICS_MODE_AUTOMOTIVE then set ''NRF_MODEM_GNSS_DYNAMICS_AUTOMOTIVE''
     else do {
       mosh_error T ''GNSS: Invalid dynamics mode value %d'' [PInt mode];
       return (- EINVAL)
     }
   }"

definition gnss_set_qzss_mask :: "('w, 'y) gnss_api_scheme \<Rightarrow> 16 word \<Rightarrow> ('w, 'z, int) gnss_prog" where
  "gnss_set_qzss_mask T m = do {
     gnss_api_init T;
     modem_set T ''qzss_prn_mask'' (uint m) ''GNSS: Failed to set QZSS PRN mask, error: %d (%s)''
   }"

definition gnss_set_1pps_mode :: "('w, 'y) gnss_api_scheme \<Rightarrow> gnss_1pps_mode \<Rightarrow> ('w, 'z, int) gnss_prog" where
  "gnss_set_1pps_mode T config = do {
     gnss_api_init T;
     err \<leftarrow> (if pps_enable config then call (modem_1pps_enable T config) else call (modem_gnss_set T ''1pps'' 0));
     doif (err \<noteq> 0) (mosh_error T ''GNSS: Failed to set 1PPS mode, error: %d (%s)'' [PInt err, PStr (gnss_err_to_str T err)]);
     return err
   }"

definition gnss_set_timing_source :: "('w, 'y) gnss_api_scheme \<Rightarrow> int \<Rightarrow> ('w, 'z, int) gnss_prog" where
  "gnss_set_timing_source T source = do {
     gnss_api_init T;
     let set = (\<lambda>m. modem_set T ''timing_source'' (gnss_num T m) ''GNSS: Failed to set timing source, error: %d (%s)'');
     if source = GNSS_TIMING_SOURCE_RTC then set ''NRF_MODEM_GNSS_TIMING_SOURCE_RTC''
     else if source = GNSS_TIMING_SOURCE_TCXO then set ''NRF_MODEM_GNSS_TIMING_SOURCE_TCXO''
     else do {
       mosh_error T ''GNSS: Invalid timing source'' [];
       return (- EINVAL)
     }
   }"

definition gnss_set_agnss_data_enabled :: "bool \<Rightarrow> bool \<Rightarrow> bool \<Rightarrow> bool \<Rightarrow> bool \<Rightarrow> bool \<Rightarrow> bool \<Rightarrow> bool \<Rightarrow> bool \<Rightarrow> ('w, 'z, int) gnss_prog" where
  "gnss_set_agnss_data_enabled ephe alm utc klob neq time pos integrity ggto = do {
     modify (\<lambda>s. s\<lparr>agnss_inject_ephe := ephe, agnss_inject_alm := alm, agnss_inject_utc := utc, agnss_inject_klob := klob,
       agnss_inject_neq := neq, agnss_inject_time := time, agnss_inject_pos := pos, agnss_inject_int := integrity,
       agnss_inject_ggto := ggto\<rparr>);
     return 0
   }"

definition gnss_set_agnss_automatic :: "bool \<Rightarrow> ('w, 'z, int) gnss_prog" where
  "gnss_set_agnss_automatic v = do { modify (\<lambda>s. s\<lparr>agnss_automatic := v\<rparr>); return 0 }"

definition all_agnss_need :: "('w, 'y) gnss_api_scheme \<Rightarrow> agnss_frame \<Rightarrow> agnss_frame" where
  "all_agnss_need T need =
     \<lparr>data_flags = gnss_flag T ''NRF_MODEM_GNSS_AGNSS_GPS_UTC_REQUEST'' OR gnss_flag T ''NRF_MODEM_GNSS_AGNSS_KLOBUCHAR_REQUEST'' OR
        gnss_flag T ''NRF_MODEM_GNSS_AGNSS_NEQUICK_REQUEST'' OR gnss_flag T ''NRF_MODEM_GNSS_AGNSS_GPS_SYS_TIME_AND_SV_TOW_REQUEST'' OR
        gnss_flag T ''NRF_MODEM_GNSS_AGNSS_POSITION_REQUEST'' OR gnss_flag T ''NRF_MODEM_GNSS_AGNSS_INTEGRITY_REQUEST'',
      system_count = 2,
      systems = (systems need)
        [0 := \<lparr>system_id = gnss_system T ''NRF_MODEM_GNSS_SYSTEM_GPS'', sv_mask_ephe = 0xffffffff, sv_mask_alm = 0xffffffff\<rparr>,
         1 := \<lparr>system_id = gnss_system T ''NRF_MODEM_GNSS_SYSTEM_QZSS'', sv_mask_ephe = 0x3ff, sv_mask_alm = 0x3ff\<rparr>]\<rparr>"

definition gnss_inject_agnss_data :: "('w, 'y) gnss_api_scheme \<Rightarrow> ('w, 'z, int) gnss_prog" where
  "gnss_inject_agnss_data T = do {
     gnss_api_init T;
     modify (\<lambda>s. s\<lparr>agnss_need := all_agnss_need T (agnss_need s), get_agnss_data_work := True\<rparr>);
     return 0
   }"

definition gnss_enable_pgps :: "('w, 'y) gnss_api_scheme \<Rightarrow> ('w, 'z, int) gnss_prog" where
  "gnss_enable_pgps T =
     (if config_pgps T then do {
        on \<leftarrow> gets pgps_enabled;
        if on then do {
          mosh_error T ''GNSS: P-GPS already enabled'' [];
          return (- EPERM)
        } else do {
          gnss_api_init T;
          modify (\<lambda>s. s\<lparr>get_pgps_data_work := False, inject_pgps_data_work := False, notify_pgps_prediction_work := False\<rparr>);
          err \<leftarrow> call (pgps_init T);
          if err = - EACCES then do {
            mosh_error T ''GNSS: Not connected to nRF Cloud'' [];
            return err
          } else if err \<noteq> 0 then do {
            mosh_error T ''GNSS: Failed to initialize P-GPS, error: %d'' [PInt err];
            return err
          } else do {
            modify (\<lambda>s. s\<lparr>pgps_enabled := True\<rparr>);
            return 0
          }
        }
      } else do {
        mosh_error T ''GNSS: Enable CONFIG_NRF_CLOUD_PGPS for P-GPS support'' [];
        return (- EOPNOTSUPP)
      })"

definition get_expiry_string :: "nat \<Rightarrow> 16 word \<Rightarrow> string" where
  "get_expiry_string string_len expiry =
     (if uint expiry = UINT16_MAX then take string_len ''not used''
      else if expiry = 0 then take string_len ''expired''
      else take (string_len - 1) (show_nat (unat expiry)))"

definition gnss_get_agnss_expiry :: "('w, 'y) gnss_api_scheme \<Rightarrow> ('w, 'z, int) gnss_prog" where
  "gnss_get_agnss_expiry T = do {
     (err, e) \<leftarrow> call (agnss_expiry_get T);
     if err \<noteq> 0 then do {
       mosh_error T ''GNSS: Failed to query A-GNSS data expiry, error: %d (%s)'' [PInt err, PStr (gnss_err_to_str T err)];
       return err
     } else do {
       let text = (\<lambda>x. PStr (get_expiry_string 16 x));
       print_lines T
         [(''Data flags: 0x%x'', [PInt (uint (exp_data_flags e))]),
          (''Time valid: %s'', [truth (exp_data_flags e AND gnss_flag T ''NRF_MODEM_GNSS_AGNSS_GPS_SYS_TIME_AND_SV_TOW_REQUEST'' = 0)]),
          (''UTC:        %s'', [text (utc_expiry e)]),
          (''Klobuchar:  %s'', [text (klob_expiry e)]),
          (''NeQuick:    %s'', [text (neq_expiry e)]),
          (''Integrity:  %s'', [text (integrity_expiry e)]),
          (''Position:   %s'', [text (position_expiry e)]),
          (''GGTO:       %s'', [text (ggto_expiry e)])];
       print_lines T (map (\<lambda>v. (''ID %3u (%s):    ephe: %-10s alm: %-10s'',
         [PInt (uint (exp_sv_id v)), PStr (gnss_system_str_get T (exp_system_id v)), text (ephe_expiry v), text (alm_expiry v)])) (exp_sv e));
       return 0
     }
   }"

text \<open>The levels are unsigned, so that none is below 0.\<close>

definition gnss_set_pvt_output_level :: "8 word \<Rightarrow> ('w, 'z, int) gnss_prog" where
  "gnss_set_pvt_output_level level =
     (if uint level < 0 \<or> level > 2 then return (- EINVAL)
      else do { modify (\<lambda>s. s\<lparr>pvt_output_level := level\<rparr>); return 0 })"

definition gnss_set_nmea_output_level :: "8 word \<Rightarrow> ('w, 'z, int) gnss_prog" where
  "gnss_set_nmea_output_level level =
     (if uint level < 0 \<or> level > 1 then return (- EINVAL)
      else do { modify (\<lambda>s. s\<lparr>nmea_output_level := level\<rparr>); return 0 })"

definition gnss_set_event_output_level :: "8 word \<Rightarrow> ('w, 'z, int) gnss_prog" where
  "gnss_set_event_output_level level =
     (if uint level < 0 \<or> level > 1 then return (- EINVAL)
      else do { modify (\<lambda>s. s\<lparr>event_output_level := level\<rparr>); return 0 })"

subsection \<open>What is asked for\<close>

text \<open>A bit that is asked for is needed, and belongs to an enabled part.\<close>

lemma bit_filter_flags:
  "bit (filter_flags T parts need) i \<longleftrightarrow> bit need i \<and> (\<exists>p \<in> set parts. fst p \<and> bit (gnss_flag T (snd p)) i)"
proof -
  have "bit (foldl (\<lambda>flags (enabled, n). if enabled then flags OR (need AND gnss_flag T n) else flags) m parts) i \<longleftrightarrow>
      bit m i \<or> bit need i \<and> (\<exists>p \<in> set parts. fst p \<and> bit (gnss_flag T (snd p)) i)" for m
  proof (induction parts arbitrary: m)
    case (Cons p parts)
    obtain e n where "p = (e, n)" by (cases p)
    then show ?case
      using Cons.IH by (cases e) (simp_all add: bit_or_iff bit_and_iff, argo)
  qed simp
  then show ?thesis by (simp add: filter_flags_def)
qed

lemma take_filtered: "take k (map f (take k ys) @ replicate (length ys - k) z) = map f (take k ys)"
  by (cases "k \<le> length ys") simp_all

end
