(* ===== verification/Mosh_Gnss_Shell.thy ===== *)
theory Mosh_Gnss_Shell
  imports Mosh_Gnss
begin

section \<open>The \<open>gnss\<close> command (\<open>gnss_shell.c\<close>)\<close>

text \<open>
  The subcommands, each reading its arguments and calling the API. The shell passes as many words as
  the registration of a command asks for; \<open>argv ! 0\<close> is the subcommand. Zephyr's reader of
  hexadecimal numbers is a parameter: the number and its error. The table of the commands is that of
  their registration, without the help texts; at the end, what the words of \<open>agnss filter\<close> switch, and what
  dates, times and output levels become.
\<close>

record 'w gnss_shell_api = "'w gnss_api" +
  strtoul_hex :: "string \<Rightarrow> 32 word \<times> int"

definition outcome :: "('w, 'z, int) gnss_prog \<Rightarrow> ('w, 'z, int) gnss_prog" where
  "outcome p = do { err \<leftarrow> p; return (if err = 0 then 0 else - ENOEXEC) }"

subsection \<open>Commands without arguments\<close>

definition cmd_gnss_start :: "('w, 'y) gnss_api_scheme \<Rightarrow> ('w, 'z, int) gnss_prog" where
  "cmd_gnss_start T = outcome (gnss_start T)"

definition cmd_gnss_stop :: "('w, 'y) gnss_api_scheme \<Rightarrow> ('w, 'z, int) gnss_prog" where
  "cmd_gnss_stop T = outcome (gnss_stop T)"

definition cmd_gnss_delete_ephe :: "('w, 'y) gnss_api_scheme \<Rightarrow> ('w, 'z, int) gnss_prog" where
  "cmd_gnss_delete_ephe T = outcome (gnss_delete_data T GNSS_DATA_DELETE_EPHEMERIDES)"

definition cmd_gnss_delete_ekf :: "('w, 'y) gnss_api_scheme \<Rightarrow> ('w, 'z, int) gnss_prog" where
  "cmd_gnss_delete_ekf T = outcome (gnss_delete_data T GNSS_DATA_DELETE_EKF)"

definition cmd_gnss_delete_all :: "('w, 'y) gnss_api_scheme \<Rightarrow> ('w, 'z, int) gnss_prog" where
  "cmd_gnss_delete_all T = outcome (gnss_delete_data T GNSS_DATA_DELETE_ALL)"

definition cmd_gnss_delete_tcxo :: "('w, 'y) gnss_api_scheme \<Rightarrow> ('w, 'z, int) gnss_prog" where
  "cmd_gnss_delete_tcxo T = outcome (gnss_delete_data T GNSS_DATA_DELETE_TCXO)"

definition cmd_gnss_mode_cont :: "('w, 'y) gnss_api_scheme \<Rightarrow> ('w, 'z, int) gnss_prog" where
  "cmd_gnss_mode_cont T = outcome (gnss_set_continuous_mode T)"

definition cmd_gnss_dynamics_general :: "('w, 'y) gnss_api_scheme \<Rightarrow> ('w, 'z, int) gnss_prog" where
  "cmd_gnss_dynamics_general T = outcome (gnss_set_dynamics_mode T GNSS_DYNAMICS_MODE_GENERAL)"

definition cmd_gnss_dynamics_stationary :: "('w, 'y) gnss_api_scheme \<Rightarrow> ('w, 'z, int) gnss_prog" where
  "cmd_gnss_dynamics_stationary T = outcome (gnss_set_dynamics_mode T GNSS_DYNAMICS_MODE_STATIONARY)"

definition cmd_gnss_dynamics_pedestrian :: "('w, 'y) gnss_api_scheme \<Rightarrow> ('w, 'z, int) gnss_prog" where
  "cmd_gnss_dynamics_pedestrian T = outcome (gnss_set_dynamics_mode T GNSS_DYNAMICS_MODE_PEDESTRIAN)"

definition cmd_gnss_dynamics_automotive :: "('w, 'y) gnss_api_scheme \<Rightarrow> ('w, 'z, int) gnss_prog" where
  "cmd_gnss_dynamics_automotive T = outcome (gnss_set_dynamics_mode T GNSS_DYNAMICS_MODE_AUTOMOTIVE)"

definition cmd_gnss_config_nmea_talker_standard :: "('w, 'y) gnss_api_scheme \<Rightarrow> ('w, 'z, int) gnss_prog" where
  "cmd_gnss_config_nmea_talker_standard T = outcome (gnss_set_nmea_talker_mode T GNSS_NMEA_TALKER_MODE_STANDARD)"

definition cmd_gnss_config_nmea_talker_gp_only :: "('w, 'y) gnss_api_scheme \<Rightarrow> ('w, 'z, int) gnss_prog" where
  "cmd_gnss_config_nmea_talker_gp_only T = outcome (gnss_set_nmea_talker_mode T GNSS_NMEA_TALKER_MODE_GP_ONLY)"

definition cmd_gnss_config_nmea_qzss_standard :: "('w, 'y) gnss_api_scheme \<Rightarrow> ('w, 'z, int) gnss_prog" where
  "cmd_gnss_config_nmea_qzss_standard T = outcome (gnss_set_nmea_qzss_mode T GNSS_NMEA_QZSS_MODE_STANDARD)"

definition cmd_gnss_config_nmea_qzss_custom :: "('w, 'y) gnss_api_scheme \<Rightarrow> ('w, 'z, int) gnss_prog" where
  "cmd_gnss_config_nmea_qzss_custom T = outcome (gnss_set_nmea_qzss_mode T GNSS_NMEA_QZSS_MODE_CUSTOM)"

definition cmd_gnss_config_powersave_off :: "('w, 'y) gnss_api_scheme \<Rightarrow> ('w, 'z, int) gnss_prog" where
  "cmd_gnss_config_powersave_off T = outcome (gnss_set_duty_cycling_policy T GNSS_DUTY_CYCLING_DISABLED)"

definition cmd_gnss_config_powersave_perf :: "('w, 'y) gnss_api_scheme \<Rightarrow> ('w, 'z, int) gnss_prog" where
  "cmd_gnss_config_powersave_perf T = outcome (gnss_set_duty_cycling_policy T GNSS_DUTY_CYCLING_PERFORMANCE)"

definition cmd_gnss_config_powersave_power :: "('w, 'y) gnss_api_scheme \<Rightarrow> ('w, 'z, int) gnss_prog" where
  "cmd_gnss_config_powersave_power T = outcome (gnss_set_duty_cycling_policy T GNSS_DUTY_CYCLING_POWER)"

definition cmd_gnss_config_timing_rtc :: "('w, 'y) gnss_api_scheme \<Rightarrow> ('w, 'z, int) gnss_prog" where
  "cmd_gnss_config_timing_rtc T = outcome (gnss_set_timing_source T GNSS_TIMING_SOURCE_RTC)"

definition cmd_gnss_config_timing_tcxo :: "('w, 'y) gnss_api_scheme \<Rightarrow> ('w, 'z, int) gnss_prog" where
  "cmd_gnss_config_timing_tcxo T = outcome (gnss_set_timing_source T GNSS_TIMING_SOURCE_TCXO)"

definition cmd_gnss_priority_enable :: "('w, 'y) gnss_api_scheme \<Rightarrow> ('w, 'z, int) gnss_prog" where
  "cmd_gnss_priority_enable T = outcome (gnss_set_priority_time_windows T True)"

definition cmd_gnss_priority_disable :: "('w, 'y) gnss_api_scheme \<Rightarrow> ('w, 'z, int) gnss_prog" where
  "cmd_gnss_priority_disable T = outcome (gnss_set_priority_time_windows T False)"

definition cmd_gnss_agnss_automatic_enable :: "('w, 'z, int) gnss_prog" where
  "cmd_gnss_agnss_automatic_enable = outcome (gnss_set_agnss_automatic True)"

definition cmd_gnss_agnss_automatic_disable :: "('w, 'z, int) gnss_prog" where
  "cmd_gnss_agnss_automatic_disable = outcome (gnss_set_agnss_automatic False)"

definition cmd_gnss_agnss_filtered_enable :: "('w, 'y) gnss_api_scheme \<Rightarrow> ('w, 'z, int) gnss_prog" where
  "cmd_gnss_agnss_filtered_enable T = outcome (gnss_set_agnss_filtered_ephemerides T True)"

definition cmd_gnss_agnss_filtered_disable :: "('w, 'y) gnss_api_scheme \<Rightarrow> ('w, 'z, int) gnss_prog" where
  "cmd_gnss_agnss_filtered_disable T = outcome (gnss_set_agnss_filtered_ephemerides T False)"

definition cmd_gnss_agnss_expiry :: "('w, 'y) gnss_api_scheme \<Rightarrow> ('w, 'z, int) gnss_prog" where
  "cmd_gnss_agnss_expiry T = outcome (gnss_get_agnss_expiry T)"

definition cmd_gnss_pgps_enable :: "('w, 'y) gnss_api_scheme \<Rightarrow> ('w, 'z, int) gnss_prog" where
  "cmd_gnss_pgps_enable T = outcome (gnss_enable_pgps T)"

subsection \<open>Commands with arguments\<close>

definition cmd_gnss_delete_mask :: "('w, 'y) gnss_shell_api_scheme \<Rightarrow> string list \<Rightarrow> ('w, 'z, int) gnss_prog" where
  "cmd_gnss_delete_mask T argv = (case strtoul_hex T (argv ! 1) of (m, err) \<Rightarrow>
     if err \<noteq> 0 then do {
       mosh_error T ''mask: invalid mask value %s'' [PStr (argv ! 1)];
       return (- ENOEXEC)
     } else outcome (gnss_delete_data_custom T m))"

definition cmd_gnss_mode_single :: "('w, 'y) gnss_api_scheme \<Rightarrow> string list \<Rightarrow> ('w, 'z, int) gnss_prog" where
  "cmd_gnss_mode_single T argv = (let timeout = atoi (argv ! 1) in
     if timeout < 0 \<or> timeout > UINT16_MAX then do {
       mosh_error T ''single: invalid timeout value %d'' [PInt timeout];
       return (- EINVAL)
     } else outcome (gnss_set_single_fix_mode T (word_of_int timeout)))"

definition cmd_gnss_mode_periodic :: "('w, 'y) gnss_api_scheme \<Rightarrow> string list \<Rightarrow> ('w, 'z, int) gnss_prog" where
  "cmd_gnss_mode_periodic T argv = (let interval = atoi (argv ! 1); timeout = atoi (argv ! 2) in
     if interval \<le> 0 then do {
       mosh_error T ''periodic: invalid interval value %d, the value must be greater than 0'' [PInt interval];
       return (- EINVAL)
     } else if timeout < 0 \<or> timeout > UINT16_MAX then do {
       mosh_error T ''periodic: invalid timeout value %d, the value must be 0...65535'' [PInt timeout];
       return (- EINVAL)
     } else outcome (gnss_set_periodic_fix_mode T (word_of_int interval) (word_of_int timeout)))"

definition cmd_gnss_mode_periodic_gnss :: "('w, 'y) gnss_api_scheme \<Rightarrow> string list \<Rightarrow> ('w, 'z, int) gnss_prog" where
  "cmd_gnss_mode_periodic_gnss T argv = (let interval = atoi (argv ! 1); timeout = atoi (argv ! 2) in
     if interval < 10 \<or> interval > UINT16_MAX then do {
       mosh_error T ''periodic_gnss: invalid interval value %d, the value must be 10...65535'' [PInt interval];
       return (- EINVAL)
     } else if timeout < 0 \<or> timeout > UINT16_MAX then do {
       mosh_error T ''periodic_gnss: invalid timeout value %d, the value must be 0...65535'' [PInt timeout];
       return (- EINVAL)
     } else outcome (gnss_set_periodic_fix_mode_gnss T (word_of_int interval) (word_of_int timeout)))"

definition cmd_gnss_config_system :: "('w, 'y) gnss_api_scheme \<Rightarrow> string list \<Rightarrow> ('w, 'z, int) gnss_prog" where
  "cmd_gnss_config_system T argv =
     (let m = (0x1 :: 8 word);
          m = (if atoi (argv ! 1) = 1 then m OR 0x4 else m);
          m = (if length argv > 2 \<and> atoi (argv ! 2) = 1 then m OR 0x8 else m)
      in outcome (gnss_set_system_mask T m))"

definition cmd_gnss_config_elevation :: "('w, 'y) gnss_api_scheme \<Rightarrow> string list \<Rightarrow> ('w, 'z, int) gnss_prog" where
  "cmd_gnss_config_elevation T argv =
     (if length argv \<noteq> 2 then do {
        mosh_error T ''elevation: wrong parameter count'' [];
        mosh_print T ''elevation: <angle>'' [];
        mosh_print T (''angle:'' @ [CHR 0x09] @ ''Elevation threshold angle (in degrees, default 5). '' @
          ''Satellites with elevation angle less than the threshold are excluded.'') [];
        return (- EINVAL)
      } else (let elevation = atoi (argv ! 1) in
        if elevation < 0 \<or> elevation > 255 then do {
          mosh_error T ''elevation: invalid elevation value %d'' [PInt elevation];
          return (- EINVAL)
        } else outcome (gnss_set_elevation_threshold T (word_of_int elevation))))"

text \<open>The number in a variable of 8 bits.\<close>

definition atoi8 :: "string \<Rightarrow> 8 word" where
  "atoi8 t = word_of_int (atoi t)"

definition cmd_gnss_config_use_case :: "('w, 'y) gnss_api_scheme \<Rightarrow> string list \<Rightarrow> ('w, 'z, int) gnss_prog" where
  "cmd_gnss_config_use_case T argv = outcome (gnss_set_use_case T (atoi8 (argv ! 1) = 1) (atoi8 (argv ! 2) = 1))"

definition cmd_gnss_config_nmea_mask :: "('w, 'y) gnss_api_scheme \<Rightarrow> string list \<Rightarrow> ('w, 'z, int) gnss_prog" where
  "cmd_gnss_config_nmea_mask T argv =
     (let m = foldl (\<lambda>m i. if atoi8 (argv ! (i + 1)) = 1 then m OR push_bit i 1 else m) (0 :: 16 word) [0 ..< 5]
      in outcome (gnss_set_nmea_mask T m))"

definition cmd_gnss_config_qzss_mask :: "('w, 'y) gnss_shell_api_scheme \<Rightarrow> string list \<Rightarrow> ('w, 'z, int) gnss_prog" where
  "cmd_gnss_config_qzss_mask T argv = (case strtoul_hex T (argv ! 1) of (m, err) \<Rightarrow>
     if err \<noteq> 0 \<or> m > 0x3ff then do {
       mosh_error T ''mask: invalid mask value %s'' [PStr (argv ! 1)];
       return (- ENOEXEC)
     } else outcome (gnss_set_qzss_mask T (ucast m)))"

definition inject_line :: "('w, 'y) gnss_api_scheme \<Rightarrow> string \<Rightarrow> ('w, 'z, int) gnss_prog" where
  "inject_line T txt =
     (if length txt \<le> inject_max_length T then do {
        ok \<leftarrow> call (k_malloc_ok T);
        if \<not> ok then do {
          mosh_error T ''Cannot allocate memory for the assistance data'' [];
          return (- ENOEXEC)
        } else do {
          buf \<leftarrow> new_block;
          let bin = hex2bin T txt (inject_max_length T);
          ret \<leftarrow> (if bin \<noteq> [] then do {
              mosh_print T ''Injecting %d bytes'' [PInt (int (length bin))];
              err \<leftarrow> call (agnss_process T bin);
              return (if err \<noteq> 0 then - EINVAL else 0)
            } else do {
              mosh_error T ''Assistance data not in valid hexadecimal format'' [];
              return (- EINVAL)
            });
          k_free (Some buf);
          return ret
        }
      } else do {
        mosh_error T ''Assistance data length %d exceeds the maximum length of %d''
          [PInt (int (length txt)), PInt (int (inject_max_length T))];
        return (- EINVAL)
      })"

definition cmd_gnss_agnss_inject :: "('w, 'y) gnss_api_scheme \<Rightarrow> string list \<Rightarrow> ('w, 'z, int) gnss_prog" where
  "cmd_gnss_agnss_inject T argv =
     (if length argv = 1 then outcome (gnss_inject_agnss_data T)
      else if length argv = 2 then inject_line T (argv ! 1)
      else return 0)"

text \<open>The fields of the location that are set: the uncertainties, the confidence, the altitude and its uncertainty.\<close>

definition cmd_gnss_agnss_ref_altitude :: "('w, 'y) gnss_api_scheme \<Rightarrow> string list \<Rightarrow> ('w, 'z, int) gnss_prog" where
  "cmd_gnss_agnss_ref_altitude T argv =
     (if length argv \<noteq> 2 then do {
        mosh_error T ''ref_altitude: wrong parameter count'' [];
        mosh_print T ''ref_altitude: <altitude>'' [];
        mosh_print T (''altitude:'' @ [CHR 0x09] @ ''Reference altitude [m] with regard to the reference ellipsoid surface'') [];
        return (- EINVAL)
      } else (let altitude = atoi (argv ! 1) in
        if altitude < - 32768 \<or> altitude > 32767 then do {
          mosh_error T ''ref_altitude: invalid altitude value %d'' [PInt altitude];
          return (- EINVAL)
        } else outcome (call (agnss_write_location T [255, 255, 100, altitude, 0]))))"

definition filter_usage :: "string list" where
  "filter_usage = map (\<lambda>n. n @ '':'' @ [CHR 0x0A] @ ''  0 = disabled'' @ [CHR 0x0A] @ ''  1 = enabled'')
     [''ephe'', ''alm'', ''utc'', ''klob'', ''neq'', ''time'', ''pos'', ''integrity'', ''ggto'']"

definition cmd_gnss_agnss_filter :: "('w, 'y) gnss_api_scheme \<Rightarrow> string list \<Rightarrow> ('w, 'z, int) gnss_prog" where
  "cmd_gnss_agnss_filter T argv =
     (if length argv \<noteq> 10 then do {
        mosh_error T ''filter: wrong parameter count'' [];
        mosh_print T ''filter: <ephe> <alm> <utc> <klob> <neq> <time> <pos> <integrity> <ggto>'' [];
        print_lines T (map (\<lambda>t. (t, [])) filter_usage);
        return (- EINVAL)
      } else (let on = (\<lambda>i. atoi (argv ! i) = 1) in
        outcome (gnss_set_agnss_data_enabled (on 1) (on 2) (on 3) (on 4) (on 5) (on 6) (on 7) (on 8) (on 9))))"

definition no_1pps :: gnss_1pps_mode where
  "no_1pps = \<lparr>pps_enable = False, pulse_interval = 0, pulse_width = 0, apply_start_time = False, pps_year = 0, pps_month = 0,
     pps_day = 0, pps_hour = 0, pps_minute = 0, pps_second = 0\<rparr>"

text \<open>The interval and the width of the pulse, which both commands read alike, or the error.\<close>

definition pulse_args :: "('w, 'y) gnss_api_scheme \<Rightarrow> string \<Rightarrow> string list \<Rightarrow> (gnss_1pps_mode \<Rightarrow> ('w, 'z, int) gnss_prog) \<Rightarrow>
    ('w, 'z, int) gnss_prog" where
  "pulse_args T name argv p = (let interval = atoi (argv ! 1); width = atoi (argv ! 2) in
     if interval < 0 \<or> interval > UINT16_MAX then do {
       mosh_error T (name @ '': invalid interval value %d'') [PInt interval];
       return (- EINVAL)
     } else if width < 0 \<or> width > UINT16_MAX then do {
       mosh_error T (name @ '': invalid pulse width value %d'') [PInt width];
       return (- EINVAL)
     } else p (no_1pps\<lparr>pps_enable := True, pulse_interval := word_of_int interval, pulse_width := word_of_int width\<rparr>))"

definition cmd_gnss_1pps_enable :: "('w, 'y) gnss_api_scheme \<Rightarrow> string list \<Rightarrow> ('w, 'z, int) gnss_prog" where
  "cmd_gnss_1pps_enable T argv = pulse_args T ''start'' argv (\<lambda>mode. outcome (gnss_set_1pps_mode T mode))"

subsection \<open>Dates and times\<close>

text \<open>A number of the characters from \<open>i\<close> on, in the bounds; \<open>None\<close> is the error.\<close>

definition number_at :: "nat \<Rightarrow> nat \<Rightarrow> int \<Rightarrow> int \<Rightarrow> string \<Rightarrow> int option" where
  "number_at i n lo hi t = (let value = atoi (take n (drop i t)) in if value \<ge> lo \<and> value \<le> hi then Some value else None)"

definition parse_date_string :: "string \<Rightarrow> (16 word \<times> 8 word \<times> 8 word) option" where
  "parse_date_string t =
     (if length t \<noteq> 10 then None
      else case number_at 0 2 1 31 t of None \<Rightarrow> None
      | Some day \<Rightarrow>
          if t ! 2 \<noteq> CHR ''.'' then None
          else case number_at 3 2 1 12 t of None \<Rightarrow> None
          | Some month \<Rightarrow>
              if t ! 5 \<noteq> CHR ''.'' then None
              else case number_at 6 4 0 4000 t of None \<Rightarrow> None
              | Some year \<Rightarrow> Some (word_of_int year, word_of_int month, word_of_int day))"

definition parse_time_string :: "string \<Rightarrow> (8 word \<times> 8 word \<times> 8 word) option" where
  "parse_time_string t =
     (if length t \<noteq> 8 then None
      else case number_at 0 2 0 23 t of None \<Rightarrow> None
      | Some hour \<Rightarrow>
          if t ! 2 \<noteq> CHR '':'' then None
          else case number_at 3 2 0 59 t of None \<Rightarrow> None
          | Some minute \<Rightarrow>
              if t ! 5 \<noteq> CHR '':'' then None
              else case number_at 6 2 0 59 t of None \<Rightarrow> None
              | Some second \<Rightarrow> Some (word_of_int hour, word_of_int minute, word_of_int second))"

definition cmd_gnss_1pps_enable_at :: "('w, 'y) gnss_api_scheme \<Rightarrow> string list \<Rightarrow> ('w, 'z, int) gnss_prog" where
  "cmd_gnss_1pps_enable_at T argv = pulse_args T ''start_at'' argv (\<lambda>mode.
     case parse_date_string (argv ! 3) of
       None \<Rightarrow> do {
         mosh_error T ''start_at: invalid date string %s'' [PStr (argv ! 3)];
         return (- EINVAL)
       }
     | Some (year, month, day) \<Rightarrow>
         (case parse_time_string (argv ! 4) of
            None \<Rightarrow> do {
              mosh_error T ''start_at: invalid time string %s'' [PStr (argv ! 4)];
              return (- EINVAL)
            }
          | Some (hour, minute, second) \<Rightarrow>
              outcome (gnss_set_1pps_mode T (mode\<lparr>apply_start_time := True, pps_year := year, pps_month := month, pps_day := day,
                pps_hour := hour, pps_minute := minute, pps_second := second\<rparr>))))"

definition cmd_gnss_1pps_disable :: "('w, 'y) gnss_api_scheme \<Rightarrow> ('w, 'z, int) gnss_prog" where
  "cmd_gnss_1pps_disable T = outcome (gnss_set_1pps_mode T no_1pps)"

subsection \<open>Output levels\<close>

definition cmd_gnss_output :: "('w, 'y) gnss_api_scheme \<Rightarrow> string list \<Rightarrow> ('w, 'z, int) gnss_prog" where
  "cmd_gnss_output T argv =
     (if length argv \<noteq> 4 then do {
        mosh_error T ''output: wrong parameter count'' [];
        mosh_print T ''output: <pvt level> <nmea level> <event level>'' [];
        mosh_print T (''pvt level:'' @ [CHR 0x0A] @ ''  0 = no PVT output'' @ [CHR 0x0A] @ ''  1 = PVT output'') [];
        mosh_print T ''  2 = PVT output with SV information (default)'' [];
        mosh_print T (''nmea level:'' @ [CHR 0x0A] @ ''  0 = no NMEA output (default)'' @ [CHR 0x0A] @ ''  1 = NMEA output'') [];
        mosh_print T (''event level:'' @ [CHR 0x0A] @ ''  0 = no event output (default)'' @ [CHR 0x0A] @ ''  1 = event output'') [];
        return (- EINVAL)
      } else do {
        err \<leftarrow> gnss_set_pvt_output_level (atoi8 (argv ! 1));
        doif (err \<noteq> 0) (mosh_error T ''output: invalid PVT output level'' []);
        err \<leftarrow> gnss_set_nmea_output_level (atoi8 (argv ! 2));
        doif (err \<noteq> 0) (mosh_error T ''output: invalid NMEA output level'' []);
        err \<leftarrow> gnss_set_event_output_level (atoi8 (argv ! 3));
        doif (err \<noteq> 0) (mosh_error T ''output: invalid event output level'' []);
        return 0
      })"

subsection \<open>Registration\<close>

text \<open>
  The tree of the commands: the words that lead to a handler, how many words it must be given at least
  and how many more it may be given (\<open>None\<close>: it counts them itself), and the handler.
\<close>

type_synonym ('w, 'z) gnss_cmd = "string list \<Rightarrow> ('w, 'z, int) gnss_prog"

definition gnss_mode_cmds :: "('w, 'y) gnss_shell_api_scheme \<Rightarrow> (string list \<times> (nat \<times> nat) option \<times> ('w, 'z) gnss_cmd) list" where
  "gnss_mode_cmds T =
     [([''mode'', ''cont''], Some (1, 0), \<lambda>_. cmd_gnss_mode_cont T),
      ([''mode'', ''single''], Some (2, 0), cmd_gnss_mode_single T),
      ([''mode'', ''periodic''], Some (3, 0), cmd_gnss_mode_periodic T),
      ([''mode'', ''periodic_gnss''], Some (3, 0), cmd_gnss_mode_periodic_gnss T)]"

definition gnss_delete_cmds :: "('w, 'y) gnss_shell_api_scheme \<Rightarrow> (string list \<times> (nat \<times> nat) option \<times> ('w, 'z) gnss_cmd) list" where
  "gnss_delete_cmds T =
     [([''delete'', ''ephe''], Some (1, 0), \<lambda>_. cmd_gnss_delete_ephe T),
      ([''delete'', ''ekf''], Some (1, 0), \<lambda>_. cmd_gnss_delete_ekf T),
      ([''delete'', ''all''], Some (1, 0), \<lambda>_. cmd_gnss_delete_all T),
      ([''delete'', ''tcxo''], Some (1, 0), \<lambda>_. cmd_gnss_delete_tcxo T),
      ([''delete'', ''mask''], Some (2, 0), cmd_gnss_delete_mask T)]"

definition gnss_dynamics_cmds :: "('w, 'y) gnss_shell_api_scheme \<Rightarrow> (string list \<times> (nat \<times> nat) option \<times> ('w, 'z) gnss_cmd) list" where
  "gnss_dynamics_cmds T =
     [([''dynamics'', ''general''], Some (1, 0), \<lambda>_. cmd_gnss_dynamics_general T),
      ([''dynamics'', ''stationary''], Some (1, 0), \<lambda>_. cmd_gnss_dynamics_stationary T),
      ([''dynamics'', ''pedestrian''], Some (1, 0), \<lambda>_. cmd_gnss_dynamics_pedestrian T),
      ([''dynamics'', ''automotive''], Some (1, 0), \<lambda>_. cmd_gnss_dynamics_automotive T)]"

definition gnss_config_cmds :: "('w, 'y) gnss_shell_api_scheme \<Rightarrow> (string list \<times> (nat \<times> nat) option \<times> ('w, 'z) gnss_cmd) list" where
  "gnss_config_cmds T =
     [([''config'', ''system''], Some (2, 2), cmd_gnss_config_system T),
      ([''config'', ''elevation''], None, cmd_gnss_config_elevation T),
      ([''config'', ''use_case''], Some (3, 0), cmd_gnss_config_use_case T),
      ([''config'', ''nmea'', ''mask''], Some (6, 0), cmd_gnss_config_nmea_mask T),
      ([''config'', ''nmea'', ''talker'', ''standard''], Some (1, 0), \<lambda>_. cmd_gnss_config_nmea_talker_standard T),
      ([''config'', ''nmea'', ''talker'', ''gp_only''], Some (1, 0), \<lambda>_. cmd_gnss_config_nmea_talker_gp_only T),
      ([''config'', ''nmea'', ''qzss'', ''standard''], Some (1, 0), \<lambda>_. cmd_gnss_config_nmea_qzss_standard T),
      ([''config'', ''nmea'', ''qzss'', ''custom''], Some (1, 0), \<lambda>_. cmd_gnss_config_nmea_qzss_custom T),
      ([''config'', ''powersave'', ''off''], Some (1, 0), \<lambda>_. cmd_gnss_config_powersave_off T),
      ([''config'', ''powersave'', ''perf''], Some (1, 0), \<lambda>_. cmd_gnss_config_powersave_perf T),
      ([''config'', ''powersave'', ''power''], Some (1, 0), \<lambda>_. cmd_gnss_config_powersave_power T),
      ([''config'', ''qzss'', ''mask''], Some (2, 0), cmd_gnss_config_qzss_mask T),
      ([''config'', ''timing'', ''rtc''], Some (1, 0), \<lambda>_. cmd_gnss_config_timing_rtc T),
      ([''config'', ''timing'', ''tcxo''], Some (1, 0), \<lambda>_. cmd_gnss_config_timing_tcxo T)]"

definition gnss_agnss_cmds :: "('w, 'y) gnss_shell_api_scheme \<Rightarrow> (string list \<times> (nat \<times> nat) option \<times> ('w, 'z) gnss_cmd) list" where
  "gnss_agnss_cmds T =
     [([''agnss'', ''automatic'', ''enable''], Some (1, 0), \<lambda>_. cmd_gnss_agnss_automatic_enable),
      ([''agnss'', ''automatic'', ''disable''], Some (1, 0), \<lambda>_. cmd_gnss_agnss_automatic_disable),
      ([''agnss'', ''inject''], Some (1, 1), cmd_gnss_agnss_inject T),
      ([''agnss'', ''filter''], None, cmd_gnss_agnss_filter T),
      ([''agnss'', ''filtephem'', ''enable''], Some (1, 0), \<lambda>_. cmd_gnss_agnss_filtered_enable T),
      ([''agnss'', ''filtephem'', ''disable''], Some (1, 0), \<lambda>_. cmd_gnss_agnss_filtered_disable T),
      ([''agnss'', ''expiry''], Some (1, 0), \<lambda>_. cmd_gnss_agnss_expiry T),
      ([''agnss'', ''ref_altitude''], None, cmd_gnss_agnss_ref_altitude T)]"

definition gnss_1pps_cmds :: "('w, 'y) gnss_shell_api_scheme \<Rightarrow> (string list \<times> (nat \<times> nat) option \<times> ('w, 'z) gnss_cmd) list" where
  "gnss_1pps_cmds T =
     [([''1pps'', ''enable''], Some (3, 0), cmd_gnss_1pps_enable T),
      ([''1pps'', ''enable_at''], Some (5, 0), cmd_gnss_1pps_enable_at T),
      ([''1pps'', ''disable''], None, \<lambda>_. cmd_gnss_1pps_disable T)]"

definition gnss_cmds :: "('w, 'y) gnss_shell_api_scheme \<Rightarrow> (string list \<times> (nat \<times> nat) option \<times> ('w, 'z) gnss_cmd) list" where
  "gnss_cmds T =
     [([''start''], Some (1, 0), \<lambda>_. cmd_gnss_start T),
      ([''stop''], Some (1, 0), \<lambda>_. cmd_gnss_stop T),
      ([''priority'', ''enable''], Some (1, 0), \<lambda>_. cmd_gnss_priority_enable T),
      ([''priority'', ''disable''], Some (1, 0), \<lambda>_. cmd_gnss_priority_disable T),
      ([''pgps'', ''enable''], Some (1, 0), \<lambda>_. cmd_gnss_pgps_enable T),
      ([''output''], None, cmd_gnss_output T)] @
     gnss_delete_cmds T @ gnss_mode_cmds T @ gnss_dynamics_cmds T @ gnss_config_cmds T @ gnss_agnss_cmds T @ gnss_1pps_cmds T"

text \<open>
  A line \<open>gnss ...\<close>: the words that lead to the command, and the command's words, itself first. The
  shell refuses a wrong number of words; where no command is named the help is shown.
\<close>

definition gnss_command :: "('w, 'y) gnss_shell_api_scheme \<Rightarrow> string list \<Rightarrow> string list \<Rightarrow> ('w, 'z, int) gnss_prog" where
  "gnss_command T path argv = (case map_of (gnss_cmds T) path of
     None \<Rightarrow> mosh_print_help_shell T argv
   | Some (None, h) \<Rightarrow> h argv
   | Some (Some (mandatory, optional), h) \<Rightarrow>
       if mandatory \<le> length argv \<and> length argv \<le> mandatory + optional then h argv
       else do { shell_help; return (- EINVAL) })"

subsection \<open>An instance\<close>

text \<open>A modem that answers every call with success, numbers its constants by the length of their names, and reports nothing.\<close>

definition no_frame :: agnss_frame where
  "no_frame = \<lparr>data_flags = 0, system_count = 0, systems = replicate 3 zero_need\<rparr>"

definition no_pvt :: pvt_frame where
  "no_pvt = \<lparr>pvt_latitude = 0, pvt_longitude = 0, pvt_altitude = 0, pvt_accuracy = 0, altitude_accuracy = 0, pvt_speed = 0,
     speed_accuracy = 0, vertical_speed = 0, vertical_speed_accuracy = 0, pvt_heading = 0, heading_accuracy = 0,
     pvt_datetime = \<lparr>dt_year = 0, dt_month = 0, dt_day = 0, dt_hour = 0, dt_minute = 0, dt_seconds = 0, dt_ms = 0\<rparr>,
     pdop = 0, hdop = 0, vdop = 0, tdop = 0, pvt_flags = 0, pvt_sv = [], execution_time = 0\<rparr>"

definition no_expiry :: agnss_expiry where
  "no_expiry = \<lparr>exp_data_flags = 0, utc_expiry = 0, klob_expiry = 0, neq_expiry = 0, integrity_expiry = 0, position_expiry = 0,
     ggto_expiry = 0, exp_sv = []\<rparr>"

definition test_gnss :: "unit gnss_shell_api" where
  "test_gnss = \<lparr>clock_utc = (\<lambda>_. (\<lparr>tm_sec = 0, tm_min = 0, tm_hour = 0, tm_mday = 1, tm_mon = 0, tm_year = 125\<rparr>, 0)),
     vsnprintfcb = (\<lambda>n f _. (int (length f), take (n - 1) f)), hex2bin = (\<lambda>t n. take n (str_bytes t)), gnss_flag = (\<lambda>_. 0),
     gnss_system = (\<lambda>_. 0), gnss_num = (\<lambda>n. int (length n)), tenths = (\<lambda>_. 0), k_malloc_ok = (\<lambda>w. (True, w)),
     read_pvt = (\<lambda>w. ((0, no_pvt), w)), read_nmea = (\<lambda>w. ((0, ''$GPGGA''), w)), read_agnss = (\<lambda>w. ((0, no_frame), w)),
     event_handler_set = (\<lambda>w. w), modem_gnss_start = (\<lambda>w. (0, w)), modem_gnss_stop = (\<lambda>w. (0, w)), modem_gnss_set = (\<lambda>_ _ w. (0, w)),
     modem_1pps_enable = (\<lambda>_ w. (0, w)), agnss_write_location = (\<lambda>_ w. (0, w)),
     agnss_expiry_get = (\<lambda>w. ((0, no_expiry), w)), modem_info_string_get = (\<lambda>_ w. ((0, ''00101''), w)),
     modem_info_short_get = (\<lambda>_ w. ((0, 255), w)), coap_agnss_data_get = (\<lambda>_ w. ((0, []), w)), agnss_process = (\<lambda>_ w. (0, w)),
     pgps_init = (\<lambda>w. (0, w)), coap_pgps_url_get = (\<lambda>_ w. ((0, [], []), w)), pgps_update = (\<lambda>_ w. (0, w)), pgps_request_reset = (\<lambda>w. w),
     pgps_notify_prediction = (\<lambda>w. (0, w)), pgps_inject = (\<lambda>_ _ w. (0, w)), pgps_preemptive_updates = (\<lambda>w. (0, w)),
     config_pgps = False, filtered_runtime = False, inject_max_length = 2000, strtoul_hex = (\<lambda>_. (0, 0))\<rparr>"

definition gnss_boot :: "unit gnss" where
  "gnss_boot = \<lparr>world = (), at_cmd_mode_dont_print = False, mosh_print_timestamp_use = False, mosh_print_cloud_echo = False, console = [],
     cloud_out = [], aborted = False, operation_mode = GNSS_OP_MODE_CONTINUOUS, periodic_fix_interval = 0, periodic_fix_retry = 0,
     nmea_mask_set = False, agnss_need = no_frame, gnss_elevation = 5, gnss_api_initialized = False, pvt_output_level = 2,
     nmea_output_level = 0, event_output_level = 0, agnss_automatic = False, agnss_inject_ephe = True, agnss_inject_alm = True,
     agnss_inject_utc = True, agnss_inject_klob = True, agnss_inject_neq = True, agnss_inject_time = True,
     agnss_inject_pos = True, agnss_inject_int = True, agnss_inject_ggto = True, pgps_enabled = False, prediction = None,
     pgps_request = 0, gnss_filtered_ephemerides_enabled = False, inject_pgps_data_work = False,
     notify_pgps_prediction_work = False, get_pgps_data_work = False, gnss_event_msgq = [], start_work = None,
     timeout_work = None, stop_work = False, get_agnss_data_work = False, blocks = \<lambda>_. None, next_event_block = 0,
     data_fault = False\<rparr>"

text \<open>A periodic search that has been started.\<close>

definition periodic_search :: "unit gnss" where
  "periodic_search = gnss_boot\<lparr>operation_mode := GNSS_OP_MODE_PERIODIC_FIX, periodic_fix_interval := 60, periodic_fix_retry := 20,
     gnss_api_initialized := True, start_work := Some 60, timeout_work := Some 20\<rparr>"

subsection \<open>What the commands read\<close>

lemma length_pad: "length d \<le> n \<Longrightarrow> length (pad n d) = n"
  by (simp add: pad_def)

lemma digits_value_zeros: "digits_value 10 (replicate k (CHR ''0'') @ ds) = digits_value 10 ds"
proof -
  have "foldl (\<lambda>n c. n * 10 + digit_value c) 0 (replicate k (CHR ''0'')) = 0"
    by (induction k) (simp_all add: digit_value_def char_code_def)
  then show ?thesis by (simp add: digits_value_def)
qed

lemma atoi_pad:
  assumes "int v \<le> LONG_MAX"
  shows "atoi (pad n (show_nat v)) = int v"
proof -
  have "\<forall>c \<in> set (pad n (show_nat v)). is_digit 10 c"
    using show_nat_digits by (auto simp: pad_def is_digit_def digit_value_def char_code_def)
  moreover have "pad n (show_nat v) \<noteq> []" by (simp add: pad_def)
  ultimately show ?thesis
    using strtol_digits(1) [of "pad n (show_nat v)" "[]"] assms
    by (simp add: atoi_def pad_def digits_value_zeros LONG_MIN_def)
qed

lemma show_padded_number:
  assumes "0 \<le> i" "i < 10 ^ n" "0 < n" "i \<le> LONG_MAX"
  shows "length (show_padded n i) = n" "atoi (show_padded n i) = i"
proof -
  have "nat i < 10 ^ n" using assms by (simp add: nat_less_iff)
  then show "length (show_padded n i) = n"
    using length_show_nat_le [of "nat i" n] assms by (simp add: show_padded_def length_pad)
  show "atoi (show_padded n i) = i" using assms atoi_pad [of "nat i" n] by (simp add: show_padded_def)
qed

text \<open>The text of a date and of a time of day.\<close>

definition date_text :: "int \<Rightarrow> int \<Rightarrow> int \<Rightarrow> string" where
  "date_text year month day = show_padded 2 day @ ''.'' @ show_padded 2 month @ ''.'' @ show_padded 4 year"

definition time_text :: "int \<Rightarrow> int \<Rightarrow> int \<Rightarrow> string" where
  "time_text hour minute second = show_padded 2 hour @ '':'' @ show_padded 2 minute @ '':'' @ show_padded 2 second"

lemma cut_text:
  assumes "length a = 2" "length b = 2"
  shows "take 2 (a @ x # b @ y # c) = a" "(a @ x # b @ y # c) ! 2 = x" "take 2 (drop 3 (a @ x # b @ y # c)) = b"
    "(a @ x # b @ y # c) ! 5 = y" "drop 6 (a @ x # b @ y # c) = c"
proof -
  obtain a1 a2 b1 b2 where "a = [a1, a2]" "b = [b1, b2]"
    using assms by (auto simp: length_Suc_conv numeral_2_eq_2)
  then show "take 2 (a @ x # b @ y # c) = a" "(a @ x # b @ y # c) ! 2 = x" "take 2 (drop 3 (a @ x # b @ y # c)) = b"
    "(a @ x # b @ y # c) ! 5 = y" "drop 6 (a @ x # b @ y # c) = c" by (simp_all add: numeral_2_eq_2 eval_nat_numeral)
qed

text \<open>
  C38: Each word of \<open>gnss agnss filter\<close> switches its own part of the A-GNSS requests that follow: a
  flag is asked for exactly when the modem needs it and the word of its kind of data is 1 (the
  third for UTC, the fourth for Klobuchar, then NeQuick, time, position, integrity and GGTO);
  every system the modem needs keeps its place and its identifier, with the ephemerides that are
  needed when the first word is 1 and none otherwise, and the almanacs by the second word.
\<close>

theorem agnss_filter_switches:
  fixes s :: "('w, 'z) gnss_scheme" and T :: "('w, 'y) gnss_shell_api_scheme"
    and cmd ephe alm utc klob neq time pos integrity ggto :: string
  defines "s' \<equiv> exec_state (cmd_gnss_agnss_filter T [cmd, ephe, alm, utc, klob, neq, time, pos, integrity, ggto]) s"
  defines "r \<equiv> result (get_filtered_agnss_request T) s'"
  shows "(bit (data_flags r) i \<longleftrightarrow> bit (data_flags (agnss_need s)) i \<and>
      (atoi utc = 1 \<and> bit (gnss_flag T ''NRF_MODEM_GNSS_AGNSS_GPS_UTC_REQUEST'') i \<or>
       atoi klob = 1 \<and> bit (gnss_flag T ''NRF_MODEM_GNSS_AGNSS_KLOBUCHAR_REQUEST'') i \<or>
       atoi neq = 1 \<and> bit (gnss_flag T ''NRF_MODEM_GNSS_AGNSS_NEQUICK_REQUEST'') i \<or>
       atoi time = 1 \<and> bit (gnss_flag T ''NRF_MODEM_GNSS_AGNSS_GPS_SYS_TIME_AND_SV_TOW_REQUEST'') i \<or>
       atoi pos = 1 \<and> bit (gnss_flag T ''NRF_MODEM_GNSS_AGNSS_POSITION_REQUEST'') i \<or>
       atoi integrity = 1 \<and> bit (gnss_flag T ''NRF_MODEM_GNSS_AGNSS_INTEGRITY_REQUEST'') i \<or>
       atoi ggto = 1 \<and> bit (gnss_flag T ''NRF_MODEM_GNSS_AGNSS_GGTO_REQUEST'') i)) \<and>
    needed_systems r = map (\<lambda>need. \<lparr>system_id = system_id need,
        sv_mask_ephe = (if atoi ephe = 1 then sv_mask_ephe need else 0),
        sv_mask_alm = (if atoi alm = 1 then sv_mask_alm need else 0)\<rparr>) (needed_systems (agnss_need s))"
proof -
  have s': "s' = s\<lparr>agnss_inject_ephe := atoi ephe = 1, agnss_inject_alm := atoi alm = 1, agnss_inject_utc := atoi utc = 1,
      agnss_inject_klob := atoi klob = 1, agnss_inject_neq := atoi neq = 1, agnss_inject_time := atoi time = 1,
      agnss_inject_pos := atoi pos = 1, agnss_inject_int := atoi integrity = 1, agnss_inject_ggto := atoi ggto = 1\<rparr>"
    by (simp add: s'_def cmd_gnss_agnss_filter_def outcome_def gnss_set_agnss_data_enabled_def exec_simps Let_def)
  show ?thesis
    unfolding r_def s'
    by (simp add: get_filtered_agnss_request_def exec_simps bit_filter_flags injected_flags_def needed_systems_def
      take_filtered o_def del: take_append)
qed

text \<open>
  C39: A date and a time written as \<open>gnss 1pps enable_at\<close> asks for are read back as they are.
\<close>

theorem pps_start_roundtrip:
  assumes "1 \<le> day" "day \<le> 31" "1 \<le> month" "month \<le> 12" "0 \<le> year" "year \<le> 4000"
    and "0 \<le> hour" "hour \<le> 23" "0 \<le> minute" "minute \<le> 59" "0 \<le> second" "second \<le> 59"
  shows "parse_date_string (date_text year month day) = Some (word_of_int year, word_of_int month, word_of_int day) \<and>
    parse_time_string (time_text hour minute second) = Some (word_of_int hour, word_of_int minute, word_of_int second)"
proof -
  note n = show_padded_number(1) [of _ 2] show_padded_number(1) [of _ 4] show_padded_number(2) [of _ 2] show_padded_number(2) [of _ 4]
  have "parse_date_string (date_text year month day) = Some (word_of_int year, word_of_int month, word_of_int day)"
    using assms(1-6) by (simp add: parse_date_string_def date_text_def number_at_def n cut_text LONG_MAX_def)
  moreover have "parse_time_string (time_text hour minute second) = Some (word_of_int hour, word_of_int minute, word_of_int second)"
    using assms(7-12) by (simp add: parse_time_string_def time_text_def number_at_def n cut_text LONG_MAX_def)
  ultimately show ?thesis by simp
qed

theorem pps_start_roundtrip_witness:
  "parse_date_string (date_text 2024 2 9) = Some (2024, 2, 9) \<and> parse_time_string (time_text 7 5 0) = Some (7, 5, 0)"
  using pps_start_roundtrip [of 9 2 2024 7 5 0] by simp

text \<open>
  C40: The output levels are cut to 8 bits before they are checked: \<open>output 258 256 257\<close> is accepted as
  \<open>output 2 0 1\<close>, without a word.
\<close>

theorem output_levels_wrap:
  fixes s :: "('w, 'z) gnss_scheme"
  assumes "length argv = 4" "atoi (argv ! 1) mod 256 \<le> 2" "atoi (argv ! 2) mod 256 \<le> 1" "atoi (argv ! 3) mod 256 \<le> 1"
  shows "result (cmd_gnss_output T argv) s = 0 \<and> exec_state (cmd_gnss_output T argv) s =
    s\<lparr>pvt_output_level := word_of_int (atoi (argv ! 1)), nmea_output_level := word_of_int (atoi (argv ! 2)),
      event_output_level := word_of_int (atoi (argv ! 3))\<rparr>"
proof -
  have u: "uint (word_of_int k :: 8 word) = k mod 256" for k by (simp add: uint_word_of_int)
  have "\<not> 2 < atoi8 (argv ! 1)" "\<not> 1 < atoi8 (argv ! 2)" "\<not> 1 < atoi8 (argv ! 3)"
    using assms(2-4) by (simp_all add: word_less_def u atoi8_def)
  then show ?thesis
    using assms(1) by (simp add: cmd_gnss_output_def gnss_set_pvt_output_level_def gnss_set_nmea_output_level_def
      gnss_set_event_output_level_def exec_simps atoi8_def)
qed

theorem output_levels_wrap_witness:
  "result (cmd_gnss_output test_gnss [''output'', ''258'', ''256'', ''257'']) gnss_boot = 0 \<and>
    pvt_output_level (exec_state (cmd_gnss_output test_gnss [''output'', ''258'', ''256'', ''257'']) gnss_boot) = 2"
proof -
  have "atoi ''258'' = 258" by code_simp
  moreover have "atoi ''256'' = 256" by code_simp
  moreover have "atoi ''257'' = 257" by code_simp
  ultimately show ?thesis using output_levels_wrap [of "[''output'', ''258'', ''256'', ''257'']" test_gnss gnss_boot] by simp
qed

end
