(* ===== verification/Mosh_Gnss_Queue.thy ===== *)
theory Mosh_Gnss_Queue
  imports Mosh_Gnss_Shell
begin

section \<open>The events of GNSS (\<open>gnss.c\<close>)\<close>

text \<open>
  The machine of GNSS: events of the modem, turns of the thread, work items that are due, P-GPS events
  and lines of the shell, in any order. First what every command leaves alone, then the queue: its
  blocks are owned, and it implements a queue of events with their data (\<open>fifo_step\<close>).
\<close>

subsection \<open>The machine\<close>

datatype gnss_input = Modem_event "8 word" | Handler_turn | Start_due | Timeout_due | Stop_due | Agnss_due
  | Inject_pgps_due | Notify_pgps_due | Get_pgps_due | Pgps_event pgps_event | Gnss_line "string list" "string list"

definition gnss_step :: "('w, 'y) gnss_shell_api_scheme \<Rightarrow> ('w, 'z) gnss_scheme \<Rightarrow> gnss_input \<Rightarrow> ('w, 'z) gnss_scheme" where
  "gnss_step T s x = (case x of
     Modem_event e \<Rightarrow> exec_state (gnss_event_handler T (uint e)) s
   | Handler_turn \<Rightarrow> exec_state (data_handler_turn T) s
   | Start_due \<Rightarrow> if start_work s \<noteq> None then exec_state (start_gnss_work_fn T) (s\<lparr>start_work := None\<rparr>) else s
   | Timeout_due \<Rightarrow> if timeout_work s \<noteq> None then exec_state (handle_timeout_work_fn T) (s\<lparr>timeout_work := None\<rparr>) else s
   | Stop_due \<Rightarrow> if stop_work s then exec_state (stop_gnss_work_fn T) (s\<lparr>stop_work := False\<rparr>) else s
   | Agnss_due \<Rightarrow> if get_agnss_data_work s then exec_state (get_agnss_data T) (s\<lparr>get_agnss_data_work := False\<rparr>) else s
   | Inject_pgps_due \<Rightarrow> if inject_pgps_data_work s then exec_state (inject_pgps_data_work_fn T) (s\<lparr>inject_pgps_data_work := False\<rparr>) else s
   | Notify_pgps_due \<Rightarrow> if notify_pgps_prediction_work s
       then exec_state (notify_pgps_prediction_work_fn T) (s\<lparr>notify_pgps_prediction_work := False\<rparr>) else s
   | Get_pgps_due \<Rightarrow> if get_pgps_data_work s then exec_state (get_pgps_data_work_fn T) (s\<lparr>get_pgps_data_work := False\<rparr>) else s
   | Pgps_event e \<Rightarrow> exec_state (pgps_event_handler e) s
   | Gnss_line path argv \<Rightarrow> exec_state (gnss_command T path argv) s)"

definition gnss_init :: "agnss_frame \<Rightarrow> ('w, 'z) gnss_scheme \<Rightarrow> ('w, 'z) gnss_scheme" where
  "gnss_init need s = s\<lparr>operation_mode := GNSS_OP_MODE_CONTINUOUS, periodic_fix_interval := 0, periodic_fix_retry := 0,
     nmea_mask_set := False, agnss_need := need, gnss_elevation := 5, gnss_api_initialized := False, pvt_output_level := 2,
     nmea_output_level := 0, event_output_level := 0, agnss_automatic := False, agnss_inject_ephe := True, agnss_inject_alm := True,
     agnss_inject_utc := True, agnss_inject_klob := True, agnss_inject_neq := True, agnss_inject_time := True,
     agnss_inject_pos := True, agnss_inject_int := True, agnss_inject_ggto := True, pgps_enabled := False, prediction := None,
     pgps_request := 0, gnss_filtered_ephemerides_enabled := False, inject_pgps_data_work := False,
     notify_pgps_prediction_work := False, get_pgps_data_work := False, gnss_event_msgq := [], start_work := None,
     timeout_work := None, stop_work := False, get_agnss_data_work := False, blocks := \<lambda>_. None, next_event_block := 0,
     data_fault := False\<rparr>"

subsection \<open>Views of the state\<close>

text \<open>The queue with its blocks, the search, and the output levels.\<close>

definition queue_view :: "('w, 'z) gnss_scheme \<Rightarrow> event_item list \<times> (nat \<Rightarrow> event_data option) \<times> nat \<times> bool" where
  "queue_view s = (gnss_event_msgq s, blocks s, next_event_block s, data_fault s)"

definition search_view :: "('w, 'z) gnss_scheme \<Rightarrow> gnss_operation_mode \<times> nat option \<times> bool" where
  "search_view s = (operation_mode s, start_work s, gnss_api_initialized s)"

definition level_view :: "('w, 'z) gnss_scheme \<Rightarrow> 8 word \<times> 8 word \<times> 8 word" where
  "level_view s = (pvt_output_level s, nmea_output_level s, event_output_level s)"

text \<open>Printing and calls of the modem change none of them.\<close>

named_theorems gnss_frame \<open>frame rules of the operations of GNSS\<close>

definition printable :: "(('w, 'z) gnss_scheme \<Rightarrow> 'b) \<Rightarrow> bool" where
  "printable f \<longleftrightarrow> (\<forall>s c. f (s\<lparr>console := c\<rparr>) = f s) \<and> (\<forall>s c. f (s\<lparr>cloud_out := c\<rparr>) = f s) \<and> (\<forall>s w. f (s\<lparr>world := w\<rparr>) = f s) \<and>
     (\<forall>s b. f (s\<lparr>aborted := b\<rparr>) = f s)"

lemma printable_views [simp]: "printable queue_view" "printable search_view" "printable level_view"
  by (simp_all add: printable_def queue_view_def search_view_def level_view_def)

lemma printable_frame [gnss_frame]:
  assumes "printable f"
  shows "keeps f (mosh_print P fmt args)" "keeps f (mosh_warn P fmt args)" "keeps f (mosh_error P fmt args)"
    "keeps f (to_console x)" "keeps f shell_help" "keeps f (call g)" "keeps f (act h)" "keeps f (abort u)"
  using assms unfolding printable_def abort_def by (auto intro!: keeps_intros)

lemma print_lines_frame [gnss_frame]: "printable f \<Longrightarrow> keeps f (print_lines P ls)"
  by (induction ls) (auto intro!: keeps_intros printable_frame)

lemma printing_frame [gnss_frame]:
  assumes "printable f"
  shows "keeps f (event_print T m)" "keeps f (print_pvt T p)" "keeps f (print_nmea T n)" "keeps f (modem_set T a v m)"
    "keeps f (modem_stop T)" "keeps f (serving_cell_info_get T)" "keeps f (get_filtered_agnss_request T)"
    "keeps f (nv_data_delete T k)" "keeps f (set_fix T i r)" "keeps f (gnss_enable_all_nmeas T)" "keeps f (gnss_get_agnss_expiry T)"
    "keeps f (deref q)" "keeps f (mosh_print_help_shell P argv)"
  unfolding event_print_def print_pvt_def print_pvt_flags_def print_nmea_def modem_set_def modem_stop_def serving_cell_info_get_def
    get_filtered_agnss_request_def nv_data_delete_def set_fix_def gnss_enable_all_nmeas_def gnss_get_agnss_expiry_def deref_def
    mosh_print_help_shell_def Let_def
  by (auto intro!: keeps_intros gnss_frame [OF assms])

lemma works_frame [gnss_frame]:
  assumes "printable f"
  shows "keeps f (get_agnss_data T)" "keeps f (get_pgps_data_work_fn T)" "keeps f (inject_pgps_data_work_fn T)"
    "keeps f (notify_pgps_prediction_work_fn T)" "keeps f (stop_gnss_work_fn T)" "keeps f (handle_timeout_work_fn T)"
  unfolding get_agnss_data_def get_pgps_data_work_fn_def inject_pgps_data_work_fn_def notify_pgps_prediction_work_fn_def
    stop_gnss_work_fn_def handle_timeout_work_fn_def Let_def
  by (auto intro!: keeps_intros gnss_frame [OF assms] split: sum.split)

text \<open>Views that no setting changes: the queue and the levels.\<close>

definition calm :: "(('w, 'z) gnss_scheme \<Rightarrow> 'b) \<Rightarrow> bool" where
  "calm f \<longleftrightarrow> printable f \<and> (\<forall>s v. f (s\<lparr>operation_mode := v\<rparr>) = f s) \<and> (\<forall>s v. f (s\<lparr>periodic_fix_interval := v\<rparr>) = f s) \<and>
     (\<forall>s v. f (s\<lparr>periodic_fix_retry := v\<rparr>) = f s) \<and> (\<forall>s v. f (s\<lparr>nmea_mask_set := v\<rparr>) = f s) \<and>
     (\<forall>s v. f (s\<lparr>gnss_elevation := v\<rparr>) = f s) \<and> (\<forall>s v. f (s\<lparr>gnss_api_initialized := v\<rparr>) = f s) \<and>
     (\<forall>s v. f (s\<lparr>start_work := v\<rparr>) = f s) \<and> (\<forall>s v. f (s\<lparr>timeout_work := v\<rparr>) = f s) \<and> (\<forall>s v. f (s\<lparr>stop_work := v\<rparr>) = f s) \<and>
     (\<forall>s v. f (s\<lparr>get_agnss_data_work := v\<rparr>) = f s) \<and> (\<forall>s v. f (s\<lparr>inject_pgps_data_work := v\<rparr>) = f s) \<and>
     (\<forall>s v. f (s\<lparr>notify_pgps_prediction_work := v\<rparr>) = f s) \<and> (\<forall>s v. f (s\<lparr>get_pgps_data_work := v\<rparr>) = f s) \<and>
     (\<forall>s v. f (s\<lparr>agnss_need := v\<rparr>) = f s) \<and> (\<forall>s v. f (s\<lparr>agnss_automatic := v\<rparr>) = f s) \<and> (\<forall>s v. f (s\<lparr>pgps_enabled := v\<rparr>) = f s) \<and>
     (\<forall>s v. f (s\<lparr>prediction := v\<rparr>) = f s) \<and> (\<forall>s v. f (s\<lparr>pgps_request := v\<rparr>) = f s) \<and>
     (\<forall>s v. f (s\<lparr>gnss_filtered_ephemerides_enabled := v\<rparr>) = f s) \<and> (\<forall>s v. f (s\<lparr>agnss_inject_ephe := v\<rparr>) = f s) \<and>
     (\<forall>s v. f (s\<lparr>agnss_inject_alm := v\<rparr>) = f s) \<and> (\<forall>s v. f (s\<lparr>agnss_inject_utc := v\<rparr>) = f s) \<and>
     (\<forall>s v. f (s\<lparr>agnss_inject_klob := v\<rparr>) = f s) \<and> (\<forall>s v. f (s\<lparr>agnss_inject_neq := v\<rparr>) = f s) \<and>
     (\<forall>s v. f (s\<lparr>agnss_inject_time := v\<rparr>) = f s) \<and> (\<forall>s v. f (s\<lparr>agnss_inject_pos := v\<rparr>) = f s) \<and>
     (\<forall>s v. f (s\<lparr>agnss_inject_int := v\<rparr>) = f s) \<and> (\<forall>s v. f (s\<lparr>agnss_inject_ggto := v\<rparr>) = f s)"

lemma calm_views [simp]: "calm queue_view" "calm level_view"
  unfolding calm_def by (simp_all add: queue_view_def level_view_def)

lemma calm_printable: "calm f \<Longrightarrow> printable f"
  by (simp add: calm_def)

lemma calm_updates:
  assumes "calm f"
  shows
    "f (s\<lparr>operation_mode := x0\<rparr>) = f s" "f (s\<lparr>periodic_fix_interval := x1\<rparr>) = f s" "f (s\<lparr>periodic_fix_retry := x2\<rparr>) = f s"
    "f (s\<lparr>nmea_mask_set := x3\<rparr>) = f s" "f (s\<lparr>gnss_elevation := x4\<rparr>) = f s" "f (s\<lparr>gnss_api_initialized := x5\<rparr>) = f s"
    "f (s\<lparr>start_work := x6\<rparr>) = f s" "f (s\<lparr>timeout_work := x7\<rparr>) = f s" "f (s\<lparr>stop_work := x8\<rparr>) = f s"
    "f (s\<lparr>get_agnss_data_work := x9\<rparr>) = f s" "f (s\<lparr>inject_pgps_data_work := x10\<rparr>) = f s" "f (s\<lparr>notify_pgps_prediction_work := x11\<rparr>) = f s"
    "f (s\<lparr>get_pgps_data_work := x12\<rparr>) = f s" "f (s\<lparr>agnss_need := x13\<rparr>) = f s" "f (s\<lparr>agnss_automatic := x14\<rparr>) = f s"
    "f (s\<lparr>pgps_enabled := x15\<rparr>) = f s" "f (s\<lparr>prediction := x16\<rparr>) = f s" "f (s\<lparr>pgps_request := x17\<rparr>) = f s"
    "f (s\<lparr>gnss_filtered_ephemerides_enabled := x18\<rparr>) = f s" "f (s\<lparr>agnss_inject_ephe := x19\<rparr>) = f s" "f (s\<lparr>agnss_inject_alm := x20\<rparr>) = f s"
    "f (s\<lparr>agnss_inject_utc := x21\<rparr>) = f s" "f (s\<lparr>agnss_inject_klob := x22\<rparr>) = f s" "f (s\<lparr>agnss_inject_neq := x23\<rparr>) = f s"
    "f (s\<lparr>agnss_inject_time := x24\<rparr>) = f s" "f (s\<lparr>agnss_inject_pos := x25\<rparr>) = f s" "f (s\<lparr>agnss_inject_int := x26\<rparr>) = f s"
    "f (s\<lparr>agnss_inject_ggto := x27\<rparr>) = f s"
  using assms by (simp_all add: calm_def)

named_theorems calm_frame \<open>frame rules for views that no setting changes\<close>

lemma calm_api [calm_frame]:
  assumes "calm f"
  shows "keeps f (gnss_api_init T)" "keeps f (schedule_start d)" "keeps f (schedule_timeout d)" "keeps f (start_gnss_work_fn T)"
    "keeps f (handle_agnss_req T a)" "keeps f (pgps_event_handler e)"
  unfolding gnss_api_init_def schedule_start_def schedule_timeout_def start_gnss_work_fn_def handle_agnss_req_def
    pgps_event_handler_def pgps_available_def
  by (auto intro!: keeps_intros gnss_frame [OF calm_printable [OF assms]] simp: calm_updates [OF assms] split: pgps_event.split)

lemma calm_api_operations [calm_frame]:
  assumes "calm f"
  shows "keeps f (gnss_start T)" "keeps f (gnss_stop T)" "keeps f (gnss_delete_data T d)" "keeps f (gnss_delete_data_custom T m)"
    "keeps f (gnss_set_continuous_mode T)" "keeps f (gnss_set_single_fix_mode T r)" "keeps f (gnss_set_periodic_fix_mode T i r)"
    "keeps f (gnss_set_periodic_fix_mode_gnss T j r)" "keeps f (gnss_set_system_mask T k)" "keeps f (gnss_set_duty_cycling_policy T p)"
    "keeps f (gnss_set_elevation_threshold T k)" "keeps f (gnss_set_agnss_filtered_ephemerides T b)" "keeps f (gnss_set_use_case T b c)"
    "keeps f (gnss_set_nmea_mask T r)" "keeps f (gnss_set_nmea_talker_mode T d)" "keeps f (gnss_set_nmea_qzss_mode T d)"
    "keeps f (gnss_set_priority_time_windows T b)" "keeps f (gnss_set_dynamics_mode T d)" "keeps f (gnss_set_qzss_mask T r)"
    "keeps f (gnss_set_1pps_mode T pps)" "keeps f (gnss_set_timing_source T d)" "keeps f (gnss_set_agnss_data_enabled a1 a2 a3 a4 a5 a6 a7 a8 a9)"
    "keeps f (gnss_set_agnss_automatic b)" "keeps f (gnss_inject_agnss_data T)" "keeps f (gnss_enable_pgps T)"
  unfolding gnss_start_def gnss_stop_def gnss_delete_data_def gnss_delete_data_custom_def gnss_set_continuous_mode_def
    gnss_set_single_fix_mode_def gnss_set_periodic_fix_mode_def gnss_set_periodic_fix_mode_gnss_def gnss_set_system_mask_def
    gnss_set_duty_cycling_policy_def gnss_set_elevation_threshold_def gnss_set_agnss_filtered_ephemerides_def gnss_set_use_case_def
    gnss_set_nmea_mask_def gnss_set_nmea_talker_mode_def gnss_set_nmea_qzss_mode_def gnss_set_priority_time_windows_def
    gnss_set_dynamics_mode_def gnss_set_qzss_mask_def gnss_set_1pps_mode_def gnss_set_timing_source_def
    gnss_set_agnss_data_enabled_def gnss_set_agnss_automatic_def gnss_inject_agnss_data_def gnss_enable_pgps_def Let_def
  by (auto intro!: keeps_intros gnss_frame [OF calm_printable [OF assms]] calm_frame [OF assms] simp: calm_updates [OF assms])

lemma outcome_keeps [keeps_intros]: "keeps f p \<Longrightarrow> keeps f (outcome p)"
  unfolding outcome_def by (intro keeps_intros)

lemma calm_commands:
  assumes "calm f"
  shows
    "keeps f (cmd_gnss_start T)" "keeps f (cmd_gnss_stop T)" "keeps f (cmd_gnss_delete_ephe T)"
    "keeps f (cmd_gnss_delete_ekf T)" "keeps f (cmd_gnss_delete_all T)" "keeps f (cmd_gnss_delete_tcxo T)"
    "keeps f (cmd_gnss_mode_cont T)" "keeps f (cmd_gnss_dynamics_general T)" "keeps f (cmd_gnss_dynamics_stationary T)"
    "keeps f (cmd_gnss_dynamics_pedestrian T)" "keeps f (cmd_gnss_dynamics_automotive T)"
    "keeps f (cmd_gnss_config_nmea_talker_standard T)" "keeps f (cmd_gnss_config_nmea_talker_gp_only T)"
    "keeps f (cmd_gnss_config_nmea_qzss_standard T)" "keeps f (cmd_gnss_config_nmea_qzss_custom T)"
    "keeps f (cmd_gnss_config_powersave_off T)" "keeps f (cmd_gnss_config_powersave_perf T)"
    "keeps f (cmd_gnss_config_powersave_power T)" "keeps f (cmd_gnss_config_timing_rtc T)"
    "keeps f (cmd_gnss_config_timing_tcxo T)" "keeps f (cmd_gnss_priority_enable T)" "keeps f (cmd_gnss_priority_disable T)"
    "keeps f cmd_gnss_agnss_automatic_enable" "keeps f cmd_gnss_agnss_automatic_disable"
    "keeps f (cmd_gnss_agnss_filtered_enable T)" "keeps f (cmd_gnss_agnss_filtered_disable T)"
    "keeps f (cmd_gnss_agnss_expiry T)" "keeps f (cmd_gnss_pgps_enable T)" "keeps f (cmd_gnss_delete_mask T argv)"
    "keeps f (cmd_gnss_mode_single T argv)" "keeps f (cmd_gnss_mode_periodic T argv)"
    "keeps f (cmd_gnss_mode_periodic_gnss T argv)" "keeps f (cmd_gnss_config_system T argv)"
    "keeps f (cmd_gnss_config_elevation T argv)" "keeps f (cmd_gnss_config_use_case T argv)"
    "keeps f (cmd_gnss_config_nmea_mask T argv)" "keeps f (cmd_gnss_config_qzss_mask T argv)"
    "keeps f (cmd_gnss_agnss_ref_altitude T argv)" "keeps f (cmd_gnss_agnss_filter T argv)"
    "keeps f (cmd_gnss_1pps_enable T argv)" "keeps f (cmd_gnss_1pps_enable_at T argv)" "keeps f (cmd_gnss_1pps_disable T)"
  unfolding cmd_gnss_start_def cmd_gnss_stop_def cmd_gnss_delete_ephe_def cmd_gnss_delete_ekf_def cmd_gnss_delete_all_def
    cmd_gnss_delete_tcxo_def cmd_gnss_mode_cont_def cmd_gnss_dynamics_general_def cmd_gnss_dynamics_stationary_def
    cmd_gnss_dynamics_pedestrian_def cmd_gnss_dynamics_automotive_def cmd_gnss_config_nmea_talker_standard_def
    cmd_gnss_config_nmea_talker_gp_only_def cmd_gnss_config_nmea_qzss_standard_def cmd_gnss_config_nmea_qzss_custom_def
    cmd_gnss_config_powersave_off_def cmd_gnss_config_powersave_perf_def cmd_gnss_config_powersave_power_def
    cmd_gnss_config_timing_rtc_def cmd_gnss_config_timing_tcxo_def cmd_gnss_priority_enable_def cmd_gnss_priority_disable_def
    cmd_gnss_agnss_automatic_enable_def cmd_gnss_agnss_automatic_disable_def cmd_gnss_agnss_filtered_enable_def
    cmd_gnss_agnss_filtered_disable_def cmd_gnss_agnss_expiry_def cmd_gnss_pgps_enable_def cmd_gnss_delete_mask_def
    cmd_gnss_mode_single_def cmd_gnss_mode_periodic_def cmd_gnss_mode_periodic_gnss_def cmd_gnss_config_system_def
    cmd_gnss_config_elevation_def cmd_gnss_config_use_case_def cmd_gnss_config_nmea_mask_def cmd_gnss_config_qzss_mask_def
    cmd_gnss_agnss_ref_altitude_def cmd_gnss_agnss_filter_def cmd_gnss_1pps_enable_def cmd_gnss_1pps_enable_at_def
    cmd_gnss_1pps_disable_def
    pulse_args_def Let_def
  by (auto intro!: keeps_intros gnss_frame [OF calm_printable [OF assms]] calm_frame [OF assms] split: option.split prod.split)

text \<open>The commands that are no settings: \<open>agnss inject\<close> may allocate, \<open>output\<close> sets the levels.\<close>

lemma calm_tables:
  assumes "calm f"
  shows "\<forall>x \<in> set (gnss_delete_cmds T). keeps f (snd (snd x) argv)" "\<forall>x \<in> set (gnss_mode_cmds T). keeps f (snd (snd x) argv)"
    "\<forall>x \<in> set (gnss_dynamics_cmds T). keeps f (snd (snd x) argv)" "\<forall>x \<in> set (gnss_config_cmds T). keeps f (snd (snd x) argv)"
    "\<forall>x \<in> set (gnss_1pps_cmds T). keeps f (snd (snd x) argv)"
    "\<forall>x \<in> set (gnss_agnss_cmds T). fst x \<noteq> [''agnss'', ''inject''] \<longrightarrow> keeps f (snd (snd x) argv)"
  unfolding gnss_delete_cmds_def gnss_mode_cmds_def gnss_dynamics_cmds_def gnss_config_cmds_def gnss_agnss_cmds_def gnss_1pps_cmds_def
  by (simp_all add: calm_commands [OF assms])

lemma calm_table:
  assumes "calm f"
  shows "\<forall>x \<in> set (gnss_cmds T). fst x \<noteq> [''agnss'', ''inject''] \<longrightarrow> fst x \<noteq> [''output''] \<longrightarrow> keeps f (snd (snd x) argv)"
  unfolding gnss_cmds_def set_append ball_Un using calm_tables [OF assms, where T = T and argv = argv]
  by (simp add: calm_commands [OF assms])

text \<open>A line runs the handler of its command, or only prints.\<close>

lemma gnss_line_cases:
  fixes s :: "('w, 'z) gnss_scheme"
  obtains n h where "(path, n, h) \<in> set (gnss_cmds T)" "exec_state (gnss_command T path argv) s = exec_state (h argv) s"
  | "queue_view (exec_state (gnss_command T path argv) s) = queue_view s"
    "search_view (exec_state (gnss_command T path argv) s) = search_view s"
    "level_view (exec_state (gnss_command T path argv) s) = level_view s"
proof (cases "map_of (gnss_cmds T :: (string list \<times> (nat \<times> nat) option \<times> ('w, 'z) gnss_cmd) list) path")
  case None
  then show thesis
    by (intro that(2)) (simp_all add: gnss_command_def keepsD [OF printing_frame(13)])
next
  case (Some nh)
  obtain n h where nh: "nh = (n, h)" by (cases nh)
  have m: "(path, n, h) \<in> set (gnss_cmds T)" using Some nh by (auto dest: map_of_SomeD)
  show thesis
  proof (cases "case n of None \<Rightarrow> True | Some (a, b) \<Rightarrow> a \<le> length argv \<and> length argv \<le> a + b")
    case True
    then have "(gnss_command T path argv :: ('w, 'z, int) gnss_prog) = h argv" using Some nh by (auto simp: gnss_command_def split: option.splits)
    then show thesis using that(1) [OF m] by simp
  next
    case False
    then have "(gnss_command T path argv :: ('w, 'z, int) gnss_prog) = do { shell_help; return (- EINVAL) }"
      using Some nh by (auto simp: gnss_command_def split: option.splits)
    then show thesis by (intro that(2)) (simp_all add: exec_simps keepsD [OF printable_frame(5)])
  qed
qed

subsection \<open>The queue of events\<close>

fun pointers :: "event_item list \<Rightarrow> nat list" where
  "pointers [] = []"
| "pointers (e # es) = (case ev_data e of None \<Rightarrow> pointers es | Some a \<Rightarrow> a # pointers es)"

lemma pointers_append [simp]: "pointers (es @ fs) = pointers es @ pointers fs"
  by (induction es) (auto split: option.split)

lemma pointers_mem: "e \<in> set q \<Longrightarrow> ev_data e = Some a \<Longrightarrow> a \<in> set (pointers q)"
  by (induction q) (auto split: option.split)

text \<open>An event whose data is in a block of the right kind, or that has no data.\<close>

definition event_ok :: "('w, 'y) gnss_api_scheme \<Rightarrow> (nat \<Rightarrow> event_data option) \<Rightarrow> event_item \<Rightarrow> bool" where
  "event_ok T bl e \<longleftrightarrow>
     (if ev_id e = gnss_num T ''NRF_MODEM_GNSS_EVT_PVT'' then \<exists>a p. ev_data e = Some a \<and> bl a = Some (Pvt p)
      else if ev_id e = gnss_num T ''NRF_MODEM_GNSS_EVT_FIX'' then ev_data e = None
      else if ev_id e = gnss_num T ''NRF_MODEM_GNSS_EVT_NMEA'' then \<exists>a n. ev_data e = Some a \<and> bl a = Some (Nmea n)
      else if ev_id e = gnss_num T ''NRF_MODEM_GNSS_EVT_AGNSS_REQ'' then \<exists>a f. ev_data e = Some a \<and> bl a = Some (Agnss f)
      else ev_data e = None)"

text \<open>
  The invariant: the blocks allocated are those of the queue, each in it once, with the data its event
  is expected to have; the queue has at most 30 events, and no access was wrong.
\<close>

definition queue_ok :: "('w, 'y) gnss_api_scheme \<Rightarrow> event_item list \<times> (nat \<Rightarrow> event_data option) \<times> nat \<times> bool \<Rightarrow> bool" where
  "queue_ok T v = (case v of (q, bl, n, bad) \<Rightarrow>
     (\<forall>e \<in> set q. event_ok T bl e) \<and> distinct (pointers q) \<and> dom bl = set (pointers q) \<and> (\<forall>a \<in> dom bl. a < n) \<and>
     length q \<le> MSGQ_LEN \<and> \<not> bad)"

text \<open>What is in the queue: the events with their data.\<close>

definition contents :: "(nat \<Rightarrow> event_data option) \<Rightarrow> event_item \<Rightarrow> int \<times> event_data" where
  "contents bl e = (ev_id e, case ev_data e of None \<Rightarrow> Uninit | Some a \<Rightarrow> the (bl a))"

definition pending :: "('w, 'z) gnss_scheme \<Rightarrow> (int \<times> event_data) list" where
  "pending s = map (contents (blocks s)) (gnss_event_msgq s)"

lemma pending_view: "queue_view s = queue_view t \<Longrightarrow> pending s = pending t"
  by (simp add: queue_view_def pending_def)

lemma event_ok_block: "event_ok T bl e \<Longrightarrow> ev_data e = Some a \<Longrightarrow> a \<in> dom bl"
  by (auto simp: event_ok_def split: if_splits)

lemma event_ok_other:
  assumes "event_ok T bl e" "ev_data e \<noteq> Some a"
  shows "event_ok T (bl(a := d)) e" "contents (bl(a := d)) e = contents bl e"
  using assms by (auto simp: event_ok_def contents_def split: if_splits option.split)

text \<open>The data of an event, when there is memory and the modem has it.\<close>

definition fetch :: "('w, 'y) gnss_api_scheme \<Rightarrow> ('w \<Rightarrow> (int \<times> event_data) \<times> 'w) \<Rightarrow> 'w \<Rightarrow> event_data option" where
  "fetch T rd w = (case k_malloc_ok T w of (ok, w') \<Rightarrow>
     if ok \<and> fst (fst (rd w')) = 0 then Some (snd (fst (rd w'))) else None)"

definition reported :: "('w, 'y) gnss_api_scheme \<Rightarrow> int \<Rightarrow> 'w \<Rightarrow> event_data option" where
  "reported T e w =
     (if e = gnss_num T ''NRF_MODEM_GNSS_EVT_PVT'' then fetch T (typed Pvt (read_pvt T)) w
      else if e = gnss_num T ''NRF_MODEM_GNSS_EVT_FIX'' then Some Uninit
      else if e = gnss_num T ''NRF_MODEM_GNSS_EVT_NMEA'' then fetch T (typed Nmea (read_nmea T)) w
      else if e = gnss_num T ''NRF_MODEM_GNSS_EVT_AGNSS_REQ'' then fetch T (typed Agnss (read_agnss T)) w
      else Some Uninit)"

lemma new_block_run [exec_simps]:
  "exec_state new_block s = s\<lparr>blocks := (blocks s)(next_event_block s \<mapsto> Uninit), next_event_block := Suc (next_event_block s)\<rparr>"
  "result new_block s = next_event_block s"
  by (simp_all add: new_block_def exec_simps)

lemma k_free_view:
  "queue_view (exec_state (k_free p) s) = (gnss_event_msgq s, (case p of None \<Rightarrow> blocks s | Some a \<Rightarrow> (blocks s)(a := None)),
     next_event_block s, data_fault s \<or> (\<exists>a. p = Some a \<and> blocks s a = None))"
  by (cases p) (auto simp: k_free_def gnss_fault_def exec_simps queue_view_def fun_upd_idem)

lemma print_view [simp]:
  "queue_view (exec_state (mosh_warn P m as) s) = queue_view s" "queue_view (exec_state (to_console x) s) = queue_view s"
  by (rule keepsD, rule printable_frame, simp)+

lemma console_fields [simp]:
  "gnss_event_msgq (exec_state (to_console x) s) = gnss_event_msgq s" "blocks (exec_state (to_console x) s) = blocks s"
  "next_event_block (exec_state (to_console x) s) = next_event_block s" "data_fault (exec_state (to_console x) s) = data_fault s"
  by (simp_all add: to_console_def exec_simps)

lemma get_event_data_run:
  assumes "blocks s (next_event_block s) = None"
  shows "result (get_event_data T typ rd) s =
      (case fetch T rd (world s) of None \<Rightarrow> (- 1, None) | Some d \<Rightarrow> (0, Some (next_event_block s)))"
    "\<exists>n \<ge> next_event_block s. (fetch T rd (world s) \<noteq> None \<longrightarrow> next_event_block s < n) \<and>
      queue_view (exec_state (get_event_data T typ rd) s) = (gnss_event_msgq s,
        (case fetch T rd (world s) of None \<Rightarrow> blocks s | Some d \<Rightarrow> (blocks s)(next_event_block s \<mapsto> d)), n, data_fault s)"
  using assms
  by (auto simp: get_event_data_def fetch_def exec_simps k_free_view put_block_def fun_upd_idem split: prod.splits)
    (auto simp: queue_view_def fun_upd_idem)

text \<open>What the handler does before it puts the event: at most one new block, with the data.\<close>

definition with_data :: "('w, 'y) gnss_api_scheme \<Rightarrow> int \<Rightarrow> bool" where
  "with_data T e \<longleftrightarrow> e \<noteq> gnss_num T ''NRF_MODEM_GNSS_EVT_FIX'' \<and> e \<in> {gnss_num T ''NRF_MODEM_GNSS_EVT_NMEA'', gnss_num T ''NRF_MODEM_GNSS_EVT_AGNSS_REQ''} \<or>
     e = gnss_num T ''NRF_MODEM_GNSS_EVT_PVT''"

lemma event_with_data_run:
  assumes "blocks s (next_event_block s) = None"
  shows "result (event_with_data T e) s = (case reported T e (world s) of None \<Rightarrow> (- 1, None)
      | Some d \<Rightarrow> (0, if with_data T e then Some (next_event_block s) else None))"
    "\<exists>n \<ge> next_event_block s. (with_data T e \<and> reported T e (world s) \<noteq> None \<longrightarrow> next_event_block s < n) \<and>
      queue_view (exec_state (event_with_data T e) s) = (gnss_event_msgq s,
        (if with_data T e then case reported T e (world s) of None \<Rightarrow> blocks s | Some d \<Rightarrow> (blocks s)(next_event_block s \<mapsto> d)
         else blocks s), n, data_fault s)"
proof -
  note g = get_event_data_run [OF assms]
  show "result (event_with_data T e) s = (case reported T e (world s) of None \<Rightarrow> (- 1, None)
      | Some d \<Rightarrow> (0, if with_data T e then Some (next_event_block s) else None))"
    by (auto simp: event_with_data_def reported_def with_data_def g(1) exec_simps split: option.split)
  show "\<exists>n \<ge> next_event_block s. (with_data T e \<and> reported T e (world s) \<noteq> None \<longrightarrow> next_event_block s < n) \<and>
      queue_view (exec_state (event_with_data T e) s) = (gnss_event_msgq s,
        (if with_data T e then case reported T e (world s) of None \<Rightarrow> blocks s | Some d \<Rightarrow> (blocks s)(next_event_block s \<mapsto> d)
         else blocks s), n, data_fault s)"
    using g(2) by (auto simp: event_with_data_def reported_def with_data_def exec_simps queue_view_def)
qed

lemma reported_ok:
  assumes "reported T e w = Some d"
  shows "event_ok T (bl(a \<mapsto> d)) \<lparr>ev_id = e, ev_data = (if with_data T e then Some a else None)\<rparr>"
    "\<not> with_data T e \<Longrightarrow> d = Uninit" "\<not> with_data T e \<Longrightarrow> event_ok T bl \<lparr>ev_id = e, ev_data = None\<rparr>"
  using assms by (auto simp: reported_def event_ok_def with_data_def fetch_def typed_def split: if_splits prod.splits)

text \<open>Putting an event whose block, if it has one, is new.\<close>

lemma put_event_run:
  fixes s :: "('w, 'z) gnss_scheme"
  assumes "length (gnss_event_msgq s) < MSGQ_LEN"
  shows "exec_state (put_event T e) s = s\<lparr>gnss_event_msgq := gnss_event_msgq s @ [e]\<rparr>"
  using assms by (simp add: put_event_def exec_simps)

lemma put_event_full:
  fixes s :: "('w, 'z) gnss_scheme"
  assumes "\<not> length (gnss_event_msgq s) < MSGQ_LEN"
  shows "queue_view (exec_state (put_event T e) s) =
    (gnss_event_msgq s, (case ev_data e of None \<Rightarrow> blocks s | Some a \<Rightarrow> (blocks s)(a := None)), next_event_block s,
     data_fault s \<or> (\<exists>a. ev_data e = Some a \<and> blocks s a = None))"
proof -
  let ?t = "exec_state (mosh_warn T ''GNSS: Event msgq full'' []) s"
  have "queue_view ?t = queue_view s" by simp
  then have "gnss_event_msgq ?t = gnss_event_msgq s" "blocks ?t = blocks s" "next_event_block ?t = next_event_block s"
    "data_fault ?t = data_fault s" by (simp_all add: queue_view_def)
  then show ?thesis using assms by (simp add: put_event_def exec_simps k_free_view split: option.split)
qed

lemma queue_okD:
  assumes "queue_ok T (queue_view s)"
  shows "\<forall>e \<in> set (gnss_event_msgq s). event_ok T (blocks s) e" "distinct (pointers (gnss_event_msgq s))"
    "dom (blocks s) = set (pointers (gnss_event_msgq s))" "\<forall>a \<in> dom (blocks s). a < next_event_block s"
    "length (gnss_event_msgq s) \<le> MSGQ_LEN" "\<not> data_fault s" "blocks s (next_event_block s) = None"
  using assms by (auto simp: queue_ok_def queue_view_def)

text \<open>A new block leaves the events of the queue as they are.\<close>

lemma queue_new_block:
  assumes ok: "queue_ok T (q, bl, n, bad)" and m: "n < m"
  shows "e \<in> set q \<Longrightarrow> event_ok T (bl(n := d)) e" "map (contents (bl(n := d))) q = map (contents bl) q"
proof -
  have *: "ev_data e \<noteq> Some n" "event_ok T bl e" if "e \<in> set q" for e
    using ok that pointers_mem [of e q n] by (auto simp: queue_ok_def)
  show "e \<in> set q \<Longrightarrow> event_ok T (bl(n := d)) e" using * event_ok_other(1) by blast
  show "map (contents (bl(n := d))) q = map (contents bl) q" using * event_ok_other(2) by (intro map_cong refl) blast
qed

lemma queue_snoc:
  assumes ok: "queue_ok T (q, bl, n, bad)" and len: "length q < MSGQ_LEN"
  shows "n < m \<Longrightarrow> event_ok T (bl(n \<mapsto> d)) \<lparr>ev_id = e, ev_data = Some n\<rparr> \<Longrightarrow>
      queue_ok T (q @ [\<lparr>ev_id = e, ev_data = Some n\<rparr>], bl(n \<mapsto> d), m, bad)"
    "n \<le> m \<Longrightarrow> event_ok T bl \<lparr>ev_id = e, ev_data = None\<rparr> \<Longrightarrow> queue_ok T (q @ [\<lparr>ev_id = e, ev_data = None\<rparr>], bl, m, bad)"
proof -
  have n: "n \<notin> set (pointers q)" "\<forall>a \<in> set (pointers q). a < n" using ok by (auto simp: queue_ok_def)
  show "queue_ok T (q @ [\<lparr>ev_id = e, ev_data = Some n\<rparr>], bl(n \<mapsto> d), m, bad)"
    if "n < m" "event_ok T (bl(n \<mapsto> d)) \<lparr>ev_id = e, ev_data = Some n\<rparr>"
    using ok n that len queue_new_block(1) [OF ok that(1)] unfolding queue_ok_def prod.case
    by (auto simp del: fun_upd_apply) fastforce+
  show "queue_ok T (q @ [\<lparr>ev_id = e, ev_data = None\<rparr>], bl, m, bad)" if "n \<le> m" "event_ok T bl \<lparr>ev_id = e, ev_data = None\<rparr>"
    using ok n that(2) len order.strict_trans2 [OF _ that(1)] unfolding queue_ok_def prod.case by auto
qed

lemma queue_grow: "queue_ok T (q, bl, n, bad) \<Longrightarrow> n \<le> m \<Longrightarrow> queue_ok T (q, bl, m, bad)"
  using order.strict_trans2 [of _ n m] unfolding queue_ok_def prod.case by blast

text \<open>The queue as the events come and go: a first-in, first-out queue of 30 events with their data.\<close>

definition fifo_put :: "event_data option \<Rightarrow> int \<Rightarrow> (int \<times> event_data) list \<Rightarrow> (int \<times> event_data) list" where
  "fifo_put r e es = (case r of None \<Rightarrow> es | Some d \<Rightarrow> if length es < MSGQ_LEN then es @ [(e, d)] else es)"

lemma handler_run:
  fixes s :: "('w, 'z) gnss_scheme"
  assumes ok: "queue_ok T (queue_view s)" and e: "0 \<le> e" "e < 256"
  shows "queue_ok T (queue_view (exec_state (gnss_event_handler T e) s)) \<and>
    pending (exec_state (gnss_event_handler T e) s) = fifo_put (reported T e (world s)) e (pending s)"
proof -
  define t where "t = exec_state (event_with_data T e) s"
  note d = queue_okD [OF ok]
  note r = event_with_data_run(1) [OF d(7), of T e]
  obtain m where m: "next_event_block s \<le> m" "with_data T e \<and> reported T e (world s) \<noteq> None \<longrightarrow> next_event_block s < m"
    and v: "queue_view t = (gnss_event_msgq s,
        (if with_data T e then case reported T e (world s) of None \<Rightarrow> blocks s | Some d \<Rightarrow> (blocks s)(next_event_block s \<mapsto> d)
         else blocks s), m, data_fault s)"
    using event_with_data_run(2) [OF d(7), of T e] unfolding t_def by blast
  have ok': "queue_ok T (gnss_event_msgq s, blocks s, next_event_block s, data_fault s)" using ok by (simp add: queue_view_def)
  have mod: "e mod 256 = e" using e by simp
  show ?thesis
  proof (cases "reported T e (world s)")
    case None
    then have h: "exec_state (gnss_event_handler T e) s = t" using r by (simp add: gnss_event_handler_def exec_simps t_def)
    show ?thesis using queue_grow [OF ok' m(1)] v None unfolding h by (auto simp: fifo_put_def pending_def queue_view_def)
  next
    case (Some x)
    define ev where "ev = \<lparr>ev_id = e, ev_data = (if with_data T e then Some (next_event_block s) else None)\<rparr>"
    have h: "exec_state (gnss_event_handler T e) s = exec_state (put_event T ev) t"
      using r Some mod by (simp add: gnss_event_handler_def exec_simps t_def ev_def)
    have t: "gnss_event_msgq t = gnss_event_msgq s" "data_fault t = data_fault s" "next_event_block t = m"
      "blocks t = (if with_data T e then (blocks s)(next_event_block s \<mapsto> x) else blocks s)"
      using v Some by (simp_all add: queue_view_def)
    show ?thesis
    proof (cases "length (gnss_event_msgq s) < MSGQ_LEN")
      case True
      have "queue_ok T (gnss_event_msgq s @ [ev], blocks t, m, data_fault s)"
        using queue_snoc [OF ok' True] m Some reported_ok [OF Some] by (auto simp: t ev_def)
      moreover have "map (contents (blocks t)) (gnss_event_msgq s) = pending s"
        using queue_new_block(2) [OF ok'] m Some by (auto simp: t pending_def)
      moreover have "contents (blocks t) ev = (e, x)" using reported_ok(2) [OF Some] by (auto simp: contents_def ev_def t)
      ultimately show ?thesis
        using True unfolding h by (simp add: put_event_run t queue_view_def pending_def fifo_put_def Some)
    next
      case False
      then have w: "queue_view (exec_state (put_event T ev) t) = (gnss_event_msgq s, blocks s, m, data_fault s)"
        using put_event_full [of t T ev] d(7) by (auto simp: t ev_def fun_upd_idem)
      then show ?thesis
        using queue_grow [OF ok' m(1)] False unfolding h
        by (auto simp: queue_view_def pending_def fifo_put_def Some)
    qed
  qed
qed

lemma handle_event_view:
  fixes s :: "('w, 'z) gnss_scheme"
  assumes "event_ok T (blocks s) e"
  shows "queue_view (exec_state (handle_event T e) s) = queue_view s"
proof -
  note k = keepsD [OF printing_frame(1) [OF printable_views(1)]] keepsD [OF printing_frame(2) [OF printable_views(1)]]
    keepsD [OF printing_frame(3) [OF printable_views(1)]] keepsD [OF calm_api(5) [OF calm_views(1)]]
  let ?pvt = "ev_id e = gnss_num T ''NRF_MODEM_GNSS_EVT_PVT''" and ?fix = "ev_id e = gnss_num T ''NRF_MODEM_GNSS_EVT_FIX''"
  let ?nmea = "ev_id e = gnss_num T ''NRF_MODEM_GNSS_EVT_NMEA''" and ?agnss = "ev_id e = gnss_num T ''NRF_MODEM_GNSS_EVT_AGNSS_REQ''"
  consider (pvt) ?pvt | (is_fix) "\<not> ?pvt" ?fix | (nmea) "\<not> ?pvt" "\<not> ?fix" ?nmea | (agnss) "\<not> ?pvt" "\<not> ?fix" "\<not> ?nmea" ?agnss
    | (other) "\<not> ?pvt" "\<not> ?fix" "\<not> ?nmea" "\<not> ?agnss" by blast
  then show ?thesis
  proof cases
    case pvt
    then obtain a p where "ev_data e = Some a" "blocks s a = Some (Pvt p)" using assms unfolding event_ok_def by auto
    with pvt show ?thesis unfolding handle_event_def by (simp add: exec_simps deref_def k)
  next
    case is_fix
    then show ?thesis unfolding handle_event_def by (simp add: k)
  next
    case nmea
    then obtain a n where "ev_data e = Some a" "blocks s a = Some (Nmea n)" using assms unfolding event_ok_def by auto
    with nmea show ?thesis unfolding handle_event_def by (simp add: exec_simps deref_def k)
  next
    case agnss
    then obtain a f where "ev_data e = Some a" "blocks s a = Some (Agnss f)" using assms unfolding event_ok_def by auto
    with agnss show ?thesis unfolding handle_event_def by (simp add: exec_simps deref_def k)
  next
    case other
    have "keeps queue_view (handle_event T e)"
      unfolding handle_event_def if_not_P [OF other(1)] if_not_P [OF other(2)] if_not_P [OF other(3)] if_not_P [OF other(4)]
      by (intro keeps_intros gnss_frame printable_views)
    then show ?thesis by (rule keepsD)
  qed
qed

lemma handler_turn_run:
  fixes s :: "('w, 'z) gnss_scheme"
  assumes ok: "queue_ok T (queue_view s)"
  shows "queue_ok T (queue_view (exec_state (data_handler_turn T) s)) \<and> pending (exec_state (data_handler_turn T) s) = tl (pending s)"
proof (cases "gnss_event_msgq s")
  case Nil
  then show ?thesis using ok by (simp add: data_handler_turn_def exec_simps pending_def)
next
  case (Cons e es)
  define t where "t = exec_state (handle_event T e) (s\<lparr>gnss_event_msgq := es\<rparr>)"
  note d = queue_okD [OF ok, unfolded Cons]
  have "queue_view t = (es, blocks s, next_event_block s, data_fault s)"
    using handle_event_view [of T "s\<lparr>gnss_event_msgq := es\<rparr>" e] d(1) by (simp add: t_def queue_view_def)
  then have t: "gnss_event_msgq t = es" "blocks t = blocks s" "next_event_block t = next_event_block s" "data_fault t = data_fault s"
    by (simp_all add: queue_view_def)
  have x: "exec_state (data_handler_turn T) s = exec_state (k_free (ev_data e)) t"
    using Cons by (simp add: data_handler_turn_def exec_simps t_def)
  show ?thesis
  proof (cases "ev_data e")
    case None
    then show ?thesis
      using ok d(2,3) unfolding x by (simp add: k_free_view t k_free_def exec_simps queue_ok_def queue_view_def pending_def Cons)
  next
    case (Some a)
    have a: "blocks s a \<noteq> None" "a \<notin> set (pointers es)" using d(2,3) Some by auto
    have other: "ev_data f \<noteq> Some a" if "f \<in> set es" for f using pointers_mem [OF that] a(2) by auto
    have "blocks (exec_state (k_free (Some a)) t) = (blocks s)(a := None)" "gnss_event_msgq (exec_state (k_free (Some a)) t) = es"
      using k_free_view [of "Some a" t] by (simp_all add: queue_view_def t)
    moreover have "map (contents ((blocks s)(a := None))) es = map (contents (blocks s)) es"
      using d(1) other by (intro map_cong refl event_ok_other(2) [of T]) simp_all
    ultimately have "pending (exec_state (k_free (Some a)) t) = tl (pending s)" by (simp add: pending_def Cons)
    moreover have "queue_ok T (es, (blocks s)(a := None), next_event_block s, False)"
      using d a Some event_ok_other(1) [OF _ other, where T = T and d = None] unfolding queue_ok_def prod.case by auto
    moreover obtain y where "blocks s a = Some y" using a(1) by blast
    ultimately show ?thesis using d(6) Some unfolding x by (simp add: k_free_view t)
  qed
qed

lemma inject_line_view:
  fixes s :: "('w, 'z) gnss_scheme"
  assumes "blocks s (next_event_block s) = None"
  shows "\<exists>n \<ge> next_event_block s. queue_view (exec_state (inject_line T txt) s) = (gnss_event_msgq s, blocks s, n, data_fault s)"
proof -
  let ?ok = "k_malloc_ok T (world s)"
  let ?bin = "hex2bin T txt (inject_max_length T)"
  define s1 where "s1 = s\<lparr>world := snd ?ok\<rparr>"
  define s2 where "s2 = s1\<lparr>blocks := (blocks s)(next_event_block s \<mapsto> Uninit), next_event_block := Suc (next_event_block s)\<rparr>"
  define p :: "('w, 'z, int) gnss_prog" where "p =
     (if ?bin \<noteq> [] then do {
        mosh_print T ''Injecting %d bytes'' [PInt (int (length ?bin))];
        err \<leftarrow> call (agnss_process T ?bin);
        return (if err \<noteq> 0 then - EINVAL else 0)
      } else do {
        mosh_error T ''Assistance data not in valid hexadecimal format'' [];
        return (- EINVAL)
      })"
  note frame = printable_frame [OF printable_views(1)]
  have "queue_view (exec_state p s2) = queue_view s2"
    unfolding p_def by (intro keepsD keeps_intros frame)
  then have t: "gnss_event_msgq (exec_state p s2) = gnss_event_msgq s" "next_event_block (exec_state p s2) = Suc (next_event_block s)"
    "blocks (exec_state p s2) = (blocks s)(next_event_block s \<mapsto> Uninit)" "data_fault (exec_state p s2) = data_fault s"
    by (simp_all add: queue_view_def s2_def s1_def)
  consider "\<not> length txt \<le> inject_max_length T" | "length txt \<le> inject_max_length T" "\<not> fst ?ok"
    | "length txt \<le> inject_max_length T" "fst ?ok" by blast
  then show ?thesis
  proof cases
    case 1
    then show ?thesis by (simp add: inject_line_def exec_simps keepsD [OF frame(3)]) (simp add: queue_view_def)
  next
    case 2
    then show ?thesis by (simp add: inject_line_def exec_simps keepsD [OF frame(3)]) (simp add: queue_view_def)
  next
    case 3
    have "exec_state (inject_line T txt) s = exec_state (k_free (Some (next_event_block s))) (exec_state p s2)"
      using 3 by (simp add: inject_line_def exec_bind result_bind exec_return result_return exec_world new_block_run p_def s2_def s1_def
        Let_def)
    then have "queue_view (exec_state (inject_line T txt) s) = (gnss_event_msgq s, blocks s, Suc (next_event_block s), data_fault s)"
      using assms by (simp add: k_free_view t fun_upd_idem)
    then show ?thesis by (intro exI [of _ "Suc (next_event_block s)"]) simp
  qed
qed

lemma output_view: "keeps queue_view (cmd_gnss_output T argv)"
  unfolding cmd_gnss_output_def gnss_set_pvt_output_level_def gnss_set_nmea_output_level_def gnss_set_event_output_level_def
  by (intro keeps_intros gnss_frame) (simp_all add: queue_view_def)

text \<open>What a step does to the queue: it is the specification of the queue, and the invariant is kept.\<close>

definition fifo_step :: "('w, 'y) gnss_api_scheme \<Rightarrow> 'w \<Rightarrow> gnss_input \<Rightarrow> (int \<times> event_data) list \<Rightarrow> (int \<times> event_data) list" where
  "fifo_step T w x es = (case x of
     Modem_event e \<Rightarrow> fifo_put (reported T (uint e) w) (uint e) es
   | Handler_turn \<Rightarrow> tl es
   | _ \<Rightarrow> es)"

lemma queue_same:
  assumes "queue_ok T (queue_view s)" "queue_view t = queue_view s"
  shows "queue_ok T (queue_view t) \<and> pending t = pending s"
  using assms pending_view [OF assms(2)] by simp

lemma queue_work:
  fixes s :: "('w, 'z) gnss_scheme"
  assumes "queue_ok T (queue_view s)" "keeps queue_view p" "queue_view u = queue_view s"
  shows "queue_ok T (queue_view (exec_state p u)) \<and> pending (exec_state p u) = pending s"
  by (rule queue_same [OF assms(1)]) (simp add: keepsD [OF assms(2)] assms(3))

lemma inject_run:
  fixes s :: "('w, 'z) gnss_scheme"
  assumes ok: "queue_ok T (queue_view s)"
  shows "queue_ok T (queue_view (exec_state (cmd_gnss_agnss_inject T argv) s)) \<and> pending (exec_state (cmd_gnss_agnss_inject T argv) s) = pending s"
proof (cases "length argv = 2")
  case True
  obtain n where n: "next_event_block s \<le> n"
    "queue_view (exec_state (inject_line T (argv ! 1)) s) = (gnss_event_msgq s, blocks s, n, data_fault s)"
    using inject_line_view [OF queue_okD(7) [OF ok]] by blast
  have "queue_ok T (gnss_event_msgq s, blocks s, next_event_block s, data_fault s)" using ok by (simp add: queue_view_def)
  from queue_grow [OF this n(1)] show ?thesis
    using n(2) True by (simp add: cmd_gnss_agnss_inject_def pending_def) (simp add: queue_view_def)
next
  case False
  have "keeps queue_view (cmd_gnss_agnss_inject T argv)"
    using False unfolding cmd_gnss_agnss_inject_def by (auto intro!: keeps_intros calm_frame)
  then show ?thesis by (intro queue_work [OF ok]) simp_all
qed

lemma line_run:
  fixes s :: "('w, 'z) gnss_scheme"
  assumes ok: "queue_ok T (queue_view s)"
  shows "queue_ok T (queue_view (exec_state (gnss_command T path argv) s)) \<and> pending (exec_state (gnss_command T path argv) s) = pending s"
proof (cases rule: gnss_line_cases [where path = path and T = T and argv = argv and s = s])
  case (1 n h)
  have inject: "h argv = cmd_gnss_agnss_inject T argv" if "path = [''agnss'', ''inject'']"
    using 1(1) that by (auto simp: gnss_cmds_def gnss_delete_cmds_def gnss_mode_cmds_def gnss_dynamics_cmds_def gnss_config_cmds_def
      gnss_agnss_cmds_def gnss_1pps_cmds_def)
  have out: "h argv = cmd_gnss_output T argv" if "path = [''output'']"
    using 1(1) that by (auto simp: gnss_cmds_def gnss_delete_cmds_def gnss_mode_cmds_def gnss_dynamics_cmds_def gnss_config_cmds_def
      gnss_agnss_cmds_def gnss_1pps_cmds_def)
  show ?thesis
  proof (cases "path = [''agnss'', ''inject'']")
    case True
    then show ?thesis using inject_run [OF ok] 1(2) inject by simp
  next
    case False
    have "keeps queue_view (h argv)"
      using calm_table [OF calm_views(1), of T argv] 1(1) False out output_view by (cases "path = [''output'']") auto
    then show ?thesis unfolding 1(2) by (rule queue_work [OF ok]) simp
  qed
next
  case 2
  show ?thesis using queue_same [OF ok 2(1)] .
qed

lemma queue_step:
  fixes s :: "('w, 'z) gnss_scheme"
  assumes ok: "queue_ok T (queue_view s)"
  shows "queue_ok T (queue_view (gnss_step T s x)) \<and> pending (gnss_step T s x) = fifo_step T (world s) x (pending s)"
proof -
  note w = works_frame [OF printable_views(1)] calm_api(4) [OF calm_views(1)] calm_api(6) [OF calm_views(1)]
  show ?thesis
  proof (cases x)
    case (Modem_event e)
    have "uint e < 256" using uint_lt2p [of e] by simp
    then show ?thesis using handler_run [OF ok, of "uint e"] Modem_event by (simp add: gnss_step_def fifo_step_def)
  next
    case (Gnss_line path argv)
    then show ?thesis using line_run [OF ok] by (simp add: gnss_step_def fifo_step_def)
  next
    case Handler_turn
    then show ?thesis using handler_turn_run [OF ok] by (simp add: gnss_step_def fifo_step_def)
  next
    case (Pgps_event e)
    then show ?thesis using queue_work [OF ok w(8) refl] by (simp add: gnss_step_def fifo_step_def)
  qed (auto simp: gnss_step_def fifo_step_def ok intro!: queue_work [OF ok, THEN conjunct1] queue_work [OF ok, THEN conjunct2] w,
      simp_all add: queue_view_def)
qed

interpretation gnss_queue: machine "gnss_step T" "\<lambda>s. queue_ok T (queue_view s)"
  by unfold_locales (use queue_step in blast)

lemma gnss_init_ok: "queue_ok T (queue_view (gnss_init need s))"
  by (simp add: gnss_init_def queue_ok_def queue_view_def MSGQ_LEN_def)

text \<open>
  C12: Whatever events, commands and work items come in whatever order, the blocks allocated for
  events are those of the queue, each in it once: none leaks, none is freed twice or used after it was
  freed, no event is handled with data of another kind, and the queue stays within its 30 places.
\<close>

theorem gnss_blocks_owned:
  fixes s :: "('w, 'z) gnss_scheme" and T :: "('w, 'y) gnss_shell_api_scheme" and need :: agnss_frame
  defines "t \<equiv> \<lambda>xs. foldl (gnss_step T) (gnss_init need s) xs"
  shows "\<not> data_fault (t xs) \<and> dom (blocks (t xs)) = set (pointers (gnss_event_msgq (t xs))) \<and>
    distinct (pointers (gnss_event_msgq (t xs))) \<and> length (gnss_event_msgq (t xs)) \<le> 30"
  using gnss_queue.run_inv [OF gnss_init_ok, of T need s xs] unfolding t_def by (auto simp: queue_ok_def queue_view_def MSGQ_LEN_def)

text \<open>
  C13: The queue of pointers implements a first-in, first-out queue of 30 events with their data: an
  event whose data can be read comes last unless the queue is full, the thread takes the first one,
  and nothing else touches it.
\<close>

theorem gnss_events_fifo:
  fixes s :: "('w, 'z) gnss_scheme" and T :: "('w, 'y) gnss_shell_api_scheme" and need :: agnss_frame
  defines "t \<equiv> \<lambda>xs. foldl (gnss_step T) (gnss_init need s) xs"
  shows "pending (gnss_step T (t xs) x) = fifo_step T (world (t xs)) x (pending (t xs))"
  using queue_step [OF gnss_queue.run_inv [OF gnss_init_ok]] unfolding t_def by blast

end
