(* ===== verification/Mosh_Gnss_Search.thy ===== *)
theory Mosh_Gnss_Search
  imports Mosh_Gnss_Queue
begin

section \<open>The periodic search of GNSS (\<open>gnss.c\<close>)\<close>

text \<open>
  In the periodic mode of the application a work item starts the search and schedules itself for the
  next one. Which inputs keep a condition on the mode and the scheduled start (\<open>search_run\<close>), and with
  it when the search goes on and when it ends.
\<close>

subsection \<open>Conditions on the search\<close>

text \<open>
  \<open>stays Q p\<close>: the operation keeps the condition \<open>Q\<close> on the mode, the start of the search that is
  scheduled and whether the API is initialised.
\<close>

type_synonym search_state = "gnss_operation_mode \<times> nat option \<times> bool"

definition stays :: "(search_state \<Rightarrow> bool) \<Rightarrow> ('w, 'z, 'a) gnss_prog \<Rightarrow> bool" where
  "stays Q p \<longleftrightarrow> (\<forall>s. Q (search_view s) \<longrightarrow> Q (search_view (exec_state p s)))"

named_theorems stays_intros \<open>rules for conditions on the search\<close>

lemma stays_keeps: "keeps search_view p \<Longrightarrow> stays Q p"
  by (simp add: stays_def keeps_def)

lemma stays_bind [stays_intros]: "stays Q p \<Longrightarrow> (\<And>x. stays Q (q x)) \<Longrightarrow> stays Q (State_Monad.bind p q)"
  by (simp add: stays_def exec_bind)

lemma stays_if [stays_intros]: "(b \<Longrightarrow> stays Q p) \<Longrightarrow> (\<not> b \<Longrightarrow> stays Q q) \<Longrightarrow> stays Q (if b then p else q)"
  by simp

lemma stays_doif [stays_intros]: "stays Q p \<Longrightarrow> stays Q (doif b p)"
  by (simp add: stays_def exec_simps)

lemma stays_leaf [stays_intros]: "stays Q (return x)" "stays Q (gets g)"
  by (simp_all add: stays_def exec_simps)

lemma stays_modify [stays_intros]: "(\<And>s. Q (search_view s) \<Longrightarrow> Q (search_view (g s))) \<Longrightarrow> stays Q (modify g)"
  by (simp add: stays_def exec_simps)

lemma stays_outcome [stays_intros]: "stays Q p \<Longrightarrow> stays Q (outcome p)"
  unfolding outcome_def by (intro stays_intros)

lemma stays_quiet [stays_intros]:
  "stays Q (mosh_print P fmt args)" "stays Q (mosh_warn P fmt args)" "stays Q (mosh_error P fmt args)" "stays Q shell_help"
  "stays Q (to_console x)" "stays Q (call g)" "stays Q (act h)" "stays Q (abort u)" "stays Q (print_lines P ls)"
  "stays Q (event_print T m)" "stays Q (print_pvt T p)" "stays Q (print_nmea T n)" "stays Q (modem_set T a v m)"
  "stays Q (modem_stop T)" "stays Q (serving_cell_info_get T)" "stays Q (get_filtered_agnss_request T)" "stays Q (nv_data_delete T k)"
  "stays Q (set_fix T i r)" "stays Q (gnss_enable_all_nmeas T)" "stays Q (gnss_get_agnss_expiry T)" "stays Q (deref q)"
  "stays Q (get_agnss_data T)" "stays Q (get_pgps_data_work_fn T)" "stays Q (inject_pgps_data_work_fn T)"
  "stays Q (notify_pgps_prediction_work_fn T)" "stays Q (stop_gnss_work_fn T)" "stays Q (handle_timeout_work_fn T)"
  by (rule stays_keeps, rule gnss_frame, rule printable_views)+

lemma search_updates [simp]:
  "search_view (s\<lparr>timeout_work := t\<rparr>) = search_view s" "search_view (s\<lparr>stop_work := b\<rparr>) = search_view s"
  "search_view (s\<lparr>get_agnss_data_work := b\<rparr>) = search_view s" "search_view (s\<lparr>inject_pgps_data_work := b\<rparr>) = search_view s"
  "search_view (s\<lparr>notify_pgps_prediction_work := b\<rparr>) = search_view s" "search_view (s\<lparr>get_pgps_data_work := b\<rparr>) = search_view s"
  "search_view (s\<lparr>agnss_need := n\<rparr>) = search_view s" "search_view (s\<lparr>nmea_mask_set := b\<rparr>) = search_view s"
  "search_view (s\<lparr>gnss_elevation := v\<rparr>) = search_view s" "search_view (s\<lparr>pgps_enabled := b\<rparr>) = search_view s"
  "search_view (s\<lparr>prediction := p\<rparr>) = search_view s" "search_view (s\<lparr>pgps_request := r\<rparr>) = search_view s"
  "search_view (s\<lparr>gnss_filtered_ephemerides_enabled := b\<rparr>) = search_view s" "search_view (s\<lparr>agnss_automatic := b\<rparr>) = search_view s"
  "search_view (s\<lparr>pvt_output_level := v\<rparr>) = search_view s" "search_view (s\<lparr>nmea_output_level := v\<rparr>) = search_view s"
  "search_view (s\<lparr>event_output_level := v\<rparr>) = search_view s" "search_view (s\<lparr>gnss_event_msgq := q\<rparr>) = search_view s"
  "search_view (s\<lparr>blocks := bl\<rparr>) = search_view s" "search_view (s\<lparr>next_event_block := k\<rparr>) = search_view s"
  "search_view (s\<lparr>data_fault := b\<rparr>) = search_view s"
  "search_view (s\<lparr>agnss_inject_ephe := b1, agnss_inject_alm := b2, agnss_inject_utc := b3, agnss_inject_klob := b4, agnss_inject_neq := b5,
     agnss_inject_time := b6, agnss_inject_pos := b7, agnss_inject_int := b8, agnss_inject_ggto := b9\<rparr>) = search_view s"
  by (simp_all add: search_view_def)

lemma stays_events:
  "stays Q (gnss_event_handler T e)" "stays Q (data_handler_turn T)" "stays Q (pgps_event_handler v)" "stays Q (new_block)" "stays Q (k_free p)"
proof -
  show n: "stays Q new_block" and f: "stays Q (k_free p)" for p
    unfolding new_block_def k_free_def gnss_fault_def by (auto intro!: stays_intros split: option.split)
  have h: "stays Q (get_event_data T ty rd)" for ty rd
    unfolding get_event_data_def put_block_def by (auto intro!: stays_intros n f split: prod.split)
  show "stays Q (gnss_event_handler T e)"
    unfolding gnss_event_handler_def event_with_data_def put_event_def by (auto intro!: stays_intros h f split: prod.split)
  have a: "stays Q (handle_agnss_req T r)" for r
    unfolding handle_agnss_req_def by (auto intro!: stays_intros)
  have "stays Q (case d of Uninit \<Rightarrow> gnss_fault | Pvt p \<Rightarrow> print_pvt T p | Nmea n \<Rightarrow> gnss_fault | Agnss f \<Rightarrow> gnss_fault)"
    "stays Q (case d of Uninit \<Rightarrow> gnss_fault | Pvt p \<Rightarrow> gnss_fault | Nmea n \<Rightarrow> print_nmea T n | Agnss f \<Rightarrow> gnss_fault)"
    "stays Q (case d of Uninit \<Rightarrow> gnss_fault | Pvt p \<Rightarrow> gnss_fault | Nmea n \<Rightarrow> gnss_fault | Agnss f \<Rightarrow> handle_agnss_req T f)" for d
    by (cases d; auto simp: gnss_fault_def intro!: stays_intros a)+
  then have "stays Q (handle_event T x)" for x
    unfolding handle_event_def by (intro stays_intros)
  then show "stays Q (data_handler_turn T)"
    unfolding data_handler_turn_def by (auto intro!: stays_intros f split: list.split)
  show "stays Q (pgps_event_handler v)"
    unfolding pgps_event_handler_def pgps_available_def by (auto intro!: stays_intros split: pgps_event.split)
qed

text \<open>Commands that neither start nor stop the search nor set the mode: all but six.\<close>

definition init_ok :: "(search_state \<Rightarrow> bool) \<Rightarrow> bool" where
  "init_ok Q \<longleftrightarrow> (\<forall>m w i. Q (m, w, i) \<longrightarrow> Q (m, if i then w else None, True))"

lemma init_view:
  fixes s :: "('w, 'z) gnss_scheme"
  shows "search_view (exec_state (gnss_api_init T) s) = (operation_mode s, if gnss_api_initialized s then start_work s else None, True)"
proof (cases "gnss_api_initialized s")
  case True
  then show ?thesis by (simp add: gnss_api_init_def exec_simps search_view_def)
next
  case False
  define p :: "('w, 'z, unit) gnss_prog" where "p = do {
     act (event_handler_set T);
     err \<leftarrow> call (modem_gnss_set T ''qzss_nmea_mode'' (gnss_num T ''NRF_MODEM_GNSS_QZSS_NMEA_MODE_CUSTOM''));
     doif (err \<noteq> 0) (mosh_warn T ''GNSS: Failed to enable custom QZSS NMEA mode, error: %d (%s)'' [PInt err, PStr (gnss_err_to_str T err)])
   }"
  have "search_view (exec_state p s) = search_view s"
    unfolding p_def by (intro keepsD keeps_intros gnss_frame printable_views)
  moreover have "exec_state (gnss_api_init T) s = (exec_state p s)\<lparr>gnss_api_initialized := True, stop_work := False, start_work := None,
      timeout_work := None, get_agnss_data_work := False\<rparr>"
    using False by (simp add: gnss_api_init_def p_def exec_simps)
  ultimately show ?thesis using False by (simp add: search_view_def)
qed

lemma stays_init: "init_ok Q \<Longrightarrow> stays Q (gnss_api_init T)"
  unfolding stays_def init_view init_ok_def by (auto simp: search_view_def)

lemma stays_api:
  assumes "init_ok Q"
  shows
    "stays Q (gnss_delete_data T d)" "stays Q (gnss_set_duty_cycling_policy T p)" "stays Q (gnss_set_elevation_threshold T k)"
    "stays Q (gnss_set_use_case T b c)" "stays Q (gnss_set_nmea_mask T r)" "stays Q (gnss_set_nmea_talker_mode T d)"
    "stays Q (gnss_set_nmea_qzss_mode T d)" "stays Q (gnss_set_priority_time_windows T b)"
    "stays Q (gnss_set_dynamics_mode T d)" "stays Q (gnss_set_qzss_mask T r)" "stays Q (gnss_set_1pps_mode T pps)"
    "stays Q (gnss_set_timing_source T d)" "stays Q (gnss_inject_agnss_data T)" "stays Q (gnss_enable_pgps T)"
    "stays Q (gnss_delete_data_custom T m)" "stays Q (gnss_set_system_mask T k)"
    "stays Q (gnss_set_agnss_filtered_ephemerides T b)"
  unfolding gnss_delete_data_def gnss_set_duty_cycling_policy_def gnss_set_elevation_threshold_def gnss_set_use_case_def
    gnss_set_nmea_mask_def gnss_set_nmea_talker_mode_def gnss_set_nmea_qzss_mode_def gnss_set_priority_time_windows_def
    gnss_set_dynamics_mode_def gnss_set_qzss_mask_def gnss_set_1pps_mode_def gnss_set_timing_source_def
    gnss_inject_agnss_data_def gnss_enable_pgps_def gnss_delete_data_custom_def gnss_set_system_mask_def
    gnss_set_agnss_filtered_ephemerides_def Let_def
  by (auto intro!: stays_intros stays_init [OF assms])

lemma stays_commands:
  assumes "init_ok Q"
  shows
    "stays Q (cmd_gnss_delete_ephe T)" "stays Q (cmd_gnss_delete_ekf T)" "stays Q (cmd_gnss_delete_all T)"
    "stays Q (cmd_gnss_delete_tcxo T)" "stays Q (cmd_gnss_dynamics_general T)" "stays Q (cmd_gnss_dynamics_stationary T)"
    "stays Q (cmd_gnss_dynamics_pedestrian T)" "stays Q (cmd_gnss_dynamics_automotive T)"
    "stays Q (cmd_gnss_config_nmea_talker_standard T)" "stays Q (cmd_gnss_config_nmea_talker_gp_only T)"
    "stays Q (cmd_gnss_config_nmea_qzss_standard T)" "stays Q (cmd_gnss_config_nmea_qzss_custom T)"
    "stays Q (cmd_gnss_config_powersave_off T)" "stays Q (cmd_gnss_config_powersave_perf T)"
    "stays Q (cmd_gnss_config_powersave_power T)" "stays Q (cmd_gnss_config_timing_rtc T)"
    "stays Q (cmd_gnss_config_timing_tcxo T)" "stays Q (cmd_gnss_priority_enable T)" "stays Q (cmd_gnss_priority_disable T)"
    "stays Q (cmd_gnss_agnss_automatic_enable)" "stays Q (cmd_gnss_agnss_automatic_disable)"
    "stays Q (cmd_gnss_agnss_filtered_enable T)" "stays Q (cmd_gnss_agnss_filtered_disable T)"
    "stays Q (cmd_gnss_agnss_expiry T)" "stays Q (cmd_gnss_pgps_enable T)" "stays Q (cmd_gnss_delete_mask T argv)"
    "stays Q (cmd_gnss_config_system T argv)" "stays Q (cmd_gnss_config_elevation T argv)"
    "stays Q (cmd_gnss_config_use_case T argv)" "stays Q (cmd_gnss_config_nmea_mask T argv)"
    "stays Q (cmd_gnss_config_qzss_mask T argv)" "stays Q (cmd_gnss_agnss_inject T argv)"
    "stays Q (cmd_gnss_agnss_ref_altitude T argv)" "stays Q (cmd_gnss_agnss_filter T argv)"
    "stays Q (cmd_gnss_1pps_enable T argv)" "stays Q (cmd_gnss_1pps_enable_at T argv)" "stays Q (cmd_gnss_1pps_disable T)"
    "stays Q (cmd_gnss_output T argv)"
  unfolding cmd_gnss_delete_ephe_def cmd_gnss_delete_ekf_def cmd_gnss_delete_all_def cmd_gnss_delete_tcxo_def
    cmd_gnss_dynamics_general_def cmd_gnss_dynamics_stationary_def cmd_gnss_dynamics_pedestrian_def
    cmd_gnss_dynamics_automotive_def cmd_gnss_config_nmea_talker_standard_def cmd_gnss_config_nmea_talker_gp_only_def
    cmd_gnss_config_nmea_qzss_standard_def cmd_gnss_config_nmea_qzss_custom_def cmd_gnss_config_powersave_off_def
    cmd_gnss_config_powersave_perf_def cmd_gnss_config_powersave_power_def cmd_gnss_config_timing_rtc_def
    cmd_gnss_config_timing_tcxo_def cmd_gnss_priority_enable_def cmd_gnss_priority_disable_def
    cmd_gnss_agnss_automatic_enable_def cmd_gnss_agnss_automatic_disable_def cmd_gnss_agnss_filtered_enable_def
    cmd_gnss_agnss_filtered_disable_def cmd_gnss_agnss_expiry_def cmd_gnss_pgps_enable_def cmd_gnss_delete_mask_def
    cmd_gnss_config_system_def cmd_gnss_config_elevation_def cmd_gnss_config_use_case_def cmd_gnss_config_nmea_mask_def
    cmd_gnss_config_qzss_mask_def cmd_gnss_agnss_inject_def cmd_gnss_agnss_ref_altitude_def cmd_gnss_agnss_filter_def
    cmd_gnss_1pps_enable_def cmd_gnss_1pps_enable_at_def cmd_gnss_1pps_disable_def cmd_gnss_output_def
    inject_line_def pulse_args_def Let_def gnss_set_agnss_data_enabled_def gnss_set_agnss_automatic_def gnss_set_pvt_output_level_def
    gnss_set_nmea_output_level_def gnss_set_event_output_level_def
  by (auto intro!: stays_intros stays_api [OF assms] stays_init [OF assms] stays_events split: option.split prod.split)

lemma staysD: "stays Q p \<Longrightarrow> Q (search_view s) \<Longrightarrow> Q (search_view (exec_state p s))"
  by (simp add: stays_def)

text \<open>What the start, the stop, a mode and the work item need.\<close>

definition start_ok :: "(search_state \<Rightarrow> bool) \<Rightarrow> bool" where
  "start_ok Q \<longleftrightarrow> (\<forall>m i. Q (m, None, i) \<longrightarrow> Q (m, Some 0, i))"

definition stop_ok :: "(search_state \<Rightarrow> bool) \<Rightarrow> bool" where
  "stop_ok Q \<longleftrightarrow> (\<forall>w i. Q (GNSS_OP_MODE_PERIODIC_FIX, w, i) \<longrightarrow> Q (GNSS_OP_MODE_PERIODIC_FIX, None, i))"

definition mode_ok :: "gnss_operation_mode \<Rightarrow> (search_state \<Rightarrow> bool) \<Rightarrow> bool" where
  "mode_ok m Q \<longleftrightarrow> (\<forall>k w i. Q (k, w, i) \<longrightarrow> Q (m, w, i))"

definition restart_ok :: "(search_state \<Rightarrow> bool) \<Rightarrow> bool" where
  "restart_ok Q \<longleftrightarrow> (\<forall>m v w i. Q (m, Some v, i) \<longrightarrow> Q (m, Some w, i))"

definition line_ok :: "(search_state \<Rightarrow> bool) \<Rightarrow> string list \<Rightarrow> bool" where
  "line_ok Q path \<longleftrightarrow> (path = [''start''] \<longrightarrow> start_ok Q) \<and> (path = [''stop''] \<longrightarrow> stop_ok Q) \<and>
     (path = [''mode'', ''cont''] \<longrightarrow> mode_ok GNSS_OP_MODE_CONTINUOUS Q) \<and>
     (path = [''mode'', ''single''] \<longrightarrow> mode_ok GNSS_OP_MODE_SINGLE_FIX Q) \<and>
     (path = [''mode'', ''periodic''] \<longrightarrow> mode_ok GNSS_OP_MODE_PERIODIC_FIX Q) \<and>
     (path = [''mode'', ''periodic_gnss''] \<longrightarrow> mode_ok GNSS_OP_MODE_PERIODIC_FIX_GNSS Q)"

lemma stays_start:
  assumes "init_ok Q" "start_ok Q"
  shows "stays Q (cmd_gnss_start T)"
proof -
  have "stays Q (schedule_start 0)"
    using assms(2) unfolding schedule_start_def by (intro stays_modify) (auto simp: search_view_def start_ok_def)
  then show ?thesis
    unfolding cmd_gnss_start_def gnss_start_def by (auto intro!: stays_intros stays_init [OF assms(1)])
qed

lemma stays_stop:
  assumes "init_ok Q" "stop_ok Q"
  shows "stays Q (cmd_gnss_stop T)"
proof -
  have m: "stays Q (do { mode \<leftarrow> gets operation_mode;
      if mode = GNSS_OP_MODE_PERIODIC_FIX then do {
        modify (\<lambda>s. s\<lparr>timeout_work := None\<rparr>);
        modify (\<lambda>s. s\<lparr>start_work := None\<rparr>);
        err \<leftarrow> call (modem_gnss_stop T);
        return 0
      } else modem_stop T })"
    using assms(2) stays_quiet(14) [of Q T] unfolding stays_def stop_ok_def by (auto simp: exec_simps search_view_def)
  show ?thesis unfolding cmd_gnss_stop_def gnss_stop_def by (intro stays_outcome stays_bind stays_init [OF assms(1)] m)
qed

lemma stays_mode:
  assumes "init_ok Q"
  shows "mode_ok GNSS_OP_MODE_CONTINUOUS Q \<Longrightarrow> stays Q (cmd_gnss_mode_cont T)"
    "mode_ok GNSS_OP_MODE_SINGLE_FIX Q \<Longrightarrow> stays Q (cmd_gnss_mode_single T argv)"
    "mode_ok GNSS_OP_MODE_PERIODIC_FIX Q \<Longrightarrow> stays Q (cmd_gnss_mode_periodic T argv)"
    "mode_ok GNSS_OP_MODE_PERIODIC_FIX_GNSS Q \<Longrightarrow> stays Q (cmd_gnss_mode_periodic_gnss T argv)"
  unfolding cmd_gnss_mode_cont_def cmd_gnss_mode_single_def cmd_gnss_mode_periodic_def cmd_gnss_mode_periodic_gnss_def
    gnss_set_continuous_mode_def gnss_set_single_fix_mode_def gnss_set_periodic_fix_mode_def gnss_set_periodic_fix_mode_gnss_def Let_def
  by (intro stays_intros stays_init [OF assms]; simp add: mode_ok_def search_view_def)+

lemma stays_tables:
  assumes "init_ok Q"
  shows "\<forall>x \<in> set (gnss_delete_cmds T). stays Q (snd (snd x) argv)" "\<forall>x \<in> set (gnss_dynamics_cmds T). stays Q (snd (snd x) argv)"
    "\<forall>x \<in> set (gnss_config_cmds T). stays Q (snd (snd x) argv)" "\<forall>x \<in> set (gnss_1pps_cmds T). stays Q (snd (snd x) argv)"
    "\<forall>x \<in> set (gnss_agnss_cmds T). stays Q (snd (snd x) argv)"
    "\<forall>x \<in> set (gnss_mode_cmds T). line_ok Q (fst x) \<longrightarrow> stays Q (snd (snd x) argv)"
  unfolding gnss_delete_cmds_def gnss_mode_cmds_def gnss_dynamics_cmds_def gnss_config_cmds_def gnss_agnss_cmds_def gnss_1pps_cmds_def
  by (simp_all add: stays_commands [OF assms] stays_mode [OF assms] line_ok_def)

lemma line_ok_search [simp]: "line_ok Q [''start''] \<longleftrightarrow> start_ok Q" "line_ok Q [''stop''] \<longleftrightarrow> stop_ok Q"
  by (simp_all add: line_ok_def)

lemma stays_table:
  assumes "init_ok Q"
  shows "\<forall>x \<in> set (gnss_cmds T). line_ok Q (fst x) \<longrightarrow> stays Q (snd (snd x) argv)"
  unfolding gnss_cmds_def set_append ball_Un
  by (simp add: stays_commands [OF assms] stays_start [OF assms] stays_stop [OF assms] stays_tables [OF assms])

lemma search_line:
  fixes s :: "('w, 'z) gnss_scheme"
  assumes "init_ok Q" "line_ok Q path" "Q (search_view s)"
  shows "Q (search_view (exec_state (gnss_command T path argv) s))"
proof (cases rule: gnss_line_cases [where path = path and T = T and argv = argv and s = s])
  case (1 n h)
  have "stays Q (h argv)" using stays_table [OF assms(1), of T argv] 1(1) assms(2) by fastforce
  then show ?thesis using assms(3) 1(2) by (simp add: stays_def)
next
  case 2
  then show ?thesis using assms(3) by simp
qed

definition input_ok :: "(search_state \<Rightarrow> bool) \<Rightarrow> gnss_input \<Rightarrow> bool" where
  "input_ok Q x = (case x of Gnss_line path argv \<Rightarrow> line_ok Q path | _ \<Rightarrow> True)"

lemma start_work_view:
  fixes s :: "('w, 'z) gnss_scheme"
  assumes "start_work s = Some v"
  shows "\<exists>w. search_view (exec_state (start_gnss_work_fn T) (s\<lparr>start_work := None\<rparr>)) = (operation_mode s, Some w, gnss_api_initialized s)"
proof -
  define p :: "('w, 'z, unit) gnss_prog" where "p = do {
     err \<leftarrow> call (modem_gnss_start T);
     (if err \<noteq> 0 then mosh_error T ''GNSS: Failed to start GNSS, error: %d (%s)'' [PInt err, PStr (gnss_err_to_str T err)]
      else event_print T ''GNSS: Search started'')
   }"
  let ?t = "exec_state p (s\<lparr>start_work := None\<rparr>)"
  have "search_view ?t = search_view (s\<lparr>start_work := None\<rparr>)"
    unfolding p_def by (intro keepsD keeps_intros gnss_frame printable_views)
  moreover have "exec_state (start_gnss_work_fn T) (s\<lparr>start_work := None\<rparr>) = exec_state (do {
       interval \<leftarrow> gets periodic_fix_interval;
       schedule_start (unat interval);
       retry \<leftarrow> gets periodic_fix_retry;
       doif (retry > 0 \<and> retry < interval) (schedule_timeout (unat retry)) }) ?t"
    by (simp add: start_gnss_work_fn_def p_def exec_bind result_bind)
  ultimately show ?thesis
    by (auto simp: exec_simps schedule_start_def schedule_timeout_def search_view_def)
qed

lemma search_step:
  fixes s :: "('w, 'z) gnss_scheme"
  assumes "init_ok Q" "restart_ok Q" "input_ok Q x" "Q (search_view s)"
  shows "Q (search_view (gnss_step T s x))"
proof (cases x)
  case Start_due
  show ?thesis
  proof (cases "start_work s")
    case (Some v)
    then have "Q (operation_mode s, Some w, gnss_api_initialized s)" for w
      using assms(2,4) by (auto simp: restart_ok_def search_view_def)
    then show ?thesis using start_work_view [OF Some, of T] Some by (auto simp: gnss_step_def Start_due)
  qed (simp add: gnss_step_def Start_due assms(4))
next
  case (Gnss_line path argv)
  then show ?thesis using search_line [OF assms(1) _ assms(4)] assms(3) by (simp add: gnss_step_def input_ok_def)
qed (simp_all add: gnss_step_def assms(4) staysD [where Q = Q, OF stays_events(1)] staysD [where Q = Q, OF stays_events(2)]
    staysD [where Q = Q, OF stays_events(3)] staysD [where Q = Q, OF stays_quiet(22)] staysD [where Q = Q, OF stays_quiet(23)]
    staysD [where Q = Q, OF stays_quiet(24)] staysD [where Q = Q, OF stays_quiet(25)] staysD [where Q = Q, OF stays_quiet(26)]
    staysD [where Q = Q, OF stays_quiet(27)])

lemma search_run:
  fixes s :: "('w, 'z) gnss_scheme"
  assumes "init_ok Q" "restart_ok Q" "Q (search_view s)"
  shows "\<forall>x \<in> set xs. input_ok Q x \<Longrightarrow> Q (search_view (foldl (gnss_step T) s xs))"
proof (induction xs rule: rev_induct)
  case (snoc x xs)
  then show ?case using search_step [OF assms(1,2), of x "foldl (gnss_step T) s xs" T] by simp
qed (simp add: assms(3))

subsection \<open>When it goes on\<close>

lemma lines_ok:
  assumes "\<And>path argv. Gnss_line path argv \<in> set xs \<Longrightarrow> line_ok Q path"
  shows "\<forall>x \<in> set xs. input_ok Q x"
proof
  fix x assume x: "x \<in> set xs"
  show "input_ok Q x"
  proof (cases x)
    case (Gnss_line path argv)
    then show ?thesis using assms x by (simp add: input_ok_def)
  qed (simp_all add: input_ok_def)
qed

lemma line_okI:
  assumes "path = [''start''] \<Longrightarrow> start_ok Q" "path = [''stop''] \<Longrightarrow> stop_ok Q"
    "path = [''mode'', ''periodic''] \<Longrightarrow> mode_ok GNSS_OP_MODE_PERIODIC_FIX Q"
    and "\<And>m. m \<noteq> GNSS_OP_MODE_PERIODIC_FIX \<Longrightarrow> mode_ok m Q"
  shows "line_ok Q path"
  by (simp add: line_ok_def assms)

text \<open>
  C14: After \<open>gnss stop\<close> in the periodic mode no search is started any more, whatever comes, until
  \<open>gnss start\<close>.
\<close>

theorem gnss_stop_final:
  fixes s :: "('w, 'z) gnss_scheme"
  assumes "operation_mode s = GNSS_OP_MODE_PERIODIC_FIX" "\<forall>x \<in> set xs. \<forall>argv. x \<noteq> Gnss_line [''start''] argv"
  shows "start_work (foldl (gnss_step T) (gnss_step T s (Gnss_line [''stop''] [''stop''])) xs) = None"
proof -
  let ?Q = "\<lambda>v :: search_state. fst (snd v) = None"
  let ?t = "gnss_step T s (Gnss_line [''stop''] [''stop''])"
  have "operation_mode (exec_state (gnss_api_init T) s) = GNSS_OP_MODE_PERIODIC_FIX"
    using init_view [of T s] assms(1) by (simp add: search_view_def)
  then have "?Q (search_view ?t)"
    by (simp add: gnss_step_def gnss_command_def gnss_cmds_def cmd_gnss_stop_def outcome_def gnss_stop_def exec_simps search_view_def)
  moreover have ok: "init_ok ?Q" "restart_ok ?Q" "stop_ok ?Q" "mode_ok m ?Q" for m
    by (simp_all add: init_ok_def restart_ok_def stop_ok_def mode_ok_def)
  moreover have "Gnss_line [''start''] argv \<notin> set xs" for argv using assms(2) by blast
  then have "\<forall>x \<in> set xs. input_ok ?Q x" by (intro lines_ok line_okI) (simp_all add: ok del: not_None_eq)
  ultimately have "?Q (search_view (foldl (gnss_step T) ?t xs))" by (intro search_run [where Q = ?Q])
  then show ?thesis by (simp add: search_view_def)
qed

theorem gnss_stop_final_witness:
  "start_work (foldl (gnss_step test_gnss) (gnss_step test_gnss periodic_search (Gnss_line [''stop''] [''stop'']))
     [Start_due, Modem_event 2, Gnss_line [''mode'', ''single''] [''single'', ''0'']]) = None"
  by (rule gnss_stop_final) (simp_all add: periodic_search_def)

text \<open>
  C15: A periodic search goes on: whatever comes, the next start stays scheduled, until
  \<open>gnss stop\<close>.
\<close>

theorem gnss_search_goes_on:
  fixes s :: "('w, 'z) gnss_scheme"
  assumes "start_work s \<noteq> None" "gnss_api_initialized s" "\<forall>x \<in> set xs. \<forall>argv. x \<noteq> Gnss_line [''stop''] argv"
  shows "start_work (foldl (gnss_step T) s xs) \<noteq> None"
proof -
  let ?Q = "\<lambda>v :: search_state. fst (snd v) \<noteq> None \<and> snd (snd v)"
  have "?Q (search_view s)" using assms(1,2) by (simp add: search_view_def)
  moreover have ok: "init_ok ?Q" "restart_ok ?Q" "start_ok ?Q" "mode_ok m ?Q" for m
    by (simp_all add: init_ok_def restart_ok_def start_ok_def mode_ok_def)
  moreover have "Gnss_line [''stop''] argv \<notin> set xs" for argv using assms(3) by blast
  then have "\<forall>x \<in> set xs. input_ok ?Q x" by (intro lines_ok line_okI) (simp_all add: ok del: not_None_eq)
  ultimately have "?Q (search_view (foldl (gnss_step T) s xs))" by (intro search_run [where Q = ?Q])
  then show ?thesis by (simp add: search_view_def)
qed

theorem gnss_search_goes_on_witness:
  "start_work (foldl (gnss_step test_gnss) periodic_search [Start_due, Modem_event 2, Stop_due, Start_due, Timeout_due]) \<noteq> None"
  by (rule gnss_search_goes_on) (simp_all add: periodic_search_def)

text \<open>
  C37: Leaving the periodic mode while it searches leaves the next start scheduled, and then
  \<open>gnss stop\<close> does not cancel it: the search starts again and again until the periodic mode is set again.
\<close>

theorem gnss_stop_lost:
  fixes s :: "('w, 'z) gnss_scheme"
  assumes "start_work s \<noteq> None" "gnss_api_initialized s" "\<forall>x \<in> set xs. \<forall>argv. x \<noteq> Gnss_line [''mode'', ''periodic''] argv"
  shows "start_work (foldl (gnss_step T) (gnss_step T s (Gnss_line [''mode'', ''cont''] [''cont''])) xs) \<noteq> None"
proof -
  let ?Q = "\<lambda>v :: search_state. fst v \<noteq> GNSS_OP_MODE_PERIODIC_FIX \<and> fst (snd v) \<noteq> None \<and> snd (snd v)"
  let ?t = "gnss_step T s (Gnss_line [''mode'', ''cont''] [''cont''])"
  let ?i = "exec_state (gnss_api_init T) s"
  have i: "start_work ?i = start_work s" "gnss_api_initialized ?i" using init_view [of T s] assms(2) by (simp_all add: search_view_def)
  have "search_view (exec_state (set_fix T 1 0) u) = search_view u" for u :: "('w, 'z) gnss_scheme"
    by (intro keepsD gnss_frame printable_views)
  then have "search_view ?t = (GNSS_OP_MODE_CONTINUOUS, start_work s, True)"
    by (simp add: gnss_step_def gnss_command_def gnss_cmds_def gnss_delete_cmds_def gnss_mode_cmds_def cmd_gnss_mode_cont_def outcome_def
      gnss_set_continuous_mode_def exec_simps i) (simp add: search_view_def i)
  then have "?Q (search_view ?t)" using assms(1) by simp
  moreover have ok: "init_ok ?Q" "restart_ok ?Q" "start_ok ?Q" "stop_ok ?Q" "m \<noteq> GNSS_OP_MODE_PERIODIC_FIX \<Longrightarrow> mode_ok m ?Q" for m
    by (simp_all add: init_ok_def restart_ok_def start_ok_def stop_ok_def mode_ok_def)
  moreover have "Gnss_line [''mode'', ''periodic''] argv \<notin> set xs" for argv using assms(3) by blast
  then have "\<forall>x \<in> set xs. input_ok ?Q x" by (intro lines_ok line_okI) (simp_all add: ok del: not_None_eq)
  ultimately have "?Q (search_view (foldl (gnss_step T) ?t xs))" by (intro search_run [where Q = ?Q])
  then show ?thesis by (simp add: search_view_def)
qed

theorem gnss_stop_lost_witness:
  "start_work (foldl (gnss_step test_gnss) (gnss_step test_gnss periodic_search (Gnss_line [''mode'', ''cont''] [''cont'']))
     [Gnss_line [''stop''] [''stop''], Start_due, Gnss_line [''stop''] [''stop'']]) \<noteq> None"
  by (rule gnss_stop_lost) (simp_all add: periodic_search_def)

end
